(* ===== verification/Prelude.thy ===== *)
theory Prelude
  imports Main "HOL-Library.Word"
begin

section \<open>Prelude: results, stateful computations, lists\<close>

text \<open>
  What every component of the model shares.

  \<^item> Text is a \<open>string\<close> (a list of bytes): every \<open>std::string_view\<close> of the compiler is
    modelled by the bytes it shows.
  \<^item> Code that can throw returns \<open>'e + 'a\<close> (\<open>Inl\<close> the exception). Code that also
    changes state is a function from the state to \<open>'e + 'a \<times> 's\<close>; \<open>ret\<close>, \<open>bnd\<close>
    and \<open>fail\<close> compose such functions in the order the code runs them. Nothing
    catches an exception before \<open>main\<close>, so the state at the throw is not kept. Where the constructor of an exception
    does more than to keep its arguments, that is added by \<open>Diagnostics.throwing\<close>.
\<close>

named_theorems run_simps \<open>evaluation of stateful computations\<close>
named_theorems inv_intros \<open>preservation of the component invariants\<close>
named_theorems frame_simps \<open>fields an operation leaves alone\<close>

type_synonym byte = char

abbreviation NUL :: byte where "NUL \<equiv> CHR 0x00"
abbreviation newline :: byte where "newline \<equiv> CHR 0x0A"
abbreviation backslash :: byte where "backslash \<equiv> CHR 0x5C"
abbreviation dquote :: byte where "dquote \<equiv> CHR 0x22"
abbreviation squote :: byte where "squote \<equiv> CHR 0x27"

subsection \<open>Stateful computations that can throw\<close>

type_synonym ('s, 'e, 'a) comp = "'s \<Rightarrow> 'e + 'a \<times> 's"

definition ret :: "'a \<Rightarrow> ('s, 'e, 'a) comp" where
  "ret x = (\<lambda>s. Inr (x, s))"

definition fail :: "'e \<Rightarrow> ('s, 'e, 'a) comp" where
  "fail e = (\<lambda>_. Inl e)"

definition bnd :: "('s, 'e, 'a) comp \<Rightarrow> ('a \<Rightarrow> ('s, 'e, 'b) comp) \<Rightarrow> ('s, 'e, 'b) comp" where
  "bnd m f = (\<lambda>s. case m s of Inl e \<Rightarrow> Inl e | Inr (x, s') \<Rightarrow> f x s')"

definition gets :: "('s \<Rightarrow> 'a) \<Rightarrow> ('s, 'e, 'a) comp" where
  "gets f = (\<lambda>s. Inr (f s, s))"

definition modify :: "('s \<Rightarrow> 's) \<Rightarrow> ('s, 'e, unit) comp" where
  "modify f = (\<lambda>s. Inr ((), f s))"

lemma run_ret [simp, run_simps]: "ret x s = Inr (x, s)"
  by (simp add: ret_def)

lemma run_fail [simp, run_simps]: "fail e s = Inl e"
  by (simp add: fail_def)

lemma run_gets [simp, run_simps]: "gets f s = Inr (f s, s)"
  by (simp add: gets_def)

lemma run_modify [simp, run_simps]: "modify f s = Inr ((), f s)"
  by (simp add: modify_def)

lemma run_bnd_Inr [run_simps]: "m s = Inr (x, s') \<Longrightarrow> bnd m f s = f x s'"
  by (simp add: bnd_def)

lemma run_bnd_Inl [run_simps]: "m s = Inl e \<Longrightarrow> bnd m f s = Inl e"
  by (simp add: bnd_def)

lemma bnd_eq_Inr_iff:
  "bnd m f s = Inr y \<longleftrightarrow> (\<exists>x s'. m s = Inr (x, s') \<and> f x s' = Inr y)"
  by (auto simp: bnd_def split: sum.splits)

lemma bnd_eq_Inl_iff:
  "bnd m f s = Inl e \<longleftrightarrow> m s = Inl e \<or> (\<exists>x s'. m s = Inr (x, s') \<and> f x s' = Inl e)"
  by (auto simp: bnd_def split: sum.splits)

lemma bndE [elim!]:
  assumes "bnd m f s = Inr y"
  obtains x s' where "m s = Inr (x, s')" and "f x s' = Inr y"
  using assms by (auto simp: bnd_eq_Inr_iff)

lemma bnd_ret_left [simp]: "bnd (ret x) f = f x"
  by (simp add: bnd_def fun_eq_iff)

lemma bnd_ret_right [simp]: "bnd m ret = m"
  by (auto simp: bnd_def fun_eq_iff split: sum.splits)

lemma bnd_assoc: "bnd (bnd m f) g = bnd m (\<lambda>x. bnd (f x) g)"
  by (auto simp: bnd_def fun_eq_iff split: sum.splits)

subsection \<open>Lists\<close>

text \<open>The first element of a list that satisfies a predicate, with its position
  (the code's \<open>std::find_if\<close> and counting loops).\<close>

fun find_index :: "('a \<Rightarrow> bool) \<Rightarrow> 'a list \<Rightarrow> nat option" where
  "find_index P [] = None"
| "find_index P (x # xs) = (if P x then Some 0 else map_option Suc (find_index P xs))"

lemma find_index_None_iff: "find_index P xs = None \<longleftrightarrow> (\<forall>x \<in> set xs. \<not> P x)"
  by (induction xs) auto

lemma find_index_SomeD:
  "find_index P xs = Some i \<Longrightarrow> i < length xs \<and> P (xs ! i) \<and> (\<forall>j < i. \<not> P (xs ! j))"
proof (induction xs arbitrary: i)
  case Nil
  then show ?case by simp
next
  case (Cons x xs)
  then show ?case
    by (auto split: if_splits simp: nth_Cons split: nat.splits)
qed

lemma take_Suc_nth: "n < length xs \<Longrightarrow> take (Suc n) xs = take n xs @ [xs ! n]"
  by (rule take_Suc_conv_app_nth)

lemma take_drop_Suc:
  "i \<le> j \<Longrightarrow> j < length xs \<Longrightarrow> take (Suc j - i) (drop i xs) = take (j - i) (drop i xs) @ [xs ! j]"
  by (simp add: Suc_diff_le take_Suc_conv_app_nth)

end
