(* ===== verification/Arena.thy ===== *)
theory Arena
  imports Prelude
begin

section \<open>Bump buffers (\<open>memory/arena.cpp\<close>)\<close>

text \<open>
  The compiler keeps three append-only byte buffers: the file buffers, the decoded string
  literals and the type names. Each is an \<open>Arena\<close>: a block of fresh, zeroed pages and
  the number of bytes already used. \<open>arena_write\<close> copies bytes behind the used part and
  never checks the capacity, as the code does not. Memory is the function from the offset
  to the byte stored there.
\<close>

record arena =
  memory :: "nat \<Rightarrow> byte"
  capacity :: nat
  occupied :: nat

definition arena_init :: "nat \<Rightarrow> arena" where
  "arena_init cap = \<lparr>memory = (\<lambda>_. NUL), capacity = cap, occupied = 0\<rparr>"

text \<open>\<open>write\<close> returns the address the bytes were copied to.\<close>

definition arena_write :: "arena \<Rightarrow> byte list \<Rightarrow> nat \<times> arena" where
  "arena_write a bytes =
     (occupied a,
      a\<lparr>memory := (\<lambda>i. if occupied a \<le> i \<and> i < occupied a + length bytes
                       then bytes ! (i - occupied a) else memory a i),
        occupied := occupied a + length bytes\<rparr>)"

definition arena_write_sv :: "arena \<Rightarrow> string \<Rightarrow> arena" where
  "arena_write_sv a sv = snd (arena_write a sv)"

definition arena_view :: "arena \<Rightarrow> nat \<Rightarrow> nat \<Rightarrow> string" where
  "arena_view a start len = map (memory a) [start..<start + len]"

definition arena_get_slice :: "arena \<Rightarrow> nat \<Rightarrow> string" where
  "arena_get_slice a start = arena_view a start (occupied a - start)"

subsection \<open>The interface the clients use\<close>

text \<open>
  What the lexer, the file manager and the type names rely on: bytes written after a mark
  are what a slice from that mark shows, and a view taken of the used part never changes
  afterwards. So a \<open>string_view\<close> into the buffer may be modelled by its bytes. The table of
  attributes has the same interface, with tokens instead of bytes.
\<close>

locale append_buffer =
  fixes append_bytes :: "'b \<Rightarrow> 'x list \<Rightarrow> 'b"
    and mark :: "'b \<Rightarrow> nat"
    and slice :: "'b \<Rightarrow> nat \<Rightarrow> 'x list"
    and view :: "'b \<Rightarrow> nat \<Rightarrow> nat \<Rightarrow> 'x list"
  assumes slice_at_mark: "slice b (mark b) = []"
    and slice_write: "m \<le> mark b \<Longrightarrow> slice (append_bytes b bs) m = slice b m @ bs"
    and mark_write: "mark (append_bytes b bs) = mark b + length bs"
    and view_stable: "m + n \<le> mark b \<Longrightarrow> view (append_bytes b bs) m n = view b m n"
    and view_slice: "m \<le> mark b \<Longrightarrow> view b m (mark b - m) = slice b m"
begin

fun write_all :: "'b \<Rightarrow> 'x list list \<Rightarrow> 'b" where
  "write_all b [] = b"
| "write_all b (bs # bss) = write_all (append_bytes b bs) bss"

lemma mark_write_all: "mark (write_all b bss) = mark b + length (concat bss)"
  by (induction bss arbitrary: b) (auto simp: mark_write)

lemma slice_write_all:
  "m \<le> mark b \<Longrightarrow> slice (write_all b bss) m = slice b m @ concat bss"
  by (induction bss arbitrary: b) (auto simp: slice_write mark_write)

lemma view_write_all: "m + n \<le> mark b \<Longrightarrow> view (write_all b bss) m n = view b m n"
  by (induction bss arbitrary: b) (auto simp: view_stable mark_write)

text \<open>A lexeme built by any sequence of writes keeps its bytes under all later writes.\<close>

lemma slice_persistent:
  assumes "m = mark b" and "b1 = write_all b bss"
  shows "view (write_all b1 later) m (mark b1 - m) = concat bss"
proof -
  have "view (write_all b1 later) m (mark b1 - m) = view b1 m (mark b1 - m)"
    using assms by (intro view_write_all) (simp add: mark_write_all)
  also have "\<dots> = slice b1 m"
    using assms by (intro view_slice) (simp add: mark_write_all)
  also have "\<dots> = concat bss"
    using assms by (simp add: slice_write_all slice_at_mark)
  finally show ?thesis .
qed

end

lemma arena_view_write:
  "m + n \<le> occupied a \<Longrightarrow> arena_view (arena_write_sv a bs) m n = arena_view a m n"
  by (auto simp: arena_view_def arena_write_sv_def arena_write_def)

lemma arena_write_sv_occupied [simp]:
  "occupied (arena_write_sv a bs) = occupied a + length bs"
  by (simp add: arena_write_sv_def arena_write_def)

lemma arena_write_sv_capacity [simp, frame_simps]: "capacity (arena_write_sv a bs) = capacity a"
  by (simp add: arena_write_sv_def arena_write_def)

lemma arena_get_slice_write:
  assumes "m \<le> occupied a"
  shows "arena_get_slice (arena_write_sv a bs) m = arena_get_slice a m @ bs"
proof -
  let ?a = "arena_write_sv a bs"
  have "[m..<occupied a + length bs] = [m..<occupied a] @ [occupied a..<occupied a + length bs]"
    using assms by (rule upt_add_eq_append)
  moreover have "map (memory ?a) [m..<occupied a] = map (memory a) [m..<occupied a]"
    by (auto simp: arena_write_sv_def arena_write_def)
  moreover have "map (memory ?a) [occupied a..<occupied a + length bs] = bs"
    by (rule nth_equalityI) (auto simp: arena_write_sv_def arena_write_def)
  ultimately show ?thesis
    using assms by (simp add: arena_get_slice_def arena_view_def)
qed

interpretation arena_buffer:
  append_buffer arena_write_sv occupied arena_get_slice arena_view
  by unfold_locales
    (auto simp: arena_get_slice_write arena_view_write,
     auto simp: arena_get_slice_def arena_view_def)

subsection \<open>Properties\<close>

text \<open>The bytes of the arena stay inside the reserved pages exactly as long as the callers
  ask for no more than the capacity: the arena itself has no guard.\<close>

definition arena_ok :: "arena \<Rightarrow> bool" where
  "arena_ok a \<longleftrightarrow> occupied a \<le> capacity a"

lemma arena_ok_init [inv_intros]: "arena_ok (arena_init cap)"
  by (simp add: arena_ok_def arena_init_def)

lemma arena_ok_write_iff:
  "arena_ok (arena_write_sv a bs) \<longleftrightarrow> occupied a + length bs \<le> capacity a"
  by (simp add: arena_ok_def)

text \<open>C21: A text copied to the arena piece by piece (the way the lexer copies a string literal
  with escapes and \<open>Type::to_string\<close> copies a type name) is still what the view of it shows
  after any further writes: a \<open>string_view\<close> into an arena never changes.\<close>

theorem arena_lexeme_persistent:
  "let a1 = foldl arena_write_sv a pieces;
       n = occupied a1 - occupied a
   in arena_view (foldl arena_write_sv a1 later) (occupied a) n = concat pieces"
proof -
  have eq: "foldl arena_write_sv b bss = arena_buffer.write_all b bss" for b bss
    by (induction bss arbitrary: b) auto
  show ?thesis
    unfolding eq Let_def by (rule arena_buffer.slice_persistent [OF refl refl])
qed

end
