(* ===== verification/Token.thy ===== *)
theory Token
  imports Prelude
begin

section \<open>Tokens (\<open>token.hpp\<close>, \<open>location.hpp\<close>, \<open>token.cpp\<close>)\<close>

text \<open>
  The token types in the order of the C++ enumeration: the parser and the analyzer compare
  them with \<open><\<close> and \<open>>\<close> against the marker enumerators (\<open>_BinaryStart\<close> and so on),
  so the order is part of the program. The type is made a \<open>linorder\<close> whose order is that
  of the enumerators. Every enumerator has the prefix \<open>Tk\<close>, since several of them
  (\<open>True\<close>, \<open>Let\<close>, \<open>If\<close>, \<open>Nil\<close>) are HOL constants.
\<close>

datatype (plugins only: size)
  TokenType =
    TkTokenError | TkColon | TkColonColon | TkQuestion | Tk_ComparisonStart | TkGreater
  | TkGreaterEqual | TkLess | TkLessEqual | TkAnd | TkOr | TkBangEqual | TkEqualEqual
  | Tk_ComparisonEnd | Tk_BinaryStart | TkMinus | TkPlus | TkForwardSlash | TkStar | TkStarStar
  | TkPercent | TkDotDot | TkDotDotEqual | Tk_BinaryEnd | Tk_UnaryStart | TkTilde | TkCaret
  | TkAt | TkBang | Tk_UnaryEnd | Tk_AssignmentStart | TkPlusEqual | TkMinusEqual | TkStarEqual
  | TkSlashEqual | TkEqual | Tk_AssignmentEnd | TkPlusPlus | TkMinusMinus | TkLeftParen
  | TkRightParen | TkLeftBrace | TkRightBrace | TkLeftBracket | TkRightBracket | TkComma
  | TkDollar | TkHash | TkDot | TkEllipse | TkSemiColon | TkAmpersand | TkPipe | TkArrow | TkFn
  | TkTrue | TkElse | TkFalse | TkReturn | TkImport | Tk_AttributeKeywordStart | TkExtern
  | TkPrivate | TkStatic | TkVolatile | Tk_AttributeKeywordEnd | TkConst | TkInout | TkVar
  | TkLet | TkImut | TkAlignOf | TkTypeOf | TkAlias | TkDistinct | TkEnum | TkError | TkAsync
  | TkAwait | TkFor | TkIn | TkIf | TkLoop | TkWhile | TkMatch | TkContinue | TkBreak | TkCast
  | TkNil | TkIdentifier | TkStringLiteral | TkCharLiteral | TkIntegerLiteral
  | TkUIntegerLiteral | TkLIntegerLiteral | TkULIntegerLiteral | TkDecimalLiteral
  | TkLDecimalLiteral | TkSizeof | TkNameof | TkStruct | TkImpl | TkTrait | TkUnion | TkEof

text \<open>The enumerators in declaration order, and the number the compiler gives each.\<close>

definition token_types :: "TokenType list" where
  "token_types = [
    TkTokenError, TkColon, TkColonColon, TkQuestion, Tk_ComparisonStart, TkGreater,
    TkGreaterEqual, TkLess, TkLessEqual, TkAnd, TkOr, TkBangEqual, TkEqualEqual,
    Tk_ComparisonEnd, Tk_BinaryStart, TkMinus, TkPlus, TkForwardSlash, TkStar, TkStarStar,
    TkPercent, TkDotDot, TkDotDotEqual, Tk_BinaryEnd, Tk_UnaryStart, TkTilde, TkCaret, TkAt,
    TkBang, Tk_UnaryEnd, Tk_AssignmentStart, TkPlusEqual, TkMinusEqual, TkStarEqual,
    TkSlashEqual, TkEqual, Tk_AssignmentEnd, TkPlusPlus, TkMinusMinus, TkLeftParen,
    TkRightParen, TkLeftBrace, TkRightBrace, TkLeftBracket, TkRightBracket, TkComma, TkDollar,
    TkHash, TkDot, TkEllipse, TkSemiColon, TkAmpersand, TkPipe, TkArrow, TkFn, TkTrue, TkElse,
    TkFalse, TkReturn, TkImport, Tk_AttributeKeywordStart, TkExtern, TkPrivate, TkStatic,
    TkVolatile, Tk_AttributeKeywordEnd, TkConst, TkInout, TkVar, TkLet, TkImut, TkAlignOf,
    TkTypeOf, TkAlias, TkDistinct, TkEnum, TkError, TkAsync, TkAwait, TkFor, TkIn, TkIf,
    TkLoop, TkWhile, TkMatch, TkContinue, TkBreak, TkCast, TkNil, TkIdentifier,
    TkStringLiteral, TkCharLiteral, TkIntegerLiteral, TkUIntegerLiteral, TkLIntegerLiteral,
    TkULIntegerLiteral, TkDecimalLiteral, TkLDecimalLiteral, TkSizeof, TkNameof, TkStruct,
    TkImpl, TkTrait, TkUnion, TkEof]"

primrec token_code :: "TokenType \<Rightarrow> nat" where
  "token_code TkTokenError = 0"
| "token_code TkColon = 1"
| "token_code TkColonColon = 2"
| "token_code TkQuestion = 3"
| "token_code Tk_ComparisonStart = 4"
| "token_code TkGreater = 5"
| "token_code TkGreaterEqual = 6"
| "token_code TkLess = 7"
| "token_code TkLessEqual = 8"
| "token_code TkAnd = 9"
| "token_code TkOr = 10"
| "token_code TkBangEqual = 11"
| "token_code TkEqualEqual = 12"
| "token_code Tk_ComparisonEnd = 13"
| "token_code Tk_BinaryStart = 14"
| "token_code TkMinus = 15"
| "token_code TkPlus = 16"
| "token_code TkForwardSlash = 17"
| "token_code TkStar = 18"
| "token_code TkStarStar = 19"
| "token_code TkPercent = 20"
| "token_code TkDotDot = 21"
| "token_code TkDotDotEqual = 22"
| "token_code Tk_BinaryEnd = 23"
| "token_code Tk_UnaryStart = 24"
| "token_code TkTilde = 25"
| "token_code TkCaret = 26"
| "token_code TkAt = 27"
| "token_code TkBang = 28"
| "token_code Tk_UnaryEnd = 29"
| "token_code Tk_AssignmentStart = 30"
| "token_code TkPlusEqual = 31"
| "token_code TkMinusEqual = 32"
| "token_code TkStarEqual = 33"
| "token_code TkSlashEqual = 34"
| "token_code TkEqual = 35"
| "token_code Tk_AssignmentEnd = 36"
| "token_code TkPlusPlus = 37"
| "token_code TkMinusMinus = 38"
| "token_code TkLeftParen = 39"
| "token_code TkRightParen = 40"
| "token_code TkLeftBrace = 41"
| "token_code TkRightBrace = 42"
| "token_code TkLeftBracket = 43"
| "token_code TkRightBracket = 44"
| "token_code TkComma = 45"
| "token_code TkDollar = 46"
| "token_code TkHash = 47"
| "token_code TkDot = 48"
| "token_code TkEllipse = 49"
| "token_code TkSemiColon = 50"
| "token_code TkAmpersand = 51"
| "token_code TkPipe = 52"
| "token_code TkArrow = 53"
| "token_code TkFn = 54"
| "token_code TkTrue = 55"
| "token_code TkElse = 56"
| "token_code TkFalse = 57"
| "token_code TkReturn = 58"
| "token_code TkImport = 59"
| "token_code Tk_AttributeKeywordStart = 60"
| "token_code TkExtern = 61"
| "token_code TkPrivate = 62"
| "token_code TkStatic = 63"
| "token_code TkVolatile = 64"
| "token_code Tk_AttributeKeywordEnd = 65"
| "token_code TkConst = 66"
| "token_code TkInout = 67"
| "token_code TkVar = 68"
| "token_code TkLet = 69"
| "token_code TkImut = 70"
| "token_code TkAlignOf = 71"
| "token_code TkTypeOf = 72"
| "token_code TkAlias = 73"
| "token_code TkDistinct = 74"
| "token_code TkEnum = 75"
| "token_code TkError = 76"
| "token_code TkAsync = 77"
| "token_code TkAwait = 78"
| "token_code TkFor = 79"
| "token_code TkIn = 80"
| "token_code TkIf = 81"
| "token_code TkLoop = 82"
| "token_code TkWhile = 83"
| "token_code TkMatch = 84"
| "token_code TkContinue = 85"
| "token_code TkBreak = 86"
| "token_code TkCast = 87"
| "token_code TkNil = 88"
| "token_code TkIdentifier = 89"
| "token_code TkStringLiteral = 90"
| "token_code TkCharLiteral = 91"
| "token_code TkIntegerLiteral = 92"
| "token_code TkUIntegerLiteral = 93"
| "token_code TkLIntegerLiteral = 94"
| "token_code TkULIntegerLiteral = 95"
| "token_code TkDecimalLiteral = 96"
| "token_code TkLDecimalLiteral = 97"
| "token_code TkSizeof = 98"
| "token_code TkNameof = 99"
| "token_code TkStruct = 100"
| "token_code TkImpl = 101"
| "token_code TkTrait = 102"
| "token_code TkUnion = 103"
| "token_code TkEof = 104"

text \<open>\<open>magic_enum::enum_name\<close>: the enumerator's own name, as the error messages print it.\<close>

definition token_type_names :: "string list" where
  "token_type_names = [
    ''TokenError'', ''Colon'', ''ColonColon'', ''Question'', ''_ComparisonStart'', ''Greater'',
    ''GreaterEqual'', ''Less'', ''LessEqual'', ''And'', ''Or'', ''BangEqual'', ''EqualEqual'',
    ''_ComparisonEnd'', ''_BinaryStart'', ''Minus'', ''Plus'', ''ForwardSlash'', ''Star'',
    ''StarStar'', ''Percent'', ''DotDot'', ''DotDotEqual'', ''_BinaryEnd'', ''_UnaryStart'',
    ''Tilde'', ''Caret'', ''At'', ''Bang'', ''_UnaryEnd'', ''_AssignmentStart'', ''PlusEqual'',
    ''MinusEqual'', ''StarEqual'', ''SlashEqual'', ''Equal'', ''_AssignmentEnd'', ''PlusPlus'',
    ''MinusMinus'', ''LeftParen'', ''RightParen'', ''LeftBrace'', ''RightBrace'',
    ''LeftBracket'', ''RightBracket'', ''Comma'', ''Dollar'', ''Hash'', ''Dot'', ''Ellipse'',
    ''SemiColon'', ''Ampersand'', ''Pipe'', ''Arrow'', ''Fn'', ''True'', ''Else'', ''False'',
    ''Return'', ''Import'', ''_AttributeKeywordStart'', ''Extern'', ''Private'', ''Static'',
    ''Volatile'', ''_AttributeKeywordEnd'', ''Const'', ''Inout'', ''Var'', ''Let'', ''Imut'',
    ''AlignOf'', ''TypeOf'', ''Alias'', ''Distinct'', ''Enum'', ''Error'', ''Async'',
    ''Await'', ''For'', ''In'', ''If'', ''Loop'', ''While'', ''Match'', ''Continue'',
    ''Break'', ''Cast'', ''Nil'', ''Identifier'', ''StringLiteral'', ''CharLiteral'',
    ''IntegerLiteral'', ''UIntegerLiteral'', ''LIntegerLiteral'', ''ULIntegerLiteral'',
    ''DecimalLiteral'', ''LDecimalLiteral'', ''Sizeof'', ''Nameof'', ''Struct'', ''Impl'',
    ''Trait'', ''Union'', ''Eof'']"

definition enum_name :: "TokenType \<Rightarrow> string" where
  "enum_name t = token_type_names ! token_code t"

lemma length_token_types: "length token_types = 105"
  by (simp add: token_types_def)

lemma token_types_nth: "token_types ! token_code t = t"
  unfolding token_types_def by (cases t; simp only: token_code.simps; simp)

lemma token_code_less: "token_code t < 105"
  by (cases t) simp_all

lemma token_code_inj: "token_code a = token_code b \<Longrightarrow> a = b"
  by (metis token_types_nth)

text \<open>For evaluation a token type is its number: equality and the order compare numbers.\<close>

definition token_of_code :: "nat \<Rightarrow> TokenType" where
  "token_of_code n = token_types ! n"

lemma token_of_code_token_code [code abstype]: "token_of_code (token_code t) = t"
  by (simp add: token_of_code_def token_types_nth)

lemmas token_code_abstract [code abstract] = token_code.simps

instantiation TokenType :: equal
begin

definition equal_TokenType :: "TokenType \<Rightarrow> TokenType \<Rightarrow> bool" where
  "equal_TokenType a b \<longleftrightarrow> token_code a = token_code b"

instance
  by standard (auto simp: equal_TokenType_def dest: token_code_inj)

end

instantiation TokenType :: linorder
begin

definition less_eq_TokenType :: "TokenType \<Rightarrow> TokenType \<Rightarrow> bool" where
  "less_eq_TokenType a b \<longleftrightarrow> token_code a \<le> token_code b"

definition less_TokenType :: "TokenType \<Rightarrow> TokenType \<Rightarrow> bool" where
  "less_TokenType a b \<longleftrightarrow> token_code a < token_code b"

instance
  by standard (auto simp: less_eq_TokenType_def less_TokenType_def dest: token_code_inj)

end

text \<open>The ranges the code tests.\<close>

definition is_binary_op :: "TokenType \<Rightarrow> bool" where
  "is_binary_op t \<longleftrightarrow> t > Tk_BinaryStart \<and> t < Tk_BinaryEnd"

definition is_comparison_op :: "TokenType \<Rightarrow> bool" where
  "is_comparison_op t \<longleftrightarrow> t > Tk_ComparisonStart \<and> t < Tk_ComparisonEnd"

definition is_assignment_op :: "TokenType \<Rightarrow> bool" where
  "is_assignment_op t \<longleftrightarrow> t > Tk_AssignmentStart \<and> t < Tk_AssignmentEnd"

definition is_attribute_keyword :: "TokenType \<Rightarrow> bool" where
  "is_attribute_keyword t \<longleftrightarrow> t > Tk_AttributeKeywordStart \<and> t < Tk_AttributeKeywordEnd"

lemma is_binary_op_iff:
  "is_binary_op t \<longleftrightarrow> t \<in> {TkMinus, TkPlus, TkForwardSlash, TkStar, TkStarStar, TkPercent,
     TkDotDot, TkDotDotEqual}"
  by (cases t) (simp_all add: is_binary_op_def less_TokenType_def)

lemma is_comparison_op_iff:
  "is_comparison_op t \<longleftrightarrow> t \<in> {TkGreater, TkGreaterEqual, TkLess, TkLessEqual, TkAnd, TkOr,
     TkBangEqual, TkEqualEqual}"
  by (cases t) (simp_all add: is_comparison_op_def less_TokenType_def)

lemma is_assignment_op_iff:
  "is_assignment_op t \<longleftrightarrow>
     t \<in> {TkPlusEqual, TkMinusEqual, TkStarEqual, TkSlashEqual, TkEqual}"
  by (cases t) (simp_all add: is_assignment_op_def less_TokenType_def)

lemma is_attribute_keyword_iff:
  "is_attribute_keyword t \<longleftrightarrow> t \<in> {TkExtern, TkPrivate, TkStatic, TkVolatile}"
  by (cases t) (simp_all add: is_attribute_keyword_def less_TokenType_def)

subsection \<open>Tokens and their place in the file\<close>

text \<open>The offset and the line are \<open>u32\<close>; file buffers end at 512 MB, so they are modelled as
  natural numbers. The column is a \<open>u16\<close> and does wrap in long lines.\<close>

record location =
  loc_offset :: nat
  loc_line :: nat
  loc_file_id :: "16 word"
  loc_column :: "16 word"

record token =
  tk_location :: location
  tk_type :: TokenType
  tk_lexeme :: string

text \<open>\<open>Token{}\<close>: all fields zero.\<close>

definition empty_token :: token where
  "empty_token = \<lparr>tk_location = \<lparr>loc_offset = 0, loc_line = 0, loc_file_id = 0, loc_column = 0\<rparr>,
     tk_type = TkTokenError, tk_lexeme = []\<rparr>"

text \<open>
  The exceptions of the front end. \<open>Frontend\<close> is \<open>FrontendError\<close>: the token it is reported
  at and the message, \<open>Compile\<close> is \<open>CompileError\<close> with the token of its node, which the
  emission of code throws. \<open>OutOfRange\<close> is the \<open>std::out_of_range\<close> the standard library throws,
  \<open>Filesystem\<close> its \<open>filesystem_error\<close>, with the path.
  \<open>Undefined\<close> marks a point where the C++ program has undefined behaviour (it is not an
  exception of the program), and \<open>OutOfFuel\<close> the end of the fuel of a recursion.
\<close>

datatype exn =
    Frontend token string | Compile token string | OutOfRange string | Filesystem string
  | Undefined string | OutOfFuel

text \<open>A throw is recorded with the arguments of the constructor. The constructor of a \<open>FrontendError\<close> makes a report
  from them, which may not return: \<open>Diagnostics\<close> has it, and \<open>Thrown\<close> what it means for the lexer and the parser.\<close>

definition throw_frontend :: "token \<Rightarrow> string \<Rightarrow> ('s, exn, 'a) comp" where
  "throw_frontend t msg = fail (Frontend t msg)"

lemma run_throw_frontend [simp, run_simps]: "throw_frontend t msg s = Inl (Frontend t msg)"
  by (simp add: throw_frontend_def)

end
