(* ===== verification/Text_Reader.thy ===== *)
theory Text_Reader
  imports Token "HOL-Library.While_Combinator"
begin

section \<open>The character reader (\<open>text_reader.cpp\<close>)\<close>

text \<open>
  A cursor over the bytes of one file. \<open>m_offset\<close> is the next byte to read, \<open>m_current\<close> the
  start of the lexeme being collected; line and column are kept for error messages.

  The source is a view into the file buffer, so a read past its end is a read of whatever
  memory follows. \<open>m_beyond\<close> is that memory: reading at an index outside the view gives
  \<open>m_beyond\<close> of the index. Two operations do read outside the view (\<open>peek_next\<close> at the last
  byte and \<open>peek_last\<close> at the first), and the properties below say when the result depends
  on it.

  \<open>m_offset\<close>, \<open>m_current\<close> and \<open>m_current_line\<close> are \<open>u32\<close> in the code. They never exceed
  the length of the view plus one (\<open>reader_inv\<close>), and a view is part of a 512 MB buffer, so
  they are natural numbers here. The column is a \<open>u16\<close> and wraps.
\<close>

record text_reader =
  m_offset :: nat
  m_current :: nat
  m_current_line :: nat
  m_current_column :: "16 word"
  m_source :: string
  m_beyond :: "nat \<Rightarrow> byte"

text \<open>\<open>set_source\<close>, also the body of the constructor.\<close>

definition set_source :: "string \<Rightarrow> (nat \<Rightarrow> byte) \<Rightarrow> text_reader" where
  "set_source source beyond =
     \<lparr>m_offset = 0, m_current = 0, m_current_line = 1, m_current_column = 1,
      m_source = source, m_beyond = beyond\<rparr>"

definition at_end :: "text_reader \<Rightarrow> bool" where
  "at_end r \<longleftrightarrow> m_offset r \<ge> length (m_source r)"

text \<open>\<open>m_source[i]\<close>: \<open>string_view::operator[]\<close> does not check its index.\<close>

definition rd_byte_at :: "text_reader \<Rightarrow> nat \<Rightarrow> byte" where
  "rd_byte_at r i = (if i < length (m_source r) then m_source r ! i else m_beyond r i)"

definition rd_peek :: "text_reader \<Rightarrow> byte" where
  "rd_peek r = (if at_end r then NUL else rd_byte_at r (m_offset r))"

text \<open>The code's guard is \<open>m_offset + 1 > size\<close>, so at the last byte of the source the read
  is one past the end.\<close>

definition rd_peek_next :: "text_reader \<Rightarrow> byte" where
  "rd_peek_next r =
     (if m_offset r + 1 > length (m_source r) then NUL else rd_byte_at r (m_offset r + 1))"

text \<open>The code's guard is \<open>m_offset - 1 <= 0\<close> on unsigned numbers: it holds at offset 1 only,
  and at offset 0 the index is \<open>2 ^ 32 - 1\<close>.\<close>

definition rd_peek_last :: "text_reader \<Rightarrow> byte" where
  "rd_peek_last r =
     (let i = uint (of_nat (m_offset r) - 1 :: 32 word)
      in if i \<le> 0 then NUL else rd_byte_at r (nat i))"

definition rd_advance :: "text_reader \<Rightarrow> byte \<times> text_reader" where
  "rd_advance r =
     (if at_end r then (NUL, r)
      else let c = rd_byte_at r (m_offset r);
               r1 = r\<lparr>m_offset := m_offset r + 1\<rparr>
           in (c, if c = newline
                  then r1\<lparr>m_current_line := m_current_line r1 + 1, m_current_column := 1\<rparr>
                  else r1\<lparr>m_current_column := m_current_column r1 + 1\<rparr>))"

text \<open>\<open>m_source.substr(m_current, m_offset - m_current)\<close>, then the mark moves up.\<close>

definition rd_slice :: "text_reader \<Rightarrow> string \<times> text_reader" where
  "rd_slice r = (take (m_offset r - m_current r) (drop (m_current r) (m_source r)),
              r\<lparr>m_current := m_offset r\<rparr>)"

definition rd_sync :: "text_reader \<Rightarrow> text_reader" where
  "rd_sync r = r\<lparr>m_current := m_offset r\<rparr>"

definition match_char :: "byte \<Rightarrow> text_reader \<Rightarrow> bool \<times> text_reader" where
  "match_char c r = (if rd_peek r = c then (True, snd (rd_advance r)) else (False, r))"

definition match_next_char :: "byte \<Rightarrow> text_reader \<Rightarrow> bool \<times> text_reader" where
  "match_next_char c r = (if rd_peek_next r = c then (True, snd (rd_advance r)) else (False, r))"

subsection \<open>Character classes\<close>

definition is_blank :: "byte \<Rightarrow> bool" where
  "is_blank c \<longleftrightarrow> c = CHR '' '' \<or> c = CHR 0x09"

definition is_insignificant :: "byte \<Rightarrow> bool" where
  "is_insignificant c \<longleftrightarrow> is_blank c \<or> c = CHR 0x0D \<or> c = newline"

text \<open>\<open>std::isdigit\<close> and \<open>isalnum\<close> in the C locale, which the program never changes.\<close>

definition is_digit :: "byte \<Rightarrow> bool" where
  "is_digit c \<longleftrightarrow> (of_char c :: nat) \<in> {48..57}"

definition is_alnum :: "byte \<Rightarrow> bool" where
  "is_alnum c \<longleftrightarrow> is_digit c \<or> (of_char c :: nat) \<in> {65..90} \<or> (of_char c :: nat) \<in> {97..122}"

definition is_identifier :: "byte \<Rightarrow> bool" where
  "is_identifier c \<longleftrightarrow> is_alnum c \<or> c = CHR ''_''"

subsection \<open>Loops\<close>

lemma advance_fields [simp, frame_simps]:
  "m_source (snd (rd_advance r)) = m_source r"
  "m_beyond (snd (rd_advance r)) = m_beyond r"
  "m_current (snd (rd_advance r)) = m_current r"
  by (simp_all add: rd_advance_def Let_def)

lemma advance_offset:
  "m_offset (snd (rd_advance r)) = (if at_end r then m_offset r else m_offset r + 1)"
  by (simp add: rd_advance_def Let_def)

text \<open>
  Every scanning loop of the reader and the lexer is \<open>while (cond) advance();\<close> with a
  condition that fails at the end of the source. In all of them but \<open>skip_insignificant\<close>
  the test \<open>!at_end()\<close> is written in the condition; there it follows
  (\<open>skip_condition_at_end\<close>).
\<close>

function advance_while :: "(text_reader \<Rightarrow> bool) \<Rightarrow> text_reader \<Rightarrow> text_reader" where
  "advance_while P r =
     (if \<not> at_end r \<and> P r then advance_while P (snd (rd_advance r)) else r)"
  by pat_completeness auto
termination
  by (relation "measure (\<lambda>(P, r). length (m_source r) - m_offset r)")
    (auto simp: advance_offset at_end_def)

declare advance_while.simps [simp del]

definition get_identifier :: "text_reader \<Rightarrow> string \<times> text_reader" where
  "get_identifier r = rd_slice (advance_while (\<lambda>r. is_identifier (rd_peek r)) r)"

definition get_until_blank_or :: "byte \<Rightarrow> text_reader \<Rightarrow> string \<times> text_reader" where
  "get_until_blank_or c r =
     rd_slice (advance_while (\<lambda>r. \<not> is_blank (rd_peek r) \<and> rd_peek_next r \<noteq> c) (rd_sync r))"

text \<open>\<open>get_line\<close> counts the bytes it passes and shows that many from the mark.\<close>

definition get_line :: "text_reader \<Rightarrow> string \<times> text_reader" where
  "get_line r =
     (let r1 = advance_while (\<lambda>r. rd_peek r \<noteq> newline) r;
          i = m_offset r1 - m_offset r
      in (take i (drop (m_current r1) (m_source r1)), r1))"

text \<open>
  The condition is \<open>!at_end() && blank_only ? is_blank(peek()) : is_insignificant(peek())\<close>,
  which the language reads as \<open>(!at_end() && blank_only) ? ... : ...\<close>.
\<close>

definition skip_condition :: "bool \<Rightarrow> text_reader \<Rightarrow> bool" where
  "skip_condition blank_only r =
     (if \<not> at_end r \<and> blank_only then is_blank (rd_peek r) else is_insignificant (rd_peek r))"

definition skip_insignificant :: "bool \<Rightarrow> text_reader \<Rightarrow> text_reader" where
  "skip_insignificant blank_only r = rd_sync (advance_while (skip_condition blank_only) r)"

definition skip_until :: "byte \<Rightarrow> text_reader \<Rightarrow> text_reader" where
  "skip_until c r = advance_while (\<lambda>r. rd_peek r \<noteq> c) r"

text \<open>The disjunction of \<open>match\<close> calls in \<open>is_escape_sequence\<close>: tried in order, the first
  that matches consumes the character.\<close>

fun match_any :: "byte list \<Rightarrow> text_reader \<Rightarrow> bool \<times> text_reader" where
  "match_any [] r = (False, r)"
| "match_any (c # cs) r =
     (let (ok, r1) = match_char c r in if ok then (True, r1) else match_any cs r1)"

definition escape_letters :: "byte list" where
  "escape_letters = [CHR ''n'', CHR ''t'', CHR ''0'', CHR ''r'', CHR ''a'', CHR ''b'',
     CHR ''f'', CHR ''v'', backslash, dquote, squote]"

definition is_escape_sequence :: "text_reader \<Rightarrow> bool \<times> text_reader" where
  "is_escape_sequence r =
     (if rd_peek_last r = backslash then match_any escape_letters r else (False, r))"


subsection \<open>The unread input\<close>

text \<open>\<open>rest r\<close> is what the reader has not read yet: the operations are determined by it.\<close>

definition rest :: "text_reader \<Rightarrow> string" where
  "rest r = drop (m_offset r) (m_source r)"

lemma rest_set_source [simp]: "rest (set_source src beyond) = src"
  by (simp add: rest_def set_source_def)

lemma rest_sync [simp]: "rest (rd_sync r) = rest r"
  by (simp add: rest_def rd_sync_def)

lemma rest_snd_slice [simp]: "rest (snd (rd_slice r)) = rest r"
  by (simp add: rest_def rd_slice_def)

lemma at_end_rest: "at_end r \<longleftrightarrow> rest r = []"
  by (simp add: at_end_def rest_def)

lemma rest_advance: "rest (snd (rd_advance r)) = tl (rest r)"
  by (simp add: rest_def advance_offset at_end_def tl_drop drop_Suc)

lemma rd_peek_rest: "rd_peek r = (case rest r of [] \<Rightarrow> NUL | c # _ \<Rightarrow> c)"
  by (auto simp: rd_peek_def rd_byte_at_def at_end_def rest_def hd_drop_conv_nth
      split: list.split dest: arg_cong [where f = hd])

lemma rd_peek_Cons: "rest r = c # cs \<Longrightarrow> rd_peek r = c"
  by (simp add: rd_peek_rest)

lemma rd_peek_Nil: "rest r = [] \<Longrightarrow> rd_peek r = NUL"
  by (simp add: rd_peek_rest)

lemma fst_advance: "fst (rd_advance r) = rd_peek r"
  by (simp add: rd_advance_def rd_peek_def Let_def)

lemma rest_Cons_nth:
  "rest r = c # cs \<Longrightarrow> m_offset r < length (m_source r) \<and> m_source r ! m_offset r = c"
  by (metis at_end_def at_end_rest hd_drop_conv_nth leI list.distinct(1) list.sel(1) rest_def)

lemma rd_peek_next_Cons2: "rest r = c # d # cs \<Longrightarrow> rd_peek_next r = d"
proof -
  assume a: "rest r = c # d # cs"
  then have "drop (m_offset r + 1) (m_source r) = d # cs"
    by (metis Suc_eq_plus1 drop_Suc list.sel(3) rest_def tl_drop)
  then have "m_offset r + 1 < length (m_source r)" and "m_source r ! (m_offset r + 1) = d"
    by (metis drop_all leI list.distinct(1),
        metis drop_all hd_drop_conv_nth leI list.distinct(1) list.sel(1))
  then show ?thesis by (simp add: rd_peek_next_def rd_byte_at_def)
qed

text \<open>At the last byte \<open>peek_next\<close> shows memory behind the view.\<close>

lemma rd_peek_next_last:
  "rest r = [c] \<Longrightarrow> rd_peek_next r = m_beyond r (length (m_source r))"
proof -
  assume a: "rest r = [c]"
  then have "length (m_source r) - m_offset r = 1"
    by (metis One_nat_def length_Cons length_drop list.size(3) rest_def)
  then have "length (m_source r) = m_offset r + 1" by simp
  then show ?thesis by (simp add: rd_peek_next_def rd_byte_at_def)
qed

subsection \<open>Where the cursor is\<close>

text \<open>
  The reader at offset \<open>off\<close> with the lexeme starting at \<open>cur\<close>, in closed form: the line is
  one more than the newlines read, the column one more than the bytes since the last of them
  (modulo \<open>2 ^ 16\<close>). \<open>reader_inv\<close> says that the incremental bookkeeping agrees with it.
\<close>

definition line_of :: "string \<Rightarrow> nat" where
  "line_of before = 1 + count_list before newline"

definition column_of :: "string \<Rightarrow> nat" where
  "column_of before = 1 + length (takeWhile (\<lambda>c. c \<noteq> newline) (rev before))"

definition reader_inv :: "text_reader \<Rightarrow> bool" where
  "reader_inv r \<longleftrightarrow>
     m_current r \<le> m_offset r \<and> m_offset r \<le> length (m_source r) \<and>
     m_current_line r = line_of (take (m_offset r) (m_source r)) \<and>
     m_current_column r = of_nat (column_of (take (m_offset r) (m_source r)))"

lemma count_list_snoc [simp]: "count_list (xs @ [x]) y = count_list xs y + (if x = y then 1 else 0)"
  by simp

lemma line_of_snoc: "line_of (xs @ [c]) = line_of xs + (if c = newline then 1 else 0)"
  by (simp add: line_of_def)

lemma column_of_snoc: "column_of (xs @ [c]) = (if c = newline then 1 else column_of xs + 1)"
  by (simp add: column_of_def)

lemma reader_inv_set_source [inv_intros]: "reader_inv (set_source src beyond)"
  by (simp add: reader_inv_def set_source_def line_of_def column_of_def)

lemma reader_inv_sync [inv_intros]: "reader_inv r \<Longrightarrow> reader_inv (rd_sync r)"
  by (simp add: reader_inv_def rd_sync_def)

lemma reader_inv_slice [inv_intros]: "reader_inv r \<Longrightarrow> reader_inv (snd (rd_slice r))"
  by (simp add: reader_inv_def rd_slice_def)

lemma reader_inv_advance [inv_intros]:
  assumes "reader_inv r"
  shows "reader_inv (snd (rd_advance r))"
proof (cases "at_end r")
  case True
  with assms show ?thesis by (simp add: rd_advance_def)
next
  case False
  then have "m_offset r < length (m_source r)" by (simp add: at_end_def)
  then have "take (m_offset r + 1) (m_source r) = take (m_offset r) (m_source r) @ [rd_byte_at r (m_offset r)]"
    by (simp add: take_Suc_conv_app_nth rd_byte_at_def)
  with assms False \<open>m_offset r < length (m_source r)\<close> show ?thesis
    by (auto simp: reader_inv_def rd_advance_def Let_def line_of_snoc column_of_snoc)
qed

lemma reader_inv_match [inv_intros]: "reader_inv r \<Longrightarrow> reader_inv (snd (match_char c r))"
  by (simp add: match_char_def reader_inv_advance)

lemma reader_inv_match_any [inv_intros]: "reader_inv r \<Longrightarrow> reader_inv (snd (match_any cs r))"
proof (induction cs)
  case (Cons c cs)
  then show ?case by (auto simp: match_char_def reader_inv_advance split: prod.splits if_splits)
qed simp

lemma reader_inv_escape [inv_intros]:
  "reader_inv r \<Longrightarrow> reader_inv (snd (is_escape_sequence r))"
  by (simp add: is_escape_sequence_def reader_inv_match_any)

lemma advance_while_rule:
  assumes "Q r" and "\<And>r. Q r \<Longrightarrow> \<not> at_end r \<Longrightarrow> P r \<Longrightarrow> Q (snd (rd_advance r))"
  shows "Q (advance_while P r)"
  using assms
proof (induction P r rule: advance_while.induct)
  case (1 P r)
  then show ?case by (simp add: advance_while.simps [of P r])
qed

lemma reader_inv_advance_while [inv_intros]: "reader_inv r \<Longrightarrow> reader_inv (advance_while P r)"
  by (rule advance_while_rule) (auto intro: inv_intros)

lemma advance_while_fields [simp, frame_simps]:
  "m_source (advance_while P r) = m_source r"
  "m_beyond (advance_while P r) = m_beyond r"
  "m_current (advance_while P r) = m_current r"
  by (rule advance_while_rule [where Q = "\<lambda>x. m_source x = m_source r"], simp_all)
    (rule advance_while_rule [where Q = "\<lambda>x. m_beyond x = m_beyond r"], simp_all,
     rule advance_while_rule [where Q = "\<lambda>x. m_current x = m_current r"], simp_all)

lemma advance_while_offset_le: "m_offset r \<le> m_offset (advance_while P r)"
  by (rule advance_while_rule) (auto simp: advance_offset)

lemma advance_while_stop: "\<not> at_end (advance_while P r) \<Longrightarrow> \<not> P (advance_while P r)"
proof (induction P r rule: advance_while.induct)
  case (1 P r)
  then show ?case by (auto simp: advance_while.simps [of P r] split: if_splits)
qed

subsection \<open>Moving the cursor by a number of bytes\<close>

primrec seek :: "nat \<Rightarrow> text_reader \<Rightarrow> text_reader" where
  "seek 0 r = r"
| "seek (Suc n) r = seek n (snd (rd_advance r))"

lemma rest_seek: "rest (seek n r) = drop n (rest r)"
  by (induction n arbitrary: r) (simp_all add: rest_advance drop_Suc)

lemma seek_fields [simp, frame_simps]:
  "m_source (seek n r) = m_source r" "m_beyond (seek n r) = m_beyond r"
  "m_current (seek n r) = m_current r"
  by (induction n arbitrary: r) simp_all

lemma seek_offset: "n \<le> length (rest r) \<Longrightarrow> m_offset (seek n r) = m_offset r + n"
proof (induction n arbitrary: r)
  case (Suc n)
  then have "\<not> at_end r" by (auto simp: at_end_rest)
  with Suc show ?case by (simp add: rest_advance advance_offset)
qed simp

lemma reader_inv_seek [inv_intros]: "reader_inv r \<Longrightarrow> reader_inv (seek n r)"
  by (induction n arbitrary: r) (auto intro: inv_intros)

lemma seek_seek: "seek m (seek n r) = seek (n + m) r"
  by (induction n arbitrary: r) simp_all

text \<open>A loop whose condition looks at the next byte only reads the longest prefix of the
  input that satisfies it.\<close>

lemma advance_while_peek:
  "advance_while (\<lambda>r. p (rd_peek r)) r = seek (length (takeWhile p (rest r))) r"
proof (induction "\<lambda>r. p (rd_peek r)" r rule: advance_while.induct)
  case (1 r)
  show ?case
  proof (cases "rest r")
    case Nil
    then show ?thesis by (simp add: advance_while.simps [of _ r] at_end_rest)
  next
    case (Cons c cs)
    with 1 show ?thesis
      by (simp add: advance_while.simps [of _ r] at_end_rest rd_peek_Cons rest_advance)
  qed
qed

lemma skip_condition_at_end: "at_end r \<Longrightarrow> \<not> skip_condition b r"
  by (simp add: skip_condition_def at_end_rest rd_peek_Nil is_insignificant_def is_blank_def)

lemma skip_condition_peek:
  "\<not> at_end r \<Longrightarrow> skip_condition b r \<longleftrightarrow> (if b then is_blank else is_insignificant) (rd_peek r)"
  by (simp add: skip_condition_def)

lemma advance_while_cong:
  assumes "\<And>r. \<not> at_end r \<Longrightarrow> P r = Q r"
  shows "advance_while P r = advance_while Q r"
  using assms
proof (induction P r rule: advance_while.induct)
  case (1 P r)
  have "\<not> at_end r \<and> P r \<longleftrightarrow> \<not> at_end r \<and> Q r"
    using 1 by blast
  then show ?case
    using 1 by (simp add: advance_while.simps [of P r] advance_while.simps [of Q r])
qed

lemma skip_insignificant_seek:
  "skip_insignificant b r =
     rd_sync (seek (length (takeWhile (if b then is_blank else is_insignificant) (rest r))) r)"
proof -
  have "advance_while (skip_condition b) r =
      advance_while (\<lambda>r. (if b then is_blank else is_insignificant) (rd_peek r)) r"
    by (rule advance_while_cong) (simp add: skip_condition_peek)
  then show ?thesis by (simp add: skip_insignificant_def advance_while_peek)
qed

lemma reader_inv_skip_insignificant [inv_intros]:
  "reader_inv r \<Longrightarrow> reader_inv (skip_insignificant b r)"
  by (simp add: skip_insignificant_def inv_intros)

lemma rest_skip_insignificant:
  "rest (skip_insignificant b r) = dropWhile (if b then is_blank else is_insignificant) (rest r)"
  by (simp add: skip_insignificant_seek rest_seek dropWhile_eq_drop)

text \<open>A slice shows the bytes read since the mark.\<close>

lemma fst_slice_seek:
  assumes "m_current r = m_offset r" and "n \<le> length (rest r)"
  shows "fst (rd_slice (seek n r)) = take n (rest r)"
  using assms by (simp add: rd_slice_def seek_offset rest_def)

lemma match_any_offset_le: "m_offset r \<le> m_offset (snd (match_any cs r))"
  by (induction cs) (auto simp: match_char_def advance_offset split: prod.splits if_splits)

lemma match_any_fields [simp, frame_simps]:
  "m_source (snd (match_any cs r)) = m_source r"
  "m_beyond (snd (match_any cs r)) = m_beyond r"
  "m_current (snd (match_any cs r)) = m_current r"
  by (induction cs) (auto simp: match_char_def split: prod.splits if_splits)

lemma is_escape_sequence_frame [simp, frame_simps]:
  "m_offset r \<le> m_offset (snd (is_escape_sequence r))"
  "m_source (snd (is_escape_sequence r)) = m_source r"
  "m_beyond (snd (is_escape_sequence r)) = m_beyond r"
  "m_current (snd (is_escape_sequence r)) = m_current r"
  by (simp_all add: is_escape_sequence_def match_any_offset_le)

lemma skip_insignificant_fields [simp, frame_simps]:
  "m_source (skip_insignificant b r) = m_source r"
  "m_beyond (skip_insignificant b r) = m_beyond r"
  by (simp_all add: skip_insignificant_def rd_sync_def)

lemma skip_until_fields [simp, frame_simps]:
  "m_source (skip_until c r) = m_source r" "m_beyond (skip_until c r) = m_beyond r"
  by (simp_all add: skip_until_def)

subsection \<open>Properties\<close>

text \<open>The readers a client can obtain from a source: every public operation that changes the
  reader is a rule.\<close>

inductive reader_reach :: "string \<Rightarrow> (nat \<Rightarrow> byte) \<Rightarrow> text_reader \<Rightarrow> bool"
  for src :: string and beyond :: "nat \<Rightarrow> byte" where
  reach_source: "reader_reach src beyond (set_source src beyond)"
| reach_advance: "reader_reach src beyond r \<Longrightarrow> reader_reach src beyond (snd (rd_advance r))"
| reach_slice: "reader_reach src beyond r \<Longrightarrow> reader_reach src beyond (snd (rd_slice r))"
| reach_sync: "reader_reach src beyond r \<Longrightarrow> reader_reach src beyond (rd_sync r)"
| reach_match: "reader_reach src beyond r \<Longrightarrow> reader_reach src beyond (snd (match_char c r))"
| reach_match_next: "reader_reach src beyond r \<Longrightarrow> reader_reach src beyond (snd (match_next_char c r))"
| reach_match_any: "reader_reach src beyond r \<Longrightarrow> reader_reach src beyond (snd (match_any cs r))"
| reach_escape: "reader_reach src beyond r \<Longrightarrow> reader_reach src beyond (snd (is_escape_sequence r))"
| reach_identifier: "reader_reach src beyond r \<Longrightarrow> reader_reach src beyond (snd (get_identifier r))"
| reach_blank_or: "reader_reach src beyond r \<Longrightarrow> reader_reach src beyond (snd (get_until_blank_or c r))"
| reach_line: "reader_reach src beyond r \<Longrightarrow> reader_reach src beyond (snd (get_line r))"
| reach_skip: "reader_reach src beyond r \<Longrightarrow> reader_reach src beyond (skip_insignificant b r)"
| reach_skip_until: "reader_reach src beyond r \<Longrightarrow> reader_reach src beyond (skip_until c r)"

inductive_cases reader_reachE: "reader_reach src beyond r"

lemma reader_reach_source: "reader_reach src beyond r \<Longrightarrow> m_source r = src \<and> m_beyond r = beyond"
  by (induction rule: reader_reach.induct)
    (auto simp: set_source_def match_char_def match_next_char_def rd_slice_def rd_sync_def
      get_identifier_def get_until_blank_or_def get_line_def Let_def split: prod.splits)

lemma reader_reach_inv: "reader_reach src beyond r \<Longrightarrow> reader_inv r"
proof (induction rule: reader_reach.induct)
  case (reach_match_next r c)
  then show ?case by (simp add: match_next_char_def reader_inv_advance)
next
  case (reach_identifier r)
  then show ?case by (simp add: get_identifier_def reader_inv_slice reader_inv_advance_while)
next
  case (reach_blank_or r c)
  then show ?case
    by (simp add: get_until_blank_or_def Let_def reader_inv_slice reader_inv_advance_while reader_inv_sync)
next
  case (reach_line r)
  then show ?case
    by (auto simp: get_line_def Let_def intro!: reader_inv_advance reader_inv_slice
        reader_inv_advance_while reader_inv_sync split: prod.splits)
next
  case (reach_skip_until r c)
  then show ?case by (simp add: skip_until_def reader_inv_advance_while)
qed (auto intro: inv_intros)

text \<open>C18: Whatever sequence of operations a client runs on a reader, the lexeme mark stays behind
  the offset and the offset inside the source, the source never changes, and the line and
  column the reader keeps for error messages are the ones the closed form computes from the
  bytes read: one more than the newlines before the cursor, and one more than the bytes since
  the last newline, modulo \<open>2 ^ 16\<close>.\<close>

theorem reader_position:
  assumes "reader_reach src beyond r"
  shows "m_current r \<le> m_offset r \<and> m_offset r \<le> length src \<and> m_source r = src \<and>
    m_current_line r = 1 + count_list (take (m_offset r) src) newline \<and>
    uint (m_current_column r) = int (column_of (take (m_offset r) src)) mod 2 ^ 16"
  using reader_reach_inv [OF assms] reader_reach_source [OF assms]
  by (auto simp: reader_inv_def line_of_def unsigned_of_nat take_bit_eq_mod zmod_int)

theorem reader_position_witness:
  "let src = [CHR ''a'', newline, CHR ''b'', CHR ''c''];
       r = snd (rd_advance (skip_until (CHR ''b'') (set_source src (\<lambda>_. NUL))))
   in m_offset r = 3 \<and> m_current_line r = 2 \<and> uint (m_current_column r) = 2"
proof -
  let ?src = "[CHR ''a'', newline, CHR ''b'', CHR ''c'']"
  let ?r = "snd (rd_advance (skip_until (CHR ''b'') (set_source ?src (\<lambda>_. NUL))))"
  have "reader_reach ?src (\<lambda>_. NUL) ?r" by (intro reader_reach.intros)
  note pos = reader_position [OF this]
  have off: "m_offset ?r = 3"
    by code_simp
  have "column_of (take 3 ?src) = 2" by (simp add: column_of_def)
  with pos off show ?thesis by (simp add: Let_def)
qed

end
