(* ===== verification/Format.thy ===== *)
theory Format
  imports Token
begin

section \<open>Message formatting (\<open>util/fmt.cpp\<close>, \<open>util/fmt.hpp\<close>)\<close>

text \<open>
  \<open>fmt::format\<close> renders its arguments into one buffer, each followed by a NUL, and
  \<open>do_format\<close> copies the format string, replacing every \<open>{...}\<close> by the next NUL-terminated
  piece of the buffer; \<open>{{\<close> prints a brace.

  The buffer is a \<open>std::string\<close>: reading at its size gives NUL, reading behind that is
  undefined, and so is reading the format string behind its end. \<open>do_format\<close> returns
  \<open>None\<close> there. The second argument is the unread part of the buffer, \<open>None\<close> once the
  terminator at its size has been read.
\<close>

definition next_arg :: "string \<Rightarrow> string \<times> string option" where
  "next_arg buffer =
     (takeWhile (\<lambda>c. c \<noteq> NUL) buffer,
      case dropWhile (\<lambda>c. c \<noteq> NUL) buffer of [] \<Rightarrow> None | _ # cs \<Rightarrow> Some cs)"

function do_format :: "string \<Rightarrow> string option \<Rightarrow> string option" where
  "do_format [] buffer = Some []"
| "do_format (c # cs) buffer =
     (if c = CHR ''{'' then
        (case cs of
           [] \<Rightarrow> None
         | d # ds \<Rightarrow>
             if d = CHR ''{'' then map_option (Cons d) (do_format ds buffer)
             else (case buffer of
                 None \<Rightarrow> None
               | Some b \<Rightarrow>
                   (let (piece, b1) = next_arg b
                    in map_option (append piece)
                         (do_format (tl (dropWhile (\<lambda>c. c \<noteq> CHR ''}'') cs)) b1))))
      else map_option (Cons c) (do_format cs buffer))"
  by pat_completeness auto
termination
proof (relation "measure (\<lambda>(f, _). length f)", goal_cases)
  case (3 c cs d ds b p piece b1)
  then show ?case
    by (simp add: less_Suc_eq_le) (meson diff_le_self length_dropWhile_le le_trans le_SucI)
qed simp_all

text \<open>\<open>format\<close>: without arguments the format string is returned as it is.\<close>

definition fmt_format :: "string \<Rightarrow> string list \<Rightarrow> string option" where
  "fmt_format f args =
     (if args = [] then Some f else do_format f (Some (concat (map (\<lambda>a. a @ [NUL]) args))))"

definition throw_formatted :: "token \<Rightarrow> string \<Rightarrow> string list \<Rightarrow> ('s, exn, 'a) comp" where
  "throw_formatted t f args =
     (case fmt_format f args of
        Some msg \<Rightarrow> throw_frontend t msg
      | None \<Rightarrow> fail (Undefined ''format''))"

subsection \<open>\<open>string_of\<close> for the types the messages use\<close>

fun string_of_nat :: "nat \<Rightarrow> string" where
  "string_of_nat n =
     (if n < 10 then [char_of (48 + n)]
      else string_of_nat (n div 10) @ [char_of (48 + n mod 10)])"

declare string_of_nat.simps [simp del]

lemma digit_no_NUL: "d < 10 \<Longrightarrow> char_of (48 + d :: nat) \<noteq> NUL"
proof
  assume "d < 10" and "char_of (48 + d) = NUL"
  then have "of_char (char_of (48 + d)) = (0 :: nat)" by simp
  then show False using \<open>d < 10\<close> by simp
qed

lemma string_of_nat_plain: "NUL \<notin> set (string_of_nat n)"
proof (induction n rule: string_of_nat.induct)
  case (1 n)
  then show ?case
    using digit_no_NUL [of n] digit_no_NUL [of "n mod 10"] by (subst string_of_nat.simps) (auto dest: sym)
qed

definition string_of_bool :: "bool \<Rightarrow> string" where
  "string_of_bool b = (if b then ''true'' else ''false'')"

text \<open>\<open>to_string\<close> of a container: \<open>[]\<close>, \<open>[ x ]\<close> or \<open>[ x, y, z ]\<close>.\<close>

definition string_of_list :: "('a \<Rightarrow> string) \<Rightarrow> 'a list \<Rightarrow> string" where
  "string_of_list str xs =
     (case xs of
        [] \<Rightarrow> ''[]''
      | [x] \<Rightarrow> ''[ '' @ str x @ '' ]''
      | x # ys \<Rightarrow> ''[ '' @ str x @ concat (map (\<lambda>y. '', '' @ str y) ys) @ '' ]'')"

subsection \<open>What a format string means\<close>

text \<open>A format string as a list of literal pieces and holes, its concrete text, and its
  meaning for a list of arguments.\<close>

datatype fmt_piece = Lit string | Hole

fun fmt_text :: "fmt_piece list \<Rightarrow> string" where
  "fmt_text [] = []"
| "fmt_text (Lit s # ps) = s @ fmt_text ps"
| "fmt_text (Hole # ps) = ''{}'' @ fmt_text ps"

fun fmt_fill :: "fmt_piece list \<Rightarrow> string list \<Rightarrow> string option" where
  "fmt_fill [] args = Some []"
| "fmt_fill (Lit s # ps) args = map_option (append s) (fmt_fill ps args)"
| "fmt_fill (Hole # ps) [] = None"
| "fmt_fill (Hole # ps) (a # args) = map_option (append a) (fmt_fill ps args)"

definition plain :: "fmt_piece \<Rightarrow> bool" where
  "plain p = (case p of Lit s \<Rightarrow> CHR ''{'' \<notin> set s | Hole \<Rightarrow> True)"

lemma next_arg_Cons:
  "NUL \<notin> set a \<Longrightarrow> next_arg (a @ NUL # b) = (a, Some b)"
proof -
  assume a: "NUL \<notin> set a"
  then have "takeWhile (\<lambda>c. c \<noteq> NUL) (a @ NUL # b) = a"
    by (subst takeWhile_append2) auto
  moreover from a have "dropWhile (\<lambda>c. c \<noteq> NUL) (a @ NUL # b) = NUL # b"
    by (subst dropWhile_append2) auto
  ultimately show ?thesis by (simp add: next_arg_def)
qed

lemma map_option_append_Nil [simp]: "map_option (append []) x = x"
  by (cases x) auto

lemma map_option_append_Cons: "map_option (append (c # s)) x = map_option (\<lambda>y. c # s @ y) x"
  by (cases x) auto

lemma do_format_literal:
  "CHR ''{'' \<notin> set s \<Longrightarrow> do_format (s @ f) b = map_option (append s) (do_format f b)"
  by (induction s) (auto simp: option.map_comp comp_def map_option_append_Cons)

lemma do_format_hole:
  assumes "NUL \<notin> set a"
  shows "do_format (''{}'' @ f) (Some (a @ NUL # b)) =
    map_option (append a) (do_format f (Some b))"
  using assms by (simp add: next_arg_Cons)

lemma do_format_fill:
  assumes "list_all plain ps" and "\<forall>a \<in> set args. NUL \<notin> set a"
    and "fmt_fill ps args \<noteq> None"
  shows "do_format (fmt_text ps) (Some (concat (map (\<lambda>a. a @ [NUL]) args))) = fmt_fill ps args"
  using assms
proof (induction ps args rule: fmt_fill.induct)
  case (2 s ps args)
  then show ?case by (auto simp: do_format_literal plain_def)
next
  case (4 ps a args)
  then have "do_format (fmt_text ps) (Some (concat (map (\<lambda>a. a @ [NUL]) args))) = fmt_fill ps args"
    by auto
  with 4 show ?case by (simp only: fmt_text.simps fmt_fill.simps) (simp add: next_arg_Cons)
qed auto

subsection \<open>Properties\<close>

text \<open>Enough pieces in the buffer and no read is outside of it.\<close>

lemma next_arg_count:
  "NUL \<in> set b \<Longrightarrow> \<exists>piece b1. next_arg b = (piece, Some b1) \<and> count_list b NUL = Suc (count_list b1 NUL)"
proof -
  assume "NUL \<in> set b"
  then obtain xs ys where "b = xs @ NUL # ys" "NUL \<notin> set xs" by (metis split_list_first)
  then show ?thesis using next_arg_Cons by (auto simp: count_list_0_iff)
qed

lemma do_format_returns:
  assumes "list_all plain ps" and "length (filter (\<lambda>p. p = Hole) ps) \<le> count_list b NUL"
  shows "do_format (fmt_text ps) (Some b) \<noteq> None"
  using assms
proof (induction ps arbitrary: b)
  case (Cons p ps)
  show ?case
  proof (cases p)
    case (Lit s)
    then show ?thesis using Cons by (simp add: do_format_literal plain_def)
  next
    case Hole
    then have "NUL \<in> set b" using Cons.prems(2) by (cases "NUL \<in> set b") (auto simp: count_list_0_iff)
    then obtain piece b1 where "next_arg b = (piece, Some b1)" "count_list b NUL = Suc (count_list b1 NUL)"
      using next_arg_count by blast
    then show ?thesis using Hole Cons by simp
  qed
qed simp

lemma format_returns:
  assumes "list_all plain ps" and "length (filter (\<lambda>p. p = Hole) ps) \<le> length args" and "args \<noteq> []"
  shows "fmt_format (fmt_text ps) args \<noteq> None"
proof -
  have "length as \<le> count_list (concat (map (\<lambda>a. a @ [NUL]) as)) NUL" for as :: "string list"
    by (induction as) auto
  with assms(2) have "length (filter (\<lambda>p. p = Hole) ps) \<le> count_list (concat (map (\<lambda>a. a @ [NUL]) args)) NUL"
    by (rule order_trans)
  from do_format_returns [OF assms(1) this] show ?thesis using assms(3) by (simp add: fmt_format_def)
qed

lemma format_fills:
  assumes "list_all plain ps" and "\<forall>a \<in> set args. NUL \<notin> set a" and "args \<noteq> []"
    and "length (filter (\<lambda>p. p = Hole) ps) \<le> length args"
  shows "fmt_format (fmt_text ps) args = fmt_fill ps args \<and> fmt_fill ps args \<noteq> None"
proof -
  have "length (filter (\<lambda>p. p = Hole) qs) \<le> length bs \<Longrightarrow> fmt_fill qs bs \<noteq> None" for qs bs
    by (induction qs bs rule: fmt_fill.induct) auto
  then have "fmt_fill ps args \<noteq> None" using assms(4) by blast
  then show ?thesis using do_format_fill [OF assms(1,2)] assms(3) by (simp add: fmt_format_def)
qed

text \<open>C20: For a format string made of literal pieces and holes, and arguments without NUL bytes,
  at least one and as many as there are holes or more, \<open>fmt::format\<close> with its one flat
  buffer of NUL-terminated pieces computes what the template means: each hole replaced by its
  argument, and no read outside the buffer.\<close>

theorem format_fills_template:
  assumes "list_all plain ps" and "\<forall>a \<in> set args. NUL \<notin> set a" and "args \<noteq> []"
    and "length (filter (\<lambda>p. p = Hole) ps) \<le> length args"
  shows "fmt_format (fmt_text ps) args = fmt_fill ps args \<and> fmt_fill ps args \<noteq> None"
  using assms by (rule format_fills)

theorem format_fills_template_witness:
  "fmt_format (fmt_text [Lit ''expected '', Hole, Lit '' but got '', Hole]) [''Comma'', ''Eof''] =
     Some ''expected Comma but got Eof''"
  using format_fills_template [of "[Lit ''expected '', Hole, Lit '' but got '', Hole]" "[''Comma'', ''Eof'']"]
  by (simp add: plain_def)

lemma format_reads_outside: "fmt_format ''{}, {}, {}'' [''a''] = None"
  by (simp add: fmt_format_def next_arg_def)

end
