(* ===== verification/Files.thy ===== *)
theory Files
  imports Arena Text_Reader Format
begin

section \<open>Source files (\<open>file_manager.cpp\<close>, \<open>util/io.cpp\<close>)\<close>

text \<open>
  The file manager copies every file it reads behind the ones before it in one buffer and keeps
  an index of them; the number of a file is its place in the index, as a \<open>u16\<close>. The contents are
  views into the buffer, which later reads do not change, so they are kept by their bytes.

  The path of a file is a view of the caller's string, which the file manager does not own. It is
  \<open>Some p\<close> as long as that string lives and \<open>None\<close> afterwards (\<open>path_dies\<close>); reading it then is
  undefined. \<open>get_module\<close> passes a local variable, so the path is gone when it returns.

  The file system is a parameter: what can be opened for reading with which bytes, and what is
  a directory. A directory can be opened, but has no \<open>file_size\<close>: that throws.
\<close>

record file_system =
  fs_read :: "string \<Rightarrow> string option"
  fs_exists :: "string \<Rightarrow> bool"
  fs_is_directory :: "string \<Rightarrow> bool"

record source_file =
  sf_id :: "16 word"
  sf_path :: "string option"
  sf_contents :: string

record files =
  g_file_index :: "source_file list"
  g_file_buffers :: "arena option"

definition no_files :: files where
  "no_files = \<lparr>g_file_index = [], g_file_buffers = None\<rparr>"

definition FILE_BUFFERS_MAX_SIZE :: nat where
  "FILE_BUFFERS_MAX_SIZE = 512 * 1024 * 1024"

definition read_file :: "file_system \<Rightarrow> string \<Rightarrow> arena \<Rightarrow> exn + bool \<times> arena" where
  "read_file fs path buffer =
     (if fs_is_directory fs path then Inl (Filesystem path)
      else case fs_read fs path of
        None \<Rightarrow> Inr (False, buffer)
      | Some bytes \<Rightarrow> Inr (True, arena_write_sv buffer bytes))"

definition file_buffers :: "files \<Rightarrow> arena" where
  "file_buffers st = (case g_file_buffers st of None \<Rightarrow> arena_init FILE_BUFFERS_MAX_SIZE | Some a \<Rightarrow> a)"

definition load_file :: "file_system \<Rightarrow> string \<Rightarrow> files \<Rightarrow> exn + source_file option \<times> files" where
  "load_file fs path st =
     (let start = occupied (file_buffers st);
          i = length (g_file_index st)
      in case read_file fs path (file_buffers st) of
           Inl e \<Rightarrow> Inl e
         | Inr (ok, a) \<Rightarrow>
             if \<not> ok then Inr (None, st\<lparr>g_file_buffers := Some a\<rparr>)
             else
               let src = \<lparr>sf_id = of_nat i, sf_path = Some path, sf_contents = arena_view a start (occupied a - start)\<rparr>
               in Inr (Some src, \<lparr>g_file_index = g_file_index st @ [src], g_file_buffers = Some a\<rparr>))"

text \<open>The index is not checked.\<close>

definition get_source :: "16 word \<Rightarrow> files \<Rightarrow> source_file option" where
  "get_source i st = (if unat i < length (g_file_index st) then Some (g_file_index st ! unat i) else None)"

text \<open>The string the path of the file at place \<open>i\<close> of the index shows is destroyed.\<close>

definition forget_path :: "source_file \<Rightarrow> source_file" where
  "forget_path src = src\<lparr>sf_path := None\<rparr>"

definition path_dies :: "nat \<Rightarrow> files \<Rightarrow> files" where
  "path_dies i st = st\<lparr>g_file_index := (g_file_index st)[i := forget_path (g_file_index st ! i)]\<rparr>"

text \<open>What can happen to the file manager: files are loaded, and strings that held paths die.\<close>

datatype file_event = Loads string | PathDies nat

fun file_events :: "file_system \<Rightarrow> file_event list \<Rightarrow> files \<Rightarrow> exn + files" where
  "file_events fs [] st = Inr st"
| "file_events fs (Loads p # es) st =
     (case load_file fs p st of Inl e \<Rightarrow> Inl e | Inr (_, st1) \<Rightarrow> file_events fs es st1)"
| "file_events fs (PathDies i # es) st = file_events fs es (path_dies i st)"

subsection \<open>What is loaded stays\<close>

lemma file_buffers_some [simp]: "g_file_buffers st = Some a \<Longrightarrow> file_buffers st = a"
  by (simp add: file_buffers_def)

lemma path_dies_simps [simp]:
  "length (g_file_index (path_dies i st)) = length (g_file_index st)"
  "file_buffers (path_dies i st) = file_buffers st"
  by (simp_all add: path_dies_def file_buffers_def)

lemma load_file_cases:
  assumes "load_file fs p st = Inr (r, st')"
  shows "(r = None \<and> g_file_index st' = g_file_index st \<and> file_buffers st' = file_buffers st \<and> fs_read fs p = None) \<or>
    (\<exists>bytes. fs_read fs p = Some bytes \<and>
       r = Some \<lparr>sf_id = of_nat (length (g_file_index st)), sf_path = Some p, sf_contents = bytes\<rparr> \<and>
       g_file_index st' = g_file_index st @ [the r] \<and> file_buffers st' = arena_write_sv (file_buffers st) bytes)"
proof (cases "fs_read fs p")
  case (Some bytes)
  have "arena_view (arena_write_sv (file_buffers st) bytes) (occupied (file_buffers st)) (length bytes) = bytes"
    using arena_get_slice_write [of "occupied (file_buffers st)" "file_buffers st" bytes]
    by (simp add: arena_get_slice_def arena_view_def)
  then show ?thesis
    using assms Some by (auto simp: load_file_def read_file_def Let_def split: if_splits)
qed (use assms in \<open>auto simp: load_file_def read_file_def Let_def split: if_splits\<close>)

text \<open>An entry of the index keeps its number and its bytes, and loses its path only when the string dies.\<close>

lemma events_keep_entry:
  assumes "file_events fs es st = Inr st'" and "i < length (g_file_index st)"
  shows "i < length (g_file_index st') \<and>
    g_file_index st' ! i = (if PathDies i \<in> set es then forget_path (g_file_index st ! i) else g_file_index st ! i)"
  using assms
proof (induction fs es st rule: file_events.induct)
  case (2 fs p es st)
  then obtain r st1 where 1: "load_file fs p st = Inr (r, st1)" and run: "file_events fs es st1 = Inr st'"
    by (auto split: sum.splits)
  have "i < length (g_file_index st1)" "g_file_index st1 ! i = g_file_index st ! i"
    using load_file_cases [OF 1] "2.prems"(2) by (auto simp: nth_append)
  then show ?case using "2.IH" [OF 1 refl run] by simp
next
  case (3 fs j es st)
  have "g_file_index (path_dies j st) ! i = (if j = i then forget_path (g_file_index st ! i) else g_file_index st ! i)"
    using 3 by (simp add: path_dies_def)
  then show ?case using 3 by (auto simp: forget_path_def)
qed simp

lemma events_keep_view:
  assumes "file_events fs es st = Inr st'" and "m + n \<le> occupied (file_buffers st)"
  shows "arena_view (file_buffers st') m n = arena_view (file_buffers st) m n"
  using assms
proof (induction fs es st rule: file_events.induct)
  case (2 fs p es st)
  then obtain r st1 where 1: "load_file fs p st = Inr (r, st1)" and run: "file_events fs es st1 = Inr st'"
    by (auto split: sum.splits)
  from load_file_cases [OF 1] have "m + n \<le> occupied (file_buffers st1)"
    and "arena_view (file_buffers st1) m n = arena_view (file_buffers st) m n"
    using "2.prems"(2) by (auto simp: arena_buffer.mark_write arena_buffer.view_stable)
  with "2.IH" [OF 1 refl run] show ?case by simp
qed simp_all

text \<open>C36: A file that is loaded can be got back. Whatever files are loaded after it and whatever strings with
  paths are destroyed (fewer than 65536 files before it), \<open>get_source\<close> of its number gives a file of that
  number with the bytes it was loaded with, which are also the bytes the buffer still shows where
  the file was put. Its path is the one it was loaded by only as long as the caller's string lives, of
  which the file manager keeps a view.\<close>

theorem loaded_source_stays:
  assumes "load_file fs p st = Inr (Some src, st1)" and "file_events fs later st1 = Inr st2"
    and "length (g_file_index st) < 2 ^ 16"
  shows "\<exists>src'. get_source (sf_id src) st2 = Some src' \<and> sf_id src' = sf_id src \<and>
    fs_read fs p = Some (sf_contents src') \<and>
    arena_view (file_buffers st2) (occupied (file_buffers st)) (length (sf_contents src')) = sf_contents src' \<and>
    sf_path src' = (if PathDies (length (g_file_index st)) \<in> set later then None else Some p)"
proof -
  from load_file_cases [OF assms(1)] obtain bytes where b: "fs_read fs p = Some bytes"
    "src = \<lparr>sf_id = of_nat (length (g_file_index st)), sf_path = Some p, sf_contents = bytes\<rparr>"
    "g_file_index st1 = g_file_index st @ [src]" "file_buffers st1 = arena_write_sv (file_buffers st) bytes"
    by auto
  let ?i = "length (g_file_index st)"
  have "?i < length (g_file_index st1)" using b(3) by simp
  note entry = events_keep_entry [OF assms(2) this]
  have "unat (sf_id src) = ?i" using b(2) assms(3) by (simp add: unat_of_nat)
  then have "get_source (sf_id src) st2 = Some (if PathDies ?i \<in> set later then forget_path src else src)"
    using entry b(3) by (auto simp: get_source_def)
  moreover have "arena_view (file_buffers st2) (occupied (file_buffers st)) (length bytes) = bytes"
  proof -
    have "arena_view (file_buffers st2) (occupied (file_buffers st)) (length bytes) =
        arena_view (file_buffers st1) (occupied (file_buffers st)) (length bytes)"
      by (rule events_keep_view [OF assms(2)]) (simp add: b(4) arena_buffer.mark_write)
    also have "\<dots> = bytes"
      using arena_get_slice_write [of "occupied (file_buffers st)" "file_buffers st" bytes] b(4)
      by (simp add: arena_get_slice_def arena_view_def)
    finally show ?thesis .
  qed
  ultimately show ?thesis using b(1,2) by (simp add: forget_path_def)
qed

definition two_files :: file_system where
  "two_files = \<lparr>fs_read = [''a.pars'' \<mapsto> ''let a = 1'', ''b.pars'' \<mapsto> ''let b = 2''],
     fs_exists = (\<lambda>p. p = ''a.pars'' \<or> p = ''b.pars''), fs_is_directory = (\<lambda>_. False)\<rparr>"

theorem loaded_source_stays_witness:
  "\<exists>src st1 st2 src'. load_file two_files ''a.pars'' no_files = Inr (Some src, st1) \<and>
     file_events two_files [Loads ''b.pars'', PathDies 0, Loads ''c.pars''] st1 = Inr st2 \<and>
     get_source 0 st2 = Some src' \<and> sf_contents src' = ''let a = 1'' \<and> sf_path src' = None"
proof -
  obtain src st1 where 1: "load_file two_files ''a.pars'' no_files = Inr (Some src, st1)" and i: "sf_id src = 0"
    by (simp add: load_file_def read_file_def two_files_def no_files_def Let_def)
  obtain st2 where 2: "file_events two_files [Loads ''b.pars'', PathDies 0, Loads ''c.pars''] st1 = Inr st2"
    by (simp add: load_file_def read_file_def two_files_def Let_def)
  from loaded_source_stays [OF 1 2] i have "\<exists>src'. get_source 0 st2 = Some src' \<and> sf_contents src' = ''let a = 1'' \<and> sf_path src' = None"
    by (auto simp: no_files_def two_files_def)
  then show ?thesis using 1 2 by blast
qed

end
