(* ===== verification/Hash_Map.thy ===== *)
theory Hash_Map
  imports Prelude
begin

section \<open>The symbol maps (\<open>containers/hash_map.hpp\<close>)\<close>

text \<open>
  \<open>HashMap\<close> is \<open>ankerl::unordered_dense::map\<close>: the entries are kept in a vector in the order
  of their insertion, beside an index by hash. The program uses \<open>find\<close>, \<open>emplace\<close> (which
  keeps the old entry when the key is present and says so), \<open>operator[]\<close> (which inserts a
  default entry) and \<open>clear\<close>. The index only speeds up the search, so the vector of entries
  is the map here.
\<close>

type_synonym ('k, 'v) hash_map = "('k \<times> 'v) list"

definition hm_find :: "('k, 'v) hash_map \<Rightarrow> 'k \<Rightarrow> 'v option" where
  "hm_find m k = map_of m k"

definition hm_emplace :: "'k \<Rightarrow> 'v \<Rightarrow> ('k, 'v) hash_map \<Rightarrow> bool \<times> ('k, 'v) hash_map" where
  "hm_emplace k v m = (case hm_find m k of Some _ \<Rightarrow> (False, m) | None \<Rightarrow> (True, m @ [(k, v)]))"

text \<open>\<open>m[k] = f m[k]\<close>, with the default entry \<open>d\<close>.\<close>

definition hm_modify :: "'k \<Rightarrow> 'v \<Rightarrow> ('v \<Rightarrow> 'v) \<Rightarrow> ('k, 'v) hash_map \<Rightarrow> ('k, 'v) hash_map" where
  "hm_modify k d f m =
     (case hm_find m k of
        Some _ \<Rightarrow> map (\<lambda>(k', v). if k' = k then (k', f v) else (k', v)) m
      | None \<Rightarrow> m @ [(k, f d)])"

definition hm_clear :: "('k, 'v) hash_map \<Rightarrow> ('k, 'v) hash_map" where
  "hm_clear m = []"

subsection \<open>What the clients rely on\<close>

locale lookup_map =
  fixes empty_map :: 'm
    and find_key :: "'m \<Rightarrow> 'k \<Rightarrow> 'v option"
    and emplace :: "'k \<Rightarrow> 'v \<Rightarrow> 'm \<Rightarrow> bool \<times> 'm"
    and modify_key :: "'k \<Rightarrow> 'v \<Rightarrow> ('v \<Rightarrow> 'v) \<Rightarrow> 'm \<Rightarrow> 'm"
  assumes find_empty: "find_key empty_map k = None"
    and emplace_flag: "fst (emplace k v m) \<longleftrightarrow> find_key m k = None"
    and find_emplace: "find_key (snd (emplace k v m)) k' =
      (if k' = k \<and> find_key m k = None then Some v else find_key m k')"
    and find_modify: "find_key (modify_key k d f m) k' =
      (if k' = k then Some (f (case find_key m k of Some v \<Rightarrow> v | None \<Rightarrow> d)) else find_key m k')"
begin

text \<open>The first entry for a key stays.\<close>

fun emplace_all :: "('k \<times> 'v) list \<Rightarrow> 'm \<Rightarrow> 'm" where
  "emplace_all [] m = m"
| "emplace_all ((k, v) # kvs) m = emplace_all kvs (snd (emplace k v m))"

lemma find_emplace_all:
  "find_key (emplace_all kvs m) k =
     (case find_key m k of Some v \<Rightarrow> Some v | None \<Rightarrow> map_of kvs k)"
  by (induction kvs m rule: emplace_all.induct) (auto simp: find_emplace split: option.splits)

lemma first_wins:
  "find_key m k = Some v \<Longrightarrow> find_key (emplace_all kvs m) k = Some v"
  by (simp add: find_emplace_all)

text \<open>Entries collected under a key with \<open>operator[]\<close>.\<close>

lemma find_modify_same:
  "find_key m k = Some v \<Longrightarrow> find_key (modify_key k d f m) k = Some (f v)"
  by (simp add: find_modify)

end

lemma hm_find_emplace [simp]:
  "hm_find (snd (hm_emplace k v m)) k' =
     (if k' = k \<and> hm_find m k = None then Some v else hm_find m k')"
  by (auto simp: hm_emplace_def hm_find_def map_of_append map_add_def split: option.splits)

lemma hm_emplace_flag [simp]: "fst (hm_emplace k v m) \<longleftrightarrow> hm_find m k = None"
  by (simp add: hm_emplace_def split: option.splits)

lemma map_of_modify:
  "map_of (map (\<lambda>(k', v). if k' = k then (k', f v) else (k', v)) m) x =
     (if x = k then map_option f (map_of m x) else map_of m x)"
  by (induction m) auto

lemma hm_find_modify [simp]:
  "hm_find (hm_modify k d f m) k' =
     (if k' = k then Some (f (case hm_find m k of Some v \<Rightarrow> v | None \<Rightarrow> d)) else hm_find m k')"
  by (auto simp: hm_modify_def hm_find_def map_of_modify map_of_append map_add_def split: option.splits)

lemma hm_find_clear [simp]: "hm_find (hm_clear m) k = None"
  by (simp add: hm_find_def hm_clear_def)

lemma hm_find_Nil [simp]: "hm_find [] k = None"
  by (simp add: hm_find_def)

interpretation symbol_map: lookup_map "[]" hm_find hm_emplace hm_modify
  by unfold_locales simp_all

text \<open>Keys stay distinct, so the vector of entries never lists a name twice.\<close>

definition hm_ok :: "('k, 'v) hash_map \<Rightarrow> bool" where
  "hm_ok m \<longleftrightarrow> distinct (map fst m)"

lemma hm_ok_emplace [inv_intros]: "hm_ok m \<Longrightarrow> hm_ok (snd (hm_emplace k v m))"
  by (auto simp: hm_ok_def hm_emplace_def hm_find_def map_of_eq_None_iff split: option.splits)

lemma hm_ok_modify [inv_intros]: "hm_ok m \<Longrightarrow> hm_ok (hm_modify k d f m)"
  by (auto simp: hm_ok_def hm_modify_def hm_find_def map_of_eq_None_iff comp_def case_prod_beta
      if_distrib [of fst] cong: if_cong split: option.splits)

end
