(* ===== verification/Cli.thy ===== *)
theory Cli
  imports Format Hash_Map
begin

section \<open>Command line and configuration (\<open>cli.cpp\<close>, \<open>config.cpp\<close>)\<close>

text \<open>
  \<open>init_config\<close> registers the commands and the switches; \<open>parse_cli_args\<close> reads the arguments,
  writes the configuration through the pointers registered with them and returns the rest.

  A pointer into the configuration is the name of its field here. \<open>argv\<close> ends with a null
  pointer, which must not be made a \<open>string_view\<close>: a switch that lacks its value is undefined.
\<close>

datatype CompileCommand = Build | Run | Help | Test

record config =
  cf_command :: CompileCommand
  cf_emit_llvm :: bool
  cf_do_not_compile :: bool
  cf_do_not_warn :: bool
  cf_fail_on_warning :: bool
  cf_silent_errors :: bool
  cf_out :: string
  cf_opt_level :: "32 word"

text \<open>\<open>static Config g_config {}\<close>\<close>

definition zero_config :: config where
  "zero_config = \<lparr>cf_command = Build, cf_emit_llvm = False, cf_do_not_compile = False, cf_do_not_warn = False,
     cf_fail_on_warning = False, cf_silent_errors = False, cf_out = [], cf_opt_level = 0\<rparr>"

definition should_compile :: "config \<Rightarrow> bool" where
  "should_compile c \<longleftrightarrow> (\<not> cf_do_not_compile c \<and> cf_command c = Build) \<or> cf_command c = Run"

datatype bool_field = F_emit_llvm | F_do_not_compile | F_do_not_warn | F_fail_on_warning | F_silent_errors

text \<open>\<open>CliSwitchValue\<close>: the only \<open>i32\<close> is \<open>opt_level\<close>, the only text \<open>out\<close>.\<close>

datatype switch_value = BoolRef bool_field | OptLevelRef | OutRef

record cli_switch =
  sw_name :: string
  sw_alias :: string
  sw_description :: string
  sw_buffer :: switch_value

record command_info =
  ci_index :: CompileCommand
  ci_description :: string

record cli =
  g_cli_commands :: "(string, command_info) hash_map"
  g_switches :: "(string, cli_switch) hash_map"
  g_switches_aliases :: "(string, cli_switch) hash_map"

definition empty_cli :: cli where
  "empty_cli = \<lparr>g_cli_commands = [], g_switches = [], g_switches_aliases = []\<rparr>"

subsection \<open>Registration\<close>

definition set_cli_command :: "string \<Rightarrow> command_info \<Rightarrow> cli \<Rightarrow> cli" where
  "set_cli_command name info c = c\<lparr>g_cli_commands := hm_modify name info (\<lambda>_. info) (g_cli_commands c)\<rparr>"

definition add_cli_switch :: "cli_switch \<Rightarrow> cli \<Rightarrow> cli" where
  "add_cli_switch sw c =
     (let c1 = c\<lparr>g_switches := hm_modify (sw_name sw) sw (\<lambda>_. sw) (g_switches c)\<rparr>
      in if sw_alias sw \<noteq> []
         then c1\<lparr>g_switches_aliases := hm_modify (sw_alias sw) sw (\<lambda>_. sw) (g_switches_aliases c1)\<rparr>
         else c1)"

definition config_commands :: "(string \<times> command_info) list" where
  "config_commands =
     [(''build'', \<lparr>ci_index = Build, ci_description = ''builds the file into an executable''\<rparr>),
      (''run'', \<lparr>ci_index = Run, ci_description = ''builds the file into an executable and then runs it directly''\<rparr>),
      (''help'', \<lparr>ci_index = Help, ci_description = ''shows the help command''\<rparr>),
      (''test'', \<lparr>ci_index = Test, ci_description = ''runs all unit tests. (currently not implemented)''\<rparr>)]"

definition config_switches :: "cli_switch list" where
  "config_switches =
     [\<lparr>sw_name = ''emit-llvm'', sw_alias = ''llvm'', sw_description = ''emits llvm ir'', sw_buffer = BoolRef F_emit_llvm\<rparr>,
      \<lparr>sw_name = ''do-not-compile'', sw_alias = ''nocomp'',
       sw_description = ''will not compile. useful when combined with other switches.'', sw_buffer = BoolRef F_do_not_compile\<rparr>,
      \<lparr>sw_name = ''out'', sw_alias = ''o'', sw_description = ''sets the output path'', sw_buffer = OutRef\<rparr>,
      \<lparr>sw_name = ''no-warnings'', sw_alias = ''nowarn'', sw_description = ''will supress warnings'', sw_buffer = BoolRef F_do_not_warn\<rparr>,
      \<lparr>sw_name = ''fail-on-warning'', sw_alias = ''fow'',
       sw_description = ''will stop compilation on any error'', sw_buffer = BoolRef F_fail_on_warning\<rparr>,
      \<lparr>sw_name = ''silent-errors'', sw_alias = ''silent'',
       sw_description = ''Will not emit any errors on failure'', sw_buffer = BoolRef F_silent_errors\<rparr>,
      \<lparr>sw_name = ''optimize'', sw_alias = ''opt'',
       sw_description = ''sets the optimization level. level 0 will disable many optimizations. 1 to 3 will optimize speed. 4 will optimize size over speed. 5 optimizes size at any cost.'',
       sw_buffer = OptLevelRef\<rparr>]"

definition init_config :: cli where
  "init_config = fold add_cli_switch config_switches (fold (\<lambda>(name, info). set_cli_command name info) config_commands empty_cli)"

subsection \<open>Reading the arguments\<close>

fun set_flag :: "bool_field \<Rightarrow> config \<Rightarrow> config" where
  "set_flag F_emit_llvm c = c\<lparr>cf_emit_llvm := True\<rparr>"
| "set_flag F_do_not_compile c = c\<lparr>cf_do_not_compile := True\<rparr>"
| "set_flag F_do_not_warn c = c\<lparr>cf_do_not_warn := True\<rparr>"
| "set_flag F_fail_on_warning c = c\<lparr>cf_fail_on_warning := True\<rparr>"
| "set_flag F_silent_errors c = c\<lparr>cf_silent_errors := True\<rparr>"

text \<open>\<open>std::atoi\<close>: blanks, a sign, digits; whatever follows is ignored. A value that is no \<open>int\<close>
  is undefined.\<close>

definition is_space :: "byte \<Rightarrow> bool" where
  "is_space c \<longleftrightarrow> c = CHR '' '' \<or> (9 \<le> (of_char c :: nat) \<and> (of_char c :: nat) \<le> 13)"

definition is_decimal :: "byte \<Rightarrow> bool" where
  "is_decimal c \<longleftrightarrow> 48 \<le> (of_char c :: nat) \<and> (of_char c :: nat) \<le> 57"

definition digits_value :: "string \<Rightarrow> int" where
  "digits_value cs = foldl (\<lambda>n c. 10 * n + (of_char c - 48)) 0 cs"

definition atoi_value :: "string \<Rightarrow> int" where
  "atoi_value s =
     (case dropWhile is_space s of
        [] \<Rightarrow> 0
      | c # cs \<Rightarrow>
          if c = CHR ''-'' then - digits_value (takeWhile is_decimal cs)
          else if c = CHR ''+'' then digits_value (takeWhile is_decimal cs)
          else digits_value (takeWhile is_decimal (c # cs)))"

definition atoi :: "string \<Rightarrow> exn + 32 word" where
  "atoi s =
     (let n = atoi_value s
      in if - (2 ^ 31) \<le> n \<and> n < 2 ^ 31 then Inr (word_of_int n) else Inl (Undefined ''atoi''))"

text \<open>\<open>CliParseResult\<close>: the message is empty when there is no error.\<close>

record cli_result =
  cr_message :: string
  cr_args :: "string list"

definition has_error :: "cli_result \<Rightarrow> bool" where
  "has_error r = (cr_message r \<noteq> [])"

definition cli_error :: "string \<Rightarrow> cli_result" where
  "cli_error msg = \<lparr>cr_message = msg, cr_args = []\<rparr>"

definition starts_with :: "string \<Rightarrow> string \<Rightarrow> bool" where
  "starts_with prefix s = (take (length prefix) s = prefix)"

text \<open>The switch an argument names: \<open>None\<close> when it is no switch, \<open>Some (name, None)\<close> when there is
  no such switch.\<close>

definition switch_of :: "cli \<Rightarrow> string \<Rightarrow> (string \<times> cli_switch option) option" where
  "switch_of c arg =
     (if starts_with ''--'' arg then Some (drop 2 arg, hm_find (g_switches c) (drop 2 arg))
      else if starts_with ''-'' arg then Some (drop 1 arg, hm_find (g_switches_aliases c) (drop 1 arg))
      else None)"

fun cli_loop :: "cli \<Rightarrow> bool \<Rightarrow> string list \<Rightarrow> bool \<Rightarrow> string list \<Rightarrow> config \<Rightarrow> exn + cli_result \<times> config" where
  "cli_loop c needs_command [] found args cfg =
     Inr (if \<not> found \<and> needs_command then cli_error ''expected a command but got none''
          else \<lparr>cr_message = [], cr_args = args\<rparr>, cfg)"
| "cli_loop c needs_command (arg # rest) found args cfg =
     (case switch_of c arg of
        Some (name, None) \<Rightarrow>
          (case fmt_format (''no switch by the name of '' @ squote # ''{}'' @ squote # '' exists'') [name] of
             Some msg \<Rightarrow> Inr (cli_error msg, cfg) | None \<Rightarrow> Inl (Undefined ''format''))
      | Some (name, Some sw) \<Rightarrow>
          (case sw_buffer sw of
             BoolRef f \<Rightarrow> cli_loop c needs_command rest found args (set_flag f cfg)
           | OptLevelRef \<Rightarrow>
               (case rest of
                  [] \<Rightarrow> Inl (Undefined ''null string'')
                | v # rest1 \<Rightarrow>
                    (case atoi v of
                       Inl e \<Rightarrow> Inl e
                     | Inr n \<Rightarrow> cli_loop c needs_command rest1 found args (cfg\<lparr>cf_opt_level := n\<rparr>)))
           | OutRef \<Rightarrow>
               (case rest of
                  [] \<Rightarrow> Inl (Undefined ''null string'')
                | v # rest1 \<Rightarrow> cli_loop c needs_command rest1 found args (cfg\<lparr>cf_out := v\<rparr>)))
      | None \<Rightarrow>
          (case hm_find (g_cli_commands c) arg of
             Some info \<Rightarrow>
               if found then Inr (cli_error ''command has already been used'', cfg)
               else cli_loop c needs_command rest True args (cfg\<lparr>cf_command := ci_index info\<rparr>)
           | None \<Rightarrow> cli_loop c needs_command rest found (args @ [arg]) cfg))"

text \<open>\<open>argv\<close> starts with the name of the program.\<close>

definition parse_cli_args :: "cli \<Rightarrow> bool \<Rightarrow> string list \<Rightarrow> config \<Rightarrow> exn + cli_result \<times> config" where
  "parse_cli_args c needs_command argv cfg = cli_loop c needs_command (drop 1 argv) False [] cfg"

subsection \<open>The help text\<close>

text \<open>What \<open>print_cli_help\<close> writes, one element for every call of \<open>println\<close>; each ends with a line feed
  of its own and the one of \<open>puts\<close>. The maps are walked in the order of their entries.\<close>

definition help_head :: "string list" where
  "help_head =
     [''all switches must be prefixed with '' @ [squote] @ ''--'' @ [squote] @ '' and switch aliases with only ''
        @ [squote] @ ''-'' @ [squote, newline],
      ''Example:'' @ [newline, CHR 0x09] @ ''parsc build ./main.pars -o my_exe'' @ [newline],
      ''======== Commands ========'' @ [newline]]"

definition switches_head :: string where
  "switches_head = ''======== Switches ========'' @ [newline]"

definition command_help :: "string \<times> command_info \<Rightarrow> string option" where
  "command_help = (\<lambda>(name, info). fmt_format (''{}: {}'' @ [newline]) [name, ci_description info])"

definition switch_help :: "string \<times> cli_switch \<Rightarrow> string option" where
  "switch_help = (\<lambda>(name, info). fmt_format (''--{} (-{}): {}'' @ [newline]) [name, sw_alias info, sw_description info])"

definition print_cli_help :: "cli \<Rightarrow> string list option" where
  "print_cli_help c =
     those (map (\<lambda>f. fmt_format f []) help_head @ map command_help (g_cli_commands c) @
            [fmt_format switches_head []] @ map switch_help (g_switches c))"

lemma command_help_text:
  assumes "NUL \<notin> set name" and "NUL \<notin> set (ci_description info)"
  shows "command_help (name, info) = Some (name @ '': '' @ ci_description info @ [newline])"
  using do_format_fill [of "[Hole, Lit '': '', Hole, Lit [newline]]" "[name, ci_description info]"] assms
  by (simp add: command_help_def fmt_format_def plain_def)

lemma switch_help_text:
  assumes "NUL \<notin> set name" and "NUL \<notin> set (sw_alias sw)" and "NUL \<notin> set (sw_description sw)"
  shows "switch_help (name, sw) =
    Some (''--'' @ name @ '' (-'' @ sw_alias sw @ ''): '' @ sw_description sw @ [newline])"
  using do_format_fill [of "[Lit ''--'', Hole, Lit '' (-'', Hole, Lit ''): '', Hole, Lit [newline]]"
      "[name, sw_alias sw, sw_description sw]"] assms
  by (simp add: switch_help_def fmt_format_def plain_def)

lemma those_append: "those (xs @ ys) = (case those xs of None \<Rightarrow> None | Some as \<Rightarrow> map_option (append as) (those ys))"
  by (induction xs) (cases "those ys"; auto simp: option.map_comp comp_def split: option.splits)+

lemma those_map_Some: "(\<And>x. x \<in> set xs \<Longrightarrow> f x = Some (g x)) \<Longrightarrow> those (map f xs) = Some (map g xs)"
  by (induction xs) auto

text \<open>Every command and every switch is listed once, in the order of the registration.\<close>

lemma help_lists_everything:
  assumes "\<And>name info. (name, info) \<in> set (g_cli_commands c) \<Longrightarrow> NUL \<notin> set name \<and> NUL \<notin> set (ci_description info)"
    and "\<And>name sw. (name, sw) \<in> set (g_switches c) \<Longrightarrow>
      NUL \<notin> set name \<and> NUL \<notin> set (sw_alias sw) \<and> NUL \<notin> set (sw_description sw)"
  shows "print_cli_help c =
    Some (help_head @ map (\<lambda>(name, info). name @ '': '' @ ci_description info @ [newline]) (g_cli_commands c) @
          [switches_head] @
          map (\<lambda>(name, sw). ''--'' @ name @ '' (-'' @ sw_alias sw @ ''): '' @ sw_description sw @ [newline]) (g_switches c))"
proof -
  have "those (map command_help (g_cli_commands c)) =
      Some (map (\<lambda>(name, info). name @ '': '' @ ci_description info @ [newline]) (g_cli_commands c))"
    by (rule those_map_Some) (auto simp: command_help_text dest: assms(1))
  moreover have "those (map switch_help (g_switches c)) =
      Some (map (\<lambda>(name, sw). ''--'' @ name @ '' (-'' @ sw_alias sw @ ''): '' @ sw_description sw @ [newline]) (g_switches c))"
    by (rule those_map_Some) (auto simp: switch_help_text dest: assms(2))
  moreover have "those (map (\<lambda>f. fmt_format f []) help_head) = Some help_head"
    by (simp add: those_map_Some [where g = "\<lambda>f. f"] fmt_format_def)
  ultimately show ?thesis by (simp add: print_cli_help_def those_append fmt_format_def)
qed

subsection \<open>Writing a command line and reading it\<close>

datatype cli_item = Cmd CompileCommand | Flag bool_field bool | Level string bool | Out string bool | Rest string

fun command_text :: "CompileCommand \<Rightarrow> string" where
  "command_text Build = ''build''" | "command_text Run = ''run''"
| "command_text Help = ''help''" | "command_text Test = ''test''"

text \<open>The long form of a switch and its alias.\<close>

fun switch_text :: "switch_value \<Rightarrow> bool \<Rightarrow> string" where
  "switch_text (BoolRef F_emit_llvm) short = (if short then ''-llvm'' else ''--emit-llvm'')"
| "switch_text (BoolRef F_do_not_compile) short = (if short then ''-nocomp'' else ''--do-not-compile'')"
| "switch_text (BoolRef F_do_not_warn) short = (if short then ''-nowarn'' else ''--no-warnings'')"
| "switch_text (BoolRef F_fail_on_warning) short = (if short then ''-fow'' else ''--fail-on-warning'')"
| "switch_text (BoolRef F_silent_errors) short = (if short then ''-silent'' else ''--silent-errors'')"
| "switch_text OptLevelRef short = (if short then ''-opt'' else ''--optimize'')"
| "switch_text OutRef short = (if short then ''-o'' else ''--out'')"

fun render_item :: "cli_item \<Rightarrow> string list" where
  "render_item (Cmd c) = [command_text c]"
| "render_item (Flag f short) = [switch_text (BoolRef f) short]"
| "render_item (Level v short) = [switch_text OptLevelRef short, v]"
| "render_item (Out v short) = [switch_text OutRef short, v]"
| "render_item (Rest s) = [s]"

fun item_ok :: "cli_item \<Rightarrow> bool" where
  "item_ok (Rest s) = (take 1 s \<noteq> ''-'' \<and> s \<notin> {''build'', ''run'', ''help'', ''test''})"
| "item_ok (Level v short) = (\<exists>n. atoi v = Inr n)"
| "item_ok _ = True"

fun apply_item :: "cli_item \<Rightarrow> config \<Rightarrow> config" where
  "apply_item (Cmd c) cfg = cfg\<lparr>cf_command := c\<rparr>"
| "apply_item (Flag f short) cfg = set_flag f cfg"
| "apply_item (Level v short) cfg = (case atoi v of Inr n \<Rightarrow> cfg\<lparr>cf_opt_level := n\<rparr> | Inl _ \<Rightarrow> cfg)"
| "apply_item (Out v short) cfg = cfg\<lparr>cf_out := v\<rparr>"
| "apply_item (Rest s) cfg = cfg"

definition commands_in :: "cli_item list \<Rightarrow> nat" where
  "commands_in items = length (filter (\<lambda>i. case i of Cmd _ \<Rightarrow> True | _ \<Rightarrow> False) items)"

definition rests_in :: "cli_item list \<Rightarrow> string list" where
  "rests_in items = concat (map (\<lambda>i. case i of Rest s \<Rightarrow> [s] | _ \<Rightarrow> []) items)"

lemma items_simps [simp]:
  "commands_in [] = 0" "rests_in [] = []"
  "commands_in (i # is) = (case i of Cmd _ \<Rightarrow> 1 | _ \<Rightarrow> 0) + commands_in is"
  "rests_in (i # is) = (case i of Rest s \<Rightarrow> [s] | _ \<Rightarrow> []) @ rests_in is"
  by (simp_all add: commands_in_def rests_in_def split: cli_item.split)

text \<open>What the tables of \<open>init_config\<close> hold.\<close>

lemma config_tables:
  "g_cli_commands init_config = config_commands"
  "g_switches init_config = map (\<lambda>s. (sw_name s, s)) config_switches"
  "g_switches_aliases init_config = map (\<lambda>s. (sw_alias s, s)) config_switches"
  by (simp_all add: init_config_def config_commands_def config_switches_def set_cli_command_def add_cli_switch_def
      empty_cli_def hm_modify_def hm_find_def)

lemma switch_found: "\<exists>name sw. switch_of init_config (switch_text r short) = Some (name, Some sw) \<and> sw_buffer sw = r"
proof (cases r)
  case (BoolRef f)
  then show ?thesis
    by (cases f) (simp_all add: switch_of_def starts_with_def config_tables hm_find_def config_switches_def)
qed (simp_all add: switch_of_def starts_with_def config_tables hm_find_def config_switches_def)

lemma command_found:
  "switch_of init_config (command_text c) = None"
  "\<exists>info. hm_find (g_cli_commands init_config) (command_text c) = Some info \<and> ci_index info = c"
  by (cases c; simp add: switch_of_def starts_with_def config_tables hm_find_def config_commands_def)+

lemma rest_found:
  assumes "item_ok (Rest s)"
  shows "switch_of init_config s = None" and "hm_find (g_cli_commands init_config) s = None"
proof -
  show "switch_of init_config s = None"
    using assms by (cases s) (auto simp: switch_of_def starts_with_def)
  show "hm_find (g_cli_commands init_config) s = None"
    using assms by (simp add: config_tables hm_find_def config_commands_def)
qed

lemma cli_loop_items:
  assumes "\<forall>i \<in> set items. item_ok i" and "commands_in items + (if found then 1 else 0) \<le> 1"
  shows "cli_loop init_config needs (concat (map render_item items)) found args cfg =
    Inr (if \<not> found \<and> commands_in items = 0 \<and> needs then cli_error ''expected a command but got none''
         else \<lparr>cr_message = [], cr_args = args @ rests_in items\<rparr>, fold apply_item items cfg)"
  using assms
proof (induction items arbitrary: found args cfg)
  case (Cons i "is")
  note sw = switch_found
  show ?case
  proof (cases i)
    case (Cmd c)
    obtain info where "hm_find (g_cli_commands init_config) (command_text c) = Some info" "ci_index info = c"
      using command_found(2) by blast
    then show ?thesis using Cons Cmd command_found(1) by (cases found) simp_all
  next
    case (Flag f short)
    then show ?thesis using Cons sw [of "BoolRef f" short] by auto
  next
    case (Level v short)
    then show ?thesis using Cons sw [of OptLevelRef short] by auto
  next
    case (Out v short)
    then show ?thesis using Cons sw [of OutRef short] by auto
  next
    case (Rest s)
    then show ?thesis using Cons rest_found [of s] by simp
  qed
qed simp

text \<open>C35: Reading a command line gives back what was written. Take any sequence of commands (one at
  most), switches in their long or short form, switches with a value, and other arguments; the
  arguments written for it are read without an error, the configuration is changed as the
  sequence says, in its order, and the other arguments are returned in theirs. Only a command that
  is missing where one is needed is reported.\<close>

theorem command_line_read_back:
  assumes "\<forall>i \<in> set items. item_ok i" and "commands_in items \<le> 1"
  shows "parse_cli_args init_config needs (program # concat (map render_item items)) cfg =
    Inr (if needs \<and> commands_in items = 0 then cli_error ''expected a command but got none''
         else \<lparr>cr_message = [], cr_args = rests_in items\<rparr>, fold apply_item items cfg)"
  using cli_loop_items [of items False needs "[]" cfg] assms by (simp add: parse_cli_args_def)

theorem command_line_read_back_witness:
  "\<exists>cfg. parse_cli_args init_config True [''parsc'', ''run'', ''-o'', ''-x'', ''a.pars'', ''--optimize'', ''2''] zero_config =
     Inr (\<lparr>cr_message = [], cr_args = [''a.pars'']\<rparr>, cfg) \<and> cf_out cfg = ''-x'' \<and> cf_opt_level cfg = 2 \<and> cf_command cfg = Run"
proof -
  have two: "atoi ''2'' = Inr 2"
    by (simp add: atoi_def atoi_value_def digits_value_def is_space_def is_decimal_def)
  show ?thesis
    using command_line_read_back [of "[Cmd Run, Out ''-x'' True, Rest ''a.pars'', Level ''2'' False]" True "''parsc''" zero_config] two
    by simp
qed

text \<open>A switch that lacks its value makes a \<open>string_view\<close> of the null pointer behind \<open>argv\<close>, and
  \<open>run\<close> compiles whatever \<open>--do-not-compile\<close> says.\<close>

lemma switch_without_value:
  "parse_cli_args init_config True [''parsc'', ''build'', ''a.pars'', ''-o''] cfg = Inl (Undefined ''null string'')"
  by (simp add: parse_cli_args_def switch_of_def starts_with_def config_tables hm_find_def config_commands_def
      config_switches_def)

lemma run_always_compiles: "cf_command c = Run \<Longrightarrow> should_compile c"
  by (simp add: should_compile_def)

end
