(* ===== verification/Symbols.thy ===== *)
theory Symbols
  imports Arena Token Hash_Map
begin

section \<open>Symbols and their attributes (\<open>symbol.cpp\<close>, \<open>symbol.hpp\<close>)\<close>

text \<open>
  A declared name carries the attributes written in front of it. They are kept in one global
  table; the symbol holds the place of its first attribute, a \<open>u32\<close> to which the size of the table is
  narrowed, and their number, a \<open>u8\<close>. A symbol without attributes has the place \<open>NO_ATTRIBUTES\<close>.
\<close>

abbreviation UINT32_MAX :: nat where "UINT32_MAX \<equiv> 4294967295"

definition NO_ATTRIBUTES :: "32 word" where "NO_ATTRIBUTES = - 1"

record symbol =
  sy_name :: string
  attribute_id :: "32 word"
  attribute_count :: "8 word"

text \<open>A symbol nobody has set: the count is never read then.\<close>

definition empty_symbol :: symbol where
  "empty_symbol = \<lparr>sy_name = [], attribute_id = NO_ATTRIBUTES, attribute_count = 0\<rparr>"

definition named_symbol :: "string \<Rightarrow> symbol" where
  "named_symbol name = empty_symbol\<lparr>sy_name := name\<rparr>"

definition set_attributes :: "TokenType list \<Rightarrow> TokenType list \<Rightarrow> 32 word \<times> TokenType list" where
  "set_attributes attributes table = (of_nat (length table), table @ attributes)"

definition get_attributes :: "TokenType list \<Rightarrow> symbol \<Rightarrow> TokenType list" where
  "get_attributes table symbol =
     (if attribute_id symbol = NO_ATTRIBUTES then []
      else take (unat (attribute_count symbol)) (drop (unat (attribute_id symbol)) table))"

definition has_keyword_attribute :: "TokenType list \<Rightarrow> symbol \<Rightarrow> TokenType \<Rightarrow> bool" where
  "has_keyword_attribute table symbol type = list_ex (\<lambda>t. t = type) (get_attributes table symbol)"

text \<open>What \<open>AST::get_symbol\<close> does with the attributes collected in front of a name: the pending
  ones, then those of the module.\<close>

definition attach_attributes ::
    "TokenType list \<Rightarrow> TokenType list \<Rightarrow> string \<Rightarrow> TokenType list \<Rightarrow> symbol \<times> TokenType list" where
  "attach_attributes pending module_attributes name table =
     (if pending \<noteq> [] \<or> module_attributes \<noteq> []
      then let (n, table1) = set_attributes pending table;
               table2 = snd (set_attributes module_attributes table1)
           in (\<lparr>sy_name = name, attribute_id = n,
                attribute_count = of_nat (length pending + length module_attributes)\<rparr>, table2)
      else (named_symbol name, table))"

subsection \<open>The table is an append-only buffer\<close>

definition add_attributes :: "TokenType list \<Rightarrow> TokenType list \<Rightarrow> TokenType list" where
  "add_attributes table attributes = snd (set_attributes attributes table)"

interpretation attribute_table:
  append_buffer add_attributes length
    "\<lambda>table m. drop m table" "\<lambda>table m n. take n (drop m table)"
  by unfold_locales (auto simp: set_attributes_def add_attributes_def)

lemma place_of_attributes:
  assumes "n < UINT32_MAX"
  shows "unat (of_nat n :: 32 word) = n" and "(of_nat n :: 32 word) \<noteq> NO_ATTRIBUTES"
proof -
  show u: "unat (of_nat n :: 32 word) = n" using assms by (simp add: unat_of_nat)
  have "unat NO_ATTRIBUTES = UINT32_MAX"
    by (simp add: NO_ATTRIBUTES_def unsigned_minus_1_eq_mask mask_eq_exp_minus_1)
  then show "(of_nat n :: 32 word) \<noteq> NO_ATTRIBUTES" using u assms by auto
qed

text \<open>C25: The attributes of a symbol are the pending ones followed by the module's, and they stay so
  whatever symbols are declared later, as long as there are fewer than 256 of them, as the count is
  kept in a byte, and the table had fewer than \<open>2 ^ 32 - 1\<close> entries when they were recorded, as their
  place is kept in 32 bits of which the largest number means that there are none.\<close>

theorem attributes_of_symbol:
  assumes "attach_attributes pending mod_attrs name table = (symbol, table')"
    and "length pending + length mod_attrs < 256" and "length table < UINT32_MAX"
  shows "get_attributes (foldl add_attributes table' later) symbol =
      pending @ mod_attrs \<and> sy_name symbol = name"
proof (cases "pending = [] \<and> mod_attrs = []")
  case True
  then have "symbol = named_symbol name" using assms(1) by (simp add: attach_attributes_def)
  then show ?thesis using True
    by (simp add: get_attributes_def named_symbol_def empty_symbol_def)
next
  case False
  then have s: "attribute_id symbol = of_nat (length table)" "sy_name symbol = name"
    "attribute_count symbol = of_nat (length pending + length mod_attrs)"
    "table' = (table @ pending) @ mod_attrs"
    using assms(1) by (auto simp: attach_attributes_def set_attributes_def Let_def)
  then have n: "unat (attribute_count symbol) = length pending + length mod_attrs"
    using assms(2) by (simp add: unat_of_nat del: of_nat_add)
  have w: "foldl add_attributes t ass = attribute_table.write_all t ass" for t ass
    by (induction ass arbitrary: t) auto
  have "take (length table' - length table) (drop (length table) (attribute_table.write_all table' later)) =
      concat [pending, mod_attrs]"
    by (rule attribute_table.slice_persistent [OF refl])
      (simp add: s(4) add_attributes_def set_attributes_def)
  then show ?thesis using s n place_of_attributes [OF assms(3)] by (simp add: get_attributes_def w add.commute)
qed

theorem attributes_of_symbol_witness:
  "let (symbol, table) = attach_attributes [TkExtern] [TkPrivate] ''f'' [TkStatic]
   in get_attributes (add_attributes table [TkVolatile]) symbol = [TkExtern, TkPrivate]"
proof -
  obtain symbol table where s: "attach_attributes [TkExtern] [TkPrivate] ''f'' [TkStatic] = (symbol, table)"
    by fastforce
  from attributes_of_symbol [OF this, of "[[TkVolatile]]"] show ?thesis
    by (simp add: s)
qed

end
