(* ===== verification/Nodes.thy ===== *)
theory Nodes
  imports Symbols
begin

section \<open>The nodes of the tree (\<open>node.hpp\<close>, \<open>expr.hpp\<close>, \<open>stmt.hpp\<close>, \<open>type.hpp\<close>)\<close>

text \<open>
  Nodes are allocated one after the other in blocks that live as long as the compiler and are
  linked by plain pointers; the analyzer changes them in place. So the tree is a store: the
  list of the nodes allocated so far, a pointer being the index of a node, the null pointer,
  or the address of one of the type objects that exist once (\<open>VOID_TYPE\<close>, \<open>I32_TYPE\<close> and so
  on).

  Every class derived from \<open>Expr\<close>, \<open>Stmt\<close> or \<open>Type\<close> is a constructor of the body of such a
  node; the fields of the base class are the fields of the record around the body. A fresh
  node comes from pages the system has zeroed, so members the constructor leaves out are zero.
\<close>

datatype static_type =
    VOID_TYPE | I8_TYPE | U8_TYPE | I16_TYPE | U16_TYPE | I32_TYPE | U32_TYPE | I64_TYPE | U64_TYPE
  | F32_TYPE | F64_TYPE | BOOL_TYPE | CHAR_TYPE | UCHAR_TYPE | VOID_POINTER_TYPE | STR_TYPE
  | RANGE_TYPE | PACKED_TYPE

datatype ptr = Null | At nat | Static static_type

text \<open>\<open>type_meta.hpp\<close>: bit \<open>i\<close> of the set is the mutability of level \<open>i\<close> of the type.\<close>

record type_meta =
  mut_set :: "32 word"
  meta_ptr :: ptr

definition empty_meta :: type_meta where
  "empty_meta = \<lparr>mut_set = 0, meta_ptr = Null\<rparr>"

definition meta_of :: "ptr \<Rightarrow> type_meta" where
  "meta_of p = \<lparr>mut_set = 0, meta_ptr = p\<rparr>"

text \<open>\<open>bitset<32>::set\<close> throws for a position outside the set.\<close>

definition set_mut :: "nat \<Rightarrow> type_meta \<Rightarrow> exn + type_meta" where
  "set_mut position m =
     (if position < 32 then Inr (m\<lparr>mut_set := set_bit position (mut_set m)\<rparr>)
      else Inl (OutOfRange ''bitset::set''))"

subsection \<open>Expressions\<close>

text \<open>The variant of a literal. A decimal keeps its digits: the value the code stores is the
  nearest \<open>float\<close>, which nothing in the frontend but the evaluator looks at.\<close>

datatype literal_value =
    LInt "32 word" | LFloat string | LStr string | LBool bool | LChar byte | LNull

record initializer_element =
  ie_expr :: ptr
  ie_index :: nat

definition initializer :: "ptr \<Rightarrow> initializer_element" where
  "initializer e = \<lparr>ie_expr = e, ie_index = UINT32_MAX\<rparr>"

datatype expr_body =
    LiteralExpr literal_value
  | BinaryExpr TokenType (be_left: ptr) (be_right: ptr)
  | UnaryExpr byte ptr
  | SymbolExpr ptr string
  | CallExpr ptr "ptr list"
  | GroupExpr ptr
  | TypeExpr
  | SizeofExpr ptr
  | NameofExpr ptr
  | MemberAccessExpr ptr ptr bool bool
  | TypePropExpr string
  | CastExpr type_meta ptr ptr
  | NamedExpr string ptr
  | AbsExpr ptr
  | PtrOpExpr TokenType ptr
  | AnonInitExpr "initializer_element list"
  | ArrayLiteralExpr "initializer_element list" ptr
  | IndexOpExpr ptr ptr
  | StructLiteral "initializer_element list" string
  | EnumLiteralExpr nat
  | SliceExpr ptr ptr ptr
  | KeywordExpr
  | PackedExpr

definition EF_Immutable :: "8 word" where "EF_Immutable = 1"
definition EF_AlwaysPtr :: "8 word" where "EF_AlwaysPtr = 2"
definition EF_ResolvedInternal :: "8 word" where "EF_ResolvedInternal = 4"
definition EF_AlwaysLoad :: "8 word" where "EF_AlwaysLoad = 8"

record expr_node =
  ex_token :: token
  ex_flags :: "8 word"
  ex_mut_set :: "32 word"
  ex_type :: ptr
  ex_body :: expr_body

subsection \<open>Statements\<close>

definition VF_Static :: "32 word" where "VF_Static = 2"
definition VF_Volatile :: "32 word" where "VF_Volatile = 4"
definition VF_Global :: "32 word" where "VF_Global = 8"
definition VF_Const :: "32 word" where "VF_Const = 16"
definition VF_Mutated :: "32 word" where "VF_Mutated = 32"
definition VF_Used :: "32 word" where "VF_Used = 64"
definition VF_Var :: "32 word" where "VF_Var = 128"
definition VF_NoDiagnostics :: "32 word" where "VF_NoDiagnostics = 256"

record var_decl =
  vd_symbol :: symbol
  vd_type :: type_meta
  vd_initializer :: ptr
  vd_flags :: "32 word"

definition empty_var_decl :: var_decl where
  "empty_var_decl = \<lparr>vd_symbol = empty_symbol, vd_type = empty_meta, vd_initializer = Null, vd_flags = 0\<rparr>"

text \<open>The path of an import is kept as its components, the module it found as the number of its file.\<close>

record import_stmt =
  im_module :: "nat option"
  im_path :: "string list"
  im_alias :: string
  im_selective :: "(string \<times> string) list"

definition empty_import :: import_stmt where
  "empty_import = \<lparr>im_module = None, im_path = [], im_alias = [], im_selective = []\<rparr>"

datatype stmt_body =
    VarDeclStmt var_decl
  | AssignmentStmt ptr ptr TokenType
  | BlockStmt "ptr list"
  | ImportStmt import_stmt
  | ReturnStmt ptr
  | ConstantReturnStmt ptr
  | BreakStmt
  | ContinueStmt
  | IfStmt ptr ptr ptr
  | CompIfStmt ptr
  | WhileStmt ptr ptr
  | ForStmt "ptr list" ptr ptr
  | ImplStmt symbol ptr "ptr list"

record stmt_node =
  st_token :: token
  st_body :: stmt_body

text \<open>\<open>is_terminator\<close> of the statement classes.\<close>

definition is_terminator :: "stmt_body \<Rightarrow> bool" where
  "is_terminator b =
     (case b of ReturnStmt _ \<Rightarrow> True | ConstantReturnStmt _ \<Rightarrow> True | BreakStmt \<Rightarrow> True | ContinueStmt \<Rightarrow> True | _ \<Rightarrow> False)"

subsection \<open>Types\<close>

definition FF_Extern :: "8 word" where "FF_Extern = 1"
definition FF_Inline :: "8 word" where "FF_Inline = 2"
definition FF_Private :: "8 word" where "FF_Private = 4"
definition FF_ArrowFn :: "8 word" where "FF_ArrowFn = 8"
definition FF_Static :: "8 word" where "FF_Static = 16"
definition FF_Resolved :: "8 word" where "FF_Resolved = 32"

record fn_signature =
  fs_parameters :: "ptr list"
  fs_callable_arity :: nat
  fs_is_variadic :: bool
  fs_return_type :: type_meta

definition empty_signature :: fn_signature where
  "empty_signature = \<lparr>fs_parameters = [], fs_callable_arity = 0, fs_is_variadic = False,
     fs_return_type = empty_meta\<rparr>"

record fn_type =
  fn_symbol :: symbol
  fn_mangled_name :: string
  fn_sig :: fn_signature
  fn_body :: ptr
  fn_flags :: "8 word"
  fn_collection :: ptr

definition empty_fn :: fn_type where
  "empty_fn = \<lparr>fn_symbol = empty_symbol, fn_mangled_name = [], fn_sig = empty_signature,
     fn_body = Null, fn_flags = 0, fn_collection = Null\<rparr>"

record enum_variant =
  ev_symbol :: symbol
  ev_value :: "64 word"

record enum_type =
  en_symbol :: symbol
  en_default_value :: "64 word"
  en_variants :: "(string, enum_variant) hash_map"
  en_impl :: ptr

definition empty_enum :: enum_type where
  "empty_enum = \<lparr>en_symbol = empty_symbol, en_default_value = - 1, en_variants = [], en_impl = Null\<rparr>"

record struct_type =
  stt_symbol :: symbol
  stt_fields :: "(symbol \<times> type_meta) list"
  stt_flags :: "32 word"
  stt_impl :: ptr

definition empty_struct :: struct_type where
  "empty_struct = \<lparr>stt_symbol = empty_symbol, stt_fields = [], stt_flags = 0, stt_impl = Null\<rparr>"

record alias_type =
  al_symbol :: symbol
  al_type :: type_meta
  al_is_distinct :: bool
  al_impl :: ptr

definition empty_alias :: alias_type where
  "empty_alias = \<lparr>al_symbol = empty_symbol, al_type = empty_meta, al_is_distinct = False, al_impl = Null\<rparr>"

record array_type =
  ar_element_type :: ptr
  ar_name :: string
  ar_members :: "string list"
  ar_size_expr :: ptr
  ar_size :: nat

definition UNSIZED_ARRAY :: nat where "UNSIZED_ARRAY = UINT32_MAX"

definition empty_array :: array_type where
  "empty_array = \<lparr>ar_element_type = Null, ar_name = [], ar_members = [], ar_size_expr = Null, ar_size = 0\<rparr>"

text \<open>Pointers and slices keep the inner type and the name written to the name buffer.\<close>

datatype type_body =
    UnresolvedSymbolType string
  | AliasType alias_type
  | PointerType ptr string
  | ArrayType array_type
  | SliceType ptr string
  | StructType struct_type
  | FnType fn_type
  | EnumType enum_type

record type_node =
  ty_token :: token
  ty_body :: type_body

datatype node =
    NExpr expr_node
  | NStmt stmt_node
  | NType type_node
  | NFnCollection token "ptr list"

fun node_token :: "node \<Rightarrow> token" where
  "node_token (NExpr e) = ex_token e"
| "node_token (NStmt s) = st_token s"
| "node_token (NType t) = ty_token t"
| "node_token (NFnCollection k fns) = k"

fun set_node_token :: "token \<Rightarrow> node \<Rightarrow> node" where
  "set_node_token k (NExpr e) = NExpr (e\<lparr>ex_token := k\<rparr>)"
| "set_node_token k (NStmt s) = NStmt (s\<lparr>st_token := k\<rparr>)"
| "set_node_token k (NType t) = NType (t\<lparr>ty_token := k\<rparr>)"
| "set_node_token k (NFnCollection k' fns) = NFnCollection k fns"

definition new_expr :: "expr_body \<Rightarrow> node" where
  "new_expr b = NExpr \<lparr>ex_token = empty_token, ex_flags = 0, ex_mut_set = 0, ex_type = Null, ex_body = b\<rparr>"

definition new_stmt :: "stmt_body \<Rightarrow> node" where
  "new_stmt b = NStmt \<lparr>st_token = empty_token, st_body = b\<rparr>"

definition new_type :: "type_body \<Rightarrow> node" where
  "new_type b = NType \<lparr>ty_token = empty_token, ty_body = b\<rparr>"

subsection \<open>The store\<close>

record store =
  nodes :: "node list"
  g_attributes :: "TokenType list"

definition alloc :: "node \<Rightarrow> 'a store_scheme \<Rightarrow> ptr \<times> 'a store_scheme" where
  "alloc n s = (At (length (nodes s)), s\<lparr>nodes := nodes s @ [n]\<rparr>)"

definition peek_node :: "'a store_scheme \<Rightarrow> ptr \<Rightarrow> node option" where
  "peek_node s p = (case p of At a \<Rightarrow> if a < length (nodes s) then Some (nodes s ! a) else None | _ \<Rightarrow> None)"

definition poke_node :: "ptr \<Rightarrow> (node \<Rightarrow> node) \<Rightarrow> 'a store_scheme \<Rightarrow> 'a store_scheme" where
  "poke_node p f s =
     (case p of
        At a \<Rightarrow> if a < length (nodes s) then s\<lparr>nodes := (nodes s)[a := f (nodes s ! a)]\<rparr> else s
      | _ \<Rightarrow> s)"

text \<open>The casts \<open>to_expr\<close>, \<open>to_stmt\<close>, \<open>to_type\<close> and \<open>dyn_cast\<close>: the node if it is of the class.\<close>

definition as_expr :: "'a store_scheme \<Rightarrow> ptr \<Rightarrow> expr_node option" where
  "as_expr s p = (case peek_node s p of Some (NExpr e) \<Rightarrow> Some e | _ \<Rightarrow> None)"

definition as_stmt :: "'a store_scheme \<Rightarrow> ptr \<Rightarrow> stmt_node option" where
  "as_stmt s p = (case peek_node s p of Some (NStmt e) \<Rightarrow> Some e | _ \<Rightarrow> None)"

definition as_type :: "'a store_scheme \<Rightarrow> ptr \<Rightarrow> type_node option" where
  "as_type s p = (case peek_node s p of Some (NType e) \<Rightarrow> Some e | _ \<Rightarrow> None)"

definition as_fn_collection :: "'a store_scheme \<Rightarrow> ptr \<Rightarrow> ptr list option" where
  "as_fn_collection s p = (case peek_node s p of Some (NFnCollection _ fns) \<Rightarrow> Some fns | _ \<Rightarrow> None)"

definition as_fn :: "'a store_scheme \<Rightarrow> ptr \<Rightarrow> fn_type option" where
  "as_fn s p = (case as_type s p of
     Some t \<Rightarrow> (case ty_body t of FnType f \<Rightarrow> Some f | _ \<Rightarrow> None) | None \<Rightarrow> None)"

definition as_var :: "'a store_scheme \<Rightarrow> ptr \<Rightarrow> var_decl option" where
  "as_var s p = (case as_stmt s p of
     Some t \<Rightarrow> (case st_body t of VarDeclStmt v \<Rightarrow> Some v | _ \<Rightarrow> None) | None \<Rightarrow> None)"

text \<open>Assignments to the members of a node.\<close>

definition set_expr_body :: "expr_body \<Rightarrow> node \<Rightarrow> node" where
  "set_expr_body b n = (case n of NExpr e \<Rightarrow> NExpr (e\<lparr>ex_body := b\<rparr>) | _ \<Rightarrow> n)"

definition set_stmt_body :: "stmt_body \<Rightarrow> node \<Rightarrow> node" where
  "set_stmt_body b n = (case n of NStmt e \<Rightarrow> NStmt (e\<lparr>st_body := b\<rparr>) | _ \<Rightarrow> n)"

definition set_type_body :: "type_body \<Rightarrow> node \<Rightarrow> node" where
  "set_type_body b n = (case n of NType e \<Rightarrow> NType (e\<lparr>ty_body := b\<rparr>) | _ \<Rightarrow> n)"

definition upd_fn :: "(fn_type \<Rightarrow> fn_type) \<Rightarrow> node \<Rightarrow> node" where
  "upd_fn f n = (case n of
     NType e \<Rightarrow> (case ty_body e of FnType t \<Rightarrow> NType (e\<lparr>ty_body := FnType (f t)\<rparr>) | _ \<Rightarrow> n) | _ \<Rightarrow> n)"

definition add_function :: "ptr \<Rightarrow> node \<Rightarrow> node" where
  "add_function p n = (case n of NFnCollection k fns \<Rightarrow> NFnCollection k (fns @ [p]) | _ \<Rightarrow> n)"

subsection \<open>What the clients of the store rely on\<close>

locale node_store =
  fixes read :: "'s \<Rightarrow> 'p \<Rightarrow> 'n option"
    and allocate :: "'n \<Rightarrow> 's \<Rightarrow> 'p \<times> 's"
    and update :: "'p \<Rightarrow> ('n \<Rightarrow> 'n) \<Rightarrow> 's \<Rightarrow> 's"
  assumes fresh: "read s (fst (allocate n s)) = None"
    and read_allocated: "read (snd (allocate n s)) (fst (allocate n s)) = Some n"
    and read_old: "read s p = Some m \<Longrightarrow> read (snd (allocate n s)) p = Some m"
    and read_update: "read (update p f s) q = (if q = p then map_option f (read s q) else read s q)"
begin

text \<open>\<open>extends\<close>: every node of the old store is still there, unchanged.\<close>

definition extends :: "'s \<Rightarrow> 's \<Rightarrow> bool" where
  "extends s s' \<longleftrightarrow> (\<forall>p n. read s p = Some n \<longrightarrow> read s' p = Some n)"

lemma extends_refl: "extends s s"
  by (simp add: extends_def)

lemma extends_trans: "extends a b \<Longrightarrow> extends b c \<Longrightarrow> extends a c"
  by (simp add: extends_def)

lemma extends_allocate: "extends s (snd (allocate n s))"
  by (simp add: extends_def read_old)

text \<open>A node built after \<open>s\<close> may be changed at will: \<open>s\<close> does not see it.\<close>

lemma extends_update: "extends s s' \<Longrightarrow> read s p = None \<Longrightarrow> extends s (update p f s')"
  by (auto simp: extends_def read_update)

lemma update_allocated:
  "read (update (fst (allocate n s)) f (snd (allocate n s))) (fst (allocate n s)) = Some (f n)"
  by (simp add: read_update read_allocated)

end

lemma peek_alloc_new [simp]: "peek_node (snd (alloc n s)) (fst (alloc n s)) = Some n"
  by (simp add: peek_node_def alloc_def)

lemma peek_poke:
  "peek_node (poke_node p f s) q = (if q = p then map_option f (peek_node s q) else peek_node s q)"
  by (auto simp: peek_node_def poke_node_def split: ptr.splits)

interpretation tree_store: node_store peek_node alloc poke_node
  by unfold_locales
    (auto simp: peek_poke, auto simp: peek_node_def alloc_def nth_append split: ptr.splits if_splits)

lemma store_frames [simp, frame_simps]:
  "g_attributes (snd (alloc n s)) = g_attributes s"
  "g_attributes (poke_node p f s) = g_attributes s"
  "length (nodes (poke_node p f s)) = length (nodes s)"
  by (auto simp: alloc_def poke_node_def split: ptr.splits)

end
