(* ===== verification/Diagnostics.thy ===== *)
theory Diagnostics
  imports Files Cli Nodes
begin

unbundle bit_operations_syntax

section \<open>Reports (\<open>token.cpp\<close>, \<open>warnings.cpp\<close>, \<open>frontend_error.cpp\<close>, \<open>compile_error.cpp\<close>)\<close>

text \<open>
  Errors and warnings are shown with the line of the source they are about. \<open>report_token\<close> reads
  the file again, line by line, until the reader is behind the line of the token; that loop does
  not end for a token on a last line without a newline. A call that does not return is \<open>None\<close>.
\<close>

datatype ReportType = Warning | Error

definition report_name :: "ReportType \<Rightarrow> string" where
  "report_name t = (case t of Warning \<Rightarrow> ''Warning'' | Error \<Rightarrow> ''Error'')"

definition escape_code :: "string \<Rightarrow> string" where
  "escape_code n = CHR 0x1B # ''['' @ n @ ''m''"

definition report_color :: "ReportType \<Rightarrow> string" where
  "report_color t = (case t of Error \<Rightarrow> escape_code ''31'' | Warning \<Rightarrow> escape_code ''33'')"

partial_function (option) report_loop :: "nat \<Rightarrow> string \<Rightarrow> text_reader \<Rightarrow> string option" where
  "report_loop target line r =
     (if m_current_line r \<le> target
      then report_loop target (fst (get_line r)) (skip_insignificant False (snd (get_line r)))
      else Some line)"

definition report_line :: "nat \<Rightarrow> source_file \<Rightarrow> (nat \<Rightarrow> byte) \<Rightarrow> string option" where
  "report_line target src beyond = report_loop target [] (set_source (sf_contents src) beyond)"

definition report_format :: string where
  "report_format = ''{}[{}] {} ({}:{}) '' @ squote # ''{}'' @ squote # [newline, CHR 0x09] @ ''{}'' @
     [newline, CHR 0x09] @ ''^ Reason: {}{}''"

text \<open>The path of the file is read last, when the line has been found.\<close>

definition report_token :: "files \<Rightarrow> (nat \<Rightarrow> byte) \<Rightarrow> token \<Rightarrow> string \<Rightarrow> ReportType \<Rightarrow> (exn + string) option" where
  "report_token st beyond tok message type =
     (case get_source (loc_file_id (tk_location tok)) st of
        None \<Rightarrow> Some (Inl (Undefined ''file out of range''))
      | Some src \<Rightarrow>
          (case report_line (loc_line (tk_location tok)) src beyond of
             None \<Rightarrow> None
           | Some line \<Rightarrow>
               Some (case sf_path src of
                  None \<Rightarrow> Inl (Undefined ''path of a file that is gone'')
                | Some path \<Rightarrow>
                    (case fmt_format report_format
                       [report_color type, report_name type, path, string_of_nat (loc_line (tk_location tok)),
                        string_of_nat (unat (loc_column (tk_location tok))), tk_lexeme tok, line, message, escape_code ''0'']
                     of Some text \<Rightarrow> Inr text | None \<Rightarrow> Inl (Undefined ''format'')))))"

text \<open>The constructor of a \<open>FrontendError\<close> makes the report, before the exception is thrown; \<open>what()\<close>
  only shows it. So \<open>throw FrontendError(tok, message)\<close> is a call of \<open>frontend_error\<close>, which may not
  return. The parts of the model that throw record the token and the message (\<open>throw_frontend\<close>); \<open>throwing\<close>
  runs the constructor for them. Nothing catches an exception before \<open>main\<close>, and the report changes no
  state, so it makes no difference to what was done before.\<close>

definition frontend_error :: "files \<Rightarrow> (nat \<Rightarrow> byte) \<Rightarrow> token \<Rightarrow> string \<Rightarrow> (exn + string) option" where
  "frontend_error st beyond tok message = report_token st beyond tok message Error"

definition throwing :: "files \<Rightarrow> (nat \<Rightarrow> byte) \<Rightarrow> exn + 'a \<Rightarrow> (exn + 'a) option" where
  "throwing st beyond r =
     (case r of
        Inl (Frontend tok message) \<Rightarrow>
          (case frontend_error st beyond tok message of
             None \<Rightarrow> None
           | Some (Inl e) \<Rightarrow> Some (Inl e)
           | Some (Inr report) \<Rightarrow> Some r)
      | _ \<Rightarrow> Some r)"

text \<open>\<open>what()\<close> of a \<open>CompileError\<close>: the report, or without a node its message only.\<close>

definition compile_what :: "files \<Rightarrow> (nat \<Rightarrow> byte) \<Rightarrow> token option \<Rightarrow> string \<Rightarrow> (exn + string) option" where
  "compile_what st beyond node message =
     (case node of None \<Rightarrow> Some (Inr message) | Some tok \<Rightarrow> report_token st beyond tok message Error)"

subsection \<open>Warnings\<close>

type_synonym warnings = "string list"

definition warn :: "config \<Rightarrow> files \<Rightarrow> (nat \<Rightarrow> byte) \<Rightarrow> string \<Rightarrow> token option \<Rightarrow> warnings \<Rightarrow> (exn + warnings) option" where
  "warn cfg st beyond message tok g_warnings =
     (if cf_do_not_warn cfg then Some (Inr g_warnings)
      else map_option (\<lambda>r. case r of Inl e \<Rightarrow> Inl e | Inr text \<Rightarrow> Inr (g_warnings @ [text]))
        (case tok of
           Some t \<Rightarrow> report_token st beyond t message Warning
         | None \<Rightarrow> Some (case fmt_format ''[Warning] {}'' [message] of Some text \<Rightarrow> Inr text | None \<Rightarrow> Inl (Undefined ''format''))))"

text \<open>The calls of \<open>warn\<close> the emission makes, in order; a report that does not return stops it there.\<close>

fun warn_all ::
    "config \<Rightarrow> files \<Rightarrow> (nat \<Rightarrow> byte) \<Rightarrow> (string \<times> token) list \<Rightarrow> warnings \<Rightarrow> (exn + warnings) option" where
  "warn_all cfg st beyond [] g_warnings = Some (Inr g_warnings)"
| "warn_all cfg st beyond ((message, tok) # calls) g_warnings =
     (case warn cfg st beyond message (Some tok) g_warnings of
        None \<Rightarrow> None
      | Some (Inl e) \<Rightarrow> Some (Inl e)
      | Some (Inr ws) \<Rightarrow> warn_all cfg st beyond calls ws)"

text \<open>The lines printed, and whether the program exits then.\<close>

definition display_warnings :: "config \<Rightarrow> warnings \<Rightarrow> string list \<times> bool" where
  "display_warnings cfg g_warnings =
     (if g_warnings \<noteq> [] \<and> cf_fail_on_warning cfg
      then (g_warnings @ [''compilation failed due to fail on warning switch'' @ [newline]], True)
      else (g_warnings, False))"

text \<open>\<open>VarDeclStmt::handle_warnings\<close>: the warnings of a variable, in order.\<close>

definition handle_warnings :: "var_decl \<Rightarrow> string option list" where
  "handle_warnings d =
     (if vd_flags d AND VF_NoDiagnostics \<noteq> 0 then []
      else
        (if vd_flags d AND VF_Used = 0
         then [fmt_format (''variable '' @ squote # ''{}'' @ squote # '' declared but not used'') [sy_name (vd_symbol d)]] else []) @
        (if vd_flags d AND VF_Var \<noteq> 0 \<and> vd_flags d AND VF_Mutated = 0
         then [fmt_format (squote # ''{}'' @ squote # '' is declared as var but does not mutate. replace with let to improve readability.'')
                 [sy_name (vd_symbol d)]] else []))"

subsection \<open>The line of a token\<close>

lemma line_total: "reader_inv r \<Longrightarrow> m_current_line r + count_list (rest r) newline = line_of (m_source r)"
proof -
  assume "reader_inv r"
  then have "m_current_line r = line_of (take (m_offset r) (m_source r))" by (simp add: reader_inv_def)
  moreover have "count_list (m_source r) newline =
      count_list (take (m_offset r) (m_source r)) newline + count_list (rest r) newline"
    unfolding rest_def by (metis append_take_drop_id count_list_append)
  ultimately show ?thesis by (simp add: line_of_def)
qed

text \<open>One round of the loop in terms of the unread input.\<close>

definition next_line :: "text_reader \<Rightarrow> text_reader" where
  "next_line r = skip_insignificant False (snd (get_line r))"

lemma get_line_seek:
  "snd (get_line r) = seek (length (takeWhile (\<lambda>c. c \<noteq> newline) (rest r))) r"
  using advance_while_peek [of "\<lambda>c. c \<noteq> newline" r] by (simp add: get_line_def Let_def)

lemma round:
  assumes "reader_inv r" and "m_current r = m_offset r"
  shows "fst (get_line r) = takeWhile (\<lambda>c. c \<noteq> newline) (rest r)"
    and "rest (next_line r) = dropWhile is_insignificant (dropWhile (\<lambda>c. c \<noteq> newline) (rest r))"
    and "reader_inv (next_line r)" and "m_current (next_line r) = m_offset (next_line r)"
    and "m_source (next_line r) = m_source r"
proof -
  let ?n = "length (takeWhile (\<lambda>c. c \<noteq> newline) (rest r))"
  have n: "?n \<le> length (rest r)" by (rule length_takeWhile_le)
  have "fst (get_line r) = take ?n (rest r)"
    using assms(2) n advance_while_peek [of "\<lambda>c. c \<noteq> newline" r]
    by (simp add: get_line_def Let_def seek_offset) (simp add: rest_def)
  then show "fst (get_line r) = takeWhile (\<lambda>c. c \<noteq> newline) (rest r)"
    by (simp add: takeWhile_eq_take [symmetric])
  show "rest (next_line r) = dropWhile is_insignificant (dropWhile (\<lambda>c. c \<noteq> newline) (rest r))"
    by (simp add: next_line_def rest_skip_insignificant get_line_seek rest_seek dropWhile_eq_drop [symmetric])
  show "reader_inv (next_line r)" using assms(1)
    by (simp add: next_line_def get_line_seek inv_intros)
  show "m_current (next_line r) = m_offset (next_line r)"
    by (simp add: next_line_def skip_insignificant_def rd_sync_def)
  show "m_source (next_line r) = m_source r" by (simp add: next_line_def get_line_seek)
qed

lemma report_loop_step:
  "report_loop target old r =
     (if m_current_line r \<le> target then report_loop target (fst (get_line r)) (next_line r) else Some old)"
  by (simp add: report_loop.simps [of target old r] next_line_def)

text \<open>The reader of the loop: at the start of the file or of a lexeme.\<close>

definition at_mark :: "text_reader \<Rightarrow> bool" where
  "at_mark r \<longleftrightarrow> reader_inv r \<and> m_current r = m_offset r"

lemma at_mark_next: "at_mark r \<Longrightarrow> at_mark (next_line r)"
  using round [of r] by (simp add: at_mark_def)

lemma report_loop_returns:
  assumes "report_loop target old r = Some y"
  shows "at_mark r \<longrightarrow> target < line_of (m_source r)"
proof (rule report_loop.raw_induct [OF _ assms, where P = "\<lambda>target old r y. at_mark r \<longrightarrow> target < line_of (m_source r)"])
  fix loop target old r y
  assume IH: "\<And>target old r y. loop target old r = Some y \<Longrightarrow> at_mark r \<longrightarrow> target < line_of (m_source r)"
    and run: "(if m_current_line r \<le> target
      then loop target (fst (get_line r)) (skip_insignificant False (snd (get_line r))) else Some old) = Some y"
  have "m_current_line r \<le> line_of (m_source r)" if "at_mark r"
    using line_total [of r] that by (simp add: at_mark_def)
  then show "at_mark r \<longrightarrow> target < line_of (m_source r)"
    using IH run at_mark_next [of r] round(5) [of r]
    by (force simp: next_line_def [symmetric] at_mark_def split: if_splits)
qed

lemma report_loop_stuck:
  "line_of (m_source r) \<le> target \<Longrightarrow> at_mark r \<Longrightarrow> report_loop target old r = None"
  using report_loop_returns [of target old r] by fastforce

lemma next_line_shorter:
  assumes "at_mark r" and "m_current_line r < line_of (m_source r)"
  shows "length (rest (next_line r)) < length (rest r)"
proof -
  have "newline \<in> set (rest r)"
    using line_total [of r] assms by (cases "newline \<in> set (rest r)") (auto simp: at_mark_def count_list_0_iff)
  then obtain p1 p2 where "rest r = p1 @ newline # p2" "newline \<notin> set p1" by (metis split_list_first)
  moreover from this have "rest (next_line r) = dropWhile is_insignificant p2"
    using round(2) [of r] assms(1) by (simp add: at_mark_def dropWhile_append is_insignificant_def)
  ultimately show ?thesis using length_dropWhile_le [of is_insignificant p2] by simp
qed

lemma report_loop_ends:
  "at_mark r \<Longrightarrow> target < line_of (m_source r) \<Longrightarrow> \<exists>y. report_loop target old r = Some y"
proof (induction "length (rest r)" arbitrary: r old rule: less_induct)
  case less
  show ?case
  proof (cases "m_current_line r \<le> target")
    case True
    have "at_mark (next_line r)" "m_source (next_line r) = m_source r"
      using less.prems(1) at_mark_next round(5) [of r] by (auto simp: at_mark_def)
    then have "\<exists>y. report_loop target (fst (get_line r)) (next_line r) = Some y"
      using less next_line_shorter [of r] True by simp
    then show ?thesis using True by (simp add: report_loop_step [of target old r])
  qed (simp add: report_loop_step [of target old r])
qed

lemma count_dropWhile: "count_list (dropWhile P xs) x \<le> count_list xs x"
  by (induction xs) auto

lemma report_loop_behind:
  "target < m_current_line r \<Longrightarrow> report_loop target old r = Some old"
  by (simp add: report_loop_step)

lemma report_loop_line:
  assumes "rest r = before @ line @ newline # behind" and "m_current_line r + count_list before newline = target"
    and "before = [] \<or> last before = newline" and "newline \<notin> set line" and "\<exists>c \<in> set line. \<not> is_insignificant c"
    and "at_mark r"
  shows "report_loop target old r = Some (if before = [] then line else dropWhile is_insignificant line)"
  using assms
proof (induction before arbitrary: r line old rule: length_induct)
  case (1 before)
  note rd = round [of r]
  have inv: "reader_inv r" "m_current r = m_offset r" using "1.prems"(6) by (auto simp: at_mark_def)
  have goes: "m_current_line r \<le> target" using "1.prems"(2) by simp
  have tot: "m_current_line (next_line r) + count_list (rest (next_line r)) newline =
      m_current_line r + count_list (rest r) newline"
    using line_total inv(1) rd(3,5) inv by metis
  have nl: "is_insignificant newline" by (simp add: is_insignificant_def)
  show ?case
  proof (cases "before = []")
    case True
    have w: "takeWhile (\<lambda>c. c \<noteq> newline) (rest r) = line" "dropWhile (\<lambda>c. c \<noteq> newline) (rest r) = newline # behind"
      using "1.prems"(1,4) True by (auto simp: takeWhile_append dropWhile_append)
    have "count_list (rest (next_line r)) newline \<le> count_list behind newline"
      using rd(2) inv w(2) nl count_dropWhile by simp
    moreover have "count_list line newline = 0" using "1.prems"(4) by (simp add: count_list_0_iff)
    ultimately have "target < m_current_line (next_line r)"
      using tot "1.prems"(1,2) True by simp
    then show ?thesis
      using goes rd(1) inv w(1) True by (simp add: report_loop_step [of target old r] report_loop_behind)
  next
    case False
    then have "newline \<in> set before" using "1.prems"(3) by (metis last_in_set)
    then obtain p1 p2 where p: "before = p1 @ newline # p2" "newline \<notin> set p1" by (metis split_list_first)
    have "dropWhile (\<lambda>c. c \<noteq> newline) (rest r) = newline # p2 @ line @ newline # behind"
      using "1.prems"(1) p by (simp add: dropWhile_append)
    then have r2: "rest (next_line r) = dropWhile is_insignificant (p2 @ line @ newline # behind)"
      using rd(2) inv nl by simp
    have step: "report_loop target old r = report_loop target (fst (get_line r)) (next_line r)"
      using goes by (simp add: report_loop_step [of target old r])
    have next_mark: "at_mark (next_line r)" using at_mark_next "1.prems"(6) .
    obtain c where c: "c \<in> set line" "\<not> is_insignificant c" using "1.prems"(5) by blast
    show ?thesis
    proof (cases "dropWhile is_insignificant p2 = []")
      case True
      let ?l = "dropWhile is_insignificant line"
      have r3: "rest (next_line r) = [] @ ?l @ newline # behind"
        using r2 True c by (auto simp: dropWhile_append)
      have l0: "count_list line newline = 0" "count_list ?l newline = 0"
        using "1.prems"(4) set_dropWhileD [of _ is_insignificant line] by (auto simp: count_list_0_iff)
      have "m_current_line (next_line r) + count_list [] newline = target"
        using tot r3 l0 "1.prems"(1,2) by simp
      moreover have "\<exists>c \<in> set ?l. \<not> is_insignificant c"
        using c by (metis dropWhile_eq_Nil_conv hd_dropWhile list.set_sel(1))
      moreover have "newline \<notin> set ?l" using "1.prems"(4) by (meson set_dropWhileD)
      ultimately have "report_loop target (fst (get_line r)) (next_line r) = Some ?l"
        using "1.IH" [rule_format, of "[]" "next_line r" ?l "fst (get_line r)"] r3 next_mark p(1) by simp
      then show ?thesis using step False by simp
    next
      case ne: False
      let ?p = "dropWhile is_insignificant p2"
      have r3: "rest (next_line r) = ?p @ line @ newline # behind"
        using r2 ne by (auto simp: dropWhile_append)
      have "count_list before newline = count_list (rest r) newline - count_list (line @ newline # behind) newline"
        using "1.prems"(1) by simp
      then have "m_current_line (next_line r) + count_list ?p newline = target"
        using tot r3 "1.prems"(1,2) by simp
      moreover have "last ?p = newline"
      proof -
        have "p2 \<noteq> []" using ne by auto
        then have "last p2 = newline" using "1.prems"(3) p(1) by simp
        then show ?thesis using ne by (metis last_appendR takeWhile_dropWhile_id)
      qed
      moreover have "length ?p < length before" using p(1) by (simp add: length_dropWhile_le le_imp_less_Suc trans_le_add2)
      ultimately have "report_loop target (fst (get_line r)) (next_line r) = Some (dropWhile is_insignificant line)"
        using "1.IH" [rule_format, of ?p "next_line r" line "fst (get_line r)"] r3 next_mark ne "1.prems"(4,5) by auto
      then show ?thesis using step False by simp
    qed
  qed
qed

lemma set_source_mark [simp]: "at_mark (set_source src beyond)" "m_current_line (set_source src beyond) = 1"
  "m_source (set_source src beyond) = src"
  by (simp_all add: at_mark_def reader_inv_set_source) (simp_all add: set_source_def)

text \<open>So the line of a token is found exactly when a newline ends it.\<close>

lemma report_line_ends: "report_line target src beyond = None \<longleftrightarrow> line_of (sf_contents src) \<le> target"
  unfolding report_line_def
  using report_loop_ends [of "set_source (sf_contents src) beyond" target] report_loop_stuck [of "set_source (sf_contents src) beyond" target]
  by (metis not_le option.distinct(1) set_source_mark(1,3))

definition report_pieces :: "fmt_piece list" where
  "report_pieces = [Hole, Lit ''['', Hole, Lit ''] '', Hole, Lit '' ('', Hole, Lit '':'', Hole, Lit ('') '' @ [squote]),
     Hole, Lit [squote, newline, CHR 0x09], Hole, Lit ([newline, CHR 0x09] @ ''^ Reason: ''), Hole, Hole]"

lemma report_pieces: "report_format = fmt_text report_pieces" "list_all plain report_pieces"
  "length (filter (\<lambda>p. p = Hole) report_pieces) = 9"
  by (simp_all add: report_format_def report_pieces_def plain_def)

lemma report_token_ends:
  assumes "get_source (loc_file_id (tk_location tok)) st = Some src"
  shows "report_token st beyond tok message type = None \<longleftrightarrow> line_of (sf_contents src) \<le> loc_line (tk_location tok)"
  using assms report_line_ends [of "loc_line (tk_location tok)" src beyond]
  by (auto simp: report_token_def split: option.split)

lemma report_token_reports:
  assumes "get_source (loc_file_id (tk_location tok)) st = Some src" and "sf_path src \<noteq> None"
    and "loc_line (tk_location tok) < line_of (sf_contents src)"
  shows "\<exists>text. report_token st beyond tok message type = Some (Inr text)"
proof -
  obtain line where "report_line (loc_line (tk_location tok)) src beyond = Some line"
    using report_line_ends [of "loc_line (tk_location tok)" src beyond] assms(3) by fastforce
  moreover obtain path where "sf_path src = Some path" using assms(2) by blast
  moreover have "fmt_format report_format [a1, a2, a3, a4, a5, a6, a7, a8, a9] \<noteq> None" for a1 a2 a3 a4 a5 a6 a7 a8 a9
    unfolding report_pieces(1) by (rule format_returns) (simp_all add: report_pieces(2,3))
  ultimately show ?thesis using assms(1) by (auto simp: report_token_def split: option.splits)
qed

text \<open>C38: A report on a token comes to an end and is what its format means, with the line of the token in it. When the
  line the token was recorded with holds something and a newline ends it, the report shows the color and the
  kind, the path, the line and the column, the lexeme, the line of the file, without the blanks in front of
  it (but for the first line of the file), and the message. The path must be there still, and NUL bytes in these
  texts would be taken for their ends.\<close>

theorem report_shows_line:
  assumes "get_source (loc_file_id (tk_location tok)) st = Some src" and "sf_path src = Some path"
    and "sf_contents src = before @ line @ newline # behind" and "before = [] \<or> last before = newline"
    and "newline \<notin> set line" and "\<exists>c \<in> set line. \<not> is_insignificant c"
    and "loc_line (tk_location tok) = 1 + count_list before newline"
    and "NUL \<notin> set path \<union> set (tk_lexeme tok) \<union> set line \<union> set message"
  shows "report_token st beyond tok message type = Some (Inr (
    report_color type @ ''['' @ report_name type @ ''] '' @ path @
    '' ('' @ string_of_nat (loc_line (tk_location tok)) @ '':'' @ string_of_nat (unat (loc_column (tk_location tok))) @ '') '' @
    [squote] @ tk_lexeme tok @ [squote, newline, CHR 0x09] @
    (if before = [] then line else dropWhile is_insignificant line) @
    [newline, CHR 0x09] @ ''^ Reason: '' @ message @ escape_code ''0''))"
proof -
  let ?line = "if before = [] then line else dropWhile is_insignificant line"
  let ?args = "[report_color type, report_name type, path, string_of_nat (loc_line (tk_location tok)),
    string_of_nat (unat (loc_column (tk_location tok))), tk_lexeme tok, ?line, message, escape_code ''0'']"
  have found: "report_line (loc_line (tk_location tok)) src beyond = Some ?line"
    unfolding report_line_def by (rule report_loop_line [where behind = behind]) (use assms in simp_all)
  have "NUL \<notin> set (dropWhile is_insignificant line)" using assms(8) by (auto dest: set_dropWhileD)
  moreover have "NUL \<notin> set (report_color type)" "NUL \<notin> set (report_name type)" "NUL \<notin> set (escape_code ''0'')"
    by (cases type; simp add: report_color_def report_name_def escape_code_def)+
  ultimately have "\<forall>a \<in> set ?args. NUL \<notin> set a" using assms(8) string_of_nat_plain by auto
  then have "fmt_format report_format ?args = fmt_fill report_pieces ?args"
    unfolding report_pieces(1) using format_fills [OF report_pieces(2), of ?args] report_pieces(3) by simp
  then show ?thesis using assms(1,2) found by (simp add: report_token_def report_pieces_def)
qed

definition small_file :: source_file where
  "small_file = \<lparr>sf_id = 0, sf_path = Some ''a'', sf_contents = ''let a'' @ [newline] @ ''  let b'' @ [newline] @ ''let c''\<rparr>"

definition token_at :: "nat \<Rightarrow> token" where
  "token_at line = empty_token\<lparr>tk_location := \<lparr>loc_offset = 0, loc_line = line, loc_file_id = 0, loc_column = 6\<rparr>, tk_lexeme := ''b''\<rparr>"

theorem report_shows_line_witness:
  "report_token \<lparr>g_file_index = [small_file], g_file_buffers = None\<rparr> (\<lambda>_. NUL) (token_at 2) ''odd'' Warning =
     Some (Inr (escape_code ''33'' @ ''[Warning] a (2:6) '' @ [squote] @ ''b'' @ [squote, newline, CHR 0x09] @ ''let b'' @
       [newline, CHR 0x09] @ ''^ Reason: odd'' @ escape_code ''0''))"
  using report_shows_line [of "token_at 2" "\<lparr>g_file_index = [small_file], g_file_buffers = None\<rparr>" small_file "''a''"
      "''let a'' @ [newline]" "''  let b''" "''let c''" "''odd''" "\<lambda>_. NUL" Warning]
  by (simp add: token_at_def small_file_def get_source_def is_insignificant_def is_blank_def report_color_def report_name_def
      string_of_nat.simps char_of_eq_iff)

text \<open>C39: A report on a token of the last line does not end when no newline follows: the reader
  stays at the end of the file, on the line the loop waits to leave. So the constructor of the error never
  returns.\<close>

theorem report_on_last_line_hangs:
  assumes "get_source (loc_file_id (tk_location tok)) st = Some src"
    and "line_of (sf_contents src) \<le> loc_line (tk_location tok)"
  shows "frontend_error st beyond tok message = None"
proof -
  show ?thesis using assms report_token_ends by (simp add: frontend_error_def)
qed

theorem report_on_last_line_hangs_witness:
  "frontend_error \<lparr>g_file_index = [\<lparr>sf_id = 0, sf_path = Some ''a'', sf_contents = ''let''\<rparr>], g_file_buffers = None\<rparr> (\<lambda>_. NUL)
     (empty_token\<lparr>tk_location := \<lparr>loc_offset = 0, loc_line = 1, loc_file_id = 0, loc_column = 1\<rparr>\<rparr>) ''?'' = None"
  by (rule report_on_last_line_hangs [where src = "\<lparr>sf_id = 0, sf_path = Some ''a'', sf_contents = ''let''\<rparr>"])
    (simp_all add: get_source_def line_of_def)

end
