(* ===== verification/Lexer.thy ===== *)
theory Lexer
  imports Arena Text_Reader Format
begin

section \<open>The lexer (\<open>lexer.cpp\<close>, \<open>lexer.hpp\<close>)\<close>

text \<open>
  The lexer owns a reader and up to three tokens: the last one handed out, the current one
  and one token of lookahead. Decoded string literals go to the arena \<open>g_escape_buffer\<close>,
  a global of the C++ file that is threaded along here.
\<close>

record lexer =
  m_file_id :: "16 word"
  m_reader :: text_reader
  m_last_token :: "token option"
  m_current_token :: "token option"
  m_next_token :: "token option"
  g_escape_buffer :: arena

type_synonym 'a lex = "(lexer, exn, 'a) comp"

text \<open>\<open>Lexer{source}\<close>, and \<open>set_source\<close> on a lexer that has not been used.\<close>

definition new_lexer :: "16 word \<Rightarrow> string \<Rightarrow> (nat \<Rightarrow> byte) \<Rightarrow> arena \<Rightarrow> lexer" where
  "new_lexer file_id contents beyond escapes =
     \<lparr>m_file_id = file_id, m_reader = set_source contents beyond, m_last_token = None,
      m_current_token = None, m_next_token = None, g_escape_buffer = escapes\<rparr>"

definition ESCAPE_BUFFER_SIZE :: nat where
  "ESCAPE_BUFFER_SIZE = 128 * 1024 * 1024"

subsection \<open>Keywords\<close>

definition g_keywords :: "(string \<times> TokenType) list" where
  "g_keywords = [
    (''struct'', TkStruct), (''impl'', TkImpl), (''trait'', TkTrait), (''union'', TkUnion),
    (''static'', TkStatic), (''async'', TkAsync), (''await'', TkAwait), (''enum'', TkEnum),
    (''true'', TkTrue), (''false'', TkFalse), (''if'', TkIf), (''else'', TkElse),
    (''return'', TkReturn), (''const'', TkConst), (''volatile'', TkVolatile),
    (''import'', TkImport), (''private'', TkPrivate), (''inout'', TkInout), (''var'', TkVar),
    (''let'', TkLet), (''imut'', TkImut), (''extern'', TkExtern), (''alignof'', TkAlignOf),
    (''alias'', TkAlias), (''distinct'', TkDistinct), (''for'', TkFor), (''while'', TkWhile),
    (''loop'', TkLoop), (''match'', TkMatch), (''continue'', TkContinue), (''break'', TkBreak),
    (''sizeof'', TkSizeof), (''error'', TkError), (''in'', TkIn), (''and'', TkAnd),
    (''or'', TkOr), (''fn'', TkFn), (''cast'', TkCast), (''nil'', TkNil),
    (''nameof'', TkNameof)]"

subsection \<open>Building tokens\<close>

text \<open>The location is the place behind the lexeme. An empty override means no override.\<close>

definition build_token :: "TokenType \<Rightarrow> string \<Rightarrow> lexer \<Rightarrow> token \<times> lexer" where
  "build_token type lexeme_override l =
     (let r = m_reader l;
          loc = \<lparr>loc_offset = m_offset r, loc_line = m_current_line r,
                 loc_file_id = m_file_id l, loc_column = m_current_column r\<rparr>;
          (lexeme, r1) = (if lexeme_override = [] then rd_slice r else (lexeme_override, r))
      in (\<lparr>tk_location = loc, tk_type = type, tk_lexeme = lexeme\<rparr>, l\<lparr>m_reader := r1\<rparr>))"

definition reader_match :: "byte \<Rightarrow> lexer \<Rightarrow> bool \<times> lexer" where
  "reader_match c l = (let (ok, r) = match_char c (m_reader l) in (ok, l\<lparr>m_reader := r\<rparr>))"

definition build_token2 :: "byte \<Rightarrow> TokenType \<Rightarrow> TokenType \<Rightarrow> lexer \<Rightarrow> token \<times> lexer" where
  "build_token2 c tk1 tk2 l =
     (let (ok, l1) = reader_match c l in build_token (if ok then tk1 else tk2) [] l1)"

definition build_token3 ::
    "byte \<Rightarrow> TokenType \<Rightarrow> byte \<Rightarrow> TokenType \<Rightarrow> TokenType \<Rightarrow> lexer \<Rightarrow> token \<times> lexer" where
  "build_token3 c1 tk1 c2 tk2 tk3 l =
     (let (ok1, l1) = reader_match c1 l
      in if ok1 then build_token tk1 [] l1
         else let (ok2, l2) = reader_match c2 l1
              in build_token (if ok2 then tk2 else tk3) [] l2)"

definition build_error :: "string \<Rightarrow> lexer \<Rightarrow> token \<times> lexer" where
  "build_error message l = build_token TkError message l"

subsection \<open>Numbers\<close>

definition scan_digits :: "text_reader \<Rightarrow> text_reader" where
  "scan_digits r = advance_while (\<lambda>r. is_digit (rd_peek r)) r"

definition build_digit :: "lexer \<Rightarrow> token \<times> lexer" where
  "build_digit l =
     (let r1 = scan_digits (m_reader l)
      in if rd_peek r1 = CHR ''.'' \<and> rd_peek_next r1 \<noteq> CHR ''.'' then
           let r2 = snd (rd_advance r1)
           in if \<not> is_digit (rd_peek r2)
              then build_error (''expected digit after '' @ [squote, CHR ''.'', squote]) (l\<lparr>m_reader := r2\<rparr>)
              else build_token TkDecimalLiteral [] (l\<lparr>m_reader := scan_digits r2\<rparr>)
         else build_token TkIntegerLiteral [] (l\<lparr>m_reader := r1\<rparr>))"

subsection \<open>Strings and characters\<close>

text \<open>The switch has no default: for any other character the C++ function runs off its
  end, which is undefined (\<open>None\<close>).\<close>

definition escaped_char :: "byte \<Rightarrow> byte option" where
  "escaped_char c = map_of
     [(CHR ''n'', CHR 0x0A), (CHR ''t'', CHR 0x09), (CHR ''0'', CHR 0x00), (CHR ''r'', CHR 0x0D),
      (CHR ''a'', CHR 0x07), (CHR ''b'', CHR 0x08), (CHR ''f'', CHR 0x0C), (CHR ''v'', CHR 0x0B),
      (backslash, backslash), (dquote, dquote), (squote, squote)] c"

text \<open>At the first escape of a literal the text before it, which starts with the quote and
  ends with the two characters of the escape, is copied to the escape buffer. \<open>start\<close> is
  \<open>escape_buffer_start\<close>: the place of the copy, \<open>None\<close> for its initial \<open>UINT32_MAX\<close>.\<close>

definition open_escape ::
    "nat option \<Rightarrow> text_reader \<Rightarrow> arena \<Rightarrow> nat \<times> text_reader \<times> arena" where
  "open_escape start r a =
     (case start of
        None \<Rightarrow> (let (s, r1) = rd_slice r
                 in (occupied a, r1, arena_write_sv a (take (length s - 2) s)))
      | Some m \<Rightarrow> (m, r, a))"

lemma reader_of_open_escape:
  "open_escape start r a = (m, r', a') \<Longrightarrow> r' = r \<or> r' = snd (rd_slice r)"
  by (auto simp: open_escape_def split: option.splits prod.splits)

text \<open>
  The loop of \<open>build_string\<close>. Until the first escape the literal is shown from the source,
  from then on it is copied to the escape buffer.
\<close>

function string_loop ::
    "nat option \<Rightarrow> text_reader \<Rightarrow> arena \<Rightarrow> exn + nat option \<times> text_reader \<times> arena" where
  "string_loop start r a =
     (if at_end r \<or> rd_peek r = dquote then Inr (start, r, a)
      else
        let (c, r1) = rd_advance r;
            (esc, r2) = is_escape_sequence r1
        in if esc then
             let (m, r3, a1) = open_escape start r2 a
             in (case escaped_char (rd_peek_last r3) of
                   None \<Rightarrow> Inl (Undefined ''escaped_char'')
                 | Some e \<Rightarrow> string_loop (Some m) r3 (arena_write_sv a1 [e]))
           else if start \<noteq> None then string_loop start r2 (arena_write_sv a [c])
           else string_loop start r2 a)"
  by pat_completeness auto
termination
proof (relation "measure (\<lambda>(_, r, _). length (m_source r) - m_offset r)", goal_cases)
  case 1
  show ?case by simp
next
  case (2 start r a p c r1 q esc r2 t m u r3 a1 e)
  then have "m_offset r1 = m_offset r + 1" "m_source r1 = m_source r"
    using advance_offset [of r] advance_fields(1) [of r] by (metis snd_conv)+
  moreover have "m_offset r1 \<le> m_offset r2" "m_source r2 = m_source r1"
    using 2 is_escape_sequence_frame(1,2) [of r1] by (metis snd_conv)+
  moreover have "r3 = r2 \<or> r3 = snd (rd_slice r2)"
    using 2 reader_of_open_escape by metis
  then have "m_offset r3 = m_offset r2" "m_source r3 = m_source r2"
    by (auto simp: rd_slice_def)
  ultimately show ?case using 2 by (auto simp: at_end_def)
next
  case (3 start r a p c r1 q esc r2)
  then have "m_offset r1 = m_offset r + 1" "m_source r1 = m_source r"
    using advance_offset [of r] advance_fields(1) [of r] by (metis snd_conv)+
  moreover have "m_offset r1 \<le> m_offset r2" "m_source r2 = m_source r1"
    using 3 is_escape_sequence_frame(1,2) [of r1] by (metis snd_conv)+
  ultimately show ?case using 3 by (auto simp: at_end_def)
next
  case (4 start r a p c r1 q esc r2)
  then have "m_offset r1 = m_offset r + 1" "m_source r1 = m_source r"
    using advance_offset [of r] advance_fields(1) [of r] by (metis snd_conv)+
  moreover have "m_offset r1 \<le> m_offset r2" "m_source r2 = m_source r1"
    using 4 is_escape_sequence_frame(1,2) [of r1] by (metis snd_conv)+
  ultimately show ?case using 4 by (auto simp: at_end_def)
qed

declare string_loop.simps [simp del]

definition substr :: "nat \<Rightarrow> nat \<Rightarrow> string \<Rightarrow> string" where
  "substr pos n s = take n (drop pos s)"

text \<open>The finished literal: what it shows and how many of its bytes are text.\<close>

definition string_lexeme :: "nat option \<Rightarrow> lexer \<Rightarrow> (string \<times> nat) \<times> lexer" where
  "string_lexeme start l =
     (case start of
        Some m \<Rightarrow> (let s = arena_get_slice (g_escape_buffer l) m in ((s, length s), l))
      | None \<Rightarrow> (let (s, r) = rd_slice (m_reader l) in ((s, length s - 2), l\<lparr>m_reader := r\<rparr>)))"

definition build_string :: "token lex" where
  "build_string l =
     (case string_loop None (m_reader l) (g_escape_buffer l) of
        Inl e \<Rightarrow> Inl e
      | Inr (start, r, a) \<Rightarrow>
          let (ok, l1) = reader_match dquote (l\<lparr>m_reader := r, g_escape_buffer := a\<rparr>)
          in if \<not> ok then Inr (build_error ''unclosed string found'' l1)
             else
               let ((lexeme, end_size), l2) = string_lexeme start l1;
                   (tok, l3) = build_token TkStringLiteral lexeme l2
               in Inr (tok\<lparr>tk_lexeme := substr 1 end_size (tk_lexeme tok)\<rparr>, l3))"

text \<open>The character of a character literal, decoded through the escape buffer.\<close>

definition char_lexeme :: "string lex" where
  "char_lexeme l =
     (let r = snd (rd_advance (m_reader l));
          (esc, r1) = is_escape_sequence r
      in if esc
         then (case escaped_char (rd_peek_last r1) of
                 None \<Rightarrow> Inl (Undefined ''escaped_char'')
               | Some e \<Rightarrow>
                   (let a = arena_write_sv (g_escape_buffer l) [e]
                    in Inr (arena_view a (occupied a - 1) 1,
                            l\<lparr>m_reader := r1, g_escape_buffer := a\<rparr>)))
         else (let (s, r2) = rd_slice r1
               in Inr (drop 1 s, l\<lparr>m_reader := r2\<rparr>)))"

definition build_char :: "token lex" where
  "build_char l =
     (case char_lexeme l of
        Inl e \<Rightarrow> Inl e
      | Inr (lexeme, l1) \<Rightarrow>
          let (ok, l2) = reader_match squote l1
          in Inr (if ok then build_token TkCharLiteral lexeme l2
                  else build_error ''unclosed or empty char found'' l2))"

definition build_identifier :: "lexer \<Rightarrow> token \<times> lexer" where
  "build_identifier l =
     (let (identifier, r) = get_identifier (m_reader l);
          (tok, l1) = build_token TkIdentifier [] (l\<lparr>m_reader := r\<rparr>);
          tok1 = tok\<lparr>tk_lexeme := identifier\<rparr>
      in (case map_of g_keywords identifier of
            Some kw \<Rightarrow> tok1\<lparr>tk_type := kw\<rparr>
          | None \<Rightarrow> tok1, l1))"

subsection \<open>One token\<close>

text \<open>The comment loop: each round reads to the end of the line, then skips blanks.\<close>

definition at_comment :: "text_reader \<Rightarrow> bool" where
  "at_comment r \<longleftrightarrow> rd_peek r = CHR ''/'' \<and> rd_peek_next r = CHR ''/''"

lemma skip_until_progress:
  assumes "\<not> at_end r" and "rd_peek r \<noteq> c"
  shows "m_offset r < m_offset (skip_until c r)"
proof -
  have "skip_until c r = skip_until c (snd (rd_advance r))"
    using assms by (simp add: skip_until_def advance_while.simps [of _ r])
  moreover have "m_offset (snd (rd_advance r)) \<le> m_offset (skip_until c (snd (rd_advance r)))"
    by (simp add: skip_until_def advance_while_offset_le)
  ultimately show ?thesis using assms by (simp add: advance_offset)
qed

lemma skip_insignificant_offset_le: "m_offset r \<le> m_offset (skip_insignificant b r)"
  by (simp add: skip_insignificant_def rd_sync_def advance_while_offset_le)

lemma at_comment_not_at_end: "at_comment r \<Longrightarrow> \<not> at_end r"
  by (auto simp: at_comment_def at_end_rest rd_peek_Nil)

function skip_comments :: "text_reader \<Rightarrow> text_reader" where
  "skip_comments r =
     (if at_comment r then skip_comments (skip_insignificant False (skip_until newline r)) else r)"
  by pat_completeness auto
termination
proof (relation "measure (\<lambda>r. length (m_source r) - m_offset r)", goal_cases)
  case 1
  show ?case by simp
next
  case (2 r)
  then have e: "\<not> at_end r" by (rule at_comment_not_at_end)
  moreover have "rd_peek r \<noteq> newline" using 2 by (auto simp: at_comment_def)
  ultimately have "m_offset r < m_offset (skip_until newline r)" by (rule skip_until_progress)
  also have "\<dots> \<le> m_offset (skip_insignificant False (skip_until newline r))"
    by (rule skip_insignificant_offset_le)
  finally show ?case using e by (simp add: at_end_def)
qed

declare skip_comments.simps [simp del]

text \<open>The switch on the first character: a one-character token, a choice on the next
  character, or a choice on two possible next characters.\<close>

datatype switch_case =
    Single TokenType
  | Choice byte TokenType TokenType
  | Choice2 byte TokenType byte TokenType TokenType

definition switch_table :: "(byte \<times> switch_case) list" where
  "switch_table = [
    (CHR ''+'', Choice2 (CHR ''+'') TkPlusPlus (CHR ''='') TkPlusEqual TkPlus),
    (CHR ''-'', Choice2 (CHR ''-'') TkMinusMinus (CHR ''='') TkMinusEqual TkMinus),
    (CHR ''='', Choice2 (CHR ''='') TkEqualEqual (CHR ''>'') TkArrow TkEqual),
    (CHR ''*'', Choice2 (CHR ''*'') TkStarStar (CHR ''='') TkStarEqual TkStar),
    (CHR ''/'', Choice (CHR ''='') TkSlashEqual TkForwardSlash),
    (CHR ''<'', Choice (CHR ''='') TkLessEqual TkLess),
    (CHR ''>'', Choice (CHR ''='') TkGreaterEqual TkGreater),
    (CHR ''!'', Choice (CHR ''='') TkBangEqual TkBang),
    (CHR '':'', Choice (CHR '':'') TkColonColon TkColon),
    (CHR ''%'', Single TkPercent), (CHR ''$'', Single TkDollar),
    (CHR ''&'', Single TkAmpersand), (CHR ''|'', Single TkPipe),
    (CHR ''('', Single TkLeftParen), (CHR '')'', Single TkRightParen),
    (CHR ''{'', Single TkLeftBrace), (CHR ''}'', Single TkRightBrace),
    (CHR ''#'', Single TkHash), (CHR ''@'', Single TkAt), (CHR ''~'', Single TkTilde),
    (CHR '','', Single TkComma), (CHR '';'', Single TkSemiColon),
    (CHR ''?'', Single TkQuestion), (CHR ''^'', Single TkCaret),
    (CHR ''['', Single TkLeftBracket), (CHR '']'', Single TkRightBracket),
    (NUL, Single TkEof)]"

definition build_switch :: "switch_case \<Rightarrow> lexer \<Rightarrow> token \<times> lexer" where
  "build_switch sc l =
     (case sc of
        Single t \<Rightarrow> build_token t [] l
      | Choice c t1 t2 \<Rightarrow> build_token2 c t1 t2 l
      | Choice2 c1 t1 c2 t2 t3 \<Rightarrow> build_token3 c1 t1 c2 t2 t3 l)"

definition build_dots :: "lexer \<Rightarrow> token \<times> lexer" where
  "build_dots l =
     (let (dot2, l1) = reader_match (CHR ''.'') l
      in if dot2 then
           let (eq, l2) = reader_match (CHR ''='') l1
           in if eq then build_token TkDotDotEqual [] l2
              else let (dot3, l3) = reader_match (CHR ''.'') l2
                   in build_token (if dot3 then TkEllipse else TkDotDot) [] l3
         else build_token TkDot [] l1)"

definition advance_one :: "token lex" where
  "advance_one l0 =
     (let r = skip_comments (skip_insignificant False (m_reader l0));
          (c, r1) = rd_advance r;
          l = l0\<lparr>m_reader := r1\<rparr>
      in case map_of switch_table c of
           Some sc \<Rightarrow> Inr (build_switch sc l)
         | None \<Rightarrow>
             if c = dquote then build_string l
             else if c = squote then build_char l
             else if c = CHR ''.'' then Inr (build_dots l)
             else if is_digit c then Inr (build_digit l)
             else if is_identifier c then Inr (build_identifier l)
             else (let (tok, l1) = build_error [] l
                   in throw_frontend tok ''unexpected token found'' l1))"

subsection \<open>The token window\<close>

definition lex_advance :: "token lex" where
  "lex_advance l =
     (let l1 = l\<lparr>m_last_token := m_current_token l\<rparr>
      in case m_next_token l1 of
           Some t \<Rightarrow> Inr (t, l1\<lparr>m_current_token := Some t, m_next_token := None\<rparr>)
         | None \<Rightarrow>
             (case advance_one l1 of
                Inl e \<Rightarrow> Inl e
              | Inr (t, l2) \<Rightarrow> Inr (t, l2\<lparr>m_current_token := Some t\<rparr>)))"

definition lex_peek :: "token lex" where
  "lex_peek l =
     (case m_current_token l of None \<Rightarrow> lex_advance l | Some t \<Rightarrow> Inr (t, l))"

definition lex_peek_is :: "TokenType \<Rightarrow> bool lex" where
  "lex_peek_is type = bnd lex_peek (\<lambda>t. ret (tk_type t = type))"

definition lex_peek_next :: "token lex" where
  "lex_peek_next l =
     (case m_next_token l of
        Some t \<Rightarrow> Inr (t, l)
      | None \<Rightarrow>
          (case advance_one l of
             Inl e \<Rightarrow> Inl e
           | Inr (t, l1) \<Rightarrow> Inr (t, l1\<lparr>m_next_token := Some t\<rparr>)))"

definition lex_peek_next_is :: "TokenType \<Rightarrow> bool lex" where
  "lex_peek_next_is type = bnd lex_peek_next (\<lambda>t. ret (tk_type t = type))"

definition lex_peek_last :: "token lex" where
  "lex_peek_last = gets (\<lambda>l. case m_last_token l of None \<Rightarrow> empty_token | Some t \<Rightarrow> t)"

definition lex_peek_last_is :: "TokenType \<Rightarrow> bool lex" where
  "lex_peek_last_is type = bnd lex_peek_last (\<lambda>t. ret (tk_type t = type))"

definition lex_match :: "TokenType \<Rightarrow> bool lex" where
  "lex_match type =
     bnd (lex_peek_is type) (\<lambda>ok.
     if ok then bnd lex_advance (\<lambda>_. ret True) else ret False)"

definition lex_match_both :: "TokenType \<Rightarrow> TokenType \<Rightarrow> bool lex" where
  "lex_match_both a b =
     bnd (lex_peek_is a) (\<lambda>ok_a.
     if ok_a then
       bnd (lex_peek_next_is b) (\<lambda>ok_b.
       if ok_b then bnd lex_advance (\<lambda>_. bnd lex_advance (\<lambda>_. ret True)) else ret False)
     else ret False)"

definition lex_match_next :: "TokenType \<Rightarrow> bool lex" where
  "lex_match_next type =
     bnd (lex_peek_next_is type) (\<lambda>ok.
     if ok then bnd lex_advance (\<lambda>_. ret True) else ret False)"

definition lex_expect :: "TokenType \<Rightarrow> token lex" where
  "lex_expect type =
     bnd (lex_peek_is type) (\<lambda>ok.
     if \<not> ok then
       bnd lex_peek (\<lambda>got.
       bnd lex_peek (\<lambda>tok.
       throw_formatted tok ''expected {} but got {}'' [enum_name type, enum_name (tk_type got)]))
     else bnd lex_advance (\<lambda>_. lex_peek_last))"

definition lex_has_next :: "lexer \<Rightarrow> bool" where
  "lex_has_next l \<longleftrightarrow> \<not> at_end (m_reader l)"

subsection \<open>Every operation moves the reader forward\<close>

definition reader_fwd :: "text_reader \<Rightarrow> text_reader \<Rightarrow> bool" where
  "reader_fwd r r' \<longleftrightarrow>
     m_source r' = m_source r \<and> m_beyond r' = m_beyond r \<and> m_offset r \<le> m_offset r' \<and>
     (reader_inv r \<longrightarrow> reader_inv r')"

lemma reader_fwd_refl [simp, intro]: "reader_fwd r r"
  by (simp add: reader_fwd_def)

lemma reader_fwd_trans: "reader_fwd a b \<Longrightarrow> reader_fwd b c \<Longrightarrow> reader_fwd a c"
  by (auto simp: reader_fwd_def)

lemma reader_fwd_advance [intro]: "reader_fwd r (snd (rd_advance r))"
  by (auto simp: reader_fwd_def advance_offset intro: inv_intros)

lemma reader_fwd_advance_while [intro]: "reader_fwd r (advance_while P r)"
  by (auto simp: reader_fwd_def advance_while_offset_le intro: inv_intros)

lemma reader_fwd_slice [intro]: "reader_fwd r (snd (rd_slice r))"
  by (auto simp: reader_fwd_def rd_slice_def reader_inv_def)

lemma reader_fwd_sync [intro]: "reader_fwd r (rd_sync r)"
  by (auto simp: reader_fwd_def rd_sync_def reader_inv_def)

lemma reader_fwd_match [intro]: "reader_fwd r (snd (match_char c r))"
  by (auto simp: match_char_def)

lemma reader_fwd_escape [intro]: "reader_fwd r (snd (is_escape_sequence r))"
  by (auto simp: reader_fwd_def intro: inv_intros)

lemma reader_fwd_skip_insignificant [intro]: "reader_fwd r (skip_insignificant b r)"
  by (auto simp: reader_fwd_def skip_insignificant_offset_le intro: inv_intros)

lemma reader_fwd_skip_comments [intro]: "reader_fwd r (skip_comments r)"
proof (induction r rule: skip_comments.induct)
  case (1 r)
  have "reader_fwd r (skip_until newline r)"
    by (auto simp: skip_until_def)
  then have "reader_fwd r (skip_insignificant False (skip_until newline r))"
    by (rule reader_fwd_trans) auto
  with 1 show ?case
    by (auto simp: skip_comments.simps [of r] intro: reader_fwd_trans)
qed

text \<open>The same for the lexer: besides, only the reader and the escape buffer change.\<close>

definition lex_fwd :: "lexer \<Rightarrow> lexer \<Rightarrow> bool" where
  "lex_fwd l l' \<longleftrightarrow>
     reader_fwd (m_reader l) (m_reader l') \<and> m_file_id l' = m_file_id l \<and>
     m_last_token l' = m_last_token l \<and> m_current_token l' = m_current_token l \<and>
     m_next_token l' = m_next_token l"

lemma lex_fwd_refl [simp, intro]: "lex_fwd l l"
  by (simp add: lex_fwd_def)

lemma lex_fwd_trans: "lex_fwd a b \<Longrightarrow> lex_fwd b c \<Longrightarrow> lex_fwd a c"
  by (auto simp: lex_fwd_def intro: reader_fwd_trans)

lemma lex_fwd_reader [intro]: "reader_fwd (m_reader l) r \<Longrightarrow> lex_fwd l (l\<lparr>m_reader := r\<rparr>)"
  by (simp add: lex_fwd_def)

lemma lex_fwd_escapes [simp]: "lex_fwd l (l'\<lparr>g_escape_buffer := a\<rparr>) \<longleftrightarrow> lex_fwd l l'"
  by (simp add: lex_fwd_def)

lemma lex_fwd_build_token [intro]: "lex_fwd l (snd (build_token t s l))"
  by (auto simp: build_token_def Let_def split: prod.splits if_splits)
    (metis reader_fwd_slice snd_conv lex_fwd_reader)

lemma lex_fwd_match [intro]: "lex_fwd l (snd (reader_match c l))"
  by (auto simp: reader_match_def split: prod.splits)
    (metis reader_fwd_match snd_conv lex_fwd_reader)

lemma lex_fwd_build_token2 [intro]: "lex_fwd l (snd (build_token2 c t1 t2 l))"
  unfolding build_token2_def
  by (auto split: prod.splits) (metis lex_fwd_match lex_fwd_build_token lex_fwd_trans snd_conv)+

lemma lex_fwd_build_token3 [intro]: "lex_fwd l (snd (build_token3 c1 t1 c2 t2 t3 l))"
  unfolding build_token3_def
  by (auto split: prod.splits) (metis lex_fwd_match lex_fwd_build_token lex_fwd_trans snd_conv)+

lemma lex_fwd_build_error [intro]: "lex_fwd l (snd (build_error s l))"
  by (auto simp: build_error_def)

lemma lex_fwd_build_switch [intro]: "lex_fwd l (snd (build_switch sc l))"
  by (cases sc) (auto simp: build_switch_def)

lemma lex_fwd_build_dots [intro]: "lex_fwd l (snd (build_dots l))"
  unfolding build_dots_def
  by (auto split: prod.splits) (metis lex_fwd_match lex_fwd_build_token lex_fwd_trans snd_conv)+

lemma reader_fwd_scan_digits [intro]: "reader_fwd r (scan_digits r)"
  by (auto simp: scan_digits_def)

lemma lex_fwd_with_reader:
  "reader_fwd (m_reader l) r \<Longrightarrow> lex_fwd (l\<lparr>m_reader := r\<rparr>) l' \<Longrightarrow> lex_fwd l l'"
  by (rule lex_fwd_trans) auto

lemma lex_fwd_build_digit [intro]: "lex_fwd l (snd (build_digit l))"
  unfolding build_digit_def Let_def
  by (auto intro!: lex_fwd_with_reader [OF _ lex_fwd_build_token]
      lex_fwd_with_reader [OF _ lex_fwd_build_error]
      intro: reader_fwd_trans [OF _ reader_fwd_advance]
        reader_fwd_trans [OF _ reader_fwd_scan_digits])

lemma lex_fwd_build_identifier [intro]: "lex_fwd l (snd (build_identifier l))"
proof -
  obtain i r where g: "get_identifier (m_reader l) = (i, r)" by fastforce
  then have "r = snd (rd_slice (advance_while (\<lambda>r. is_identifier (rd_peek r)) (m_reader l)))"
    by (simp add: get_identifier_def)
  then have "reader_fwd (m_reader l) r"
    using reader_fwd_trans [OF reader_fwd_advance_while reader_fwd_slice] by blast
  with g show ?thesis
    by (auto simp: build_identifier_def split: prod.splits)
      (metis lex_fwd_build_token lex_fwd_with_reader snd_conv)
qed

lemma reader_fwd_string_loop:
  "string_loop start r a = Inr (start', r', a') \<Longrightarrow> reader_fwd r r'"
proof (induction start r a rule: string_loop.induct)
  case (1 start r a)
  show ?case
  proof (cases "at_end r \<or> rd_peek r = dquote")
    case True
    with 1 show ?thesis by (simp add: string_loop.simps [of start r a])
  next
    case False
    obtain c r1 where adv: "rd_advance r = (c, r1)" by fastforce
    obtain esc r2 where es: "is_escape_sequence r1 = (esc, r2)" by fastforce
    have "reader_fwd r r1" using reader_fwd_advance [of r] adv by simp
    moreover have "reader_fwd r1 r2" using reader_fwd_escape [of r1] es by simp
    ultimately have f2: "reader_fwd r r2" by (rule reader_fwd_trans)
    show ?thesis
    proof (cases esc)
      case True
      obtain m r3 a1 where s3: "open_escape start r2 a = (m, r3, a1)" by (rule prod_cases3)
      have "reader_fwd r2 r3"
        using reader_of_open_escape [OF s3] by auto
      with f2 have f3: "reader_fwd r r3" by (rule reader_fwd_trans)
      from False True adv es s3 "1.prems" obtain e where e: "escaped_char (rd_peek_last r3) = Some e"
        and rec: "string_loop (Some m) r3 (arena_write_sv a1 [e]) = Inr (start', r', a')"
        by (subst (asm) string_loop.simps) (auto split: option.splits)
      have "reader_fwd r3 r'"
        by (rule 1(1) [OF False refl adv [symmetric] refl es [symmetric] True refl s3 [symmetric]
              refl e rec])
      with f3 show ?thesis by (rule reader_fwd_trans)
    next
      case nesc: False
      have "reader_fwd r2 r'"
      proof (cases "start = None")
        case True
        with False nesc adv es "1.prems" have "string_loop start r2 a = Inr (start', r', a')"
          by (subst (asm) string_loop.simps) auto
        then show ?thesis
          using 1(3) [OF False refl adv [symmetric] refl es [symmetric] nesc] True by simp
      next
        case sn: False
        with False nesc adv es "1.prems"
        have "string_loop start r2 (arena_write_sv a [c]) = Inr (start', r', a')"
          by (subst (asm) string_loop.simps) auto
        then show ?thesis
          using 1(2) [OF False refl adv [symmetric] refl es [symmetric] nesc] sn by simp
      qed
      with f2 show ?thesis by (rule reader_fwd_trans)
    qed
  qed
qed

lemma lex_fwd_string_lexeme: "lex_fwd l (snd (string_lexeme start l))"
proof (cases start)
  case None
  then show ?thesis
    using lex_fwd_reader [OF reader_fwd_slice [of "m_reader l"]]
    by (simp add: string_lexeme_def case_prod_beta Let_def)
qed (simp add: string_lexeme_def Let_def)

lemma lex_fwd_build_string: "build_string l = Inr (t, l') \<Longrightarrow> lex_fwd l l'"
proof -
  assume b: "build_string l = Inr (t, l')"
  then obtain start r a where loop: "string_loop None (m_reader l) (g_escape_buffer l) = Inr (start, r, a)"
    by (auto simp: build_string_def split: sum.splits)
  let ?l0 = "l\<lparr>m_reader := r, g_escape_buffer := a\<rparr>"
  obtain ok l1 where m: "reader_match dquote ?l0 = (ok, l1)" by fastforce
  have "lex_fwd l ?l0"
    using reader_fwd_string_loop [OF loop] by (simp add: lex_fwd_def)
  moreover have "lex_fwd ?l0 l1" using lex_fwd_match [of ?l0 dquote] m by simp
  ultimately have f1: "lex_fwd l l1" by (rule lex_fwd_trans)
  show ?thesis
  proof (cases ok)
    case False
    with b loop m have "l' = snd (build_error ''unclosed string found'' l1)"
      by (auto simp: build_string_def)
    with f1 show ?thesis by (auto intro: lex_fwd_trans)
  next
    case True
    obtain lexeme n l2 where l2: "string_lexeme start l1 = ((lexeme, n), l2)"
      by (metis prod.exhaust)
    have "lex_fwd l1 l2"
      using l2 lex_fwd_string_lexeme [of l1 start] by simp
    moreover have "l' = snd (build_token TkStringLiteral lexeme l2)"
      using b loop m True l2 by (auto simp: build_string_def split: prod.splits)
    ultimately show ?thesis using f1 by (auto intro: lex_fwd_trans)
  qed
qed

lemma lex_fwd_char_lexeme: "char_lexeme l = Inr (s, l') \<Longrightarrow> lex_fwd l l'"
proof -
  assume b: "char_lexeme l = Inr (s, l')"
  define r where "r = snd (rd_advance (m_reader l))"
  obtain esc r1 where es: "is_escape_sequence r = (esc, r1)" by fastforce
  have "reader_fwd (m_reader l) r" by (auto simp: r_def)
  moreover have "reader_fwd r r1" using reader_fwd_escape [of r] es by simp
  ultimately have f1: "reader_fwd (m_reader l) r1" by (rule reader_fwd_trans)
  have f2: "reader_fwd (m_reader l) (snd (rd_slice r1))"
    by (rule reader_fwd_trans [OF f1 reader_fwd_slice])
  from b es f1 f2 show ?thesis
    by (cases esc)
      (auto simp: char_lexeme_def r_def [symmetric] Let_def lex_fwd_def case_prod_beta
        split: option.splits)
qed

lemma lex_fwd_build_char: "build_char l = Inr (t, l') \<Longrightarrow> lex_fwd l l'"
proof -
  assume b: "build_char l = Inr (t, l')"
  then obtain s l1 where c: "char_lexeme l = Inr (s, l1)"
    by (auto simp: build_char_def split: sum.splits)
  obtain ok l2 where m: "reader_match squote l1 = (ok, l2)" by fastforce
  have "lex_fwd l l1" by (rule lex_fwd_char_lexeme [OF c])
  moreover have "lex_fwd l1 l2" using lex_fwd_match [of l1 squote] m by simp
  moreover have "l' = snd (if ok then build_token TkCharLiteral s l2
      else build_error ''unclosed or empty char found'' l2)"
    using b c m by (auto simp: build_char_def)
  then have "lex_fwd l2 l'" by (auto split: if_splits)
  ultimately show ?thesis by (meson lex_fwd_trans)
qed

text \<open>One token: the reader only moves forward, and it moves unless it is at the end.\<close>

lemma advance_one_fwd:
  assumes "advance_one l = Inr (t, l')"
  shows "lex_fwd l l'"
    and "\<not> at_end (m_reader l) \<Longrightarrow> m_offset (m_reader l) < m_offset (m_reader l')"
proof -
  define r where "r = skip_comments (skip_insignificant False (m_reader l))"
  obtain c r1 where adv: "rd_advance r = (c, r1)" by fastforce
  have fr: "reader_fwd (m_reader l) r"
    unfolding r_def
    by (rule reader_fwd_trans [OF reader_fwd_skip_insignificant reader_fwd_skip_comments])
  have fr1: "reader_fwd r r1" using reader_fwd_advance [of r] adv by simp
  have l1: "lex_fwd l (l\<lparr>m_reader := r1\<rparr>)"
    using fr fr1 by (auto intro: reader_fwd_trans)
  let ?l = "l\<lparr>m_reader := r1\<rparr>"
  have one: "(case map_of switch_table c of
      Some sc \<Rightarrow> Inr (build_switch sc ?l)
    | None \<Rightarrow>
        if c = dquote then build_string ?l
        else if c = squote then build_char ?l
        else if c = CHR ''.'' then Inr (build_dots ?l)
        else if is_digit c then Inr (build_digit ?l)
        else if is_identifier c then Inr (build_identifier ?l)
        else (let (tok, l1) = build_error [] ?l
              in throw_frontend tok ''unexpected token found'' l1)) = Inr (t, l')"
    using assms adv by (simp add: advance_one_def r_def [symmetric] Let_def)
  have l2: "lex_fwd ?l l'"
  proof (cases "map_of switch_table c")
    case (Some sc)
    with one show ?thesis using lex_fwd_build_switch [of ?l sc] by simp
  next
    case None
    then show ?thesis
      using one lex_fwd_build_string [of ?l t l'] lex_fwd_build_char [of ?l t l']
        lex_fwd_build_dots [of ?l] lex_fwd_build_digit [of ?l] lex_fwd_build_identifier [of ?l]
      by (simp split: if_splits prod.splits)
  qed
  from l1 l2 show "lex_fwd l l'" by (rule lex_fwd_trans)
  assume ne: "\<not> at_end (m_reader l)"
  have off: "m_offset (m_reader l) \<le> m_offset r" and src: "m_source r = m_source (m_reader l)"
    using fr by (auto simp: reader_fwd_def)
  have "m_offset (m_reader l) < m_offset r1"
  proof (cases "at_end r")
    case True
    then have "m_offset (m_reader l) < m_offset r" using ne src by (simp add: at_end_def)
    with fr1 show ?thesis by (simp add: reader_fwd_def)
  next
    case False
    then show ?thesis using off adv advance_offset [of r] by simp
  qed
  also have "m_offset r1 \<le> m_offset (m_reader l')"
    using l2 by (simp add: lex_fwd_def reader_fwd_def)
  finally show "m_offset (m_reader l) < m_offset (m_reader l')" .
qed

subsection \<open>Evaluation of the building blocks over the unread input\<close>

lemma rest_match_char:
  "match_char c r =
     (case rest r of
        [] \<Rightarrow> (c = NUL, r)
      | d # ds \<Rightarrow> if d = c then (True, snd (rd_advance r)) else (False, r))"
  by (auto simp: match_char_def rd_peek_rest at_end_rest rd_advance_def split: list.split)

lemma build_token_lexeme:
  "s \<noteq> [] \<Longrightarrow> build_token t s l =
     (\<lparr>tk_location = \<lparr>loc_offset = m_offset (m_reader l), loc_line = m_current_line (m_reader l),
        loc_file_id = m_file_id l, loc_column = m_current_column (m_reader l)\<rparr>,
       tk_type = t, tk_lexeme = s\<rparr>, l)"
  by (simp add: build_token_def Let_def)

lemma build_token_type [simp]: "tk_type (fst (build_token t s l)) = t"
  by (simp add: build_token_def Let_def split: prod.splits)

lemma build_token_rest [simp]: "rest (m_reader (snd (build_token t s l))) = rest (m_reader l)"
  by (simp add: build_token_def Let_def rd_slice_def rest_def)

lemma build_token_slice:
  "tk_lexeme (fst (build_token t [] l)) = fst (rd_slice (m_reader l))"
  by (simp add: build_token_def Let_def split: prod.splits)

lemma skip_comments_id: "\<not> at_comment r \<Longrightarrow> skip_comments r = r"
  by (simp add: skip_comments.simps)

lemma at_comment_Cons: "rest r = c # cs \<Longrightarrow> c \<noteq> CHR ''/'' \<Longrightarrow> \<not> at_comment r"
  by (simp add: at_comment_def rd_peek_Cons)

lemma m_current_skip_insignificant [simp]:
  "m_current (skip_insignificant b r) = m_offset (skip_insignificant b r)"
  by (simp add: skip_insignificant_def rd_sync_def)

text \<open>The reader in front of a token: blanks skipped, no comment, the lexeme starting here.\<close>

lemma token_start:
  assumes "rest r = ws @ c # cs" and "list_all is_insignificant ws"
    and "\<not> is_insignificant c" and "c \<noteq> CHR ''/''"
  shows "skip_comments (skip_insignificant False r) = skip_insignificant False r"
    and "rest (skip_insignificant False r) = c # cs"
    and "m_current (skip_insignificant False r) = m_offset (skip_insignificant False r)"
proof -
  have "dropWhile is_insignificant (ws @ c # cs) = dropWhile is_insignificant (c # cs)"
    using assms(2) by (intro dropWhile_append2) (auto simp: list_all_iff)
  then show r: "rest (skip_insignificant False r) = c # cs"
    using assms(1,3) by (simp add: rest_skip_insignificant)
  show "skip_comments (skip_insignificant False r) = skip_insignificant False r"
    by (rule skip_comments_id) (rule at_comment_Cons [OF r assms(4)])
qed simp

lemma identifier_not_insignificant: "is_identifier c \<Longrightarrow> \<not> is_insignificant c \<and> c \<noteq> CHR ''/''"
  by (auto simp: is_identifier_def is_alnum_def is_digit_def is_insignificant_def is_blank_def)

lemma switch_table_chars: "list_all (\<lambda>x. \<not> is_identifier (fst x)) switch_table"
  by (simp add: switch_table_def is_identifier_def is_alnum_def is_digit_def)

lemma switch_table_not_identifier: "is_identifier c \<Longrightarrow> map_of switch_table c = None"
  using switch_table_chars by (auto simp: map_of_eq_None_iff list_all_iff)

lemma identifier_not_special: "is_identifier c \<Longrightarrow> c \<noteq> dquote \<and> c \<noteq> squote \<and> c \<noteq> CHR ''.''"
  by (auto simp: is_identifier_def is_alnum_def is_digit_def)

lemma takeWhile_span:
  "list_all P xs \<Longrightarrow> (ys \<noteq> [] \<longrightarrow> \<not> P (hd ys)) \<Longrightarrow> takeWhile P (xs @ ys) = xs"
  by (cases ys) (auto simp: list_all_iff takeWhile_append2 takeWhile_tail)

lemma seek_advance: "snd (rd_advance (seek n r)) = seek (Suc n) r"
  by (induction n arbitrary: r) simp_all

subsection \<open>Words\<close>

definition word_type :: "string \<Rightarrow> TokenType" where
  "word_type w = (case map_of g_keywords w of Some kw \<Rightarrow> kw | None \<Rightarrow> TkIdentifier)"

lemma get_identifier_seek:
  assumes "rest r = w @ tail" and "list_all is_identifier w"
    and "tail \<noteq> [] \<longrightarrow> \<not> is_identifier (hd tail)"
  shows "get_identifier r = rd_slice (seek (length w) r)"
  using assms by (simp add: get_identifier_def advance_while_peek takeWhile_span)

lemma build_identifier_word:
  assumes r: "rest (m_reader l) = w @ tail" and w: "list_all is_identifier w"
    and tail: "tail \<noteq> [] \<longrightarrow> \<not> is_identifier (hd tail)"
  shows "tk_type (fst (build_identifier l)) =
      word_type (fst (rd_slice (seek (length w) (m_reader l))))"
    and "tk_lexeme (fst (build_identifier l)) = fst (rd_slice (seek (length w) (m_reader l)))"
    and "rest (m_reader (snd (build_identifier l))) = tail"
proof -
  obtain i r1 where i: "rd_slice (seek (length w) (m_reader l)) = (i, r1)" by fastforce
  have g: "get_identifier (m_reader l) = (i, r1)"
    using get_identifier_seek [OF r w tail] i by simp
  have "rest r1 = tail"
    using i rest_snd_slice [of "seek (length w) (m_reader l)"] r by (simp add: rest_seek)
  with g i show
    "tk_type (fst (build_identifier l)) =
       word_type (fst (rd_slice (seek (length w) (m_reader l))))"
    "tk_lexeme (fst (build_identifier l)) = fst (rd_slice (seek (length w) (m_reader l)))"
    "rest (m_reader (snd (build_identifier l))) = tail"
    by (auto simp: build_identifier_def word_type_def case_prod_beta Let_def split: option.splits)
qed

lemma advance_one_word:
  assumes r: "rest (m_reader l) = ws @ w @ tail" and ws: "list_all is_insignificant ws"
    and w: "list_all is_identifier w" "w \<noteq> []" "\<not> is_digit (hd w)"
    and tail: "tail \<noteq> [] \<longrightarrow> \<not> is_identifier (hd tail)"
  shows "\<exists>t l'. advance_one l = Inr (t, l') \<and> tk_lexeme t = w \<and> tk_type t = word_type w \<and>
    rest (m_reader l') = tail"
proof -
  obtain c v where wc: "w = c # v" using w(2) by (cases w) auto
  then have c: "is_identifier c" "\<not> is_digit c" and v: "list_all is_identifier v" using w by auto
  define r0 where "r0 = skip_insignificant False (m_reader l)"
  have start: "skip_comments r0 = r0" "rest r0 = c # v @ tail" "m_current r0 = m_offset r0"
    using token_start [of "m_reader l" ws c "v @ tail"] r ws c(1) wc identifier_not_insignificant
    by (auto simp: r0_def)
  let ?l = "l\<lparr>m_reader := snd (rd_advance r0)\<rparr>"
  have one: "advance_one l = Inr (build_identifier ?l)"
    using c start(1,2) identifier_not_special [OF c(1)] switch_table_not_identifier [OF c(1)]
    by (simp add: advance_one_def Let_def r0_def [symmetric] case_prod_beta fst_advance
        rd_peek_Cons)
  have rest1: "rest (m_reader ?l) = v @ tail" by (simp add: rest_advance start(2))
  have "seek (length v) (snd (rd_advance r0)) = seek (length w) r0" by (simp add: wc)
  moreover have "fst (rd_slice (seek (length w) r0)) = w"
    using fst_slice_seek [of r0 "length w"] start(2,3) by (simp add: wc)
  ultimately have "fst (rd_slice (seek (length v) (m_reader ?l))) = w" by simp
  then show ?thesis
    using build_identifier_word [OF rest1 v tail] one by (metis prod.collapse)
qed

subsection \<open>Numbers\<close>

lemma scan_digits_seek:
  assumes "rest r = ds @ tail" and "list_all is_digit ds" and "tail \<noteq> [] \<longrightarrow> \<not> is_digit (hd tail)"
  shows "scan_digits r = seek (length ds) r"
  using assms by (simp add: scan_digits_def advance_while_peek takeWhile_span)

lemma is_digit_not_special:
  "is_digit c \<Longrightarrow> \<not> is_insignificant c \<and> c \<noteq> CHR ''/'' \<and> c \<noteq> dquote \<and> c \<noteq> squote \<and> c \<noteq> CHR ''.''
    \<and> map_of switch_table c = None"
  using identifier_not_insignificant [of c] identifier_not_special [of c]
    switch_table_not_identifier [of c]
  by (simp add: is_identifier_def is_alnum_def)

text \<open>A number: its digits, then a point and more digits unless the point starts a range.\<close>

lemma advance_one_digit:
  assumes r: "rest (m_reader l) = ws @ d # cs" and ws: "list_all is_insignificant ws"
    and d: "is_digit d"
  defines "r0 \<equiv> skip_insignificant False (m_reader l)"
  shows "advance_one l = Inr (build_digit (l\<lparr>m_reader := snd (rd_advance r0)\<rparr>))"
    and "rest r0 = d # cs" and "m_current r0 = m_offset r0"
proof -
  have start: "skip_comments r0 = r0" "rest r0 = d # cs" "m_current r0 = m_offset r0"
    using token_start [of "m_reader l" ws d cs] r ws d is_digit_not_special
    by (auto simp: r0_def)
  show "advance_one l = Inr (build_digit (l\<lparr>m_reader := snd (rd_advance r0)\<rparr>))"
    using start(1,2) is_digit_not_special [OF d] d
    by (simp add: advance_one_def Let_def r0_def [symmetric] case_prod_beta fst_advance
        rd_peek_Cons)
  show "rest r0 = d # cs" and "m_current r0 = m_offset r0" by (rule start)+
qed

lemma advance_one_integer:
  assumes r: "rest (m_reader l) = ws @ ds @ tail" and ws: "list_all is_insignificant ws"
    and ds: "list_all is_digit ds" "ds \<noteq> []"
    and tail: "tail \<noteq> [] \<longrightarrow> \<not> is_digit (hd tail)"
      "take 1 tail = ''.'' \<longrightarrow> take 2 tail = ''..''"
  shows "\<exists>t l'. advance_one l = Inr (t, l') \<and> tk_lexeme t = ds \<and> tk_type t = TkIntegerLiteral \<and>
    rest (m_reader l') = tail"
proof -
  obtain d es where dc: "ds = d # es" using ds(2) by (cases ds) auto
  then have d: "is_digit d" and es: "list_all is_digit es" using ds by auto
  define r0 where "r0 = skip_insignificant False (m_reader l)"
  let ?l = "l\<lparr>m_reader := snd (rd_advance r0)\<rparr>"
  have r': "rest (m_reader l) = ws @ d # es @ tail" using r dc by simp
  note start = advance_one_digit [OF r' ws d, folded r0_def]
  define r1 where "r1 = seek (length ds) r0"
  have scan: "scan_digits (m_reader ?l) = r1"
    using scan_digits_seek [of "snd (rd_advance r0)" es tail] es tail(1) start(2)
    by (simp add: rest_advance r1_def dc)
  have rest1: "rest r1 = tail" using start(2) by (simp add: r1_def rest_seek rest_advance dc)
  have no_point: "\<not> (rd_peek r1 = CHR ''.'' \<and> rd_peek_next r1 \<noteq> CHR ''.'')"
  proof
    assume a: "rd_peek r1 = CHR ''.'' \<and> rd_peek_next r1 \<noteq> CHR ''.''"
    then obtain xs where "tail = CHR ''.'' # xs"
      using rest1 by (cases tail) (auto simp: rd_peek_rest)
    with tail(2) obtain ys where "tail = CHR ''.'' # CHR ''.'' # ys"
      by (cases xs) auto
    with rest1 a show False by (simp add: rd_peek_next_Cons2)
  qed
  have "build_digit ?l = build_token TkIntegerLiteral [] (?l\<lparr>m_reader := r1\<rparr>)"
    using scan no_point by (auto simp: build_digit_def Let_def)
  moreover have "fst (rd_slice r1) = ds"
    using fst_slice_seek [of r0 "length ds"] start(2,3) by (simp add: r1_def dc)
  ultimately have "tk_lexeme (fst (build_digit ?l)) = ds" "tk_type (fst (build_digit ?l)) = TkIntegerLiteral"
    "rest (m_reader (snd (build_digit ?l))) = tail"
    using rest1 by (simp_all add: build_token_slice)
  with start(1) show ?thesis by (metis prod.collapse)
qed

lemma advance_one_decimal:
  assumes r: "rest (m_reader l) = ws @ ds @ CHR ''.'' # fs @ tail"
    and ws: "list_all is_insignificant ws"
    and ds: "list_all is_digit ds" "ds \<noteq> []" and fs: "list_all is_digit fs" "fs \<noteq> []"
    and tail: "tail \<noteq> [] \<longrightarrow> \<not> is_digit (hd tail)"
  shows "\<exists>t l'. advance_one l = Inr (t, l') \<and> tk_lexeme t = ds @ CHR ''.'' # fs \<and>
    tk_type t = TkDecimalLiteral \<and> rest (m_reader l') = tail"
proof -
  obtain d es where dc: "ds = d # es" using ds(2) by (cases ds) auto
  obtain f gs where fc: "fs = f # gs" using fs(2) by (cases fs) auto
  then have d: "is_digit d" and es: "list_all is_digit es" and f: "is_digit f" using ds fs dc by auto
  define r0 where "r0 = skip_insignificant False (m_reader l)"
  let ?l = "l\<lparr>m_reader := snd (rd_advance r0)\<rparr>"
  let ?lex = "ds @ CHR ''.'' # fs"
  have r': "rest (m_reader l) = ws @ d # es @ CHR ''.'' # fs @ tail" using r dc by simp
  note start = advance_one_digit [OF r' ws d, folded r0_def]
  define r1 where "r1 = seek (length ds) r0"
  have point: "\<not> is_digit CHR ''.''" by (simp add: is_digit_def)
  have scan: "scan_digits (m_reader ?l) = r1"
    using scan_digits_seek [of "snd (rd_advance r0)" es "CHR ''.'' # fs @ tail"] es point start(2)
    by (simp add: rest_advance r1_def dc)
  have rest1: "rest r1 = CHR ''.'' # f # gs @ tail" using start(2) by (simp add: r1_def rest_seek rest_advance dc fc)
  define r2 where "r2 = snd (rd_advance r1)"
  have rest2: "rest r2 = fs @ tail" by (simp add: r2_def rest_advance rest1 fc)
  have scan2: "scan_digits r2 = seek (length ?lex) r0"
    using scan_digits_seek [OF rest2 fs(1) tail]
    by (simp add: r2_def r1_def seek_advance seek_seek)
  have "build_digit ?l = build_token TkDecimalLiteral [] (?l\<lparr>m_reader := seek (length ?lex) r0\<rparr>)"
    using scan scan2 rest1 rest2 f
    by (auto simp: build_digit_def Let_def rd_peek_Cons rd_peek_next_Cons2 r2_def [symmetric] fc
        is_digit_def)
  moreover have "fst (rd_slice (seek (length ?lex) r0)) = ?lex"
    using fst_slice_seek [of r0 "length ?lex"] start(2,3) by (simp add: dc)
  moreover have "rest (seek (length ?lex) r0) = tail"
    using start(2) by (simp add: rest_seek dc del: seek.simps)
  ultimately have "tk_lexeme (fst (build_digit ?l)) = ?lex"
    "tk_type (fst (build_digit ?l)) = TkDecimalLiteral"
    "rest (m_reader (snd (build_digit ?l))) = tail"
    by (simp_all add: build_token_slice)
  with start(1) show ?thesis by (metis prod.collapse)
qed

subsection \<open>String literals\<close>

text \<open>The text of a literal body up to its closing quote, and what follows from the quote
  on (nothing, if the literal is not closed): an escape letter behind a backslash is decoded,
  any other backslash stays.\<close>

function decode_body :: "string \<Rightarrow> string \<times> string" where
  "decode_body [] = ([], [])"
| "decode_body (c # cs) =
     (if c = dquote then ([], c # cs)
      else if c = backslash \<and> cs \<noteq> [] \<and> hd cs \<in> set escape_letters
      then apfst (Cons (the (escaped_char (hd cs)))) (decode_body (tl cs))
      else apfst (Cons c) (decode_body cs))"
  by pat_completeness auto
termination
  by (relation "measure length") auto

text \<open>How a text is written as a literal body.\<close>

definition escape_char :: "byte \<Rightarrow> string" where
  "escape_char c =
     (case map_of [(CHR 0x0A, CHR ''n''), (CHR 0x09, CHR ''t''), (NUL, CHR ''0''),
        (CHR 0x0D, CHR ''r''), (CHR 0x07, CHR ''a''), (CHR 0x08, CHR ''b''), (CHR 0x0C, CHR ''f''),
        (CHR 0x0B, CHR ''v''), (backslash, backslash), (dquote, dquote), (squote, squote)] c of
        Some e \<Rightarrow> [backslash, e] | None \<Rightarrow> [c])"

definition escape_text :: "string \<Rightarrow> string" where
  "escape_text s = concat (map escape_char s)"

lemma escaped_char_Some: "c \<in> set escape_letters \<Longrightarrow> \<exists>e. escaped_char c = Some e"
  by (auto simp: escape_letters_def escaped_char_def)

lemma decode_escape_char:
  "decode_body (escape_char c @ cs) = apfst (Cons c) (decode_body cs)"
  by (auto simp: escape_char_def escape_letters_def escaped_char_def)

lemma decode_escape_text:
  "decode_body (escape_text s @ dquote # tail) = (s, dquote # tail)"
proof (induction s)
  case Nil
  then show ?case by (simp add: escape_text_def)
next
  case (Cons c s)
  have "escape_text (c # s) @ dquote # tail = escape_char c @ escape_text s @ dquote # tail"
    by (simp add: escape_text_def)
  then show ?case using Cons by (simp add: decode_escape_char)
qed

text \<open>Reading back the byte just read: with at least two bytes read, and fewer than
  \<open>2 ^ 32\<close>, \<open>peek_last\<close> is that byte.\<close>

lemma rd_peek_last_eq:
  assumes "2 \<le> m_offset r" and "m_offset r \<le> length (m_source r)" and "m_offset r < 2 ^ 32"
  shows "rd_peek_last r = m_source r ! (m_offset r - 1)"
proof -
  have "(of_nat (m_offset r) - 1 :: 32 word) = of_nat (m_offset r - 1)"
    using assms(1) by (simp add: of_nat_diff)
  moreover have "unat (of_nat (m_offset r - 1) :: 32 word) = m_offset r - 1"
    using assms(3) by (simp add: unat_of_nat)
  ultimately have "uint (of_nat (m_offset r) - 1 :: 32 word) = int (m_offset r - 1)"
    by (metis uint_nat)
  moreover have "nat (int (m_offset r - 1)) = m_offset r - 1" by simp
  moreover have "\<not> int (m_offset r - 1) \<le> 0" using assms(1) by simp
  moreover have "m_offset r - 1 < length (m_source r)" using assms(1,2) by simp
  ultimately show ?thesis by (simp only: rd_peek_last_def rd_byte_at_def Let_def if_False if_True)
qed

lemma match_any_eq:
  assumes "NUL \<notin> set cs"
  shows "match_any cs r =
    (if rest r \<noteq> [] \<and> hd (rest r) \<in> set cs then (True, snd (rd_advance r)) else (False, r))"
  using assms
proof (induction cs)
  case (Cons c cs)
  then show ?case by (cases "rest r") (auto simp: rest_match_char)
qed simp

lemma NUL_not_escape_letter: "NUL \<notin> set escape_letters"
  by (simp add: escape_letters_def)

text \<open>The bounds under which the escape test looks at the text itself.\<close>

definition in_text :: "text_reader \<Rightarrow> bool" where
  "in_text r \<longleftrightarrow> 1 \<le> m_offset r \<and> m_offset r \<le> length (m_source r) \<and> length (m_source r) < 2 ^ 32"

lemma in_text_advance: "in_text r \<Longrightarrow> in_text (snd (rd_advance r))"
  by (auto simp: in_text_def advance_offset at_end_def)

lemma is_escape_sequence_after:
  assumes "in_text r" and "rest r = c # cs"
  shows "is_escape_sequence (snd (rd_advance r)) =
    (if c = backslash \<and> cs \<noteq> [] \<and> hd cs \<in> set escape_letters
     then (True, seek 2 r) else (False, snd (rd_advance r)))"
proof -
  let ?r = "snd (rd_advance r)"
  have off: "m_offset r < length (m_source r)" "m_source r ! m_offset r = c"
    using rest_Cons_nth [OF assms(2)] by auto
  then have "rd_peek_last ?r = c"
    using assms(1) by (subst rd_peek_last_eq) (auto simp: in_text_def advance_offset at_end_def)
  then show ?thesis
    using assms(2) match_any_eq [OF NUL_not_escape_letter, of ?r]
    by (auto simp: is_escape_sequence_def rest_advance numeral_2_eq_2)
qed

lemma peek_last_after_escape:
  assumes "in_text r" and "rest r = c # d # cs"
  shows "rd_peek_last (seek 2 r) = d"
proof -
  have n: "2 \<le> length (rest r)" using assms(2) by simp
  have d: "m_source r ! (m_offset r + 1) = d"
    using assms(2) by (metis Suc_eq_plus1 drop_Suc list.sel(3) nth_via_drop rest_def tl_drop)
  have "m_offset r + 2 \<le> length (m_source r)"
    using n by (simp add: rest_def)
  then show ?thesis
    using assms(1) seek_offset [OF n] d by (subst rd_peek_last_eq) (auto simp: in_text_def)
qed

text \<open>The literal as collected so far: shown from the source, or from the escape buffer.\<close>

definition collected :: "nat option \<Rightarrow> text_reader \<Rightarrow> arena \<Rightarrow> string" where
  "collected start r a =
     (case start of
        None \<Rightarrow> take (m_offset r - m_current r) (drop (m_current r) (m_source r))
      | Some m \<Rightarrow> arena_get_slice a m)"

definition start_ok :: "nat option \<Rightarrow> text_reader \<Rightarrow> arena \<Rightarrow> bool" where
  "start_ok start r a \<longleftrightarrow>
     (case start of None \<Rightarrow> m_current r < m_offset r | Some m \<Rightarrow> m \<le> occupied a)"

lemma take_drop_seek:
  assumes "m_current r \<le> m_offset r" and "n \<le> length (rest r)"
  shows "take (m_offset (seek n r) - m_current r) (drop (m_current r) (m_source r)) =
    take (m_offset r - m_current r) (drop (m_current r) (m_source r)) @ take n (rest r)"
proof -
  have "m_offset (seek n r) - m_current r = (m_offset r - m_current r) + n"
    using assms seek_offset [OF assms(2)] by simp
  then have "take (m_offset (seek n r) - m_current r) (drop (m_current r) (m_source r)) =
      take (m_offset r - m_current r) (drop (m_current r) (m_source r)) @
      take n (drop (m_offset r - m_current r) (drop (m_current r) (m_source r)))"
    by (simp only: take_add)
  then show ?thesis using assms(1) by (simp add: rest_def)
qed

lemma collected_advance:
  assumes "start_ok start r a" and "rest r = c # cs"
  shows "collected start (snd (rd_advance r)) (if start = None then a else arena_write_sv a [c]) =
    collected start r a @ [c]"
proof (cases start)
  case None
  then show ?thesis
    using take_drop_seek [of r 1] assms by (simp add: collected_def start_ok_def)
next
  case (Some m)
  then show ?thesis
    using assms by (simp add: collected_def start_ok_def arena_get_slice_write)
qed

lemma collected_escape:
  assumes "start_ok start r a" and "rest r = c # d # cs"
    and "open_escape start (seek 2 r) a = (m, r3, a1)"
  shows "collected (Some m) r3 (arena_write_sv a1 [e]) = collected start r a @ [e]"
    and "start_ok (Some m) r3 (arena_write_sv a1 [e])"
    and "m_offset r3 = m_offset (seek 2 r)" "m_source r3 = m_source r" "rest r3 = cs"
    and "rd_peek_last r3 = rd_peek_last (seek 2 r)"
proof -
  have n: "2 \<le> length (rest r)" using assms(2) by simp
  have same: "m_offset r3 = m_offset (seek 2 r) \<and> m_source r3 = m_source (seek 2 r) \<and>
      m_beyond r3 = m_beyond (seek 2 r)"
    using reader_of_open_escape [OF assms(3)] by (auto simp: rd_slice_def)
  then show "m_offset r3 = m_offset (seek 2 r)" and "m_source r3 = m_source r"
    by simp_all
  have "rest r3 = rest (seek 2 r)" using same by (simp add: rest_def)
  then show "rest r3 = cs" using assms(2) by (simp add: rest_seek)
  have "rd_byte_at r3 = rd_byte_at (seek 2 r)" using same by (simp add: rd_byte_at_def fun_eq_iff)
  then show "rd_peek_last r3 = rd_peek_last (seek 2 r)"
    using same by (simp add: rd_peek_last_def Let_def)
  show "collected (Some m) r3 (arena_write_sv a1 [e]) = collected start r a @ [e]"
    and "start_ok (Some m) r3 (arena_write_sv a1 [e])"
  proof (atomize (full), cases start)
    case None
    let ?s = "fst (rd_slice (seek 2 r))"
    have s: "?s = collected None r a @ take 2 (rest r)"
      using take_drop_seek [of r 2] assms(1) n None
      by (simp add: rd_slice_def collected_def start_ok_def)
    then have "take (length ?s - 2) ?s = collected None r a" using n by simp
    then have "m = occupied a \<and> a1 = arena_write_sv a (collected None r a)"
      using assms(3) None by (auto simp: open_escape_def split: prod.splits)
    then show "collected (Some m) r3 (arena_write_sv a1 [e]) = collected start r a @ [e] \<and>
        start_ok (Some m) r3 (arena_write_sv a1 [e])"
      by (simp add: collected_def start_ok_def None arena_get_slice_write arena_buffer.slice_at_mark)
  next
    case (Some k)
    with assms(1,3) show "collected (Some m) r3 (arena_write_sv a1 [e]) = collected start r a @ [e] \<and>
        start_ok (Some m) r3 (arena_write_sv a1 [e])"
      by (simp add: open_escape_def collected_def start_ok_def arena_get_slice_write)
  qed
qed

lemma string_loop_step:
  assumes "\<not> (at_end r \<or> rd_peek r = dquote)" and "rd_advance r = (c, r1)"
    and "is_escape_sequence r1 = (esc, r2)"
  shows "string_loop start r a =
    (if esc then
       (let (m, r3, a1) = open_escape start r2 a
        in (case escaped_char (rd_peek_last r3) of
              None \<Rightarrow> Inl (Undefined ''escaped_char'')
            | Some e \<Rightarrow> string_loop (Some m) r3 (arena_write_sv a1 [e])))
     else string_loop start r2 (if start = None then a else arena_write_sv a [c]))"
  using assms by (subst string_loop.simps) simp

text \<open>The loop decodes the body: it stops at the closing quote with the decoded text
  collected, and it never runs off \<open>escaped_char\<close>.\<close>

lemma string_loop_decodes:
  assumes "in_text r" and "start_ok start r a" and "decode_body (rest r) = (s, t)"
  shows "\<exists>start' r' a'. string_loop start r a = Inr (start', r', a') \<and> rest r' = t \<and>
    in_text r' \<and> start_ok start' r' a' \<and> collected start' r' a' = collected start r a @ s"
  using assms
proof (induction "length (rest r)" arbitrary: start r a s rule: less_induct)
  case less
  show ?case
  proof (cases "rest r")
    case Nil
    then have "string_loop start r a = Inr (start, r, a)"
      by (subst string_loop.simps) (simp add: at_end_rest)
    then show ?thesis using less.prems Nil by simp
  next
    case r: (Cons c cs)
    show ?thesis
  proof (cases "c = dquote")
    case True
    then have "string_loop start r a = Inr (start, r, a)"
      using r by (subst string_loop.simps) (simp add: rd_peek_Cons)
    then show ?thesis using less.prems r True by simp
  next
    case nq: False
    have not_stop: "\<not> (at_end r \<or> rd_peek r = dquote)" using r nq by (simp add: at_end_rest rd_peek_Cons)
    have adv: "rd_advance r = (c, snd (rd_advance r))"
      by (metis fst_advance prod.collapse r rd_peek_Cons)
    show ?thesis
    proof (cases "c = backslash \<and> cs \<noteq> [] \<and> hd cs \<in> set escape_letters")
      case True
      then obtain d ds where cs: "cs = d # ds" and d: "d \<in> set escape_letters" by (cases cs) auto
      obtain e where e: "escaped_char d = Some e" using escaped_char_Some [OF d] by blast
      from less.prems(3) r True nq cs e obtain s' where dec: "decode_body ds = (s', t)"
        and s: "s = e # s'" by (cases "decode_body ds") auto
      obtain m r3 a1 where op: "open_escape start (seek 2 r) a = (m, r3, a1)" by (rule prod_cases3)
      note col = collected_escape [OF less.prems(2) r [unfolded cs] op]
      have last: "rd_peek_last r3 = d"
        using col(6) peek_last_after_escape [OF less.prems(1)] r cs by simp
      have step: "string_loop start r a = string_loop (Some m) r3 (arena_write_sv a1 [e])"
        using string_loop_step [OF not_stop adv] is_escape_sequence_after [OF less.prems(1) r]
          True op last e by simp
      have "in_text r3"
        using less.prems(1) r cs col(3,4) seek_offset [of 2 r]
        by (auto simp: in_text_def rest_def)
          (metis Suc_eq_plus1 add_2_eq_Suc' length_drop length_Cons less_eq_Suc_le not_less_eq_eq
            le_add2 less_diff_conv add.commute)
      moreover have "length (rest r3) < length (rest r)" using col(5) r cs by simp
      moreover have "decode_body (rest r3) = (s', t)" using col(5) dec by simp
      ultimately show ?thesis
        using less.hyps [of r3 "Some m" "arena_write_sv a1 [e]" s'] col(1,2) step s by simp
    next
      case False
      from less.prems(3) r False nq obtain s' where dec: "decode_body cs = (s', t)"
        and s: "s = c # s'" by (cases "decode_body cs") (auto split: if_splits)
      let ?r = "snd (rd_advance r)"
      let ?a = "if start = None then a else arena_write_sv a [c]"
      have "is_escape_sequence ?r = (False, ?r)"
        using is_escape_sequence_after [OF less.prems(1) r] False by simp
      from string_loop_step [OF not_stop adv this, of start a]
      have step: "string_loop start r a = string_loop start ?r ?a" by simp
      have "start_ok start ?r ?a"
        using less.prems(2) not_stop
        by (auto simp: start_ok_def advance_offset split: option.splits)
      then show ?thesis
        using less.hyps [of ?r start ?a s'] collected_advance [OF less.prems(2) r] r dec s step
          in_text_advance [OF less.prems(1)]
        by (simp add: rest_advance)
    qed
  qed
  qed
qed

lemma decode_body_snd: "snd (decode_body s) = [] \<or> hd (snd (decode_body s)) = dquote"
  by (induction s rule: decode_body.induct) auto

text \<open>The reader stands behind the opening quote, which starts the lexeme.\<close>

definition after_quote :: "text_reader \<Rightarrow> bool" where
  "after_quote r \<longleftrightarrow>
     in_text r \<and> m_current r + 1 = m_offset r \<and> m_source r ! m_current r = dquote"

lemma collected_after_quote:
  assumes "after_quote r"
  shows "start_ok None r a" and "collected None r a = [dquote]"
proof -
  have "m_current r < length (m_source r)" and cur: "m_current r + 1 = m_offset r"
    using assms by (auto simp: after_quote_def in_text_def)
  then have "drop (m_current r) (m_source r) = dquote # drop (m_offset r) (m_source r)"
    using assms by (metis Cons_nth_drop_Suc Suc_eq_plus1 after_quote_def)
  moreover have "m_offset r - m_current r = 1" using cur by simp
  ultimately show "collected None r a = [dquote]" by (simp add: collected_def)
  show "start_ok None r a" using cur by (simp add: start_ok_def)
qed

lemma reader_match_Cons:
  "rest (m_reader l) = c # cs \<Longrightarrow>
     reader_match c l = (True, l\<lparr>m_reader := snd (rd_advance (m_reader l))\<rparr>)"
  by (simp add: reader_match_def rest_match_char)

lemma reader_match_no:
  "rest (m_reader l) = [] \<and> c \<noteq> NUL \<or> rest (m_reader l) \<noteq> [] \<and> hd (rest (m_reader l)) \<noteq> c \<Longrightarrow>
     reader_match c l = (False, l)"
  by (cases "rest (m_reader l)") (auto simp: reader_match_def rest_match_char)

text \<open>A closed literal: a string token with the decoded text, the input behind the quote left.\<close>

lemma build_string_closed:
  assumes aq: "after_quote (m_reader l)"
    and dec: "decode_body (rest (m_reader l)) = (s, dquote # tail)"
  shows "\<exists>t l'. build_string l = Inr (t, l') \<and> tk_type t = TkStringLiteral \<and> tk_lexeme t = s \<and>
    rest (m_reader l') = tail"
proof -
  have it: "in_text (m_reader l)" using aq by (simp add: after_quote_def)
  note start = collected_after_quote [OF aq, of "g_escape_buffer l"]
  obtain start r a where loop: "string_loop None (m_reader l) (g_escape_buffer l) = Inr (start, r, a)"
    and r: "rest r = dquote # tail" and ok: "start_ok start r a"
    and col: "collected start r a = dquote # s"
    using string_loop_decodes [OF it start(1) dec] start(2) by auto
  define l1 where "l1 = l\<lparr>m_reader := snd (rd_advance r), g_escape_buffer := a\<rparr>"
  have m: "reader_match dquote (l\<lparr>m_reader := r, g_escape_buffer := a\<rparr>) = (True, l1)"
    using r by (subst reader_match_Cons) (auto simp: l1_def)
  have r1: "rest (m_reader l1) = tail" by (simp add: l1_def rest_advance r)
  show ?thesis
  proof (cases start)
    case (Some k)
    then have slice: "arena_get_slice a k = dquote # s" using col by (simp add: collected_def)
    have lex: "string_lexeme start l1 = ((dquote # s, length (dquote # s)), l1)"
      by (simp only: string_lexeme_def Some option.case Let_def)
        (simp add: l1_def slice)
    have "build_string l = Inr (fst (build_token TkStringLiteral (dquote # s) l1)\<lparr>tk_lexeme := s\<rparr>,
        snd (build_token TkStringLiteral (dquote # s) l1))"
      using loop m lex
      by (simp add: build_string_def case_prod_beta Let_def build_token_lexeme substr_def)
    then show ?thesis using r1 by (simp add: build_token_lexeme)
  next
    case None
    have "fst (rd_slice (snd (rd_advance r))) = dquote # s @ [dquote]"
      using take_drop_seek [of r 1] ok col r None
      by (simp add: rd_slice_def collected_def start_ok_def)
    then obtain r2 where sl: "rd_slice (m_reader l1) = (dquote # s @ [dquote], r2)"
      by (cases "rd_slice (m_reader l1)") (auto simp: l1_def)
    then have r2: "rest r2 = tail" using r1 rest_snd_slice [of "m_reader l1"] by simp
    have lex: "string_lexeme start l1 = ((dquote # s @ [dquote], length s), l1\<lparr>m_reader := r2\<rparr>)"
      using sl by (simp add: string_lexeme_def None)
    let ?l2 = "l1\<lparr>m_reader := r2\<rparr>"
    have "build_string l = Inr (fst (build_token TkStringLiteral (dquote # s @ [dquote]) ?l2)\<lparr>tk_lexeme := s\<rparr>,
        snd (build_token TkStringLiteral (dquote # s @ [dquote]) ?l2))"
      using loop m lex
      by (simp add: build_string_def case_prod_beta Let_def build_token_lexeme substr_def)
    then show ?thesis using r2 by (simp add: build_token_lexeme)
  qed
qed

text \<open>A literal that runs to the end of the file: an error token, no exception.\<close>

lemma build_string_unclosed:
  assumes aq: "after_quote (m_reader l)" and dec: "snd (decode_body (rest (m_reader l))) = []"
  shows "\<exists>t l'. build_string l = Inr (t, l') \<and> tk_type t = TkError \<and>
    tk_lexeme t = ''unclosed string found'' \<and> rest (m_reader l') = []"
proof -
  obtain s where d: "decode_body (rest (m_reader l)) = (s, [])" using dec by (metis prod.collapse)
  have it: "in_text (m_reader l)" using aq by (simp add: after_quote_def)
  obtain start r a where loop: "string_loop None (m_reader l) (g_escape_buffer l) = Inr (start, r, a)"
    and r: "rest r = []"
    using string_loop_decodes [OF it collected_after_quote(1) [OF aq] d] by blast
  let ?l1 = "l\<lparr>m_reader := r, g_escape_buffer := a\<rparr>"
  have "reader_match dquote ?l1 = (False, ?l1)" by (rule reader_match_no) (simp add: r)
  then have "build_string l = Inr (build_error ''unclosed string found'' ?l1)"
    using loop by (simp add: build_string_def)
  then show ?thesis using r by (simp add: build_error_def build_token_lexeme)
qed

lemma dquote_start:
  assumes r: "rest (m_reader l) = ws @ dquote # cs" and ws: "list_all is_insignificant ws"
    and inv: "reader_inv (m_reader l)" and len: "length (m_source (m_reader l)) < 2 ^ 32"
  shows "\<exists>r1. advance_one l = build_string (l\<lparr>m_reader := r1\<rparr>) \<and> after_quote r1 \<and> rest r1 = cs"
proof -
  define r0 where "r0 = skip_insignificant False (m_reader l)"
  have nd: "\<not> is_insignificant dquote" by (simp add: is_insignificant_def is_blank_def)
  have start: "skip_comments r0 = r0" "rest r0 = dquote # cs" "m_current r0 = m_offset r0"
    using token_start [of "m_reader l" ws dquote cs] r ws nd by (auto simp: r0_def)
  let ?r1 = "snd (rd_advance r0)"
  have "advance_one l = build_string (l\<lparr>m_reader := ?r1\<rparr>)"
    using start(1,2)
    by (simp add: advance_one_def Let_def r0_def [symmetric] case_prod_beta fst_advance
        rd_peek_Cons switch_table_def)
  moreover have "after_quote ?r1"
    using start(2,3) rest_Cons_nth [OF start(2)] len
    by (auto simp: after_quote_def in_text_def advance_offset at_end_def r0_def)
  ultimately show ?thesis using start(2) by (auto simp: rest_advance)
qed

lemma advance_one_string:
  assumes r: "rest (m_reader l) = ws @ dquote # body" and ws: "list_all is_insignificant ws"
    and inv: "reader_inv (m_reader l)" and len: "length (m_source (m_reader l)) < 2 ^ 32"
    and dec: "decode_body body = (s, dquote # tail)"
  shows "\<exists>t l'. advance_one l = Inr (t, l') \<and> tk_type t = TkStringLiteral \<and> tk_lexeme t = s \<and>
    rest (m_reader l') = tail"
proof -
  obtain r1 where "advance_one l = build_string (l\<lparr>m_reader := r1\<rparr>)" "after_quote r1" "rest r1 = body"
    using dquote_start [OF r ws inv len] by blast
  then show ?thesis using build_string_closed [of "l\<lparr>m_reader := r1\<rparr>" s tail] dec by simp
qed

subsection \<open>No undefined behaviour, one exception\<close>

lemma is_escape_sequence_at_end: "at_end r \<Longrightarrow> is_escape_sequence r = (False, r)"
  using match_any_eq [OF NUL_not_escape_letter, of r]
  by (simp add: is_escape_sequence_def at_end_rest)

lemma char_lexeme_total:
  assumes "in_text (m_reader l)"
  shows "\<exists>s l'. char_lexeme l = Inr (s, l')"
proof (cases "rest (m_reader l)")
  case Nil
  then have "at_end (snd (rd_advance (m_reader l)))" by (simp add: at_end_rest rest_advance)
  then show ?thesis
    by (simp add: char_lexeme_def is_escape_sequence_at_end split: prod.splits)
next
  case (Cons c cs)
  show ?thesis
  proof (cases "c = backslash \<and> cs \<noteq> [] \<and> hd cs \<in> set escape_letters")
    case True
    then obtain d ds where cs: "cs = d # ds" and d: "d \<in> set escape_letters" by (cases cs) auto
    obtain e where "escaped_char d = Some e" using escaped_char_Some [OF d] by blast
    moreover have "rd_peek_last (seek 2 (m_reader l)) = d"
      by (rule peek_last_after_escape [OF assms]) (simp add: Cons cs)
    moreover have "is_escape_sequence (snd (rd_advance (m_reader l))) = (True, seek 2 (m_reader l))"
      using is_escape_sequence_after [OF assms Cons] True by simp
    ultimately show ?thesis by (simp add: char_lexeme_def Let_def)
  next
    case False
    then have "is_escape_sequence (snd (rd_advance (m_reader l))) = (False, snd (rd_advance (m_reader l)))"
      using is_escape_sequence_after [OF assms Cons] by simp
    then show ?thesis by (simp add: char_lexeme_def split: prod.splits)
  qed
qed

lemma build_char_total: "in_text (m_reader l) \<Longrightarrow> \<exists>t l'. build_char l = Inr (t, l')"
  using char_lexeme_total [of l] by (auto simp: build_char_def split: prod.splits)

lemma build_string_total:
  assumes "after_quote (m_reader l)"
  shows "\<exists>t l'. build_string l = Inr (t, l')"
proof -
  obtain s t where d: "decode_body (rest (m_reader l)) = (s, t)" by fastforce
  show ?thesis
  proof (cases t)
    case Nil
    with d show ?thesis using build_string_unclosed [OF assms] by auto
  next
    case (Cons c tail)
    then have "c = dquote" using decode_body_snd [of "rest (m_reader l)"] d by simp
    with d Cons show ?thesis using build_string_closed [OF assms, of s tail] by auto
  qed
qed

text \<open>The reader behind the first character of a token.\<close>

lemma after_first_char:
  assumes inv: "reader_inv (m_reader l)" and len: "length (m_source (m_reader l)) < 2 ^ 32"
    and r: "r = skip_comments (skip_insignificant False (m_reader l))"
    and c: "rd_advance r = (c, r1)" and ne: "c \<noteq> NUL"
  shows "in_text r1" and "c = dquote \<Longrightarrow> after_quote r1"
proof -
  have fwd: "reader_fwd (m_reader l) r"
    unfolding r by (rule reader_fwd_trans [OF reader_fwd_skip_insignificant reader_fwd_skip_comments])
  have cur: "m_current r = m_offset r"
  proof -
    have "m_current (skip_comments q) = m_offset (skip_comments q)" if "m_current q = m_offset q" for q
      using that
    proof (induction q rule: skip_comments.induct)
      case (1 q)
      then show ?case by (simp add: skip_comments.simps [of q])
    qed
    then show ?thesis by (simp add: r)
  qed
  have "\<not> at_end r" using c ne by (auto simp: rd_advance_def)
  then obtain cs where rc: "rest r = c # cs"
    using c fst_advance [of r] by (cases "rest r") (auto simp: at_end_rest rd_peek_Cons)
  have r1: "r1 = snd (rd_advance r)" using c by simp
  show "in_text r1"
    using fwd len rest_Cons_nth [OF rc] \<open>\<not> at_end r\<close>
    by (auto simp: r1 in_text_def advance_offset reader_fwd_def)
  then show "after_quote r1" if "c = dquote"
    using cur rest_Cons_nth [OF rc] \<open>\<not> at_end r\<close> that
    by (auto simp: r1 after_quote_def advance_offset)
qed

lemma advance_one_exception:
  assumes inv: "reader_inv (m_reader l)" and len: "length (m_source (m_reader l)) < 2 ^ 32"
    and ex: "advance_one l = Inl e"
  shows "\<exists>t. e = Frontend t ''unexpected token found'' \<and> tk_type t = TkError"
proof -
  define r where r: "r = skip_comments (skip_insignificant False (m_reader l))"
  obtain c r1 where c: "rd_advance r = (c, r1)" by fastforce
  let ?l = "l\<lparr>m_reader := r1\<rparr>"
  have none: "map_of switch_table c = None"
    using ex c by (auto simp: advance_one_def r [symmetric] Let_def split: option.splits)
  then have ne: "c \<noteq> NUL" by (auto simp: switch_table_def)
  note first = after_first_char [OF inv len r c ne]
  have "build_string ?l \<noteq> Inl e" if "c = dquote"
    using build_string_total [of ?l] first(2) that by auto
  moreover have "build_char ?l \<noteq> Inl e"
    using build_char_total [of ?l] first(1) by auto
  moreover obtain tok l1 where tok: "build_error [] ?l = (tok, l1)" by fastforce
  ultimately have "Inl e = throw_frontend tok ''unexpected token found'' l1"
    using ex c none
    by (simp add: advance_one_def r [symmetric] Let_def split: if_splits)
  moreover have "tk_type tok = TkError"
    using tok by (auto simp: build_error_def build_token_def Let_def split: prod.splits)
  ultimately show ?thesis by (auto simp: throw_frontend_def fail_def)
qed

subsection \<open>The whole token stream (\<open>debug/token_printer.cpp\<close>)\<close>

lemma lex_advance_frame:
  assumes "lex_advance l = Inr (t, l')"
  shows "reader_fwd (m_reader l) (m_reader l')" and "m_file_id l' = m_file_id l"
    and "m_last_token l' = m_current_token l" and "m_current_token l' = Some t"
    and "m_next_token l' = None"
    and "m_next_token l = None \<Longrightarrow> lex_has_next l \<Longrightarrow> m_offset (m_reader l) < m_offset (m_reader l')"
proof -
  let ?l = "l\<lparr>m_last_token := m_current_token l\<rparr>"
  have "reader_fwd (m_reader l) (m_reader l') \<and> m_file_id l' = m_file_id l \<and>
    m_last_token l' = m_current_token l \<and> m_current_token l' = Some t \<and> m_next_token l' = None \<and>
    (m_next_token l = None \<longrightarrow> lex_has_next l \<longrightarrow> m_offset (m_reader l) < m_offset (m_reader l'))"
  proof (cases "m_next_token l")
    case (Some u)
    with assms have "u = t" "l' = ?l\<lparr>m_current_token := Some t, m_next_token := None\<rparr>"
      by (auto simp: lex_advance_def Let_def)
    with Some show ?thesis by simp
  next
    case None
    with assms obtain l2 where l2: "advance_one ?l = Inr (t, l2)" "l' = l2\<lparr>m_current_token := Some t\<rparr>"
      by (auto simp: lex_advance_def Let_def split: sum.splits)
    note fwd = advance_one_fwd [OF l2(1)]
    show ?thesis
      using fwd None l2(2) by (simp add: lex_fwd_def lex_has_next_def)
  qed
  then show "reader_fwd (m_reader l) (m_reader l')" "m_file_id l' = m_file_id l"
    "m_last_token l' = m_current_token l" "m_current_token l' = Some t" "m_next_token l' = None"
    "m_next_token l = None \<Longrightarrow> lex_has_next l \<Longrightarrow> m_offset (m_reader l) < m_offset (m_reader l')"
    by blast+
qed

text \<open>The loop of \<open>print_tokens\<close>: while the reader has input, advance and keep the token.\<close>

function token_stream :: "lexer \<Rightarrow> exn + token list" where
  "token_stream l =
     (if lex_has_next l then
        (case lex_advance l of
           Inl e \<Rightarrow> Inl e
         | Inr (t, l') \<Rightarrow>
             (case token_stream l' of Inl e \<Rightarrow> Inl e | Inr ts \<Rightarrow> Inr (t # ts)))
      else Inr [])"
  by pat_completeness auto
termination
proof (relation "measures [\<lambda>l. length (m_source (m_reader l)) - m_offset (m_reader l),
    \<lambda>l. if m_next_token l = None then 0 else 1]", goal_cases)
  case 1
  show ?case by simp
next
  case (2 l p t l')
  then have adv: "lex_advance l = Inr (t, l')" by simp
  note frame = lex_advance_frame [OF adv]
  show ?case
    using frame 2 by (cases "m_next_token l") (auto simp: reader_fwd_def lex_has_next_def at_end_def)
qed

declare token_stream.simps [simp del]

lemma token_stream_length:
  "token_stream l = Inr ts \<Longrightarrow>
     length ts \<le> (length (m_source (m_reader l)) - m_offset (m_reader l)) +
       (if m_next_token l = None then 0 else 1)"
proof (induction l arbitrary: ts rule: token_stream.induct)
  case (1 l)
  show ?case
  proof (cases "lex_has_next l")
    case False
    with 1 show ?thesis by (simp add: token_stream.simps)
  next
    case True
    with "1.prems" obtain t l' us where adv: "lex_advance l = Inr (t, l')"
      and us: "token_stream l' = Inr us" "ts = t # us"
      by (subst (asm) token_stream.simps) (auto split: sum.splits)
    note frame = lex_advance_frame [OF adv]
    have "length us \<le> length (m_source (m_reader l')) - m_offset (m_reader l')"
      using "1.IH" [OF True adv refl us(1)] frame(5) by simp
    then show ?thesis
      using frame us(2) True
      by (cases "m_next_token l") (auto simp: reader_fwd_def lex_has_next_def at_end_def)
  qed
qed

subsection \<open>Looking ahead\<close>

text \<open>\<open>set_window\<close> replaces the three tokens. Lexing a token neither reads nor writes them.\<close>

definition set_window :: "token option \<Rightarrow> token option \<Rightarrow> token option \<Rightarrow> lexer \<Rightarrow> lexer" where
  "set_window a b c l = l\<lparr>m_last_token := a, m_current_token := b, m_next_token := c\<rparr>"

lemma set_window_fields [simp]:
  "m_reader (set_window a b c l) = m_reader l" "m_file_id (set_window a b c l) = m_file_id l"
  "g_escape_buffer (set_window a b c l) = g_escape_buffer l"
  "m_last_token (set_window a b c l) = a" "m_current_token (set_window a b c l) = b"
  "m_next_token (set_window a b c l) = c"
  by (simp_all add: set_window_def)

lemma set_window_reader [simp]:
  "(set_window a b c l)\<lparr>m_reader := r\<rparr> = set_window a b c (l\<lparr>m_reader := r\<rparr>)"
  by (simp add: set_window_def)

lemma set_window_escapes [simp]:
  "(set_window a b c l)\<lparr>g_escape_buffer := x\<rparr> = set_window a b c (l\<lparr>g_escape_buffer := x\<rparr>)"
  by (simp add: set_window_def)

lemma set_window_set_window [simp]: "set_window a b c (set_window d e f l) = set_window a b c l"
  by (simp add: set_window_def)

lemma set_window_same: "set_window (m_last_token l) (m_current_token l) (m_next_token l) l = l"
  by (simp add: set_window_def)

lemma build_token_window [simp]:
  "build_token t s (set_window a b c l) = apsnd (set_window a b c) (build_token t s l)"
  by (simp add: build_token_def Let_def split: prod.splits)

lemma reader_match_window [simp]:
  "reader_match x (set_window a b c l) = apsnd (set_window a b c) (reader_match x l)"
  by (simp add: reader_match_def split: prod.splits)

lemma build_error_window [simp]:
  "build_error s (set_window a b c l) = apsnd (set_window a b c) (build_error s l)"
  by (simp add: build_error_def)

lemma build_token2_window [simp]:
  "build_token2 x t1 t2 (set_window a b c l) = apsnd (set_window a b c) (build_token2 x t1 t2 l)"
  by (cases "reader_match x l") (simp add: build_token2_def)

lemma build_token3_window [simp]:
  "build_token3 x t1 y t2 t3 (set_window a b c l) =
     apsnd (set_window a b c) (build_token3 x t1 y t2 t3 l)"
proof -
  obtain ok1 l1 where 1: "reader_match x l = (ok1, l1)" by fastforce
  obtain ok2 l2 where 2: "reader_match y l1 = (ok2, l2)" by fastforce
  show ?thesis by (cases ok1) (simp_all add: build_token3_def 1 2)
qed

lemma build_switch_window [simp]:
  "build_switch sc (set_window a b c l) = apsnd (set_window a b c) (build_switch sc l)"
  by (cases sc) (simp_all add: build_switch_def)

lemma build_dots_window [simp]:
  "build_dots (set_window a b c l) = apsnd (set_window a b c) (build_dots l)"
proof -
  obtain d2 l1 where 1: "reader_match (CHR ''.'') l = (d2, l1)" by fastforce
  obtain eq l2 where 2: "reader_match (CHR ''='') l1 = (eq, l2)" by fastforce
  obtain d3 l3 where 3: "reader_match (CHR ''.'') l2 = (d3, l3)" by fastforce
  show ?thesis by (cases d2; cases eq) (simp_all add: build_dots_def 1 2 3)
qed

lemma build_digit_window [simp]:
  "build_digit (set_window a b c l) = apsnd (set_window a b c) (build_digit l)"
  by (simp add: build_digit_def Let_def)

lemma build_identifier_window [simp]:
  "build_identifier (set_window a b c l) = apsnd (set_window a b c) (build_identifier l)"
proof -
  obtain i r where i: "get_identifier (m_reader l) = (i, r)" by fastforce
  obtain t l1 where t: "build_token TkIdentifier [] (l\<lparr>m_reader := r\<rparr>) = (t, l1)" by fastforce
  show ?thesis
    by (cases "map_of g_keywords i") (simp_all add: build_identifier_def i t Let_def)
qed

lemma string_lexeme_window [simp]:
  "string_lexeme start (set_window a b c l) = apsnd (set_window a b c) (string_lexeme start l)"
  by (simp add: string_lexeme_def Let_def split: prod.splits option.splits)

definition map_lex :: "(lexer \<Rightarrow> lexer) \<Rightarrow> exn + 'a \<times> lexer \<Rightarrow> exn + 'a \<times> lexer" where
  "map_lex f res = (case res of Inl e \<Rightarrow> Inl e | Inr (x, l) \<Rightarrow> Inr (x, f l))"

lemma map_lex_simps [simp]: "map_lex f (Inl e) = Inl e" "map_lex f (Inr (x, l)) = Inr (x, f l)"
  by (simp_all add: map_lex_def)

lemma build_string_window [simp]:
  "build_string (set_window a b c l) = map_lex (set_window a b c) (build_string l)"
proof (cases "string_loop None (m_reader l) (g_escape_buffer l)")
  case (Inl e)
  then show ?thesis by (simp add: build_string_def)
next
  case (Inr p)
  obtain start r e where p: "p = (start, r, e)" by (cases p) auto
  obtain ok l1 where 1: "reader_match dquote (l\<lparr>m_reader := r, g_escape_buffer := e\<rparr>) = (ok, l1)"
    by fastforce
  obtain x n l2 where 2: "string_lexeme start l1 = ((x, n), l2)" by (metis prod.exhaust)
  obtain t l3 where 3: "build_token TkStringLiteral x l2 = (t, l3)" by fastforce
  obtain t' l4 where 4: "build_error ''unclosed string found'' l1 = (t', l4)" by fastforce
  show ?thesis
    by (cases ok) (simp_all add: build_string_def Inr p 1 2 3 4 Let_def)
qed

lemma char_lexeme_window [simp]:
  "char_lexeme (set_window a b c l) = map_lex (set_window a b c) (char_lexeme l)"
proof -
  obtain esc r1 where 1: "is_escape_sequence (snd (rd_advance (m_reader l))) = (esc, r1)" by fastforce
  obtain s r2 where 2: "rd_slice r1 = (s, r2)" by fastforce
  show ?thesis
    by (cases esc; cases "escaped_char (rd_peek_last r1)") (simp_all add: char_lexeme_def Let_def 1 2)
qed

lemma build_char_window [simp]:
  "build_char (set_window a b c l) = map_lex (set_window a b c) (build_char l)"
proof (cases "char_lexeme l")
  case (Inl e)
  then show ?thesis by (simp add: build_char_def)
next
  case (Inr p)
  obtain x l1 where p: "p = (x, l1)" by fastforce
  obtain ok l2 where 1: "reader_match squote l1 = (ok, l2)" by fastforce
  obtain t l3 where 2: "build_token TkCharLiteral x l2 = (t, l3)" by fastforce
  obtain t' l4 where 3: "build_error ''unclosed or empty char found'' l2 = (t', l4)" by fastforce
  show ?thesis by (cases ok) (simp_all add: build_char_def Inr p 1 2 3)
qed

lemma map_lex_Inr_apsnd [simp]: "map_lex f (Inr p) = Inr (apsnd f p)"
  by (cases p) simp

lemma advance_one_window:
  "advance_one (set_window a b c l) = map_lex (set_window a b c) (advance_one l)"
proof -
  obtain x r1 where adv: "rd_advance (skip_comments (skip_insignificant False (m_reader l))) = (x, r1)"
    by fastforce
  show ?thesis
    by (cases "map_of switch_table x")
      (simp_all add: advance_one_def adv Let_def split: prod.splits)
qed

text \<open>The window of a lexer in use: there is a current token.\<close>

definition primed :: "lexer \<Rightarrow> bool" where
  "primed l \<longleftrightarrow> m_current_token l \<noteq> None"

lemma lex_advance_window:
  "lex_advance l =
     (case m_next_token l of
        Some t \<Rightarrow> Inr (t, set_window (m_current_token l) (Some t) None l)
      | None \<Rightarrow>
          (case advance_one l of
             Inl e \<Rightarrow> Inl e
           | Inr (t, l1) \<Rightarrow> Inr (t, set_window (m_current_token l) (Some t) None l1)))"
proof (cases "m_next_token l")
  case (Some t)
  then show ?thesis by (simp add: lex_advance_def set_window_def)
next
  case None
  have "l\<lparr>m_last_token := m_current_token l\<rparr> = set_window (m_current_token l) (m_current_token l) None l"
    using None by (simp add: set_window_def)
  then have "advance_one (l\<lparr>m_last_token := m_current_token l\<rparr>) =
      map_lex (set_window (m_current_token l) (m_current_token l) None) (advance_one l)"
    by (simp only: advance_one_window)
  with None show ?thesis
    by (auto simp: lex_advance_def Let_def set_window_def split: sum.splits)
qed

lemma lex_peek_next_advance:
  assumes "lex_peek_next l = Inr (t, l1)"
  shows "lex_advance l1 = lex_advance l" and "fst (projr (lex_advance l)) = t"
    and "m_current_token l1 = m_current_token l" and "m_last_token l1 = m_last_token l"
    and "m_next_token l1 = Some t"
proof -
  have "m_next_token l = Some t \<and> l1 = l \<or>
      m_next_token l = None \<and> (\<exists>l2. advance_one l = Inr (t, l2) \<and> l1 = l2\<lparr>m_next_token := Some t\<rparr>)"
    using assms by (auto simp: lex_peek_next_def split: option.splits sum.splits)
  then show "lex_advance l1 = lex_advance l" "fst (projr (lex_advance l)) = t"
    "m_current_token l1 = m_current_token l" "m_last_token l1 = m_last_token l"
    "m_next_token l1 = Some t"
    using advance_one_fwd(1) [of l t]
    by (auto simp: lex_advance_window lex_fwd_def set_window_def split: option.splits)
qed

subsection \<open>Punctuation\<close>

text \<open>What is written for each token type the switch can build, with the text of the token.\<close>

definition switch_texts :: "byte \<Rightarrow> switch_case \<Rightarrow> (string \<times> TokenType) list" where
  "switch_texts c sc =
     (case sc of
        Single t \<Rightarrow> [([c], t)]
      | Choice d t1 t2 \<Rightarrow> [([c, d], t1), ([c], t2)]
      | Choice2 d1 t1 d2 t2 t3 \<Rightarrow> [([c, d1], t1), ([c, d2], t2), ([c], t3)])"

definition switch_ok :: "byte \<times> switch_case \<Rightarrow> bool" where
  "switch_ok p \<longleftrightarrow>
     (case snd p of
        Single t \<Rightarrow> True
      | Choice d t1 t2 \<Rightarrow> d \<noteq> CHR '' '' \<and> d \<noteq> CHR ''/''
      | Choice2 d1 t1 d2 t2 t3 \<Rightarrow> d1 \<noteq> d2 \<and> d1 \<noteq> CHR '' '' \<and> d2 \<noteq> CHR '' '' \<and>
          d1 \<noteq> CHR ''/'' \<and> d2 \<noteq> CHR ''/'')"

definition punctuation :: "(string \<times> TokenType) list" where
  "punctuation =
     concat (map (\<lambda>(c, sc). switch_texts c sc) (butlast switch_table)) @
     [(''.'', TkDot), (''..'', TkDotDot), (''..='', TkDotDotEqual), (''...'', TkEllipse)]"

lemma switch_table_ok: "list_all switch_ok switch_table"
  by (simp add: switch_table_def switch_ok_def)

lemma switch_table_distinct: "distinct (map fst switch_table)"
  by (simp add: switch_table_def)

lemma switch_table_visible: "list_all (\<lambda>p. \<not> is_insignificant (fst p)) switch_table"
  by (simp add: switch_table_def is_insignificant_def is_blank_def)

lemma switch_texts_nth:
  assumes "(text, t) \<in> set (switch_texts c sc)"
  shows "\<exists>u. text = c # u \<and> length u \<le> 1"
  using assms by (auto simp: switch_texts_def split: switch_case.splits)

text \<open>The reader in front of a token whose first character may be a slash.\<close>

lemma token_start_slash:
  assumes r: "rest r = ws @ c # d # cs" and ws: "list_all is_insignificant ws"
    and c: "\<not> is_insignificant c" and d: "d \<noteq> CHR ''/''"
  shows "skip_comments (skip_insignificant False r) = skip_insignificant False r"
    and "rest (skip_insignificant False r) = c # d # cs"
proof -
  have "dropWhile is_insignificant (ws @ c # d # cs) = dropWhile is_insignificant (c # d # cs)"
    using ws by (intro dropWhile_append2) (auto simp: list_all_iff)
  then show r1: "rest (skip_insignificant False r) = c # d # cs"
    using r c by (simp add: rest_skip_insignificant)
  show "skip_comments (skip_insignificant False r) = skip_insignificant False r"
    by (rule skip_comments_id) (use r1 d in \<open>simp add: at_comment_def rd_peek_next_Cons2\<close>)
qed

text \<open>A token read from the mark: its lexeme is the text between the mark and the cursor.\<close>

lemma build_token_seek:
  assumes "m_reader l = seek n r0" and "m_current r0 = m_offset r0"
    and "rest r0 = text @ tail" and "n = length text"
  shows "tk_lexeme (fst (build_token t [] l)) = text"
    and "rest (m_reader (snd (build_token t [] l))) = tail"
  using assms fst_slice_seek [of r0 n] by (simp_all add: build_token_slice rest_seek)

lemma reader_match_step:
  assumes "m_reader l = seek n r0" and "rest (m_reader l) = d # cs"
  shows "reader_match c l = (d = c, if d = c then l\<lparr>m_reader := seek (Suc n) r0\<rparr> else l)"
  using assms by (simp add: reader_match_def rest_match_char seek_advance del: seek.simps)

lemma build_switch_text:
  assumes sc: "switch_ok (c, sc)" and entry: "(c # u, t) \<in> set (switch_texts c sc)"
    and l: "m_reader l = seek 1 r0" and r0: "rest r0 = c # u @ CHR '' '' # tail"
      "m_current r0 = m_offset r0"
  shows "tk_type (fst (build_switch sc l)) = t \<and> tk_lexeme (fst (build_switch sc l)) = c # u \<and>
    rest (m_reader (snd (build_switch sc l))) = CHR '' '' # tail"
proof -
  have rl: "rest (m_reader l) = u @ CHR '' '' # tail" by (simp add: l rest_seek r0 del: seek.simps)
  have one: "u = [] \<Longrightarrow> tk_lexeme (fst (build_token s [] l)) = c # u \<and>
      rest (m_reader (snd (build_token s [] l))) = CHR '' '' # tail" for s
    using build_token_seek [OF l r0(2), of "[c]" "CHR '' '' # tail" s] r0(1) by simp
  have two: "u = [d] \<Longrightarrow>
      tk_lexeme (fst (build_token s [] (l\<lparr>m_reader := seek 2 r0\<rparr>))) = c # u \<and>
      rest (m_reader (snd (build_token s [] (l\<lparr>m_reader := seek 2 r0\<rparr>)))) = CHR '' '' # tail" for s d
    using build_token_seek [of "l\<lparr>m_reader := seek 2 r0\<rparr>" 2 r0 "[c, d]" "CHR '' '' # tail" s] r0
    by simp
  have m: "reader_match x l = (hd (u @ CHR '' '' # tail) = x,
      if hd (u @ CHR '' '' # tail) = x then l\<lparr>m_reader := seek 2 r0\<rparr> else l)" for x
    using reader_match_step [OF l, of _ _ x] rl by (cases u) (auto simp: numeral_2_eq_2)
  show ?thesis
  proof (cases sc)
    case (Single s)
    then show ?thesis using entry one by (simp add: build_switch_def switch_texts_def)
  next
    case (Choice d t1 t2)
    with sc entry one two show ?thesis
      by (auto simp: build_switch_def switch_texts_def build_token2_def m switch_ok_def)
  next
    case (Choice2 d1 t1 d2 t2 t3)
    with sc entry one two show ?thesis
      by (auto simp: build_switch_def switch_texts_def build_token3_def m switch_ok_def)
  qed
qed

lemma build_dots_text:
  assumes "(text, t) \<in> {(''.'', TkDot), (''..'', TkDotDot), (''..='', TkDotDotEqual), (''...'', TkEllipse)}"
    and l: "m_reader l = seek 1 r0" and r0: "rest r0 = text @ CHR '' '' # tail"
      "m_current r0 = m_offset r0"
  shows "tk_type (fst (build_dots l)) = t \<and> tk_lexeme (fst (build_dots l)) = text \<and>
    rest (m_reader (snd (build_dots l))) = CHR '' '' # tail"
proof -
  let ?at = "\<lambda>n. l\<lparr>m_reader := seek n r0\<rparr>"
  have lexeme: "n = length text \<Longrightarrow> tk_lexeme (fst (build_token s [] (?at n))) = text \<and>
      rest (m_reader (snd (build_token s [] (?at n)))) = CHR '' '' # tail" for s n
    using build_token_seek [of "?at n" n r0 "text" "CHR '' '' # tail" s] r0 by simp
  have at1: "?at (Suc 0) = l" using l by simp
  have rest_at: "rest (seek n r0) = drop n (text @ CHR '' '' # tail)" for n
    by (simp add: rest_seek r0)
  have m: "drop n (text @ CHR '' '' # tail) = d # cs \<Longrightarrow>
      reader_match x (?at n) = (d = x, if d = x then ?at (Suc n) else ?at n)" for n d cs x
    using reader_match_step [of "?at n" n r0 d cs x] rest_at by (simp del: seek.simps)
  note m1 = m [of "Suc 0", unfolded at1]
  from assms(1) consider "text = ''.''" "t = TkDot" | "text = ''..''" "t = TkDotDot" |
    "text = ''..=''" "t = TkDotDotEqual" | "text = ''...''" "t = TkEllipse" by auto
  then show ?thesis
  proof cases
    case 1
    then show ?thesis using lexeme [of 1] m1 [of "CHR '' ''"] at1 by (simp add: build_dots_def del: seek.simps)
  next
    case 2
    then show ?thesis using lexeme [of 2] m1 [of "CHR ''.''"] m [of 2 "CHR '' ''"]
      by (simp add: build_dots_def numeral_2_eq_2 del: seek.simps)
  next
    case 3
    then show ?thesis using lexeme [of 3] m1 [of "CHR ''.''"] m [of 2 "CHR ''=''"]
      by (simp add: build_dots_def numeral_2_eq_2 numeral_3_eq_3 del: seek.simps)
  next
    case 4
    then show ?thesis using lexeme [of 3] m1 [of "CHR ''.''"] m [of 2 "CHR ''.''"]
      by (simp add: build_dots_def numeral_2_eq_2 numeral_3_eq_3 del: seek.simps)
  qed
qed

lemma advance_one_punctuation:
  assumes r: "rest (m_reader l) = ws @ txt @ CHR '' '' # tail" and ws: "list_all is_insignificant ws"
    and p: "(txt, t) \<in> set punctuation"
  shows "\<exists>k l'. advance_one l = Inr (k, l') \<and> tk_lexeme k = txt \<and> tk_type k = t \<and>
    rest (m_reader l') = CHR '' '' # tail"
proof -
  define r0 where "r0 = skip_insignificant False (m_reader l)"
  let ?l = "l\<lparr>m_reader := snd (rd_advance r0)\<rparr>"
  have l1: "m_reader ?l = seek 1 r0" by simp
  have cur: "m_current r0 = m_offset r0" by (simp add: r0_def)
  let ?dots = "{(''.'', TkDot), (''..'', TkDotDot), (''..='', TkDotDotEqual), (''...'', TkEllipse)}"
  consider (switch) c sc where "(c, sc) \<in> set (butlast switch_table)" "(txt, t) \<in> set (switch_texts c sc)"
    | (dots) "(txt, t) \<in> ?dots"
    using p by (auto simp: punctuation_def)
  then show ?thesis
  proof cases
    case switch
    have mem: "(c, sc) \<in> set switch_table" using switch(1) by (rule in_set_butlastD)
    have ok: "switch_ok (c, sc)" and vis: "\<not> is_insignificant c"
      using mem switch_table_ok switch_table_visible by (auto simp: list_all_iff)
    have tab: "map_of switch_table c = Some sc"
      using mem switch_table_distinct by simp
    obtain u where u: "txt = c # u" "length u \<le> 1" using switch_texts_nth [OF switch(2)] by blast
    define d ds where "d = hd (u @ CHR '' '' # tail)" and "ds = tl (u @ CHR '' '' # tail)"
    have dd: "u @ CHR '' '' # tail = d # ds" by (cases u) (simp_all add: d_def ds_def)
    have nslash: "d \<noteq> CHR ''/''"
      using switch(2) ok u by (cases sc) (auto simp: d_def switch_texts_def switch_ok_def)
    have r': "rest (m_reader l) = ws @ c # d # ds" using r u(1) dd by simp
    note start = token_start_slash [OF r' ws vis nslash, folded r0_def]
    have "advance_one l = Inr (build_switch sc ?l)"
      using start tab
      by (simp add: advance_one_def Let_def r0_def [symmetric] case_prod_beta fst_advance rd_peek_Cons)
    moreover have "tk_type (fst (build_switch sc ?l)) = t \<and> tk_lexeme (fst (build_switch sc ?l)) = c # u \<and>
        rest (m_reader (snd (build_switch sc ?l))) = CHR '' '' # tail"
      by (rule build_switch_text [OF ok _ l1 _ cur]) (use switch(2) u(1) start(2) dd in simp_all)
    ultimately show ?thesis using u(1) by (metis prod.collapse)
  next
    case dots
    then obtain u where u: "txt = CHR ''.'' # u" by auto
    have vis: "\<not> is_insignificant CHR ''.''" by (simp add: is_insignificant_def is_blank_def)
    have r': "rest (m_reader l) = ws @ CHR ''.'' # u @ CHR '' '' # tail" using r u by simp
    note start = token_start [OF r' ws vis, folded r0_def]
    have "advance_one l = Inr (build_dots ?l)"
      using start(1,2)
      by (simp add: advance_one_def Let_def r0_def [symmetric] case_prod_beta fst_advance rd_peek_Cons
          switch_table_def)
    moreover have "tk_type (fst (build_dots ?l)) = t \<and> tk_lexeme (fst (build_dots ?l)) = txt \<and>
        rest (m_reader (snd (build_dots ?l))) = CHR '' '' # tail"
      using build_dots_text [OF dots l1 _ cur] start(2) u by simp
    ultimately show ?thesis by (metis prod.collapse)
  qed
qed

text \<open>The end of the input: an \<open>Eof\<close> token, again and again.\<close>

lemma advance_one_eof:
  assumes "list_all is_insignificant (rest (m_reader l))"
  shows "\<exists>k l'. advance_one l = Inr (k, l') \<and> tk_lexeme k = [] \<and> tk_type k = TkEof \<and>
    rest (m_reader l') = []"
proof -
  define r0 where "r0 = skip_insignificant False (m_reader l)"
  have "dropWhile is_insignificant (rest (m_reader l)) = []"
    using assms by (simp add: list_all_iff)
  then have r0: "rest r0 = []" by (simp add: r0_def rest_skip_insignificant)
  then have "skip_comments r0 = r0"
    by (intro skip_comments_id) (simp add: at_comment_def rd_peek_Nil)
  moreover have adv: "rd_advance r0 = (NUL, r0)" using r0 by (simp add: rd_advance_def at_end_rest)
  ultimately have "advance_one l = Inr (build_token TkEof [] (l\<lparr>m_reader := r0\<rparr>))"
    by (simp add: advance_one_def r0_def [symmetric] switch_table_def build_switch_def)
  moreover have "fst (rd_slice r0) = []" by (simp add: rd_slice_def r0_def)
  ultimately have "tk_lexeme (fst (build_token TkEof [] (l\<lparr>m_reader := r0\<rparr>))) = []"
    "advance_one l = Inr (build_token TkEof [] (l\<lparr>m_reader := r0\<rparr>))"
    by (simp_all add: build_token_slice)
  then show ?thesis
    using r0 by (cases "build_token TkEof [] (l\<lparr>m_reader := r0\<rparr>)")
      (use build_token_rest [of TkEof "[]" "l\<lparr>m_reader := r0\<rparr>"]
         build_token_type [of TkEof "[]" "l\<lparr>m_reader := r0\<rparr>"] in simp)
qed

subsection \<open>Writing a token list and lexing it\<close>

datatype item =
    Word string
  | Number string
  | Fraction string string
  | Quoted string
  | Punct string TokenType

fun item_ok :: "item \<Rightarrow> bool" where
  "item_ok (Word w) \<longleftrightarrow> list_all is_identifier w \<and> w \<noteq> [] \<and> \<not> is_digit (hd w)"
| "item_ok (Number ds) \<longleftrightarrow> list_all is_digit ds \<and> ds \<noteq> []"
| "item_ok (Fraction ds fs) \<longleftrightarrow> list_all is_digit ds \<and> ds \<noteq> [] \<and> list_all is_digit fs \<and> fs \<noteq> []"
| "item_ok (Quoted s) \<longleftrightarrow> True"
| "item_ok (Punct s t) \<longleftrightarrow> (s, t) \<in> set punctuation"

fun item_text :: "item \<Rightarrow> string" where
  "item_text (Word w) = w"
| "item_text (Number ds) = ds"
| "item_text (Fraction ds fs) = ds @ CHR ''.'' # fs"
| "item_text (Quoted s) = dquote # escape_text s @ [dquote]"
| "item_text (Punct s t) = s"

fun item_token :: "item \<Rightarrow> TokenType \<times> string" where
  "item_token (Word w) = (word_type w, w)"
| "item_token (Number ds) = (TkIntegerLiteral, ds)"
| "item_token (Fraction ds fs) = (TkDecimalLiteral, ds @ CHR ''.'' # fs)"
| "item_token (Quoted s) = (TkStringLiteral, s)"
| "item_token (Punct s t) = (t, s)"

definition render :: "item list \<Rightarrow> string" where
  "render items = concat (map (\<lambda>i. item_text i @ '' '') items)"

lemma space_classes [simp]:
  "is_insignificant CHR '' ''" "\<not> is_identifier CHR '' ''" "\<not> is_digit CHR '' ''"
  by (simp_all add: is_insignificant_def is_blank_def is_identifier_def is_alnum_def is_digit_def)

lemma advance_one_item:
  assumes r: "rest (m_reader l) = ws @ item_text i @ CHR '' '' # tail"
    and ws: "list_all is_insignificant ws" and i: "item_ok i"
    and inv: "reader_inv (m_reader l)" and len: "length (m_source (m_reader l)) < 2 ^ 32"
  shows "\<exists>t l'. advance_one l = Inr (t, l') \<and> (tk_type t, tk_lexeme t) = item_token i \<and>
    rest (m_reader l') = CHR '' '' # tail"
proof (cases i)
  case (Word w)
  then show ?thesis using advance_one_word [of l ws w "CHR '' '' # tail"] r ws i by auto
next
  case (Number ds)
  then show ?thesis using advance_one_integer [of l ws ds "CHR '' '' # tail"] r ws i by auto
next
  case (Fraction ds fs)
  then show ?thesis using advance_one_decimal [of l ws ds fs "CHR '' '' # tail"] r ws i by auto
next
  case (Quoted s)
  then have "rest (m_reader l) = ws @ dquote # escape_text s @ dquote # CHR '' '' # tail" using r by simp
  from advance_one_string [OF this ws inv len decode_escape_text] Quoted show ?thesis by auto
next
  case (Punct s t)
  then show ?thesis using advance_one_punctuation [of l ws s tail t] r ws i by auto
qed

lemma lex_advance_fresh:
  assumes "m_next_token l = None" and "advance_one (l\<lparr>m_last_token := m_current_token l\<rparr>) = Inr (t, l')"
  shows "lex_advance l = Inr (t, l'\<lparr>m_current_token := Some t\<rparr>)"
  using assms by (simp add: lex_advance_def Let_def)

lemma token_stream_render:
  assumes "rest (m_reader l) = ws @ render items" and "list_all is_insignificant ws"
    and "list_all item_ok items" and "m_next_token l = None" and "reader_inv (m_reader l)"
    and "length (m_source (m_reader l)) < 2 ^ 32"
  shows "\<exists>ts. token_stream l = Inr ts \<and>
    map (\<lambda>t. (tk_type t, tk_lexeme t)) ts =
      map item_token items @ (if ws = [] \<and> items = [] then [] else [(TkEof, [])])"
  using assms
proof (induction items arbitrary: l ws)
  case Nil
  show ?case
  proof (cases "ws = []")
    case True
    then show ?thesis using Nil by (simp add: token_stream.simps lex_has_next_def at_end_rest render_def)
  next
    case False
    let ?l = "l\<lparr>m_last_token := m_current_token l\<rparr>"
    obtain k l' where k: "advance_one ?l = Inr (k, l')" "tk_lexeme k = []" "tk_type k = TkEof"
      "rest (m_reader l') = []"
      using advance_one_eof [of ?l] Nil by (auto simp: render_def)
    have "lex_advance l = Inr (k, l'\<lparr>m_current_token := Some k\<rparr>)"
      by (rule lex_advance_fresh [OF Nil.prems(4) k(1)])
    moreover have "token_stream (l'\<lparr>m_current_token := Some k\<rparr>) = Inr []"
      using k(4) by (simp add: token_stream.simps lex_has_next_def at_end_rest)
    moreover have "lex_has_next l" using Nil False by (simp add: lex_has_next_def at_end_rest render_def)
    ultimately have "token_stream l = Inr [k]" by (simp add: token_stream.simps [of l])
    then show ?thesis using False k by auto
  qed
next
  case (Cons i items)
  let ?l = "l\<lparr>m_last_token := m_current_token l\<rparr>"
  have r: "rest (m_reader ?l) = ws @ item_text i @ CHR '' '' # render items"
    using Cons.prems(1) by (simp add: render_def)
  obtain k l' where k: "advance_one ?l = Inr (k, l')" "(tk_type k, tk_lexeme k) = item_token i"
    "rest (m_reader l') = CHR '' '' # render items"
    using advance_one_item [OF r] Cons.prems by auto
  let ?m = "l'\<lparr>m_current_token := Some k\<rparr>"
  have adv: "lex_advance l = Inr (k, ?m)"
    by (rule lex_advance_fresh [OF Cons.prems(4) k(1)])
  have "lex_fwd ?l l'" by (rule advance_one_fwd(1) [OF k(1)])
  then have m: "m_next_token ?m = None" "reader_inv (m_reader ?m)" "length (m_source (m_reader ?m)) < 2 ^ 32"
    using Cons.prems by (auto simp: lex_fwd_def reader_fwd_def)
  obtain ts where ts: "token_stream ?m = Inr ts"
    "map (\<lambda>t. (tk_type t, tk_lexeme t)) ts = map item_token items @ [(TkEof, [])]"
    using Cons.IH [of ?m "'' ''", OF _ _ _ m] k(3) Cons.prems(3) by auto
  have "lex_has_next l" using r by (auto simp: lex_has_next_def at_end_rest)
  then have "token_stream l = Inr (k # ts)" using adv ts(1) by (simp add: token_stream.simps [of l])
  then show ?case using ts k(2) by auto
qed

subsection \<open>Properties\<close>

text \<open>C11: Lexing inverts writing. Take any list of words, integers, decimals, string literals
  (written with their escapes) and operators, write each with a blank behind it, and run the
  token loop over the text: the tokens that come back are, in order and with their exact
  lexemes, the ones written (keywords recognised, literals decoded through the escape buffer,
  every operator maximally munched), and one \<open>Eof\<close>.\<close>

theorem lex_written_tokens:
  assumes "list_all item_ok items" and "length (render items) < 2 ^ 32" and "items \<noteq> []"
  shows "\<exists>ts. token_stream (new_lexer file (render items) beyond escapes) = Inr ts \<and>
    map (\<lambda>t. (tk_type t, tk_lexeme t)) ts = map item_token items @ [(TkEof, [])]"
proof -
  let ?l = "new_lexer file (render items) beyond escapes"
  have "rest (m_reader ?l) = [] @ render items" "m_next_token ?l = None" "reader_inv (m_reader ?l)"
    "length (m_source (m_reader ?l)) < 2 ^ 32"
    using assms(2) by (simp_all add: new_lexer_def reader_inv_set_source) (simp add: set_source_def)
  from token_stream_render [OF this(1) _ assms(1) this(2-4)] assms(3) show ?thesis by simp
qed

theorem lex_written_tokens_witness:
  "\<exists>ts. token_stream (new_lexer 0 (''let x += 10 '' @ [dquote, backslash, CHR ''n'', dquote, CHR '' ''])
      (\<lambda>_. NUL) (arena_init 0)) = Inr ts \<and>
    map (\<lambda>t. (tk_type t, tk_lexeme t)) ts =
      [(TkLet, ''let''), (TkIdentifier, ''x''), (TkPlusEqual, ''+=''), (TkIntegerLiteral, ''10''),
       (TkStringLiteral, [newline]), (TkEof, [])]"
  using lex_written_tokens [of "[Word ''let'', Word ''x'', Punct ''+='' TkPlusEqual, Number ''10'', Quoted [newline]]"
      0 "\<lambda>_. NUL" "arena_init 0"]
  by (simp add: render_def escape_text_def escape_char_def punctuation_def switch_table_def
      switch_texts_def word_type_def g_keywords_def is_identifier_def is_alnum_def is_digit_def)

text \<open>An integer in front of a range: digits followed by \<open>..\<close>, or by anything that is neither
  a digit nor a point, are one integer literal, and the input behind them is untouched. Leading
  blanks are skipped.\<close>

theorem lex_integer_before_range:
  assumes "rest (m_reader l) = ws @ ds @ tail" and "list_all is_insignificant ws"
    and "list_all is_digit ds" "ds \<noteq> []"
    and "tail \<noteq> [] \<longrightarrow> \<not> is_digit (hd tail)" "take 1 tail = ''.'' \<longrightarrow> take 2 tail = ''..''"
  shows "\<exists>t l'. advance_one l = Inr (t, l') \<and> tk_lexeme t = ds \<and> tk_type t = TkIntegerLiteral \<and>
    rest (m_reader l') = tail"
  using assms by (rule advance_one_integer)

theorem lex_integer_before_range_witness:
  "\<exists>t l'. advance_one (new_lexer 0 '' 10..=20'' (\<lambda>_. NUL) (arena_init 0)) = Inr (t, l') \<and>
    tk_lexeme t = ''10'' \<and> tk_type t = TkIntegerLiteral \<and> rest (m_reader l') = ''..=20''"
  using lex_integer_before_range [of "new_lexer 0 '' 10..=20'' (\<lambda>_. NUL) (arena_init 0)" "'' ''" "''10''" "''..=20''"]
  by (simp add: new_lexer_def is_digit_def)

text \<open>C19: A decimal point at the very end of the file is decided by memory that does not belong to
  the file. When the unread input is blanks, digits and a point, whatever was in front of it, the next token is an
  integer literal of these digits if the byte behind the file is a point as well, and otherwise the error that a digit was
  expected: \<open>peek_next\<close> tests \<open>offset + 1 > size\<close> where it means \<open>>=\<close>, so the lexer reads that byte.\<close>

theorem lex_point_reads_past_end:
  assumes "rest (m_reader l) = ws @ ds @ ''.''" and "list_all is_insignificant ws"
    and "list_all is_digit ds" "ds \<noteq> []"
  shows "\<exists>t l'. advance_one l = Inr (t, l') \<and>
    (tk_type t, tk_lexeme t) =
      (if m_beyond (m_reader l) (length (m_source (m_reader l))) = CHR ''.'' then (TkIntegerLiteral, ds)
       else (TkError, ''expected digit after '' @ [squote, CHR ''.'', squote]))"
proof -
  obtain d es where dc: "ds = d # es" using assms(4) by (cases ds) auto
  then have d: "is_digit d" and es: "list_all is_digit es" using assms(3) by auto
  define r0 where "r0 = skip_insignificant False (m_reader l)"
  let ?l = "l\<lparr>m_reader := snd (rd_advance r0)\<rparr>"
  have r': "rest (m_reader l) = ws @ d # es @ ''.''" using assms(1) dc by simp
  note start = advance_one_digit [OF r' assms(2) d, folded r0_def]
  define r1 where "r1 = seek (length ds) r0"
  have scan: "scan_digits (m_reader ?l) = r1"
    using scan_digits_seek [of "snd (rd_advance r0)" es "''.''"] es start(2)
    by (simp add: rest_advance r1_def dc is_digit_def)
  have rest1: "rest r1 = ''.''" using start(2) by (simp add: r1_def rest_seek rest_advance dc)
  have "reader_fwd (m_reader l) r1"
    using scan reader_fwd_trans [OF reader_fwd_skip_insignificant reader_fwd_trans [OF reader_fwd_advance reader_fwd_scan_digits]]
    by (simp add: r0_def) metis
  then have src: "m_source r1 = m_source (m_reader l)" "m_beyond r1 = m_beyond (m_reader l)"
    by (simp_all add: reader_fwd_def)
  have "m_offset r1 + 1 = length (m_source r1)"
    using arg_cong [OF rest1, of length] by (simp add: rest_def)
  then have behind: "rd_peek_next r1 = m_beyond (m_reader l) (length (m_source (m_reader l)))"
    using src by (simp add: rd_peek_next_def rd_byte_at_def)
  have point: "rd_peek r1 = CHR ''.''" using rest1 by (simp add: rd_peek_rest)
  have "rest (snd (rd_advance r1)) = []" using rest1 by (simp add: rest_advance)
  then have stop: "\<not> is_digit (rd_peek (snd (rd_advance r1)))" by (simp add: rd_peek_rest is_digit_def)
  have slice: "fst (rd_slice r1) = ds"
    using fst_slice_seek [of r0 "length ds"] start(2,3) by (simp add: r1_def dc)
  show ?thesis
  proof (cases "rd_peek_next r1 = CHR ''.''")
    case True
    then have "build_digit ?l = build_token TkIntegerLiteral [] (?l\<lparr>m_reader := r1\<rparr>)"
      using scan by (simp add: build_digit_def Let_def)
    then show ?thesis using start(1) True behind slice
      by (simp add: build_token_def Let_def split: prod.splits)
  next
    case False
    then have "build_digit ?l = build_error (''expected digit after '' @ [squote, CHR ''.'', squote]) (?l\<lparr>m_reader := snd (rd_advance r1)\<rparr>)"
      using scan point stop by (simp add: build_digit_def Let_def)
    then show ?thesis using start(1) False behind
      by (simp add: build_error_def build_token_def Let_def)
  qed
qed

theorem lex_point_reads_past_end_witness:
  "\<exists>t l'. advance_one (new_lexer 0 '' 12.'' (\<lambda>_. CHR ''.'') (arena_init 0)) = Inr (t, l') \<and> tk_type t = TkIntegerLiteral"
  using lex_point_reads_past_end [of "new_lexer 0 '' 12.'' (\<lambda>_. CHR ''.'') (arena_init 0)" "'' ''" "''12''"]
  by (simp add: new_lexer_def is_digit_def) (auto simp: set_source_def)

text \<open>C17: A string literal that is not closed before the end of the file is reported as an error
  token, not as an exception and not by reading on, whatever escapes it contains.\<close>

theorem lex_unclosed_string:
  assumes "rest (m_reader l) = ws @ dquote # body" and "list_all is_insignificant ws"
    and "reader_inv (m_reader l)" and "length (m_source (m_reader l)) < 2 ^ 32"
    and "snd (decode_body body) = []"
  shows "\<exists>t l'. advance_one l = Inr (t, l') \<and> tk_type t = TkError \<and>
    tk_lexeme t = ''unclosed string found'' \<and> rest (m_reader l') = []"
proof -
  obtain r1 where r1: "advance_one l = build_string (l\<lparr>m_reader := r1\<rparr>)" "after_quote r1" "rest r1 = body"
    using dquote_start [OF assms(1-4)] by blast
  then show ?thesis using build_string_unclosed [of "l\<lparr>m_reader := r1\<rparr>"] assms(5) by simp
qed

theorem lex_unclosed_string_witness:
  "\<exists>t l'. advance_one (new_lexer 0 (dquote # ''ab'' @ [backslash, dquote]) (\<lambda>_. NUL) (arena_init 0)) =
      Inr (t, l') \<and> tk_type t = TkError \<and> tk_lexeme t = ''unclosed string found'' \<and>
    rest (m_reader l') = []"
  using lex_unclosed_string [of "new_lexer 0 (dquote # ''ab'' @ [backslash, dquote]) (\<lambda>_. NUL) (arena_init 0)"
      "[]" "''ab'' @ [backslash, dquote]"]
  by (simp add: new_lexer_def reader_inv_set_source escape_letters_def) (simp add: set_source_def)

lemma token_stream_exception:
  assumes "reader_inv (m_reader l)" and "length (m_source (m_reader l)) < 2 ^ 32"
    and "token_stream l = Inl e"
  shows "\<exists>t. e = Frontend t ''unexpected token found'' \<and> tk_type t = TkError"
  using assms
proof (induction l rule: token_stream.induct)
  case (1 l)
  let ?l = "l\<lparr>m_last_token := m_current_token l\<rparr>"
  have nx: "lex_has_next l" using "1.prems"(3) by (auto simp: token_stream.simps split: if_splits)
  show ?case
  proof (cases "lex_advance l")
    case (Inl e')
    then have "e' = e" using "1.prems"(3) nx by (simp add: token_stream.simps)
    moreover have "advance_one ?l = Inl e'"
      using Inl by (auto simp: lex_advance_def Let_def split: option.splits sum.splits)
    ultimately show ?thesis using advance_one_exception [of ?l e] "1.prems" by simp
  next
    case (Inr p)
    obtain t l' where p: "p = (t, l')" by fastforce
    note frame = lex_advance_frame(1) [OF Inr [unfolded p]]
    have "token_stream l' = Inl e"
      using "1.prems"(3) nx Inr p by (auto simp: token_stream.simps [of l] split: sum.splits)
    then show ?thesis
      using "1.IH" [OF nx Inr [unfolded p] refl] frame "1.prems" by (auto simp: reader_fwd_def)
  qed
qed

text \<open>The loops over a whole file end; they yield at most one token per byte and nothing undefined happens: the only
  exception is that of an unexpected character, at an error token. (Its report is another loop, see \<open>Thrown\<close>.)\<close>

lemma token_stream_ends:
  assumes "length contents < 2 ^ 32"
  shows "case token_stream (new_lexer file contents beyond escapes) of
      Inl e \<Rightarrow> \<exists>t. e = Frontend t ''unexpected token found'' \<and> tk_type t = TkError
    | Inr ts \<Rightarrow> length ts \<le> length contents"
proof -
  let ?l = "new_lexer file contents beyond escapes"
  have l: "reader_inv (m_reader ?l)" "m_source (m_reader ?l) = contents" "m_offset (m_reader ?l) = 0"
    "m_next_token ?l = None"
    by (simp_all add: new_lexer_def reader_inv_set_source) (simp_all add: set_source_def)
  show ?thesis
    using token_stream_exception [of ?l] token_stream_length [of ?l] l assms
    by (auto split: sum.split)
qed

text \<open>C16: Looking one token ahead is invisible: after \<open>peek_next\<close> the next \<open>advance\<close> returns the
  token that was shown and leaves the very state it would have left without the look, and
  the current and last token are untouched.\<close>

theorem lex_lookahead_invisible:
  assumes "lex_peek_next l = Inr (t, l1)"
  shows "\<exists>l2. lex_advance l1 = Inr (t, l2) \<and> lex_advance l = Inr (t, l2) \<and>
    lex_peek_next l1 = Inr (t, l1) \<and>
    m_current_token l1 = m_current_token l \<and> m_last_token l1 = m_last_token l"
proof -
  note look = lex_peek_next_advance [OF assms]
  have "lex_advance l1 = Inr (t, set_window (m_current_token l1) (Some t) None l1)"
    using look(5) by (simp add: lex_advance_window)
  then show ?thesis using look by (simp add: lex_peek_next_def)
qed

theorem lex_lookahead_invisible_witness:
  "let l = new_lexer 0 ''x = 1'' (\<lambda>_. NUL) (arena_init 0)
   in \<exists>t l1 l2. lex_peek_next l = Inr (t, l1) \<and> tk_lexeme t = ''x'' \<and> lex_advance l1 = Inr (t, l2) \<and>
     lex_advance l = Inr (t, l2)"
proof -
  let ?l = "new_lexer 0 ''x = 1'' (\<lambda>_. NUL) (arena_init 0)"
  obtain t l' where t: "advance_one ?l = Inr (t, l')" "tk_lexeme t = ''x''"
    using advance_one_word [of ?l "[]" "''x''" "'' = 1''"]
    by (auto simp: new_lexer_def is_identifier_def is_alnum_def is_digit_def)
  then have "lex_peek_next ?l = Inr (t, l'\<lparr>m_next_token := Some t\<rparr>)"
    by (simp add: lex_peek_next_def new_lexer_def)
  from lex_lookahead_invisible [OF this] this t(2) show ?thesis by auto
qed

end
