(* ===== verification/Scope_Table.thy ===== *)
theory Scope_Table
  imports Nodes
begin

section \<open>Scopes and global symbols (\<open>scope_table.cpp\<close>, \<open>scope_table.hpp\<close>, \<open>module_manager.cpp\<close>)\<close>

text \<open>
  Each module has a stack of scopes, kept as a table that only grows: \<open>m_level\<close> is the scope
  in use. A scope maps names to nodes and lists the modules imported into it. While
  \<open>m_locked_level\<close> is set, scopes above that level take no names. Names declared public at
  level 0 are also entered into a table all modules share.
\<close>

record scope_data =
  sd_imports :: "nat list"
  sd_scope :: "(string, ptr) hash_map"
  sd_flags :: "32 word"

definition SF_HasReturn :: "32 word" where "SF_HasReturn = 1"

definition empty_scope :: scope_data where
  "empty_scope = \<lparr>sd_imports = [], sd_scope = [], sd_flags = 0\<rparr>"

record scope_table =
  m_scope_file_id :: "16 word"
  m_level :: "16 word"
  m_locked_level :: "16 word"
  m_table :: "scope_data list"

definition UNLOCKED_LEVEL :: "16 word" where "UNLOCKED_LEVEL = - 1"

definition new_scope_table :: scope_table where
  "new_scope_table = \<lparr>m_scope_file_id = 0, m_level = 0, m_locked_level = UNLOCKED_LEVEL,
     m_table = replicate 6 empty_scope\<rparr>"

datatype availability = Always | WhenImported

record global_symbol =
  gs_node :: ptr
  gs_availability :: availability
  gs_file_id :: nat

text \<open>What the frontend of one module works on: the nodes, the attributes, the symbols of all
  modules and the scope table of this one.\<close>

record front = store +
  g_global_symbols :: "(string, global_symbol list) hash_map"
  scopes :: scope_table

subsection \<open>Operations of the table\<close>

definition set_file_id :: "16 word \<Rightarrow> scope_table \<Rightarrow> scope_table" where
  "set_file_id i t = t\<lparr>m_scope_file_id := i\<rparr>"

definition set_lock :: "16 word \<Rightarrow> scope_table \<Rightarrow> scope_table" where
  "set_lock level t = t\<lparr>m_locked_level := level\<rparr>"

definition upd_level :: "nat \<Rightarrow> (scope_data \<Rightarrow> scope_data) \<Rightarrow> scope_table \<Rightarrow> scope_table" where
  "upd_level i f t = t\<lparr>m_table := (m_table t)[i := f (m_table t ! i)]\<rparr>"

text \<open>\<open>get_scope_data\<close> does not check its index. Reading outside the table is undefined.\<close>

definition get_scope_data :: "nat \<Rightarrow> scope_table \<Rightarrow> scope_data option" where
  "get_scope_data i t = (if i < length (m_table t) then Some (m_table t ! i) else None)"

definition go_down :: "scope_table \<Rightarrow> scope_table" where
  "go_down t =
     (let t1 = t\<lparr>m_level := m_level t + 1\<rparr>;
          t2 = (if unat (m_level t1) \<ge> length (m_table t1)
                then t1\<lparr>m_table := m_table t1 @ [empty_scope]\<rparr> else t1)
      in upd_level (unat (m_level t2)) (\<lambda>d. d\<lparr>sd_flags := 0\<rparr>) t2)"

text \<open>\<open>clear_level\<close> tests the level it is given and clears the one in use.\<close>

definition clear_level :: "16 word \<Rightarrow> scope_table \<Rightarrow> scope_table" where
  "clear_level level t =
     (if unat level < length (m_table t)
      then upd_level (unat (m_level t)) (\<lambda>d. d\<lparr>sd_imports := [], sd_scope := hm_clear (sd_scope d)\<rparr>) t
      else t)"

definition go_up :: "scope_table \<Rightarrow> scope_table" where
  "go_up t =
     (if m_level t \<le> 0 then t
      else let t1 = clear_level (m_level t) t in t1\<lparr>m_level := m_level t1 - 1\<rparr>)"

definition get_current_flags :: "scope_table \<Rightarrow> 32 word option" where
  "get_current_flags t = map_option sd_flags (get_scope_data (unat (m_level t)) t)"

definition set_current_flags :: "32 word \<Rightarrow> scope_table \<Rightarrow> scope_table" where
  "set_current_flags f t = upd_level (unat (m_level t)) (\<lambda>d. d\<lparr>sd_flags := f\<rparr>) t"

definition get_lower_flags :: "scope_table \<Rightarrow> 32 word option" where
  "get_lower_flags t = map_option sd_flags (get_scope_data (unat (m_level t + 1)) t)"

definition add_import :: "nat \<Rightarrow> scope_table \<Rightarrow> scope_table" where
  "add_import file_id t =
     upd_level (unat (m_level t)) (\<lambda>d. d\<lparr>sd_imports := sd_imports d @ [file_id]\<rparr>) t"

text \<open>\<open>get_scope(level)\<close>: the index of the scope, the table grown when needed (by \<open>level\<close>
  scopes, whatever its size was). \<open>None\<close> is the default argument.\<close>

definition get_scope :: "nat option \<Rightarrow> scope_table \<Rightarrow> nat \<times> scope_table" where
  "get_scope level t =
     (case level of
        Some l \<Rightarrow>
          (l, if l \<ge> length (m_table t)
              then t\<lparr>m_table := m_table t @ replicate l empty_scope\<rparr> else t)
      | None \<Rightarrow> (unat (m_level t), t))"

subsection \<open>Symbols of all modules\<close>

definition declare_global_symbol :: "string \<Rightarrow> global_symbol \<Rightarrow> 'a front_scheme \<Rightarrow> 'a front_scheme" where
  "declare_global_symbol name symb s =
     s\<lparr>g_global_symbols := hm_modify name [] (\<lambda>syms. syms @ [symb]) (g_global_symbols s)\<rparr>"

definition find_global_symbol :: "'a front_scheme \<Rightarrow> string \<Rightarrow> global_symbol list" where
  "find_global_symbol s name = (case hm_find (g_global_symbols s) name of None \<Rightarrow> [] | Some l \<Rightarrow> l)"

definition add_to_scope ::
    "symbol \<Rightarrow> ptr \<Rightarrow> bool \<Rightarrow> nat option \<Rightarrow> 'a front_scheme \<Rightarrow> 'a front_scheme" where
  "add_to_scope symb p is_public level s =
     (let t = scopes s
      in if m_level t > m_locked_level t \<and> m_locked_level t \<noteq> UNLOCKED_LEVEL then s
         else
           let (i, t1) = get_scope level t;
               t2 = upd_level i (\<lambda>d. d\<lparr>sd_scope := snd (hm_emplace (sy_name symb) p (sd_scope d))\<rparr>) t1;
               s1 = s\<lparr>scopes := t2\<rparr>
           in if is_public \<and> m_level t2 = 0
              then declare_global_symbol (sy_name symb)
                     \<lparr>gs_node = p, gs_availability = WhenImported,
                      gs_file_id = unat (m_scope_file_id t2)\<rparr> s1
              else s1)"

text \<open>\<open>get_or_add_symbol<T>\<close>: the node the scope has for the name, whatever class it is of
  (the code casts it unseen), or a new one.\<close>

definition get_or_add_symbol ::
    "node \<Rightarrow> symbol \<Rightarrow> bool \<Rightarrow> nat option \<Rightarrow> 'a front_scheme \<Rightarrow> ptr \<times> 'a front_scheme" where
  "get_or_add_symbol new_node symb is_public level s =
     (let (i, t1) = get_scope level (scopes s);
          s1 = s\<lparr>scopes := t1\<rparr>
      in case hm_find (sd_scope (m_table t1 ! i)) (sy_name symb) of
           None \<Rightarrow> (let (p, s2) = alloc new_node s1 in (p, add_to_scope symb p is_public level s2))
         | Some p \<Rightarrow> (p, s1))"

subsection \<open>Finding a name\<close>

text \<open>The loop over the levels, from the outermost to the one in use: the first entry found,
  with the modules imported on the way.\<close>

fun search_levels :: "string \<Rightarrow> scope_data list \<Rightarrow> nat list \<Rightarrow> ptr option \<times> nat list" where
  "search_levels name [] found = (None, found)"
| "search_levels name (d # ds) found =
     (let found1 = found @ sd_imports d
      in case hm_find (sd_scope d) name of
           Some p \<Rightarrow> (Some p, found1)
         | None \<Rightarrow> search_levels name ds found1)"

definition levels_in_use :: "scope_table \<Rightarrow> scope_data list" where
  "levels_in_use t = take (unat (m_level t) + 1) (m_table t)"

definition find_local_symbol :: "string \<Rightarrow> scope_table \<Rightarrow> ptr \<times> nat list" where
  "find_local_symbol name t =
     (case search_levels name (levels_in_use t) [] of
        (Some p, found) \<Rightarrow> (p, found) | (None, found) \<Rightarrow> (Null, found))"

definition visible_global :: "nat list \<Rightarrow> global_symbol \<Rightarrow> bool" where
  "visible_global found g \<longleftrightarrow> gs_availability g = Always \<or> gs_file_id g \<in> set found"

definition find_symbol :: "'a front_scheme \<Rightarrow> string \<Rightarrow> ptr" where
  "find_symbol s name =
     (let (p, found) = find_local_symbol name (scopes s)
      in if p \<noteq> Null then p
         else case search_levels name (levels_in_use (scopes s)) found of
                (Some q, _) \<Rightarrow> q
              | (None, found1) \<Rightarrow>
                  (case filter (visible_global found1) (find_global_symbol s name) of
                     [] \<Rightarrow> Null | g # _ \<Rightarrow> gs_node g))"

definition has_symbol :: "'a front_scheme \<Rightarrow> string \<Rightarrow> bool" where
  "has_symbol s name \<longleftrightarrow> find_symbol s name \<noteq> Null"

text \<open>Symbol lookup as the type it is asked for: \<open>find_symbol<T>\<close> for types.\<close>

definition find_type_symbol :: "'a front_scheme \<Rightarrow> string \<Rightarrow> type_node option" where
  "find_type_symbol s name = as_type s (find_symbol s name)"

subsection \<open>The table never runs out of scopes\<close>

definition scope_inv :: "scope_table \<Rightarrow> bool" where
  "scope_inv t \<longleftrightarrow> 6 \<le> length (m_table t) \<and> unat (m_level t) < length (m_table t)"

lemma scope_inv_new [inv_intros]: "scope_inv new_scope_table"
  by (simp add: scope_inv_def new_scope_table_def)

lemma upd_level_frame [simp, frame_simps]:
  "m_level (upd_level i f t) = m_level t" "length (m_table (upd_level i f t)) = length (m_table t)"
  "m_locked_level (upd_level i f t) = m_locked_level t"
  "m_scope_file_id (upd_level i f t) = m_scope_file_id t"
  by (simp_all add: upd_level_def)

lemma scope_inv_upd [inv_intros]: "scope_inv t \<Longrightarrow> scope_inv (upd_level i f t)"
  by (simp add: scope_inv_def)

lemma scope_inv_lock [inv_intros]: "scope_inv t \<Longrightarrow> scope_inv (set_lock l t)"
  by (simp add: scope_inv_def set_lock_def)

lemma scope_inv_file [inv_intros]: "scope_inv t \<Longrightarrow> scope_inv (set_file_id l t)"
  by (simp add: scope_inv_def set_file_id_def)

lemma unat_Suc_le: "unat (l + 1 :: 16 word) \<le> unat l + 1"
  by (simp add: unat_word_ariths le_SucI)

lemma scope_inv_go_down [inv_intros]:
  assumes "scope_inv t"
  shows "scope_inv (go_down t)"
  using assms unat_Suc_le [of "m_level t"] by (auto simp: scope_inv_def go_down_def Let_def)

lemma scope_inv_clear [inv_intros]: "scope_inv t \<Longrightarrow> scope_inv (clear_level l t)"
  by (simp add: clear_level_def scope_inv_upd)

lemma scope_inv_go_up [inv_intros]:
  assumes "scope_inv t"
  shows "scope_inv (go_up t)"
proof (cases "m_level t = 0")
  case True
  with assms show ?thesis by (simp add: go_up_def)
next
  case False
  then have "0 < unat (m_level t)" by (simp add: unat_gt_0)
  then have "unat (m_level t - 1) < unat (m_level t)" using False by (simp add: unat_minus_one)
  moreover have "\<not> m_level t \<le> 0" using False by (simp add: word_le_0_iff)
  moreover have "length (m_table (clear_level l t)) = length (m_table t)" "m_level (clear_level l t) = m_level t" for l
    by (simp_all add: clear_level_def)
  ultimately show ?thesis using assms by (auto simp: go_up_def Let_def scope_inv_def)
qed

lemma scope_inv_get_scope [inv_intros]: "scope_inv t \<Longrightarrow> scope_inv (snd (get_scope l t))"
  by (auto simp: get_scope_def scope_inv_def split: option.splits)

lemma scopes_declare_global [simp, frame_simps]: "scopes (declare_global_symbol n g s) = scopes s"
  by (simp add: declare_global_symbol_def)

lemma scope_inv_add_to_scope [inv_intros]:
  "scope_inv (scopes s) \<Longrightarrow> scope_inv (scopes (add_to_scope symb p pub l s))"
  using scope_inv_get_scope [of "scopes s" l]
  by (auto simp: add_to_scope_def Let_def scope_inv_upd split: prod.splits)

subsection \<open>Blocks\<close>

text \<open>What can happen while a scope is open: names and imports are added to it, its flags are
  set, anything but the scope table changes, and a scope is opened in it and closed again
  (\<open>AutoScope\<close>). In front of the scope that is opened names may be put into it, by their level: a loop
  declares its variables in the scope of its body this way (\<open>bind_next\<close>). The rules keep the nesting
  below the width of \<open>m_level\<close>.\<close>

definition in_scope :: "(scope_table \<Rightarrow> scope_table) \<Rightarrow> 'a front_scheme \<Rightarrow> 'a front_scheme" where
  "in_scope f s = s\<lparr>scopes := f (scopes s)\<rparr>"

definition bind_next :: "(symbol \<times> ptr \<times> bool) list \<Rightarrow> 'a front_scheme \<Rightarrow> 'a front_scheme" where
  "bind_next binds s =
     fold (\<lambda>(symb, p, pub). add_to_scope symb p pub (Some (unat (m_level (scopes s)) + 1))) binds s"

inductive block :: "'a front_scheme \<Rightarrow> 'a front_scheme \<Rightarrow> bool" where
  block_start: "block s s"
| block_add: "block s s' \<Longrightarrow> block s (add_to_scope symb p pub None s')"
| block_import: "block s s' \<Longrightarrow> block s (in_scope (add_import i) s')"
| block_flags: "block s s' \<Longrightarrow> block s (in_scope (set_current_flags f) s')"
| block_other: "block s s' \<Longrightarrow> scopes s'' = scopes s' \<Longrightarrow> block s s''"
| block_nested: "block s s' \<Longrightarrow> m_level (scopes s') < - 1 \<Longrightarrow> block (in_scope go_down (bind_next binds s')) s'' \<Longrightarrow>
    block s (in_scope go_up s'')"

lemma in_scope_scopes [simp]: "scopes (in_scope f s) = f (scopes s)"
  by (simp add: in_scope_def)

text \<open>The scopes below the open one are untouched; the open one keeps its names.\<close>

definition block_frame :: "scope_table \<Rightarrow> scope_table \<Rightarrow> bool" where
  "block_frame t t' \<longleftrightarrow>
     m_level t' = m_level t \<and> scope_inv t' \<and>
     take (unat (m_level t)) (m_table t') = take (unat (m_level t)) (m_table t) \<and>
     (\<forall>name p. hm_find (sd_scope (m_table t ! unat (m_level t))) name = Some p \<longrightarrow>
        hm_find (sd_scope (m_table t' ! unat (m_level t))) name = Some p)"

lemma block_frame_refl: "scope_inv t \<Longrightarrow> block_frame t t"
  by (simp add: block_frame_def)

lemma block_frame_trans: "block_frame a b \<Longrightarrow> block_frame b c \<Longrightarrow> block_frame a c"
  by (simp add: block_frame_def)

lemma block_frame_upd:
  assumes "scope_inv t"
    and "\<And>d name p. hm_find (sd_scope d) name = Some p \<Longrightarrow> hm_find (sd_scope (f d)) name = Some p"
  shows "block_frame t (upd_level (unat (m_level t)) f t)"
  using assms by (auto simp: block_frame_def scope_inv_def upd_level_def)

lemma block_frame_add:
  "scope_inv (scopes s) \<Longrightarrow> block_frame (scopes s) (scopes (add_to_scope symb p pub None s))"
proof -
  assume inv: "scope_inv (scopes s)"
  have "block_frame (scopes s) (upd_level (unat (m_level (scopes s)))
      (\<lambda>d. d\<lparr>sd_scope := snd (hm_emplace (sy_name symb) p (sd_scope d))\<rparr>) (scopes s))"
    by (rule block_frame_upd [OF inv]) auto
  then show ?thesis using block_frame_refl [OF inv]
    by (auto simp: add_to_scope_def Let_def get_scope_def)
qed

lemma next_level: "l < - 1 \<Longrightarrow> unat (l + 1 :: 16 word) = unat l + 1"
  by (simp add: unat_word_ariths word_less_nat_alt unsigned_minus_1_eq_mask mask_eq_exp_minus_1)

lemma go_down_level: "m_level (go_down t) = m_level t + 1"
  by (simp add: go_down_def Let_def)

lemma go_down_take:
  assumes "scope_inv t" and "m_level t < - 1"
  shows "take (unat (m_level t + 1)) (m_table (go_down t)) = take (unat (m_level t) + 1) (m_table t)"
proof -
  have u: "unat (m_level t + 1) = unat (m_level t) + 1"
    using assms(2) by (rule next_level)
  then show ?thesis
    using assms(1) by (auto simp: go_down_def Let_def upd_level_def scope_inv_def)
qed

lemma take_Suc_frame:
  assumes "take (Suc n) xs = take (Suc n) ys" and "n < length ys"
  shows "take n xs = take n ys" and "xs ! n = ys ! n"
  using assms by (metis lessI min.absorb1 order_less_imp_le take_take, metis lessI nth_take)

lemma go_up_table:
  assumes "m_level t \<noteq> 0" and "scope_inv t"
  shows "m_level (go_up t) = m_level t - 1"
    and "take (unat (m_level t)) (m_table (go_up t)) = take (unat (m_level t)) (m_table t)"
  using assms by (auto simp: go_up_def Let_def clear_level_def upd_level_def scope_inv_def word_le_0_iff)

lemma add_to_scope_level [simp, frame_simps]:
  "m_level (scopes (add_to_scope symb p pub l s)) = m_level (scopes s)"
  by (auto simp: add_to_scope_def Let_def get_scope_def split: option.splits)

text \<open>Names put into the next scope leave the ones in use alone.\<close>

definition spares :: "nat \<Rightarrow> scope_table \<Rightarrow> scope_table \<Rightarrow> bool" where
  "spares n t t' \<longleftrightarrow> m_level t' = m_level t \<and> (scope_inv t \<longrightarrow> scope_inv t') \<and>
     (n \<le> length (m_table t) \<longrightarrow> n \<le> length (m_table t') \<and> take n (m_table t') = take n (m_table t)) \<and>
     ((\<forall>i. n < i \<longrightarrow> i < length (m_table t) \<longrightarrow> sd_scope (m_table t ! i) = [] \<and> sd_imports (m_table t ! i) = []) \<longrightarrow>
      (\<forall>i. n < i \<longrightarrow> i < length (m_table t') \<longrightarrow> sd_scope (m_table t' ! i) = [] \<and> sd_imports (m_table t' ! i) = []))"

lemma spares_refl: "spares n t t"
  by (simp add: spares_def)

lemma spares_trans: "spares n a b \<Longrightarrow> spares n b c \<Longrightarrow> spares n a c"
  unfolding spares_def by (elim conjE) (intro conjI impI; simp)

lemma spares_upd: "spares n t (upd_level n f t)"
  by (auto simp: spares_def upd_level_def scope_inv_def)

lemma spares_get_scope: "spares n t (snd (get_scope (Some n) t))"
  by (auto simp: spares_def get_scope_def scope_inv_def nth_append empty_scope_def)

lemma spares_add: "spares n (scopes s) (scopes (add_to_scope symb p pub (Some n) s))"
  using spares_trans [OF spares_get_scope spares_upd, of n "scopes s"] spares_refl [of n "scopes s"]
  by (auto simp: add_to_scope_def Let_def get_scope_def)

lemma bind_next_spares: "spares (unat (m_level (scopes s)) + 1) (scopes s) (scopes (bind_next binds s))"
proof -
  have "spares n (scopes s) (scopes (fold (\<lambda>(symb, p, pub). add_to_scope symb p pub (Some n)) binds s))" for n
    by (induction binds arbitrary: s) (auto simp: spares_refl intro: spares_trans [OF spares_add])
  then show ?thesis unfolding bind_next_def .
qed

lemma bind_next_level [simp]: "m_level (scopes (bind_next binds s)) = m_level (scopes s)"
  using bind_next_spares [of s binds] by (simp add: spares_def)

lemma scope_inv_bind_next: "scope_inv (scopes s) \<Longrightarrow> scope_inv (scopes (bind_next binds s))"
  using bind_next_spares [of s binds] by (simp add: spares_def)

lemma bind_next_take:
  "scope_inv (scopes s) \<Longrightarrow>
     take (unat (m_level (scopes s)) + 1) (m_table (scopes (bind_next binds s))) =
     take (unat (m_level (scopes s)) + 1) (m_table (scopes s))"
  using bind_next_spares [of s binds] by (simp add: spares_def scope_inv_def)

lemma block_frame_nested:
  assumes inv: "scope_inv (scopes s)" and lt: "m_level (scopes s) < - 1"
    and fr: "block_frame (go_down (scopes (bind_next binds s))) t'"
  shows "block_frame (scopes s) (go_up t')"
    and "take (unat (m_level (scopes s)) + 1) (m_table (go_up t')) = take (unat (m_level (scopes s)) + 1) (m_table (scopes s))"
    and "m_level (go_up t') = m_level (scopes s)"
proof -
  let ?t = "scopes s"
  have u: "unat (m_level ?t + 1) = unat (m_level ?t) + 1"
    using lt by (rule next_level)
  have nz: "m_level ?t + 1 \<noteq> 0" using u by auto
  have t': "m_level t' = m_level ?t + 1" "scope_inv t'"
    "take (unat (m_level ?t) + 1) (m_table t') = take (unat (m_level ?t) + 1) (m_table ?t)"
    using fr go_down_take [of "scopes (bind_next binds s)"] scope_inv_bind_next [OF inv] bind_next_take [OF inv] lt u
    by (simp_all add: block_frame_def go_down_level)
  note up = go_up_table [of t'] 
  show tk: "take (unat (m_level ?t) + 1) (m_table (go_up t')) = take (unat (m_level ?t) + 1) (m_table ?t)"
    using up(2) t' nz u by simp
  show lv: "m_level (go_up t') = m_level ?t" using up(1) t' nz by simp
  have len: "unat (m_level ?t) < length (m_table ?t)" using inv by (simp add: scope_inv_def)
  have "take (unat (m_level ?t)) (m_table (go_up t')) = take (unat (m_level ?t)) (m_table ?t)"
    "m_table (go_up t') ! unat (m_level ?t) = m_table ?t ! unat (m_level ?t)"
    using take_Suc_frame [of "unat (m_level ?t)"] tk len by auto
  then show "block_frame ?t (go_up t')"
    using lv scope_inv_go_up [OF t'(2)] by (simp add: block_frame_def)
qed

lemma block_frame: "block s s' \<Longrightarrow> scope_inv (scopes s) \<Longrightarrow> block_frame (scopes s) (scopes s')"
proof (induction rule: block.induct)
  case (block_start s)
  then show ?case by (simp add: block_frame_refl)
next
  case (block_add s s' symb p pub)
  then show ?case
    by (meson block_frame_add block_frame_def block_frame_trans)
next
  case (block_import s s' i)
  then have "block_frame (scopes s') (add_import i (scopes s'))"
    unfolding add_import_def by (intro block_frame_upd) (auto simp: block_frame_def)
  with block_import show ?case by (simp add: block_frame_trans)
next
  case (block_flags s s' f)
  then have "block_frame (scopes s') (set_current_flags f (scopes s'))"
    unfolding set_current_flags_def by (intro block_frame_upd) (auto simp: block_frame_def)
  with block_flags show ?case by (simp add: block_frame_trans)
next
  case (block_other s s' s'')
  then show ?case by simp
next
  case (block_nested s s' binds s'')
  then have inv: "scope_inv (scopes s')" by (simp add: block_frame_def)
  then have "block_frame (go_down (scopes (bind_next binds s'))) (scopes s'')"
    using block_nested by (simp add: scope_inv_go_down scope_inv_bind_next)
  then have "block_frame (scopes s') (go_up (scopes s''))"
    using block_frame_nested(1) [OF inv] block_nested by simp
  with block_nested inv show ?case by (simp add: block_frame_trans)
qed

subsection \<open>Scopes above the one in use are empty\<close>

definition nothing_above :: "scope_table \<Rightarrow> bool" where
  "nothing_above t \<longleftrightarrow>
     (\<forall>i. unat (m_level t) < i \<longrightarrow> i < length (m_table t) \<longrightarrow> sd_scope (m_table t ! i) = [] \<and> sd_imports (m_table t ! i) = [])"

lemma nothing_above_new: "nothing_above new_scope_table"
  by (simp add: nothing_above_def new_scope_table_def empty_scope_def nth_Cons split: nat.split)

lemma nothing_above_upd: "nothing_above t \<Longrightarrow> nothing_above (upd_level (unat (m_level t)) f t)"
  by (auto simp: nothing_above_def upd_level_def)

lemma nothing_above_add: "nothing_above (scopes s) \<Longrightarrow> nothing_above (scopes (add_to_scope symb p pub None s))"
  using nothing_above_upd [of "scopes s" "\<lambda>d. d\<lparr>sd_scope := snd (hm_emplace (sy_name symb) p (sd_scope d))\<rparr>"]
  by (auto simp: add_to_scope_def Let_def get_scope_def)

lemma nothing_above_down:
  assumes "nothing_above (scopes s)" and "m_level (scopes s) < - 1"
  shows "nothing_above (go_down (scopes (bind_next binds s)))"
proof -
  let ?t = "scopes (bind_next binds s)" and ?n = "unat (m_level (scopes s)) + 1"
  have u: "unat (m_level (scopes s) + 1) = ?n" using assms(2) by (rule next_level)
  have "\<forall>i. ?n < i \<longrightarrow> i < length (m_table ?t) \<longrightarrow> sd_scope (m_table ?t ! i) = [] \<and> sd_imports (m_table ?t ! i) = []"
    using bind_next_spares [of s binds] assms(1) by (simp add: spares_def nothing_above_def)
  then show ?thesis
    using u by (auto simp: nothing_above_def go_down_def Let_def upd_level_def nth_append empty_scope_def)
qed

lemma nothing_above_up:
  assumes "nothing_above t" and "m_level t \<noteq> 0" and "scope_inv t"
  shows "nothing_above (go_up t)"
proof -
  have "unat (m_level t - 1) + 1 = unat (m_level t)"
    using assms(2) by (simp add: unat_minus_one) (metis Suc_pred unat_gt_0)
  then have "i = unat (m_level t) \<or> unat (m_level t) < i" if "unat (m_level t - 1) < i" for i using that by linarith
  then show ?thesis
    using assms by (auto simp: nothing_above_def go_up_def Let_def clear_level_def upd_level_def scope_inv_def word_le_0_iff
        hm_clear_def nth_list_update)
qed

lemma block_nothing_above:
  "block s s' \<Longrightarrow> scope_inv (scopes s) \<Longrightarrow> nothing_above (scopes s) \<Longrightarrow> nothing_above (scopes s')"
proof (induction rule: block.induct)
  case (block_nested s s' binds s'')
  let ?d = "go_down (scopes (bind_next binds s'))"
  have inv: "scope_inv (scopes s')" using block_frame [OF block_nested.hyps(1)] block_nested.prems by (simp add: block_frame_def)
  then have d: "scope_inv ?d" by (simp add: scope_inv_go_down scope_inv_bind_next)
  have "block_frame ?d (scopes s'')" using block_frame [OF block_nested.hyps(3)] d by simp
  then have "m_level (scopes s'') = m_level (scopes s') + 1" "scope_inv (scopes s'')"
    by (simp_all add: block_frame_def go_down_level)
  moreover have "m_level (scopes s') + 1 \<noteq> 0" using next_level [OF block_nested.hyps(2)] by auto
  ultimately show ?case
    using block_nested d nothing_above_down [of s' binds] by (simp add: nothing_above_up)
qed (auto simp: nothing_above_add add_import_def set_current_flags_def nothing_above_upd)

subsection \<open>Properties\<close>

text \<open>C22: Leaving a block restores what every name means and leaves nothing behind. A scope is opened, perhaps with
  the variables of a loop put into it before, any well-nested sequence of declarations, imports and inner
  blocks and loops is run, and the scope is closed: then each name is looked up in the same scopes with the same
  imports as before, and so it is in the scope that is opened next, which has no names and imports of
  its own. Before, nothing may be left in the scopes above the one in use; afterwards this is so
  again.\<close>

theorem block_restores_names:
  assumes "block (in_scope go_down (bind_next binds s)) s'" and "scope_inv (scopes s)" and "m_level (scopes s) < - 1"
    and "nothing_above (scopes s)"
  shows "find_local_symbol name (scopes (in_scope go_up s')) = find_local_symbol name (scopes s) \<and>
    find_local_symbol name (scopes (in_scope go_down (in_scope go_up s'))) = find_local_symbol name (scopes s) \<and>
    m_level (scopes (in_scope go_up s')) = m_level (scopes s) \<and> nothing_above (scopes (in_scope go_up s'))"
proof -
  let ?d = "go_down (scopes (bind_next binds s))" and ?u = "go_up (scopes s')" and ?n = "unat (m_level (scopes s)) + 1"
  have d: "scope_inv ?d" using assms(2) by (simp add: scope_inv_go_down scope_inv_bind_next)
  then have fr: "block_frame ?d (scopes s')" using block_frame [OF assms(1)] by simp
  note restored = block_frame_nested [OF assms(2,3) fr]
  have inv: "scope_inv ?u" using restored(1) by (simp add: block_frame_def)
  have "m_level (scopes s') \<noteq> 0" using fr next_level [OF assms(3)] by (auto simp: block_frame_def go_down_level)
  moreover have "nothing_above (scopes s')"
    using block_nothing_above [OF assms(1)] d nothing_above_down [OF assms(4,3)] by simp
  ultimately have na: "nothing_above ?u" using fr by (simp add: nothing_above_up block_frame_def)
  have same: "levels_in_use ?u = levels_in_use (scopes s)" using restored(2,3) by (simp add: levels_in_use_def)
  have lv: "unat (m_level ?u + 1) = ?n" using restored(3) next_level [OF assms(3)] by simp
  obtain e where e: "levels_in_use (go_down ?u) = levels_in_use ?u @ [e]" "sd_scope e = []" "sd_imports e = []"
  proof
    let ?e = "m_table (go_down ?u) ! ?n"
    have len: "?n < length (m_table (go_down ?u))"
      using scope_inv_go_down [OF inv] lv by (simp add: scope_inv_def go_down_level)
    have "take ?n (m_table (go_down ?u)) = levels_in_use ?u"
      using go_down_take [OF inv] assms(3) restored(3) lv by (simp add: levels_in_use_def)
    then show "levels_in_use (go_down ?u) = levels_in_use ?u @ [?e]"
      using len lv by (simp add: levels_in_use_def go_down_level take_Suc_nth)
    have "m_level ?u < - 1" using assms(3) restored(3) by simp
    show "sd_scope ?e = []" "sd_imports ?e = []"
      using na restored(3) lv inv
      by (auto simp: nothing_above_def go_down_def Let_def upd_level_def nth_append empty_scope_def scope_inv_def)
  qed
  have "search_levels name (ds @ [e]) found = search_levels name ds found" for ds found
    using e(2,3) by (induction name ds found rule: search_levels.induct) (auto simp: Let_def hm_find_def split: option.splits)
  then have "find_local_symbol name (go_down ?u) = find_local_symbol name ?u"
    by (simp add: find_local_symbol_def e(1))
  then show ?thesis using same restored(3) na by (simp add: find_local_symbol_def)
qed

lemma search_levels_first:
  "hm_find (sd_scope d) name = Some p \<Longrightarrow>
     fst (search_levels name (ds @ d # es) found) =
       (case fst (search_levels name ds found) of Some q \<Rightarrow> Some q | None \<Rightarrow> Some p)"
  by (induction name ds found rule: search_levels.induct) (auto simp: Let_def split: option.splits)

lemma search_levels_append:
  "fst (search_levels name ds found) = Some p \<Longrightarrow> fst (search_levels name (ds @ es) found) = Some p"
  by (induction name ds found rule: search_levels.induct) (auto simp: Let_def split: option.splits)

lemma search_levels_None:
  "fst (search_levels name ds found) = None \<longleftrightarrow> (\<forall>d \<in> set ds. hm_find (sd_scope d) name = None)"
  by (induction name ds found rule: search_levels.induct) (auto simp: Let_def split: option.splits)

text \<open>C23: In the scope table an inner declaration never hides an outer one: a name that means \<open>p\<close> when a
  scope is opened means \<open>p\<close> at every later point inside it, whatever is declared there under the same name, the
  variables of a loop included. \<open>find_symbol\<close> searches the levels from the outermost, and \<open>emplace\<close> keeps the first
  entry. So a parser or analyzer that asks for the name gets the outer declaration.\<close>

theorem outer_name_wins:
  assumes "scope_inv (scopes s)" and "m_level (scopes s) < - 1" and "block (in_scope go_down (bind_next binds s)) s'"
    and "find_local_symbol name (scopes s) = (p, imports)" and "p \<noteq> Null"
  shows "find_symbol s' name = p"
proof -
  let ?d = "go_down (scopes (bind_next binds s))"
  have fr: "block_frame ?d (scopes s')"
    using block_frame [OF assms(3)] assms(1) by (simp add: scope_inv_go_down scope_inv_bind_next)
  have u: "unat (m_level (scopes s) + 1) = unat (m_level (scopes s)) + 1"
    using assms(2) by (rule next_level)
  let ?n = "unat (m_level (scopes s))"
  have outer: "take (?n + 1) (m_table (scopes s')) = levels_in_use (scopes s)"
    using fr go_down_take [of "scopes (bind_next binds s)"] scope_inv_bind_next [OF assms(1)] bind_next_take [OF assms(1)] assms(2) u
    by (simp add: block_frame_def go_down_level levels_in_use_def)
  obtain es where es: "levels_in_use (scopes s') = levels_in_use (scopes s) @ es"
  proof
    show "levels_in_use (scopes s') = levels_in_use (scopes s) @ take 1 (drop (?n + 1) (m_table (scopes s')))"
      using fr u outer take_add [of "?n + 1" 1 "m_table (scopes s')"]
      by (simp add: levels_in_use_def block_frame_def go_down_level)
  qed
  have "fst (search_levels name (levels_in_use (scopes s)) []) = Some p"
    using assms(4,5) by (auto simp: find_local_symbol_def split: option.splits prod.splits)
  then have "fst (search_levels name (levels_in_use (scopes s')) []) = Some p"
    unfolding es by (rule search_levels_append)
  then have "fst (find_local_symbol name (scopes s')) = p"
    by (auto simp: find_local_symbol_def split: option.splits prod.splits)
  then show ?thesis using assms(5) by (auto simp: find_symbol_def split: prod.splits)
qed

lemma search_levels_find:
  "search_levels name ds found =
     (case List.find (\<lambda>d. hm_find (sd_scope d) name \<noteq> None) ds of
        Some d \<Rightarrow> (hm_find (sd_scope d) name, snd (search_levels name ds found))
      | None \<Rightarrow> (None, found @ concat (map sd_imports ds)))"
  by (induction name ds found rule: search_levels.induct) (auto simp: Let_def split: option.splits)

lemma find_filter: "List.find P xs = (case filter P xs of [] \<Rightarrow> None | x # _ \<Rightarrow> Some x)"
  by (induction xs) auto

text \<open>C24: What a name means, the two passes over the scopes and the set of imports collected on the way taken together:
  the entry of the outermost scope in use that has the name; when none has it, the first of the
  symbols all modules share under this name that is always available or whose module is imported
  into one of the scopes in use; and otherwise nothing.\<close>

theorem find_symbol_meaning:
  "find_symbol s name =
    (case List.find (\<lambda>d. hm_find (sd_scope d) name \<noteq> None) (levels_in_use (scopes s)) of
       Some d \<Rightarrow> the (hm_find (sd_scope d) name)
     | None \<Rightarrow>
         (case List.find (\<lambda>g. gs_availability g = Always \<or>
             (\<exists>d \<in> set (levels_in_use (scopes s)). gs_file_id g \<in> set (sd_imports d))) (find_global_symbol s name) of
            Some g \<Rightarrow> gs_node g | None \<Rightarrow> Null))"
proof (cases "List.find (\<lambda>d. hm_find (sd_scope d) name \<noteq> None) (levels_in_use (scopes s))")
  case None
  let ?i = "concat (map sd_imports (levels_in_use (scopes s)))"
  have "search_levels name (levels_in_use (scopes s)) found = (None, found @ ?i)" for found
    using None by (subst search_levels_find) simp
  moreover have "visible_global (?i @ ?i) = (\<lambda>g. gs_availability g = Always \<or>
      (\<exists>d \<in> set (levels_in_use (scopes s)). gs_file_id g \<in> set (sd_imports d)))"
    by (auto simp: fun_eq_iff visible_global_def)
  ultimately show ?thesis
    using None by (simp add: find_symbol_def find_local_symbol_def find_filter split: list.split)
next
  case (Some d)
  then obtain p where p: "hm_find (sd_scope d) name = Some p" by (auto simp: find_Some_iff)
  have found: "\<exists>f. search_levels name (levels_in_use (scopes s)) found = (Some p, f)" for found
    using Some p by (subst search_levels_find) simp
  obtain f where f: "search_levels name (levels_in_use (scopes s)) [] = (Some p, f)" using found by blast
  obtain f' where "search_levels name (levels_in_use (scopes s)) f = (Some p, f')" using found by blast
  then show ?thesis using f Some p by (simp add: find_symbol_def find_local_symbol_def)
qed

text \<open>The frontend before anything is declared.\<close>

definition new_front :: front where
  "new_front = \<lparr>nodes = [], g_attributes = [], g_global_symbols = [], scopes = new_scope_table\<rparr>"

lemma new_front_scopes [simp]: "scopes new_front = new_scope_table" "m_level new_scope_table = 0"
  by (simp_all add: new_front_def new_scope_table_def)

lemma level_0 [simp]: "(0 :: 16 word) < - 1"
  by (simp add: word_less_nat_alt unsigned_minus_1_eq_mask mask_eq_exp_minus_1)

lemmas scope_eval = find_local_symbol_def levels_in_use_def add_to_scope_def in_scope_def go_down_def
  get_scope_def upd_level_def hm_emplace_def hm_find_def new_front_def new_scope_table_def
  empty_scope_def UNLOCKED_LEVEL_def named_symbol_def empty_symbol_def Let_def

theorem block_restores_names_witness:
  "let s' = add_to_scope (named_symbol ''x'') (At 1) True None (in_scope go_down (bind_next [(named_symbol ''i'', At 0, False)] new_front))
   in find_local_symbol ''x'' (scopes s') = (At 1, []) \<and>
     find_local_symbol ''x'' (scopes (in_scope go_down (in_scope go_up s'))) = (Null, [])"
proof -
  let ?s' = "add_to_scope (named_symbol ''x'') (At 1) True None (in_scope go_down (bind_next [(named_symbol ''i'', At 0, False)] new_front))"
  have "block (in_scope go_down (bind_next [(named_symbol ''i'', At 0, False)] new_front)) ?s'" by (intro block.intros)
  from block_restores_names [OF this, of "''x''"]
  have "find_local_symbol ''x'' (scopes (in_scope go_down (in_scope go_up ?s'))) = find_local_symbol ''x'' new_scope_table"
    by (simp add: scope_inv_new nothing_above_new)
  moreover have "find_local_symbol ''x'' new_scope_table = (Null, [])"
    by (simp add: scope_eval numeral_eq_Suc)
  moreover have "find_local_symbol ''x'' (scopes ?s') = (At 1, [])"
    by (simp add: scope_eval bind_next_def numeral_eq_Suc)
  ultimately show ?thesis by simp
qed

theorem outer_name_wins_witness:
  "let s = add_to_scope (named_symbol ''x'') (At 1) False None new_front;
       s' = add_to_scope (named_symbol ''x'') (At 2) False None (in_scope go_down s)
   in find_symbol s' ''x'' = At 1"
proof -
  let ?s = "add_to_scope (named_symbol ''x'') (At 1) False None new_front"
  let ?s' = "add_to_scope (named_symbol ''x'') (At 2) False None (in_scope go_down (bind_next [] ?s))"
  have b: "block (in_scope go_down (bind_next [] ?s)) ?s'" by (intro block.intros)
  have i: "scope_inv (scopes ?s)" by (simp add: scope_inv_add_to_scope scope_inv_new)
  have l: "m_level (scopes ?s) < - 1" by simp
  have f: "find_local_symbol ''x'' (scopes ?s) = (At 1, [])"
    by (simp add: scope_eval numeral_eq_Suc)
  from outer_name_wins [OF i l b f] show ?thesis by (simp add: bind_next_def)
qed

end
