(* ===== verification/Parser.thy ===== *)
theory Parser
  imports Lexer Scope_Table
begin

unbundle bit_operations_syntax

section \<open>The parser (\<open>ast.cpp\<close>, \<open>ast.hpp\<close>)\<close>

text \<open>
  \<open>AST\<close> is a recursive descent parser over the lexer. It allocates the nodes of the tree,
  enters functions and types into the scope table while it reads them, and keeps four stacks
  and lists of its own: the functions it is in, the attributes waiting for a name, those of
  the module, and whether a brace may start a struct literal.

  The methods call each other without bound, so they are written against a record of the
  methods they call back (\<open>recs\<close>), and the record is tied with fuel: \<open>knot n\<close> is the parser
  that may nest \<open>n\<close> calls. Every such call happens behind a token that was consumed, so the
  length of the source is fuel enough (\<open>Parser_Fuel\<close>). Loops take the same fuel.

  A node is allocated where the code allocates it, with the token of that moment. Its members
  are assigned when the node is complete, or earlier where something reads them.
\<close>

record parser = front +
  m_lexer :: lexer
  m_nodes :: "ptr list"
  m_function_stack :: "ptr list"
  m_pending_attributes :: "TokenType list"
  m_module_attributes :: "TokenType list"
  m_can_initialize_stack :: "bool list"

type_synonym 'a parse = "(parser, exn, 'a) comp"

subsection \<open>The lexer and the nodes\<close>

definition lx :: "'a lex \<Rightarrow> 'a parse" where
  "lx m s =
     (case m (m_lexer s) of
        Inl e \<Rightarrow> Inl e
      | Inr (x, l) \<Rightarrow> Inr (x, s\<lparr>m_lexer := l\<rparr>))"

definition match :: "TokenType \<Rightarrow> bool parse" where "match t = lx (lex_match t)"
definition expect :: "TokenType \<Rightarrow> token parse" where "expect t = lx (lex_expect t)"
definition peek_is :: "TokenType \<Rightarrow> bool parse" where "peek_is t = lx (lex_peek_is t)"
definition peek :: "token parse" where "peek = lx lex_peek"
definition peek_last :: "token parse" where "peek_last = lx lex_peek_last"
definition peek_last_is :: "TokenType \<Rightarrow> bool parse" where "peek_last_is t = lx (lex_peek_last_is t)"
definition advance :: "token parse" where "advance = lx lex_advance"

text \<open>\<open>match(a) || match(b) || ...\<close>\<close>

primrec match_any_of :: "TokenType list \<Rightarrow> bool parse" where
  "match_any_of [] = ret False"
| "match_any_of (t # ts) = bnd (match t) (\<lambda>ok. if ok then ret True else match_any_of ts)"

definition new_node :: "node \<Rightarrow> ptr parse" where
  "new_node n = bnd peek_last (\<lambda>tok s. Inr (alloc (set_node_token tok n) s))"

definition change_node :: "ptr \<Rightarrow> (node \<Rightarrow> node) \<Rightarrow> unit parse" where
  "change_node p f = modify (poke_node p f)"

definition finish_expr :: "ptr \<Rightarrow> expr_body \<Rightarrow> ptr parse" where
  "finish_expr p b = bnd (change_node p (set_expr_body b)) (\<lambda>_. ret p)"

definition finish_stmt :: "ptr \<Rightarrow> stmt_body \<Rightarrow> ptr parse" where
  "finish_stmt p b = bnd (change_node p (set_stmt_body b)) (\<lambda>_. ret p)"

definition finish_type :: "ptr \<Rightarrow> type_body \<Rightarrow> ptr parse" where
  "finish_type p b = bnd (change_node p (set_type_body b)) (\<lambda>_. ret p)"

subsection \<open>Loops and recursion\<close>

text \<open>\<open>while (cond) body\<close>, where the body says whether to go on (\<open>False\<close> is \<open>break\<close>).\<close>

primrec while_loop :: "nat \<Rightarrow> bool parse \<Rightarrow> ('x \<Rightarrow> ('x \<times> bool) parse) \<Rightarrow> 'x \<Rightarrow> 'x parse" where
  "while_loop 0 cond body x = fail OutOfFuel"
| "while_loop (Suc n) cond body x =
     bnd cond (\<lambda>ok.
     if ok then bnd (body x) (\<lambda>(x', continue). if continue then while_loop n cond body x' else ret x')
     else ret x)"

definition not_peek :: "TokenType \<Rightarrow> bool parse" where
  "not_peek t = bnd (peek_is t) (\<lambda>b. ret (\<not> b))"

text \<open>The methods that are called back, and the fuel for the loops.\<close>

record recs =
  r_fuel :: nat
  r_expression :: "ptr parse"
  r_unary :: "ptr parse"
  r_primary :: "ptr parse"
  r_type :: "type_meta \<Rightarrow> nat \<Rightarrow> bool \<Rightarrow> (ptr \<times> type_meta) parse"
  r_declaration :: "ptr parse"
  r_if :: "ptr parse"

subsection \<open>Attributes and symbols\<close>

text \<open>\<open>emplace_token\<close> of \<open>parse_attributes\<close>.\<close>

definition attribute_token :: "TokenType parse" where
  "attribute_token =
     bnd advance (\<lambda>_.
     bnd peek_last (\<lambda>token.
     if is_attribute_keyword (tk_type token) then ret (tk_type token)
     else throw_formatted token (squote # ''{}'' @ squote # '' is not a valid keyword attribute'') [tk_lexeme token]))"

definition parse_attributes :: "recs \<Rightarrow> unit parse" where
  "parse_attributes r =
     bnd (match TkLeftBracket) (\<lambda>list.
     bnd (if \<not> list then bnd attribute_token (\<lambda>t. ret [t])
          else bnd (while_loop (r_fuel r) (ret True)
                      (\<lambda>buffer. bnd attribute_token (\<lambda>t.
                        bnd (match TkComma) (\<lambda>comma. ret (buffer @ [t], comma)))) [])
                 (\<lambda>buffer. bnd (expect TkRightBracket) (\<lambda>_. ret buffer)))
       (\<lambda>buffer.
     bnd (match TkColon) (\<lambda>colon.
     modify (if colon then (\<lambda>s. s\<lparr>m_module_attributes := m_module_attributes s @ buffer\<rparr>)
             else (\<lambda>s. s\<lparr>m_pending_attributes := m_pending_attributes s @ buffer\<rparr>)))))"

definition collect_attributes :: "recs \<Rightarrow> unit parse" where
  "collect_attributes r = bnd (match TkAt) (\<lambda>at. if at then parse_attributes r else ret ())"

definition get_symbol :: "symbol parse" where
  "get_symbol =
     bnd (expect TkIdentifier) (\<lambda>token s.
       let (symb, table) = attach_attributes (m_pending_attributes s) (m_module_attributes s)
                             (tk_lexeme token) (g_attributes s)
       in Inr (symb, s\<lparr>g_attributes := table, m_pending_attributes := []\<rparr>))"

definition symbol_has :: "symbol \<Rightarrow> TokenType \<Rightarrow> bool parse" where
  "symbol_has symb t = gets (\<lambda>s. has_keyword_attribute (g_attributes s) symb t)"

definition get_current_fn :: "ptr parse" where
  "get_current_fn = gets (\<lambda>s. if m_function_stack s = [] then Null else last (m_function_stack s))"

definition can_initialize :: "bool parse" where
  "can_initialize =
     gets (\<lambda>s. m_can_initialize_stack s = [] \<or>
       (m_can_initialize_stack s \<noteq> [] \<and> hd (m_can_initialize_stack s)))"

text \<open>A condition is parsed with struct literals switched off.\<close>

definition without_initializers :: "'a parse \<Rightarrow> 'a parse" where
  "without_initializers m =
     bnd (modify (\<lambda>s. s\<lparr>m_can_initialize_stack := m_can_initialize_stack s @ [False]\<rparr>)) (\<lambda>_.
     bnd m (\<lambda>x.
     bnd (modify (\<lambda>s. s\<lparr>m_can_initialize_stack := butlast (m_can_initialize_stack s)\<rparr>)) (\<lambda>_. ret x)))"

subsection \<open>Types\<close>

definition parse_type_meta :: "recs \<Rightarrow> type_meta parse" where
  "parse_type_meta r =
     bnd (r_type r empty_meta 0 False) (\<lambda>(p, meta).
     if p = Null then bnd peek_last (\<lambda>token. throw_frontend token ''Expected type'')
     else ret (meta\<lparr>meta_ptr := p\<rparr>))"

definition parse_fn_param :: "recs \<Rightarrow> bool \<Rightarrow> ptr parse" where
  "parse_fn_param r parse_name =
     bnd (new_node (new_stmt (VarDeclStmt empty_var_decl))) (\<lambda>stmt.
     bnd (if parse_name then bnd get_symbol (\<lambda>symb. bnd (expect TkColon) (\<lambda>_. ret symb))
          else ret empty_symbol) (\<lambda>symb.
     bnd (parse_type_meta r) (\<lambda>meta.
     bnd (match TkEqual) (\<lambda>eq.
     bnd (if eq then r_expression r else ret Null) (\<lambda>init.
     finish_stmt stmt (VarDeclStmt (empty_var_decl\<lparr>vd_symbol := symb, vd_type := meta, vd_initializer := init\<rparr>)))))))"

text \<open>The loop state: the signature so far and whether a default value was seen.\<close>

definition parse_params :: "recs \<Rightarrow> bool \<Rightarrow> fn_signature \<Rightarrow> fn_signature parse" where
  "parse_params r parse_names sig0 =
     bnd (while_loop (r_fuel r) (not_peek TkRightParen)
       (\<lambda>(sig, saw_default).
         bnd (match TkEllipse) (\<lambda>variadic.
         if variadic then ret ((sig\<lparr>fs_is_variadic := True\<rparr>, saw_default), False)
         else
           bnd (parse_fn_param r parse_names) (\<lambda>param.
           bnd (gets (\<lambda>s. (map_option vd_initializer (as_var s param),
                          map_option node_token (peek_node s param)))) (\<lambda>(init, tok).
           if init = Some Null \<and> saw_default then
             throw_frontend (the tok) ''Parameters with default values must appear last''
           else
             let saw = (saw_default \<or> init \<noteq> Some Null);
                 sig1 = (if init = Some Null
                         then sig\<lparr>fs_callable_arity := fs_callable_arity sig + 1\<rparr> else sig);
                 sig2 = sig1\<lparr>fs_parameters := fs_parameters sig1 @ [param]\<rparr>
             in bnd (not_peek TkRightParen) (\<lambda>more.
                bnd (if more then bnd (expect TkComma) (\<lambda>_. ret ()) else ret ()) (\<lambda>_.
                ret ((sig2, saw), True))))))) (sig0, False))
     (\<lambda>(sig, _). ret sig)"

definition parse_fn_signature :: "recs \<Rightarrow> bool \<Rightarrow> ptr list \<Rightarrow> fn_signature parse" where
  "parse_fn_signature r parse_names added =
     bnd (expect TkLeftParen) (\<lambda>_.
     bnd (parse_params r parse_names (empty_signature\<lparr>fs_parameters := added\<rparr>)) (\<lambda>sig.
     bnd (expect TkRightParen) (\<lambda>_.
     bnd (match TkColon) (\<lambda>colon.
     if colon then bnd (parse_type_meta r) (\<lambda>meta. ret (sig\<lparr>fs_return_type := meta\<rparr>))
     else ret (sig\<lparr>fs_return_type := meta_of (Static VOID_TYPE)\<rparr>)))))"

text \<open>\<open>parse_fields\<close>: the body of an enum or a struct.\<close>

definition parse_fields :: "recs \<Rightarrow> ('x \<Rightarrow> 'x parse) \<Rightarrow> 'x \<Rightarrow> 'x parse" where
  "parse_fields r field x0 =
     bnd (expect TkLeftBrace) (\<lambda>_.
     bnd (while_loop (r_fuel r) (not_peek TkRightBrace)
            (\<lambda>x. bnd (field x) (\<lambda>x'. bnd (match TkComma) (\<lambda>_. ret (x', True)))) x0) (\<lambda>x.
     bnd (expect TkRightBrace) (\<lambda>_. ret x)))"

definition add_name :: "symbol \<Rightarrow> ptr \<Rightarrow> bool \<Rightarrow> unit parse" where
  "add_name symb p is_public = modify (add_to_scope symb p is_public None)"

definition struct_field :: "recs \<Rightarrow> (symbol \<times> type_meta) list \<Rightarrow> (symbol \<times> type_meta) list parse" where
  "struct_field r fs =
     bnd get_symbol (\<lambda>symb.
     bnd (expect TkColon) (\<lambda>_.
     bnd (parse_type_meta r) (\<lambda>meta. ret (fs @ [(symb, meta)]))))"

definition parse_struct_body :: "recs \<Rightarrow> ptr \<Rightarrow> symbol \<Rightarrow> ptr parse" where
  "parse_struct_body r type symb =
     bnd (parse_fields r (struct_field r) []) (\<lambda>fs.
     finish_type type (StructType (empty_struct\<lparr>stt_symbol := symb, stt_fields := fs\<rparr>)))"

definition parse_struct :: "recs \<Rightarrow> bool \<Rightarrow> ptr parse" where
  "parse_struct r skip_signature =
     bnd (new_node (new_type (StructType empty_struct))) (\<lambda>type.
     if skip_signature then parse_struct_body r type empty_symbol
     else
       bnd get_symbol (\<lambda>symb.
       bnd (finish_type type (StructType (empty_struct\<lparr>stt_symbol := symb\<rparr>))) (\<lambda>_.
       bnd (add_name symb type True) (\<lambda>_.
       bnd (not_peek TkLeftBrace) (\<lambda>fieldless.
       if fieldless then ret type else parse_struct_body r type symb)))))"

text \<open>The names of the elements behind an array type.\<close>

definition array_members :: "recs \<Rightarrow> string list parse" where
  "array_members r =
     bnd (while_loop (r_fuel r) (ret True)
       (\<lambda>names.
         bnd (expect TkIdentifier) (\<lambda>token.
         bnd (match TkComma) (\<lambda>comma. ret (names @ [tk_lexeme token], comma)))) []) (\<lambda>names.
     bnd (expect TkRightBrace) (\<lambda>_. ret names))"

definition parse_array_type :: "recs \<Rightarrow> type_meta \<Rightarrow> nat \<Rightarrow> (ptr \<times> type_meta) parse" where
  "parse_array_type r meta position =
     bnd (match TkRightBracket) (\<lambda>slice.
     if slice then
       bnd (new_node (new_type (SliceType Null []))) (\<lambda>type.
       bnd (r_type r meta position False) (\<lambda>(inner, meta1).
       bnd (finish_type type (SliceType inner [])) (\<lambda>_. ret (type, meta1))))
     else
       bnd (new_node (new_type (ArrayType empty_array))) (\<lambda>type.
       bnd (match TkQuestion) (\<lambda>unsized.
       bnd (if unsized then ret (empty_array\<lparr>ar_size := UNSIZED_ARRAY\<rparr>)
            else bnd (r_expression r) (\<lambda>e. ret (empty_array\<lparr>ar_size_expr := e\<rparr>))) (\<lambda>array.
       bnd (expect TkRightBracket) (\<lambda>_.
       bnd (r_type r meta position False) (\<lambda>(inner, meta1).
       bnd (match TkLeftBrace) (\<lambda>brace.
       bnd (if brace then array_members r else ret []) (\<lambda>names.
       bnd (finish_type type (ArrayType (array\<lparr>ar_element_type := inner, ar_members := names\<rparr>))) (\<lambda>_.
       ret (type, meta1))))))))))"

definition mark_mut :: "nat \<Rightarrow> type_meta \<Rightarrow> type_meta parse" where
  "mark_mut position meta = (case set_mut position meta of Inl e \<Rightarrow> fail e | Inr m \<Rightarrow> ret m)"

text \<open>\<open>Imut\<close> marks the level at \<open>position\<close>; a group behind it marks the levels inside as well.\<close>

definition parse_type :: "recs \<Rightarrow> type_meta \<Rightarrow> nat \<Rightarrow> bool \<Rightarrow> (ptr \<times> type_meta) parse" where
  "parse_type r meta position imut_override =
     bnd (match TkImut) (\<lambda>imut.
     bnd (if imut \<or> imut_override then mark_mut position meta else ret meta) (\<lambda>meta1.
     bnd (if imut \<or> imut_override then match TkLeftParen else ret False) (\<lambda>group.
     if group then
       bnd (r_type r meta1 (position + 1) True) (\<lambda>res.
       bnd (match TkRightParen) (\<lambda>_. ret res))
     else
       bnd (match TkIdentifier) (\<lambda>identifier.
       if identifier then
         bnd (new_node (new_type (UnresolvedSymbolType []))) (\<lambda>type.
         bnd peek_last (\<lambda>token.
         bnd (finish_type type (UnresolvedSymbolType (tk_lexeme token))) (\<lambda>_. ret (type, meta1))))
       else
         bnd (match TkCaret) (\<lambda>caret.
         if caret then
           bnd (new_node (new_type (PointerType Null []))) (\<lambda>type.
           bnd (r_type r meta1 (position + 1) False) (\<lambda>(inner, meta2).
           bnd (finish_type type (PointerType inner [])) (\<lambda>_. ret (type, meta2))))
         else
           bnd (match TkLeftBracket) (\<lambda>bracket.
           if bracket then parse_array_type r meta1 (position + 1)
           else
             bnd (match TkFn) (\<lambda>is_fn.
             if is_fn then
               bnd (new_node (new_type (FnType empty_fn))) (\<lambda>type.
               bnd (parse_fn_signature r False []) (\<lambda>sig.
               bnd (finish_type type (FnType (empty_fn\<lparr>fn_sig := sig\<rparr>))) (\<lambda>_. ret (type, meta1))))
             else
               bnd (peek_is TkLeftBrace) (\<lambda>brace.
               if brace then bnd (parse_struct r True) (\<lambda>type. ret (type, meta1))
               else
                 bnd (match TkEllipse) (\<lambda>packed.
                 ret (if packed then Static PACKED_TYPE else Null, meta1))))))))))"

subsection \<open>Expressions\<close>

text \<open>\<open>from_chars\<close> of a decimal integer: a value that does not fit leaves the result as it was,
  which is zero here.\<close>

fun decimal_value :: "string \<Rightarrow> nat \<Rightarrow> nat" where
  "decimal_value [] n = n"
| "decimal_value (c # cs) n =
     (if is_digit c then decimal_value cs (10 * n + (of_char c - 48)) else n)"

definition i32_from_chars :: "string \<Rightarrow> 32 word" where
  "i32_from_chars lexeme =
     (let n = decimal_value lexeme 0 in if n < 2 ^ 31 then of_nat n else 0)"

definition set_token :: "ptr \<Rightarrow> token \<Rightarrow> unit parse" where
  "set_token p tok = change_node p (set_node_token tok)"

definition set_type :: "ptr \<Rightarrow> node \<Rightarrow> node" where
  "set_type type n = (case n of NExpr e \<Rightarrow> NExpr (e\<lparr>ex_type := type\<rparr>) | _ \<Rightarrow> n)"

definition finish_literal :: "ptr \<Rightarrow> literal_value \<Rightarrow> static_type \<Rightarrow> ptr parse" where
  "finish_literal p v type =
     bnd (change_node p (set_expr_body (LiteralExpr v))) (\<lambda>_.
     bnd (change_node p (set_type (Static type))) (\<lambda>_.
     bnd peek_last (\<lambda>tok.
     bnd (set_token p tok) (\<lambda>_. ret p))))"

definition parse_literal :: "ptr parse" where
  "parse_literal =
     bnd (new_node (new_expr (LiteralExpr (LInt 0)))) (\<lambda>p.
     bnd (match_any_of [TkTrue, TkFalse]) (\<lambda>bool.
     if bool then bnd (peek_last_is TkTrue) (\<lambda>b. finish_literal p (LBool b) BOOL_TYPE)
     else
       bnd (match TkIntegerLiteral) (\<lambda>integer.
       if integer then
         bnd peek_last (\<lambda>tok. finish_literal p (LInt (i32_from_chars (tk_lexeme tok))) I32_TYPE)
       else
         bnd (match TkDecimalLiteral) (\<lambda>decimal.
         if decimal then bnd peek_last (\<lambda>tok. finish_literal p (LFloat (tk_lexeme tok)) F32_TYPE)
         else
           bnd (match TkStringLiteral) (\<lambda>str.
           if str then bnd peek_last (\<lambda>tok. finish_literal p (LStr (tk_lexeme tok)) STR_TYPE)
           else
             bnd (match TkCharLiteral) (\<lambda>chr.
             if chr then
               bnd peek_last (\<lambda>tok.
               case tk_lexeme tok of
                 [] \<Rightarrow> fail (Undefined ''string_view'')
               | c # _ \<Rightarrow> finish_literal p (LChar c) CHAR_TYPE)
             else
               bnd (match TkNil) (\<lambda>nil.
               if nil then finish_literal p LNull VOID_POINTER_TYPE
               else
                 bnd peek_last (\<lambda>at.
                 bnd peek (\<lambda>got.
                 throw_formatted at ''Expected expression but got {}'' [tk_lexeme got])))))))))"

text \<open>\<open>collect_call_arguments\<close> and \<open>parse_brace_list\<close>: expressions with commas between.\<close>

definition collect_expressions :: "recs \<Rightarrow> TokenType \<Rightarrow> ptr list parse" where
  "collect_expressions r closing =
     while_loop (r_fuel r) (not_peek closing)
       (\<lambda>es. bnd (r_expression r) (\<lambda>e. bnd (match TkComma) (\<lambda>comma. ret (es @ [e], comma)))) []"

definition collect_call_arguments :: "recs \<Rightarrow> ptr list parse" where
  "collect_call_arguments r = collect_expressions r TkRightParen"

definition parse_brace_list :: "recs \<Rightarrow> initializer_element list parse" where
  "parse_brace_list r =
     bnd (collect_expressions r TkRightBrace) (\<lambda>es.
     bnd (expect TkRightBrace) (\<lambda>_. ret (map initializer es)))"

definition parse_array_literal :: "recs \<Rightarrow> initializer_element list \<Rightarrow> ptr parse" where
  "parse_array_literal r elements =
     bnd (new_node (new_expr (ArrayLiteralExpr [] Null))) (\<lambda>p.
     bnd (while_loop (r_fuel r) (ret True)
            (\<lambda>es. bnd (r_expression r) (\<lambda>e. bnd (match TkComma) (\<lambda>comma. ret (es @ [initializer e], comma))))
            elements) (\<lambda>es.
     bnd (expect TkRightBracket) (\<lambda>_. finish_expr p (ArrayLiteralExpr es Null))))"

text \<open>A node that holds one expression, built behind it.\<close>

definition wrap_expression :: "recs \<Rightarrow> (ptr \<Rightarrow> expr_body) \<Rightarrow> ptr parse" where
  "wrap_expression r con = bnd (r_expression r) (\<lambda>e. new_node (new_expr (con e)))"

definition parse_identifier :: "recs \<Rightarrow> ptr parse" where
  "parse_identifier r =
     bnd peek_last (\<lambda>tok.
     bnd (match TkColon) (\<lambda>named.
     if named then wrap_expression r (NamedExpr (tk_lexeme tok))
     else
       bnd can_initialize (\<lambda>can.
       bnd (if can then match TkLeftBrace else ret False) (\<lambda>brace.
       if brace then
         bnd (new_node (new_expr (StructLiteral [] []))) (\<lambda>p.
         bnd (parse_brace_list r) (\<lambda>es. finish_expr p (StructLiteral es (tk_lexeme tok))))
       else new_node (new_expr (SymbolExpr Null (tk_lexeme tok)))))))"

definition parse_cast :: "recs \<Rightarrow> ptr parse" where
  "parse_cast r =
     bnd (expect TkLeftParen) (\<lambda>_.
     bnd (new_node (new_expr (CastExpr empty_meta Null Null))) (\<lambda>p.
     bnd (r_type r empty_meta 0 False) (\<lambda>(type, meta).
     bnd (expect TkRightParen) (\<lambda>_.
     bnd (r_unary r) (\<lambda>target.
     finish_expr p (CastExpr (meta\<lparr>meta_ptr := type\<rparr>) target Null))))))"

definition parse_primary_inner :: "recs \<Rightarrow> ptr parse" where
  "parse_primary_inner r =
     bnd (match TkLeftParen) (\<lambda>paren.
     if paren then bnd (wrap_expression r GroupExpr) (\<lambda>p. bnd (expect TkRightParen) (\<lambda>_. ret p))
     else
       bnd (match TkIdentifier) (\<lambda>identifier.
       if identifier then parse_identifier r
       else
         bnd (match TkSizeof) (\<lambda>sizeof.
         if sizeof then wrap_expression r SizeofExpr
         else
           bnd (match TkNameof) (\<lambda>nameof.
           if nameof then wrap_expression r NameofExpr
           else
             bnd (match TkCast) (\<lambda>cast.
             if cast then parse_cast r
             else
               bnd peek (\<lambda>tok.
               if is_attribute_keyword (tk_type tok)
               then bnd advance (\<lambda>_. new_node (new_expr KeywordExpr))
               else
                 bnd (match TkLeftBrace) (\<lambda>brace.
                 if brace then
                   bnd (new_node (new_expr (AnonInitExpr []))) (\<lambda>p.
                   bnd (parse_brace_list r) (\<lambda>es. finish_expr p (AnonInitExpr es)))
                 else
                   bnd (match TkPipe) (\<lambda>pipe.
                   if pipe then bnd (wrap_expression r AbsExpr) (\<lambda>p. bnd (expect TkPipe) (\<lambda>_. ret p))
                   else
                     bnd (match_any_of [TkAmpersand, TkCaret]) (\<lambda>ptr_op.
                     if ptr_op then
                       bnd (new_node (new_expr (PtrOpExpr TkTokenError Null))) (\<lambda>p.
                       bnd peek_last (\<lambda>op.
                       bnd (r_primary r) (\<lambda>target. finish_expr p (PtrOpExpr (tk_type op) target))))
                     else
                       bnd (match TkEllipse) (\<lambda>packed.
                       if packed then new_node (new_expr PackedExpr)
                       else
                         bnd (match TkLeftBracket) (\<lambda>bracket.
                         if bracket then parse_array_literal r []
                         else ret Null)))))))))))"

text \<open>What stands behind an opening bracket: an array literal of a type (which ends the
  expression), a slice or an index. The result says which.\<close>

definition set_specifier :: "ptr \<Rightarrow> node \<Rightarrow> node" where
  "set_specifier p n =
     (case n of
        NExpr e \<Rightarrow> (case ex_body e of ArrayLiteralExpr es _ \<Rightarrow> NExpr (e\<lparr>ex_body := ArrayLiteralExpr es p\<rparr>) | _ \<Rightarrow> n)
      | _ \<Rightarrow> n)"

definition parse_bracket :: "recs \<Rightarrow> ptr \<Rightarrow> ptr \<Rightarrow> (ptr \<times> bool) parse" where
  "parse_bracket r inner lhs =
     (let object = (if lhs \<noteq> Null then lhs else inner)
      in bnd (not_peek TkColon) (\<lambda>has_index.
         bnd (if has_index then r_expression r else ret Null) (\<lambda>index.
         bnd (match TkColon) (\<lambda>slice.
         if slice then
           bnd (new_node (new_expr (SliceExpr Null Null Null))) (\<lambda>p.
           bnd (not_peek TkRightBracket) (\<lambda>has_end.
           bnd (if has_end then r_expression r else ret Null) (\<lambda>end_expr.
           bnd (expect TkRightBracket) (\<lambda>_.
           bnd (finish_expr p (SliceExpr object index end_expr)) (\<lambda>_. ret (p, True))))))
         else
           bnd (match TkComma) (\<lambda>comma.
           if comma then
             bnd (parse_array_literal r [initializer index]) (\<lambda>literal.
             bnd (change_node literal (set_specifier inner)) (\<lambda>_. ret (literal, False)))
           else
             bnd (new_node (new_expr (IndexOpExpr Null Null))) (\<lambda>p.
             bnd (finish_expr p (IndexOpExpr object index)) (\<lambda>_.
             bnd (expect TkRightBracket) (\<lambda>_. ret (p, True)))))))))"

definition parse_suffix :: "recs \<Rightarrow> ptr \<Rightarrow> ptr \<Rightarrow> ptr parse" where
  "parse_suffix r inner lhs =
     (let object = (if lhs \<noteq> Null then lhs else inner)
      in bnd (match_any_of [TkDot, TkColonColon]) (\<lambda>member.
         if member then
           bnd (new_node (new_expr (MemberAccessExpr Null Null False False))) (\<lambda>p.
           bnd (peek_last_is TkColonColon) (\<lambda>static.
           bnd (r_primary r) (\<lambda>accessor.
           finish_expr p (MemberAccessExpr object accessor static False))))
         else
           bnd (match TkLeftParen) (\<lambda>call.
           if call then
             bnd (collect_call_arguments r) (\<lambda>args.
             bnd (new_node (new_expr (CallExpr object args))) (\<lambda>p.
             bnd (expect TkRightParen) (\<lambda>_. ret p)))
           else if lhs \<noteq> Null then
             bnd (gets (\<lambda>s. map_option node_token (peek_node s inner))) (\<lambda>tok.
             case tok of
               None \<Rightarrow> fail (Undefined ''null pointer'')
             | Some t \<Rightarrow> bnd (set_token lhs t) (\<lambda>_. ret lhs))
           else ret inner)))"

text \<open>The loop over the brackets: its state is \<open>lhs\<close> and whether the loop was left by
  \<open>return\<close>.\<close>

definition parse_primary :: "recs \<Rightarrow> ptr parse" where
  "parse_primary r =
     bnd (parse_primary_inner r) (\<lambda>inner.
     if inner \<noteq> Null then
       bnd (while_loop (r_fuel r) (match TkLeftBracket)
              (\<lambda>(lhs, _). bnd (parse_bracket r inner lhs) (\<lambda>(p, continue). ret ((p, \<not> continue), continue)))
              (Null, False)) (\<lambda>(lhs, returned).
       if returned then ret lhs else parse_suffix r inner lhs)
     else parse_literal)"

definition parse_unary :: "recs \<Rightarrow> ptr parse" where
  "parse_unary r =
     bnd (match_any_of [TkBang, TkMinus]) (\<lambda>ok.
     if ok then
       bnd peek_last (\<lambda>op.
       bnd (r_unary r) (\<lambda>e.
       bnd (new_node (new_expr (UnaryExpr NUL Null))) (\<lambda>p.
       case tk_lexeme op of
         [] \<Rightarrow> fail (Undefined ''string_view'')
       | c # _ \<Rightarrow> finish_expr p (UnaryExpr c e))))
     else parse_primary r)"

definition parse_binary_rule :: "recs \<Rightarrow> TokenType list \<Rightarrow> ptr parse \<Rightarrow> ptr parse" where
  "parse_binary_rule r ops rule =
     bnd rule
       (while_loop (r_fuel r) (match_any_of ops)
          (\<lambda>e. bnd peek_last (\<lambda>op.
            bnd rule (\<lambda>right.
            bnd (new_node (new_expr (BinaryExpr (tk_type op) e right))) (\<lambda>p. ret (p, True))))))"

definition parse_range :: "recs \<Rightarrow> ptr parse" where
  "parse_range r = parse_binary_rule r [TkDotDot, TkDotDotEqual] (parse_unary r)"

definition parse_exp :: "recs \<Rightarrow> ptr parse" where
  "parse_exp r = parse_binary_rule r [TkStarStar] (parse_range r)"

definition parse_factor :: "recs \<Rightarrow> ptr parse" where
  "parse_factor r = parse_binary_rule r [TkStar, TkForwardSlash, TkPercent] (parse_exp r)"

definition parse_term :: "recs \<Rightarrow> ptr parse" where
  "parse_term r = parse_binary_rule r [TkPlus, TkMinus] (parse_factor r)"

definition parse_comparison :: "recs \<Rightarrow> ptr parse" where
  "parse_comparison r = parse_binary_rule r [TkLess, TkLessEqual, TkGreater, TkGreaterEqual] (parse_term r)"

definition parse_equality :: "recs \<Rightarrow> ptr parse" where
  "parse_equality r = parse_binary_rule r [TkEqualEqual, TkBangEqual] (parse_comparison r)"

definition parse_or :: "recs \<Rightarrow> ptr parse" where
  "parse_or r = parse_binary_rule r [TkOr] (parse_equality r)"

definition parse_and :: "recs \<Rightarrow> ptr parse" where
  "parse_and r = parse_binary_rule r [TkAnd] (parse_or r)"

definition expression :: "recs \<Rightarrow> ptr parse" where
  "expression r = parse_and r"

subsection \<open>Statements\<close>

definition declare_to :: "recs \<Rightarrow> ptr list \<Rightarrow> ptr list parse" where
  "declare_to r ns = bnd (r_declaration r) (\<lambda>p. ret (if p \<noteq> Null then ns @ [p] else ns))"

definition parse_block :: "recs \<Rightarrow> ptr parse" where
  "parse_block r =
     bnd (new_node (new_stmt (BlockStmt []))) (\<lambda>stmt.
     bnd (while_loop (r_fuel r) (not_peek TkRightBrace)
            (\<lambda>ns. bnd (declare_to r ns) (\<lambda>ns'. ret (ns', True))) []) (\<lambda>ns.
     bnd (expect TkRightBrace) (\<lambda>_. finish_stmt stmt (BlockStmt ns))))"

definition import_path :: "recs \<Rightarrow> string list parse" where
  "import_path r =
     while_loop (r_fuel r) (match TkIdentifier)
       (\<lambda>path. bnd peek_last (\<lambda>tok. bnd (match TkDot) (\<lambda>dot. ret (path @ [tk_lexeme tok], dot)))) []"

definition selective_imports :: "recs \<Rightarrow> (string \<times> string) list parse" where
  "selective_imports r =
     while_loop (r_fuel r) (match TkIdentifier)
       (\<lambda>names.
         bnd peek_last (\<lambda>tok.
         bnd (match TkEqual) (\<lambda>renamed.
         bnd (if renamed then bnd (expect TkIdentifier) (\<lambda>t. ret (tk_lexeme t))
              else ret (tk_lexeme tok)) (\<lambda>symbol_name.
         bnd (match TkComma) (\<lambda>comma. ret (names @ [(symbol_name, tk_lexeme tok)], comma)))))) []"

definition parse_import :: "recs \<Rightarrow> ptr parse" where
  "parse_import r =
     bnd (new_node (new_stmt (ImportStmt empty_import))) (\<lambda>stmt.
     bnd (lx (lex_match_next TkEqual)) (\<lambda>renamed.
     bnd (if renamed then bnd peek_last (\<lambda>tok. bnd advance (\<lambda>_. ret (tk_lexeme tok)))
          else ret []) (\<lambda>alias.
     bnd (import_path r) (\<lambda>path.
     bnd (match TkColon) (\<lambda>colon.
     bnd (if colon then selective_imports r else ret []) (\<lambda>names.
     finish_stmt stmt (ImportStmt \<lparr>im_module = None, im_path = path, im_alias = alias, im_selective = names\<rparr>)))))))"

definition parse_if :: "recs \<Rightarrow> ptr parse" where
  "parse_if r =
     bnd (new_node (new_stmt (IfStmt Null Null Null))) (\<lambda>stmt.
     bnd (without_initializers (expression r)) (\<lambda>condition.
     bnd (expect TkLeftBrace) (\<lambda>_.
     bnd (parse_block r) (\<lambda>body.
     bnd (match TkElse) (\<lambda>has_else.
     bnd (if has_else then
            bnd (match TkIf) (\<lambda>else_if.
            if else_if then r_if r
            else bnd (expect TkLeftBrace) (\<lambda>_. parse_block r))
          else ret Null) (\<lambda>else_br.
     finish_stmt stmt (IfStmt condition body else_br)))))))"

definition parse_while :: "recs \<Rightarrow> ptr \<Rightarrow> ptr parse" where
  "parse_while r condition =
     bnd (new_node (new_stmt (WhileStmt Null Null))) (\<lambda>stmt.
     bnd (expect TkLeftBrace) (\<lambda>_.
     bnd (parse_block r) (\<lambda>body. finish_stmt stmt (WhileStmt condition body))))"

definition parse_loop :: "recs \<Rightarrow> ptr parse" where
  "parse_loop r =
     bnd (new_node (new_expr (LiteralExpr (LInt 0)))) (\<lambda>literal.
     bnd (change_node literal (set_expr_body (LiteralExpr (LBool True)))) (\<lambda>_.
     parse_while r literal))"

definition for_bindings :: "recs \<Rightarrow> ptr list parse" where
  "for_bindings r =
     while_loop (r_fuel r) (match TkIdentifier)
       (\<lambda>vars.
         bnd (new_node (new_stmt (VarDeclStmt empty_var_decl))) (\<lambda>var.
         bnd peek_last (\<lambda>tok.
         bnd (finish_stmt var (VarDeclStmt (empty_var_decl\<lparr>vd_symbol := named_symbol (tk_lexeme tok)\<rparr>))) (\<lambda>_.
         bnd (match TkComma) (\<lambda>comma. ret (vars @ [var], comma)))))) []"

definition parse_for :: "recs \<Rightarrow> ptr parse" where
  "parse_for r =
     bnd (new_node (new_stmt (ForStmt [] Null Null))) (\<lambda>stmt.
     bnd (for_bindings r) (\<lambda>vars.
     bnd (expect TkIn) (\<lambda>_.
     bnd (without_initializers (expression r)) (\<lambda>iterable.
     bnd (expect TkLeftBrace) (\<lambda>_.
     bnd (parse_block r) (\<lambda>body. finish_stmt stmt (ForStmt vars iterable body)))))))"

text \<open>\<open>is_type_inferred\<close> of a declaration: no type was written.\<close>

definition parse_var :: "recs \<Rightarrow> ptr parse" where
  "parse_var r =
     bnd (new_node (new_stmt (VarDeclStmt empty_var_decl))) (\<lambda>stmt.
     bnd (peek_last_is TkConst) (\<lambda>is_const.
     bnd (peek_last_is TkVar) (\<lambda>is_var.
     bnd (peek_last_is TkLet) (\<lambda>is_let.
     bnd get_symbol (\<lambda>symb.
     bnd (match TkColon) (\<lambda>colon.
     bnd (if colon then parse_type_meta r else ret empty_meta) (\<lambda>meta0.
     bnd (if is_let then mark_mut 0 meta0 else ret meta0) (\<lambda>meta.
     bnd (match TkEqual) (\<lambda>eq.
     bnd (if eq then expression r else ret Null) (\<lambda>init.
     if meta_ptr meta = Null \<and> init = Null then
       bnd peek_last (\<lambda>tok. throw_frontend tok ''Variable without initializer must be explicitly typed'')
     else
       finish_stmt stmt (VarDeclStmt \<lparr>vd_symbol = symb, vd_type = meta, vd_initializer = init,
         vd_flags = (if is_const then VF_Const else 0) OR (if is_var then VF_Var else 0)\<rparr>)))))))))))"

definition parse_assignment :: "recs \<Rightarrow> ptr \<Rightarrow> ptr parse" where
  "parse_assignment r lhs =
     bnd (new_node (new_stmt (AssignmentStmt Null Null TkTokenError))) (\<lambda>stmt.
     bnd advance (\<lambda>_.
     bnd peek_last (\<lambda>op.
     bnd (expression r) (\<lambda>rhs. finish_stmt stmt (AssignmentStmt lhs rhs (tk_type op))))))"

text \<open>\<open>is_equal(&VOID_TYPE)\<close> of the types the parser builds: only \<open>void\<close> itself and the
  packed type are equal to it.\<close>

definition equals_void :: "ptr \<Rightarrow> bool" where
  "equals_void p \<longleftrightarrow> p = Static VOID_TYPE \<or> p = Static PACKED_TYPE"

definition parse_return :: "recs \<Rightarrow> ptr parse" where
  "parse_return r =
     bnd get_current_fn (\<lambda>fn.
     if fn = Null then
       bnd peek_last (\<lambda>tok. throw_frontend tok ''cannot return outside of function'')
     else
       bnd (new_node (new_stmt (ReturnStmt Null))) (\<lambda>stmt.
       bnd (gets (\<lambda>s. as_fn s fn)) (\<lambda>f.
       case f of
         None \<Rightarrow> fail (Undefined ''null pointer'')
       | Some t \<Rightarrow>
           if meta_ptr (fs_return_type (fn_sig t)) = Null then fail (Undefined ''null pointer'')
           else if \<not> equals_void (meta_ptr (fs_return_type (fn_sig t)))
           then bnd (expression r) (\<lambda>e. finish_stmt stmt (ReturnStmt e))
           else ret stmt)))"

subsection \<open>Functions, enums, methods and aliases\<close>

text \<open>The name of a function is bound to the collection of its overloads. If the name is taken
  by anything else, the code uses that node as a collection all the same.\<close>

definition add_overload :: "symbol \<Rightarrow> bool \<Rightarrow> ptr \<Rightarrow> ptr parse" where
  "add_overload symb is_public fn s =
     (let (c, s1) = get_or_add_symbol (NFnCollection empty_token []) symb is_public None s
      in case as_fn_collection s1 c of
           None \<Rightarrow> Inl (Undefined ''not a function collection'')
         | Some _ \<Rightarrow> Inr (c, poke_node c (add_function fn) s1))"

definition change_fn :: "ptr \<Rightarrow> (fn_type \<Rightarrow> fn_type) \<Rightarrow> unit parse" where
  "change_fn p f = change_node p (upd_fn f)"

definition parse_fn_body :: "recs \<Rightarrow> ptr \<Rightarrow> bool \<Rightarrow> unit parse" where
  "parse_fn_body r fn is_extern =
     bnd (match TkArrow) (\<lambda>arrow.
     if arrow then
       bnd (change_fn fn (\<lambda>f. f\<lparr>fn_flags := fn_flags f OR FF_Inline OR FF_ArrowFn\<rparr>)) (\<lambda>_.
       bnd (new_node (new_stmt (BlockStmt []))) (\<lambda>body.
       bnd (change_fn fn (\<lambda>f. f\<lparr>fn_body := body\<rparr>)) (\<lambda>_.
       bnd (expression r) (\<lambda>e. change_node body (set_stmt_body (BlockStmt [e]))))))
     else
       bnd (match TkLeftBrace) (\<lambda>brace.
       if brace then bnd (parse_block r) (\<lambda>body. change_fn fn (\<lambda>f. f\<lparr>fn_body := body\<rparr>))
       else if \<not> is_extern then
         bnd peek (\<lambda>tok. throw_frontend tok ''non extern function must have a body'')
       else ret ()))"

text \<open>The function is on the stack while its body is read.\<close>

definition in_function :: "ptr \<Rightarrow> 'a parse \<Rightarrow> 'a parse" where
  "in_function fn m =
     bnd (modify (\<lambda>s. s\<lparr>m_function_stack := m_function_stack s @ [fn]\<rparr>)) (\<lambda>_.
     bnd m (\<lambda>x.
     bnd (modify (\<lambda>s. s\<lparr>m_function_stack := butlast (m_function_stack s)\<rparr>)) (\<lambda>_. ret x)))"

definition parse_fn :: "recs \<Rightarrow> ptr list \<Rightarrow> ptr parse" where
  "parse_fn r added_params =
     bnd (new_node (new_type (FnType empty_fn))) (\<lambda>fn.
     bnd get_symbol (\<lambda>symb.
     bnd (symbol_has symb TkExtern) (\<lambda>is_extern.
     bnd (symbol_has symb TkPrivate) (\<lambda>is_private.
     bnd (symbol_has symb TkStatic) (\<lambda>is_static.
     bnd (parse_fn_signature r True (if is_static then [] else added_params)) (\<lambda>sig.
     bnd (change_fn fn (\<lambda>f. f\<lparr>fn_symbol := symb, fn_sig := sig,
            fn_flags := (if is_extern then FF_Extern else 0) OR (if is_private then FF_Private else 0) OR
              (if is_static then FF_Static else 0)\<rparr>)) (\<lambda>_.
     bnd (add_overload symb (\<not> is_private) fn) (\<lambda>collection.
     bnd (change_fn fn (\<lambda>f. f\<lparr>fn_collection := collection\<rparr>)) (\<lambda>_.
     bnd (in_function fn (parse_fn_body r fn is_extern)) (\<lambda>_. ret fn))))))))))"

text \<open>\<open>atol\<close> of a literal that does not fit into 64 bits is undefined.\<close>

definition enum_value :: "string \<Rightarrow> 64 word option" where
  "enum_value lexeme =
     (let n = decimal_value lexeme 0 in if n < 2 ^ 63 then Some (of_nat n) else None)"

definition enum_field :: "64 word \<times> enum_type \<Rightarrow> (64 word \<times> enum_type) parse" where
  "enum_field st =
     (case st of (highest, type) \<Rightarrow>
     bnd get_symbol (\<lambda>symb.
     bnd (match TkEqual) (\<lambda>eq.
     bnd (if eq then
            bnd (expect TkIntegerLiteral) (\<lambda>tok.
            case enum_value (tk_lexeme tok) of None \<Rightarrow> fail (Undefined ''atol'') | Some v \<Rightarrow> ret v)
          else ret highest) (\<lambda>value.
     let default = (if en_default_value type = - 1 then value else en_default_value type);
         variant = \<lparr>ev_symbol = symb, ev_value = value\<rparr>;
         (ok, variants) = hm_emplace (sy_name symb) variant (en_variants type)
     in if ok then ret (value + 1, type\<lparr>en_default_value := default, en_variants := variants\<rparr>)
        else bnd peek_last (\<lambda>tok. throw_frontend tok ''Duplicate variant found'')))))"

definition parse_enum :: "recs \<Rightarrow> ptr parse" where
  "parse_enum r =
     bnd (new_node (new_type (EnumType empty_enum))) (\<lambda>type.
     bnd get_symbol (\<lambda>symb.
     bnd (parse_fields r enum_field (0, empty_enum\<lparr>en_symbol := symb\<rparr>)) (\<lambda>(_, enum).
     bnd (finish_type type (EnumType enum)) (\<lambda>_.
     bnd (add_name symb type True) (\<lambda>_. ret type)))))"

definition parse_impl :: "recs \<Rightarrow> ptr parse" where
  "parse_impl r =
     bnd (new_node (new_stmt (ImplStmt empty_symbol Null []))) (\<lambda>stmt.
     bnd (gets (\<lambda>s. case peek_node s stmt of Some n \<Rightarrow> node_token n | None \<Rightarrow> empty_token)) (\<lambda>tok.
     bnd get_symbol (\<lambda>symb.
     bnd (expect TkLeftBrace) (\<lambda>_.
     bnd (while_loop (r_fuel r) (not_peek TkRightBrace)
            (\<lambda>methods.
              bnd (collect_attributes r) (\<lambda>_.
              bnd (new_node (new_stmt (VarDeclStmt (empty_var_decl\<lparr>vd_symbol := named_symbol ''self''\<rparr>)))) (\<lambda>self.
              bnd (set_token self tok) (\<lambda>_.
              bnd (expect TkFn) (\<lambda>_.
              bnd (parse_fn r [self]) (\<lambda>fn. ret (methods @ [fn], True))))))) []) (\<lambda>methods.
     bnd (expect TkRightBrace) (\<lambda>_. finish_stmt stmt (ImplStmt symb Null methods)))))))"

definition parse_alias :: "recs \<Rightarrow> ptr parse" where
  "parse_alias r =
     bnd (new_node (new_type (AliasType empty_alias))) (\<lambda>type.
     bnd get_symbol (\<lambda>symb.
     bnd (expect TkEqual) (\<lambda>_.
     bnd (match TkDistinct) (\<lambda>is_distinct.
     bnd (parse_type_meta r) (\<lambda>meta.
     bnd (finish_type type (AliasType (empty_alias\<lparr>al_symbol := symb, al_is_distinct := is_distinct,
       al_type := meta\<rparr>))) (\<lambda>_.
     bnd (symbol_has symb TkPrivate) (\<lambda>is_private.
     bnd (add_name symb type (\<not> is_private)) (\<lambda>_. ret type))))))))"

subsection \<open>Declarations and the whole file\<close>

definition statement_expression :: "recs \<Rightarrow> ptr parse" where
  "statement_expression r =
     bnd (parse_primary r) (\<lambda>e.
     bnd peek (\<lambda>tok.
     if is_assignment_op (tk_type tok) then parse_assignment r e else ret e))"

definition parse_statement :: "recs \<Rightarrow> ptr parse" where
  "parse_statement r =
     bnd (match TkIf) (\<lambda>is_if.
     if is_if then parse_if r
     else
       bnd (lx (lex_match_both TkDollar TkIf)) (\<lambda>comp_if.
       if comp_if then
         bnd (new_node (new_stmt (CompIfStmt Null))) (\<lambda>stmt.
         bnd (parse_if r) (\<lambda>i. finish_stmt stmt (CompIfStmt i)))
       else
         bnd (match TkImport) (\<lambda>is_import.
         if is_import then parse_import r
         else
           bnd (match TkWhile) (\<lambda>is_while.
           if is_while then
             bnd (without_initializers (expression r)) (\<lambda>condition. parse_while r condition)
           else
             bnd (match TkLoop) (\<lambda>is_loop.
             if is_loop then parse_loop r
             else
               bnd (match TkBreak) (\<lambda>is_break.
               if is_break then new_node (new_stmt BreakStmt)
               else
                 bnd (match TkContinue) (\<lambda>is_continue.
                 if is_continue then new_node (new_stmt ContinueStmt)
                 else
                   bnd (match TkFor) (\<lambda>is_for.
                   if is_for then parse_for r
                   else
                     bnd (match TkLeftBrace) (\<lambda>is_block.
                     if is_block then parse_block r
                     else
                       bnd (match TkReturn) (\<lambda>is_return.
                       if is_return then parse_return r
                       else statement_expression r))))))))))"

definition parse_declaration :: "recs \<Rightarrow> ptr parse" where
  "parse_declaration r =
     bnd (collect_attributes r) (\<lambda>_.
     bnd (match TkFn) (\<lambda>is_fn.
     if is_fn then parse_fn r []
     else
       bnd (match TkStruct) (\<lambda>is_struct.
       if is_struct then parse_struct r False
       else
         bnd (match TkImpl) (\<lambda>is_impl.
         if is_impl then parse_impl r
         else
           bnd (match TkEnum) (\<lambda>is_enum.
           if is_enum then parse_enum r
           else
             bnd (match_any_of [TkVar, TkLet, TkConst]) (\<lambda>is_var.
             if is_var then parse_var r
             else
               bnd (match TkAlias) (\<lambda>is_alias.
               if is_alias then parse_alias r
               else
                 bnd (modify (\<lambda>s. s\<lparr>m_pending_attributes := []\<rparr>)) (\<lambda>_. parse_statement r))))))))"

text \<open>Tying the methods: \<open>knot n\<close> may nest \<open>n\<close> calls.\<close>

definition out_of_fuel :: recs where
  "out_of_fuel =
     \<lparr>r_fuel = 0, r_expression = fail OutOfFuel, r_unary = fail OutOfFuel, r_primary = fail OutOfFuel,
      r_type = (\<lambda>_ _ _. fail OutOfFuel), r_declaration = fail OutOfFuel, r_if = fail OutOfFuel\<rparr>"

definition tie :: "recs \<Rightarrow> recs" where
  "tie r =
     \<lparr>r_fuel = Suc (r_fuel r), r_expression = expression r, r_unary = parse_unary r,
      r_primary = parse_primary r, r_type = parse_type r,
      r_declaration = parse_declaration r, r_if = parse_if r\<rparr>"

primrec knot :: "nat \<Rightarrow> recs" where
  "knot 0 = out_of_fuel"
| "knot (Suc n) = tie (knot n)"

definition at_scopes :: "(scope_table \<Rightarrow> scope_table) \<Rightarrow> unit parse" where
  "at_scopes f = modify (\<lambda>s. s\<lparr>scopes := f (scopes s)\<rparr>)"

text \<open>The condition of the loop over the file looks one token ahead of the current one.\<close>

definition more_declarations :: "bool parse" where
  "more_declarations =
     bnd (gets (\<lambda>s. lex_has_next (m_lexer s))) (\<lambda>more.
     if more then bnd (lx (lex_match_next TkEof)) (\<lambda>eof. ret (\<not> eof)) else ret False)"

definition parse :: "nat \<Rightarrow> ptr list parse" where
  "parse fuel =
     bnd (at_scopes (set_lock 0)) (\<lambda>_.
     bnd (while_loop fuel more_declarations
            (\<lambda>ns. bnd (declare_to (knot fuel) ns) (\<lambda>ns'. ret (ns', True))) []) (\<lambda>ns.
     bnd (modify (\<lambda>s. s\<lparr>m_nodes := m_nodes s @ ns\<rparr>)) (\<lambda>_.
     bnd (at_scopes (set_lock UNLOCKED_LEVEL)) (\<lambda>_. gets m_nodes))))"

text \<open>A parser in front of a file, for a module with nothing declared.\<close>

definition new_parser :: "16 word \<Rightarrow> string \<Rightarrow> (nat \<Rightarrow> byte) \<Rightarrow> arena \<Rightarrow> parser" where
  "new_parser file contents beyond escapes =
     \<lparr>nodes = [], g_attributes = [], g_global_symbols = [],
      scopes = set_file_id file new_scope_table,
      m_lexer = new_lexer file contents beyond escapes, m_nodes = [], m_function_stack = [],
      m_pending_attributes = [], m_module_attributes = [], m_can_initialize_stack = []\<rparr>"

end
