(* ===== verification/Parser_Fuel.thy ===== *)
theory Parser_Fuel
  imports Parser
begin

section \<open>The parser always returns\<close>

text \<open>
  How much of the input is left bounds what the parser can still do: every loop and every
  call back consumes a token first. The argument is kept in triples \<open>runs n m Q\<close>: started with
  at most \<open>n\<close> left, \<open>m\<close> does not run out of fuel, and returns \<open>x\<close> with at most \<open>k\<close> left for
  some \<open>k\<close> with \<open>Q x k\<close>.
\<close>

subsection \<open>What is left\<close>

definition live :: "token option \<Rightarrow> nat" where
  "live t = (case t of None \<Rightarrow> 0 | Some k \<Rightarrow> if tk_type k = TkEof then 0 else 1)"

text \<open>The unread bytes and the tokens of the window that are not \<open>Eof\<close>.\<close>

definition left :: "lexer \<Rightarrow> nat" where
  "left l = (length (m_source (m_reader l)) - m_offset (m_reader l)) +
     live (m_next_token l) + live (m_current_token l)"

lemma live_le: "live t \<le> 1"
  by (simp add: live_def split: option.splits)

lemma advance_one_at_end:
  assumes "at_end (m_reader l)" and "advance_one l = Inr (t, l')"
  shows "tk_type t = TkEof"
  using advance_one_eof [of l] assms by (auto simp: at_end_rest)

lemma advance_one_left:
  assumes "advance_one l = Inr (t, l')"
  shows "(length (m_source (m_reader l')) - m_offset (m_reader l')) + live (Some t) \<le>
    length (m_source (m_reader l)) - m_offset (m_reader l)"
proof (cases "at_end (m_reader l)")
  case True
  then have "live (Some t) = 0" using advance_one_at_end assms by (simp add: live_def)
  then show ?thesis using advance_one_fwd(1) [OF assms] by (auto simp: lex_fwd_def reader_fwd_def)
next
  case False
  then show ?thesis
    using advance_one_fwd [OF assms] live_le [of "Some t"]
    by (auto simp: lex_fwd_def reader_fwd_def at_end_def)
qed

lemma lex_advance_left:
  assumes "lex_advance l = Inr (t, l')"
  shows "left l' + live (m_current_token l) \<le> left l" and "m_current_token l' = Some t"
proof -
  show "m_current_token l' = Some t" by (rule lex_advance_frame(4) [OF assms])
  show "left l' + live (m_current_token l) \<le> left l"
  proof (cases "m_next_token l")
    case (Some u)
    then have "l' = set_window (m_current_token l) (Some u) None l" "u = t"
      using assms by (auto simp: lex_advance_window)
    then show ?thesis using Some by (simp add: left_def live_def)
  next
    case None
    then obtain l1 where l1: "advance_one l = Inr (t, l1)"
      "l' = set_window (m_current_token l) (Some t) None l1"
      using assms by (auto simp: lex_advance_window split: sum.splits)
    from advance_one_left [OF l1(1)] l1(2) None show ?thesis
      by (simp add: left_def live_def)
  qed
qed

lemma lex_peek_left:
  "lex_peek l = Inr (t, l') \<Longrightarrow> left l' \<le> left l \<and> m_current_token l' = Some t"
  using lex_advance_left [of l t l']
  by (auto simp: lex_peek_def live_def split: option.splits)

lemma lex_peek_next_left:
  assumes "lex_peek_next l = Inr (t, l')"
  shows "left l' \<le> left l"
proof (cases "m_next_token l")
  case (Some u)
  then show ?thesis using assms by (simp add: lex_peek_next_def)
next
  case None
  then obtain l1 where l1: "advance_one l = Inr (t, l1)" "l' = l1\<lparr>m_next_token := Some t\<rparr>"
    using assms by (auto simp: lex_peek_next_def split: sum.splits)
  then show ?thesis
    using advance_one_left [OF l1(1)] advance_one_fwd(1) [OF l1(1)] None
    by (simp add: left_def lex_fwd_def)
qed

lemma lex_peek_is_left:
  assumes "lex_peek_is t l = Inr (b, l')"
  shows "left l' \<le> left l" and "b \<Longrightarrow> t \<noteq> TkEof \<Longrightarrow> live (m_current_token l') = 1"
  using assms lex_peek_left [of l] by (auto simp: lex_peek_is_def live_def)

lemma lex_peek_next_is_left: "lex_peek_next_is t l = Inr (b, l') \<Longrightarrow> left l' \<le> left l"
  using lex_peek_next_left [of l] by (auto simp: lex_peek_next_is_def)

lemma lex_match_left:
  assumes "lex_match t l = Inr (b, l')" and "t \<noteq> TkEof"
  shows "left l' + (if b then 1 else 0) \<le> left l"
proof -
  obtain ok l1 where 1: "lex_peek_is t l = Inr (ok, l1)"
    "(if ok then bnd lex_advance (\<lambda>_. ret True) else ret False) l1 = Inr (b, l')"
    using assms(1) by (auto simp: lex_match_def)
  show ?thesis
  proof (cases ok)
    case True
    then obtain k where "lex_advance l1 = Inr (k, l')" "b" using 1(2) by auto
    then show ?thesis
      using lex_advance_left(1) [of l1 k l'] lex_peek_is_left [OF 1(1)] True assms(2) by simp
  next
    case False
    then show ?thesis using 1 lex_peek_is_left(1) [OF 1(1)] by simp
  qed
qed

lemma lex_match_next_left:
  assumes "lex_match_next t l = Inr (b, l')"
  shows "left l' \<le> left l"
proof -
  obtain ok l1 where 1: "lex_peek_next_is t l = Inr (ok, l1)"
    "(if ok then bnd lex_advance (\<lambda>_. ret True) else ret False) l1 = Inr (b, l')"
    using assms(1) by (auto simp: lex_match_next_def)
  show ?thesis
    using 1 lex_peek_next_is_left [OF 1(1)] lex_advance_left(1) [of l1 _ l']
    by (fastforce split: if_splits)
qed

lemma lex_match_both_left:
  assumes "lex_match_both t u l = Inr (b, l')" and "t \<noteq> TkEof"
  shows "left l' + (if b then 1 else 0) \<le> left l"
proof -
  obtain ok l1 where 1: "lex_peek_is t l = Inr (ok, l1)"
    "(if ok then bnd (lex_peek_next_is u) (\<lambda>ok_b. if ok_b
        then bnd lex_advance (\<lambda>_. bnd lex_advance (\<lambda>_. ret True)) else ret False) else ret False) l1 =
     Inr (b, l')"
    using assms(1) by (auto simp: lex_match_both_def)
  note p = lex_peek_is_left [OF 1(1)]
  show ?thesis
  proof (cases ok)
    case False
    then show ?thesis using 1 p by simp
  next
    case True
    then obtain ok2 l2 where 2: "lex_peek_next_is u l1 = Inr (ok2, l2)"
      "(if ok2 then bnd lex_advance (\<lambda>_. bnd lex_advance (\<lambda>_. ret True)) else ret False) l2 = Inr (b, l')"
      using 1(2) by auto
    have cur: "m_current_token l2 = m_current_token l1"
      using 2(1) advance_one_fwd(1) [of l1]
      by (auto simp: lex_peek_next_is_def lex_peek_next_def lex_fwd_def split: option.splits sum.splits)
    note p2 = lex_peek_next_is_left [OF 2(1)]
    show ?thesis
    proof (cases ok2)
      case False
      then show ?thesis using 2 p(1) p2 by simp
    next
      case t: True
      then obtain x y l3 where "lex_advance l2 = Inr (x, l3)" "lex_advance l3 = Inr (y, l')" "b"
        using 2(2) by auto
      then show ?thesis
        using lex_advance_left(1) [of l2 x l3] lex_advance_left(1) [of l3 y l'] p p2 cur True assms(2)
        by simp
    qed
  qed
qed

lemma lex_expect_left:
  assumes "lex_expect t l = Inr (k, l')" and "t \<noteq> TkEof"
  shows "left l' < left l"
proof -
  obtain ok l1 where 1: "lex_peek_is t l = Inr (ok, l1)"
    "(if \<not> ok then bnd lex_peek (\<lambda>got. bnd lex_peek (\<lambda>tok.
        throw_formatted tok ''expected {} but got {}'' [enum_name t, enum_name (tk_type got)]))
      else bnd lex_advance (\<lambda>_. lex_peek_last)) l1 = Inr (k, l')"
    using assms(1) by (auto simp: lex_expect_def)
  have ok using 1(2) by (auto simp: throw_formatted_def split: if_splits option.splits)
  then obtain x where "lex_advance l1 = Inr (x, l')"
    using 1(2) by (auto simp: lex_peek_last_def)
  then show ?thesis
    using lex_advance_left(1) [of l1 x l'] lex_peek_is_left [OF 1(1)] \<open>ok\<close> assms(2) by simp
qed


text \<open>The lexer needs no fuel and follows no pointers.\<close>

definition foreign :: "exn \<Rightarrow> bool" where
  "foreign e \<longleftrightarrow> e = OutOfFuel \<or> e = Undefined ''null pointer''"

lemma foreign_simps [simp]:
  "foreign OutOfFuel" "foreign (Undefined ''null pointer'')" "\<not> foreign (Frontend t m)"
  "\<not> foreign (OutOfRange m)" "\<not> foreign (Undefined ''escaped_char'')" "\<not> foreign (Undefined ''format'')"
  by (simp_all add: foreign_def)

lemma not_foreign_eq: "\<not> foreign e' \<Longrightarrow> foreign e \<Longrightarrow> e' \<noteq> e"
  by auto

lemma string_loop_errors: "foreign e \<Longrightarrow> string_loop start r a \<noteq> Inl e"
proof (induction start r a rule: string_loop.induct)
  case (1 start r a)
  obtain c r1 where adv: "rd_advance r = (c, r1)" by fastforce
  obtain esc r2 where esc: "is_escape_sequence r1 = (esc, r2)" by fastforce
  obtain m r3 a1 where op: "open_escape start r2 a = (m, r3, a1)" by (metis prod_cases3)
  show ?case
  proof (cases "at_end r \<or> rd_peek r = dquote")
    case True
    then show ?thesis by (simp add: string_loop.simps [of start r a])
  next
    case False
    then show ?thesis
      using "1.IH" [OF False adv [symmetric] _ esc [symmetric]] "1.prems" adv esc op
      by (subst string_loop.simps) (auto split: option.splits)
  qed
qed

lemma build_string_errors: "foreign e \<Longrightarrow> build_string l \<noteq> Inl e"
  using string_loop_errors [of e None "m_reader l" "g_escape_buffer l"]
  by (auto simp: build_string_def Let_def split: sum.splits prod.splits if_splits)

lemma build_char_errors: "foreign e \<Longrightarrow> build_char l \<noteq> Inl e"
  by (auto simp: build_char_def char_lexeme_def Let_def split: sum.splits prod.splits option.splits if_splits)

lemma advance_one_errors: "foreign e \<Longrightarrow> advance_one l \<noteq> Inl e"
  using build_string_errors build_char_errors
  by (auto simp: advance_one_def Let_def throw_frontend_def split: prod.splits option.splits if_splits)

lemma lex_advance_errors: "foreign e \<Longrightarrow> lex_advance l \<noteq> Inl e"
  using advance_one_errors [of e l] by (simp add: lex_advance_window split: option.splits sum.splits) metis

lemma lex_peek_errors: "foreign e \<Longrightarrow> lex_peek l \<noteq> Inl e"
  using lex_advance_errors by (simp add: lex_peek_def split: option.splits)

lemma lex_peek_next_errors: "foreign e \<Longrightarrow> lex_peek_next l \<noteq> Inl e"
  using advance_one_errors by (auto simp: lex_peek_next_def split: option.splits sum.splits)

lemma throw_formatted_errors: "foreign e \<Longrightarrow> throw_formatted t f args s \<noteq> Inl e"
  by (auto simp: throw_formatted_def foreign_def split: option.splits)

lemmas lexer_errors = lex_advance_errors lex_peek_errors lex_peek_next_errors throw_formatted_errors

lemma lex_match_errors: "foreign e \<Longrightarrow> lex_match t l \<noteq> Inl e"
  by (auto simp: lex_match_def lex_peek_is_def lexer_errors bnd_eq_Inl_iff split: if_splits)

lemma lex_match_next_errors: "foreign e \<Longrightarrow> lex_match_next t l \<noteq> Inl e"
  by (auto simp: lex_match_next_def lex_peek_next_is_def lexer_errors bnd_eq_Inl_iff split: if_splits)

lemma lex_match_both_errors: "foreign e \<Longrightarrow> lex_match_both t u l \<noteq> Inl e"
  by (auto simp: lex_match_both_def lex_peek_is_def lex_peek_next_is_def lexer_errors bnd_eq_Inl_iff
      split: if_splits)

lemma lex_expect_errors: "foreign e \<Longrightarrow> lex_expect t l \<noteq> Inl e"
  by (auto simp: lex_expect_def lex_peek_is_def lex_peek_last_def lexer_errors bnd_eq_Inl_iff split: if_splits)

lemma lex_peek_is_errors: "foreign e \<Longrightarrow> lex_peek_is t l \<noteq> Inl e"
  by (auto simp: lex_peek_is_def lexer_errors bnd_eq_Inl_iff)

lemmas lexer_fuel = lexer_errors [where e = OutOfFuel, simplified]
lemmas lex_match_fuel = lex_match_errors [where e = OutOfFuel, simplified]
lemmas lex_match_next_fuel = lex_match_next_errors [where e = OutOfFuel, simplified]
lemmas lex_match_both_fuel = lex_match_both_errors [where e = OutOfFuel, simplified]
lemmas lex_expect_fuel = lex_expect_errors [where e = OutOfFuel, simplified]

subsection \<open>Triples\<close>

definition runs :: "nat \<Rightarrow> 'a parse \<Rightarrow> ('a \<Rightarrow> nat \<Rightarrow> bool) \<Rightarrow> bool" where
  "runs n m Q \<longleftrightarrow>
     (\<forall>s. left (m_lexer s) \<le> n \<longrightarrow>
        (case m s of
           Inl e \<Rightarrow> e \<noteq> OutOfFuel
         | Inr (x, s') \<Rightarrow> \<exists>k. left (m_lexer s') \<le> k \<and> Q x k))"

lemma runsI:
  assumes "\<And>s. left (m_lexer s) \<le> n \<Longrightarrow> m s \<noteq> Inl OutOfFuel"
    and "\<And>s x s'. left (m_lexer s) \<le> n \<Longrightarrow> m s = Inr (x, s') \<Longrightarrow> \<exists>k. left (m_lexer s') \<le> k \<and> Q x k"
  shows "runs n m Q"
  using assms unfolding runs_def by (auto split: sum.splits)

lemma runs_bnd:
  assumes "runs n m Q" and "\<And>x k. Q x k \<Longrightarrow> runs k (f x) R"
  shows "runs n (bnd m f) R"
proof (rule runsI)
  fix s :: parser
  assume l: "left (m_lexer s) \<le> n"
  note m = assms(1) [unfolded runs_def, rule_format, OF l]
  show "bnd m f s \<noteq> Inl OutOfFuel"
  proof (cases "m s")
    case (Inl e)
    then show ?thesis using m by (simp add: bnd_def)
  next
    case (Inr p)
    obtain x s1 where p: "p = (x, s1)" by fastforce
    then obtain k where "left (m_lexer s1) \<le> k" "Q x k" using m Inr by auto
    then have "f x s1 \<noteq> Inl OutOfFuel"
      using assms(2) [of x k] by (auto simp: runs_def split: sum.splits)
    then show ?thesis using Inr p by (simp add: bnd_def)
  qed
  fix y s' assume "bnd m f s = Inr (y, s')"
  then obtain x s1 where 1: "m s = Inr (x, s1)" "f x s1 = Inr (y, s')" by auto
  then obtain k where k: "left (m_lexer s1) \<le> k" "Q x k" using m by auto
  from assms(2) [OF k(2), unfolded runs_def, rule_format, OF k(1)] 1(2)
  show "\<exists>k. left (m_lexer s') \<le> k \<and> R y k" by simp
qed

lemma runs_weaken: "runs n m Q \<Longrightarrow> (\<And>x k. Q x k \<Longrightarrow> R x k) \<Longrightarrow> runs n m R"
  unfolding runs_def by (fastforce split: sum.splits)

lemma runs_ret: "Q x n \<Longrightarrow> runs n (ret x) Q"
  by (auto simp: runs_def)

lemma runs_fail: "e \<noteq> OutOfFuel \<Longrightarrow> runs n (fail e) Q"
  by (simp add: runs_def)

lemma runs_throw: "runs n (throw_frontend t msg) Q"
  by (simp add: runs_def)

lemma runs_throw_formatted: "runs n (throw_formatted t f args) Q"
  by (auto simp: runs_def throw_formatted_def split: option.splits)

text \<open>An operation that leaves the lexer alone.\<close>

definition pure_op :: "'a parse \<Rightarrow> bool" where
  "pure_op m \<longleftrightarrow> (\<forall>s. case m s of Inl e \<Rightarrow> e \<noteq> OutOfFuel | Inr (x, s') \<Rightarrow> m_lexer s' = m_lexer s)"

lemma runs_pure_end:
  assumes "pure_op m" and "\<And>x. Q x n"
  shows "runs n m Q"
proof (rule runsI)
  fix s :: parser
  have m: "case m s of Inl e \<Rightarrow> e \<noteq> OutOfFuel | Inr (x, s') \<Rightarrow> m_lexer s' = m_lexer s"
    using assms(1) by (simp add: pure_op_def)
  then show "m s \<noteq> Inl OutOfFuel" by (auto split: sum.splits)
  fix x s' assume "left (m_lexer s) \<le> n" "m s = Inr (x, s')"
  with m show "\<exists>k. left (m_lexer s') \<le> k \<and> Q x k" using assms(2) by (intro exI [of _ n]) simp
qed

lemma runs_pure: "pure_op m \<Longrightarrow> (\<And>x. runs n (f x) R) \<Longrightarrow> runs n (bnd m f) R"
  by (rule runs_bnd [where Q = "\<lambda>_ k. k = n"]) (auto intro: runs_pure_end)

lemma pure_gets: "pure_op (gets f)"
  by (simp add: pure_op_def)

lemma pure_modify: "(\<And>s. m_lexer (f s) = m_lexer s) \<Longrightarrow> pure_op (modify f)"
  by (simp add: pure_op_def)

lemma pure_opI:
  assumes "\<And>s. m s \<noteq> Inl OutOfFuel" and "\<And>s x s'. m s = Inr (x, s') \<Longrightarrow> m_lexer s' = m_lexer s"
  shows "pure_op m"
  using assms unfolding pure_op_def by (auto split: sum.splits)

lemma pure_opD:
  assumes "pure_op m"
  shows "m s \<noteq> Inl OutOfFuel" and "m s = Inr (x, s') \<Longrightarrow> m_lexer s' = m_lexer s"
proof -
  have m: "case m s of Inl e \<Rightarrow> e \<noteq> OutOfFuel | Inr (x, s') \<Rightarrow> m_lexer s' = m_lexer s"
    using assms by (simp add: pure_op_def)
  then show "m s \<noteq> Inl OutOfFuel" by (auto split: sum.splits)
  show "m_lexer s' = m_lexer s" if "m s = Inr (x, s')" using m that by simp
qed

lemma pure_bnd:
  assumes "pure_op m" and "\<And>x. pure_op (f x)"
  shows "pure_op (bnd m f)"
  by (rule pure_opI)
    (use pure_opD [OF assms(1)] pure_opD [OF assms(2)] in \<open>auto simp: bnd_eq_Inl_iff\<close>)

lemma pure_ret: "pure_op (ret x)"
  by (simp add: pure_op_def)

lemma pure_peek_last: "pure_op peek_last"
  by (simp add: pure_op_def peek_last_def lx_def lex_peek_last_def)

lemma pure_peek_last_is: "pure_op (peek_last_is t)"
  by (simp add: pure_op_def peek_last_is_def lx_def lex_peek_last_is_def lex_peek_last_def bnd_def)

lemma m_lexer_poke [simp, frame_simps]: "m_lexer (poke_node p f s) = m_lexer s"
  by (simp add: poke_node_def split: ptr.splits)

lemma m_lexer_alloc [simp, frame_simps]: "m_lexer (snd (alloc n s)) = m_lexer s"
  by (simp add: alloc_def)

lemma m_lexer_add_to_scope [simp, frame_simps]: "m_lexer (add_to_scope symb p pub l s) = m_lexer s"
  by (auto simp: add_to_scope_def declare_global_symbol_def Let_def split: prod.splits)

lemma pure_change_node: "pure_op (change_node p f)"
  by (simp add: change_node_def pure_modify)

lemma pure_new_node: "pure_op (new_node n)"
  unfolding new_node_def
  by (rule pure_bnd [OF pure_peek_last]) (simp add: pure_op_def alloc_def)

lemma pure_finish: "pure_op (finish_expr p e)" "pure_op (finish_stmt p st)" "pure_op (finish_type p t)"
  by (simp_all add: finish_expr_def finish_stmt_def finish_type_def pure_bnd pure_change_node pure_ret)

lemma pure_add_name: "pure_op (add_name symb p b)"
  by (simp add: add_name_def pure_modify)

lemma pure_symbol_has: "pure_op (symbol_has symb t)"
  by (simp add: symbol_has_def pure_gets)

lemma pure_current_fn: "pure_op get_current_fn" "pure_op can_initialize"
  by (simp_all add: get_current_fn_def can_initialize_def pure_gets)

lemma pure_add_overload: "pure_op (add_overload symb b fn)"
  by (auto simp: pure_op_def add_overload_def get_or_add_symbol_def Let_def alloc_def split: option.splits prod.splits)

lemma pure_set_token: "pure_op (set_token p t)"
  by (simp add: set_token_def pure_change_node)

lemma pure_finish_literal: "pure_op (finish_literal p v t)"
  by (simp add: finish_literal_def pure_bnd pure_change_node pure_peek_last pure_set_token pure_ret)

lemma pure_change_fn: "pure_op (change_fn p f)"
  by (simp add: change_fn_def pure_change_node)

lemma pure_mark_mut: "pure_op (mark_mut p m)"
  by (auto simp: pure_op_def mark_mut_def set_mut_def)

lemmas pure_ops = pure_mark_mut pure_gets pure_ret pure_peek_last pure_peek_last_is pure_change_node pure_new_node
  pure_finish pure_add_name pure_symbol_has pure_current_fn pure_add_overload pure_set_token
  pure_finish_literal pure_change_fn

text \<open>Taking a token.\<close>

lemma runs_match:
  assumes "t \<noteq> TkEof"
  shows "runs n (match t) (\<lambda>b k. if b then Suc k = n else k = n)"
proof (rule runsI)
  fix s :: parser
  show "match t s \<noteq> Inl OutOfFuel"
    using lex_match_fuel [of t "m_lexer s"] by (auto simp: match_def lx_def split: sum.splits)
  fix b s' assume l: "left (m_lexer s) \<le> n" and m: "match t s = Inr (b, s')"
  then have "lex_match t (m_lexer s) = Inr (b, m_lexer s')"
    by (auto simp: match_def lx_def split: sum.splits)
  from lex_match_left [OF this assms] l
  show "\<exists>k. left (m_lexer s') \<le> k \<and> (if b then Suc k = n else k = n)"
    by (intro exI [of _ "if b then n - 1 else n"]) (auto split: if_splits)
qed

lemma runs_match_both:
  assumes "t \<noteq> TkEof"
  shows "runs n (lx (lex_match_both t u)) (\<lambda>b k. if b then Suc k = n else k = n)"
proof (rule runsI)
  fix s :: parser
  show "lx (lex_match_both t u) s \<noteq> Inl OutOfFuel"
    using lex_match_both_fuel [of t u "m_lexer s"] by (auto simp: lx_def split: sum.splits)
  fix b s' assume l: "left (m_lexer s) \<le> n" and m: "lx (lex_match_both t u) s = Inr (b, s')"
  then have "lex_match_both t u (m_lexer s) = Inr (b, m_lexer s')"
    by (auto simp: lx_def split: sum.splits)
  from lex_match_both_left [OF this assms] l
  show "\<exists>k. left (m_lexer s') \<le> k \<and> (if b then Suc k = n else k = n)"
    by (intro exI [of _ "if b then n - 1 else n"]) (auto split: if_splits)
qed

lemma runs_expect:
  assumes "t \<noteq> TkEof"
  shows "runs n (expect t) (\<lambda>_ k. Suc k = n)"
proof (rule runsI)
  fix s :: parser
  show "expect t s \<noteq> Inl OutOfFuel"
    using lex_expect_fuel [of t "m_lexer s"] by (auto simp: expect_def lx_def split: sum.splits)
  fix b s' assume l: "left (m_lexer s) \<le> n" and m: "expect t s = Inr (b, s')"
  then have "lex_expect t (m_lexer s) = Inr (b, m_lexer s')"
    by (auto simp: expect_def lx_def split: sum.splits)
  from lex_expect_left [OF this assms] l
  show "\<exists>k. left (m_lexer s') \<le> k \<and> Suc k = n" by (intro exI [of _ "n - 1"]) auto
qed

text \<open>Operations that may read ahead but take nothing.\<close>

lemma runs_lx:
  assumes "\<And>l x l'. m l = Inr (x, l') \<Longrightarrow> left l' \<le> left l" and "\<And>l. m l \<noteq> Inl OutOfFuel"
  shows "runs n (lx m) (\<lambda>_ k. k = n)"
  using assms unfolding runs_def lx_def by (fastforce split: sum.splits)

lemma runs_peek: "runs n peek (\<lambda>_ k. k = n)"
  unfolding peek_def by (rule runs_lx) (auto simp: lexer_fuel dest: lex_peek_left)

lemma runs_peek_is: "runs n (peek_is t) (\<lambda>_ k. k = n)"
  unfolding peek_is_def
  by (rule runs_lx)
    (auto simp: lex_peek_is_def lexer_fuel bnd_eq_Inl_iff dest: lex_peek_left)

lemma runs_not_peek: "runs n (not_peek t) (\<lambda>_ k. k = n)"
  unfolding not_peek_def by (rule runs_bnd [OF runs_peek_is]) (simp add: runs_ret)

lemma runs_advance: "runs n advance (\<lambda>_ k. k = n)"
  unfolding advance_def by (rule runs_lx) (auto simp: lexer_fuel dest: lex_advance_left(1))

lemma runs_match_next: "runs n (lx (lex_match_next t)) (\<lambda>_ k. k = n)"
  by (rule runs_lx) (auto simp: lex_match_next_fuel dest: lex_match_next_left)

lemma runs_match_any:
  "TkEof \<notin> set ts \<Longrightarrow> runs n (match_any_of ts) (\<lambda>b k. if b then Suc k = n else k = n)"
proof (induction ts)
  case Nil
  show ?case unfolding match_any_of.simps by (rule runs_ret) simp
next
  case (Cons t ts)
  then have t: "t \<noteq> TkEof" and ih: "runs n (match_any_of ts) (\<lambda>b k. if b then Suc k = n else k = n)" by auto
  show ?case
    unfolding match_any_of.simps
    by (rule runs_bnd [OF runs_match [OF t]]) (use ih in \<open>auto simp: runs_ret split: if_split_asm cong: if_cong\<close>)
qed

text \<open>In front of a continuation.\<close>

lemma runs_match_bnd:
  "t \<noteq> TkEof \<Longrightarrow> (\<And>k. Suc k = n \<Longrightarrow> runs k (f True) Q) \<Longrightarrow> runs n (f False) Q \<Longrightarrow> runs n (bnd (match t) f) Q"
  by (rule runs_bnd [OF runs_match]) (auto split: if_splits)

lemma runs_match_any_bnd:
  "TkEof \<notin> set ts \<Longrightarrow> (\<And>k. Suc k = n \<Longrightarrow> runs k (f True) Q) \<Longrightarrow> runs n (f False) Q \<Longrightarrow>
     runs n (bnd (match_any_of ts) f) Q"
  by (rule runs_bnd [OF runs_match_any]) (auto split: if_splits)

lemma runs_match_both_bnd:
  "t \<noteq> TkEof \<Longrightarrow> (\<And>k. Suc k = n \<Longrightarrow> runs k (f True) Q) \<Longrightarrow> runs n (f False) Q \<Longrightarrow>
     runs n (bnd (lx (lex_match_both t u)) f) Q"
  by (rule runs_bnd [OF runs_match_both]) (auto split: if_splits)

lemma runs_expect_bnd:
  "t \<noteq> TkEof \<Longrightarrow> (\<And>x k. Suc k = n \<Longrightarrow> runs k (f x) Q) \<Longrightarrow> runs n (bnd (expect t) f) Q"
  by (rule runs_bnd [OF runs_expect]) auto

lemma runs_same_bnd:
  "runs n m (\<lambda>_ k. k = n) \<Longrightarrow> (\<And>x. runs n (f x) Q) \<Longrightarrow> runs n (bnd m f) Q"
  by (erule runs_bnd) auto

lemma runs_if: "(c \<Longrightarrow> runs n a Q) \<Longrightarrow> (\<not> c \<Longrightarrow> runs n b Q) \<Longrightarrow> runs n (if c then a else b) Q"
  by simp

lemma runs_if_bnd:
  "(c \<Longrightarrow> runs n (bnd a f) Q) \<Longrightarrow> (\<not> c \<Longrightarrow> runs n (bnd b f) Q) \<Longrightarrow> runs n (bnd (if c then a else b) f) Q"
  by simp

subsection \<open>Loops\<close>

lemma runs_while:
  fixes body :: "'x \<Rightarrow> ('x \<times> bool) parse"
  assumes fuel: "n < fuel"
    and cond: "\<And>k. k \<le> n \<Longrightarrow> runs k cond (C k)"
    and body: "\<And>k j x. k \<le> n \<Longrightarrow> C k True j \<Longrightarrow> runs j (body x) (\<lambda>p i. if snd p then i < k else i \<le> n)"
    and final: "\<And>k j. k \<le> n \<Longrightarrow> C k False j \<Longrightarrow> j \<le> n"
  shows "runs n (while_loop fuel cond body x) (\<lambda>_ k. k \<le> n)"
proof -
  have "m \<le> n \<Longrightarrow> m < fuel' \<Longrightarrow> runs m (while_loop fuel' cond body x) (\<lambda>_ k. k \<le> n)" for m fuel' x
  proof (induction fuel' arbitrary: m x)
    case 0
    then show ?case by simp
  next
    case (Suc f)
    show ?case
      unfolding while_loop.simps
    proof (rule runs_bnd [OF cond [OF Suc.prems(1)]])
      fix ok j assume C: "C m ok j"
      show "runs j (if ok then bnd (body x) (\<lambda>(x', continue).
          if continue then while_loop f cond body x' else ret x') else ret x) (\<lambda>_ k. k \<le> n)"
      proof (cases ok)
        case True
        have "runs j (bnd (body x) (\<lambda>(x', continue).
            if continue then while_loop f cond body x' else ret x')) (\<lambda>_ k. k \<le> n)"
        proof (rule runs_bnd [OF body [OF Suc.prems(1)]])
          show "C m True j" using C True by simp
          fix p :: "'x \<times> bool" and k assume p: "if snd p then k < m else k \<le> n"
          show "runs k (case p of (x', continue) \<Rightarrow> if continue then while_loop f cond body x' else ret x')
              (\<lambda>_ k. k \<le> n)"
            using p Suc.prems by (cases p) (auto simp: runs_ret intro!: Suc.IH)
        qed
        then show ?thesis using True by simp
      next
        case False
        then show ?thesis using final [OF Suc.prems(1)] C by (simp add: runs_ret)
      qed
    qed
  qed
  then show ?thesis using fuel by blast
qed

subsection \<open>Every method\<close>

lemma bnd_if: "bnd (if c then a else b) f = (if c then bnd a f else bnd b f)"
  by simp

lemma runs_if_simps [simp]:
  "bnd (if True then a else b) f = bnd a f" "bnd (if False then a else b) f = bnd b f"
  by simp_all

lemma runs_modify: "(\<And>s. m_lexer (g s) = m_lexer s) \<Longrightarrow> (\<And>x. runs n (f x) R) \<Longrightarrow> runs n (bnd (modify g) f) R"
  by (rule runs_pure [OF pure_modify])

lemma runs_modify_end: "(\<And>s. m_lexer (g s) = m_lexer s) \<Longrightarrow> (\<And>x. Q x n) \<Longrightarrow> runs n (modify g) Q"
  by (rule runs_pure_end [OF pure_modify])

lemmas runs_steps =
  runs_match_bnd runs_match_any_bnd runs_match_both_bnd runs_expect_bnd
  runs_same_bnd [OF runs_peek_is] runs_same_bnd [OF runs_not_peek]
  runs_same_bnd [OF runs_advance] runs_same_bnd [OF runs_match_next]
  runs_pure [OF pure_mark_mut] runs_pure [OF pure_gets] runs_pure [OF pure_peek_last] runs_pure [OF pure_peek_last_is]
  runs_pure [OF pure_change_node] runs_pure [OF pure_new_node] runs_pure [OF pure_add_name]
  runs_pure [OF pure_symbol_has] runs_pure [OF pure_current_fn(1)] runs_pure [OF pure_current_fn(2)]
  runs_pure [OF pure_add_overload] runs_pure [OF pure_set_token] runs_pure [OF pure_change_fn]
  runs_pure [OF pure_finish(1)] runs_pure [OF pure_finish(2)] runs_pure [OF pure_finish(3)]
  runs_modify

lemma runs_Inr: "Q x n \<Longrightarrow> runs n (\<lambda>s. Inr (x, s)) Q"
  by (auto simp: runs_def)

lemmas runs_ends =
  runs_ret runs_Inr runs_fail runs_throw runs_throw_formatted runs_modify_end
  runs_pure_end [OF pure_gets] runs_pure_end [OF pure_change_node] runs_pure_end [OF pure_new_node]
  runs_pure_end [OF pure_finish(1)] runs_pure_end [OF pure_finish(2)] runs_pure_end [OF pure_finish(3)]
  runs_pure_end [OF pure_finish_literal] runs_pure_end [OF pure_change_fn]

lemmas runs_rules_but_peek = runs_steps runs_ends
lemmas runs_rules = runs_rules_but_peek runs_same_bnd [OF runs_peek]

text \<open>A token that was looked at and is not \<open>Eof\<close> is taken by \<open>advance\<close>.\<close>

lemma runs_peek_advance:
  assumes P: "\<And>t. P t \<Longrightarrow> tk_type t \<noteq> TkEof"
    and f: "\<And>t k x. P t \<Longrightarrow> Suc k = n \<Longrightarrow> runs k (f x) Q" and g: "\<And>t. \<not> P t \<Longrightarrow> runs n g Q"
  shows "runs n (bnd peek (\<lambda>t. if P t then bnd advance f else g)) Q"
proof -
  have "runs n (bnd peek (\<lambda>t. if P t then bnd advance (\<lambda>x. ret (Some x)) else ret None))
      (\<lambda>b k. if b = None then k = n \<and> (\<exists>t. \<not> P t) else Suc k = n \<and> (\<exists>t. P t))" (is "runs n ?m ?R")
  proof (rule runsI)
    fix s :: parser
    assume l: "left (m_lexer s) \<le> n"
    show "?m s \<noteq> Inl OutOfFuel"
      using lexer_fuel by (auto simp: bnd_eq_Inl_iff peek_def advance_def lx_def split: sum.splits)
    fix b s' assume "?m s = Inr (b, s')"
    then obtain t s1 where 1: "peek s = Inr (t, s1)"
      "(if P t then bnd advance (\<lambda>x. ret (Some x)) else ret None) s1 = Inr (b, s')" by auto
    have "lex_peek (m_lexer s) = Inr (t, m_lexer s1)"
      using 1(1) by (auto simp: peek_def lx_def split: sum.splits)
    note p = lex_peek_left [OF this]
    show "\<exists>k. left (m_lexer s') \<le> k \<and> ?R b k"
    proof (cases "P t")
      case True
      then obtain x where x: "advance s1 = Inr (x, s')" "b = Some x" using 1(2) by auto
      then have "lex_advance (m_lexer s1) = Inr (x, m_lexer s')"
        by (auto simp: advance_def lx_def split: sum.splits)
      then have "left (m_lexer s') < n"
        using lex_advance_left(1) [of "m_lexer s1"] p l P [OF True] by (fastforce simp: live_def)
      then show ?thesis using x(2) True by (intro exI [of _ "n - 1"]) auto
    next
      case False
      then show ?thesis using 1(2) p l by (intro exI [of _ n]) auto
    qed
  qed
  then have "runs n (bnd ?m (\<lambda>b. case b of None \<Rightarrow> g | Some x \<Rightarrow> f x)) Q"
    by (rule runs_bnd) (auto intro: f g split: if_split_asm)
  then show ?thesis by (simp add: bnd_assoc bnd_if cong: if_cong)
qed

lemma runs_case_option [intro!]:
  "(x = None \<Longrightarrow> runs n a Q) \<Longrightarrow> (\<And>y. x = Some y \<Longrightarrow> runs n (f y) Q) \<Longrightarrow>
     runs n (case x of None \<Rightarrow> a | Some y \<Rightarrow> f y) Q"
  by (cases x) auto

lemma runs_case_option_bnd [intro!]:
  "(x = None \<Longrightarrow> runs n (bnd a f) Q) \<Longrightarrow> (\<And>y. x = Some y \<Longrightarrow> runs n (bnd (g y) f) Q) \<Longrightarrow>
     runs n (bnd (case x of None \<Rightarrow> a | Some y \<Rightarrow> g y) f) Q"
  by (cases x) auto

lemma runs_fail_bnd: "e \<noteq> OutOfFuel \<Longrightarrow> runs n (bnd (fail e) f) Q"
  by (simp add: runs_def bnd_def)

lemma runs_case_list [intro!]:
  "(x = [] \<Longrightarrow> runs n a Q) \<Longrightarrow> (\<And>y ys. x = y # ys \<Longrightarrow> runs n (f y ys) Q) \<Longrightarrow>
     runs n (case x of [] \<Rightarrow> a | y # ys \<Rightarrow> f y ys) Q"
  by (cases x) auto

text \<open>What the methods called back have to do, up to \<open>N\<close> left.\<close>

definition rec_ok :: "recs \<Rightarrow> nat \<Rightarrow> bool" where
  "rec_ok r N \<longleftrightarrow> N < r_fuel r \<and>
     (\<forall>k < N.
        runs k (r_expression r) (\<lambda>_ j. j < k) \<and> runs k (r_unary r) (\<lambda>_ j. j < k) \<and>
        runs k (r_primary r) (\<lambda>_ j. j < k) \<and> runs k (r_declaration r) (\<lambda>_ j. j < k) \<and>
        runs k (r_if r) (\<lambda>_ j. j \<le> k) \<and>
        (\<forall>m p b. runs k (r_type r m p b) (\<lambda>(t, _) j. j \<le> k \<and> (t \<noteq> Null \<longrightarrow> j < k))))"

lemma rec_ok_mono: "rec_ok r N \<Longrightarrow> M \<le> N \<Longrightarrow> rec_ok r M"
  by (auto simp: rec_ok_def)

lemma rec_okD:
  assumes "rec_ok r N" and "k < N"
  shows "runs k (r_expression r) (\<lambda>_ j. j < k)" and "runs k (r_unary r) (\<lambda>_ j. j < k)"
    and "runs k (r_primary r) (\<lambda>_ j. j < k)" and "runs k (r_declaration r) (\<lambda>_ j. j < k)"
    and "runs k (r_if r) (\<lambda>_ j. j \<le> k)"
    and "runs k (r_type r m p b) (\<lambda>(t, _) j. j \<le> k \<and> (t \<noteq> Null \<longrightarrow> j < k))"
  using assms by (auto simp: rec_ok_def)

lemma runs_expression_bnd:
  "rec_ok r N \<Longrightarrow> k < N \<Longrightarrow> (\<And>x j. j < k \<Longrightarrow> runs j (f x) Q) \<Longrightarrow> runs k (bnd (r_expression r) f) Q"
  by (rule runs_bnd [OF rec_okD(1)])

lemma runs_unary_bnd:
  "rec_ok r N \<Longrightarrow> k < N \<Longrightarrow> (\<And>x j. j < k \<Longrightarrow> runs j (f x) Q) \<Longrightarrow> runs k (bnd (r_unary r) f) Q"
  by (rule runs_bnd [OF rec_okD(2)])

lemma runs_primary_bnd:
  "rec_ok r N \<Longrightarrow> k < N \<Longrightarrow> (\<And>x j. j < k \<Longrightarrow> runs j (f x) Q) \<Longrightarrow> runs k (bnd (r_primary r) f) Q"
  by (rule runs_bnd [OF rec_okD(3)])

lemma runs_declaration_bnd:
  "rec_ok r N \<Longrightarrow> k < N \<Longrightarrow> (\<And>x j. j < k \<Longrightarrow> runs j (f x) Q) \<Longrightarrow> runs k (bnd (r_declaration r) f) Q"
  by (rule runs_bnd [OF rec_okD(4)])

lemma runs_r_if_bnd:
  "rec_ok r N \<Longrightarrow> k < N \<Longrightarrow> (\<And>x j. j \<le> k \<Longrightarrow> runs j (f x) Q) \<Longrightarrow> runs k (bnd (r_if r) f) Q"
  by (rule runs_bnd [OF rec_okD(5)])

lemma runs_type_bnd:
  "rec_ok r N \<Longrightarrow> k < N \<Longrightarrow>
     (\<And>t m j. j \<le> k \<Longrightarrow> t \<noteq> Null \<longrightarrow> j < k \<Longrightarrow> runs j (f (t, m)) Q) \<Longrightarrow> runs k (bnd (r_type r m p b) f) Q"
  by (rule runs_bnd [OF rec_okD(6)]) auto

lemmas runs_recs = runs_expression_bnd runs_unary_bnd runs_primary_bnd runs_declaration_bnd
  runs_r_if_bnd runs_type_bnd

text \<open>The loops: behind a test that takes a token, or with a body that does.\<close>

lemma runs_while_match:
  assumes "n < fuel" and "t \<noteq> TkEof"
    and "\<And>j x. j < n \<Longrightarrow> runs j (body x) (\<lambda>_ i. i \<le> j)"
  shows "runs n (while_loop fuel (match t) body x) (\<lambda>_ k. k \<le> n)"
  by (rule runs_while [OF assms(1) runs_match [OF assms(2)]])
    (auto intro!: runs_weaken [OF assms(3)])

lemma runs_while_match_any:
  assumes "n < fuel" and "TkEof \<notin> set ts"
    and "\<And>j x. j < n \<Longrightarrow> runs j (body x) (\<lambda>_ i. i \<le> j)"
  shows "runs n (while_loop fuel (match_any_of ts) body x) (\<lambda>_ k. k \<le> n)"
  by (rule runs_while [OF assms(1) runs_match_any [OF assms(2)]])
    (auto intro!: runs_weaken [OF assms(3)])

lemma runs_while_body:
  assumes "n < fuel" and "\<And>k. runs k cond (\<lambda>_ j. j = k)"
    and "\<And>j x. j \<le> n \<Longrightarrow> runs j (body x) (\<lambda>p i. if snd p then i < j else i \<le> j)"
  shows "runs n (while_loop fuel cond body x) (\<lambda>_ k. k \<le> n)"
  by (rule runs_while [OF assms(1,2)]) (auto intro!: runs_weaken [OF assms(3)] split: if_split_asm)

lemma runs_true: "runs k (ret True) (\<lambda>_ j. j = k)"
  by (rule runs_ret) simp

declare match_any_of.simps [simp del]

lemma keyword_not_eof [simp]: "\<not> is_attribute_keyword TkEof"
  by (simp add: is_attribute_keyword_iff)

lemma attribute_token_runs: "runs n attribute_token (\<lambda>_ k. k = n)"
  unfolding attribute_token_def by (auto intro!: runs_rules)

lemma parse_literal_runs: "runs n parse_literal (\<lambda>_ k. k < n)"
  unfolding parse_literal_def by (auto intro!: runs_rules)

lemma get_symbol_runs: "runs n get_symbol (\<lambda>_ k. k < n)"
  unfolding get_symbol_def
  by (rule runs_expect_bnd) (auto intro!: runs_pure_end simp: pure_op_def Let_def split: prod.splits)


lemma runs_get_symbol_bnd:
  "(\<And>x j. j < n \<Longrightarrow> runs j (f x) Q) \<Longrightarrow> runs n (bnd get_symbol f) Q"
  by (rule runs_bnd [OF get_symbol_runs])

lemma parse_attributes_runs:
  assumes "n < r_fuel r"
  shows "runs n (parse_attributes r) (\<lambda>_ k. k \<le> n)"
  using assms unfolding parse_attributes_def bnd_assoc
  by (auto simp: bnd_assoc
      intro!: runs_rules runs_bnd [OF attribute_token_runs] runs_bnd [OF runs_while_body [OF _ runs_true]])

lemma collect_attributes_runs:
  assumes "n < r_fuel r"
  shows "runs n (collect_attributes r) (\<lambda>_ k. k \<le> n)"
  using assms unfolding collect_attributes_def
  by (auto intro!: runs_rules runs_weaken [OF parse_attributes_runs])

lemma rec_fuel: "rec_ok r N \<Longrightarrow> N < r_fuel r"
  by (simp add: rec_ok_def)

lemma parse_type_meta_runs:
  assumes ok: "rec_ok r N" and n: "n < N"
  shows "runs n (parse_type_meta r) (\<lambda>_ k. k < n)"
  using n unfolding parse_type_meta_def
  by (auto intro!: runs_rules runs_recs [OF ok])

lemmas parse_type_meta_bnd = runs_bnd [OF parse_type_meta_runs]

lemma parse_fn_param_runs:
  assumes ok: "rec_ok r N" and n: "n < N"
  shows "runs n (parse_fn_param r b) (\<lambda>_ k. k < n)"
  using n rec_fuel [OF ok] unfolding parse_fn_param_def
  by (auto simp: bnd_assoc case_prod_beta Let_def
      intro!: runs_rules runs_get_symbol_bnd runs_recs [OF ok]
        parse_type_meta_bnd [OF ok])

lemmas parse_fn_param_bnd = runs_bnd [OF parse_fn_param_runs]

lemma parse_params_runs:
  assumes ok: "rec_ok r N" and n: "n < N"
  shows "runs n (parse_params r b sig) (\<lambda>_ k. k \<le> n)"
  using n rec_fuel [OF ok] unfolding parse_params_def
  by (auto simp: bnd_assoc case_prod_beta Let_def
      intro!: runs_rules runs_get_symbol_bnd runs_recs [OF ok]
        runs_bnd [OF runs_while_body [OF _ runs_not_peek]]
        parse_fn_param_bnd [OF ok])

lemmas parse_params_bnd = runs_bnd [OF parse_params_runs]

lemma parse_fn_signature_runs:
  assumes ok: "rec_ok r N" and n: "n \<le> N"
  shows "runs n (parse_fn_signature r b ps) (\<lambda>_ k. k < n)"
  using n rec_fuel [OF ok] unfolding parse_fn_signature_def
  by (auto simp: bnd_assoc case_prod_beta Let_def
      intro!: runs_rules runs_get_symbol_bnd runs_recs [OF ok]
        parse_params_bnd [OF ok]
        parse_type_meta_bnd [OF ok])

lemmas parse_fn_signature_bnd = runs_bnd [OF parse_fn_signature_runs]

lemma parse_fields_runs:
  assumes "n \<le> r_fuel r" and "\<And>j x. j < n \<Longrightarrow> runs j (field x) (\<lambda>_ k. k < j)"
  shows "runs n (parse_fields r field x) (\<lambda>_ k. k < n)"
  using assms(1) unfolding parse_fields_def
  by (auto intro!: runs_rules runs_bnd [OF runs_while_body [OF _ runs_not_peek]] runs_bnd [OF assms(2)])

lemmas parse_fields_bnd = runs_bnd [OF parse_fields_runs]

lemma struct_field_runs:
  assumes ok: "rec_ok r N" and n: "n < N"
  shows "runs n (struct_field r fs) (\<lambda>_ k. k < n)"
  using n rec_fuel [OF ok] unfolding struct_field_def
  by (auto simp: bnd_assoc case_prod_beta Let_def
      intro!: runs_rules runs_get_symbol_bnd runs_recs [OF ok]
        parse_type_meta_bnd [OF ok])

lemmas struct_field_bnd = runs_bnd [OF struct_field_runs]

lemma parse_struct_body_runs:
  assumes ok: "rec_ok r N" and n: "n \<le> N"
  shows "runs n (parse_struct_body r p sy) (\<lambda>_ k. k < n)"
  using n rec_fuel [OF ok] unfolding parse_struct_body_def
  by (auto simp: bnd_assoc case_prod_beta Let_def
      intro!: runs_rules runs_get_symbol_bnd runs_recs [OF ok]
        parse_fields_bnd
        runs_weaken [OF struct_field_runs [OF ok]])

lemmas parse_struct_body_bnd = runs_bnd [OF parse_struct_body_runs]

lemma parse_struct_runs:
  assumes ok: "rec_ok r N" and n: "n \<le> N"
  shows "runs n (parse_struct r b) (\<lambda>_ k. k < n)"
  using n rec_fuel [OF ok] unfolding parse_struct_def
  by (auto simp: bnd_assoc case_prod_beta Let_def
      intro!: runs_rules runs_get_symbol_bnd runs_recs [OF ok]
        runs_weaken [OF parse_struct_body_runs [OF ok]])

lemmas parse_struct_bnd = runs_bnd [OF parse_struct_runs]

lemma array_members_runs:
  assumes ok: "rec_ok r N" and n: "n \<le> N"
  shows "runs n (array_members r) (\<lambda>_ k. k \<le> n)"
  using n rec_fuel [OF ok] unfolding array_members_def
  by (auto simp: bnd_assoc case_prod_beta Let_def
      intro!: runs_rules runs_get_symbol_bnd runs_recs [OF ok]
        runs_bnd [OF runs_while_body [OF _ runs_true]])

lemmas array_members_bnd = runs_bnd [OF array_members_runs]

lemma parse_array_type_runs:
  assumes ok: "rec_ok r N" and n: "n < N"
  shows "runs n (parse_array_type r m p) (\<lambda>_ k. k \<le> n)"
  using n rec_fuel [OF ok] unfolding parse_array_type_def
  by (auto simp: bnd_assoc case_prod_beta Let_def
      intro!: runs_rules runs_get_symbol_bnd runs_recs [OF ok]
        array_members_bnd [OF ok])

lemmas parse_array_type_bnd = runs_bnd [OF parse_array_type_runs]

lemma parse_type_runs:
  assumes ok: "rec_ok r N" and n: "n \<le> N"
  shows "runs n (parse_type r m p b) (\<lambda>(t, _) k. k \<le> n \<and> (t \<noteq> Null \<longrightarrow> k < n))"
  using n rec_fuel [OF ok] unfolding parse_type_def
  by (auto simp: bnd_assoc case_prod_beta Let_def
      intro!: runs_rules runs_get_symbol_bnd runs_recs [OF ok]
        runs_weaken [OF parse_array_type_runs [OF ok]]
        parse_fn_signature_bnd [OF ok]
        parse_struct_bnd [OF ok])

lemmas parse_type_bnd = runs_bnd [OF parse_type_runs]

lemma collect_expressions_runs:
  assumes ok: "rec_ok r N" and n: "n < N"
  shows "runs n (collect_expressions r t) (\<lambda>_ k. k \<le> n)"
  using n rec_fuel [OF ok] unfolding collect_expressions_def
  by (auto intro!: runs_while_body [OF _ runs_not_peek] runs_rules runs_recs [OF ok])

lemmas collect_expressions_bnd = runs_bnd [OF collect_expressions_runs]

lemma wrap_expression_runs:
  assumes ok: "rec_ok r N" and n: "n < N"
  shows "runs n (wrap_expression r con) (\<lambda>_ k. k < n)"
  using n unfolding wrap_expression_def
  by (auto intro!: runs_rules runs_recs [OF ok])

lemmas wrap_expression_bnd = runs_bnd [OF wrap_expression_runs]

lemma collect_call_arguments_runs:
  assumes ok: "rec_ok r N" and n: "n < N"
  shows "runs n (collect_call_arguments r) (\<lambda>_ k. k \<le> n)"
  using n rec_fuel [OF ok] unfolding collect_call_arguments_def
  by (auto simp: bnd_assoc case_prod_beta Let_def
      intro!: runs_rules runs_get_symbol_bnd runs_recs [OF ok]
        runs_weaken [OF collect_expressions_runs [OF ok]])

lemmas collect_call_arguments_bnd = runs_bnd [OF collect_call_arguments_runs]

lemma parse_brace_list_runs:
  assumes ok: "rec_ok r N" and n: "n < N"
  shows "runs n (parse_brace_list r) (\<lambda>_ k. k \<le> n)"
  using n rec_fuel [OF ok] unfolding parse_brace_list_def
  by (auto simp: bnd_assoc case_prod_beta Let_def
      intro!: runs_rules runs_get_symbol_bnd runs_recs [OF ok]
        collect_expressions_bnd [OF ok])

lemmas parse_brace_list_bnd = runs_bnd [OF parse_brace_list_runs]

lemma parse_array_literal_runs:
  assumes ok: "rec_ok r N" and n: "n < N"
  shows "runs n (parse_array_literal r es) (\<lambda>_ k. k \<le> n)"
  using n rec_fuel [OF ok] unfolding parse_array_literal_def
  by (auto simp: bnd_assoc case_prod_beta Let_def
      intro!: runs_rules runs_get_symbol_bnd runs_recs [OF ok]
        runs_bnd [OF runs_while_body [OF _ runs_true]])

lemmas parse_array_literal_bnd = runs_bnd [OF parse_array_literal_runs]

lemma parse_identifier_runs:
  assumes ok: "rec_ok r N" and n: "n < N"
  shows "runs n (parse_identifier r) (\<lambda>_ k. k \<le> n)"
  using n rec_fuel [OF ok] unfolding parse_identifier_def
  by (auto simp: bnd_assoc case_prod_beta Let_def
      intro!: runs_rules runs_get_symbol_bnd runs_recs [OF ok]
        parse_brace_list_bnd [OF ok]
        runs_weaken [OF wrap_expression_runs [OF ok]])

lemmas parse_identifier_bnd = runs_bnd [OF parse_identifier_runs]

lemma parse_cast_runs:
  assumes ok: "rec_ok r N" and n: "n < N"
  shows "runs n (parse_cast r) (\<lambda>_ k. k < n)"
  using n rec_fuel [OF ok] unfolding parse_cast_def
  by (auto simp: bnd_assoc case_prod_beta Let_def
      intro!: runs_rules runs_get_symbol_bnd runs_recs [OF ok])

lemmas parse_cast_bnd = runs_bnd [OF parse_cast_runs]

lemma parse_primary_inner_runs:
  assumes ok: "rec_ok r N" and n: "n \<le> N"
  shows "runs n (parse_primary_inner r) (\<lambda>p k. k \<le> n \<and> (p \<noteq> Null \<longrightarrow> k < n))"
  using n rec_fuel [OF ok] unfolding parse_primary_inner_def
  by (auto simp: bnd_assoc case_prod_beta Let_def
      intro!: runs_rules_but_peek runs_get_symbol_bnd runs_recs [OF ok]
        runs_peek_advance
        wrap_expression_bnd [OF ok]
        parse_brace_list_bnd [OF ok]
        runs_weaken [OF parse_identifier_runs [OF ok]]
        runs_weaken [OF wrap_expression_runs [OF ok]]
        runs_weaken [OF parse_cast_runs [OF ok]]
        runs_weaken [OF parse_array_literal_runs [OF ok]])

lemmas parse_primary_inner_bnd = runs_bnd [OF parse_primary_inner_runs]

lemma parse_bracket_runs:
  assumes ok: "rec_ok r N" and n: "n < N"
  shows "runs n (parse_bracket r inner lhs) (\<lambda>_ k. k \<le> n)"
  using n rec_fuel [OF ok] unfolding parse_bracket_def
  by (auto simp: bnd_assoc case_prod_beta Let_def
      intro!: runs_rules runs_get_symbol_bnd runs_recs [OF ok]
        parse_array_literal_bnd [OF ok])

lemmas parse_bracket_bnd = runs_bnd [OF parse_bracket_runs]

lemma parse_suffix_runs:
  assumes ok: "rec_ok r N" and n: "n \<le> N"
  shows "runs n (parse_suffix r inner lhs) (\<lambda>_ k. k \<le> n)"
  using n rec_fuel [OF ok] unfolding parse_suffix_def
  by (auto simp: bnd_assoc case_prod_beta Let_def
      intro!: runs_rules runs_get_symbol_bnd runs_recs [OF ok]
        collect_call_arguments_bnd [OF ok])

lemmas parse_suffix_bnd = runs_bnd [OF parse_suffix_runs]

lemma parse_primary_runs:
  assumes ok: "rec_ok r N" and n: "n \<le> N"
  shows "runs n (parse_primary r) (\<lambda>_ k. k < n)"
  using n rec_fuel [OF ok] unfolding parse_primary_def
  by (auto simp: bnd_assoc case_prod_beta Let_def
      intro!: runs_rules runs_get_symbol_bnd runs_recs [OF ok]
        parse_primary_inner_bnd [OF ok]
        parse_bracket_bnd [OF ok]
        runs_bnd [OF runs_while_match]
        runs_weaken [OF parse_suffix_runs [OF ok]]
        runs_weaken [OF parse_literal_runs])

lemmas parse_primary_bnd = runs_bnd [OF parse_primary_runs]

lemma parse_unary_runs:
  assumes ok: "rec_ok r N" and n: "n \<le> N"
  shows "runs n (parse_unary r) (\<lambda>_ k. k < n)"
  using n rec_fuel [OF ok] unfolding parse_unary_def
  by (auto simp: bnd_assoc case_prod_beta Let_def
      intro!: runs_rules runs_get_symbol_bnd runs_recs [OF ok]
        runs_weaken [OF parse_primary_runs [OF ok]])

lemmas parse_unary_bnd = runs_bnd [OF parse_unary_runs]

lemma parse_binary_rule_runs:
  assumes ok: "rec_ok r N" and n: "n \<le> N" and "TkEof \<notin> set ops"
    and rule: "\<And>k. k \<le> N \<Longrightarrow> runs k rule (\<lambda>_ j. j < k)"
  shows "runs n (parse_binary_rule r ops rule) (\<lambda>_ k. k < n)"
  using n rec_fuel [OF ok] assms(3) unfolding parse_binary_rule_def
  by (auto intro!: runs_rules runs_bnd [OF rule]
      runs_weaken [OF runs_while_match_any])

lemma parse_range_runs:
  assumes "rec_ok r N" and "n \<le> N"
  shows "runs n (parse_range r) (\<lambda>_ k. k < n)"
  unfolding parse_range_def
  by (rule parse_binary_rule_runs [OF assms]) (auto intro: parse_unary_runs [OF assms(1)])

lemma parse_exp_runs:
  assumes "rec_ok r N" and "n \<le> N"
  shows "runs n (parse_exp r) (\<lambda>_ k. k < n)"
  unfolding parse_exp_def
  by (rule parse_binary_rule_runs [OF assms]) (auto intro: parse_range_runs [OF assms(1)])

lemma parse_factor_runs:
  assumes "rec_ok r N" and "n \<le> N"
  shows "runs n (parse_factor r) (\<lambda>_ k. k < n)"
  unfolding parse_factor_def
  by (rule parse_binary_rule_runs [OF assms]) (auto intro: parse_exp_runs [OF assms(1)])

lemma parse_term_runs:
  assumes "rec_ok r N" and "n \<le> N"
  shows "runs n (parse_term r) (\<lambda>_ k. k < n)"
  unfolding parse_term_def
  by (rule parse_binary_rule_runs [OF assms]) (auto intro: parse_factor_runs [OF assms(1)])

lemma parse_comparison_runs:
  assumes "rec_ok r N" and "n \<le> N"
  shows "runs n (parse_comparison r) (\<lambda>_ k. k < n)"
  unfolding parse_comparison_def
  by (rule parse_binary_rule_runs [OF assms]) (auto intro: parse_term_runs [OF assms(1)])

lemma parse_equality_runs:
  assumes "rec_ok r N" and "n \<le> N"
  shows "runs n (parse_equality r) (\<lambda>_ k. k < n)"
  unfolding parse_equality_def
  by (rule parse_binary_rule_runs [OF assms]) (auto intro: parse_comparison_runs [OF assms(1)])

lemma parse_or_runs:
  assumes "rec_ok r N" and "n \<le> N"
  shows "runs n (parse_or r) (\<lambda>_ k. k < n)"
  unfolding parse_or_def
  by (rule parse_binary_rule_runs [OF assms]) (auto intro: parse_equality_runs [OF assms(1)])

lemma parse_and_runs:
  assumes "rec_ok r N" and "n \<le> N"
  shows "runs n (parse_and r) (\<lambda>_ k. k < n)"
  unfolding parse_and_def
  by (rule parse_binary_rule_runs [OF assms]) (auto intro: parse_or_runs [OF assms(1)])

lemma expression_runs:
  assumes "rec_ok r N" and "n \<le> N"
  shows "runs n (expression r) (\<lambda>_ k. k < n)"
  unfolding expression_def by (rule parse_and_runs [OF assms])

lemmas expression_bnd = runs_bnd [OF expression_runs]

lemma without_initializers_runs:
  assumes "runs n m Q"
  shows "runs n (without_initializers m) Q"
  unfolding without_initializers_def
  by (auto intro!: runs_rules runs_bnd [OF assms])

lemmas condition_bnd = runs_bnd [OF without_initializers_runs [OF expression_runs]]

lemma declare_to_runs:
  assumes ok: "rec_ok r N" and n: "n < N"
  shows "runs n (declare_to r ns) (\<lambda>_ k. k < n)"
  using n rec_fuel [OF ok] unfolding declare_to_def
  by (auto simp: bnd_assoc case_prod_beta Let_def
      intro!: runs_rules runs_get_symbol_bnd runs_recs [OF ok])

lemmas declare_to_bnd = runs_bnd [OF declare_to_runs]

lemma parse_block_runs:
  assumes ok: "rec_ok r N" and n: "n < N"
  shows "runs n (parse_block r) (\<lambda>_ k. k \<le> n)"
  using n rec_fuel [OF ok] unfolding parse_block_def
  by (auto simp: bnd_assoc case_prod_beta Let_def
      intro!: runs_rules runs_get_symbol_bnd runs_recs [OF ok]
        runs_bnd [OF runs_while_body [OF _ runs_not_peek]]
        declare_to_bnd [OF ok])

lemmas parse_block_bnd = runs_bnd [OF parse_block_runs]

lemma import_path_runs:
  assumes ok: "rec_ok r N" and n: "n \<le> N"
  shows "runs n (import_path r) (\<lambda>_ k. k \<le> n)"
  using n rec_fuel [OF ok] unfolding import_path_def
  by (auto simp: bnd_assoc case_prod_beta Let_def
      intro!: runs_rules runs_get_symbol_bnd runs_recs [OF ok]
        runs_while_match)

lemmas import_path_bnd = runs_bnd [OF import_path_runs]

lemma selective_imports_runs:
  assumes ok: "rec_ok r N" and n: "n \<le> N"
  shows "runs n (selective_imports r) (\<lambda>_ k. k \<le> n)"
  using n rec_fuel [OF ok] unfolding selective_imports_def
  by (auto simp: bnd_assoc case_prod_beta Let_def
      intro!: runs_rules runs_get_symbol_bnd runs_recs [OF ok]
        runs_while_match)

lemmas selective_imports_bnd = runs_bnd [OF selective_imports_runs]

lemma parse_import_runs:
  assumes ok: "rec_ok r N" and n: "n \<le> N"
  shows "runs n (parse_import r) (\<lambda>_ k. k \<le> n)"
  using n rec_fuel [OF ok] unfolding parse_import_def
  by (auto simp: bnd_assoc case_prod_beta Let_def
      intro!: runs_rules runs_get_symbol_bnd runs_recs [OF ok]
        import_path_bnd [OF ok]
        selective_imports_bnd [OF ok])

lemmas parse_import_bnd = runs_bnd [OF parse_import_runs]

lemma parse_if_runs:
  assumes ok: "rec_ok r N" and n: "n \<le> N"
  shows "runs n (parse_if r) (\<lambda>_ k. k \<le> n)"
  using n rec_fuel [OF ok] unfolding parse_if_def
  by (auto simp: bnd_assoc case_prod_beta Let_def
      intro!: runs_rules runs_get_symbol_bnd runs_recs [OF ok]
        condition_bnd [OF ok]
        parse_block_bnd [OF ok]
        runs_weaken [OF parse_block_runs [OF ok]])

lemmas parse_if_bnd = runs_bnd [OF parse_if_runs]

lemma parse_while_runs:
  assumes ok: "rec_ok r N" and n: "n \<le> N"
  shows "runs n (parse_while r c) (\<lambda>_ k. k \<le> n)"
  using n rec_fuel [OF ok] unfolding parse_while_def
  by (auto simp: bnd_assoc case_prod_beta Let_def
      intro!: runs_rules runs_get_symbol_bnd runs_recs [OF ok]
        parse_block_bnd [OF ok])

lemmas parse_while_bnd = runs_bnd [OF parse_while_runs]

lemma parse_loop_runs:
  assumes ok: "rec_ok r N" and n: "n \<le> N"
  shows "runs n (parse_loop r) (\<lambda>_ k. k \<le> n)"
  using n rec_fuel [OF ok] unfolding parse_loop_def
  by (auto simp: bnd_assoc case_prod_beta Let_def
      intro!: runs_rules runs_get_symbol_bnd runs_recs [OF ok]
        runs_weaken [OF parse_while_runs [OF ok]])

lemmas parse_loop_bnd = runs_bnd [OF parse_loop_runs]

lemma for_bindings_runs:
  assumes ok: "rec_ok r N" and n: "n \<le> N"
  shows "runs n (for_bindings r) (\<lambda>_ k. k \<le> n)"
  using n rec_fuel [OF ok] unfolding for_bindings_def
  by (auto simp: bnd_assoc case_prod_beta Let_def
      intro!: runs_rules runs_get_symbol_bnd runs_recs [OF ok]
        runs_while_match)

lemmas for_bindings_bnd = runs_bnd [OF for_bindings_runs]

lemma parse_for_runs:
  assumes ok: "rec_ok r N" and n: "n \<le> N"
  shows "runs n (parse_for r) (\<lambda>_ k. k \<le> n)"
  using n rec_fuel [OF ok] unfolding parse_for_def
  by (auto simp: bnd_assoc case_prod_beta Let_def
      intro!: runs_rules runs_get_symbol_bnd runs_recs [OF ok]
        condition_bnd [OF ok]
        for_bindings_bnd [OF ok]
        parse_block_bnd [OF ok])

lemmas parse_for_bnd = runs_bnd [OF parse_for_runs]

lemma parse_var_runs:
  assumes ok: "rec_ok r N" and n: "n \<le> N"
  shows "runs n (parse_var r) (\<lambda>_ k. k < n)"
  using n rec_fuel [OF ok] unfolding parse_var_def
  by (auto simp: bnd_assoc case_prod_beta Let_def
      intro!: runs_rules runs_get_symbol_bnd runs_recs [OF ok]
        parse_type_meta_bnd [OF ok]
        expression_bnd [OF ok])

lemmas parse_var_bnd = runs_bnd [OF parse_var_runs]

lemma parse_assignment_runs:
  assumes ok: "rec_ok r N" and n: "n \<le> N"
  shows "runs n (parse_assignment r e) (\<lambda>_ k. k < n)"
  using n rec_fuel [OF ok] unfolding parse_assignment_def
  by (auto simp: bnd_assoc case_prod_beta Let_def
      intro!: runs_rules runs_get_symbol_bnd runs_recs [OF ok]
        expression_bnd [OF ok])

lemmas parse_assignment_bnd = runs_bnd [OF parse_assignment_runs]

lemma parse_return_runs:
  assumes ok: "rec_ok r N" and n: "n \<le> N"
  shows "runs n (parse_return r) (\<lambda>_ k. k \<le> n)"
  using n rec_fuel [OF ok] unfolding parse_return_def
  by (auto simp: bnd_assoc case_prod_beta Let_def
      intro!: runs_rules runs_get_symbol_bnd runs_recs [OF ok]
        expression_bnd [OF ok])

lemmas parse_return_bnd = runs_bnd [OF parse_return_runs]

lemma parse_fn_body_runs:
  assumes ok: "rec_ok r N" and n: "n \<le> N"
  shows "runs n (parse_fn_body r fn b) (\<lambda>_ k. k \<le> n)"
  using n rec_fuel [OF ok] unfolding parse_fn_body_def
  by (auto simp: bnd_assoc case_prod_beta Let_def
      intro!: runs_rules runs_get_symbol_bnd runs_recs [OF ok]
        expression_bnd [OF ok]
        parse_block_bnd [OF ok])

lemmas parse_fn_body_bnd = runs_bnd [OF parse_fn_body_runs]

lemma in_function_runs:
  assumes "runs n m Q"
  shows "runs n (in_function fn m) Q"
  unfolding in_function_def
  by (auto intro!: runs_rules runs_bnd [OF assms])

lemma parse_fn_runs:
  assumes ok: "rec_ok r N" and n: "n \<le> N"
  shows "runs n (parse_fn r ps) (\<lambda>_ k. k < n)"
  using n rec_fuel [OF ok] unfolding parse_fn_def
  by (auto simp: bnd_assoc case_prod_beta Let_def
      intro!: runs_rules runs_get_symbol_bnd runs_recs [OF ok]
        parse_fn_signature_bnd [OF ok]
        runs_bnd [OF in_function_runs [OF parse_fn_body_runs [OF ok]]])

lemmas parse_fn_bnd = runs_bnd [OF parse_fn_runs]

lemma enum_field_runs: "runs n (enum_field st) (\<lambda>_ k. k < n)"
  unfolding enum_field_def
  by (auto simp: Let_def bnd_assoc split: prod.splits intro!: runs_rules runs_get_symbol_bnd runs_fail_bnd)

lemma parse_enum_runs:
  assumes ok: "rec_ok r N" and n: "n \<le> N"
  shows "runs n (parse_enum r) (\<lambda>_ k. k < n)"
  using n rec_fuel [OF ok] unfolding parse_enum_def
  by (auto simp: bnd_assoc case_prod_beta Let_def
      intro!: runs_rules runs_get_symbol_bnd runs_recs [OF ok]
        parse_fields_bnd
        runs_weaken [OF enum_field_runs])

lemmas parse_enum_bnd = runs_bnd [OF parse_enum_runs]

lemma parse_impl_runs:
  assumes ok: "rec_ok r N" and n: "n \<le> N"
  shows "runs n (parse_impl r) (\<lambda>_ k. k < n)"
  using n rec_fuel [OF ok] unfolding parse_impl_def
  by (auto simp: bnd_assoc case_prod_beta Let_def
      intro!: runs_rules runs_get_symbol_bnd runs_recs [OF ok]
        runs_bnd [OF runs_while_body [OF _ runs_not_peek]]
        runs_bnd [OF collect_attributes_runs]
        parse_fn_bnd [OF ok])

lemmas parse_impl_bnd = runs_bnd [OF parse_impl_runs]

lemma parse_alias_runs:
  assumes ok: "rec_ok r N" and n: "n \<le> N"
  shows "runs n (parse_alias r) (\<lambda>_ k. k < n)"
  using n rec_fuel [OF ok] unfolding parse_alias_def
  by (auto simp: bnd_assoc case_prod_beta Let_def
      intro!: runs_rules runs_get_symbol_bnd runs_recs [OF ok]
        parse_type_meta_bnd [OF ok])

lemmas parse_alias_bnd = runs_bnd [OF parse_alias_runs]

lemma statement_expression_runs:
  assumes ok: "rec_ok r N" and n: "n \<le> N"
  shows "runs n (statement_expression r) (\<lambda>_ k. k < n)"
  using n rec_fuel [OF ok] unfolding statement_expression_def
  by (auto simp: bnd_assoc case_prod_beta Let_def
      intro!: runs_rules runs_get_symbol_bnd runs_recs [OF ok]
        parse_primary_bnd [OF ok]
        runs_weaken [OF parse_assignment_runs [OF ok]])

lemmas statement_expression_bnd = runs_bnd [OF statement_expression_runs]

lemma parse_statement_runs:
  assumes ok: "rec_ok r N" and n: "n \<le> N"
  shows "runs n (parse_statement r) (\<lambda>_ k. k < n)"
  using n rec_fuel [OF ok] unfolding parse_statement_def
  by (auto simp: bnd_assoc case_prod_beta Let_def
      intro!: runs_rules runs_get_symbol_bnd runs_recs [OF ok]
        condition_bnd [OF ok]
        parse_if_bnd [OF ok]
        runs_weaken [OF parse_if_runs [OF ok]]
        runs_weaken [OF parse_import_runs [OF ok]]
        runs_weaken [OF parse_while_runs [OF ok]]
        runs_weaken [OF parse_loop_runs [OF ok]]
        runs_weaken [OF parse_for_runs [OF ok]]
        runs_weaken [OF parse_block_runs [OF ok]]
        runs_weaken [OF parse_return_runs [OF ok]]
        runs_weaken [OF statement_expression_runs [OF ok]])

lemmas parse_statement_bnd = runs_bnd [OF parse_statement_runs]

lemma parse_declaration_runs:
  assumes ok: "rec_ok r N" and n: "n \<le> N"
  shows "runs n (parse_declaration r) (\<lambda>_ k. k < n)"
  using n rec_fuel [OF ok] unfolding parse_declaration_def
  by (auto simp: bnd_assoc case_prod_beta Let_def
      intro!: runs_rules runs_get_symbol_bnd runs_recs [OF ok]
        runs_bnd [OF collect_attributes_runs]
        runs_weaken [OF parse_fn_runs [OF ok]]
        runs_weaken [OF parse_struct_runs [OF ok]]
        runs_weaken [OF parse_impl_runs [OF ok]]
        runs_weaken [OF parse_enum_runs [OF ok]]
        runs_weaken [OF parse_var_runs [OF ok]]
        runs_weaken [OF parse_alias_runs [OF ok]]
        runs_weaken [OF parse_statement_runs [OF ok]])

lemmas parse_declaration_bnd = runs_bnd [OF parse_declaration_runs]

subsection \<open>Enough fuel\<close>

lemma knot_fuel [simp]: "r_fuel (knot n) = n"
  by (induction n) (simp_all add: tie_def out_of_fuel_def)

text \<open>One more level of nesting serves one more token.\<close>

lemma tie_ok:
  assumes "\<And>M. M < r_fuel r \<Longrightarrow> rec_ok r M"
  shows "N < r_fuel (tie r) \<Longrightarrow> rec_ok (tie r) N"
proof -
  assume N: "N < r_fuel (tie r)"
  have ok: "rec_ok r k" if "k < N" for k
    using assms N that by (simp add: tie_def)
  show ?thesis
    unfolding rec_ok_def
    using N ok
    by (auto simp: tie_def intro!: expression_runs [OF ok] parse_unary_runs [OF ok]
        parse_primary_runs [OF ok] parse_declaration_runs [OF ok] parse_if_runs [OF ok] parse_type_runs [OF ok])
qed

lemma knot_ok: "N < n \<Longrightarrow> rec_ok (knot n) N"
proof (induction n arbitrary: N)
  case 0
  then show ?case by simp
next
  case (Suc n)
  have "rec_ok (tie (knot n)) N"
    by (rule tie_ok) (use Suc in \<open>auto simp: tie_def\<close>)
  then show ?case by simp
qed

lemma runs_more: "runs n more_declarations (\<lambda>_ k. k = n)"
  unfolding more_declarations_def by (auto intro!: runs_rules)

lemma parse_runs:
  assumes "Suc n < fuel"
  shows "runs n (parse fuel) (\<lambda>_ k. k \<le> n)"
proof -
  have ok: "rec_ok (knot fuel) (Suc n)" by (rule knot_ok) (use assms in simp)
  have body: "runs j (declare_to (knot fuel) ns) (\<lambda>_ k. k < j)" if "j \<le> n" for j ns
    using that by (intro declare_to_runs [OF ok]) simp
  show ?thesis
    using assms unfolding parse_def at_scopes_def
    by (auto simp del: while_loop.simps intro!: runs_rules runs_bnd [OF body]
        runs_bnd [OF runs_while_body [OF _ runs_more]])
qed

lemma left_new_lexer [simp]: "left (new_lexer file contents beyond escapes) = length contents"
  by (simp add: left_def new_lexer_def set_source_def live_def)

subsection \<open>Parsing a file\<close>

text \<open>With fuel for two nested calls more than the file has bytes, the parser never stops for lack of
  fuel, whatever the file holds: it returns the nodes, or stops at one of the code's own errors. (What the
  errors do then is in \<open>Thrown\<close>.)\<close>

lemma parse_needs_no_more_fuel:
  "parse (length contents + 2 + extra) (new_parser file contents beyond escapes) \<noteq> Inl OutOfFuel"
proof -
  have "runs (length contents) (parse (length contents + 2 + extra)) (\<lambda>_ k. k \<le> length contents)"
    by (rule parse_runs) simp
  then show ?thesis
    unfolding runs_def
    by (elim allE [of _ "new_parser file contents beyond escapes"])
      (auto simp: new_parser_def split: sum.splits)
qed

end
