(* ===== verification/Thrown.thy ===== *)
theory Thrown
  imports Diagnostics Parser_Fuel
begin

section \<open>Errors and their reports\<close>

text \<open>
  A \<open>FrontendError\<close> reports while it is constructed, and the report of a token returns exactly when a newline ends
  the line of the token. So a run that throws ends only if the report does. Here the runs of the lexer
  and of the parser are put together with the reports of the errors they throw.
\<close>

lemma throwing_value [simp]: "throwing st beyond (Inr x) = Some (Inr x)"
  by (simp add: throwing_def)

lemma throwing_hangs:
  "throwing st beyond r = None \<longleftrightarrow>
     (\<exists>tok message src. r = Inl (Frontend tok message) \<and> get_source (loc_file_id (tk_location tok)) st = Some src \<and>
        line_of (sf_contents src) \<le> loc_line (tk_location tok))"
proof -
  have report: "frontend_error st beyond tok message = None \<longleftrightarrow>
      (\<exists>src. get_source (loc_file_id (tk_location tok)) st = Some src \<and> line_of (sf_contents src) \<le> loc_line (tk_location tok))"
    for tok message
    using report_token_ends [of tok st] by (cases "get_source (loc_file_id (tk_location tok)) st")
      (auto simp: frontend_error_def report_token_def)
  have "throwing st beyond r = None \<longleftrightarrow>
      (\<exists>tok message. r = Inl (Frontend tok message) \<and> frontend_error st beyond tok message = None)"
    by (auto simp: throwing_def split: sum.splits exn.splits option.splits)
  then show ?thesis unfolding report by simp
qed

lemma throwing_reports:
  assumes "get_source (loc_file_id (tk_location tok)) st = Some src" and "sf_path src \<noteq> None"
    and "loc_line (tk_location tok) < line_of (sf_contents src)"
  shows "throwing st beyond (Inl (Frontend tok message)) = Some (Inl (Frontend tok message))"
  using report_token_reports [OF assms, of beyond message Error] by (auto simp: throwing_def frontend_error_def)

subsection \<open>The parser\<close>

text \<open>C1: Termination of \<open>Ast::parse\<close>, and what its errors do. With fuel for two nested calls more than the file has bytes,
  the parser never stops for lack of fuel, whatever the file holds: every loop and every recursion of
  \<open>ast.cpp\<close> ends, with the nodes or at a \<open>throw\<close>. The construction of the error then reports its token, which does not
  return just when no newline ends the line of the token in its file; so this is the one way in which the whole run does
  not end.\<close>

theorem parse_terminates:
  "parse (length contents + 2 + extra) (new_parser file contents beyond escapes) \<noteq> Inl OutOfFuel \<and>
   (throwing st beyond' (parse (length contents + 2 + extra) (new_parser file contents beyond escapes)) = None \<longleftrightarrow>
     (\<exists>tok message src.
        parse (length contents + 2 + extra) (new_parser file contents beyond escapes) = Inl (Frontend tok message) \<and>
        get_source (loc_file_id (tk_location tok)) st = Some src \<and>
        line_of (sf_contents src) \<le> loc_line (tk_location tok)))"
  using parse_needs_no_more_fuel throwing_hangs by blast

text \<open>Such files exist, for instance the one that holds a single backquote.\<close>

lemma parse_first_token:
  assumes "advance_one (new_lexer file contents beyond escapes) = Inl e" and "contents \<noteq> []"
  shows "parse (Suc n) (new_parser file contents beyond escapes) = Inl e"
proof -
  have "lex_has_next (new_lexer file contents beyond escapes)" "m_next_token (new_lexer file contents beyond escapes) = None"
    using assms(2) by (simp_all add: lex_has_next_def new_lexer_def at_end_def set_source_def)
  then show ?thesis
    using assms(1) by (simp add: parse_def at_scopes_def more_declarations_def lx_def lex_match_next_def lex_peek_next_is_def
        lex_peek_next_def new_parser_def bnd_def)
qed

definition unfinished :: source_file where
  "unfinished = \<lparr>sf_id = 0, sf_path = Some ''a'', sf_contents = ''`''\<rparr>"

lemma parse_can_hang:
  "throwing \<lparr>g_file_index = [unfinished], g_file_buffers = None\<rparr> (\<lambda>_. NUL)
     (parse (Suc n) (new_parser 0 ''`'' (\<lambda>_. NUL) (arena_init 0))) = None"
proof -
  have "case advance_one (new_lexer 0 ''`'' (\<lambda>_. NUL) (arena_init 0)) of
      Inl (Frontend tok message) \<Rightarrow> loc_file_id (tk_location tok) = 0 \<and> loc_line (tk_location tok) = 1 | _ \<Rightarrow> False"
    by code_simp
  then obtain tok message where t: "advance_one (new_lexer 0 ''`'' (\<lambda>_. NUL) (arena_init 0)) = Inl (Frontend tok message)"
    "loc_file_id (tk_location tok) = 0" "loc_line (tk_location tok) = 1"
    by (auto split: sum.splits exn.splits)
  then have "parse (Suc n) (new_parser 0 ''`'' (\<lambda>_. NUL) (arena_init 0)) = Inl (Frontend tok message)"
    by (intro parse_first_token) simp_all
  then show ?thesis
    using t(2,3) unfolding throwing_hangs by (auto simp: get_source_def unfinished_def line_of_def)
qed

subsection \<open>The lexer\<close>

text \<open>Where the lexer finds a character that starts no token.\<close>

lemma skip_comments_significant:
  assumes "rest r = [] \<or> \<not> is_insignificant (hd (rest r))"
  shows "rest (skip_comments r) = [] \<or> \<not> is_insignificant (hd (rest (skip_comments r)))"
  using assms
proof (induction r rule: skip_comments.induct)
  case (1 r)
  show ?case
  proof (cases "at_comment r")
    case True
    have "rest (skip_insignificant False q) = [] \<or> \<not> is_insignificant (hd (rest (skip_insignificant False q)))" for q
      using hd_dropWhile [of is_insignificant "rest q"] by (auto simp: rest_skip_insignificant)
    then show ?thesis using "1.IH" [OF True] True by (simp add: skip_comments.simps [of r])
  qed (use "1.prems" in \<open>simp add: skip_comments.simps [of r]\<close>)
qed

definition stray :: "string \<Rightarrow> token \<Rightarrow> bool" where
  "stray txt tok \<longleftrightarrow>
     (\<exists>before c behind. txt = before @ c # behind \<and> c \<noteq> newline \<and> loc_line (tk_location tok) = line_of (before @ [c]))"

lemma advance_one_stray:
  assumes "reader_inv (m_reader l)" and "length (m_source (m_reader l)) < 2 ^ 32"
    and "advance_one l = Inl (Frontend tok message)"
  shows "stray (m_source (m_reader l)) tok \<and> loc_file_id (tk_location tok) = m_file_id l"
proof -
  define r where r: "r = skip_comments (skip_insignificant False (m_reader l))"
  obtain c r1 where c: "rd_advance r = (c, r1)" by fastforce
  let ?l = "l\<lparr>m_reader := r1\<rparr>"
  have none: "map_of switch_table c = None"
    using assms(3) c by (auto simp: advance_one_def r [symmetric] Let_def split: option.splits)
  then have ne: "c \<noteq> NUL" by (auto simp: switch_table_def)
  note first = after_first_char [OF assms(1,2) r c ne]
  have "build_string ?l \<noteq> Inl e" if "c = dquote" for e
    using build_string_total [of ?l] first(2) that by auto
  moreover have "build_char ?l \<noteq> Inl e" for e
    using build_char_total [of ?l] first(1) by auto
  moreover obtain t l1 where t: "build_error [] ?l = (t, l1)" by fastforce
  ultimately have "tok = t"
    using assms(3) c none
    by (auto simp: advance_one_def r [symmetric] Let_def throw_frontend_def fail_def split: if_splits)
  then have loc: "loc_line (tk_location tok) = m_current_line r1" "loc_file_id (tk_location tok) = m_file_id l"
    using t by (auto simp: build_error_def build_token_def Let_def split: prod.splits)
  have fwd: "reader_fwd (m_reader l) r"
    unfolding r by (rule reader_fwd_trans [OF reader_fwd_skip_insignificant reader_fwd_skip_comments])
  have inv: "reader_inv r1" "m_source r1 = m_source (m_reader l)"
    using fwd c assms(1) reader_inv_advance [of r] advance_fields(1) [of r] by (auto simp: reader_fwd_def)
  have "\<not> at_end r" using c ne by (auto simp: rd_advance_def)
  then obtain cs where rc: "rest r = c # cs"
    using c fst_advance [of r] by (cases "rest r") (auto simp: at_end_rest rd_peek_Cons)
  have "rest (skip_insignificant False q) = [] \<or> \<not> is_insignificant (hd (rest (skip_insignificant False q)))" for q
    using hd_dropWhile [of is_insignificant "rest q"] by (auto simp: rest_skip_insignificant)
  then have "\<not> is_insignificant c" using skip_comments_significant rc unfolding r by (metis list.distinct(1) list.sel(1))
  then have "c \<noteq> newline" by (auto simp: is_insignificant_def)
  moreover have "m_source r = take (m_offset r) (m_source r) @ c # cs"
    using rc unfolding rest_def by (metis append_take_drop_id)
  moreover have "take (m_offset r1) (m_source r1) = take (m_offset r) (m_source r) @ [c]"
  proof -
    have "m_offset r1 = m_offset r + 1" "m_source r1 = m_source r"
      using c \<open>\<not> at_end r\<close> advance_offset [of r] advance_fields(1) [of r] by auto
    moreover have "m_offset r < length (m_source r)" "m_source r ! m_offset r = c"
      using \<open>\<not> at_end r\<close> rest_Cons_nth [OF rc] by (auto simp: at_end_def)
    ultimately show ?thesis by (simp add: take_Suc_nth)
  qed
  then have "m_current_line r1 = line_of (take (m_offset r) (m_source r) @ [c])"
    using inv(1) by (simp add: reader_inv_def)
  ultimately show ?thesis using loc fwd unfolding stray_def reader_fwd_def by metis
qed

lemma token_stream_stray:
  assumes "reader_inv (m_reader l)" and "length (m_source (m_reader l)) < 2 ^ 32"
    and "token_stream l = Inl (Frontend tok message)"
  shows "stray (m_source (m_reader l)) tok \<and> loc_file_id (tk_location tok) = m_file_id l"
  using assms
proof (induction l rule: token_stream.induct)
  case (1 l)
  let ?l = "l\<lparr>m_last_token := m_current_token l\<rparr>"
  have nx: "lex_has_next l" using "1.prems"(3) by (auto simp: token_stream.simps split: if_splits)
  show ?case
  proof (cases "lex_advance l")
    case (Inl e)
    then have "advance_one ?l = Inl (Frontend tok message)"
      using "1.prems"(3) nx by (auto simp: token_stream.simps [of l] lex_advance_def Let_def split: option.splits sum.splits)
    from advance_one_stray [OF _ _ this] show ?thesis using "1.prems"(1,2) by simp
  next
    case (Inr p)
    obtain t l' where p: "p = (t, l')" by fastforce
    note frame = lex_advance_frame(1,2) [OF Inr [unfolded p]]
    have "token_stream l' = Inl (Frontend tok message)"
      using "1.prems"(3) nx Inr p by (auto simp: token_stream.simps [of l] split: sum.splits)
    then show ?thesis
      using "1.IH" [OF nx Inr [unfolded p] refl] frame "1.prems" by (auto simp: reader_fwd_def)
  qed
qed

lemma stray_line:
  assumes "stray txt tok" and "txt \<noteq> []" and "last txt = newline"
  shows "loc_line (tk_location tok) < line_of txt"
proof -
  obtain before c behind where s: "txt = before @ c # behind" "c \<noteq> newline" "loc_line (tk_location tok) = line_of (before @ [c])"
    using assms(1) by (auto simp: stray_def)
  then have "behind \<noteq> []" "last behind = newline" using assms(3) by (auto split: if_splits)
  then have "newline \<in> set behind" by (metis last_in_set)
  then have "0 < count_list behind newline" by (metis count_list_0_iff gr0I)
  then show ?thesis using s by (simp add: line_of_def)
qed

text \<open>C15: Lexing a file ends, reports included, when the file is empty or ends with a newline: it yields at most one token per
  byte, or throws the error of an unexpected character, at an error token. Nothing undefined happens. Without the newline
  the report of an unexpected character on the last line does not return, and nothing else goes wrong. (The
  file is the one of its number among those loaded, its path is still there, and it has less than \<open>2 ^ 32\<close> bytes.)\<close>

theorem lex_file_ends:
  assumes "get_source file st = Some src" and "sf_contents src = contents" and "sf_path src \<noteq> None"
    and "length contents < 2 ^ 32"
  shows "case throwing st beyond' (token_stream (new_lexer file contents beyond escapes)) of
      None \<Rightarrow> contents \<noteq> [] \<and> last contents \<noteq> newline
    | Some (Inl e) \<Rightarrow> \<exists>t. e = Frontend t ''unexpected token found'' \<and> tk_type t = TkError
    | Some (Inr ts) \<Rightarrow> length ts \<le> length contents"
proof -
  let ?l = "new_lexer file contents beyond escapes"
  have l: "reader_inv (m_reader ?l)" "m_source (m_reader ?l) = contents" "m_file_id ?l = file"
    by (simp_all add: new_lexer_def reader_inv_set_source)
  have ends: "case token_stream ?l of
      Inl e \<Rightarrow> \<exists>t. e = Frontend t ''unexpected token found'' \<and> tk_type t = TkError
    | Inr ts \<Rightarrow> length ts \<le> length contents"
    by (rule token_stream_ends [OF assms(4)])
  show ?thesis
  proof (cases "token_stream ?l")
    case (Inl e)
    then obtain t where e: "e = Frontend t ''unexpected token found''" "tk_type t = TkError" using ends by auto
    have at: "stray contents t" "loc_file_id (tk_location t) = file"
      using token_stream_stray [of ?l t "''unexpected token found''"] l assms(4) Inl e(1) by simp_all
    show ?thesis
    proof (cases "loc_line (tk_location t) < line_of contents")
      case True
      have "throwing st beyond' (Inl (Frontend t ''unexpected token found'') :: exn + token list) =
          Some (Inl (Frontend t ''unexpected token found''))"
        by (rule throwing_reports [OF assms(1) [folded at(2)] assms(3) True [folded assms(2)]])
      then show ?thesis using Inl e by simp
    next
      case False
      then have "contents \<noteq> [] \<and> last contents \<noteq> newline"
        using stray_line [OF at(1)] at(1) by (auto simp: stray_def)
      moreover have "throwing st beyond' (token_stream ?l) = None"
        unfolding throwing_hangs using Inl e(1) False assms(1,2) at(2) by auto
      ultimately show ?thesis by simp
    qed
  next
    case (Inr ts)
    then show ?thesis using ends by simp
  qed
qed

theorem lex_file_ends_witness:
  "case throwing \<lparr>g_file_index = [unfinished\<lparr>sf_contents := ''a ` b'' @ [newline]\<rparr>], g_file_buffers = None\<rparr> (\<lambda>_. NUL)
      (token_stream (new_lexer 0 (''a ` b'' @ [newline]) (\<lambda>_. NUL) (arena_init 0))) of
      None \<Rightarrow> False
    | Some (Inl e) \<Rightarrow> \<exists>t. e = Frontend t ''unexpected token found'' \<and> tk_type t = TkError
    | Some (Inr ts) \<Rightarrow> length ts \<le> 6"
proof -
  let ?src = "unfinished\<lparr>sf_contents := ''a ` b'' @ [newline]\<rparr>"
  have "get_source 0 \<lparr>g_file_index = [?src], g_file_buffers = None\<rparr> = Some ?src" by (simp add: get_source_def)
  from lex_file_ends [OF this refl, of "\<lambda>_. NUL" "\<lambda>_. NUL" "arena_init 0"] show ?thesis
    by (simp add: unfinished_def split: option.splits sum.splits)
qed

end
