(* ===== verification/Parser_Tree.thy ===== *)
theory Parser_Tree
  imports Parser_Fuel
begin

section \<open>The tree the parser builds\<close>

text \<open>
  The classes of the code type the members of a node: the condition of an \<open>IfStmt\<close> is an
  \<open>Expr*\<close>, its body a \<open>BlockStmt*\<close>. \<open>needs\<close> lists for each node what its pointers must lead
  to, and \<open>tree_ok\<close> is the store in which they do, so nothing dangles and nothing is null but
  where the parser leaves it so (a missing \<open>else\<close>, an initializer, the type of an inferred
  variable, and the inner type of \<open>^\<close> and \<open>[]\<close>, which the grammar does not insist on).

  While a node is being built its members may still be null. The triples \<open>tree U G m U' Q\<close>
  keep the set \<open>U\<close> of those open nodes and the set \<open>G\<close> of what is known about pointers.
\<close>

subsection \<open>What a pointer leads to\<close>

text \<open>\<open>KSig\<close> is a function whose signature is complete.\<close>

datatype kind =
  KNull | KExpr | KVar | KBlock | KIf | KStmt | KFn | KSig | KType | KCollection

fun stmt_kind :: "stmt_body \<Rightarrow> kind" where
  "stmt_kind (VarDeclStmt _) = KVar"
| "stmt_kind (BlockStmt _) = KBlock"
| "stmt_kind (IfStmt _ _ _) = KIf"
| "stmt_kind _ = KStmt"

fun type_kind :: "type_body \<Rightarrow> kind" where
  "type_kind (FnType _) = KFn"
| "type_kind _ = KType"

fun node_kind :: "node \<Rightarrow> kind" where
  "node_kind (NExpr _) = KExpr"
| "node_kind (NStmt s) = stmt_kind (st_body s)"
| "node_kind (NType t) = type_kind (ty_body t)"
| "node_kind (NFnCollection _ _) = KCollection"

definition has_signature :: "node \<Rightarrow> bool" where
  "has_signature n =
     (case n of
        NType t \<Rightarrow> (case ty_body t of FnType f \<Rightarrow> meta_ptr (fs_return_type (fn_sig f)) \<noteq> Null | _ \<Rightarrow> False)
      | _ \<Rightarrow> False)"

definition is_kind :: "'a store_scheme \<Rightarrow> ptr \<Rightarrow> kind \<Rightarrow> bool" where
  "is_kind s p k =
     (case p of
        Null \<Rightarrow> k = KNull
      | Static _ \<Rightarrow> k = KType
      | At a \<Rightarrow> a < length (nodes s) \<and>
          (if k = KSig then has_signature (nodes s ! a) else node_kind (nodes s ! a) = k))"

type_synonym typing = "ptr \<times> kind set"

definition has :: "'a store_scheme \<Rightarrow> typing \<Rightarrow> bool" where
  "has s e \<longleftrightarrow> (\<exists>k \<in> snd e. is_kind s (fst e) k)"

abbreviation EXPR :: "kind set" where "EXPR \<equiv> {KExpr}"
abbreviation TYP :: "kind set" where "TYP \<equiv> {KType, KFn}"
abbreviation BLOCK :: "kind set" where "BLOCK \<equiv> {KBlock}"
abbreviation opt :: "kind set \<Rightarrow> kind set" where "opt K \<equiv> insert KNull K"
abbreviation NODE :: "kind set" where
  "NODE \<equiv> {KExpr, KVar, KBlock, KIf, KStmt, KFn, KSig, KType, KCollection}"

subsection \<open>What a node needs\<close>

definition element_needs :: "initializer_element list \<Rightarrow> typing list" where
  "element_needs es = map (\<lambda>e. (ie_expr e, EXPR)) es"

fun expr_needs :: "expr_body \<Rightarrow> typing list" where
  "expr_needs (LiteralExpr _) = []"
| "expr_needs (BinaryExpr _ l r) = [(l, EXPR), (r, EXPR)]"
| "expr_needs (UnaryExpr _ e) = [(e, EXPR)]"
| "expr_needs (SymbolExpr p _) = [(p, opt NODE)]"
| "expr_needs (CallExpr c es) = (c, EXPR) # map (\<lambda>e. (e, EXPR)) es"
| "expr_needs (GroupExpr e) = [(e, EXPR)]"
| "expr_needs TypeExpr = []"
| "expr_needs (SizeofExpr e) = [(e, EXPR)]"
| "expr_needs (NameofExpr e) = [(e, EXPR)]"
| "expr_needs (MemberAccessExpr e a _ _) = [(e, EXPR), (a, EXPR)]"
| "expr_needs (TypePropExpr _) = []"
| "expr_needs (CastExpr t e original) = [(meta_ptr t, opt TYP), (e, EXPR), (original, opt TYP)]"
| "expr_needs (NamedExpr _ e) = [(e, EXPR)]"
| "expr_needs (AbsExpr e) = [(e, EXPR)]"
| "expr_needs (PtrOpExpr _ e) = [(e, EXPR)]"
| "expr_needs (AnonInitExpr es) = element_needs es"
| "expr_needs (ArrayLiteralExpr es t) = (t, opt EXPR) # element_needs es"
| "expr_needs (IndexOpExpr e i) = [(e, EXPR), (i, EXPR)]"
| "expr_needs (StructLiteral es _) = element_needs es"
| "expr_needs (EnumLiteralExpr _) = []"
| "expr_needs (SliceExpr e i j) = [(e, EXPR), (i, opt EXPR), (j, opt EXPR)]"
| "expr_needs KeywordExpr = []"
| "expr_needs PackedExpr = []"

fun stmt_needs :: "stmt_body \<Rightarrow> typing list" where
  "stmt_needs (VarDeclStmt v) = [(meta_ptr (vd_type v), opt TYP), (vd_initializer v, opt EXPR)]"
| "stmt_needs (AssignmentStmt l r _) = [(l, EXPR), (r, EXPR)]"
| "stmt_needs (BlockStmt ns) = map (\<lambda>n. (n, NODE)) ns"
| "stmt_needs (ImportStmt _) = []"
| "stmt_needs (ReturnStmt e) = [(e, opt EXPR)]"
| "stmt_needs (ConstantReturnStmt e) = [(e, EXPR)]"
| "stmt_needs BreakStmt = []"
| "stmt_needs ContinueStmt = []"
| "stmt_needs (IfStmt c b e) = [(c, EXPR), (b, BLOCK), (e, {KNull, KIf, KBlock})]"
| "stmt_needs (CompIfStmt i) = [(i, {KIf})]"
| "stmt_needs (WhileStmt c b) = [(c, EXPR), (b, BLOCK)]"
| "stmt_needs (ForStmt vs e b) = (e, EXPR) # (b, BLOCK) # map (\<lambda>v. (v, {KVar})) vs"
| "stmt_needs (ImplStmt _ t ms) = (t, opt TYP) # map (\<lambda>f. (f, {KFn})) ms"

definition fn_needs :: "fn_type \<Rightarrow> typing list" where
  "fn_needs f =
     (meta_ptr (fs_return_type (fn_sig f)), TYP) # (fn_body f, opt BLOCK) #
     (fn_collection f, opt {KCollection}) # map (\<lambda>v. (v, {KVar})) (fs_parameters (fn_sig f))"

fun type_needs :: "type_body \<Rightarrow> typing list" where
  "type_needs (UnresolvedSymbolType _) = []"
| "type_needs (AliasType a) = [(meta_ptr (al_type a), TYP), (al_impl a, {KNull, KStmt})]"
| "type_needs (PointerType t _) = [(t, opt TYP)]"
| "type_needs (ArrayType a) = [(ar_element_type a, opt TYP), (ar_size_expr a, opt EXPR)]"
| "type_needs (SliceType t _) = [(t, opt TYP)]"
| "type_needs (StructType t) =
     (stt_impl t, {KNull, KStmt}) # map (\<lambda>f. (meta_ptr (snd f), TYP)) (stt_fields t)"
| "type_needs (FnType f) = fn_needs f"
| "type_needs (EnumType e) = [(en_impl e, {KNull, KStmt})]"

fun needs :: "node \<Rightarrow> typing list" where
  "needs (NExpr e) = (ex_type e, opt TYP) # expr_needs (ex_body e)"
| "needs (NStmt s) = stmt_needs (st_body s)"
| "needs (NType t) = type_needs (ty_body t)"
| "needs (NFnCollection _ fns) = map (\<lambda>f. (f, {KFn})) fns"

definition tree_ok :: "'a store_scheme \<Rightarrow> bool" where
  "tree_ok s \<longleftrightarrow> (\<forall>n \<in> set (nodes s). \<forall>e \<in> set (needs n). has s e)"

definition weak :: "typing \<Rightarrow> typing" where
  "weak e = (fst e, opt (snd e))"

definition complete :: "ptr set \<Rightarrow> 'a store_scheme \<Rightarrow> bool" where
  "complete U s \<longleftrightarrow>
     (\<forall>a < length (nodes s). \<forall>e \<in> set (needs (nodes s ! a)).
        has s (weak e) \<and> (At a \<notin> U \<longrightarrow> has s e))"

text \<open>The names of the scopes and the symbols of all modules lead to nodes.\<close>

definition names_ok :: "'a front_scheme \<Rightarrow> bool" where
  "names_ok s \<longleftrightarrow>
     (\<forall>d \<in> set (m_table (scopes s)). \<forall>e \<in> set (sd_scope d). has s (snd e, NODE)) \<and>
     (\<forall>e \<in> set (g_global_symbols s). \<forall>g \<in> set (snd e). has s (gs_node g, NODE))"

definition parser_ok :: "ptr set \<Rightarrow> parser \<Rightarrow> bool" where
  "parser_ok U s \<longleftrightarrow>
     complete U s \<and> names_ok s \<and> scope_inv (scopes s) \<and>
     (\<forall>f \<in> set (m_function_stack s). has s (f, {KSig})) \<and>
     (\<forall>n \<in> set (m_nodes s). has s (n, NODE))"

text \<open>What every method leaves as it was.\<close>

definition keeps :: "parser \<Rightarrow> parser \<Rightarrow> bool" where
  "keeps s s' \<longleftrightarrow>
     (\<forall>e. has s e \<longrightarrow> has s' e) \<and>
     m_function_stack s' = m_function_stack s \<and>
     m_can_initialize_stack s' = m_can_initialize_stack s \<and>
     m_nodes s' = m_nodes s \<and>
     m_level (scopes s') = m_level (scopes s) \<and>
     m_locked_level (scopes s') = m_locked_level (scopes s)"

lemma keeps_refl [simp]: "keeps s s"
  by (simp add: keeps_def)

lemma keeps_trans: "keeps a b \<Longrightarrow> keeps b c \<Longrightarrow> keeps a c"
  by (simp add: keeps_def)

subsection \<open>Stores that grow\<close>

lemma has_weak [simp]: "has s e \<Longrightarrow> has s (weak e)"
  by (auto simp: has_def weak_def)

lemma has_mono: "has s (p, K) \<Longrightarrow> K \<subseteq> K' \<Longrightarrow> has s (p, K')"
  by (auto simp: has_def)

lemma has_cong: "nodes s' = nodes s \<Longrightarrow> has s' = has s"
  by (auto simp: fun_eq_iff has_def is_kind_def split: ptr.splits)

lemma has_step: "(\<And>p k. is_kind s p k \<Longrightarrow> is_kind s' p k) \<Longrightarrow> has s e \<Longrightarrow> has s' e"
  unfolding has_def by blast

lemma has_alloc: "has s e \<Longrightarrow> has (snd (alloc n s)) e"
  by (erule has_step [rotated])
    (auto simp: is_kind_def alloc_def nth_append split: ptr.splits if_splits)

lemma has_new: "has (snd (alloc n s)) (fst (alloc n s), {node_kind n})"
  by (cases n; auto simp: has_def is_kind_def alloc_def elim: stmt_kind.elims type_kind.elims)

text \<open>An update of one node keeps what is known if it keeps the kind.\<close>

lemma has_poke:
  assumes "has s e"
    and "\<And>n. peek_node s p = Some n \<Longrightarrow> node_kind (f n) = node_kind n"
    and "\<And>n. peek_node s p = Some n \<Longrightarrow> has_signature n \<Longrightarrow> has_signature (f n)"
  shows "has (poke_node p f s) e"
  using assms(1)
proof (rule has_step [rotated])
  fix q k assume "is_kind s q k"
  then show "is_kind (poke_node p f s) q k"
    using assms(2,3)
    by (auto simp: is_kind_def poke_node_def peek_node_def nth_list_update split: ptr.splits if_splits)
qed

lemma complete_poke:
  assumes c: "complete U s"
    and kind: "\<And>n. peek_node s p = Some n \<Longrightarrow> node_kind (f n) = node_kind n"
    and sig: "\<And>n. peek_node s p = Some n \<Longrightarrow> has_signature n \<Longrightarrow> has_signature (f n)"
    and need: "\<And>n e. peek_node s p = Some n \<Longrightarrow> e \<in> set (needs (f n)) \<Longrightarrow>
      has s (weak e) \<and> (p \<notin> U' \<longrightarrow> has s e)"
    and U: "U \<subseteq> insert p U'"
  shows "complete U' (poke_node p f s)"
  unfolding complete_def
proof (intro allI impI ballI)
  fix a e
  assume a: "a < length (nodes (poke_node p f s))" and e: "e \<in> set (needs (nodes (poke_node p f s) ! a))"
  then have a': "a < length (nodes s)" by simp
  show "has (poke_node p f s) (weak e) \<and> (At a \<notin> U' \<longrightarrow> has (poke_node p f s) e)"
  proof (cases "p = At a")
    case True
    then have n: "peek_node s p = Some (nodes s ! a)" using a' by (simp add: peek_node_def)
    have "nodes (poke_node p f s) ! a = f (nodes s ! a)" using True a' by (simp add: poke_node_def)
    with e need [OF n] have "has s (weak e) \<and> (p \<notin> U' \<longrightarrow> has s e)" by simp
    then show ?thesis using has_poke [OF _ kind sig] True by blast
  next
    case False
    then have "nodes (poke_node p f s) ! a = nodes s ! a"
      by (auto simp: poke_node_def nth_list_update split: ptr.splits)
    then have "has s (weak e) \<and> (At a \<notin> U \<longrightarrow> has s e)" using c a' e by (simp add: complete_def)
    then show ?thesis using has_poke [OF _ kind sig] False U by blast
  qed
qed

subsection \<open>What is known about pointers\<close>

definition holds :: "'a store_scheme \<Rightarrow> typing set \<Rightarrow> bool" where
  "holds s G \<longleftrightarrow> (\<forall>e \<in> G. has s e)"

definition look :: "typing set \<Rightarrow> ptr \<Rightarrow> kind set \<Rightarrow> bool" where
  "look G p K \<longleftrightarrow> (\<exists>K'. (p, K') \<in> G \<and> K' \<subseteq> K)"

definition ent :: "typing set \<Rightarrow> ptr \<Rightarrow> kind set \<Rightarrow> bool" where
  "ent G p K \<longleftrightarrow>
     p = Null \<and> KNull \<in> K \<or> (\<exists>t. p = Static t) \<and> KType \<in> K \<or>
     look G p K \<or> p \<noteq> Null \<and> look G p (opt K)"

definition ents :: "typing set \<Rightarrow> typing set \<Rightarrow> bool" where
  "ents G H \<longleftrightarrow> (\<forall>e \<in> H. ent G (fst e) (snd e))"

lemma look_simps [simp]:
  "look {} p K = False"
  "look (insert (q, K') G) p K \<longleftrightarrow> p = q \<and> K' \<subseteq> K \<or> look G p K"
  "look (G \<union> H) p K \<longleftrightarrow> look G p K \<or> look H p K"
  "look ((\<lambda>x. (f x, K')) ` A) p K \<longleftrightarrow> (\<exists>x \<in> A. p = f x) \<and> K' \<subseteq> K"
  by (auto simp: look_def)

lemma ent_static [simp]: "ent G (Static t) K \<longleftrightarrow> KType \<in> K \<or> look G (Static t) K \<or> look G (Static t) (opt K)"
  by (auto simp: ent_def)

lemma ent_null [simp]: "KNull \<in> K \<Longrightarrow> ent G Null K"
  by (simp add: ent_def)

lemma ents_simps [simp]:
  "ents G {}"
  "ents G (insert (p, K) H) \<longleftrightarrow> ent G p K \<and> ents G H"
  "ents G (H \<union> H') \<longleftrightarrow> ents G H \<and> ents G H'"
  "ents G ((\<lambda>x. (f x, K)) ` A) \<longleftrightarrow> (\<forall>x \<in> A. ent G (f x) K)"
  by (auto simp: ents_def)

lemma KNull_not_kind [simp]: "node_kind n \<noteq> KNull" "node_kind n \<noteq> KSig"
  by (cases n; auto elim!: stmt_kind.elims type_kind.elims)+

lemma ent_has:
  assumes "holds s G" and "ent G p K"
  shows "has s (p, K)"
  using assms(2) unfolding ent_def
proof (elim disjE conjE exE)
  assume "look G p K"
  then show ?thesis using assms(1) has_mono [of s p _ K] by (auto simp: look_def holds_def)
next
  assume "p \<noteq> Null" "look G p (opt K)"
  then have "has s (p, opt K)"
    using assms(1) has_mono [of s p _ "opt K"] by (auto simp: look_def holds_def)
  then obtain k where "k \<in> opt K" "is_kind s p k" by (auto simp: has_def)
  moreover have "k \<noteq> KNull"
    using \<open>is_kind s p k\<close> \<open>p \<noteq> Null\<close> by (auto simp: is_kind_def split: ptr.splits)
  ultimately show ?thesis by (auto simp: has_def)
qed (auto simp: has_def is_kind_def)

lemma ents_holds: "holds s G \<Longrightarrow> ents G H \<Longrightarrow> holds s H"
  using ent_has [of s G] by (fastforce simp: ents_def holds_def)

lemma holds_Un [simp]: "holds s (G \<union> H) \<longleftrightarrow> holds s G \<and> holds s H"
  by (auto simp: holds_def)

lemma holds_insert [simp]: "holds s (insert e G) \<longleftrightarrow> has s e \<and> holds s G"
  by (auto simp: holds_def)

lemma holds_keeps: "keeps s s' \<Longrightarrow> holds s G \<Longrightarrow> holds s' G"
  by (auto simp: holds_def keeps_def)

subsection \<open>Triples\<close>

definition tree ::
    "ptr set \<Rightarrow> typing set \<Rightarrow> 'a parse \<Rightarrow> ptr set \<Rightarrow> ('a \<Rightarrow> typing set) \<Rightarrow> bool" where
  "tree U G m U' Q \<longleftrightarrow>
     (\<forall>s. parser_ok U s \<and> holds s G \<longrightarrow>
        (case m s of
           Inl e \<Rightarrow> e \<noteq> Undefined ''null pointer''
         | Inr (x, s') \<Rightarrow> parser_ok U' s' \<and> keeps s s' \<and> holds s' (Q x)))"

lemma treeI:
  assumes "\<And>s. parser_ok U s \<Longrightarrow> holds s G \<Longrightarrow> m s \<noteq> Inl (Undefined ''null pointer'')"
    and "\<And>s x s'. parser_ok U s \<Longrightarrow> holds s G \<Longrightarrow> m s = Inr (x, s') \<Longrightarrow>
      parser_ok U' s' \<and> keeps s s' \<and> holds s' (Q x)"
  shows "tree U G m U' Q"
  using assms unfolding tree_def by (auto split: sum.splits)

lemma treeD:
  assumes "tree U G m U' Q" and "parser_ok U s" and "holds s G"
  shows "m s \<noteq> Inl (Undefined ''null pointer'')"
    and "m s = Inr (x, s') \<Longrightarrow> parser_ok U' s' \<and> keeps s s' \<and> holds s' (Q x)"
  using assms unfolding tree_def by (auto split: sum.splits)

lemma tree_bnd:
  assumes m: "tree U G m U1 Q" and f: "\<And>x. tree U1 (G \<union> Q x) (f x) U' R"
  shows "tree U G (bnd m f) U' R"
proof (rule treeI)
  fix s assume s: "parser_ok U s" "holds s G"
  show "bnd m f s \<noteq> Inl (Undefined ''null pointer'')"
  proof
    assume "bnd m f s = Inl (Undefined ''null pointer'')"
    then obtain x s1 where 1: "m s = Inr (x, s1)" "f x s1 = Inl (Undefined ''null pointer'')"
      using treeD(1) [OF m s] by (auto simp: bnd_eq_Inl_iff)
    have "holds s1 (G \<union> Q x)" using treeD(2) [OF m s 1(1)] holds_keeps s by auto
    then show False using treeD(1) [OF f] treeD(2) [OF m s 1(1)] 1(2) by blast
  qed
  fix y s' assume "bnd m f s = Inr (y, s')"
  then obtain x s1 where 1: "m s = Inr (x, s1)" "f x s1 = Inr (y, s')" by auto
  have "holds s1 (G \<union> Q x)" using treeD(2) [OF m s 1(1)] holds_keeps s by auto
  then show "parser_ok U' s' \<and> keeps s s' \<and> holds s' (R y)"
    using treeD(2) [OF f _ _ 1(2)] treeD(2) [OF m s 1(1)] keeps_trans by blast
qed

lemma tree_weaken:
  assumes "tree U G m U' Q" and "\<And>x. ents (G \<union> Q x) (R x)"
  shows "tree U G m U' R"
proof (rule treeI)
  fix s assume s: "parser_ok U s" "holds s G"
  show "m s \<noteq> Inl (Undefined ''null pointer'')" by (rule treeD(1) [OF assms(1) s])
  fix x s' assume x: "m s = Inr (x, s')"
  note post = treeD(2) [OF assms(1) s x]
  then have "holds s' (G \<union> Q x)" using holds_keeps s by auto
  then show "parser_ok U' s' \<and> keeps s s' \<and> holds s' (R x)"
    using ents_holds [OF _ assms(2)] post by blast
qed

lemma tree_ret: "ents G (Q x) \<Longrightarrow> tree U G (ret x) U Q"
  by (rule treeI) (auto intro: ents_holds)

lemma tree_fail: "e \<noteq> Undefined ''null pointer'' \<Longrightarrow> tree U G (fail e) U' Q"
  by (simp add: tree_def)

lemma tree_throw: "tree U G (throw_frontend t msg) U' Q"
  by (simp add: tree_def)

lemma tree_throw_formatted: "tree U G (throw_formatted t f args) U' Q"
  by (auto simp: tree_def throw_formatted_def split: option.splits)

lemma tree_if: "(c \<Longrightarrow> tree U G a U' Q) \<Longrightarrow> (\<not> c \<Longrightarrow> tree U G b U' Q) \<Longrightarrow> tree U G (if c then a else b) U' Q"
  by simp

lemma tree_if_bnd:
  "(c \<Longrightarrow> tree U G (bnd a f) U' Q) \<Longrightarrow> (\<not> c \<Longrightarrow> tree U G (bnd b f) U' Q) \<Longrightarrow>
     tree U G (bnd (if c then a else b) f) U' Q"
  by simp

text \<open>Steps that touch neither the nodes nor the names.\<close>

definition lexical :: "'a parse \<Rightarrow> bool" where
  "lexical m \<longleftrightarrow>
     (\<forall>s. case m s of
        Inl e \<Rightarrow> e \<noteq> Undefined ''null pointer''
      | Inr (x, s') \<Rightarrow>
          nodes s' = nodes s \<and> scopes s' = scopes s \<and> g_global_symbols s' = g_global_symbols s \<and>
          m_function_stack s' = m_function_stack s \<and> m_nodes s' = m_nodes s \<and>
          m_can_initialize_stack s' = m_can_initialize_stack s)"

lemma lexical_tree:
  assumes "lexical m" and "\<And>x. ents G (Q x)"
  shows "tree U G m U Q"
proof (rule treeI)
  fix s assume s: "parser_ok U s" "holds s G"
  show "m s \<noteq> Inl (Undefined ''null pointer'')"
    using assms(1) by (auto simp: lexical_def split: sum.splits)
  fix x s' assume "m s = Inr (x, s')"
  then have e: "nodes s' = nodes s" "scopes s' = scopes s" "g_global_symbols s' = g_global_symbols s"
    "m_function_stack s' = m_function_stack s" "m_nodes s' = m_nodes s"
    "m_can_initialize_stack s' = m_can_initialize_stack s"
    using assms(1) by (auto simp: lexical_def split: sum.splits prod.splits)
  note h = has_cong [OF e(1)]
  have "holds s' (Q x)" using ents_holds [OF s(2) assms(2)] by (simp add: holds_def h)
  then show "parser_ok U s' \<and> keeps s s' \<and> holds s' (Q x)"
    using s(1) by (simp add: parser_ok_def complete_def names_ok_def keeps_def h e)
qed

lemma tree_lexical: "lexical m \<Longrightarrow> (\<And>x. tree U G (f x) U' R) \<Longrightarrow> tree U G (bnd m f) U' R"
  by (rule tree_bnd [where Q = "\<lambda>_. {}"]) (auto intro: lexical_tree)

lemma tree_stronger:
  assumes "tree U H m U' Q" and "H \<subseteq> G"
  shows "tree U G m U' Q"
  using assms unfolding tree_def holds_def by blast

lemma ents_mono [simp]: "H \<subseteq> G \<Longrightarrow> ents G H"
  by (force simp: ents_def ent_def look_def)

text \<open>What follows from the known typings may be added to them.\<close>

lemma tree_entail:
  assumes "tree U (G \<union> H) m U' Q" and "ents G H"
  shows "tree U G m U' Q"
  unfolding tree_def
proof (intro allI impI)
  fix s assume s: "parser_ok U s \<and> holds s G"
  then have "holds s (G \<union> H)" by (auto intro: ents_holds [OF _ assms(2)])
  then show "case m s of Inl e \<Rightarrow> e \<noteq> Undefined ''null pointer''
      | Inr (x, s') \<Rightarrow> parser_ok U' s' \<and> keeps s s' \<and> holds s' (Q x)"
    using assms(1) s by (simp add: tree_def)
qed

subsection \<open>New nodes\<close>

text \<open>The nodes that are allocated before their members are known.\<close>

definition is_open :: "node \<Rightarrow> bool" where
  "is_open n =
     (case n of
        NExpr e \<Rightarrow>
          (case ex_body e of
             UnaryExpr _ p \<Rightarrow> p = Null
           | SliceExpr p _ _ \<Rightarrow> p = Null
           | IndexOpExpr p _ \<Rightarrow> p = Null
           | MemberAccessExpr p _ _ _ \<Rightarrow> p = Null
           | PtrOpExpr _ p \<Rightarrow> p = Null
           | CastExpr _ p _ \<Rightarrow> p = Null
           | _ \<Rightarrow> False)
      | NStmt s \<Rightarrow>
          (case st_body s of
             AssignmentStmt p _ _ \<Rightarrow> p = Null
           | IfStmt p _ _ \<Rightarrow> p = Null
           | CompIfStmt p \<Rightarrow> p = Null
           | WhileStmt p _ \<Rightarrow> p = Null
           | ForStmt _ p _ \<Rightarrow> p = Null
           | _ \<Rightarrow> False)
      | NType t \<Rightarrow>
          (case ty_body t of
             AliasType a \<Rightarrow> meta_ptr (al_type a) = Null
           | FnType f \<Rightarrow> meta_ptr (fs_return_type (fn_sig f)) = Null
           | _ \<Rightarrow> False)
      | _ \<Rightarrow> False)"

lemma token_irrelevant [simp]:
  "needs (set_node_token k n) = needs n" "node_kind (set_node_token k n) = node_kind n"
  "has_signature (set_node_token k n) = has_signature n" "is_open (set_node_token k n) = is_open n"
  by (cases n; simp add: has_signature_def is_open_def)+

lemma parser_ok_alloc:
  assumes ok: "parser_ok U s"
    and need: "\<And>e. e \<in> set (needs n) \<Longrightarrow> has s (weak e) \<and> (\<not> open \<longrightarrow> has s e)"
    and a: "alloc n s = (p, s')"
  shows "parser_ok (if open then insert p U else U) s'" and "keeps s s'" and "has s' (p, {node_kind n})"
proof -
  have p: "p = At (length (nodes s))" and s': "nodes s' = nodes s @ [n]" "scopes s' = scopes s"
    "g_global_symbols s' = g_global_symbols s" "m_function_stack s' = m_function_stack s"
    "m_nodes s' = m_nodes s" "m_can_initialize_stack s' = m_can_initialize_stack s"
    using a by (auto simp: alloc_def)
  have mono: "has s e \<Longrightarrow> has s' e" for e using has_alloc [of s e n] a by simp
  show "has s' (p, {node_kind n})" using has_new [of n s] a by simp
  show "keeps s s'" using mono s' by (simp add: keeps_def)
  have "complete (if open then insert p U else U) s'"
    unfolding complete_def
    using ok need mono s' p
    by (auto simp: parser_ok_def complete_def nth_append less_Suc_eq)
  then show "parser_ok (if open then insert p U else U) s'"
    using ok mono by (simp add: parser_ok_def names_ok_def s')
qed

lemma tree_new_bnd:
  assumes need: "\<forall>e \<in> set (needs n). ent G (fst e) (if is_open n then opt (snd e) else snd e)"
    and f: "\<And>p. tree (if is_open n then insert p U else U) (insert (p, {node_kind n}) G) (f p) U' Q"
  shows "tree U G (bnd (new_node n) f) U' Q"
proof -
  have step: "\<exists>p s1. new_node n s = Inr (p, s1) \<and>
      parser_ok (if is_open n then insert p U else U) s1 \<and> keeps s s1 \<and> has s1 (p, {node_kind n})"
    if s: "parser_ok U s" "holds s G" for s
  proof -
    let ?tok = "m_last_token (m_lexer s)"
    obtain tok where tok: "peek_last s = Inr (tok, s)"
      by (simp add: peek_last_def lx_def lex_peek_last_def)
    obtain p s1 where 1: "alloc (set_node_token tok n) s = (p, s1)" by fastforce
    have new: "new_node n s = Inr (p, s1)" by (simp add: new_node_def bnd_def tok 1)
    have e: "has s (fst e, if is_open n then opt (snd e) else snd e)" if "e \<in> set (needs n)" for e
      using ent_has [OF s(2)] need that by blast
    have "has s (weak e) \<and> (\<not> is_open n \<longrightarrow> has s e)" if "e \<in> set (needs n)" for e
      using e [OF that] has_weak [of s e] by (auto simp: weak_def split: if_splits)
    from parser_ok_alloc [OF s(1) _ 1, of "is_open n"] this new show ?thesis by auto
  qed
  show ?thesis
  proof (rule treeI)
    fix s assume s: "parser_ok U s" "holds s G"
    from step [OF s] obtain p s1 where 1: "new_node n s = Inr (p, s1)"
      "parser_ok (if is_open n then insert p U else U) s1" "keeps s s1" "has s1 (p, {node_kind n})" by blast
    have h: "holds s1 (insert (p, {node_kind n}) G)" using 1 holds_keeps s by simp
    show "bnd (new_node n) f s \<noteq> Inl (Undefined ''null pointer'')"
      using treeD(1) [OF f 1(2) h] 1(1) by (simp add: bnd_def)
    fix y s' assume "bnd (new_node n) f s = Inr (y, s')"
    then have "f p s1 = Inr (y, s')" using 1(1) by (simp add: bnd_def)
    from treeD(2) [OF f 1(2) h this] 1(3) show "parser_ok U' s' \<and> keeps s s' \<and> holds s' (Q y)"
      using keeps_trans by blast
  qed
qed

lemma tree_new:
  assumes "\<forall>e \<in> set (needs n). ent G (fst e) (snd e)" and "\<not> is_open n"
    and "\<And>p. ents (insert (p, {node_kind n}) G) (Q p)"
  shows "tree U G (new_node n) U Q"
proof -
  have "tree U G (bnd (new_node n) ret) U Q"
    using assms by (intro tree_new_bnd) (auto intro: tree_ret)
  then show ?thesis by (simp add: bnd_ret_right)
qed

subsection \<open>Changes to a node\<close>

lemma parser_ok_poke:
  assumes ok: "parser_ok U s"
    and kind: "\<And>n. peek_node s p = Some n \<Longrightarrow> node_kind (g n) = node_kind n"
    and sig: "\<And>n. peek_node s p = Some n \<Longrightarrow> has_signature n \<Longrightarrow> has_signature (g n)"
    and need: "\<And>n e. peek_node s p = Some n \<Longrightarrow> e \<in> set (needs (g n)) \<Longrightarrow>
      has s (weak e) \<and> (p \<notin> U' \<longrightarrow> has s e)"
    and U: "U \<subseteq> insert p U'"
  shows "parser_ok U' (poke_node p g s) \<and> keeps s (poke_node p g s)"
proof -
  let ?s = "poke_node p g s"
  have mono: "has s e \<Longrightarrow> has ?s e" for e by (rule has_poke [OF _ kind sig])
  have f: "scopes ?s = scopes s" "g_global_symbols ?s = g_global_symbols s"
    "m_function_stack ?s = m_function_stack s" "m_nodes ?s = m_nodes s"
    "m_can_initialize_stack ?s = m_can_initialize_stack s"
    by (simp_all add: poke_node_def split: ptr.splits)
  have "complete U' ?s" using ok complete_poke [OF _ kind sig need U] by (simp add: parser_ok_def)
  then show ?thesis using ok mono by (simp add: parser_ok_def names_ok_def keeps_def f)
qed

lemma tree_change:
  assumes "\<And>s n. parser_ok U s \<Longrightarrow> holds s G \<Longrightarrow> peek_node s p = Some n \<Longrightarrow>
      node_kind (g n) = node_kind n \<and> (has_signature n \<longrightarrow> has_signature (g n)) \<and>
      (\<forall>e \<in> set (needs (g n)). has s (weak e) \<and> (p \<notin> U' \<longrightarrow> has s e))"
    and "U \<subseteq> insert p U'"
    and "\<And>s :: parser. holds s G \<Longrightarrow> holds s (Q ())"
  shows "tree U G (change_node p g) U' Q"
proof (rule treeI)
  fix s assume s: "parser_ok U s" "holds s G"
  show "change_node p g s \<noteq> Inl (Undefined ''null pointer'')" by (simp add: change_node_def)
  fix x s' assume "change_node p g s = Inr (x, s')"
  then have s': "s' = poke_node p g s" "x = ()" by (simp_all add: change_node_def)
  have "parser_ok U' s' \<and> keeps s s'"
    unfolding s' by (rule parser_ok_poke [OF s(1) _ _ _ assms(2)]) (use assms(1) [OF s] in auto)
  then show "parser_ok U' s' \<and> keeps s s' \<and> holds s' (Q x)"
    using holds_keeps [OF _ assms(3) [OF s(2)]] s'(2) by auto
qed

lemma has_EXPR: "has s (p, EXPR) \<Longrightarrow> peek_node s p = Some n \<Longrightarrow> \<exists>e. n = NExpr e"
  by (cases n; auto simp: has_def is_kind_def peek_node_def elim: stmt_kind.elims type_kind.elims
      split: ptr.splits if_splits)

lemma has_stmt: "has s (p, {stmt_kind b}) \<Longrightarrow> peek_node s p = Some n \<Longrightarrow>
    \<exists>st. n = NStmt st \<and> stmt_kind (st_body st) = stmt_kind b"
  by (cases n; cases b; auto simp: has_def is_kind_def peek_node_def elim: type_kind.elims
      split: ptr.splits if_splits)

lemma has_type: "has s (p, {type_kind b}) \<Longrightarrow> peek_node s p = Some n \<Longrightarrow>
    \<exists>t. n = NType t \<and> type_kind (ty_body t) = type_kind b"
  by (cases n; cases b; auto simp: has_def is_kind_def peek_node_def elim: stmt_kind.elims
      split: ptr.splits if_splits)

lemma complete_node:
  assumes "parser_ok U s" and "peek_node s p = Some n" and "e \<in> set (needs n)"
  shows "has s (weak e)" and "p \<notin> U \<Longrightarrow> has s e"
  using assms by (auto simp: parser_ok_def complete_def peek_node_def split: ptr.splits if_splits)

lemma need_ent: "holds s G \<Longrightarrow> ent G (fst e) (snd e) \<Longrightarrow> has s e \<and> has s (weak e)"
  using ent_has [of s G "fst e" "snd e"] by simp

text \<open>The members of a node are assigned: it is complete.\<close>

lemma tree_set_expr:
  assumes "ent G p EXPR" and need: "\<forall>e \<in> set (expr_needs b). ent G (fst e) (snd e)"
    and "U \<subseteq> insert p U'" and "ents G (Q ())"
  shows "tree U G (change_node p (set_expr_body b)) U' Q"
proof (rule tree_change [OF _ assms(3)])
  fix s :: parser and n assume s: "parser_ok U s" "holds s G" "peek_node s p = Some n"
  obtain e where n: "n = NExpr e" using has_EXPR [OF ent_has [OF s(2) assms(1)] s(3)] by blast
  have "has s (weak (ex_type e, opt TYP))" using complete_node [OF s(1,3)] n by simp
  then have "has s (ex_type e, opt TYP)" by (simp add: weak_def)
  then show "node_kind (set_expr_body b n) = node_kind n \<and>
      (has_signature n \<longrightarrow> has_signature (set_expr_body b n)) \<and>
      (\<forall>e \<in> set (needs (set_expr_body b n)). has s (weak e) \<and> (p \<notin> U' \<longrightarrow> has s e))"
    using need need_ent [OF s(2)] n by (auto simp: set_expr_body_def has_signature_def)
qed (use assms(4) ents_holds in auto)

lemma tree_set_stmt:
  assumes "ent G p {stmt_kind b}" and need: "\<forall>e \<in> set (stmt_needs b). ent G (fst e) (snd e)"
    and "U \<subseteq> insert p U'" and "ents G (Q ())"
  shows "tree U G (change_node p (set_stmt_body b)) U' Q"
proof (rule tree_change [OF _ assms(3)])
  fix s :: parser and n assume s: "parser_ok U s" "holds s G" "peek_node s p = Some n"
  obtain st where n: "n = NStmt st" "stmt_kind (st_body st) = stmt_kind b"
    using has_stmt [OF ent_has [OF s(2) assms(1)] s(3)] by blast
  then show "node_kind (set_stmt_body b n) = node_kind n \<and>
      (has_signature n \<longrightarrow> has_signature (set_stmt_body b n)) \<and>
      (\<forall>e \<in> set (needs (set_stmt_body b n)). has s (weak e) \<and> (p \<notin> U' \<longrightarrow> has s e))"
    using need need_ent [OF s(2)] by (auto simp: set_stmt_body_def has_signature_def)
qed (use assms(4) ents_holds in auto)

lemma signature_not_null:
  assumes "has s (p, TYP)"
  shows "p \<noteq> Null"
  using assms by (auto simp: has_def is_kind_def)

lemma has_signature_needs:
  assumes "\<forall>e \<in> set (type_needs b). has s e"
  shows "type_kind b = KFn \<longleftrightarrow> has_signature (NType (t\<lparr>ty_body := b\<rparr>))"
  using assms signature_not_null [of s]
  by (cases b) (auto simp: has_signature_def fn_needs_def)

lemma has_signature_kind: "has_signature (NType t) \<Longrightarrow> type_kind (ty_body t) = KFn"
  by (auto simp: has_signature_def split: type_body.splits)

lemma tree_set_type:
  assumes "ent G p {type_kind b}" and need: "\<forall>e \<in> set (type_needs b). ent G (fst e) (snd e)"
    and "U \<subseteq> insert p U'" and "ents G (Q ())"
  shows "tree U G (change_node p (set_type_body b)) U' Q"
proof (rule tree_change [OF _ assms(3)])
  fix s :: parser and n assume s: "parser_ok U s" "holds s G" "peek_node s p = Some n"
  obtain t where n: "n = NType t" "type_kind (ty_body t) = type_kind b"
    using has_type [OF ent_has [OF s(2) assms(1)] s(3)] by blast
  have ne: "\<forall>e \<in> set (type_needs b). has s e" using need need_ent [OF s(2)] by blast
  have "has_signature n \<longrightarrow> has_signature (set_type_body b n)"
    using has_signature_needs [OF ne, of t] has_signature_kind [of t] n by (auto simp: set_type_body_def)
  then show "node_kind (set_type_body b n) = node_kind n \<and>
      (has_signature n \<longrightarrow> has_signature (set_type_body b n)) \<and>
      (\<forall>e \<in> set (needs (set_type_body b n)). has s (weak e) \<and> (p \<notin> U' \<longrightarrow> has s e))"
    using ne n by (auto simp: set_type_body_def)
qed (use assms(4) ents_holds in auto)

lemma tree_step_ret:
  assumes "tree U G m U' (\<lambda>_. {})" and "ents G (Q x)"
  shows "tree U G (bnd m (\<lambda>_. ret x)) U' Q"
  by (rule tree_bnd [OF assms(1)]) (use assms(2) in \<open>auto intro: tree_ret\<close>)

lemma tree_finish_expr:
  assumes "ent G p EXPR" and "\<forall>e \<in> set (expr_needs b). ent G (fst e) (snd e)"
    and "U \<subseteq> insert p U'" and "ents G (Q p)"
  shows "tree U G (finish_expr p b) U' Q"
  unfolding finish_expr_def by (intro tree_step_ret tree_set_expr) (use assms in auto)

lemma tree_finish_stmt:
  assumes "ent G p {stmt_kind b}" and "\<forall>e \<in> set (stmt_needs b). ent G (fst e) (snd e)"
    and "U \<subseteq> insert p U'" and "ents G (Q p)"
  shows "tree U G (finish_stmt p b) U' Q"
  unfolding finish_stmt_def by (intro tree_step_ret tree_set_stmt) (use assms in auto)

lemma tree_finish_type:
  assumes "ent G p {type_kind b}" and "\<forall>e \<in> set (type_needs b). ent G (fst e) (snd e)"
    and "U \<subseteq> insert p U'" and "ents G (Q p)"
  shows "tree U G (finish_type p b) U' Q"
  unfolding finish_type_def by (intro tree_step_ret tree_set_type) (use assms in auto)

text \<open>Changes that leave the members or add known ones.\<close>

lemma tree_change_known:
  assumes g: "\<And>n. node_kind (g n) = node_kind n" "\<And>n. has_signature n \<Longrightarrow> has_signature (g n)"
    and need: "\<And>n e. e \<in> set (needs (g n)) \<Longrightarrow> e \<in> set (needs n) \<or> ent G (fst e) (snd e)"
    and "ents G (Q ())"
  shows "tree U G (change_node p g) U Q"
proof (rule tree_change)
  fix s :: parser and n assume s: "parser_ok U s" "holds s G" "peek_node s p = Some n"
  show "node_kind (g n) = node_kind n \<and> (has_signature n \<longrightarrow> has_signature (g n)) \<and>
      (\<forall>e \<in> set (needs (g n)). has s (weak e) \<and> (p \<notin> U \<longrightarrow> has s e))"
    using g need [of _ n] complete_node [OF s(1,3)] need_ent [OF s(2)] by blast
qed (use assms(4) ents_holds in auto)

lemma tree_set_token: "ents G (Q ()) \<Longrightarrow> tree U G (set_token p t) U Q"
  unfolding set_token_def by (rule tree_change_known) auto

lemma tree_set_expr_type:
  assumes "ent G t (opt TYP)" and "ents G (Q ())"
  shows "tree U G (change_node p (set_type t)) U Q"
  by (rule tree_change_known) (use assms in \<open>auto simp: set_type_def has_signature_def split: node.splits\<close>)

lemma tree_set_specifier:
  assumes "ent G t (opt EXPR)" and "ents G (Q ())"
  shows "tree U G (change_node p (set_specifier t)) U Q"
proof (rule tree_change_known)
  fix n e assume "e \<in> set (needs (set_specifier t n))"
  then show "e \<in> set (needs n) \<or> ent G (fst e) (snd e)"
    using assms(1) by (auto simp: set_specifier_def split: node.splits expr_body.splits)
qed (use assms(2) in \<open>auto simp: set_specifier_def has_signature_def split: node.splits expr_body.splits\<close>)

lemma upd_fn_cases:
  obtains (fn) t f where "n = NType t" "ty_body t = FnType f" "upd_fn g n = NType (t\<lparr>ty_body := FnType (g f)\<rparr>)"
  | (other) "upd_fn g n = n"
proof (cases "\<exists>t f. n = NType t \<and> ty_body t = FnType f")
  case True
  then show ?thesis using fn by (auto simp: upd_fn_def)
next
  case False
  then have "upd_fn g n = n" by (auto simp: upd_fn_def split: node.splits type_body.splits)
  then show ?thesis by (rule other)
qed

lemma tree_change_fn:
  assumes need: "\<And>f e. e \<in> set (fn_needs (g f)) \<Longrightarrow> e \<in> set (fn_needs f) \<or> ent G (fst e) (snd e)"
    and sig: "\<And>f. meta_ptr (fs_return_type (fn_sig (g f))) = meta_ptr (fs_return_type (fn_sig f))"
    and "ents G (Q ())"
  shows "tree U G (change_fn p g) U Q"
  unfolding change_fn_def
proof (rule tree_change_known)
  fix n
  show "node_kind (upd_fn g n) = node_kind n" by (cases rule: upd_fn_cases [of n g]) auto
  show "has_signature n \<Longrightarrow> has_signature (upd_fn g n)"
    by (cases rule: upd_fn_cases [of n g]) (use sig in \<open>auto simp: has_signature_def\<close>)
  fix e assume "e \<in> set (needs (upd_fn g n))"
  then show "e \<in> set (needs n) \<or> ent G (fst e) (snd e)"
    by (cases rule: upd_fn_cases [of n g]) (use need in auto)
qed (rule assms(3))

text \<open>The signature is assigned: the function is complete.\<close>

lemma fn_node:
  assumes "node_kind n = KFn"
  obtains t f where "n = NType t" "ty_body t = FnType f"
proof (cases n)
  case (NStmt x)
  then show ?thesis using assms by (cases "st_body x") auto
next
  case (NType t)
  then show ?thesis using assms that by (cases "ty_body t") auto
qed (use assms in auto)

lemma has_fn:
  assumes "has s (p, {KFn})"
  obtains t f where "peek_node s p = Some (NType t)" "ty_body t = FnType f"
proof -
  obtain n where "peek_node s p = Some n" "node_kind n = KFn"
    using assms by (auto simp: has_def is_kind_def peek_node_def split: ptr.splits)
  then show ?thesis using that by (metis fn_node)
qed

lemma tree_sign_fn_bnd:
  assumes fn: "ent G p {KFn}"
    and sig: "\<And>f. fn_sig (g f) = sig" "\<And>f. fn_body (g f) = fn_body f" "\<And>f. fn_collection (g f) = fn_collection f"
    and need: "ent G (meta_ptr (fs_return_type sig)) TYP" "\<forall>v \<in> set (fs_parameters sig). ent G v {KVar}"
    and m: "tree U (insert (p, {KSig}) G) m U' Q"
  shows "tree (insert p U) G (bnd (change_fn p g) (\<lambda>_. m)) U' Q"
proof (rule treeI)
  fix s assume s: "parser_ok (insert p U) s" "holds s G"
  let ?s = "poke_node p (upd_fn g) s"
  obtain t f where n: "peek_node s p = Some (NType t)" "ty_body t = FnType f"
    by (rule has_fn [OF ent_has [OF s(2) fn]])
  have ret: "has s (meta_ptr (fs_return_type sig), TYP)" by (rule ent_has [OF s(2) need(1)])
  have par: "has s (v, {KVar})" if "v \<in> set (fs_parameters sig)" for v
    using ent_has [OF s(2)] need(2) that by blast
  have "has s (weak (fn_body f, opt BLOCK))" "has s (weak (fn_collection f, opt {KCollection}))"
    using n(2) by (intro complete_node(1) [OF s(1) n(1)]; simp add: fn_needs_def)+
  then have body: "has s (fn_body f, opt BLOCK)" "has s (fn_collection f, opt {KCollection})"
    by (simp_all add: weak_def)
  have 1: "parser_ok U ?s \<and> keeps s ?s"
  proof (rule parser_ok_poke [OF s(1)])
    fix n' assume "peek_node s p = Some n'"
    then have n': "n' = NType t" using n by simp
    show "node_kind (upd_fn g n') = node_kind n'" using n n' by (simp add: upd_fn_def)
    show "has_signature n' \<Longrightarrow> has_signature (upd_fn g n')"
      using n n' sig signature_not_null [OF ret] by (simp add: upd_fn_def has_signature_def)
    fix e assume "e \<in> set (needs (upd_fn g n'))"
    then have "has s e"
      using n n' sig ret par body by (auto simp: upd_fn_def fn_needs_def)
    then show "has s (weak e) \<and> (p \<notin> U \<longrightarrow> has s e)" by simp
  qed simp
  obtain a where a: "p = At a" "a < length (nodes s)" "nodes s ! a = NType t"
    using n by (auto simp: peek_node_def split: ptr.splits if_splits)
  have "has ?s (p, {KSig})"
    using n(2) a sig signature_not_null [OF ret]
    by (simp add: has_def is_kind_def poke_node_def has_signature_def upd_fn_def)
  then have h: "holds ?s (insert (p, {KSig}) G)" using holds_keeps [OF conjunct2 [OF 1] s(2)] by simp
  have run: "bnd (change_fn p g) (\<lambda>_. m) s = m ?s"
    by (simp add: change_fn_def change_node_def bnd_def)
  show "bnd (change_fn p g) (\<lambda>_. m) s \<noteq> Inl (Undefined ''null pointer'')"
    unfolding run using treeD(1) [OF m _ h] 1 by blast
  fix x s' assume "bnd (change_fn p g) (\<lambda>_. m) s = Inr (x, s')"
  then show "parser_ok U' s' \<and> keeps s s' \<and> holds s' (Q x)"
    unfolding run using treeD(2) [OF m _ h] 1 keeps_trans by blast
qed

subsection \<open>Names\<close>

lemma parser_ok_scopes:
  assumes ok: "parser_ok U s"
    and s': "nodes s' = nodes s" "m_function_stack s' = m_function_stack s" "m_nodes s' = m_nodes s"
      "m_can_initialize_stack s' = m_can_initialize_stack s"
    and names: "names_ok s'" "scope_inv (scopes s')"
    and lev: "m_level (scopes s') = m_level (scopes s)" "m_locked_level (scopes s') = m_locked_level (scopes s)"
  shows "parser_ok U s' \<and> keeps s s'"
  using assms has_cong [OF s'(1)] by (simp add: parser_ok_def complete_def keeps_def)

lemma emplace_entries: "set (snd (hm_emplace k v m)) \<subseteq> insert (k, v) (set m)"
  by (auto simp: hm_emplace_def split: option.splits)

lemma modify_entries:
  "(k', v) \<in> set (hm_modify k d f m) \<Longrightarrow>
     (k', v) \<in> set m \<or> (\<exists>w. (k', w) \<in> set m \<and> v = f w) \<or> v = f d"
  by (auto simp: hm_modify_def split: option.splits if_splits)

lemma names_ok_upd_level:
  assumes "names_ok s" and "has s (p, NODE)" and "scopes s' = upd_level i (\<lambda>d. d\<lparr>sd_scope := snd (hm_emplace k p (sd_scope d))\<rparr>) (scopes s)"
    and "nodes s' = nodes s" and "g_global_symbols s' = g_global_symbols s" and i: "i < length (m_table (scopes s))"
  shows "names_ok s'"
proof -
  let ?T = "m_table (scopes s)"
  have "has s (snd e, NODE)"
    if "d \<in> set (m_table (scopes s'))" "e \<in> set (sd_scope d)" for d e
  proof -
    from that(1) assms(3) consider "d \<in> set ?T"
      | "d = (?T ! i)\<lparr>sd_scope := snd (hm_emplace k p (sd_scope (?T ! i)))\<rparr>"
      by (auto simp: upd_level_def dest!: subsetD [OF set_update_subset_insert])
    then show ?thesis
    proof cases
      case 1
      then show ?thesis using assms(1) that(2) by (auto simp: names_ok_def)
    next
      case 2
      then have "e = (k, p) \<or> e \<in> set (sd_scope (?T ! i))" using that(2) emplace_entries by fastforce
      then show ?thesis using assms(1,2) i nth_mem [OF i] by (auto simp: names_ok_def)
    qed
  qed
  then show ?thesis using assms(1) by (simp add: names_ok_def has_cong [OF assms(4)] assms(5))
qed

lemma names_ok_declare:
  assumes "names_ok s" and "has s (gs_node g, NODE)"
  shows "names_ok (declare_global_symbol name g s)"
proof -
  let ?s = "declare_global_symbol name g s"
  have n: "nodes ?s = nodes s" "scopes ?s = scopes s" by (simp_all add: declare_global_symbol_def)
  have "has s (gs_node h, NODE)"
    if "(k, gs) \<in> set (g_global_symbols ?s)" "h \<in> set gs" for k gs h
    using modify_entries [of k gs name "[]" "\<lambda>syms. syms @ [g]" "g_global_symbols s"] that assms
    by (fastforce simp: declare_global_symbol_def names_ok_def)
  then show ?thesis using assms(1) by (fastforce simp: names_ok_def has_cong [OF n(1)] n(2))
qed

lemma parser_ok_add_to_scope:
  assumes ok: "parser_ok U s" and p: "has s (p, NODE)"
  shows "parser_ok U (add_to_scope symb p is_public None s) \<and>
    keeps s (add_to_scope symb p is_public None s)"
proof -
  let ?t = "scopes s"
  let ?i = "unat (m_level ?t)"
  let ?f = "\<lambda>d. d\<lparr>sd_scope := snd (hm_emplace (sy_name symb) p (sd_scope d))\<rparr>"
  let ?s1 = "s\<lparr>scopes := upd_level ?i ?f ?t\<rparr>"
  have i: "?i < length (m_table ?t)" using ok by (simp add: parser_ok_def scope_inv_def)
  have n1: "names_ok ?s1"
    by (rule names_ok_upd_level [OF _ p _ _ _ i]) (use ok in \<open>auto simp: parser_ok_def\<close>)
  have inv1: "scope_inv (scopes ?s1)" using ok by (simp add: parser_ok_def scope_inv_def)
  show ?thesis
  proof (cases "m_level ?t > m_locked_level ?t \<and> m_locked_level ?t \<noteq> UNLOCKED_LEVEL")
    case True
    then show ?thesis using ok by (simp add: add_to_scope_def)
  next
    case False
    let ?g = "\<lparr>gs_node = p, gs_availability = WhenImported, gs_file_id = unat (m_scope_file_id ?t)\<rparr>"
    have r: "add_to_scope symb p is_public None s =
        (if is_public \<and> m_level ?t = 0 then declare_global_symbol (sy_name symb) ?g ?s1 else ?s1)"
      using False by (auto simp: add_to_scope_def Let_def get_scope_def)
    have "has ?s1 (gs_node ?g, NODE)" using p has_cong [of ?s1 s] by simp
    then have n2: "names_ok (declare_global_symbol (sy_name symb) ?g ?s1)" by (rule names_ok_declare [OF n1])
    have 1: "parser_ok U ?s1 \<and> keeps s ?s1"
      by (rule parser_ok_scopes [OF ok _ _ _ _ n1 inv1]) simp_all
    have 2: "parser_ok U (declare_global_symbol (sy_name symb) ?g ?s1) \<and>
        keeps s (declare_global_symbol (sy_name symb) ?g ?s1)"
      by (rule parser_ok_scopes [OF ok _ _ _ _ n2])
        (use inv1 in \<open>simp_all add: declare_global_symbol_def\<close>)
    show ?thesis
    proof (cases "is_public \<and> m_level ?t = 0")
      case True
      show ?thesis unfolding r if_P [OF True] by (rule 2)
    next
      case False
      show ?thesis unfolding r if_not_P [OF False] by (rule 1)
    qed
  qed
qed

lemma tree_add_name:
  assumes "ent G p NODE" and "ents G (Q ())"
  shows "tree U G (add_name symb p is_public) U Q"
proof (rule treeI)
  fix s assume s: "parser_ok U s" "holds s G"
  show "add_name symb p is_public s \<noteq> Inl (Undefined ''null pointer'')" by (simp add: add_name_def)
  fix x s' assume "add_name symb p is_public s = Inr (x, s')"
  then have "s' = add_to_scope symb p is_public None s" by (simp add: add_name_def)
  moreover have "holds s (Q x)" using ents_holds [OF s(2) assms(2)] by simp
  ultimately show "parser_ok U s' \<and> keeps s s' \<and> holds s' (Q x)"
    using parser_ok_add_to_scope [OF s(1) ent_has [OF s(2) assms(1)]] holds_keeps by blast
qed

lemma parser_ok_get_or_add:
  assumes ok: "parser_ok U s"
    and r: "get_or_add_symbol (NFnCollection empty_token []) symb is_public None s = (p, s')"
  shows "parser_ok U s' \<and> keeps s s' \<and> has s' (p, NODE)"
proof -
  let ?d = "m_table (scopes s) ! unat (m_level (scopes s))"
  show ?thesis
  proof (cases "hm_find (sd_scope ?d) (sy_name symb)")
    case (Some q)
    have d: "?d \<in> set (m_table (scopes s))" using ok by (simp add: parser_ok_def scope_inv_def)
    have "(sy_name symb, q) \<in> set (sd_scope ?d)"
      using Some by (auto simp: hm_find_def dest: map_of_SomeD)
    then have "has s (snd (sy_name symb, q), NODE)"
      using ok d unfolding parser_ok_def names_ok_def by blast
    then have "has s (q, NODE)" by simp
    then show ?thesis using ok r Some by (auto simp: get_or_add_symbol_def get_scope_def Let_def)
  next
    case None
    obtain s1 where a: "alloc (NFnCollection empty_token []) s = (p, s1)"
      and s': "s' = add_to_scope symb p is_public None s1"
      using r None by (auto simp: get_or_add_symbol_def get_scope_def Let_def split: prod.splits)
    have 1: "parser_ok U s1" "keeps s s1" "has s1 (p, {KCollection})"
      using parser_ok_alloc [OF ok _ a, of False] by auto
    have 2: "has s1 (p, NODE)" by (rule has_mono [OF 1(3)]) simp
    from parser_ok_add_to_scope [OF 1(1) 2, of symb is_public] 1(2) 2 s' show ?thesis
      using keeps_trans by (auto simp: keeps_def)
  qed
qed

lemma tree_add_overload:
  assumes fn: "ent G fn {KFn}" and Q: "\<And>c. ents (insert (c, {KCollection}) G) (Q c)"
  shows "tree U G (add_overload symb is_public fn) U Q"
proof (rule treeI)
  fix s assume s: "parser_ok U s" "holds s G"
  show "add_overload symb is_public fn s \<noteq> Inl (Undefined ''null pointer'')"
    by (auto simp: add_overload_def split: prod.splits option.splits)
  fix c s' assume r: "add_overload symb is_public fn s = Inr (c, s')"
  then obtain s1 fns where 1: "get_or_add_symbol (NFnCollection empty_token []) symb is_public None s = (c, s1)"
    "as_fn_collection s1 c = Some fns" "s' = poke_node c (add_function fn) s1"
    by (auto simp: add_overload_def split: prod.splits option.splits)
  note 2 = parser_ok_get_or_add [OF s(1) 1(1)]
  have fn1: "has s1 (fn, {KFn})" using ent_has [OF s(2) fn] 2 by (auto simp: keeps_def)
  obtain k where n: "peek_node s1 c = Some (NFnCollection k fns)"
    using 1(2) by (auto simp: as_fn_collection_def split: option.splits node.splits)
  have 3: "parser_ok U s' \<and> keeps s1 s'"
    unfolding 1(3)
  proof (rule parser_ok_poke)
    show "parser_ok U s1" using 2 by simp
    fix n' assume p': "peek_node s1 c = Some n'"
    then have n': "n' = NFnCollection k fns" using n by simp
    then show "node_kind (add_function fn n') = node_kind n'" by (simp add: add_function_def)
    show "has_signature n' \<Longrightarrow> has_signature (add_function fn n')" using n' by (simp add: has_signature_def)
    fix e assume "e \<in> set (needs (add_function fn n'))"
    then have "e \<in> set (needs n') \<or> e = (fn, {KFn})" using n' by (auto simp: add_function_def)
    then show "has s1 (weak e) \<and> (c \<notin> U \<longrightarrow> has s1 e)"
      using complete_node [of U s1 c n' e] 2 p' fn1 by auto
  qed auto
  have "has s1 (c, {KCollection})"
    using n by (auto simp: has_def is_kind_def peek_node_def split: ptr.splits if_splits)
  then have "has s' (c, {KCollection})" using 3 by (simp add: keeps_def)
  moreover have "holds s' G" using 2 3 s(2) holds_keeps keeps_trans by blast
  ultimately have "holds s' (insert (c, {KCollection}) G)" by simp
  then have "holds s' (Q c)" by (rule ents_holds) (rule Q)
  then show "parser_ok U s' \<and> keeps s s' \<and> holds s' (Q c)" using 2 3 keeps_trans by blast
qed

subsection \<open>The stacks\<close>

lemma tree_without_initializers:
  assumes "tree U G m U' Q"
  shows "tree U G (without_initializers m) U' Q"
proof (rule treeI)
  fix s assume s: "parser_ok U s" "holds s G"
  let ?s = "s\<lparr>m_can_initialize_stack := m_can_initialize_stack s @ [False]\<rparr>"
  have h: "has ?s = has s" by (rule has_cong) simp
  have 1: "parser_ok U ?s" "holds ?s G" using s by (simp_all add: parser_ok_def complete_def names_ok_def holds_def h)
  show "without_initializers m s \<noteq> Inl (Undefined ''null pointer'')"
    using treeD(1) [OF assms 1] by (auto simp: without_initializers_def bnd_eq_Inl_iff)
  fix x s' assume "without_initializers m s = Inr (x, s')"
  then obtain s1 where r: "m ?s = Inr (x, s1)"
    and s': "s' = s1\<lparr>m_can_initialize_stack := butlast (m_can_initialize_stack s1)\<rparr>"
    by (auto simp: without_initializers_def)
  have h': "has s' = has s1" unfolding s' by (rule has_cong) simp
  from treeD(2) [OF assms 1 r] show "parser_ok U' s' \<and> keeps s s' \<and> holds s' (Q x)"
    by (simp add: parser_ok_def complete_def names_ok_def keeps_def holds_def h h') (simp add: s')
qed

lemma tree_in_function:
  assumes "tree U G m U' Q" and fn: "ent G fn {KSig}"
  shows "tree U G (in_function fn m) U' Q"
proof (rule treeI)
  fix s assume s: "parser_ok U s" "holds s G"
  let ?s = "s\<lparr>m_function_stack := m_function_stack s @ [fn]\<rparr>"
  have h: "has ?s = has s" by (rule has_cong) simp
  have 1: "parser_ok U ?s" "holds ?s G"
    using s ent_has [OF s(2) fn] by (auto simp: parser_ok_def complete_def names_ok_def holds_def h)
  show "in_function fn m s \<noteq> Inl (Undefined ''null pointer'')"
    using treeD(1) [OF assms(1) 1] by (auto simp: in_function_def bnd_eq_Inl_iff)
  fix x s' assume "in_function fn m s = Inr (x, s')"
  then obtain s1 where r: "m ?s = Inr (x, s1)"
    and s': "s' = s1\<lparr>m_function_stack := butlast (m_function_stack s1)\<rparr>"
    by (auto simp: in_function_def)
  have h': "has s' = has s1" unfolding s' by (rule has_cong) simp
  from treeD(2) [OF assms(1) 1 r] show "parser_ok U' s' \<and> keeps s s' \<and> holds s' (Q x)"
    by (simp add: parser_ok_def complete_def names_ok_def keeps_def holds_def h h') (simp add: s')
qed

subsection \<open>Plain steps and loops\<close>

lemma lexicalI:
  assumes "\<And>s. m s \<noteq> Inl (Undefined ''null pointer'')"
    and "\<And>s x s'. m s = Inr (x, s') \<Longrightarrow>
      nodes s' = nodes s \<and> scopes s' = scopes s \<and> g_global_symbols s' = g_global_symbols s \<and>
      m_function_stack s' = m_function_stack s \<and> m_nodes s' = m_nodes s \<and>
      m_can_initialize_stack s' = m_can_initialize_stack s"
  shows "lexical m"
  using assms unfolding lexical_def by (auto split: sum.splits)

lemma lexicalD:
  assumes "lexical m"
  shows "m s \<noteq> Inl (Undefined ''null pointer'')"
    and "m s = Inr (x, s') \<Longrightarrow>
      nodes s' = nodes s \<and> scopes s' = scopes s \<and> g_global_symbols s' = g_global_symbols s \<and>
      m_function_stack s' = m_function_stack s \<and> m_nodes s' = m_nodes s \<and>
      m_can_initialize_stack s' = m_can_initialize_stack s"
  using assms unfolding lexical_def by (auto split: sum.splits)

lemma lexical_lx: "(\<And>l. m l \<noteq> Inl (Undefined ''null pointer'')) \<Longrightarrow> lexical (lx m)"
  by (rule lexicalI) (auto simp: lx_def split: sum.splits)

lemma lexical_lexer:
  "lexical (match t)" "lexical (expect t)" "lexical (peek_is t)" "lexical peek" "lexical peek_last"
  "lexical (peek_last_is t)" "lexical advance" "lexical (lx (lex_match_both t u))" "lexical (lx (lex_match_next t))"
  unfolding match_def expect_def peek_is_def peek_def peek_last_def peek_last_is_def advance_def
  by (rule lexical_lx, simp add: lexer_errors lex_match_errors lex_expect_errors lex_peek_is_errors
      lex_match_both_errors lex_match_next_errors lex_peek_last_def lex_peek_last_is_def bnd_eq_Inl_iff)+

lemma lexical_ret: "lexical (ret x)" by (simp add: lexical_def)
lemma lexical_fail: "e \<noteq> Undefined ''null pointer'' \<Longrightarrow> lexical (fail e)" by (simp add: lexical_def)
lemma lexical_gets: "lexical (gets f)" by (simp add: lexical_def)

lemma lexical_throw: "lexical (throw_frontend t msg)" "lexical (throw_formatted t f args)"
  by (auto simp: lexical_def throw_formatted_def split: option.splits)

lemma lexical_bnd: "lexical m \<Longrightarrow> (\<And>x. lexical (f x)) \<Longrightarrow> lexical (bnd m f)"
proof (rule lexicalI)
  fix s assume m: "lexical m" and f: "\<And>x. lexical (f x)"
  show "bnd m f s \<noteq> Inl (Undefined ''null pointer'')"
    using lexicalD(1) [OF m] lexicalD(1) [OF f] by (auto simp: bnd_eq_Inl_iff)
  fix y s' assume "bnd m f s = Inr (y, s')"
  then obtain x s1 where "m s = Inr (x, s1)" "f x s1 = Inr (y, s')" by auto
  from lexicalD(2) [OF m this(1)] lexicalD(2) [OF f this(2)]
  show "nodes s' = nodes s \<and> scopes s' = scopes s \<and> g_global_symbols s' = g_global_symbols s \<and>
      m_function_stack s' = m_function_stack s \<and> m_nodes s' = m_nodes s \<and>
      m_can_initialize_stack s' = m_can_initialize_stack s" by simp
qed

lemma lexical_if: "lexical a \<Longrightarrow> lexical b \<Longrightarrow> lexical (if c then a else b)"
  by simp

lemma lexical_while:
  assumes "lexical cond" and "\<And>x. lexical (body x)"
  shows "lexical (while_loop fuel cond body x)"
proof (induction fuel arbitrary: x)
  case 0
  show ?case unfolding while_loop.simps by (rule lexical_fail) simp
next
  case (Suc n)
  show ?case
    unfolding while_loop.simps case_prod_beta
    by (intro lexical_bnd lexical_if lexical_ret assms Suc)
qed

lemma lexical_match_any: "lexical (match_any_of ts)"
proof (induction ts)
  case Nil
  show ?case unfolding match_any_of.simps by (rule lexical_ret)
next
  case (Cons t ts)
  show ?case unfolding match_any_of.simps by (intro lexical_bnd lexical_if lexical_lexer lexical_ret Cons)
qed

lemma lexical_not_peek: "lexical (not_peek t)"
  unfolding not_peek_def by (intro lexical_bnd lexical_lexer lexical_ret)

lemma lexical_attribute_token: "lexical attribute_token"
  unfolding attribute_token_def by (intro lexical_bnd lexical_lexer lexical_if lexical_ret lexical_throw)

lemma lexical_attributes: "lexical (parse_attributes r)" "lexical (collect_attributes r)"
proof -
  show "lexical (parse_attributes r)"
    unfolding parse_attributes_def
    by (intro lexical_bnd lexical_lexer lexical_if lexical_ret lexical_attribute_token lexical_while lexical_throw)
      (auto simp: lexical_def)
  then show "lexical (collect_attributes r)"
    unfolding collect_attributes_def by (intro lexical_bnd lexical_lexer lexical_if lexical_ret)
qed

lemma lexical_get_symbol: "lexical get_symbol"
  unfolding get_symbol_def
  by (intro lexical_bnd lexical_lexer) (auto simp: lexical_def split: prod.splits)

lemma lexical_queries: "lexical (symbol_has symb t)" "lexical can_initialize"
  by (simp_all add: symbol_has_def can_initialize_def lexical_gets)

lemma lexical_mark_mut: "lexical (mark_mut p m)"
  by (auto simp: lexical_def mark_mut_def set_mut_def)

lemma lexical_clear: "lexical (modify (\<lambda>s. s\<lparr>m_pending_attributes := as\<rparr>))"
  by (simp add: lexical_def)

lemma lexical_paths: "lexical (import_path r)" "lexical (selective_imports r)" "lexical (array_members r)"
  unfolding import_path_def selective_imports_def array_members_def
  by (intro lexical_bnd lexical_lexer lexical_if lexical_ret lexical_while)+

lemma lexical_enum_field: "lexical (enum_field st)"
  unfolding enum_field_def Let_def
  by (auto intro!: lexical_bnd lexical_lexer lexical_get_symbol lexical_ret lexical_fail lexical_throw
      split: option.splits prod.splits)

lemma lexical_parse_fields: "(\<And>x. lexical (field x)) \<Longrightarrow> lexical (parse_fields r field x0)"
  unfolding parse_fields_def by (intro lexical_bnd lexical_lexer lexical_not_peek lexical_ret lexical_while)

lemmas lexical_steps = lexical_lexer lexical_match_any lexical_not_peek lexical_attributes lexical_get_symbol
  lexical_queries lexical_mark_mut lexical_clear lexical_paths

lemma tree_while:
  assumes cond: "lexical cond"
    and body: "\<And>x. tree U (G \<union> J x) (body x) U (\<lambda>p. J (fst p))"
    and init: "ents G (J x0)"
  shows "tree U G (while_loop fuel cond body x0) U J"
proof -
  have "tree U (G \<union> J x) (while_loop fuel cond body x) U J" for x
  proof (induction fuel arbitrary: x)
    case 0
    show ?case unfolding while_loop.simps by (rule tree_fail) simp
  next
    case (Suc n)
    have again: "tree U (G \<union> J x \<union> J (fst p))
        (case p of (x', continue) \<Rightarrow> if continue then while_loop n cond body x' else ret x') U J" for p
    proof (cases p)
      case (Pair x' continue)
      have "tree U (G \<union> J x \<union> J x') (while_loop n cond body x') U J"
        by (rule tree_stronger [OF Suc.IH [of x']]) auto
      then show ?thesis using Pair by (auto intro!: tree_ret simp: ents_mono)
    qed
    show ?case
      unfolding while_loop.simps
      by (intro tree_lexical [OF cond] tree_if tree_bnd [OF body] again tree_ret) (simp add: ents_mono)
  qed
  from tree_entail [OF this [of x0]] init show ?thesis by simp
qed

lemma peek_then_match:
  assumes "not_peek t s = Inr (False, s1)" and "match t s1 = Inr (b, s2)"
  shows b
proof -
  obtain l1 where l1: "lex_peek_is t (m_lexer s) = Inr (True, l1)" "s1 = s\<lparr>m_lexer := l1\<rparr>"
    using assms(1) by (auto simp: not_peek_def peek_is_def lx_def split: sum.splits)
  then obtain k where "m_current_token l1 = Some k" "tk_type k = t"
    using lex_peek_left [of "m_lexer s"] by (auto simp: lex_peek_is_def)
  then have "lex_peek_is t l1 = Inr (True, l1)" by (simp add: lex_peek_is_def lex_peek_def bnd_def)
  then show b
    using assms(2) l1(2) by (auto simp: match_def lx_def lex_match_def bnd_def split: sum.splits)
qed

text \<open>An expression may be left out where a token follows that ends it.\<close>

lemma tree_peek_match:
  assumes m: "tree U G m U (\<lambda>i. {(i, K)})"
    and yes: "\<And>i. tree U (insert (i, opt K) G) (f i True) U' Q"
    and no: "\<And>i. tree U (insert (i, K) G) (f i False) U' Q"
  shows "tree U G (bnd (not_peek t) (\<lambda>b. bnd (if b then m else ret Null) (\<lambda>i. bnd (match t) (f i)))) U' Q"
proof -
  let ?run = "\<lambda>b. bnd (if b then m else ret Null) (\<lambda>i. bnd (match t) (f i))"
  have both: "tree U (insert (i, K) G) (f i c) U' Q" for i c
  proof (cases c)
    case True
    have "tree U (insert (i, K) G \<union> {(i, opt K)}) (f i True) U' Q"
      by (rule tree_stronger [OF yes]) auto
    then have "tree U (insert (i, K) G) (f i True) U' Q"
      by (rule tree_entail) (auto simp: ents_def ent_def look_def)
    then show ?thesis using True by simp
  next
    case False
    then show ?thesis using no by simp
  qed
  have t: "tree U G (bnd m (\<lambda>i. bnd (match t) (f i))) U' Q"
    by (rule tree_bnd [OF m], rule tree_lexical [OF lexical_lexer(1)]) (use both in simp)
  show ?thesis
  proof (rule treeI)
    fix s assume s: "parser_ok U s" "holds s G"
    have p: "tree U G (not_peek t) U (\<lambda>_. {})" by (rule lexical_tree [OF lexical_not_peek]) simp
    note err = treeD(1) [OF p s]
    have step: "bnd (not_peek t) ?run s = ?run b s1 \<and> keeps s s1 \<and>
        ?run b s1 \<noteq> Inl (Undefined ''null pointer'') \<and>
        (\<forall>x s'. ?run b s1 = Inr (x, s') \<longrightarrow> parser_ok U' s' \<and> keeps s1 s' \<and> holds s' (Q x))"
      if r: "not_peek t s = Inr (b, s1)" for b s1
    proof -
      have 1: "parser_ok U s1" "keeps s s1" "holds s1 G" using treeD(2) [OF p s r] holds_keeps s by auto
      have "?run b s1 \<noteq> Inl (Undefined ''null pointer'') \<and>
          (\<forall>x s'. ?run b s1 = Inr (x, s') \<longrightarrow> parser_ok U' s' \<and> keeps s1 s' \<and> holds s' (Q x))"
      proof (cases b)
        case True
        then show ?thesis using treeD [OF t 1(1,3)] by auto
      next
        case False
        have run: "?run b s1 = bnd (match t) (f Null) s1" using False by (simp add: bnd_def)
        show ?thesis
        proof (cases "match t s1")
          case (Inl e)
          then show ?thesis
            unfolding run using lexicalD(1) [OF lexical_lexer(1), of t s1] by (simp add: bnd_def)
        next
          case (Inr q)
          obtain c s2 where q: "match t s1 = Inr (c, s2)" using Inr by (cases q) auto
          have c using peek_then_match [of t s s1] r False q by simp
          have pm: "tree U G (match t) U (\<lambda>_. {})" by (rule lexical_tree [OF lexical_lexer(1)]) simp
          have 2: "parser_ok U s2" "keeps s1 s2" "holds s2 G"
            using treeD(2) [OF pm 1(1,3) q] holds_keeps 1 by auto
          have h: "holds s2 (insert (Null, opt K) G)" using 2 by (simp add: has_def is_kind_def)
          show ?thesis
            unfolding run using treeD [OF yes 2(1) h] q \<open>c\<close> 2(2) keeps_trans by (auto simp: bnd_def)
        qed
      qed
      then show ?thesis using 1 r by (simp add: bnd_def)
    qed
    show "bnd (not_peek t) ?run s \<noteq> Inl (Undefined ''null pointer'')"
      using step err by (cases "not_peek t s") (auto simp: bnd_def)
    fix x s' assume x: "bnd (not_peek t) ?run s = Inr (x, s')"
    then obtain b s1 where r: "not_peek t s = Inr (b, s1)" by (auto simp: bnd_def split: sum.splits)
    note p = step [OF r]
    have "?run b s1 = Inr (x, s')" using p x by simp
    then have "parser_ok U' s' \<and> keeps s1 s' \<and> holds s' (Q x)" using p by metis
    moreover have "keeps s s1" using p by metis
    ultimately show "parser_ok U' s' \<and> keeps s s' \<and> holds s' (Q x)" using keeps_trans by metis
  qed
qed

subsection \<open>Every method\<close>

declare run_ret [simp del]

definition rec_tree :: "recs \<Rightarrow> bool" where
  "rec_tree r \<longleftrightarrow> (\<forall>U G.
     tree U G (r_expression r) U (\<lambda>p. {(p, EXPR)}) \<and>
     tree U G (r_unary r) U (\<lambda>p. {(p, EXPR)}) \<and>
     tree U G (r_primary r) U (\<lambda>p. {(p, EXPR)}) \<and>
     (\<forall>m n b. tree U G (r_type r m n b) U (\<lambda>p. {(fst p, opt TYP)})) \<and>
     tree U G (r_declaration r) U (\<lambda>p. {(p, NODE)}) \<and>
     tree U G (r_if r) U (\<lambda>p. {(p, {KIf})}))"

lemma rec_treeD:
  assumes "rec_tree r"
  shows "tree U G (r_expression r) U (\<lambda>p. {(p, EXPR)})" "tree U G (r_unary r) U (\<lambda>p. {(p, EXPR)})"
    "tree U G (r_primary r) U (\<lambda>p. {(p, EXPR)})" "tree U G (r_type r m n b) U (\<lambda>p. {(fst p, opt TYP)})"
    "tree U G (r_declaration r) U (\<lambda>p. {(p, NODE)})" "tree U G (r_if r) U (\<lambda>p. {(p, {KIf})})"
  using assms by (auto simp: rec_tree_def)

lemmas tree_recs = tree_bnd [OF rec_treeD(1)] tree_bnd [OF rec_treeD(2)] tree_bnd [OF rec_treeD(3)]
  tree_bnd [OF rec_treeD(4)] tree_bnd [OF rec_treeD(5)] tree_bnd [OF rec_treeD(6)]

lemmas tree_recs_end = tree_weaken [OF rec_treeD(1)] tree_weaken [OF rec_treeD(2)]
  tree_weaken [OF rec_treeD(3)] tree_weaken [OF rec_treeD(4)] tree_weaken [OF rec_treeD(5)]
  tree_weaken [OF rec_treeD(6)]

lemma tree_step:
  fixes m :: "unit parse"
  shows "tree U G m U1 (\<lambda>_. {}) \<Longrightarrow> tree U1 G (f ()) U' R \<Longrightarrow> tree U G (bnd m f) U' R"
  by (rule tree_bnd [where Q = "\<lambda>_. {}"]) auto

lemma tree_finish_bnd:
  "ent G p EXPR \<Longrightarrow> \<forall>e \<in> set (expr_needs b). ent G (fst e) (snd e) \<Longrightarrow> U \<subseteq> insert p U1 \<Longrightarrow>
     tree U1 G (f p) U' Q \<Longrightarrow> tree U G (bnd (finish_expr p b) f) U' Q"
  "ent G p {stmt_kind st} \<Longrightarrow> \<forall>e \<in> set (stmt_needs st). ent G (fst e) (snd e) \<Longrightarrow> U \<subseteq> insert p U1 \<Longrightarrow>
     tree U1 G (f p) U' Q \<Longrightarrow> tree U G (bnd (finish_stmt p st) f) U' Q"
  "ent G p {type_kind t} \<Longrightarrow> \<forall>e \<in> set (type_needs t). ent G (fst e) (snd e) \<Longrightarrow> U \<subseteq> insert p U1 \<Longrightarrow>
     tree U1 G (f p) U' Q \<Longrightarrow> tree U G (bnd (finish_type p t) f) U' Q"
proof -
  show "ent G p EXPR \<Longrightarrow> \<forall>e \<in> set (expr_needs b). ent G (fst e) (snd e) \<Longrightarrow> U \<subseteq> insert p U1 \<Longrightarrow>
     tree U1 G (f p) U' Q \<Longrightarrow> tree U G (bnd (finish_expr p b) f) U' Q"
    unfolding finish_expr_def bnd_assoc
    by (rule tree_step [OF tree_set_expr [where U' = U1]]) (auto simp: bnd_def ret_def)
  show "ent G p {stmt_kind st} \<Longrightarrow> \<forall>e \<in> set (stmt_needs st). ent G (fst e) (snd e) \<Longrightarrow> U \<subseteq> insert p U1 \<Longrightarrow>
     tree U1 G (f p) U' Q \<Longrightarrow> tree U G (bnd (finish_stmt p st) f) U' Q"
    unfolding finish_stmt_def bnd_assoc
    by (rule tree_step [OF tree_set_stmt [where U' = U1]]) (auto simp: bnd_def ret_def)
  show "ent G p {type_kind t} \<Longrightarrow> \<forall>e \<in> set (type_needs t). ent G (fst e) (snd e) \<Longrightarrow> U \<subseteq> insert p U1 \<Longrightarrow>
     tree U1 G (f p) U' Q \<Longrightarrow> tree U G (bnd (finish_type p t) f) U' Q"
    unfolding finish_type_def bnd_assoc
    by (rule tree_step [OF tree_set_type [where U' = U1]]) (auto simp: bnd_def ret_def)
qed

lemma tree_mark_mut:
  assumes "\<And>m'. meta_ptr m' = meta_ptr m \<Longrightarrow> tree U G (f m') U' Q"
  shows "tree U G (bnd (mark_mut n m) f) U' Q"
proof -
  have r: "bnd (mark_mut n m) f = (case set_mut n m of Inl e \<Rightarrow> fail e | Inr m' \<Rightarrow> f m')"
    by (auto simp: mark_mut_def fun_eq_iff bnd_def fail_def ret_def split: sum.splits)
  show ?thesis
    unfolding r using assms by (auto simp: set_mut_def intro!: tree_fail)
qed

lemma tree_node_token:
  assumes p: "ent G p EXPR" and f: "\<And>t. tree U G (f (Some t)) U' Q"
  shows "tree U G (bnd (gets (\<lambda>s. map_option node_token (peek_node s p))) f) U' Q"
proof -
  have run: "\<exists>t. bnd (gets (\<lambda>s. map_option node_token (peek_node s p))) f s = f (Some t) s"
    if s: "holds s G" for s :: parser
  proof -
    have "\<exists>n. peek_node s p = Some n"
      using ent_has [OF s p] by (auto simp: has_def is_kind_def peek_node_def split: ptr.splits)
    then show ?thesis by (auto simp: bnd_def)
  qed
  show ?thesis
    unfolding tree_def
  proof (intro allI impI)
    fix s assume s: "parser_ok U s \<and> holds s G"
    then obtain t where "bnd (gets (\<lambda>s. map_option node_token (peek_node s p))) f s = f (Some t) s"
      using run by blast
    then show "case bnd (gets (\<lambda>s. map_option node_token (peek_node s p))) f s of
        Inl e \<Rightarrow> e \<noteq> Undefined ''null pointer''
      | Inr (x, s') \<Rightarrow> parser_ok U' s' \<and> keeps s s' \<and> holds s' (Q x)"
      using f s by (simp add: tree_def)
  qed
qed

lemma tree_current_fn:
  assumes "\<And>fn. tree U (insert (fn, {KNull, KSig}) G) (f fn) U' Q"
  shows "tree U G (bnd get_current_fn f) U' Q"
proof -
  have "tree U G get_current_fn U (\<lambda>fn. {(fn, {KNull, KSig})})"
  proof (rule treeI)
    fix s assume s: "parser_ok U s" "holds s G"
    show "get_current_fn s \<noteq> Inl (Undefined ''null pointer'')" by (simp add: get_current_fn_def)
    fix fn s' assume "get_current_fn s = Inr (fn, s')"
    then have e: "s' = s" "fn = (if m_function_stack s = [] then Null else last (m_function_stack s))"
      by (auto simp: get_current_fn_def)
    have "has s (fn, {KNull, KSig})"
    proof (cases "m_function_stack s = []")
      case True
      then show ?thesis using e by (simp add: has_def is_kind_def)
    next
      case False
      then have "has s (fn, {KSig})" using s(1) e by (simp add: parser_ok_def)
      then show ?thesis by (rule has_mono) simp
    qed
    then show "parser_ok U s' \<and> keeps s s' \<and> holds s' {(fn, {KNull, KSig})}"
      using s e by (simp add: holds_def)
  qed
  then show ?thesis by (rule tree_bnd) (use assms in simp)
qed

lemma tree_as_fn:
  assumes p: "ent G p {KSig}"
    and f: "\<And>t. meta_ptr (fs_return_type (fn_sig t)) \<noteq> Null \<Longrightarrow> tree U G (f (Some t)) U' Q"
  shows "tree U G (bnd (gets (\<lambda>s. as_fn s p)) f) U' Q"
  unfolding tree_def
proof (intro allI impI)
  fix s assume s: "parser_ok U s \<and> holds s G"
  then have "has s (p, {KSig})" using ent_has p by blast
  then obtain t where "as_fn s p = Some t" "meta_ptr (fs_return_type (fn_sig t)) \<noteq> Null"
    by (auto simp: has_def is_kind_def has_signature_def as_fn_def as_type_def peek_node_def
        split: ptr.splits node.splits type_body.splits)
  then show "case bnd (gets (\<lambda>s. as_fn s p)) f s of
      Inl e \<Rightarrow> e \<noteq> Undefined ''null pointer''
    | Inr (x, s') \<Rightarrow> parser_ok U' s' \<and> keeps s s' \<and> holds s' (Q x)"
    using f [of t] s by (simp add: tree_def bnd_def)
qed

text \<open>The assignments to the members of a function.\<close>

lemma tree_fn_flags: "tree U G (change_fn p (\<lambda>f. f\<lparr>fn_flags := h f\<rparr>)) U (\<lambda>_. {})"
  by (rule tree_change_fn) (auto simp: fn_needs_def)

lemma tree_fn_body:
  "ent G b (opt BLOCK) \<Longrightarrow> ents G (Q ()) \<Longrightarrow> tree U G (change_fn p (\<lambda>f. f\<lparr>fn_body := b\<rparr>)) U Q"
  by (rule tree_change_fn) (auto simp: fn_needs_def)

lemma tree_fn_collection:
  "ent G c (opt {KCollection}) \<Longrightarrow> tree U G (change_fn p (\<lambda>f. f\<lparr>fn_collection := c\<rparr>)) U (\<lambda>_. {})"
  by (rule tree_change_fn) (auto simp: fn_needs_def)

lemma tree_fn_signature:
  "ent G p {KFn} \<Longrightarrow> ent G (meta_ptr (fs_return_type sig)) TYP \<Longrightarrow>
     \<forall>v \<in> set (fs_parameters sig). ent G v {KVar} \<Longrightarrow> tree U (insert (p, {KSig}) G) (f ()) U' Q \<Longrightarrow>
     tree (insert p U) G (bnd (change_fn p (\<lambda>f. f\<lparr>fn_symbol := symb, fn_sig := sig, fn_flags := fl\<rparr>)) f) U' Q"
  using tree_sign_fn_bnd [of G p "\<lambda>f. f\<lparr>fn_symbol := symb, fn_sig := sig, fn_flags := fl\<rparr>" sig U "f ()" U' Q]
  by simp

lemmas tree_finish_open =
  tree_finish_bnd(1) [where U = "insert p U1" and ?U1.0 = U1 for p U1]
  tree_finish_bnd(3) [where t = "FnType f" and U = "insert p U1" and ?U1.0 = U1 for f p U1]
  tree_finish_bnd(3) [where t = "AliasType f" and U = "insert p U1" and ?U1.0 = U1 for f p U1]

lemmas tree_finish_closed =
  tree_finish_bnd(2) [where st = "VarDeclStmt v" and U = U1 and ?U1.0 = U1 for v U1]
  tree_finish_bnd(3) [where t = "UnresolvedSymbolType f" and U = U1 and ?U1.0 = U1 for f U1]
  tree_finish_bnd(3) [where t = "PointerType f g" and U = U1 and ?U1.0 = U1 for f g U1]
  tree_finish_bnd(3) [where t = "SliceType f g" and U = U1 and ?U1.0 = U1 for f g U1]
  tree_finish_bnd(3) [where t = "ArrayType f" and U = U1 and ?U1.0 = U1 for f U1]
  tree_finish_bnd(3) [where t = "StructType f" and U = U1 and ?U1.0 = U1 for f U1]
  tree_finish_bnd(3) [where t = "EnumType f" and U = U1 and ?U1.0 = U1 for f U1]

lemma tree_fail_bnd: "e \<noteq> Undefined ''null pointer'' \<Longrightarrow> tree U G (bnd (fail e) f) U' Q"
  by (simp add: tree_def bnd_def fail_def)

lemmas tree_gets = lexical_gets [THEN tree_lexical]

lemmas tree_rules = tree_ret tree_fail tree_fail_bnd tree_throw tree_throw_formatted tree_if tree_if_bnd tree_new tree_new_bnd
  tree_finish_expr tree_finish_stmt tree_finish_type lexical_steps [THEN tree_lexical]
  tree_step [OF tree_set_token] tree_step [OF tree_set_expr_type]
  tree_step [OF tree_set_specifier] tree_finish_open tree_finish_closed
  tree_mark_mut tree_node_token tree_current_fn tree_as_fn tree_step [OF tree_fn_flags] tree_step [OF tree_fn_body]
  tree_fn_body tree_step [OF tree_fn_collection] tree_fn_signature tree_set_stmt tree_step [OF tree_add_name] tree_step [OF tree_set_expr]

lemmas tree_simps = ent_def new_expr_def new_stmt_def new_type_def is_open_def empty_meta_def meta_of_def
  empty_var_decl_def empty_fn_def empty_signature_def empty_alias_def empty_struct_def empty_array_def
  empty_enum_def element_needs_def fn_needs_def initializer_def case_prod_beta bnd_assoc Let_def

lemma parse_type_meta_tree:
  assumes ok: "rec_tree r"
  shows "tree U G (parse_type_meta r) U (\<lambda>m. {(meta_ptr m, TYP)})"
  unfolding parse_type_meta_def
  by (auto simp: tree_simps intro!: tree_rules tree_recs [OF ok] tree_recs_end [OF ok])

lemma parse_fn_param_tree:
  assumes ok: "rec_tree r"
  shows "tree U G (parse_fn_param r b) U (\<lambda>p. {(p, {KVar})})"
  unfolding parse_fn_param_def
  by (auto simp: tree_simps intro!: tree_rules tree_recs [OF ok] tree_recs_end [OF ok]
        tree_bnd [OF parse_type_meta_tree [OF ok]])

lemma parse_params_tree:
  assumes ok: "rec_tree r" and args: "ents G ((\<lambda>x. (x, {KVar})) ` set (fs_parameters sig))"
  shows "tree U G (parse_params r b sig) U (\<lambda>sig. (\<lambda>x. (x, {KVar})) ` set (fs_parameters sig))"
  unfolding parse_params_def
  by (rule tree_entail [OF _ args])
    (auto simp: tree_simps intro!: tree_rules tree_recs [OF ok] tree_recs_end [OF ok]
        tree_bnd [OF tree_while [where J = "\<lambda>st. (\<lambda>x. (x, {KVar})) ` set (fs_parameters (fst st))"]]
        lexical_not_peek
        tree_gets
        tree_bnd [OF parse_fn_param_tree [OF ok]])

lemma parse_fn_signature_tree:
  assumes ok: "rec_tree r" and args: "ents G ((\<lambda>x. (x, {KVar})) ` set ps)"
  shows "tree U G (parse_fn_signature r b ps) U (\<lambda>sig. insert (meta_ptr (fs_return_type sig), TYP) ((\<lambda>x. (x, {KVar})) ` set (fs_parameters sig)))"
  unfolding parse_fn_signature_def
  by (rule tree_entail [OF _ args])
    (auto simp: tree_simps intro!: tree_rules tree_recs [OF ok] tree_recs_end [OF ok]
        tree_bnd [OF parse_params_tree [OF ok]]
        tree_bnd [OF parse_type_meta_tree [OF ok]])

lemma parse_fields_tree:
  assumes "\<And>x. tree U (G \<union> J x) (field x) U J" and "ents G (J x0)"
  shows "tree U G (parse_fields r field x0) U J"
  unfolding parse_fields_def
  by (auto simp: tree_simps intro!: tree_rules tree_bnd [OF tree_while [where J = J]] lexical_not_peek
      tree_bnd [OF assms(1)] assms(2))

lemma struct_field_tree:
  assumes ok: "rec_tree r" and args: "ents G ((\<lambda>x. (meta_ptr (snd x), TYP)) ` set fs)"
  shows "tree U G (struct_field r fs) U (\<lambda>fs. (\<lambda>x. (meta_ptr (snd x), TYP)) ` set fs)"
  unfolding struct_field_def
  by (rule tree_entail [OF _ args])
    (auto simp: tree_simps intro!: tree_rules tree_recs [OF ok] tree_recs_end [OF ok]
        tree_bnd [OF parse_type_meta_tree [OF ok]])

lemma parse_struct_body_tree:
  assumes ok: "rec_tree r" and args: "ents G ({(p, {KType})})"
  shows "tree U G (parse_struct_body r p sy) U (\<lambda>p. {(p, {KType})})"
  unfolding parse_struct_body_def
  by (rule tree_entail [OF _ args])
    (auto simp: tree_simps intro!: tree_rules tree_recs [OF ok] tree_recs_end [OF ok]
        tree_bnd [OF parse_fields_tree [where J = "\<lambda>fs. (\<lambda>x. (meta_ptr (snd x), TYP)) ` set fs"]]
        tree_weaken [OF struct_field_tree [OF ok]])

lemma parse_struct_tree:
  assumes ok: "rec_tree r"
  shows "tree U G (parse_struct r b) U (\<lambda>p. {(p, {KType})})"
  unfolding parse_struct_def
  by (auto simp: tree_simps intro!: tree_rules tree_recs [OF ok] tree_recs_end [OF ok]
        tree_weaken [OF parse_struct_body_tree [OF ok]])

lemma parse_array_type_tree:
  assumes ok: "rec_tree r"
  shows "tree U G (parse_array_type r m n) U (\<lambda>p. {(fst p, TYP)})"
  unfolding parse_array_type_def
  by (auto simp: tree_simps intro!: tree_rules tree_recs [OF ok] tree_recs_end [OF ok])

lemma parse_type_tree:
  assumes ok: "rec_tree r"
  shows "tree U G (parse_type r m n b) U (\<lambda>p. {(fst p, opt TYP)})"
  unfolding parse_type_def
  by (auto simp: tree_simps intro!: tree_rules tree_recs [OF ok] tree_recs_end [OF ok]
        tree_weaken [OF parse_array_type_tree [OF ok]]
        tree_bnd [OF parse_fn_signature_tree [OF ok]]
        tree_bnd [OF parse_struct_tree [OF ok]])

lemma finish_literal_tree:
  assumes args: "ents G ({(p, EXPR)})"
  shows "tree U G (finish_literal p v t) U (\<lambda>p. {(p, EXPR)})"
  unfolding finish_literal_def
  by (rule tree_entail [OF _ args])
    (auto simp: tree_simps intro!: tree_rules )

lemma parse_literal_tree: "tree U G parse_literal U (\<lambda>p. {(p, EXPR)})"
  unfolding parse_literal_def
  by (auto simp: tree_simps split: list.splits intro!: tree_rules tree_weaken [OF finish_literal_tree])

lemma collect_expressions_tree:
  assumes ok: "rec_tree r"
  shows "tree U G (collect_expressions r t) U (\<lambda>es. (\<lambda>x. (x, EXPR)) ` set es)"
  unfolding collect_expressions_def
  by (auto simp: tree_simps intro!: tree_rules tree_recs [OF ok] tree_recs_end [OF ok]
        tree_weaken [OF tree_while [where J = "\<lambda>es. (\<lambda>x. (x, EXPR)) ` set es"]]
        lexical_not_peek)

lemma collect_call_arguments_tree:
  assumes ok: "rec_tree r"
  shows "tree U G (collect_call_arguments r) U (\<lambda>es. (\<lambda>x. (x, EXPR)) ` set es)"
  unfolding collect_call_arguments_def
  by (auto simp: tree_simps intro!: tree_rules tree_recs [OF ok] tree_recs_end [OF ok]
        tree_weaken [OF collect_expressions_tree [OF ok]])

lemma parse_brace_list_tree:
  assumes ok: "rec_tree r"
  shows "tree U G (parse_brace_list r) U (\<lambda>es. (\<lambda>x. (ie_expr x, EXPR)) ` set es)"
  unfolding parse_brace_list_def
  by (auto simp: tree_simps intro!: tree_rules tree_recs [OF ok] tree_recs_end [OF ok]
        tree_bnd [OF collect_expressions_tree [OF ok]])

lemma parse_array_literal_tree:
  assumes ok: "rec_tree r" and args: "ents G ((\<lambda>x. (ie_expr x, EXPR)) ` set es)"
  shows "tree U G (parse_array_literal r es) U (\<lambda>p. {(p, EXPR)})"
  unfolding parse_array_literal_def
  by (rule tree_entail [OF _ args])
    (auto simp: tree_simps intro!: tree_rules tree_recs [OF ok] tree_recs_end [OF ok]
        tree_bnd [OF tree_while [where J = "\<lambda>es. (\<lambda>x. (ie_expr x, EXPR)) ` set es"]]
        lexical_ret)

lemma parse_identifier_tree:
  assumes ok: "rec_tree r"
  shows "tree U G (parse_identifier r) U (\<lambda>p. {(p, EXPR)})"
  unfolding wrap_expression_def parse_identifier_def
  by (auto simp: tree_simps intro!: tree_rules tree_recs [OF ok] tree_recs_end [OF ok]
        tree_bnd [OF parse_brace_list_tree [OF ok]])

lemma parse_cast_tree:
  assumes ok: "rec_tree r"
  shows "tree U G (parse_cast r) U (\<lambda>p. {(p, EXPR)})"
  unfolding parse_cast_def
  by (auto simp: tree_simps intro!: tree_rules tree_recs [OF ok] tree_recs_end [OF ok])

lemma parse_primary_inner_tree:
  assumes ok: "rec_tree r"
  shows "tree U G (parse_primary_inner r) U (\<lambda>p. {(p, opt EXPR)})"
  unfolding wrap_expression_def parse_primary_inner_def
  by (auto simp: tree_simps intro!: tree_rules tree_recs [OF ok] tree_recs_end [OF ok]
        tree_bnd [OF parse_brace_list_tree [OF ok]]
        tree_weaken [OF parse_identifier_tree [OF ok]]
        tree_weaken [OF parse_cast_tree [OF ok]]
        tree_weaken [OF parse_array_literal_tree [OF ok]])

lemma parse_bracket_tree:
  assumes ok: "rec_tree r" and args: "ents G {(inner, EXPR), (lhs, opt EXPR)}"
  shows "tree U G (parse_bracket r inner lhs) U (\<lambda>p. {(fst p, EXPR)})"
  unfolding parse_bracket_def Let_def
  by (rule tree_entail [OF _ args], rule tree_peek_match [where K = EXPR], rule rec_treeD(1) [OF ok])
    (auto simp: tree_simps intro!: tree_rules tree_recs [OF ok] tree_bnd [OF parse_array_literal_tree [OF ok]])

lemma parse_suffix_tree:
  assumes ok: "rec_tree r" and args: "ents G ({(inner, EXPR), (lhs, opt EXPR)})"
  shows "tree U G (parse_suffix r inner lhs) U (\<lambda>p. {(p, EXPR)})"
  unfolding parse_suffix_def
  by (rule tree_entail [OF _ args])
    (auto simp: tree_simps intro!: tree_rules tree_recs [OF ok] tree_recs_end [OF ok]
        tree_bnd [OF collect_call_arguments_tree [OF ok]])

lemma parse_primary_tree:
  assumes ok: "rec_tree r"
  shows "tree U G (parse_primary r) U (\<lambda>p. {(p, EXPR)})"
  unfolding parse_primary_def
  by (auto simp: tree_simps intro!: tree_rules tree_recs [OF ok] tree_recs_end [OF ok]
        tree_bnd [OF parse_primary_inner_tree [OF ok]]
        tree_bnd [OF parse_bracket_tree [OF ok]]
        tree_bnd [OF tree_while [where J = "\<lambda>st. {(fst st, if snd st then EXPR else opt EXPR)}"]]
        lexical_lexer
        tree_weaken [OF parse_suffix_tree [OF ok]]
        tree_weaken [OF parse_literal_tree])

lemma parse_unary_tree:
  assumes ok: "rec_tree r"
  shows "tree U G (parse_unary r) U (\<lambda>p. {(p, EXPR)})"
  unfolding parse_unary_def
  by (auto simp: tree_simps split: list.splits intro!: tree_rules tree_recs [OF ok] tree_recs_end [OF ok]
        tree_weaken [OF parse_primary_tree [OF ok]])

lemma parse_binary_rule_tree:
  assumes "\<And>G. tree U G rule U (\<lambda>p. {(p, EXPR)})"
  shows "tree U G (parse_binary_rule r ops rule) U (\<lambda>p. {(p, EXPR)})"
  unfolding parse_binary_rule_def
  by (auto simp: tree_simps intro!: tree_rules tree_bnd [OF assms] lexical_match_any
      tree_weaken [OF tree_while [where J = "\<lambda>p. {(p, EXPR)}"]])

lemma parse_range_tree:
  assumes "rec_tree r"
  shows "tree U G (parse_range r) U (\<lambda>p. {(p, EXPR)})"
  unfolding parse_range_def by (rule parse_binary_rule_tree [OF parse_unary_tree [OF assms]])

lemma parse_exp_tree:
  assumes "rec_tree r"
  shows "tree U G (parse_exp r) U (\<lambda>p. {(p, EXPR)})"
  unfolding parse_exp_def by (rule parse_binary_rule_tree [OF parse_range_tree [OF assms]])

lemma parse_factor_tree:
  assumes "rec_tree r"
  shows "tree U G (parse_factor r) U (\<lambda>p. {(p, EXPR)})"
  unfolding parse_factor_def by (rule parse_binary_rule_tree [OF parse_exp_tree [OF assms]])

lemma parse_term_tree:
  assumes "rec_tree r"
  shows "tree U G (parse_term r) U (\<lambda>p. {(p, EXPR)})"
  unfolding parse_term_def by (rule parse_binary_rule_tree [OF parse_factor_tree [OF assms]])

lemma parse_comparison_tree:
  assumes "rec_tree r"
  shows "tree U G (parse_comparison r) U (\<lambda>p. {(p, EXPR)})"
  unfolding parse_comparison_def by (rule parse_binary_rule_tree [OF parse_term_tree [OF assms]])

lemma parse_equality_tree:
  assumes "rec_tree r"
  shows "tree U G (parse_equality r) U (\<lambda>p. {(p, EXPR)})"
  unfolding parse_equality_def by (rule parse_binary_rule_tree [OF parse_comparison_tree [OF assms]])

lemma parse_or_tree:
  assumes "rec_tree r"
  shows "tree U G (parse_or r) U (\<lambda>p. {(p, EXPR)})"
  unfolding parse_or_def by (rule parse_binary_rule_tree [OF parse_equality_tree [OF assms]])

lemma parse_and_tree:
  assumes "rec_tree r"
  shows "tree U G (parse_and r) U (\<lambda>p. {(p, EXPR)})"
  unfolding parse_and_def by (rule parse_binary_rule_tree [OF parse_or_tree [OF assms]])

lemma expression_tree:
  assumes "rec_tree r"
  shows "tree U G (expression r) U (\<lambda>p. {(p, EXPR)})"
  unfolding expression_def by (rule parse_and_tree [OF assms])

lemmas condition_tree = tree_without_initializers [OF expression_tree]

lemma declare_to_tree:
  assumes ok: "rec_tree r" and args: "ents G ((\<lambda>x. (x, NODE)) ` set ns)"
  shows "tree U G (declare_to r ns) U (\<lambda>ns. (\<lambda>x. (x, NODE)) ` set ns)"
  unfolding declare_to_def
  by (rule tree_entail [OF _ args])
    (auto simp: tree_simps intro!: tree_rules tree_recs [OF ok] tree_recs_end [OF ok])

lemma parse_block_tree:
  assumes ok: "rec_tree r"
  shows "tree U G (parse_block r) U (\<lambda>p. {(p, BLOCK)})"
  unfolding parse_block_def
  by (auto simp: tree_simps intro!: tree_rules tree_recs [OF ok] tree_recs_end [OF ok]
        tree_bnd [OF tree_while [where J = "\<lambda>ns. (\<lambda>x. (x, NODE)) ` set ns"]]
        lexical_not_peek
        tree_bnd [OF declare_to_tree [OF ok]])

lemma parse_import_tree:
  assumes ok: "rec_tree r"
  shows "tree U G (parse_import r) U (\<lambda>p. {(p, {KStmt})})"
  unfolding parse_import_def
  by (auto simp: tree_simps intro!: tree_rules tree_recs [OF ok] tree_recs_end [OF ok])

lemma parse_if_tree:
  assumes ok: "rec_tree r"
  shows "tree U G (parse_if r) U (\<lambda>p. {(p, {KIf})})"
  unfolding parse_if_def
  by (auto simp: tree_simps intro!: tree_rules tree_recs [OF ok] tree_recs_end [OF ok]
        tree_bnd [OF condition_tree [OF ok]]
        tree_bnd [OF parse_block_tree [OF ok]]
        tree_weaken [OF parse_block_tree [OF ok]])

lemma parse_while_tree:
  assumes ok: "rec_tree r" and args: "ents G ({(c, EXPR)})"
  shows "tree U G (parse_while r c) U (\<lambda>p. {(p, {KStmt})})"
  unfolding parse_while_def
  by (rule tree_entail [OF _ args])
    (auto simp: tree_simps intro!: tree_rules tree_recs [OF ok] tree_recs_end [OF ok]
        tree_bnd [OF parse_block_tree [OF ok]])

lemma parse_loop_tree:
  assumes ok: "rec_tree r"
  shows "tree U G (parse_loop r) U (\<lambda>p. {(p, {KStmt})})"
  unfolding parse_loop_def
  by (auto simp: tree_simps intro!: tree_rules tree_recs [OF ok] tree_recs_end [OF ok]
        tree_weaken [OF parse_while_tree [OF ok]])

lemma for_bindings_tree:
  assumes ok: "rec_tree r"
  shows "tree U G (for_bindings r) U (\<lambda>vs. (\<lambda>x. (x, {KVar})) ` set vs)"
  unfolding for_bindings_def
  by (auto simp: tree_simps intro!: tree_rules tree_recs [OF ok] tree_recs_end [OF ok]
        tree_weaken [OF tree_while [where J = "\<lambda>vs. (\<lambda>x. (x, {KVar})) ` set vs"]]
        lexical_lexer)

lemma parse_for_tree:
  assumes ok: "rec_tree r"
  shows "tree U G (parse_for r) U (\<lambda>p. {(p, {KStmt})})"
  unfolding parse_for_def
  by (auto simp: tree_simps intro!: tree_rules tree_recs [OF ok] tree_recs_end [OF ok]
        tree_bnd [OF condition_tree [OF ok]]
        tree_bnd [OF for_bindings_tree [OF ok]]
        tree_bnd [OF parse_block_tree [OF ok]])

lemma parse_var_tree:
  assumes ok: "rec_tree r"
  shows "tree U G (parse_var r) U (\<lambda>p. {(p, {KVar})})"
  unfolding parse_var_def
  by (auto simp: tree_simps intro!: tree_rules tree_recs [OF ok] tree_recs_end [OF ok]
        tree_bnd [OF parse_type_meta_tree [OF ok]]
        tree_bnd [OF expression_tree [OF ok]])

lemma parse_assignment_tree:
  assumes ok: "rec_tree r" and args: "ents G ({(c, EXPR)})"
  shows "tree U G (parse_assignment r c) U (\<lambda>p. {(p, {KStmt})})"
  unfolding parse_assignment_def
  by (rule tree_entail [OF _ args])
    (auto simp: tree_simps intro!: tree_rules tree_recs [OF ok] tree_recs_end [OF ok]
        tree_bnd [OF expression_tree [OF ok]])

lemma parse_return_tree:
  assumes ok: "rec_tree r"
  shows "tree U G (parse_return r) U (\<lambda>p. {(p, {KStmt})})"
  unfolding parse_return_def
  by (auto simp: tree_simps intro!: tree_rules tree_recs [OF ok] tree_recs_end [OF ok]
        tree_bnd [OF expression_tree [OF ok]])

lemma parse_fn_body_tree:
  assumes ok: "rec_tree r"
  shows "tree U G (parse_fn_body r fn b) U (\<lambda>_. {})"
  unfolding parse_fn_body_def
  by (auto simp: tree_simps intro!: tree_rules tree_recs [OF ok] tree_recs_end [OF ok]
        tree_bnd [OF expression_tree [OF ok]]
        tree_bnd [OF parse_block_tree [OF ok]])

lemma parse_fn_tree:
  assumes ok: "rec_tree r" and args: "ents G ((\<lambda>x. (x, {KVar})) ` set ps)"
  shows "tree U G (parse_fn r ps) U (\<lambda>p. {(p, {KFn})})"
  unfolding parse_fn_def
  by (rule tree_entail [OF _ args])
    (auto simp: tree_simps intro!: tree_rules tree_recs [OF ok] tree_recs_end [OF ok]
        tree_bnd [OF tree_in_function [OF parse_fn_body_tree [OF ok]]]
        tree_bnd [OF tree_add_overload [where Q = "\<lambda>c. {(c, {KCollection})}"]]
        tree_bnd [OF parse_fn_signature_tree [OF ok]])

lemma enum_field_tree:
  assumes "ents G {(en_impl (snd st), {KNull, KStmt})}"
  shows "tree U G (enum_field st) U (\<lambda>st. {(en_impl (snd st), {KNull, KStmt})})"
  unfolding enum_field_def
  by (rule tree_entail [OF _ assms])
    (auto simp: tree_simps split: prod.splits option.splits intro!: tree_rules)

lemma parse_enum_tree:
  assumes ok: "rec_tree r"
  shows "tree U G (parse_enum r) U (\<lambda>p. {(p, {KType})})"
  unfolding parse_enum_def
  by (auto simp: tree_simps intro!: tree_rules tree_recs [OF ok] tree_recs_end [OF ok]
        tree_bnd [OF parse_fields_tree [where J = "\<lambda>st. {(en_impl (snd st), {KNull, KStmt})}"]]
        tree_weaken [OF enum_field_tree])

lemma parse_impl_tree:
  assumes ok: "rec_tree r"
  shows "tree U G (parse_impl r) U (\<lambda>p. {(p, {KStmt})})"
  unfolding parse_impl_def
  by (auto simp: tree_simps intro!: tree_rules tree_recs [OF ok] tree_recs_end [OF ok]
        tree_gets
        tree_bnd [OF tree_while [where J = "\<lambda>fs. (\<lambda>x. (x, {KFn})) ` set fs"]]
        lexical_not_peek
        tree_bnd [OF parse_fn_tree [OF ok]])

lemma parse_alias_tree:
  assumes ok: "rec_tree r"
  shows "tree U G (parse_alias r) U (\<lambda>p. {(p, {KType})})"
  unfolding parse_alias_def
  by (auto simp: tree_simps intro!: tree_rules tree_recs [OF ok] tree_recs_end [OF ok]
        tree_bnd [OF parse_type_meta_tree [OF ok]])

lemma statement_expression_tree:
  assumes ok: "rec_tree r"
  shows "tree U G (statement_expression r) U (\<lambda>p. {(p, NODE)})"
  unfolding statement_expression_def
  by (auto simp: tree_simps intro!: tree_rules tree_recs [OF ok] tree_recs_end [OF ok]
        tree_bnd [OF parse_primary_tree [OF ok]]
        tree_weaken [OF parse_assignment_tree [OF ok]])

lemma parse_statement_tree:
  assumes ok: "rec_tree r"
  shows "tree U G (parse_statement r) U (\<lambda>p. {(p, NODE)})"
  unfolding parse_statement_def
  by (auto simp: tree_simps intro!: tree_rules tree_recs [OF ok] tree_recs_end [OF ok]
        tree_bnd [OF condition_tree [OF ok]]
        tree_bnd [OF parse_if_tree [OF ok]]
        tree_weaken [OF parse_if_tree [OF ok]]
        tree_weaken [OF parse_import_tree [OF ok]]
        tree_weaken [OF parse_while_tree [OF ok]]
        tree_weaken [OF parse_loop_tree [OF ok]]
        tree_weaken [OF parse_for_tree [OF ok]]
        tree_weaken [OF parse_block_tree [OF ok]]
        tree_weaken [OF parse_return_tree [OF ok]]
        tree_weaken [OF statement_expression_tree [OF ok]])

lemma parse_declaration_tree:
  assumes ok: "rec_tree r"
  shows "tree U G (parse_declaration r) U (\<lambda>p. {(p, NODE)})"
  unfolding parse_declaration_def
  by (auto simp: tree_simps intro!: tree_rules tree_recs [OF ok] tree_recs_end [OF ok]
        tree_weaken [OF parse_fn_tree [OF ok]]
        tree_weaken [OF parse_struct_tree [OF ok]]
        tree_weaken [OF parse_impl_tree [OF ok]]
        tree_weaken [OF parse_enum_tree [OF ok]]
        tree_weaken [OF parse_var_tree [OF ok]]
        tree_weaken [OF parse_alias_tree [OF ok]]
        tree_weaken [OF parse_statement_tree [OF ok]])

subsection \<open>The whole file\<close>

lemma knot_tree: "rec_tree (knot n)"
proof (induction n)
  case 0
  show ?case by (simp add: rec_tree_def out_of_fuel_def tree_fail)
next
  case (Suc n)
  show ?case
    unfolding rec_tree_def knot.simps tie_def
    by (simp add: expression_tree parse_unary_tree parse_primary_tree parse_type_tree
        parse_declaration_tree parse_if_tree Suc)
qed

lemma parse_tree_state:
  assumes ok: "parser_ok {} s"
  shows "parse fuel s \<noteq> Inl (Undefined ''null pointer'')"
    and "parse fuel s = Inr (ns, s') \<Longrightarrow>
      parser_ok {} s' \<and> set ns = set (m_nodes s') \<and> m_function_stack s' = m_function_stack s \<and>
      m_can_initialize_stack s' = m_can_initialize_stack s \<and>
      m_level (scopes s') = m_level (scopes s) \<and> m_locked_level (scopes s') = UNLOCKED_LEVEL"
proof -
  let ?s0 = "s\<lparr>scopes := set_lock 0 (scopes s)\<rparr>"
  let ?loop = "while_loop fuel more_declarations
      (\<lambda>ns. bnd (declare_to (knot fuel) ns) (\<lambda>ns'. ret (ns', True))) []"
  have h: "has ?s0 = has s" by (rule has_cong) simp
  have s0: "parser_ok {} ?s0"
    using ok by (simp add: parser_ok_def complete_def names_ok_def h [unfolded set_lock_def] set_lock_def
        scope_inv_def)
  have more: "lexical more_declarations"
    unfolding more_declarations_def by (intro lexical_bnd lexical_if lexical_lexer lexical_ret lexical_gets)
  have loop: "tree {} {} ?loop {} (\<lambda>ns. (\<lambda>x. (x, NODE)) ` set ns)"
    by (auto simp: tree_simps intro!: tree_while more tree_rules tree_bnd [OF declare_to_tree [OF knot_tree]])
  have run: "parse fuel s =
      (case ?loop ?s0 of
         Inl e \<Rightarrow> Inl e
       | Inr (ns, s1) \<Rightarrow>
           (let s2 = s1\<lparr>m_nodes := m_nodes s1 @ ns, scopes := set_lock UNLOCKED_LEVEL (scopes s1)\<rparr>
            in Inr (m_nodes s2, s2)))"
    by (auto simp: parse_def at_scopes_def bnd_def modify_def gets_def split: sum.splits)
  show "parse fuel s \<noteq> Inl (Undefined ''null pointer'')"
    unfolding run using treeD(1) [OF loop s0] by (auto simp: holds_def Let_def split: sum.splits)
  assume "parse fuel s = Inr (ns, s')"
  then obtain ms s1 where 1: "?loop ?s0 = Inr (ms, s1)"
    and s': "s' = s1\<lparr>m_nodes := m_nodes s1 @ ms, scopes := set_lock UNLOCKED_LEVEL (scopes s1)\<rparr>"
    and ns: "ns = m_nodes s'"
    unfolding run by (auto simp: Let_def split: sum.splits)
  have h': "has s' = has s1" by (rule has_cong) (simp add: s')
  note post = treeD(2) [OF loop s0 _ 1]
  have ms: "has s1 (x, NODE)" if "x \<in> set ms" for x using post that by (auto simp: holds_def)
  have sc: "scopes s' = set_lock UNLOCKED_LEVEL (scopes s1)" "nodes s' = nodes s1"
    "g_global_symbols s' = g_global_symbols s1" "m_function_stack s' = m_function_stack s1"
    "m_nodes s' = m_nodes s1 @ ms" "m_can_initialize_stack s' = m_can_initialize_stack s1"
    by (simp_all add: s')
  have p: "parser_ok {} s1" "keeps ?s0 s1" using post by (simp_all add: holds_def)
  have "parser_ok {} s'"
    using p(1) ms by (auto simp: parser_ok_def complete_def names_ok_def h' sc set_lock_def scope_inv_def)
  then show "parser_ok {} s' \<and> set ns = set (m_nodes s') \<and> m_function_stack s' = m_function_stack s \<and>
      m_can_initialize_stack s' = m_can_initialize_stack s \<and>
      m_level (scopes s') = m_level (scopes s) \<and> m_locked_level (scopes s') = UNLOCKED_LEVEL"
    using p(2) ns by (simp add: keeps_def sc set_lock_def)
qed

lemma new_parser_ok: "parser_ok {} (new_parser file contents beyond escapes)"
proof -
  have "scope_inv (set_file_id file new_scope_table)"
    using scope_inv_new by (simp add: scope_inv_def set_file_id_def)
  then show ?thesis
    by (auto simp: parser_ok_def complete_def names_ok_def new_parser_def)
      (auto simp: set_file_id_def new_scope_table_def empty_scope_def)
qed

lemma complete_tree_ok: "complete {} s \<Longrightarrow> tree_ok s"
  unfolding complete_def tree_ok_def by (metis empty_iff in_set_conv_nth)

subsection \<open>Properties\<close>

text \<open>C3: The parser builds a well-typed tree: when it returns, every pointer of every node it has
  allocated leads to an allocated node of the class the code declares for that member (an \<open>IfStmt\<close>
  to an expression, a block, and a block, an \<open>IfStmt\<close> or nothing), is null only where \<open>needs\<close> says
  so, the declarations it returns are nodes, and so is whatever the scopes and the table of global
  symbols hold.\<close>

theorem parse_builds_trees:
  assumes "parse fuel (new_parser file contents beyond escapes) = Inr (ns, s)"
  shows "tree_ok s \<and> (\<forall>p \<in> set ns. has s (p, NODE)) \<and> names_ok s"
  using parse_tree_state(2) [OF new_parser_ok assms] by (simp add: parser_ok_def complete_tree_ok)

text \<open>C13: What the parser pushes it pops: after a file is read the stack of functions and the stack
  that forbids struct literals in conditions are empty again, the scope table is at its outermost
  level and unlocked.\<close>

theorem parse_balances_stacks:
  assumes "parse fuel (new_parser file contents beyond escapes) = Inr (ns, s)"
  shows "m_function_stack s = [] \<and> m_can_initialize_stack s = [] \<and>
    m_level (scopes s) = 0 \<and> m_locked_level (scopes s) = UNLOCKED_LEVEL"
  using parse_tree_state(2) [OF new_parser_ok assms]
  by (simp add: new_parser_def set_file_id_def new_scope_table_def)

text \<open>C14: The parser follows no null pointer: the two places that dereference a node without asking
  (the return type of the function a \<open>return\<close> is in, and the token of the object behind an index
  or slice) always find one.\<close>

theorem parse_follows_no_null:
  "parse fuel (new_parser file contents beyond escapes) \<noteq> Inl (Undefined ''null pointer'')"
  by (rule parse_tree_state(1) [OF new_parser_ok])


text \<open>The file without a token.\<close>

lemma parse_empty_file:
  "parse 1 (new_parser 1 '''' beyond escapes) =
     Inr ([], new_parser 1 '''' beyond escapes\<lparr>scopes := set_lock UNLOCKED_LEVEL (set_lock 0 (set_file_id 1 new_scope_table))\<rparr>)"
  by (simp add: parse_def at_scopes_def more_declarations_def lex_has_next_def new_parser_def new_lexer_def
      set_source_def at_end_def bnd_def ret_def)

theorem parse_builds_trees_witness:
  "\<exists>s. parse 1 (new_parser 1 '''' (\<lambda>_. NUL) (arena_init 8)) = Inr ([], s) \<and> tree_ok s \<and> names_ok s"
  using parse_builds_trees [OF parse_empty_file] parse_empty_file by blast

theorem parse_balances_stacks_witness:
  "\<exists>s. parse 1 (new_parser 1 '''' (\<lambda>_. NUL) (arena_init 8)) = Inr ([], s) \<and>
     m_function_stack s = [] \<and> m_level (scopes s) = 0"
  using parse_balances_stacks [OF parse_empty_file] parse_empty_file by blast
end
