(* ===== verification/Types.thy ===== *)
theory Types
  imports Scope_Table Format
begin

section \<open>The operations of types (\<open>type.hpp\<close>, \<open>type.cpp\<close>)\<close>

text \<open>
  A type is a node of the tree or one of the objects that exist once. The virtual methods of
  the classes are functions over the store that branch on the class of the object; a method
  that calls the same method of another type takes fuel, since the pointers between types may
  form a cycle. Dereferencing a null pointer is the error \<open>Undefined\<close>.

  The methods that build LLVM code (\<open>op_binary\<close> and the like) are not here.
\<close>

subsection \<open>Results\<close>

type_synonym 'a result = "exn + 'a"

definition rbind :: "'a result \<Rightarrow> ('a \<Rightarrow> 'b result) \<Rightarrow> 'b result" where
  "rbind m f = (case m of Inl e \<Rightarrow> Inl e | Inr x \<Rightarrow> f x)"

text \<open>The operator \<open>||\<close>: the second operand is evaluated only when it is needed.\<close>

definition ror :: "bool result \<Rightarrow> bool result \<Rightarrow> bool result" where
  "ror a b = rbind a (\<lambda>x. if x then Inr True else b)"

lemma rbind_simps [simp, run_simps]: "rbind (Inr x) f = f x" "rbind (Inl e) f = Inl e"
  by (simp_all add: rbind_def)

lemma rbind_eq_Inr_iff: "rbind m f = Inr y \<longleftrightarrow> (\<exists>x. m = Inr x \<and> f x = Inr y)"
  by (cases m) simp_all

lemma rbind_eq_Inl_iff: "rbind m f = Inl e \<longleftrightarrow> m = Inl e \<or> (\<exists>x. m = Inr x \<and> f x = Inl e)"
  by (cases m) simp_all

lemma rbind_cong [fundef_cong]:
  "m = m' \<Longrightarrow> (\<And>x. m' = Inr x \<Longrightarrow> f x = g x) \<Longrightarrow> rbind m f = rbind m' g"
  by (cases m') simp_all

lemma ror_simps [simp, run_simps]:
  "ror (Inr True) b = Inr True" "ror (Inr False) b = b" "ror (Inl e) b = Inl e"
  by (simp_all add: ror_def)

lemma ror_False [simp, run_simps]: "ror (Inr x) (Inr False) = Inr x"
  by (simp add: ror_def)

subsection \<open>Classes\<close>

datatype Kind =
    Kind_UnresolvedSymbol | Kind_Void | Kind_Alias | Kind_Integer | Kind_Float | Kind_Bool
  | Kind_Char | Kind_Pointer | Kind_Packed | Kind_Struct | Kind_Array | Kind_Slice | Kind_Str
  | Kind_Fn | Kind_Enum | Kind_Range

record integral =
  it_bits :: "8 word"
  it_is_signed :: bool
  it_name :: string

definition integral_pointer :: integral where
  "integral_pointer = \<lparr>it_bits = 64, it_is_signed = True, it_name = ''pointer''\<rparr>"

text \<open>The objects that exist once. The constructor of \<open>PointerType\<close> that \<open>VOID_POINTER_TYPE\<close> uses
  leaves its kind \<open>Integer\<close>.\<close>

fun static_kind :: "static_type \<Rightarrow> Kind" where
  "static_kind VOID_TYPE = Kind_Void"
| "static_kind I8_TYPE = Kind_Integer"
| "static_kind U8_TYPE = Kind_Integer"
| "static_kind I16_TYPE = Kind_Integer"
| "static_kind U16_TYPE = Kind_Integer"
| "static_kind I32_TYPE = Kind_Integer"
| "static_kind U32_TYPE = Kind_Integer"
| "static_kind I64_TYPE = Kind_Integer"
| "static_kind U64_TYPE = Kind_Integer"
| "static_kind F32_TYPE = Kind_Float"
| "static_kind F64_TYPE = Kind_Float"
| "static_kind BOOL_TYPE = Kind_Bool"
| "static_kind CHAR_TYPE = Kind_Char"
| "static_kind UCHAR_TYPE = Kind_Char"
| "static_kind VOID_POINTER_TYPE = Kind_Integer"
| "static_kind STR_TYPE = Kind_Str"
| "static_kind RANGE_TYPE = Kind_Range"
| "static_kind PACKED_TYPE = Kind_Packed"

fun static_integral :: "static_type \<Rightarrow> integral option" where
  "static_integral I8_TYPE = Some \<lparr>it_bits = 8, it_is_signed = True, it_name = ''i8''\<rparr>"
| "static_integral U8_TYPE = Some \<lparr>it_bits = 8, it_is_signed = False, it_name = ''u8''\<rparr>"
| "static_integral I16_TYPE = Some \<lparr>it_bits = 16, it_is_signed = True, it_name = ''i16''\<rparr>"
| "static_integral U16_TYPE = Some \<lparr>it_bits = 16, it_is_signed = False, it_name = ''u16''\<rparr>"
| "static_integral I32_TYPE = Some \<lparr>it_bits = 32, it_is_signed = True, it_name = ''i32''\<rparr>"
| "static_integral U32_TYPE = Some \<lparr>it_bits = 32, it_is_signed = False, it_name = ''u32''\<rparr>"
| "static_integral I64_TYPE = Some \<lparr>it_bits = 64, it_is_signed = True, it_name = ''i64''\<rparr>"
| "static_integral U64_TYPE = Some \<lparr>it_bits = 64, it_is_signed = False, it_name = ''u64''\<rparr>"
| "static_integral F32_TYPE = Some \<lparr>it_bits = 32, it_is_signed = True, it_name = ''f32''\<rparr>"
| "static_integral F64_TYPE = Some \<lparr>it_bits = 64, it_is_signed = True, it_name = ''f64''\<rparr>"
| "static_integral BOOL_TYPE = Some \<lparr>it_bits = 1, it_is_signed = False, it_name = ''bool''\<rparr>"
| "static_integral CHAR_TYPE = Some \<lparr>it_bits = 8, it_is_signed = True, it_name = ''char''\<rparr>"
| "static_integral UCHAR_TYPE = Some \<lparr>it_bits = 8, it_is_signed = False, it_name = ''uchar''\<rparr>"
| "static_integral VOID_POINTER_TYPE = Some integral_pointer"
| "static_integral STR_TYPE = Some integral_pointer"
| "static_integral _ = None"

fun body_kind :: "type_body \<Rightarrow> Kind" where
  "body_kind (UnresolvedSymbolType _) = Kind_UnresolvedSymbol"
| "body_kind (AliasType _) = Kind_Alias"
| "body_kind (PointerType _ _) = Kind_Pointer"
| "body_kind (ArrayType _) = Kind_Array"
| "body_kind (SliceType _ _) = Kind_Slice"
| "body_kind (StructType _) = Kind_Struct"
| "body_kind (FnType _) = Kind_Fn"
| "body_kind (EnumType _) = Kind_Enum"

datatype type_obj = Builtin static_type | Heap type_body

definition type_obj_at :: "'s store_scheme \<Rightarrow> ptr \<Rightarrow> type_obj option" where
  "type_obj_at s p = (case p of Static t \<Rightarrow> Some (Builtin t) | _ \<Rightarrow> map_option (\<lambda>t. Heap (ty_body t)) (as_type s p))"

definition null_pointer :: "'a result" where
  "null_pointer = Inl (Undefined ''null pointer'')"

definition the_type :: "'s store_scheme \<Rightarrow> ptr \<Rightarrow> type_obj result" where
  "the_type s p = (case type_obj_at s p of None \<Rightarrow> null_pointer | Some t \<Rightarrow> Inr t)"

definition kind_of :: "type_obj \<Rightarrow> Kind" where
  "kind_of t = (case t of Builtin b \<Rightarrow> static_kind b | Heap b \<Rightarrow> body_kind b)"

text \<open>\<open>dyn_cast<T>(type) != nullptr\<close>\<close>

definition class_is :: "'s store_scheme \<Rightarrow> Kind \<Rightarrow> ptr \<Rightarrow> bool" where
  "class_is s k p = (case type_obj_at s p of Some t \<Rightarrow> kind_of t = k | None \<Rightarrow> False)"

text \<open>The \<open>IntegralType\<close> in an object, for the kinds \<open>IntegralType::classof\<close> accepts.\<close>

definition integral_of :: "type_obj \<Rightarrow> integral option" where
  "integral_of t =
     (case t of Builtin b \<Rightarrow> static_integral b | Heap (PointerType _ _) \<Rightarrow> Some integral_pointer | _ \<Rightarrow> None)"

definition is_user_def :: "'s store_scheme \<Rightarrow> ptr \<Rightarrow> bool" where
  "is_user_def s p = (class_is s Kind_Alias p \<or> class_is s Kind_Struct p \<or> class_is s Kind_Enum p)"

subsection \<open>Aliases\<close>

text \<open>\<open>get_real_type\<close> looks through one alias.\<close>

definition alias_target :: "type_obj \<Rightarrow> ptr option" where
  "alias_target t = (case t of Heap (AliasType a) \<Rightarrow> Some (meta_ptr (al_type a)) | _ \<Rightarrow> None)"

definition get_real_type :: "'s store_scheme \<Rightarrow> ptr \<Rightarrow> ptr result" where
  "get_real_type s p =
     rbind (the_type s p) (\<lambda>t. Inr (case alias_target t of Some q \<Rightarrow> q | None \<Rightarrow> p))"

definition produce_type :: "'s store_scheme \<Rightarrow> ptr \<Rightarrow> ptr result" where
  "produce_type s p = (if p = Null then Inr Null else get_real_type s p)"

text \<open>\<open>produce_type<T>\<close>: the object behind one alias, for the caller to cast.\<close>

definition produce_obj :: "'s store_scheme \<Rightarrow> ptr \<Rightarrow> type_obj option result" where
  "produce_obj s p = rbind (produce_type s p) (\<lambda>q. Inr (type_obj_at s q))"

text \<open>The methods \<open>AliasType\<close> hands on to its type: the type at the end of the chain of aliases
  answers.\<close>

fun through :: "nat \<Rightarrow> 's store_scheme \<Rightarrow> ptr \<Rightarrow> ptr result" where
  "through 0 s p = Inl OutOfFuel"
| "through (Suc n) s p =
     rbind (the_type s p) (\<lambda>t.
       case alias_target t of Some q \<Rightarrow> through n s q | None \<Rightarrow> Inr p)"

definition virtual :: "nat \<Rightarrow> 's store_scheme \<Rightarrow> ptr \<Rightarrow> (type_obj \<Rightarrow> 'a result) \<Rightarrow> 'a result" where
  "virtual n s p f = rbind (through n s p) (\<lambda>q. rbind (the_type s q) f)"

definition is_ptr :: "nat \<Rightarrow> 's store_scheme \<Rightarrow> ptr \<Rightarrow> bool result" where
  "is_ptr n s p = virtual n s p (\<lambda>t.
     Inr (case t of Heap (PointerType _ _) \<Rightarrow> True | Builtin b \<Rightarrow> b = STR_TYPE \<or> b = VOID_POINTER_TYPE | _ \<Rightarrow> False))"

definition is_int :: "nat \<Rightarrow> 's store_scheme \<Rightarrow> ptr \<Rightarrow> bool result" where
  "is_int n s p = virtual n s p (\<lambda>t.
     Inr (case t of Builtin b \<Rightarrow> static_kind b = Kind_Integer \<and> b \<noteq> VOID_POINTER_TYPE | _ \<Rightarrow> False))"

definition is_array :: "nat \<Rightarrow> 's store_scheme \<Rightarrow> ptr \<Rightarrow> bool result" where
  "is_array n s p = virtual n s p (\<lambda>t. Inr (kind_of t = Kind_Array \<or> kind_of t = Kind_Slice))"

definition is_struct :: "nat \<Rightarrow> 's store_scheme \<Rightarrow> ptr \<Rightarrow> bool result" where
  "is_struct n s p = virtual n s p (\<lambda>t. Inr (kind_of t = Kind_Struct))"

definition is_callable :: "nat \<Rightarrow> 's store_scheme \<Rightarrow> ptr \<Rightarrow> bool result" where
  "is_callable n s p = virtual n s p (\<lambda>t. Inr (kind_of t = Kind_Fn))"

definition is_iterable :: "nat \<Rightarrow> 's store_scheme \<Rightarrow> ptr \<Rightarrow> bool result" where
  "is_iterable n s p = virtual n s p (\<lambda>t.
     Inr (kind_of t = Kind_Array \<or> kind_of t = Kind_Slice \<or> kind_of t = Kind_Range))"

definition is_primitive :: "nat \<Rightarrow> 's store_scheme \<Rightarrow> ptr \<Rightarrow> bool result" where
  "is_primitive n s p = virtual n s p (\<lambda>t. Inr (kind_of t = Kind_Void \<or> integral_of t \<noteq> None))"

definition inner_of :: "type_obj \<Rightarrow> ptr" where
  "inner_of t =
     (case t of
        Heap (PointerType p _) \<Rightarrow> p
      | Heap (ArrayType a) \<Rightarrow> ar_element_type a
      | Heap (SliceType p _) \<Rightarrow> p
      | Builtin b \<Rightarrow> (if b = STR_TYPE then Static CHAR_TYPE
                      else if b = VOID_POINTER_TYPE then Static VOID_TYPE else Null)
      | _ \<Rightarrow> Null)"

definition get_inner :: "nat \<Rightarrow> 's store_scheme \<Rightarrow> ptr \<Rightarrow> ptr result" where
  "get_inner n s p = virtual n s p (\<lambda>t. Inr (inner_of t))"

definition get_iter_bindings :: "nat \<Rightarrow> 's store_scheme \<Rightarrow> ptr \<Rightarrow> ptr list result" where
  "get_iter_bindings n s p = virtual n s p (\<lambda>t. Inr (
     if kind_of t = Kind_Array \<or> kind_of t = Kind_Slice then [inner_of t]
     else if kind_of t = Kind_Range then [Static I32_TYPE] else []))"

subsection \<open>Names\<close>

text \<open>Names of pointers and arrays are written to a buffer once (\<open>g_type_name_buffer\<close>, an arena) and
  never change there, so the type keeps the text.\<close>

definition static_name :: "static_type \<Rightarrow> string" where
  "static_name b =
     (if b = VOID_TYPE then ''void'' else if b = RANGE_TYPE then ''range''
      else if b = PACKED_TYPE then ''packed'' else if b = STR_TYPE then ''str''
      else if b = VOID_POINTER_TYPE then ''''
      else case static_integral b of Some i \<Rightarrow> it_name i | None \<Rightarrow> '''')"

definition type_name :: "type_obj \<Rightarrow> string" where
  "type_name t =
     (case t of
        Builtin b \<Rightarrow> static_name b
      | Heap (UnresolvedSymbolType name) \<Rightarrow> name
      | Heap (AliasType a) \<Rightarrow> sy_name (al_symbol a)
      | Heap (PointerType _ name) \<Rightarrow> name
      | Heap (ArrayType a) \<Rightarrow> ar_name a
      | Heap (SliceType _ name) \<Rightarrow> name
      | Heap (StructType st) \<Rightarrow> sy_name (stt_symbol st)
      | Heap (FnType f) \<Rightarrow> sy_name (fn_symbol f)
      | Heap (EnumType e) \<Rightarrow> sy_name (en_symbol e))"

definition get_type_name :: "'s store_scheme \<Rightarrow> ptr \<Rightarrow> string result" where
  "get_type_name s p = rbind (the_type s p) (\<lambda>t. Inr (type_name t))"

definition get_fn_name :: "fn_type \<Rightarrow> string" where
  "get_fn_name f = (if fn_mangled_name f = [] then sy_name (fn_symbol f) else fn_mangled_name f)"

text \<open>\<open>set_inner\<close> of pointers, and of arrays and slices: the name is that of the inner type.\<close>

definition upd_type :: "(type_body \<Rightarrow> type_body) \<Rightarrow> node \<Rightarrow> node" where
  "upd_type f n = (case n of NType t \<Rightarrow> NType (t\<lparr>ty_body := f (ty_body t)\<rparr>) | _ \<Rightarrow> n)"

definition set_pointee :: "ptr \<Rightarrow> string \<Rightarrow> type_body \<Rightarrow> type_body" where
  "set_pointee inner name b = (case b of PointerType _ _ \<Rightarrow> PointerType inner name | _ \<Rightarrow> b)"

definition pointer_set_inner :: "ptr \<Rightarrow> ptr \<Rightarrow> 's store_scheme \<Rightarrow> (unit \<times> 's store_scheme) result" where
  "pointer_set_inner p inner s =
     rbind (get_type_name s inner) (\<lambda>name.
       Inr ((), poke_node p (upd_type (set_pointee inner (''^'' @ name))) s))"

definition write_to_name_buffer :: "array_type \<Rightarrow> string" where
  "write_to_name_buffer ar = string_of_nat (ar_size ar)"

definition base_array_set_inner :: "ptr \<Rightarrow> ptr \<Rightarrow> 's store_scheme \<Rightarrow> (unit \<times> 's store_scheme) result" where
  "base_array_set_inner p inner s =
     rbind (get_type_name s inner) (\<lambda>name.
       case type_obj_at s p of
         Some (Heap (ArrayType a)) \<Rightarrow>
           Inr ((), poke_node p (set_type_body (ArrayType (a\<lparr>ar_element_type := inner,
             ar_name := ''['' @ write_to_name_buffer a @ '']'' @ name\<rparr>))) s)
       | Some (Heap (SliceType _ _)) \<Rightarrow>
           Inr ((), poke_node p (set_type_body (SliceType inner (''[]'' @ name))) s)
       | _ \<Rightarrow> null_pointer)"

subsection \<open>Equality\<close>

text \<open>\<open>dyn_cast<T>(other)\<close> with the same width and sign (\<open>DEFAULT_INTEGRAL_EQUAL\<close>).\<close>

definition integral_is_equal :: "'s store_scheme \<Rightarrow> Kind \<Rightarrow> integral \<Rightarrow> ptr \<Rightarrow> bool" where
  "integral_is_equal s k i b =
     (case type_obj_at s b of
        None \<Rightarrow> False
      | Some t \<Rightarrow> kind_of t = k \<and>
          (case integral_of t of
             Some j \<Rightarrow> it_bits i = it_bits j \<and> it_is_signed i = it_is_signed j | None \<Rightarrow> False))"

definition pointer_is_equal ::
    "(ptr \<Rightarrow> ptr \<Rightarrow> bool result) \<Rightarrow> 's store_scheme \<Rightarrow> ptr \<Rightarrow> ptr \<Rightarrow> bool result" where
  "pointer_is_equal eq s inner b =
     rbind (produce_obj s b) (\<lambda>other.
       case other of
         Some (Heap (PointerType inner2 _)) \<Rightarrow>
           ror (eq inner inner2) (ror (eq inner2 (Static VOID_TYPE)) (eq inner (Static VOID_TYPE)))
       | _ \<Rightarrow> Inr False)"

text \<open>\<open>||\<close> binds weaker than \<open>&&\<close>: arrays of one size are equal whatever their elements are.\<close>

definition array_is_equal ::
    "(ptr \<Rightarrow> ptr \<Rightarrow> bool result) \<Rightarrow> 's store_scheme \<Rightarrow> array_type \<Rightarrow> ptr \<Rightarrow> bool result" where
  "array_is_equal eq s ar b =
     rbind (produce_obj s b) (\<lambda>other.
       case other of
         Some (Heap (ArrayType ar2)) \<Rightarrow>
           if ar_size ar2 = ar_size ar then Inr True
           else if ar_size ar2 = UNSIZED_ARRAY then eq (ar_element_type ar2) (ar_element_type ar)
           else Inr False
       | _ \<Rightarrow> Inr False)"

definition slice_is_equal ::
    "nat \<Rightarrow> (ptr \<Rightarrow> ptr \<Rightarrow> bool result) \<Rightarrow> 's store_scheme \<Rightarrow> ptr \<Rightarrow> ptr \<Rightarrow> bool result" where
  "slice_is_equal n eq s inner b =
     rbind (is_array n s b) (\<lambda>a. if a then rbind (get_inner n s b) (\<lambda>inner2. eq inner inner2) else Inr False)"

text \<open>The fields two structs have in common; a field is compared unless its name is the name of
  the other struct.\<close>

fun fields_equal ::
    "(ptr \<Rightarrow> ptr \<Rightarrow> bool result) \<Rightarrow> string \<Rightarrow> (symbol \<times> type_meta) list \<Rightarrow> (symbol \<times> type_meta) list \<Rightarrow> bool result" where
  "fields_equal eq other ((f, m) # fs) ((g, k) # gs) =
     (if sy_name f \<noteq> other
      then rbind (eq (meta_ptr m) (meta_ptr k)) (\<lambda>ok. if ok then fields_equal eq other fs gs else Inr False)
      else fields_equal eq other fs gs)"
| "fields_equal eq other _ _ = Inr True"

definition struct_is_equal ::
    "(ptr \<Rightarrow> ptr \<Rightarrow> bool result) \<Rightarrow> 's store_scheme \<Rightarrow> ptr \<Rightarrow> struct_type \<Rightarrow> ptr \<Rightarrow> bool result" where
  "struct_is_equal eq s a st b =
     rbind (produce_obj s b) (\<lambda>other.
       case other of
         Some (Heap (StructType st2)) \<Rightarrow>
           if sy_name (stt_symbol st) = [] \<or> sy_name (stt_symbol st2) = []
           then fields_equal eq (sy_name (stt_symbol st2)) (stt_fields st) (stt_fields st2)
           else Inr (a = b)
       | _ \<Rightarrow> Inr (a = b))"

text \<open>Parameters are compared with their mutability.\<close>

fun params_equal ::
    "(ptr \<Rightarrow> ptr \<Rightarrow> bool result) \<Rightarrow> 's store_scheme \<Rightarrow> ptr list \<Rightarrow> ptr list \<Rightarrow> bool result" where
  "params_equal eq s (p # ps) (q # qs) =
     (case (as_var s p, as_var s q) of
        (Some v, Some w) \<Rightarrow>
          rbind (eq (meta_ptr (vd_type v)) (meta_ptr (vd_type w))) (\<lambda>ok.
            if \<not> ok \<or> mut_set (vd_type w) \<noteq> mut_set (vd_type v) then Inr False
            else params_equal eq s ps qs)
      | _ \<Rightarrow> null_pointer)"
| "params_equal eq s _ _ = Inr True"

definition fn_is_equal ::
    "(ptr \<Rightarrow> ptr \<Rightarrow> bool result) \<Rightarrow> 's store_scheme \<Rightarrow> fn_type \<Rightarrow> ptr \<Rightarrow> bool result" where
  "fn_is_equal eq s f b =
     rbind (produce_obj s b) (\<lambda>other.
       case other of
         Some (Heap (FnType g)) \<Rightarrow>
           if length (fs_parameters (fn_sig g)) \<noteq> length (fs_parameters (fn_sig f)) then Inr False
           else
             let ret_match = eq (meta_ptr (fs_return_type (fn_sig f))) (meta_ptr (fs_return_type (fn_sig g)))
             in rbind ret_match (\<lambda>r.
                if \<not> r then Inr False
                else rbind (params_equal eq s (fs_parameters (fn_sig f)) (fs_parameters (fn_sig g))) (\<lambda>ok.
                     if ok then ret_match else Inr False))
       | _ \<Rightarrow> Inr False)"

definition alias_is_equal ::
    "(ptr \<Rightarrow> ptr \<Rightarrow> bool result) \<Rightarrow> 's store_scheme \<Rightarrow> ptr \<Rightarrow> alias_type \<Rightarrow> ptr \<Rightarrow> bool result" where
  "alias_is_equal eq s a al b =
     (if al_is_distinct al
      then (case type_obj_at s b of
              Some (Heap (AliasType al2)) \<Rightarrow>
                if b = a then eq (meta_ptr (al_type al)) (meta_ptr (al_type al2)) else Inr False
            | _ \<Rightarrow> Inr False)
      else rbind (get_real_type s b) (\<lambda>real. eq (meta_ptr (al_type al)) real))"

definition builtin_is_equal ::
    "(ptr \<Rightarrow> ptr \<Rightarrow> bool result) \<Rightarrow> 's store_scheme \<Rightarrow> static_type \<Rightarrow> ptr \<Rightarrow> bool result" where
  "builtin_is_equal eq s t b =
     (if t = VOID_POINTER_TYPE then pointer_is_equal eq s (Static VOID_TYPE) b
      else if t = PACKED_TYPE then Inr True
      else if t = STR_TYPE then Inr (class_is s Kind_Str b)
      else case static_integral t of
             Some i \<Rightarrow> Inr (integral_is_equal s (static_kind t) i b)
           | None \<Rightarrow> Inr (class_is s (static_kind t) b))"

text \<open>\<open>a->is_equal(b)\<close>\<close>

fun is_equal :: "nat \<Rightarrow> 's store_scheme \<Rightarrow> ptr \<Rightarrow> ptr \<Rightarrow> bool result" where
  "is_equal 0 s a b = Inl OutOfFuel"
| "is_equal (Suc n) s a b =
     rbind (the_type s a) (\<lambda>t.
       case t of
         Builtin bt \<Rightarrow> builtin_is_equal (is_equal n s) s bt b
       | Heap (UnresolvedSymbolType _) \<Rightarrow> Inr False
       | Heap (AliasType al) \<Rightarrow> alias_is_equal (is_equal n s) s a al b
       | Heap (PointerType inner _) \<Rightarrow> pointer_is_equal (is_equal n s) s inner b
       | Heap (ArrayType ar) \<Rightarrow> array_is_equal (is_equal n s) s ar b
       | Heap (SliceType inner _) \<Rightarrow> slice_is_equal (Suc n) (is_equal n s) s inner b
       | Heap (StructType st) \<Rightarrow> struct_is_equal (is_equal n s) s a st b
       | Heap (FnType f) \<Rightarrow> fn_is_equal (is_equal n s) s f b
       | Heap (EnumType _) \<Rightarrow> Inr (a = b))"

definition check_type_equality :: "nat \<Rightarrow> 's store_scheme \<Rightarrow> ptr \<Rightarrow> ptr \<Rightarrow> bool result" where
  "check_type_equality n s a b = ror (is_equal n s a b) (is_equal n s b a)"

subsection \<open>Coercion\<close>

definition integral_can_coerce :: "'s store_scheme \<Rightarrow> integral \<Rightarrow> ptr \<Rightarrow> bool result" where
  "integral_can_coerce s i b =
     rbind (produce_obj s b) (\<lambda>other. Inr (
       case Option.bind other integral_of of
         None \<Rightarrow> False
       | Some j \<Rightarrow> it_bits i \<le> it_bits j \<or> (it_bits i = it_bits j \<and> it_is_signed i = it_is_signed j)))"

definition array_can_coerce :: "'s store_scheme \<Rightarrow> ptr \<Rightarrow> bool result" where
  "array_can_coerce s b =
     rbind (produce_obj s b) (\<lambda>other. Inr (case other of Some t \<Rightarrow> kind_of t = Kind_Slice | None \<Rightarrow> False))"

definition can_coerce_into :: "nat \<Rightarrow> 's store_scheme \<Rightarrow> ptr \<Rightarrow> ptr \<Rightarrow> bool result" where
  "can_coerce_into n s a b = virtual n s a (\<lambda>t.
     case t of
       Builtin bt \<Rightarrow>
         if bt = STR_TYPE \<or> bt = VOID_POINTER_TYPE then Inr False
         else (case static_integral bt of Some i \<Rightarrow> integral_can_coerce s i b | None \<Rightarrow> Inr False)
     | Heap (ArrayType _) \<Rightarrow> array_can_coerce s b
     | _ \<Rightarrow> Inr False)"

definition is_assignable_from :: "nat \<Rightarrow> 's store_scheme \<Rightarrow> ptr \<Rightarrow> ptr \<Rightarrow> bool result" where
  "is_assignable_from n s from_type to_type =
     ror (check_type_equality n s from_type to_type)
       (ror (can_coerce_into n s to_type from_type) (can_coerce_into n s from_type to_type))"

subsection \<open>Members\<close>

datatype member_access = Access_Public | Access_Private | Access_Readonly

record member_info =
  mi_name :: string
  mi_type :: ptr
  mi_access :: member_access

definition member :: "string \<Rightarrow> ptr \<Rightarrow> member_info" where
  "member name p = \<lparr>mi_name = name, mi_type = p, mi_access = Access_Public\<rparr>"

definition base_array_get_member ::
    "'s store_scheme \<Rightarrow> ptr \<Rightarrow> string \<Rightarrow> (member_info option \<times> 's store_scheme) result" where
  "base_array_get_member s element name =
     (if name = ''length''
      then Inr (Some \<lparr>mi_name = ''length'', mi_type = Static U32_TYPE, mi_access = Access_Readonly\<rparr>, s)
      else if name = ''ptr''
      then (let (p, s1) = alloc (new_type (PointerType Null [])) s
            in rbind (pointer_set_inner p element s1) (\<lambda>(_, s2).
               Inr (Some \<lparr>mi_name = ''ptr'', mi_type = p, mi_access = Access_Readonly\<rparr>, s2)))
      else Inr (None, s))"

text \<open>\<open>get_member_index\<close>; \<open>None\<close> is -1.\<close>

definition get_member_index :: "array_type \<Rightarrow> string \<Rightarrow> nat option" where
  "get_member_index ar name =
     (case find_index (\<lambda>m. m = name) (ar_members ar) of
        None \<Rightarrow> None | Some i \<Rightarrow> if i \<ge> ar_size ar then None else Some i)"

definition array_get_member ::
    "'s store_scheme \<Rightarrow> array_type \<Rightarrow> string \<Rightarrow> (member_info option \<times> 's store_scheme) result" where
  "array_get_member s ar name =
     rbind (base_array_get_member s (ar_element_type ar) name) (\<lambda>(m, s1).
       if m \<noteq> None then Inr (m, s1)
       else Inr (case get_member_index ar name of
                   None \<Rightarrow> None | Some _ \<Rightarrow> Some (member name (ar_element_type ar)), s1))"

definition struct_get_member :: "struct_type \<Rightarrow> string \<Rightarrow> member_info option" where
  "struct_get_member st name =
     (case find_index (\<lambda>f. sy_name (fst f) = name) (stt_fields st) of
        None \<Rightarrow> None
      | Some i \<Rightarrow> (let (f, m) = stt_fields st ! i in Some (member (sy_name f) (meta_ptr m))))"

fun get_member :: "nat \<Rightarrow> 's store_scheme \<Rightarrow> ptr \<Rightarrow> string \<Rightarrow> (member_info option \<times> 's store_scheme) result" where
  "get_member 0 s p name = Inl OutOfFuel"
| "get_member (Suc n) s p name =
     rbind (the_type s p) (\<lambda>t.
       case t of
         Heap (AliasType al) \<Rightarrow> get_member n s (meta_ptr (al_type al)) name
       | Heap (PointerType inner _) \<Rightarrow> get_member n s inner name
       | Heap (ArrayType ar) \<Rightarrow> array_get_member s ar name
       | Heap (SliceType inner _) \<Rightarrow> base_array_get_member s inner name
       | Heap (StructType st) \<Rightarrow> Inr (struct_get_member st name, s)
       | _ \<Rightarrow> Inr (None, s))"

text \<open>\<open>UserDefType::get_method\<close>: the methods of the \<open>impl\<close> of the type.\<close>

fun method_named :: "'s store_scheme \<Rightarrow> string \<Rightarrow> ptr list \<Rightarrow> ptr option result" where
  "method_named s name [] = Inr None"
| "method_named s name (p # ps) =
     (case as_fn s p of
        None \<Rightarrow> null_pointer
      | Some f \<Rightarrow> if sy_name (fn_symbol f) = name then Inr (Some p) else method_named s name ps)"

definition user_get_method :: "'s store_scheme \<Rightarrow> ptr \<Rightarrow> string \<Rightarrow> member_info option result" where
  "user_get_method s impl name =
     (case as_stmt s impl of
        Some st \<Rightarrow>
          (case st_body st of
             ImplStmt _ _ methods \<Rightarrow>
               rbind (method_named s name methods) (\<lambda>m. Inr (map_option (\<lambda>p. member [] p) m))
           | _ \<Rightarrow> null_pointer)
      | None \<Rightarrow> if impl = Null then Inr None else null_pointer)"

fun get_method :: "nat \<Rightarrow> 's store_scheme \<Rightarrow> ptr \<Rightarrow> string \<Rightarrow> member_info option result" where
  "get_method 0 s p name = Inl OutOfFuel"
| "get_method (Suc n) s p name =
     rbind (the_type s p) (\<lambda>t.
       case t of
         Heap (AliasType al) \<Rightarrow>
           rbind (user_get_method s (al_impl al) name) (\<lambda>m.
             if m \<noteq> None then Inr m else get_method n s (meta_ptr (al_type al)) name)
       | Heap (PointerType inner _) \<Rightarrow> get_method n s inner name
       | Heap (StructType st) \<Rightarrow> user_get_method s (stt_impl st) name
       | Heap (EnumType e) \<Rightarrow> user_get_method s (en_impl e) name
       | _ \<Rightarrow> Inr None)"

subsection \<open>Calls, enums, limits\<close>

definition get_call_info :: "nat \<Rightarrow> 's store_scheme \<Rightarrow> ptr \<Rightarrow> fn_signature option result" where
  "get_call_info n s p = virtual n s p (\<lambda>t. Inr (case t of Heap (FnType f) \<Rightarrow> Some (fn_sig f) | _ \<Rightarrow> None))"

text \<open>The value is a \<open>u64\<close> and is returned as a \<open>u32\<close>.\<close>

definition get_value :: "enum_type \<Rightarrow> string \<Rightarrow> 32 word option" where
  "get_value e name = map_option (\<lambda>v. ucast (ev_value v)) (hm_find (en_variants e) name)"

definition get_literal ::
    "ptr \<Rightarrow> enum_type \<Rightarrow> string \<Rightarrow> 's store_scheme \<Rightarrow> ptr \<times> 's store_scheme" where
  "get_literal p e name s =
     (case get_value e name of
        None \<Rightarrow> (Null, s)
      | Some v \<Rightarrow> alloc (NExpr \<lparr>ex_token = empty_token, ex_flags = 0, ex_mut_set = 0, ex_type = p,
                                ex_body = EnumLiteralExpr (unat v)\<rparr>) s)"

text \<open>The value of \<open>min\<close> and \<open>max\<close> before it is cut to the width of the type: two to the number of
  value bits is computed as a \<open>double\<close> and converted to \<open>u64\<close>, which is undefined for 64 bits.\<close>

definition integral_limit :: "integral \<Rightarrow> bool \<Rightarrow> 64 word result" where
  "integral_limit i is_min =
     (let modified_bits = (if it_is_signed i then it_bits i - 1 else it_bits i)
      in if unat modified_bits \<ge> 64 then Inl (Undefined ''conversion of a double'')
         else let value = 2 ^ unat modified_bits - 1
              in Inr (if it_is_signed i \<and> is_min then - value else if is_min then 0 else value))"

datatype type_property = Default_Value | Constant "64 word"

definition integral_get_property :: "integral \<Rightarrow> string \<Rightarrow> type_property option result" where
  "integral_get_property i name =
     (if name = ''init'' then Inr (Some Default_Value)
      else if name \<noteq> ''min'' \<and> name \<noteq> ''max'' then Inr None
      else rbind (integral_limit i (name = ''min'')) (\<lambda>v.
           Inr (Some (Constant (take_bit (unat (it_bits i)) v)))))"

end
