(* ===== verification/Type_Equality.thy ===== *)
theory Type_Equality
  imports Types
begin

section \<open>What comparing, coercing and limiting types decides\<close>

text \<open>
  \<open>is_equal\<close> ends on types without cycles and decides identity on most types; arrays, aliases,
  anonymous structs and \<open>void\<close> pointers are where it does not. Then what may be assigned to
  what, and the limits of the integer types.
\<close>

subsection \<open>Comparison ends on types without cycles\<close>

text \<open>The types a type is built from.\<close>

definition components :: "'s store_scheme \<Rightarrow> type_obj \<Rightarrow> ptr list" where
  "components s t =
     (case t of
        Heap (AliasType al) \<Rightarrow> [meta_ptr (al_type al)]
      | Heap (StructType st) \<Rightarrow> map (\<lambda>f. meta_ptr (snd f)) (stt_fields st)
      | Heap (FnType f) \<Rightarrow>
          meta_ptr (fs_return_type (fn_sig f)) #
          concat (map (\<lambda>p. case as_var s p of Some v \<Rightarrow> [meta_ptr (vd_type v)] | None \<Rightarrow> [])
                    (fs_parameters (fn_sig f)))
      | Heap (PointerType p _) \<Rightarrow> [p]
      | Heap (ArrayType ar) \<Rightarrow> [ar_element_type ar]
      | Heap (SliceType p _) \<Rightarrow> [p]
      | Builtin b \<Rightarrow> if b = VOID_POINTER_TYPE then [Static VOID_TYPE] else []
      | _ \<Rightarrow> [])"

text \<open>A rank that falls from a type to its components: there is one when no type contains itself.\<close>

definition ranked :: "(ptr \<Rightarrow> nat) \<Rightarrow> 's store_scheme \<Rightarrow> bool" where
  "ranked rk s \<longleftrightarrow> rk (Static VOID_TYPE) = 0 \<and>
     (\<forall>p t. type_obj_at s p = Some t \<longrightarrow> (\<forall>q \<in> set (components s t). rk q < rk p))"

definition ends :: "'a result \<Rightarrow> bool" where
  "ends r \<longleftrightarrow> r \<noteq> Inl OutOfFuel"

lemma ends_Inr [simp, intro]: "ends (Inr x)"
  and ends_null [simp, intro]: "ends null_pointer"
  by (simp_all add: ends_def null_pointer_def)

lemma ends_rbind: "ends m \<Longrightarrow> (\<And>x. m = Inr x \<Longrightarrow> ends (f x)) \<Longrightarrow> ends (rbind m f)"
  by (cases m) (auto simp: ends_def)

lemma ends_ror: "ends a \<Longrightarrow> ends b \<Longrightarrow> ends (ror a b)"
  by (auto simp: ror_def intro: ends_rbind)

lemma ends_the_type [simp, intro]: "ends (the_type s p)"
  by (simp add: the_type_def split: option.split)

lemma ends_produce [simp, intro]: "ends (get_real_type s p)" "ends (produce_type s p)" "ends (produce_obj s p)"
  by (auto simp: get_real_type_def produce_type_def produce_obj_def intro!: ends_rbind)

lemma the_type_Inr: "the_type s p = Inr t \<longleftrightarrow> type_obj_at s p = Some t"
  by (simp add: the_type_def null_pointer_def split: option.split)

lemma rankedD: "ranked rk s \<Longrightarrow> type_obj_at s p = Some t \<Longrightarrow> q \<in> set (components s t) \<Longrightarrow> rk q < rk p"
  by (auto simp: ranked_def)

lemma ranked_void: "ranked rk s \<Longrightarrow> rk (Static VOID_TYPE) = 0"
  by (simp add: ranked_def)

lemma alias_component: "alias_target t = Some q \<Longrightarrow> q \<in> set (components s t)"
  by (auto simp: alias_target_def components_def split: type_obj.splits type_body.splits)

lemma real_type_rank:
  assumes "ranked rk s" and "get_real_type s p = Inr q"
  shows "rk q \<le> rk p"
proof -
  obtain t where t: "type_obj_at s p = Some t" and q: "q = (case alias_target t of Some q \<Rightarrow> q | None \<Rightarrow> p)"
    using assms(2) by (auto simp: get_real_type_def rbind_eq_Inr_iff the_type_Inr)
  show ?thesis using q rankedD [OF assms(1) t alias_component] by (auto split: option.splits intro: less_imp_le)
qed

lemma produce_rank:
  assumes "ranked rk s" and "produce_obj s p = Inr (Some t)"
  shows "\<exists>q. type_obj_at s q = Some t \<and> rk q \<le> rk p"
  using assms real_type_rank [OF assms(1)]
  by (auto simp: produce_obj_def produce_type_def rbind_eq_Inr_iff split: if_splits)

lemma through_ends: "ranked rk s \<Longrightarrow> rk p < n \<Longrightarrow> ends (through n s p)"
proof (induction n s p rule: through.induct)
  case (2 n s p)
  have "ends (through n s q)" if "type_obj_at s p = Some t" "alias_target t = Some q" for t q
    using 2(1) [of t q] rankedD [OF 2(2) that(1) alias_component [OF that(2)]] that 2(2,3)
    by (simp add: the_type_Inr)
  then show ?case
    by (auto intro!: ends_rbind split: option.split simp: the_type_Inr)
qed simp

lemma through_rank:
  "ranked rk s \<Longrightarrow> through n s p = Inr q \<Longrightarrow> rk q \<le> rk p"
proof (induction n s p rule: through.induct)
  case (2 n s p)
  obtain t where t: "type_obj_at s p = Some t"
    and q: "(case alias_target t of Some r \<Rightarrow> through n s r | None \<Rightarrow> Inr p) = Inr q"
    using 2(3) by (auto simp: rbind_eq_Inr_iff the_type_Inr)
  show ?case
  proof (cases "alias_target t")
    case (Some r)
    then have "rk q \<le> rk r" using 2(1) [of t r] 2(2) q t by (simp add: the_type_Inr)
    then show ?thesis using rankedD [OF 2(2) t alias_component [OF Some]] by simp
  qed (use q in simp)
qed simp

lemma virtual_ends:
  "ranked rk s \<Longrightarrow> rk p < n \<Longrightarrow> (\<And>t. ends (f t)) \<Longrightarrow> ends (virtual n s p f)"
  unfolding virtual_def by (intro ends_rbind through_ends) auto

lemma virtual_eq_Inr:
  "virtual n s p f = Inr x \<longleftrightarrow> (\<exists>q t. through n s p = Inr q \<and> type_obj_at s q = Some t \<and> f t = Inr x)"
  by (auto simp: virtual_def rbind_eq_Inr_iff the_type_Inr)

lemma array_inner_rank:
  assumes "ranked rk s" and "is_array n s p = Inr True" and "get_inner n s p = Inr q"
  shows "rk q < rk p"
proof -
  obtain r t where r: "through n s p = Inr r" and t: "type_obj_at s r = Some t"
    and k: "kind_of t = Kind_Array \<or> kind_of t = Kind_Slice" and q: "q = inner_of t"
    using assms(2,3) by (auto simp: is_array_def get_inner_def virtual_eq_Inr)
  have "q \<in> set (components s t)"
  proof (cases t)
    case (Builtin b) then show ?thesis using k by (cases b) (auto simp: kind_of_def)
  next
    case (Heap b) then show ?thesis using k q by (cases b) (auto simp: kind_of_def components_def inner_of_def)
  qed
  then show ?thesis using rankedD [OF assms(1) t] through_rank [OF assms(1) r] by fastforce
qed

lemma fields_equal_ends:
  assumes "\<And>f g. f \<in> set fs \<Longrightarrow> g \<in> set gs \<Longrightarrow> ends (eq (meta_ptr (snd f)) (meta_ptr (snd g)))"
  shows "ends (fields_equal eq other fs gs)"
  using assms
proof (induction fs arbitrary: gs)
  case (Cons f fs)
  note C = Cons
  show ?case
  proof (cases gs)
    case (Cons g gs')
    have "ends (fields_equal eq other fs gs')" using C(2) Cons by (intro C(1)) auto
    moreover have "ends (eq (meta_ptr (snd f)) (meta_ptr (snd g)))" using C(2) [of f g] Cons by simp
    ultimately show ?thesis using Cons by (cases f; cases g) (auto intro!: ends_rbind)
  qed simp
qed simp

lemma params_equal_ends:
  assumes "\<And>p q v w. p \<in> set ps \<Longrightarrow> q \<in> set qs \<Longrightarrow> as_var s p = Some v \<Longrightarrow> as_var s q = Some w \<Longrightarrow>
    ends (eq (meta_ptr (vd_type v)) (meta_ptr (vd_type w)))"
  shows "ends (params_equal eq s ps qs)"
  using assms
proof (induction ps arbitrary: qs)
  case (Cons p ps)
  note C = Cons
  show ?case
  proof (cases qs)
    case (Cons q qs')
    have "ends (params_equal eq s ps qs')" using C(2) Cons by (intro C(1)) (auto intro: C(2))
    then show ?thesis using C(2) [of p q] Cons
      by (auto intro!: ends_rbind split: option.split)
  qed simp
qed simp

text \<open>One step: every class compares only types below the two it is given.\<close>

lemma class_equal_ends:
  assumes rk: "ranked rk s" and t: "type_obj_at s a = Some t" and n: "rk b < n"
    and eq: "\<And>x y. rk x + rk y < rk a + rk b \<Longrightarrow> ends (eq x y)"
  shows "t = Builtin bt \<Longrightarrow> ends (builtin_is_equal eq s bt b)"
    and "t = Heap (AliasType al) \<Longrightarrow> ends (alias_is_equal eq s a al b)"
    and "t = Heap (PointerType p nm) \<Longrightarrow> ends (pointer_is_equal eq s p b)"
    and "t = Heap (ArrayType ar) \<Longrightarrow> ends (array_is_equal eq s ar b)"
    and "t = Heap (SliceType p nm) \<Longrightarrow> ends (slice_is_equal n eq s p b)"
    and "t = Heap (StructType st) \<Longrightarrow> ends (struct_is_equal eq s a st b)"
    and "t = Heap (FnType f) \<Longrightarrow> ends (fn_is_equal eq s f b)"
proof -
  note V = ranked_void [OF rk]
  have low: "ends (eq q q')" if "q \<in> set (components s t)" "rk q' \<le> rk b" for q q'
    using rankedD [OF rk t that(1)] that(2) by (intro eq) simp
  have other: "rk q' < rk b" if "produce_obj s b = Inr (Some u)" "q' \<in> set (components s u)" for u q'
    using produce_rank [OF rk that(1)] rankedD [OF rk _ that(2)] by fastforce
  have ptr: "ends (pointer_is_equal eq s inner b)" if i: "inner \<in> set (components s t)" for inner
    unfolding pointer_is_equal_def
  proof (rule ends_rbind)
    fix u assume u: "produce_obj s b = Inr u"
    have "ends (eq inner inner2)" "ends (eq inner2 (Static VOID_TYPE))" "ends (eq inner (Static VOID_TYPE))"
      if "u = Some (Heap (PointerType inner2 nm))" for inner2 nm
      using that u other [of _ inner2] low [OF i] V
      by (auto simp: components_def intro: eq less_imp_le)
    then show "ends (case u of Some (Heap (PointerType inner2 _)) \<Rightarrow>
           ror (eq inner inner2) (ror (eq inner2 (Static VOID_TYPE)) (eq inner (Static VOID_TYPE)))
       | _ \<Rightarrow> Inr False)"
      by (auto split: option.split type_obj.split type_body.split intro!: ends_ror)
  qed simp
  show "t = Heap (PointerType p nm) \<Longrightarrow> ends (pointer_is_equal eq s p b)"
    by (rule ptr) (simp add: components_def)
  show "t = Builtin bt \<Longrightarrow> ends (builtin_is_equal eq s bt b)"
    using ptr by (auto simp: builtin_is_equal_def components_def split: option.split)
  show "t = Heap (AliasType al) \<Longrightarrow> ends (alias_is_equal eq s a al b)"
  proof -
    assume T: "t = Heap (AliasType al)"
    then have c: "meta_ptr (al_type al) \<in> set (components s t)" by (simp add: components_def)
    have "ends (eq (meta_ptr (al_type al)) (meta_ptr (al_type al)))" if "b = a"
      using rankedD [OF rk t c] that by (intro low [OF c]) simp
    moreover have "type_obj_at s b = Some t" if "b = a" using t that by simp
    ultimately show ?thesis using low [OF c] real_type_rank [OF rk, of b] T
      by (auto simp: alias_is_equal_def intro!: ends_rbind split: option.split type_obj.split type_body.split)
  qed
  show "t = Heap (ArrayType ar) \<Longrightarrow> ends (array_is_equal eq s ar b)"
  proof -
    assume T: "t = Heap (ArrayType ar)"
    have "ends (eq (ar_element_type ar2) (ar_element_type ar))"
      if "produce_obj s b = Inr (Some (Heap (ArrayType ar2)))" for ar2
      using other [OF that] rankedD [OF rk t, of "ar_element_type ar"] T
      by (intro eq) (force simp: components_def)
    then show ?thesis
      by (auto simp: array_is_equal_def intro!: ends_rbind split: option.split type_obj.split type_body.split)
  qed
  show "t = Heap (SliceType p nm) \<Longrightarrow> ends (slice_is_equal n eq s p b)"
  proof -
    assume T: "t = Heap (SliceType p nm)"
    have i: "ends (get_inner n s b)" "ends (is_array n s b)"
      using n by (auto simp: is_array_def get_inner_def intro!: virtual_ends [OF rk])
    have "ends (eq p q)" if "is_array n s b = Inr True" "get_inner n s b = Inr q" for q
      using array_inner_rank [OF rk that] T by (intro low) (auto simp: components_def)
    then show ?thesis unfolding slice_is_equal_def by (intro ends_rbind i) (auto intro: ends_rbind i)
  qed
  show "t = Heap (StructType st) \<Longrightarrow> ends (struct_is_equal eq s a st b)"
  proof -
    assume T: "t = Heap (StructType st)"
    have "ends (eq (meta_ptr (snd f)) (meta_ptr (snd g)))"
      if "produce_obj s b = Inr (Some (Heap (StructType st2)))" "f \<in> set (stt_fields st)" "g \<in> set (stt_fields st2)" for st2 f g
      using other [OF that(1), of "meta_ptr (snd g)"] that T
      by (intro low) (auto simp: components_def intro: less_imp_le)
    then show ?thesis
      by (auto simp: struct_is_equal_def intro!: ends_rbind fields_equal_ends split: option.split type_obj.split type_body.split)
  qed
  show "t = Heap (FnType f) \<Longrightarrow> ends (fn_is_equal eq s f b)"
  proof -
    assume T: "t = Heap (FnType f)"
    have r: "ends (eq (meta_ptr (fs_return_type (fn_sig f))) (meta_ptr (fs_return_type (fn_sig g))))"
      and p: "ends (params_equal eq s (fs_parameters (fn_sig f)) (fs_parameters (fn_sig g)))"
      if g: "produce_obj s b = Inr (Some (Heap (FnType g)))" for g
    proof -
      show "ends (eq (meta_ptr (fs_return_type (fn_sig f))) (meta_ptr (fs_return_type (fn_sig g))))"
        using other [OF g] T by (intro low) (auto simp: components_def intro: less_imp_le)
      show "ends (params_equal eq s (fs_parameters (fn_sig f)) (fs_parameters (fn_sig g)))"
      proof (rule params_equal_ends)
        fix x y v w assume x: "x \<in> set (fs_parameters (fn_sig f))" "y \<in> set (fs_parameters (fn_sig g))"
          and v: "as_var s x = Some v" "as_var s y = Some w"
        have "meta_ptr (vd_type w) \<in> set (components s (Heap (FnType g)))"
          using x v by (force simp: components_def)
        moreover have "meta_ptr (vd_type v) \<in> set (components s t)"
          using x v T by (force simp: components_def)
        ultimately show "ends (eq (meta_ptr (vd_type v)) (meta_ptr (vd_type w)))"
          using other [OF g] by (intro low) (auto intro: less_imp_le)
      qed
    qed
    then show ?thesis
      by (auto simp: fn_is_equal_def Let_def intro!: ends_rbind split: option.split type_obj.split type_body.split)
  qed
qed

text \<open>C26: Comparing two types always ends when no type contains itself: fuel above the sum of
  their ranks is enough, whatever the types are and even where a null pointer is met.\<close>

theorem is_equal_terminates:
  assumes "ranked rk s" and "rk a + rk b < n"
  shows "is_equal n s a b \<noteq> Inl OutOfFuel"
  using assms(2)
proof (induction n arbitrary: a b)
  case (Suc n)
  have eq: "ends (is_equal n s x y)" if "rk x + rk y < rk a + rk b" for x y
    using Suc.IH [of x y] Suc.prems that by (simp add: ends_def)
  have n: "rk b < Suc n" using Suc.prems by simp
  have "ends (is_equal (Suc n) s a b)"
    by (auto simp: the_type_Inr intro!: ends_rbind class_equal_ends [OF assms(1) _ n eq]
        split: type_obj.split type_body.split)
  then show ?case by (simp add: ends_def)
qed simp

text \<open>A pointer to a pointer to \<open>i32\<close>.\<close>

definition two_pointers :: store where
  "two_pointers = \<lparr>nodes = [new_type (PointerType (Static I32_TYPE) ''^i32''), new_type (PointerType (At 0) ''^^i32'')],
     g_attributes = []\<rparr>"

definition pointer_depth :: "ptr \<Rightarrow> nat" where
  "pointer_depth p = (case p of At a \<Rightarrow> Suc a | Static b \<Rightarrow> if b = VOID_POINTER_TYPE then 1 else 0 | Null \<Rightarrow> 0)"

lemma two_pointers_obj:
  "type_obj_at two_pointers (At 0) = Some (Heap (PointerType (Static I32_TYPE) ''^i32''))"
  "type_obj_at two_pointers (At (Suc 0)) = Some (Heap (PointerType (At 0) ''^^i32''))"
  "type_obj_at two_pointers (At (Suc (Suc a))) = None"
  "type_obj_at two_pointers (Static b) = Some (Builtin b)"
  "type_obj_at two_pointers Null = None"
  by (simp_all add: type_obj_at_def as_type_def peek_node_def two_pointers_def new_type_def)

lemma ranked_two_pointers: "ranked pointer_depth two_pointers"
proof -
  have "q \<in> set (components two_pointers t) \<Longrightarrow> pointer_depth q < pointer_depth p"
    if "type_obj_at two_pointers p = Some t" for p t q
  proof (cases p)
    case (At a)
    then show "q \<in> set (components two_pointers t) \<Longrightarrow> pointer_depth q < pointer_depth p"
      using that two_pointers_obj
      by (cases a; cases "a - 1") (auto simp: components_def pointer_depth_def)
  qed (use that two_pointers_obj in \<open>auto simp: components_def pointer_depth_def split: if_splits\<close>)
  then show ?thesis by (simp add: ranked_def pointer_depth_def)
qed

theorem is_equal_terminates_witness:
  "is_equal 5 two_pointers (At 1) (At 1) \<noteq> Inl OutOfFuel"
  by (rule is_equal_terminates [OF ranked_two_pointers]) (simp add: pointer_depth_def)


subsection \<open>A type that contains itself\<close>

text \<open>The node the analyzer leaves for \<open>alias A = ^A\<close>: comparing it never ends.\<close>

definition cyclic_alias :: store where
  "cyclic_alias = \<lparr>nodes =
     [new_type (AliasType (empty_alias\<lparr>al_type := meta_of (At 1)\<rparr>)), new_type (PointerType (At 0) [])],
     g_attributes = []\<rparr>"

lemma cyclic_objects:
  "type_obj_at cyclic_alias (At 0) = Some (Heap (AliasType (empty_alias\<lparr>al_type := meta_of (At 1)\<rparr>)))"
  "type_obj_at cyclic_alias (At 1) = Some (Heap (PointerType (At 0) []))"
  "type_obj_at cyclic_alias (At (Suc 0)) = Some (Heap (PointerType (At 0) []))"
  by (simp_all add: type_obj_at_def as_type_def peek_node_def cyclic_alias_def new_type_def)

lemma cyclic_real:
  "get_real_type cyclic_alias (At 0) = Inr (At 1)" "produce_obj cyclic_alias (At 0) = Inr (Some (Heap (PointerType (At 0) [])))"
  "produce_obj cyclic_alias (At (Suc 0)) = Inr (Some (Heap (PointerType (At 0) [])))"
  by (simp_all add: get_real_type_def produce_obj_def produce_type_def the_type_def cyclic_objects
        alias_target_def meta_of_def empty_alias_def)

lemma cyclic_equality_diverges:
  "is_equal n cyclic_alias (At 0) (At 0) = Inl OutOfFuel \<and>
   is_equal n cyclic_alias (At 1) (At 1) = Inl OutOfFuel"
proof (induction n)
  case (Suc n)
  then show ?case
    by (auto simp: the_type_def cyclic_objects alias_is_equal_def pointer_is_equal_def cyclic_real
          empty_alias_def meta_of_def)
qed simp

subsection \<open>What equality decides\<close>

text \<open>The types on which equality is meant to be identity: all but arrays, packed arguments, \<open>void\<close>
  pointers, aliases and anonymous structs. \<open>denotes s p t\<close>: \<open>p\<close> leads to the type \<open>t\<close>.\<close>

datatype plain_type =
    Basic static_type
  | Ptr plain_type
  | Slice plain_type
  | Named nat
  | Fun plain_type "(plain_type \<times> 32 word) list"

fun denotes :: "'s store_scheme \<Rightarrow> ptr \<Rightarrow> plain_type \<Rightarrow> bool"
  and denote_all :: "'s store_scheme \<Rightarrow> ptr list \<Rightarrow> (plain_type \<times> 32 word) list \<Rightarrow> bool" where
  "denotes s p (Basic b) = (p = Static b \<and> b \<noteq> VOID_POINTER_TYPE \<and> b \<noteq> PACKED_TYPE)"
| "denotes s p (Ptr t) = (t \<noteq> Basic VOID_TYPE \<and>
     (case type_obj_at s p of Some (Heap (PointerType q _)) \<Rightarrow> denotes s q t | _ \<Rightarrow> False))"
| "denotes s p (Slice t) =
     (case type_obj_at s p of Some (Heap (SliceType q _)) \<Rightarrow> denotes s q t | _ \<Rightarrow> False)"
| "denotes s p (Named i) = (p = At i \<and>
     (case type_obj_at s p of
        Some (Heap (StructType st)) \<Rightarrow> sy_name (stt_symbol st) \<noteq> [] | Some (Heap (EnumType _)) \<Rightarrow> True | _ \<Rightarrow> False))"
| "denotes s p (Fun t ts) =
     (case type_obj_at s p of
        Some (Heap (FnType f)) \<Rightarrow>
          denotes s (meta_ptr (fs_return_type (fn_sig f))) t \<and> denote_all s (fs_parameters (fn_sig f)) ts
      | _ \<Rightarrow> False)"
| "denote_all s (q # qs) ((t, m) # ts) =
     ((case as_var s q of Some v \<Rightarrow> denotes s (meta_ptr (vd_type v)) t \<and> mut_set (vd_type v) = m | None \<Rightarrow> False) \<and>
      denote_all s qs ts)"
| "denote_all s [] [] = True"
| "denote_all s _ _ = False"

definition sort_of :: "plain_type \<Rightarrow> type_obj \<Rightarrow> bool" where
  "sort_of t ob \<longleftrightarrow>
     (case ob of
        Builtin b \<Rightarrow> t = Basic b \<and> b \<noteq> VOID_POINTER_TYPE \<and> b \<noteq> PACKED_TYPE
      | Heap (PointerType _ _) \<Rightarrow> (\<exists>u. t = Ptr u)
      | Heap (SliceType _ _) \<Rightarrow> (\<exists>u. t = Slice u)
      | Heap (StructType st) \<Rightarrow> sy_name (stt_symbol st) \<noteq> [] \<and> (\<exists>i. t = Named i)
      | Heap (EnumType _) \<Rightarrow> (\<exists>i. t = Named i)
      | Heap (FnType _) \<Rightarrow> (\<exists>u us. t = Fun u us)
      | _ \<Rightarrow> False)"

lemma denotes_obj:
  assumes "denotes s p t"
  obtains ob where "type_obj_at s p = Some ob" "sort_of t ob"
  using assms
  by (cases t) (auto simp: sort_of_def type_obj_at_def split: option.splits type_obj.splits type_body.splits)

lemma sort_no_alias: "sort_of t ob \<Longrightarrow> alias_target ob = None"
  by (auto simp: sort_of_def alias_target_def split: type_obj.splits type_body.splits)

lemma denotes_produce:
  "type_obj_at s p = Some ob \<Longrightarrow> sort_of t ob \<Longrightarrow> produce_obj s p = Inr (Some ob)"
  by (auto simp: produce_obj_def produce_type_def get_real_type_def the_type_def sort_no_alias
        type_obj_at_def as_type_def peek_node_def)

lemma denotes_virtual:
  "type_obj_at s p = Some ob \<Longrightarrow> sort_of t ob \<Longrightarrow> virtual (Suc n) s p f = f ob"
  by (simp add: virtual_def the_type_def sort_no_alias)

lemma integral_identity:
  assumes "static_integral b = Some i" "static_integral c = Some j" "static_kind b = static_kind c"
    and "it_bits i = it_bits j" "it_is_signed i = it_is_signed j"
    and "b \<noteq> VOID_POINTER_TYPE" "c \<noteq> VOID_POINTER_TYPE"
  shows "b = c"
  using assms by (cases b; cases c) auto

lemma denote_all_length: "denote_all s ps ts \<Longrightarrow> length ps = length ts"
  by (induction ps arbitrary: ts) (auto elim: denote_all.elims)

lemma params_equal_exact:
  assumes "denote_all s ps ts" "denote_all s qs us" "length ts = length us"
    and "\<And>p q t u m m'. (t, m) \<in> set ts \<Longrightarrow> (u, m') \<in> set us \<Longrightarrow> denotes s p t \<Longrightarrow> denotes s q u \<Longrightarrow> eq p q = Inr (t = u)"
  shows "params_equal eq s ps qs = Inr (ts = us)"
  using assms
proof (induction ps arbitrary: ts qs us)
  case Nil
  then show ?case by (auto dest: denote_all_length)
next
  case (Cons p ps)
  obtain t m ts' where ts: "ts = (t, m) # ts'" using Cons.prems(1) by (auto elim: denote_all.elims)
  obtain u k us' where us: "us = (u, k) # us'" using Cons.prems(3) ts by (cases us) auto
  obtain q qs' where qs: "qs = q # qs'" using Cons.prems(2) us by (auto elim: denote_all.elims)
  obtain v w where v: "as_var s p = Some v" "denotes s (meta_ptr (vd_type v)) t" "mut_set (vd_type v) = m"
    and w: "as_var s q = Some w" "denotes s (meta_ptr (vd_type w)) u" "mut_set (vd_type w) = k"
    using Cons.prems(1,2) ts us qs by (auto split: option.splits)
  have "params_equal eq s ps qs' = Inr (ts' = us')"
  proof (rule Cons.IH)
    show "denote_all s ps ts'" "denote_all s qs' us'" "length ts' = length us'"
      using Cons.prems(1-3) ts us qs by auto
    show "eq p q = Inr (t = u)"
      if "(t, m) \<in> set ts'" "(u, m') \<in> set us'" "denotes s p t" "denotes s q u" for p q t u m m'
      using that ts us by (intro Cons.prems(4)) auto
  qed
  moreover have "eq (meta_ptr (vd_type v)) (meta_ptr (vd_type w)) = Inr (t = u)"
    using ts us v w by (intro Cons.prems(4) [of t m u k]) auto
  ultimately show ?case using v w ts us qs by auto
qed

lemma basic_equal:
  assumes "type_obj_at s q = Some b" "sort_of u b" "c \<noteq> VOID_POINTER_TYPE" "c \<noteq> PACKED_TYPE"
  shows "builtin_is_equal eq s c q = Inr (Basic c = u)"
proof (cases b)
  case (Builtin d)
  then have "u = Basic d" "d \<noteq> VOID_POINTER_TYPE" using assms(2) by (auto simp: sort_of_def)
  then show ?thesis using assms(1,3,4) Builtin
    by (cases c; cases d) (simp_all add: builtin_is_equal_def class_is_def integral_is_equal_def kind_of_def integral_of_def)
next
  case (Heap h)
  then show ?thesis using assms
    by (cases c; cases h) (auto simp: builtin_is_equal_def class_is_def integral_is_equal_def kind_of_def sort_of_def)
qed

lemma static_no_array: "static_kind b \<noteq> Kind_Array" "static_kind b \<noteq> Kind_Slice"
  by (cases b; simp)+

lemma named_identity:
  assumes "denotes s p (Named i)" "denotes s q u"
  shows "p = q \<longleftrightarrow> Named i = u"
proof
  assume "p = q"
  then show "Named i = u"
    using assms by (cases u) (auto split: option.splits type_obj.splits type_body.splits)
qed (use assms in auto)

text \<open>C4: On the types made of the builtin types but the untyped pointer and the packed argument, named structs,
  enums, pointers to anything but \<open>void\<close>, slices and functions, \<open>is_equal\<close> decides whether the two types are the same
  type, mutability of the parameters of functions included, when the fuel is above the sizes of the
  types. Arrays, packed arguments, pointers to \<open>void\<close>, aliases and anonymous structs are no such types, also not as
  parts of others.\<close>

theorem is_equal_exact:
  assumes "denotes s p t" and "denotes s q u" and "size t < n" and "size u < n"
  shows "is_equal n s p q = Inr (t = u)"
  using assms
proof (induction n arbitrary: p q t u)
  case (Suc n)
  obtain a where a: "type_obj_at s p = Some a" "sort_of t a" by (rule denotes_obj [OF Suc.prems(1)])
  obtain b where b: "type_obj_at s q = Some b" "sort_of u b" by (rule denotes_obj [OF Suc.prems(2)])
  note P = denotes_produce [OF b]
  note simps = the_type_def a(1) b(1) P
  have zero: "denotes s (Static VOID_TYPE) (Basic VOID_TYPE)" by simp
  show ?case
  proof (cases t)
    case (Basic c)
    then show ?thesis using a(2) Suc.prems(1) basic_equal [OF b]
      by (auto simp: the_type_def type_obj_at_def)
  next
    case (Ptr t')
    then obtain i nm where A: "type_obj_at s p = Some (Heap (PointerType i nm))" "denotes s i t'" "t' \<noteq> Basic VOID_TYPE"
      using Suc.prems(1) by (auto split: option.splits type_obj.splits type_body.splits)
    have "pointer_is_equal (is_equal n s) s i q = Inr (t = u)"
    proof (cases u)
      case (Ptr u')
      then obtain j nm' where B: "type_obj_at s q = Some (Heap (PointerType j nm'))" "denotes s j u'" "u' \<noteq> Basic VOID_TYPE"
        using Suc.prems(2) by (auto split: option.splits type_obj.splits type_body.splits)
      have "is_equal n s i j = Inr (t' = u')" "is_equal n s j (Static VOID_TYPE) = Inr False"
        "is_equal n s i (Static VOID_TYPE) = Inr False"
        using Suc.IH [OF A(2) B(2)] Suc.IH [OF B(2) zero] Suc.IH [OF A(2) zero] A(3) B(3)
          Suc.prems(3,4) \<open>t = Ptr t'\<close> Ptr by auto
      then show ?thesis using B(1) b P \<open>t = Ptr t'\<close> Ptr by (simp add: pointer_is_equal_def)
    qed (use b P \<open>t = Ptr t'\<close> in \<open>auto simp: pointer_is_equal_def sort_of_def split: type_obj.splits type_body.splits\<close>)
    then show ?thesis using A(1) by (simp add: the_type_def)
  next
    case (Slice t')
    then obtain i nm where A: "type_obj_at s p = Some (Heap (SliceType i nm))" "denotes s i t'"
      using Suc.prems(1) by (auto split: option.splits type_obj.splits type_body.splits)
    have "slice_is_equal (Suc n) (is_equal n s) s i q = Inr (t = u)"
    proof (cases u)
      case (Slice u')
      then obtain j nm' where B: "type_obj_at s q = Some (Heap (SliceType j nm'))" "denotes s j u'"
        using Suc.prems(2) by (auto split: option.splits type_obj.splits type_body.splits)
      have "is_equal n s i j = Inr (t' = u')"
        using Suc.IH [OF A(2) B(2)] Suc.prems(3,4) \<open>t = Slice t'\<close> Slice by auto
      then show ?thesis using B(1) b(1) \<open>t = Slice t'\<close> Slice
        unfolding slice_is_equal_def is_array_def get_inner_def denotes_virtual [OF b]
        by (simp add: kind_of_def inner_of_def)
    qed (unfold slice_is_equal_def is_array_def denotes_virtual [OF b], use b \<open>t = Slice t'\<close> in
        \<open>auto simp: kind_of_def sort_of_def static_no_array split: type_obj.splits type_body.splits\<close>)
    then show ?thesis using A(1) by (simp add: the_type_def)
  next
    case (Named i)
    have N: "(p = q) = (t = u)" using named_identity Suc.prems(1,2) Named by blast
    show ?thesis using a b P N Named
      by (auto simp: the_type_def sort_of_def struct_is_equal_def split: type_obj.splits type_body.splits)
  next
    case (Fun t' ts)
    then obtain f where A: "type_obj_at s p = Some (Heap (FnType f))" "denotes s (meta_ptr (fs_return_type (fn_sig f))) t'"
      "denote_all s (fs_parameters (fn_sig f)) ts"
      using Suc.prems(1) by (auto split: option.splits type_obj.splits type_body.splits)
    have "fn_is_equal (is_equal n s) s f q = Inr (t = u)"
    proof (cases u)
      case (Fun u' us)
      then obtain g where B: "type_obj_at s q = Some (Heap (FnType g))" "denotes s (meta_ptr (fs_return_type (fn_sig g))) u'"
        "denote_all s (fs_parameters (fn_sig g)) us"
        using Suc.prems(2) by (auto split: option.splits type_obj.splits type_body.splits)
      have R: "is_equal n s (meta_ptr (fs_return_type (fn_sig f))) (meta_ptr (fs_return_type (fn_sig g))) = Inr (t' = u')"
        using Suc.IH [OF A(2) B(2)] Suc.prems(3,4) \<open>t = Fun t' ts\<close> Fun by auto
      have S: "size x < n" if "(x, m) \<in> set vs" "size (Fun v vs) < Suc n" for x m v vs
        using that by (induction vs) auto
      have "params_equal (is_equal n s) s (fs_parameters (fn_sig f)) (fs_parameters (fn_sig g)) = Inr (ts = us)"
        if "length ts = length us"
        using S Suc.prems(3,4) \<open>t = Fun t' ts\<close> Fun that
        by (intro params_equal_exact [OF A(3) B(3)] Suc.IH) blast+
      then show ?thesis using B b P R \<open>t = Fun t' ts\<close> Fun denote_all_length [OF A(3)] denote_all_length [OF B(3)]
        by (auto simp: fn_is_equal_def Let_def)
    qed (use b P \<open>t = Fun t' ts\<close> in \<open>auto simp: fn_is_equal_def sort_of_def split: type_obj.splits type_body.splits\<close>)
    then show ?thesis using A(1) by (simp add: the_type_def)
  qed
qed simp

theorem is_equal_exact_witness:
  "is_equal 3 two_pointers (At 1) (At 1) = Inr True \<and> is_equal 3 two_pointers (At 1) (At 0) = Inr False"
proof -
  have d: "denotes two_pointers (At 1) (Ptr (Ptr (Basic I32_TYPE)))" "denotes two_pointers (At 0) (Ptr (Basic I32_TYPE))"
    by (simp_all add: two_pointers_obj)
  show ?thesis
    using is_equal_exact [OF d(1) d(1), of 3] is_equal_exact [OF d, of 3] by simp
qed

subsection \<open>Where equality is not identity\<close>

lemma the_type_obj: "type_obj_at s p = Some t \<Longrightarrow> the_type s p = Inr t"
  by (simp add: the_type_def)

lemma produce_obj_direct:
  "type_obj_at s p = Some t \<Longrightarrow> alias_target t = None \<Longrightarrow> produce_obj s p = Inr (Some t)"
  by (auto simp: produce_obj_def produce_type_def get_real_type_def the_type_def type_obj_at_def as_type_def peek_node_def)

text \<open>Arrays of one size are equal, whatever their elements are.\<close>

lemma arrays_equal_by_size:
  assumes "type_obj_at s p = Some (Heap (ArrayType a))" "type_obj_at s q = Some (Heap (ArrayType b))"
    and "ar_size a = ar_size b"
  shows "is_equal (Suc n) s p q = Inr True"
  using assms by (simp add: the_type_obj array_is_equal_def produce_obj_direct alias_target_def)

text \<open>An alias of an integer type is equal to the type, the type is not equal to the alias.\<close>

lemma alias_equality_one_sided:
  assumes "type_obj_at s p = Some (Heap (AliasType a))" "al_type a = meta_of (Static I32_TYPE)" "\<not> al_is_distinct a"
  shows "is_equal (Suc (Suc n)) s p (Static I32_TYPE) = Inr True"
    and "is_equal (Suc n) s (Static I32_TYPE) p = Inr False"
  using assms
  by (simp_all add: the_type_obj alias_is_equal_def get_real_type_def type_obj_at_def alias_target_def meta_of_def
        builtin_is_equal_def integral_is_equal_def kind_of_def integral_of_def)

subsection \<open>Assignment and the limits of the integer types\<close>

definition number_types :: "static_type list" where
  "number_types = [I8_TYPE, U8_TYPE, I16_TYPE, U16_TYPE, I32_TYPE, U32_TYPE, I64_TYPE, U64_TYPE,
     F32_TYPE, F64_TYPE, BOOL_TYPE, CHAR_TYPE, UCHAR_TYPE]"

lemma number_integral:
  assumes "a \<in> set number_types"
  obtains i where "static_integral a = Some i" "a \<noteq> STR_TYPE" "a \<noteq> VOID_POINTER_TYPE" "a \<noteq> PACKED_TYPE"
  using assms by (cases a) (auto simp: number_types_def)

lemma number_can_coerce:
  assumes "a \<in> set number_types" "b \<in> set number_types"
    and "static_integral a = Some i" "static_integral b = Some j"
  shows "can_coerce_into (Suc n) s (Static a) (Static b) =
    Inr (it_bits i \<le> it_bits j \<or> (it_bits i = it_bits j \<and> it_is_signed i = it_is_signed j))"
proof -
  obtain i' where a: "static_integral a = Some i'" "a \<noteq> STR_TYPE" "a \<noteq> VOID_POINTER_TYPE"
    using assms(1) by (rule number_integral)
  have o: "type_obj_at s (Static x) = Some (Builtin x)" for x by (simp add: type_obj_at_def)
  have p: "produce_obj s (Static b) = Inr (Some (Builtin b))"
    by (rule produce_obj_direct [OF o]) (simp add: alias_target_def)
  show ?thesis using a assms(3,4)
    by (simp add: can_coerce_into_def virtual_def the_type_obj [OF o] alias_target_def
          integral_can_coerce_def p integral_of_def)
qed

text \<open>A variable of any number type (integers, floats, \<open>bool\<close> and characters) can be initialised
  with a value of any other: of two widths one coerces into the other, and the check accepts
  either direction, so it never refuses to narrow.\<close>

theorem numbers_all_assignable:
  assumes "a \<in> set number_types" and "b \<in> set number_types"
  shows "is_assignable_from (Suc n) s (Static a) (Static b) = Inr True"
proof -
  obtain i j where ij: "static_integral a = Some i" "static_integral b = Some j"
    and ok: "a \<noteq> VOID_POINTER_TYPE" "a \<noteq> PACKED_TYPE" "a \<noteq> STR_TYPE" "b \<noteq> VOID_POINTER_TYPE" "b \<noteq> PACKED_TYPE" "b \<noteq> STR_TYPE"
    using assms by (metis number_integral)
  obtain x where x: "is_equal (Suc n) s (Static a) (Static b) = Inr x"
    using ij ok by (simp add: the_type_def type_obj_at_def builtin_is_equal_def)
  obtain y where y: "is_equal (Suc n) s (Static b) (Static a) = Inr y"
    using ij ok by (simp add: the_type_def type_obj_at_def builtin_is_equal_def)
  have "it_bits i \<le> it_bits j \<or> it_bits j \<le> it_bits i" by (rule linear)
  then show ?thesis
    unfolding is_assignable_from_def check_type_equality_def x y
      number_can_coerce [OF assms(2,1) ij(2,1)] number_can_coerce [OF assms ij]
    by (auto simp: ror_def)
qed

theorem numbers_all_assignable_witness:
  "is_assignable_from 1 two_pointers (Static I64_TYPE) (Static I8_TYPE) = Inr True"
  using numbers_all_assignable [of I64_TYPE I8_TYPE 0 two_pointers] by (simp add: number_types_def)

definition integer_types :: "static_type list" where
  "integer_types = [I8_TYPE, U8_TYPE, I16_TYPE, U16_TYPE, I32_TYPE, U32_TYPE, I64_TYPE]"

fun int_bits :: "static_type \<Rightarrow> nat" where
  "int_bits I8_TYPE = 8" | "int_bits U8_TYPE = 8" | "int_bits I16_TYPE = 16" | "int_bits U16_TYPE = 16"
| "int_bits I32_TYPE = 32" | "int_bits U32_TYPE = 32" | "int_bits _ = 64"

text \<open>C27: The properties \<open>min\<close> and \<open>max\<close> of the integer types (but \<open>u64\<close>, whose limit is an
  undefined conversion): read with the sign and at the width of the type, \<open>max\<close> is the greatest
  value; \<open>min\<close> is 0 for an unsigned type, and one more than the least value for a signed one.\<close>

theorem integer_limits:
  assumes "t \<in> set integer_types"
  defines "i \<equiv> the (static_integral t)"
  defines "b \<equiv> int_bits t"
  shows "\<exists>lo hi. integral_get_property i ''min'' = Inr (Some (Constant lo)) \<and>
    integral_get_property i ''max'' = Inr (Some (Constant hi)) \<and>
    (if it_is_signed i
     then signed_take_bit (b - 1) (uint hi) = 2 ^ (b - 1) - 1 \<and> signed_take_bit (b - 1) (uint lo) = - (2 ^ (b - 1)) + 1
     else uint hi = 2 ^ b - 1 \<and> uint lo = 0)"
  using assms
  by (auto simp: integer_types_def integral_get_property_def integral_limit_def Let_def)

theorem integer_limits_witness:
  "integral_get_property (the (static_integral I8_TYPE)) ''min'' = Inr (Some (Constant 129)) \<and>
   signed_take_bit 7 (uint (129 :: 64 word)) = - 127"
  using integer_limits [of I8_TYPE]
  by (simp add: integer_types_def integral_get_property_def integral_limit_def Let_def)

lemma u64_limit_undefined:
  "integral_get_property (the (static_integral U64_TYPE)) ''max'' = Inl (Undefined ''conversion of a double'')"
  by (simp add: integral_get_property_def integral_limit_def)

end
