(* ===== verification/Analysis.thy ===== *)
theory Analysis
  imports Types Files
begin

unbundle bit_operations_syntax

section \<open>What the analyzer works on (\<open>analyzer.hpp\<close>, \<open>visitor.hpp\<close>, \<open>parse_ctx.hpp\<close>)\<close>

text \<open>
  The state of the analyzer of one module: the nodes, the symbols and the scope table of the
  frontend, the stack of the functions it is in, the depth of the expression it is in (a
  \<open>u8\<close>), and the list of named arguments, which is one for the whole thread. What all modules
  share is threaded along: the scope tables of the modules read so far by the number of their
  file, the table of modules by path, the files and the buffer of the lexer.

  Visits change the nodes in place and return the node to put in the place of the visited one
  (often ignored). A visit through a null pointer is the error \<open>Undefined\<close>.
\<close>

record analyzer = front +
  an_function_stack :: "ptr list"
  an_expr_depth :: "8 word"
  an_named_replace_list :: "(ptr \<times> nat) list"
  an_modules :: "(nat \<times> scope_table) list"
  an_module_table :: "(string, nat) hash_map"
  an_files :: files
  an_escape_buffer :: arena
  an_cell :: ptr

type_synonym 'a an = "(analyzer, exn, 'a) comp"

text \<open>\<open>VisitCtx\<close>; \<open>result\<close> is the address of the pointer to replace: its content is kept in
  \<open>an_cell\<close> while the visit runs. \<open>scope_table_override\<close> is the module whose table is used.\<close>

record visit_ctx =
  vc_type :: ptr
  vc_invoker :: ptr
  vc_result :: bool
  vc_member :: bool
  vc_depth :: "8 word"
  vc_override :: "nat option"

definition empty_ctx :: visit_ctx where
  "empty_ctx = \<lparr>vc_type = Null, vc_invoker = Null, vc_result = False, vc_member = False, vc_depth = 0,
     vc_override = None\<rparr>"

definition typed_ctx :: "ptr \<Rightarrow> visit_ctx" where
  "typed_ctx p = empty_ctx\<lparr>vc_type := p\<rparr>"

definition new_ctx :: "ptr \<Rightarrow> visit_ctx \<Rightarrow> ptr \<Rightarrow> visit_ctx" where
  "new_ctx invoker ctx type_override =
     \<lparr>vc_type = type_override, vc_invoker = invoker, vc_result = False, vc_member = vc_member ctx,
      vc_depth = 0, vc_override = vc_override ctx\<rparr>"

text \<open>What a visit calls back: \<open>accept\<close> of any node, \<open>get_module\<close>, and the arithmetic of \<open>float\<close>
  the evaluator of constants uses.\<close>

record visitor =
  v_fuel :: nat
  v_accept :: "ptr \<Rightarrow> visit_ctx \<Rightarrow> ptr an"
  v_get_module :: "string list \<Rightarrow> nat option an"
  v_float_op :: "TokenType \<Rightarrow> literal_value \<Rightarrow> literal_value \<Rightarrow> literal_value"

subsection \<open>Steps\<close>

definition ask :: "(analyzer \<Rightarrow> 'a result) \<Rightarrow> 'a an" where
  "ask q = (\<lambda>s. rbind (q s) (\<lambda>x. Inr (x, s)))"

definition null_deref :: "'a an" where
  "null_deref = fail (Undefined ''null pointer'')"

primrec each :: "('x \<Rightarrow> unit an) \<Rightarrow> 'x list \<Rightarrow> unit an" where
  "each f [] = ret ()"
| "each f (x # xs) = bnd (f x) (\<lambda>_. each f xs)"

definition change :: "ptr \<Rightarrow> (node \<Rightarrow> node) \<Rightarrow> unit an" where
  "change p f = modify (poke_node p f)"

definition make :: "node \<Rightarrow> ptr an" where
  "make n = (\<lambda>s. Inr (alloc n s))"

definition only_if :: "bool \<Rightarrow> unit an \<Rightarrow> unit an" where
  "only_if b m = (if b then m else ret ())"

text \<open>The casts, where the code uses the result without a test.\<close>

definition the_expr :: "ptr \<Rightarrow> expr_node an" where
  "the_expr p = ask (\<lambda>s. case as_expr s p of Some e \<Rightarrow> Inr e | None \<Rightarrow> null_pointer)"

definition the_stmt :: "ptr \<Rightarrow> stmt_body an" where
  "the_stmt p = ask (\<lambda>s. case as_stmt s p of Some e \<Rightarrow> Inr (st_body e) | None \<Rightarrow> null_pointer)"

definition the_var :: "ptr \<Rightarrow> var_decl an" where
  "the_var p = ask (\<lambda>s. case as_var s p of Some e \<Rightarrow> Inr e | None \<Rightarrow> null_pointer)"

definition the_fn :: "ptr \<Rightarrow> fn_type an" where
  "the_fn p = ask (\<lambda>s. case as_fn s p of Some e \<Rightarrow> Inr e | None \<Rightarrow> null_pointer)"

definition token_of :: "ptr \<Rightarrow> token an" where
  "token_of p = gets (\<lambda>s. case peek_node s p of Some n \<Rightarrow> node_token n | None \<Rightarrow> empty_token)"

definition type_of :: "ptr \<Rightarrow> ptr an" where
  "type_of p = bnd (the_expr p) (\<lambda>e. ret (ex_type e))"

definition body_of :: "ptr \<Rightarrow> expr_body an" where
  "body_of p = bnd (the_expr p) (\<lambda>e. ret (ex_body e))"

definition upd_expr :: "(expr_node \<Rightarrow> expr_node) \<Rightarrow> node \<Rightarrow> node" where
  "upd_expr f n = (case n of NExpr e \<Rightarrow> NExpr (f e) | _ \<Rightarrow> n)"

definition upd_var :: "(var_decl \<Rightarrow> var_decl) \<Rightarrow> node \<Rightarrow> node" where
  "upd_var f n = (case n of
     NStmt e \<Rightarrow> (case st_body e of VarDeclStmt v \<Rightarrow> NStmt (e\<lparr>st_body := VarDeclStmt (f v)\<rparr>) | _ \<Rightarrow> n) | _ \<Rightarrow> n)"

definition put_type :: "ptr \<Rightarrow> ptr \<Rightarrow> unit an" where
  "put_type p t = change p (upd_expr (\<lambda>e. e\<lparr>ex_type := t\<rparr>))"

definition put_mut_set :: "ptr \<Rightarrow> 32 word \<Rightarrow> unit an" where
  "put_mut_set p m = change p (upd_expr (\<lambda>e. e\<lparr>ex_mut_set := m\<rparr>))"

definition add_flags :: "ptr \<Rightarrow> 8 word \<Rightarrow> unit an" where
  "add_flags p f = change p (upd_expr (\<lambda>e. e\<lparr>ex_flags := ex_flags e OR f\<rparr>))"

definition put_body :: "ptr \<Rightarrow> expr_body \<Rightarrow> unit an" where
  "put_body p b = change p (set_expr_body b)"

definition upd_stmt :: "(stmt_body \<Rightarrow> stmt_body) \<Rightarrow> node \<Rightarrow> node" where
  "upd_stmt f n = (case n of NStmt e \<Rightarrow> NStmt (e\<lparr>st_body := f (st_body e)\<rparr>) | _ \<Rightarrow> n)"

definition change_stmt :: "ptr \<Rightarrow> (stmt_body \<Rightarrow> stmt_body) \<Rightarrow> unit an" where
  "change_stmt p f = change p (upd_stmt f)"

definition change_type :: "ptr \<Rightarrow> (type_body \<Rightarrow> type_body) \<Rightarrow> unit an" where
  "change_type p f = change p (upd_type f)"

text \<open>Assignments to the members of statements and types.\<close>

definition set_condition :: "ptr \<Rightarrow> stmt_body \<Rightarrow> stmt_body" where
  "set_condition c b = (case b of IfStmt _ x e \<Rightarrow> IfStmt c x e | WhileStmt _ x \<Rightarrow> WhileStmt c x | _ \<Rightarrow> b)"

definition set_iterable :: "ptr \<Rightarrow> stmt_body \<Rightarrow> stmt_body" where
  "set_iterable e b = (case b of ForStmt vs _ x \<Rightarrow> ForStmt vs e x | _ \<Rightarrow> b)"

definition set_lhs :: "ptr \<Rightarrow> stmt_body \<Rightarrow> stmt_body" where
  "set_lhs e b = (case b of AssignmentStmt _ r op \<Rightarrow> AssignmentStmt e r op | _ \<Rightarrow> b)"

definition set_rhs :: "ptr \<Rightarrow> stmt_body \<Rightarrow> stmt_body" where
  "set_rhs e b = (case b of AssignmentStmt l _ op \<Rightarrow> AssignmentStmt l e op | _ \<Rightarrow> b)"

definition set_module :: "nat option \<Rightarrow> stmt_body \<Rightarrow> stmt_body" where
  "set_module m b = (case b of ImportStmt im \<Rightarrow> ImportStmt (im\<lparr>im_module := m\<rparr>) | _ \<Rightarrow> b)"

definition set_returned :: "ptr \<Rightarrow> stmt_body \<Rightarrow> stmt_body" where
  "set_returned e b = (case b of ReturnStmt _ \<Rightarrow> ReturnStmt e | _ \<Rightarrow> b)"

definition set_impl_type :: "ptr \<Rightarrow> stmt_body \<Rightarrow> stmt_body" where
  "set_impl_type t b = (case b of ImplStmt symb _ ms \<Rightarrow> ImplStmt symb t ms | _ \<Rightarrow> b)"

definition set_array :: "(array_type \<Rightarrow> array_type) \<Rightarrow> type_body \<Rightarrow> type_body" where
  "set_array f b = (case b of ArrayType ar \<Rightarrow> ArrayType (f ar) | _ \<Rightarrow> b)"

definition set_struct :: "(struct_type \<Rightarrow> struct_type) \<Rightarrow> type_body \<Rightarrow> type_body" where
  "set_struct f b = (case b of StructType st \<Rightarrow> StructType (f st) | _ \<Rightarrow> b)"

definition set_alias :: "(alias_type \<Rightarrow> alias_type) \<Rightarrow> type_body \<Rightarrow> type_body" where
  "set_alias f b = (case b of AliasType al \<Rightarrow> AliasType (f al) | _ \<Rightarrow> b)"

definition set_impl_of :: "ptr \<Rightarrow> type_body \<Rightarrow> type_body" where
  "set_impl_of impl b =
     (case b of
        AliasType al \<Rightarrow> AliasType (al\<lparr>al_impl := impl\<rparr>)
      | StructType st \<Rightarrow> StructType (st\<lparr>stt_impl := impl\<rparr>)
      | EnumType en \<Rightarrow> EnumType (en\<lparr>en_impl := impl\<rparr>)
      | _ \<Rightarrow> b)"

definition is_expr :: "'s store_scheme \<Rightarrow> ptr \<Rightarrow> bool" where
  "is_expr s p = (as_expr s p \<noteq> None)"

definition is_stmt :: "'s store_scheme \<Rightarrow> ptr \<Rightarrow> bool" where
  "is_stmt s p = (as_stmt s p \<noteq> None)"

definition is_type :: "'s store_scheme \<Rightarrow> ptr \<Rightarrow> bool" where
  "is_type s p = (type_obj_at s p \<noteq> None)"

text \<open>\<open>dyn_cast<Expr>\<close> and \<open>to_type\<close> of a result.\<close>

definition expr_or_null :: "ptr \<Rightarrow> ptr an" where
  "expr_or_null p = gets (\<lambda>s. if is_expr s p then p else Null)"

subsection \<open>Scopes\<close>

definition change_scopes :: "(scope_table \<Rightarrow> scope_table) \<Rightarrow> unit an" where
  "change_scopes f = modify (\<lambda>s. s\<lparr>scopes := f (scopes s)\<rparr>)"

text \<open>\<open>auto scope = scope_table.new_scope()\<close> for the rest of a function.\<close>

definition with_scope :: "'a an \<Rightarrow> 'a an" where
  "with_scope m = bnd (change_scopes go_down) (\<lambda>_. bnd m (\<lambda>x. bnd (change_scopes go_up) (\<lambda>_. ret x)))"

definition level_now :: "16 word an" where
  "level_now = gets (\<lambda>s. m_level (scopes s))"

definition declare_name :: "symbol \<Rightarrow> ptr \<Rightarrow> bool \<Rightarrow> nat option \<Rightarrow> unit an" where
  "declare_name symb p is_public level = modify (add_to_scope symb p is_public level)"

definition scope_flags :: "(scope_table \<Rightarrow> 32 word option) \<Rightarrow> 32 word an" where
  "scope_flags f = ask (\<lambda>s. case f (scopes s) of Some w \<Rightarrow> Inr w | None \<Rightarrow> Inl (Undefined ''scope out of range''))"

definition current_flags :: "32 word an" where "current_flags = scope_flags get_current_flags"
definition lower_flags :: "32 word an" where "lower_flags = scope_flags get_lower_flags"

definition has_return :: "32 word \<Rightarrow> bool" where
  "has_return w = (w AND SF_HasReturn \<noteq> 0)"

definition mark_return :: "unit an" where
  "mark_return = bnd current_flags (\<lambda>w. change_scopes (set_current_flags (w OR SF_HasReturn)))"

text \<open>The scope table of a module, by the number of its file.\<close>

definition module_table :: "analyzer \<Rightarrow> nat \<Rightarrow> scope_table option" where
  "module_table s i =
     (if i = unat (m_scope_file_id (scopes s)) then Some (scopes s) else map_of (an_modules s) i)"

definition the_table :: "nat option \<Rightarrow> scope_table an" where
  "the_table override = ask (\<lambda>s.
     case override of
       None \<Rightarrow> Inr (scopes s)
     | Some i \<Rightarrow> (case module_table s i of Some t \<Rightarrow> Inr t | None \<Rightarrow> null_pointer))"

text \<open>\<open>Analyzer::find_symbol\<close>\<close>

definition lookup :: "string \<Rightarrow> token \<Rightarrow> nat option \<Rightarrow> bool \<Rightarrow> ptr an" where
  "lookup name error_token table_override permissive =
     bnd (the_table table_override) (\<lambda>t.
     bnd (gets (\<lambda>s. find_symbol (s\<lparr>scopes := t\<rparr>) name)) (\<lambda>p.
     if p = Null \<and> \<not> permissive
     then throw_formatted error_token (''unknown symbol '' @ squote # ''{}'' @ [squote]) [name]
     else ret p))"

text \<open>\<open>Analyzer::get_type\<close>\<close>

definition lookup_type :: "string \<Rightarrow> token \<Rightarrow> ptr an" where
  "lookup_type name error_token =
     bnd (gets (\<lambda>s. let p = find_symbol s name in if is_type s p then p else Null)) (\<lambda>p.
     if p = Null
     then throw_formatted error_token (''unknown type name '' @ squote # ''{}'' @ [squote]) [name]
     else ret p)"

subsection \<open>Questions to an expression\<close>

text \<open>\<open>get_symbol\<close>: the name an expression starts with.\<close>

fun symbol_of :: "nat \<Rightarrow> 's store_scheme \<Rightarrow> ptr \<Rightarrow> string result" where
  "symbol_of 0 s p = Inl OutOfFuel"
| "symbol_of (Suc n) s p =
     (case as_expr s p of
        None \<Rightarrow> null_pointer
      | Some e \<Rightarrow>
          (case ex_body e of
             LiteralExpr _ \<Rightarrow> Inr (tk_lexeme (ex_token e))
           | SymbolExpr node name \<Rightarrow> if is_type s node then get_type_name s (ex_type e) else Inr name
           | CallExpr callable _ \<Rightarrow> symbol_of n s callable
           | GroupExpr inner \<Rightarrow> symbol_of n s inner
           | MemberAccessExpr target _ _ _ \<Rightarrow> symbol_of n s target
           | IndexOpExpr lhs _ \<Rightarrow> symbol_of n s lhs
           | _ \<Rightarrow> Inr []))"

text \<open>\<open>is_ctx_sensitive\<close>: does the type depend on the place the expression is in.\<close>

fun is_ctx_sensitive :: "nat \<Rightarrow> 's store_scheme \<Rightarrow> ptr \<Rightarrow> bool result" where
  "is_ctx_sensitive 0 s p = Inl OutOfFuel"
| "is_ctx_sensitive (Suc n) s p =
     (case as_expr s p of
        None \<Rightarrow> null_pointer
      | Some e \<Rightarrow>
          (case ex_body e of
             LiteralExpr _ \<Rightarrow> Inr True
           | SymbolExpr _ _ \<Rightarrow> Inr True
           | AnonInitExpr _ \<Rightarrow> Inr True
           | ArrayLiteralExpr es specifier \<Rightarrow> Inr (specifier = Null \<and> es = [])
           | BinaryExpr _ l r \<Rightarrow> ror (is_ctx_sensitive n s l) (is_ctx_sensitive n s r)
           | _ \<Rightarrow> Inr False))"

fun is_resolved :: "nat \<Rightarrow> 's store_scheme \<Rightarrow> ptr \<Rightarrow> bool result" where
  "is_resolved 0 s p = Inl OutOfFuel"
| "is_resolved (Suc n) s p =
     (case as_expr s p of
        None \<Rightarrow> null_pointer
      | Some e \<Rightarrow>
          (case ex_body e of
             LiteralExpr _ \<Rightarrow> Inr (ex_flags e AND EF_ResolvedInternal \<noteq> 0)
           | BinaryExpr _ l r \<Rightarrow> rbind (is_resolved n s l) (\<lambda>ok. if ok then is_resolved n s r else Inr False)
           | _ \<Rightarrow> Inr (ex_type e \<noteq> Null)))"

definition named_expr :: "'s store_scheme \<Rightarrow> ptr \<Rightarrow> (string \<times> ptr) option" where
  "named_expr s p =
     (case as_expr s p of
        Some e \<Rightarrow> (case ex_body e of NamedExpr name v \<Rightarrow> Some (name, v) | _ \<Rightarrow> None) | None \<Rightarrow> None)"

definition call_expr :: "'s store_scheme \<Rightarrow> ptr \<Rightarrow> (ptr \<times> ptr list) option" where
  "call_expr s p =
     (case as_expr s p of
        Some e \<Rightarrow> (case ex_body e of CallExpr c args \<Rightarrow> Some (c, args) | _ \<Rightarrow> None) | None \<Rightarrow> None)"

definition heap_type :: "'s store_scheme \<Rightarrow> ptr \<Rightarrow> type_body option" where
  "heap_type s p = (case type_obj_at s p of Some (Heap b) \<Rightarrow> Some b | _ \<Rightarrow> None)"

subsection \<open>Overloads (\<open>fn_collection.cpp\<close>) and mangled names (\<open>mangle.hpp\<close>)\<close>

text \<open>Do all parameters of an overload match? The counter of the loop is never advanced, so each
  is compared with the first one of the new function.\<close>

fun overload_matches :: "(ptr \<Rightarrow> ptr \<Rightarrow> bool result) \<Rightarrow> 's store_scheme \<Rightarrow> ptr list \<Rightarrow> ptr list \<Rightarrow> bool result" where
  "overload_matches eq s others [] = Inr True"
| "overload_matches eq s others (p # ps) =
     (case (as_var s (hd others), as_var s p) of
        (Some other, Some v) \<Rightarrow>
          rbind (eq (meta_ptr (vd_type other)) (meta_ptr (vd_type v))) (\<lambda>ok.
            if ok then overload_matches eq s others ps else Inr False)
      | _ \<Rightarrow> null_pointer)"

fun count_matches :: "(ptr \<Rightarrow> ptr \<Rightarrow> bool result) \<Rightarrow> 's store_scheme \<Rightarrow> ptr list \<Rightarrow> ptr list \<Rightarrow> nat \<Rightarrow> bool result" where
  "count_matches eq s params [] matches = Inr (matches > 1)"
| "count_matches eq s params (f # fs) matches =
     (case as_fn s f of
        None \<Rightarrow> null_pointer
      | Some fn \<Rightarrow>
          if length (fs_parameters (fn_sig fn)) \<noteq> length params then Inr False
          else rbind (overload_matches eq s params (fs_parameters (fn_sig fn))) (\<lambda>ok.
               count_matches eq s params fs (if ok then matches + 1 else matches)))"

definition fn_is_duplicate :: "nat \<Rightarrow> 's store_scheme \<Rightarrow> ptr list \<Rightarrow> ptr list \<Rightarrow> bool result" where
  "fn_is_duplicate n s functions params =
     (if functions = [] then Inr False else count_matches (is_equal n s) s params functions 0)"

text \<open>The name of a function in the object file.\<close>

definition mangle :: "string \<Rightarrow> string list \<Rightarrow> string option \<Rightarrow> string \<Rightarrow> string" where
  "mangle symb param_types parent_type buffer =
     buffer @ ''?'' @ (case parent_type of Some t \<Rightarrow> t @ ''::'' | None \<Rightarrow> []) @ symb @
     concat (map (\<lambda>t. CHR ''_'' # t) param_types)"

end
