(* ===== verification/Comp_Eval.thy ===== *)
theory Comp_Eval
  imports Analysis
begin

section \<open>Constants (\<open>comp_eval.cpp\<close>)\<close>

text \<open>
  \<open>CompEval\<close> evaluates the initializer of a \<open>const\<close> and the size of an array. It visits literals,
  binary operations, names, variables (whose initializer it takes, mutable or not), functions
  without parameters and literals of arrays and structs; for any other node \<open>accept\<close> returns null.

  Arithmetic is that of C++: \<open>bool\<close> and \<open>char\<close> are promoted to \<open>int\<close>, overflow of a signed
  \<open>int\<close> and division by zero are undefined. Arithmetic of \<open>float\<close> is a parameter.
\<close>

subsection \<open>Arithmetic\<close>

definition promoted :: "literal_value \<Rightarrow> int option" where
  "promoted v =
     (case v of
        LInt w \<Rightarrow> Some (sint w)
      | LBool b \<Rightarrow> Some (if b then 1 else 0)
      | LChar c \<Rightarrow> Some (sint (of_char c :: 8 word))
      | _ \<Rightarrow> None)"

definition int_result :: "int \<Rightarrow> literal_value result" where
  "int_result n =
     (if - (2 ^ 31) \<le> n \<and> n < 2 ^ 31 then Inr (LInt (word_of_int n))
      else Inl (Undefined ''signed overflow''))"

text \<open>Division truncates toward zero.\<close>

definition int_div :: "int \<Rightarrow> int \<Rightarrow> int" where
  "int_div a b = sgn a * sgn b * (\<bar>a\<bar> div \<bar>b\<bar>)"

text \<open>\<open>None\<close>: the operation is not defined for the operands.\<close>

definition int_op :: "TokenType \<Rightarrow> int \<Rightarrow> int \<Rightarrow> literal_value option result" where
  "int_op op a b =
     (case op of
        TkPlus \<Rightarrow> rbind (int_result (a + b)) (\<lambda>v. Inr (Some v))
      | TkMinus \<Rightarrow> rbind (int_result (a - b)) (\<lambda>v. Inr (Some v))
      | TkStar \<Rightarrow> rbind (int_result (a * b)) (\<lambda>v. Inr (Some v))
      | TkForwardSlash \<Rightarrow>
          if b = 0 then Inl (Undefined ''division by zero'')
          else rbind (int_result (int_div a b)) (\<lambda>v. Inr (Some v))
      | TkGreater \<Rightarrow> Inr (Some (LBool (a > b)))
      | TkLess \<Rightarrow> Inr (Some (LBool (a < b)))
      | TkGreaterEqual \<Rightarrow> Inr (Some (LBool (a \<ge> b)))
      | TkLessEqual \<Rightarrow> Inr (Some (LBool (a \<le> b)))
      | _ \<Rightarrow> Inr None)"

definition is_float :: "literal_value \<Rightarrow> bool" where
  "is_float v = (case v of LFloat _ \<Rightarrow> True | _ \<Rightarrow> False)"

definition arithmetic_op :: "TokenType \<Rightarrow> bool" where
  "arithmetic_op op = (op \<in> set [TkPlus, TkMinus, TkStar, TkForwardSlash, TkGreater, TkLess, TkGreaterEqual, TkLessEqual])"

definition eval_binary ::
    "(TokenType \<Rightarrow> literal_value \<Rightarrow> literal_value \<Rightarrow> literal_value) \<Rightarrow> TokenType \<Rightarrow> literal_value \<Rightarrow> literal_value
      \<Rightarrow> literal_value option result" where
  "eval_binary float_op op a b =
     (case (promoted a, promoted b) of
        (Some m, Some n) \<Rightarrow> int_op op m n
      | (x, y) \<Rightarrow>
          if (x \<noteq> None \<or> is_float a) \<and> (y \<noteq> None \<or> is_float b) \<and> arithmetic_op op
          then Inr (Some (float_op op a b)) else Inr None)"

subsection \<open>The visits\<close>

definition literal_value_of :: "'s store_scheme \<Rightarrow> ptr \<Rightarrow> (literal_value \<times> ptr) option" where
  "literal_value_of s p =
     (case as_expr s p of
        Some e \<Rightarrow> (case ex_body e of LiteralExpr v \<Rightarrow> Some (v, ex_type e) | _ \<Rightarrow> None) | None \<Rightarrow> None)"

definition eval_binary_expr :: "visitor \<Rightarrow> (ptr \<Rightarrow> ptr an) \<Rightarrow> ptr \<Rightarrow> TokenType \<Rightarrow> ptr \<Rightarrow> ptr \<Rightarrow> ptr an" where
  "eval_binary_expr v eval p op l r =
     bnd (eval l) (\<lambda>left_node.
     bnd (eval r) (\<lambda>right_node.
     bnd (gets (\<lambda>s. (literal_value_of s left_node, literal_value_of s right_node))) (\<lambda>operands.
     case operands of
       (Some (a, type), Some (b, _)) \<Rightarrow>
         bnd (ask (\<lambda>_. eval_binary (v_float_op v) op a b)) (\<lambda>value.
         case value of
           None \<Rightarrow> ret Null
         | Some x \<Rightarrow>
             make (NExpr \<lparr>ex_token = empty_token, ex_flags = 0, ex_mut_set = 0, ex_type = type, ex_body = LiteralExpr x\<rparr>))
     | _ \<Rightarrow> bnd (token_of p) (\<lambda>tok.
         throw_frontend tok ''Both operands of expression must evaluate at compile time''))))"

definition eval_symbol :: "(ptr \<Rightarrow> ptr an) \<Rightarrow> ptr \<Rightarrow> string \<Rightarrow> ptr an" where
  "eval_symbol eval p name =
     bnd (gets (\<lambda>s. find_symbol s name)) (\<lambda>symb.
     if symb = Null
     then bnd (token_of p) (\<lambda>tok. throw_formatted tok ''symbol {} does not exist'' [name])
     else eval symb)"

text \<open>\<open>eval_aggregate\<close>: every element is replaced by its value.\<close>

primrec eval_elements ::
    "(ptr \<Rightarrow> ptr an) \<Rightarrow> (initializer_element list \<Rightarrow> unit an) \<Rightarrow> initializer_element list \<Rightarrow> initializer_element list \<Rightarrow> bool an" where
  "eval_elements eval put done_es [] = ret True"
| "eval_elements eval put done_es (e # es) =
     bnd (eval (ie_expr e)) (\<lambda>node.
     bnd (expr_or_null node) (\<lambda>x.
     bnd (put (done_es @ e\<lparr>ie_expr := x\<rparr> # es)) (\<lambda>_.
     if x = Null then ret False else eval_elements eval put (done_es @ [e\<lparr>ie_expr := x\<rparr>]) es)))"

definition eval_aggregate ::
    "(ptr \<Rightarrow> ptr an) \<Rightarrow> ptr \<Rightarrow> (initializer_element list \<Rightarrow> expr_body) \<Rightarrow> initializer_element list \<Rightarrow> ptr an" where
  "eval_aggregate eval p build es =
     bnd (eval_elements eval (\<lambda>xs. put_body p (build xs)) [] es) (\<lambda>ok. ret (if ok then p else Null))"

definition constant_return :: "'s store_scheme \<Rightarrow> ptr \<Rightarrow> ptr option" where
  "constant_return s p =
     (case as_stmt s p of
        Some st \<Rightarrow> (case st_body st of ConstantReturnStmt v \<Rightarrow> Some v | _ \<Rightarrow> None) | None \<Rightarrow> None)"

primrec eval_statements :: "(ptr \<Rightarrow> ptr an) \<Rightarrow> ptr list \<Rightarrow> ptr an" where
  "eval_statements eval [] = ret Null"
| "eval_statements eval (p # ps) =
     bnd (eval p) (\<lambda>result.
     bnd (gets (\<lambda>s. constant_return s result)) (\<lambda>found.
     case found of Some v \<Rightarrow> ret v | None \<Rightarrow> eval_statements eval ps))"

definition eval_fn :: "visitor \<Rightarrow> (ptr \<Rightarrow> ptr an) \<Rightarrow> fn_type \<Rightarrow> ptr an" where
  "eval_fn v eval f =
     bnd (ask (\<lambda>s. is_equal (v_fuel v) s (meta_ptr (fs_return_type (fn_sig f))) (Static VOID_TYPE))) (\<lambda>is_void.
     if is_void then ret Null
     else bnd (the_stmt (fn_body f)) (\<lambda>body.
       case body of
         BlockStmt [p] \<Rightarrow> eval p
       | BlockStmt ps \<Rightarrow> eval_statements eval ps
       | _ \<Rightarrow> null_deref))"

definition eval_return :: "(ptr \<Rightarrow> ptr an) \<Rightarrow> ptr \<Rightarrow> ptr an" where
  "eval_return eval e =
     (if e = Null then null_deref
      else bnd (eval e) (\<lambda>node.
        bnd (gets (\<lambda>s. literal_value_of s node)) (\<lambda>literal.
        if literal = None then ret Null
        else make (new_stmt (ConstantReturnStmt node)))))"

definition eval_expr :: "visitor \<Rightarrow> (ptr \<Rightarrow> ptr an) \<Rightarrow> ptr \<Rightarrow> expr_body \<Rightarrow> ptr an" where
  "eval_expr v eval p b =
     (case b of
        LiteralExpr _ \<Rightarrow> ret p
      | BinaryExpr op l r \<Rightarrow> eval_binary_expr v eval p op l r
      | NamedExpr _ value \<Rightarrow> ret value
      | SymbolExpr _ name \<Rightarrow> eval_symbol eval p name
      | ArrayLiteralExpr es specifier \<Rightarrow> eval_aggregate eval p (\<lambda>xs. ArrayLiteralExpr xs specifier) es
      | StructLiteral es name \<Rightarrow> eval_aggregate eval p (\<lambda>xs. StructLiteral xs name) es
      | _ \<Rightarrow> ret Null)"

definition eval_stmt :: "(ptr \<Rightarrow> ptr an) \<Rightarrow> stmt_body \<Rightarrow> ptr an" where
  "eval_stmt eval b =
     (case b of
        VarDeclStmt d \<Rightarrow> if vd_initializer d = Null then ret Null else eval (vd_initializer d)
      | ReturnStmt e \<Rightarrow> eval_return eval e
      | _ \<Rightarrow> ret Null)"

text \<open>\<open>node->accept(comp_eval)\<close>\<close>

fun evaluate :: "nat \<Rightarrow> visitor \<Rightarrow> ptr \<Rightarrow> ptr an" where
  "evaluate 0 v p = fail OutOfFuel"
| "evaluate (Suc n) v p = (\<lambda>s.
     (case peek_node s p of
        Some (NExpr e) \<Rightarrow> eval_expr v (evaluate n v) p (ex_body e)
      | Some (NStmt st) \<Rightarrow> eval_stmt (evaluate n v) (st_body st)
      | Some (NType t) \<Rightarrow> (case ty_body t of FnType f \<Rightarrow> eval_fn v (evaluate n v) f | _ \<Rightarrow> ret Null)
      | Some (NFnCollection _ _) \<Rightarrow> ret Null
      | None \<Rightarrow> (case p of Static _ \<Rightarrow> ret Null | _ \<Rightarrow> null_deref)) s)"

end
