(* ===== verification/Analyzer.thy ===== *)
theory Analyzer
  imports Comp_Eval
begin

unbundle bit_operations_syntax

section \<open>The analyzer (\<open>analyzer.cpp\<close>)\<close>

text \<open>
  \<open>Analyzer\<close> visits the tree of a module: it resolves the names of types and symbols, computes the
  type of every expression, checks initializers, assignments, calls and returns against them,
  opens a scope for every function and block, and records which variables are used and changed.

  The visits call each other through \<open>accept\<close>, which is a field of the record \<open>visitor\<close> here; the
  record is tied with fuel at the end. A visit takes the node and reads its members where the
  code reads them, since the visits it calls may have changed them.
\<close>

subsection \<open>Visiting an expression\<close>

text \<open>\<open>accept\<close> through a pointer the code declares an \<open>Expr*\<close>, a \<open>VarDeclStmt*\<close>, a \<open>Type*\<close>.\<close>

definition accept_expr :: "visitor \<Rightarrow> ptr \<Rightarrow> visit_ctx \<Rightarrow> ptr an" where
  "accept_expr v p ctx = bnd (gets (\<lambda>s. is_expr s p)) (\<lambda>ok. if ok then v_accept v p ctx else null_deref)"

definition accept_var :: "visitor \<Rightarrow> ptr \<Rightarrow> visit_ctx \<Rightarrow> ptr an" where
  "accept_var v p ctx = bnd (gets (\<lambda>s. as_var s p \<noteq> None)) (\<lambda>ok. if ok then v_accept v p ctx else null_deref)"

definition accept_type :: "visitor \<Rightarrow> ptr \<Rightarrow> visit_ctx \<Rightarrow> ptr an" where
  "accept_type v p ctx = bnd (gets (\<lambda>s. is_type s p)) (\<lambda>ok. if ok then v_accept v p ctx else null_deref)"

text \<open>The depth is a \<open>u8\<close>; \<open>bitset<32>::test\<close> throws for a position outside the set.\<close>

definition test_mut :: "8 word \<Rightarrow> 32 word \<Rightarrow> bool result" where
  "test_mut depth m =
     (if unat depth < 32 then Inr (bit m (unat depth)) else Inl (OutOfRange ''bitset::test''))"

definition visit_expr :: "visitor \<Rightarrow> ptr \<Rightarrow> ptr \<Rightarrow> visit_ctx \<Rightarrow> ptr an" where
  "visit_expr v parent p ctx =
     (if p = Null then ret Null
      else
        bnd (gets an_expr_depth) (\<lambda>depth.
        bnd (modify (\<lambda>s. s\<lparr>an_expr_depth := depth + 1\<rparr>)) (\<lambda>_.
        bnd (accept_expr v p (ctx\<lparr>vc_depth := depth\<rparr>)) (\<lambda>result.
        bnd (the_expr p) (\<lambda>e.
        bnd (ask (\<lambda>_. test_mut depth (ex_mut_set e))) (\<lambda>immutable.
        bnd (only_if immutable (add_flags p EF_Immutable)) (\<lambda>_.
        bnd (only_if (parent \<noteq> Null) (put_mut_set parent (ex_mut_set e))) (\<lambda>_.
        bnd (modify (\<lambda>s. s\<lparr>an_expr_depth := an_expr_depth s - 1\<rparr>)) (\<lambda>_.
        expr_or_null result)))))))))"

text \<open>A visit that may replace the pointer it came through (\<open>VisitCtx::result\<close>).\<close>

definition visit_cell :: "visitor \<Rightarrow> ptr \<Rightarrow> ptr an" where
  "visit_cell v p =
     bnd (gets an_cell) (\<lambda>outer.
     bnd (modify (\<lambda>s. s\<lparr>an_cell := p\<rparr>)) (\<lambda>_.
     bnd (accept_type v p (empty_ctx\<lparr>vc_result := True\<rparr>)) (\<lambda>_.
     bnd (gets an_cell) (\<lambda>q.
     bnd (modify (\<lambda>s. s\<lparr>an_cell := outer\<rparr>)) (\<lambda>_. ret q)))))"

text \<open>\<open>resolve_type\<close>\<close>

definition resolve_type :: "visitor \<Rightarrow> type_meta \<Rightarrow> type_meta an" where
  "resolve_type v meta =
     bnd (if meta_ptr meta = Null then ret Null else visit_cell v (meta_ptr meta)) (\<lambda>p.
     bnd (gets (\<lambda>s. heap_type s p)) (\<lambda>t.
     ret (case t of
            Some (AliasType al) \<Rightarrow> \<lparr>mut_set = mut_set (al_type al), meta_ptr = p\<rparr>
          | _ \<Rightarrow> meta\<lparr>meta_ptr := p\<rparr>)))"

definition same_type :: "visitor \<Rightarrow> ptr \<Rightarrow> ptr \<Rightarrow> bool an" where
  "same_type v a b = ask (\<lambda>s. is_equal (v_fuel v) s a b)"

definition name_of_type :: "ptr \<Rightarrow> string an" where
  "name_of_type p = ask (\<lambda>s. get_type_name s p)"

definition symbol_name :: "visitor \<Rightarrow> ptr \<Rightarrow> string an" where
  "symbol_name v p = ask (\<lambda>s. symbol_of (v_fuel v) s p)"

definition throw_at :: "ptr \<Rightarrow> string \<Rightarrow> string list \<Rightarrow> 'a an" where
  "throw_at p msg args = bnd (token_of p) (\<lambda>tok. throw_formatted tok msg args)"

subsection \<open>Calls\<close>

definition call_args :: "ptr \<Rightarrow> ptr list an" where
  "call_args p = bnd (body_of p) (\<lambda>b. case b of CallExpr _ args \<Rightarrow> ret args | _ \<Rightarrow> null_deref)"

definition callable_of :: "ptr \<Rightarrow> ptr an" where
  "callable_of p = bnd (body_of p) (\<lambda>b. case b of CallExpr c _ \<Rightarrow> ret c | _ \<Rightarrow> null_deref)"

definition put_call_args :: "ptr \<Rightarrow> ptr list \<Rightarrow> unit an" where
  "put_call_args p args = bnd (callable_of p) (\<lambda>c. put_body p (CallExpr c args))"

definition put_arg :: "ptr \<Rightarrow> nat \<Rightarrow> ptr \<Rightarrow> unit an" where
  "put_arg p i x = bnd (call_args p) (\<lambda>args. put_call_args p (args[i := x]))"

definition arg_at :: "ptr \<Rightarrow> nat \<Rightarrow> ptr an" where
  "arg_at p i =
     bnd (call_args p) (\<lambda>args.
       if i < length args then ret (args ! i) else fail (Undefined ''argument out of range''))"

text \<open>Arguments whose type does not depend on the call.\<close>

definition visit_plain_arg :: "visitor \<Rightarrow> ptr \<Rightarrow> visit_ctx \<Rightarrow> nat \<Rightarrow> unit an" where
  "visit_plain_arg v p ctx i =
     bnd (arg_at p i) (\<lambda>arg.
     bnd (ask (\<lambda>s. is_resolved (v_fuel v) s arg)) (\<lambda>resolved.
     bnd (if resolved then ret True else ask (\<lambda>s. is_ctx_sensitive (v_fuel v) s arg)) (\<lambda>leave.
     only_if (\<not> leave) (bnd (visit_expr v p arg ctx) (\<lambda>new. put_arg p i new)))))"

text \<open>A named argument is noted for every parameter of its name.\<close>

definition note_named :: "ptr list \<Rightarrow> ptr \<Rightarrow> unit an" where
  "note_named params arg =
     bnd (gets (\<lambda>s. named_expr s arg)) (\<lambda>named.
     case named of
       None \<Rightarrow> ret ()
     | Some (name, value) \<Rightarrow>
         each (\<lambda>(i, param).
           bnd (the_var param) (\<lambda>d.
           only_if (sy_name (vd_symbol d) = name)
             (modify (\<lambda>s. s\<lparr>an_named_replace_list := an_named_replace_list s @ [(value, i)]\<rparr>))))
           (enumerate 0 params))"

definition visit_arg :: "visitor \<Rightarrow> ptr \<Rightarrow> ptr list \<Rightarrow> nat \<Rightarrow> unit an" where
  "visit_arg v p params i =
     bnd (if i < length params
          then bnd (the_var (params ! i)) (\<lambda>d. ret (meta_ptr (vd_type d))) else ret Null) (\<lambda>ctx_type.
     bnd (arg_at p i) (\<lambda>arg.
     bnd (ask (\<lambda>s. is_resolved (v_fuel v) s arg)) (\<lambda>resolved.
     bnd (only_if (\<not> resolved)
            (bnd (visit_expr v p arg (typed_ctx ctx_type)) (\<lambda>new. put_arg p i new))) (\<lambda>_.
     bnd (arg_at p i) (\<lambda>arg1. note_named params arg1)))))"

text \<open>A named argument goes to the place of its parameter, where a named argument must be. The
  place is not checked against the number of arguments.\<close>

definition place_named :: "ptr \<Rightarrow> ptr \<times> nat \<Rightarrow> unit an" where
  "place_named p entry =
     bnd (arg_at p (snd entry)) (\<lambda>old.
     bnd (gets (\<lambda>s. named_expr s old)) (\<lambda>named.
     if named = None then throw_at (fst entry) ''named parameter position has already been fulfilled'' []
     else put_arg p (snd entry) (fst entry)))"

definition visit_default :: "visitor \<Rightarrow> ptr \<Rightarrow> ptr \<Rightarrow> unit an" where
  "visit_default v p param =
     bnd (the_var param) (\<lambda>d.
     only_if (vd_initializer d \<noteq> Null)
       (bnd (visit_expr v p (vd_initializer d) (typed_ctx (meta_ptr (vd_type d)))) (\<lambda>new.
        change param (upd_var (\<lambda>d. d\<lparr>vd_initializer := new\<rparr>)))))"

definition visit_call :: "visitor \<Rightarrow> ptr \<Rightarrow> visit_ctx \<Rightarrow> ptr an" where
  "visit_call v p ctx0 =
     (let ctx = new_ctx p ctx0 Null in
     bnd (call_args p) (\<lambda>args0.
     bnd (each (visit_plain_arg v p ctx) [0..<length args0]) (\<lambda>_.
     bnd (callable_of p) (\<lambda>callable.
     bnd (type_of callable) (\<lambda>t0.
     bnd (only_if (t0 = Null)
            (bnd (type_of p) (\<lambda>t.
             bnd (put_type callable t) (\<lambda>_.
             bnd (accept_expr v callable ctx) (\<lambda>_. ret ()))))) (\<lambda>_.
     bnd (type_of callable) (\<lambda>type.
     if type = Null then throw_at p ''could not resolve function overload'' []
     else
       bnd (ask (\<lambda>s. get_call_info (v_fuel v) s type)) (\<lambda>maybe_call_info.
       case maybe_call_info of
         None \<Rightarrow> bnd (symbol_name v callable) (\<lambda>name. throw_at p ''{} is not callable'' [name])
       | Some call_info \<Rightarrow>
           let params = fs_parameters call_info in
           bnd (call_args p) (\<lambda>args.
           if \<not> fs_is_variadic call_info \<and>
              (length args < fs_callable_arity call_info \<or> length args > length params)
           then throw_at p ''expected {} argument but got {}''
                  [string_of_nat (fs_callable_arity call_info), string_of_nat (length args)]
           else
             bnd (modify (\<lambda>s. s\<lparr>an_named_replace_list := []\<rparr>)) (\<lambda>_.
             bnd (each (visit_arg v p params) [0..<length args]) (\<lambda>_.
             bnd (gets an_named_replace_list) (\<lambda>named.
             bnd (each (place_named p) named) (\<lambda>_.
             bnd (each (visit_default v p) (drop (length args) params)) (\<lambda>_.
             bnd (put_type p (meta_ptr (fs_return_type call_info))) (\<lambda>_.
             bnd (put_mut_set p (mut_set (fs_return_type call_info))) (\<lambda>_. ret p))))))))))))))))"

subsection \<open>Overloads\<close>

text \<open>One argument against one parameter. The answer is whether they match, with the number of
  arguments that had to be visited for it.\<close>

definition match_arg :: "visitor \<Rightarrow> ptr \<Rightarrow> nat \<Rightarrow> ptr \<Rightarrow> nat \<Rightarrow> (bool \<times> nat) an" where
  "match_arg v callp i param ambiguous =
     bnd (the_var param) (\<lambda>d.
     bnd (arg_at callp i) (\<lambda>arg.
     bnd (type_of arg) (\<lambda>t.
     bnd (if t = Null then ask (\<lambda>s. is_ctx_sensitive (v_fuel v) s arg) else ret False) (\<lambda>sensitive.
     bnd (only_if sensitive
            (bnd (visit_expr v Null arg (typed_ctx (meta_ptr (vd_type d)))) (\<lambda>new. put_arg callp i new))) (\<lambda>_.
     bnd (arg_at callp i) (\<lambda>arg1.
     bnd (type_of arg1) (\<lambda>t1.
     bnd (if t1 = Null then ret False else same_type v t1 (meta_ptr (vd_type d))) (\<lambda>ok.
     ret (ok, if sensitive then ambiguous + 1 else ambiguous)))))))))"

primrec match_args :: "visitor \<Rightarrow> ptr \<Rightarrow> ptr list \<Rightarrow> nat list \<Rightarrow> nat \<Rightarrow> (bool \<times> nat) an" where
  "match_args v callp params [] ambiguous = ret (True, ambiguous)"
| "match_args v callp params (i # is) ambiguous =
     (if i \<ge> length params then ret (True, ambiguous)
      else bnd (match_arg v callp i (params ! i) ambiguous) (\<lambda>(ok, ambiguous1).
        if ok then match_args v callp params is ambiguous1 else ret (False, ambiguous1)))"

primrec try_overloads :: "visitor \<Rightarrow> ptr \<Rightarrow> nat \<Rightarrow> ptr list \<Rightarrow> ptr an" where
  "try_overloads v callp count [] = ret Null"
| "try_overloads v callp count (f # fs) =
     bnd (the_fn f) (\<lambda>fn.
     if fs_callable_arity (fn_sig fn) > count then try_overloads v callp count fs
     else
       bnd (match_args v callp (fs_parameters (fn_sig fn)) [0..<count] 0) (\<lambda>(all_match, ambiguous).
       if ambiguous = length (fs_parameters (fn_sig fn)) then ret Null
       else if all_match then ret f
       else try_overloads v callp count fs))"

text \<open>\<open>FnCollection::get_fn\<close>; \<open>callp\<close> is the call the arguments belong to, or null.\<close>

definition get_fn :: "visitor \<Rightarrow> ptr \<Rightarrow> ptr list \<Rightarrow> ptr an" where
  "get_fn v callp functions =
     (if length functions = 1 then ret (hd functions)
      else bnd (if callp = Null then ret [] else call_args callp) (\<lambda>args.
        try_overloads v callp (length args) functions))"

subsection \<open>Functions\<close>

definition change_fn :: "ptr \<Rightarrow> (fn_type \<Rightarrow> fn_type) \<Rightarrow> unit an" where
  "change_fn p f = change p (upd_fn f)"

definition get_current_fn :: "ptr an" where
  "get_current_fn = gets (\<lambda>s. if an_function_stack s = [] then Null else last (an_function_stack s))"

text \<open>The parameters are declared in the scope of the function, then their types are visited.\<close>

definition visit_param :: "visitor \<Rightarrow> ptr \<Rightarrow> unit an" where
  "visit_param v param =
     bnd (accept_var v param empty_ctx) (\<lambda>_.
     bnd (the_var param) (\<lambda>d.
     bnd (accept_type v (meta_ptr (vd_type d)) empty_ctx) (\<lambda>_. ret ())))"

definition param_type_name :: "ptr \<Rightarrow> string an" where
  "param_type_name param = bnd (the_var param) (\<lambda>d. name_of_type (meta_ptr (vd_type d)))"

primrec param_type_names :: "ptr list \<Rightarrow> string list an" where
  "param_type_names [] = ret []"
| "param_type_names (p # ps) =
     bnd (param_type_name p) (\<lambda>n. bnd (param_type_names ps) (\<lambda>ns. ret (n # ns)))"

text \<open>The type of the \<open>impl\<close> the function stands in.\<close>

definition impl_type :: "'s store_scheme \<Rightarrow> ptr \<Rightarrow> ptr" where
  "impl_type s p =
     (case as_stmt s p of
        Some st \<Rightarrow> (case st_body st of ImplStmt _ t _ \<Rightarrow> t | _ \<Rightarrow> Null) | None \<Rightarrow> Null)"

definition mangle_fn :: "ptr \<Rightarrow> fn_type \<Rightarrow> visit_ctx \<Rightarrow> unit an" where
  "mangle_fn p fn ctx =
     bnd (gets (\<lambda>s. impl_type s (vc_invoker ctx))) (\<lambda>parent.
     bnd (if parent = Null then ret None else bnd (name_of_type parent) (\<lambda>n. ret (Some n))) (\<lambda>parent_name.
     bnd (param_type_names (fs_parameters (fn_sig fn))) (\<lambda>names.
     change_fn p (\<lambda>f. f\<lparr>fn_mangled_name :=
       mangle (sy_name (fn_symbol f)) names parent_name (fn_mangled_name f)\<rparr>))))"

definition declare_fn :: "visitor \<Rightarrow> ptr \<Rightarrow> visit_ctx \<Rightarrow> unit an" where
  "declare_fn v p ctx =
     bnd (the_fn p) (\<lambda>fn.
     only_if (sy_name (fn_symbol fn) \<noteq> [])
       (bnd (only_if (fn_flags fn AND FF_Extern = 0 \<and> sy_name (fn_symbol fn) \<noteq> ''main'') (mangle_fn p fn ctx)) (\<lambda>_.
        bnd (ask (\<lambda>s. case as_fn_collection s (fn_collection fn) of
               None \<Rightarrow> null_pointer
             | Some fns \<Rightarrow> fn_is_duplicate (v_fuel v) s fns (fs_parameters (fn_sig fn)))) (\<lambda>duplicate.
        if duplicate then throw_at p ''Function is a duplicate'' []
        else declare_name (fn_symbol fn) p (fn_flags fn AND FF_Private = 0) None))))"

definition resolve_return :: "visitor \<Rightarrow> ptr \<Rightarrow> unit an" where
  "resolve_return v p =
     bnd (the_fn p) (\<lambda>fn.
     bnd (resolve_type v (fs_return_type (fn_sig fn))) (\<lambda>meta.
     change_fn p (\<lambda>f. f\<lparr>fn_sig := (fn_sig f)\<lparr>fs_return_type := meta\<rparr>\<rparr>)))"

definition return_type_of :: "ptr \<Rightarrow> ptr an" where
  "return_type_of p = bnd (the_fn p) (\<lambda>fn. ret (meta_ptr (fs_return_type (fn_sig fn))))"

definition block_nodes :: "ptr \<Rightarrow> ptr list an" where
  "block_nodes p = bnd (the_stmt p) (\<lambda>b. case b of BlockStmt ns \<Rightarrow> ret ns | _ \<Rightarrow> null_deref)"

text \<open>\<open>fn f() => e\<close>: the type of \<open>e\<close> becomes the return type.\<close>

definition visit_arrow_body :: "visitor \<Rightarrow> ptr \<Rightarrow> unit an" where
  "visit_arrow_body v p =
     bnd (the_fn p) (\<lambda>fn.
     bnd (block_nodes (fn_body fn)) (\<lambda>ns.
     if ns = [] then fail (Undefined ''front of an empty vector'')
     else
       let front = hd ns in
       bnd (gets (\<lambda>s. is_expr s front)) (\<lambda>expression.
       only_if expression
         (bnd (return_type_of p) (\<lambda>t.
          bnd (if t = Null then ret False
               else bnd (same_type v t (Static VOID_TYPE)) (\<lambda>is_void. ret (\<not> is_void))) (\<lambda>check_types.
          bnd (only_if check_types (resolve_return v p)) (\<lambda>_.
          bnd (return_type_of p) (\<lambda>t1.
          bnd (accept_expr v front (typed_ctx t1)) (\<lambda>_.
          bnd (type_of front) (\<lambda>et.
          bnd (return_type_of p) (\<lambda>t2.
          bnd (if check_types then same_type v t2 et else ret True) (\<lambda>ok.
          if \<not> ok then throw_at front ''return type does not match'' []
          else change_fn p (\<lambda>f. f\<lparr>fn_sig := (fn_sig f)\<lparr>fs_return_type := meta_of et\<rparr>\<rparr>)))))))))))))"

definition visit_block_body :: "visitor \<Rightarrow> ptr \<Rightarrow> unit an" where
  "visit_block_body v p =
     bnd (resolve_return v p) (\<lambda>_.
     bnd (the_fn p) (\<lambda>fn.
     bnd (if fn_body fn = Null then ret [] else block_nodes (fn_body fn)) (\<lambda>ns.
     bnd (each (\<lambda>n. bnd (v_accept v n empty_ctx) (\<lambda>_. ret ())) ns) (\<lambda>_.
     bnd current_flags (\<lambda>flags.
     bnd (return_type_of p) (\<lambda>t.
     bnd (same_type v t (Static VOID_TYPE)) (\<lambda>is_void.
     only_if (\<not> is_void \<and> \<not> has_return flags \<and> fn_body fn \<noteq> Null)
       (throw_at p ''Not all paths return a value'' []))))))))"

text \<open>The function is on the stack while its body is visited.\<close>

definition in_function :: "ptr \<Rightarrow> 'a an \<Rightarrow> 'a an" where
  "in_function p m =
     bnd (modify (\<lambda>s. s\<lparr>an_function_stack := an_function_stack s @ [p]\<rparr>)) (\<lambda>_.
     bnd m (\<lambda>x.
     bnd (modify (\<lambda>s. s\<lparr>an_function_stack := butlast (an_function_stack s)\<rparr>)) (\<lambda>_. ret x)))"

definition visit_fn :: "visitor \<Rightarrow> ptr \<Rightarrow> visit_ctx \<Rightarrow> ptr an" where
  "visit_fn v p ctx =
     bnd (the_fn p) (\<lambda>fn.
     if fn_flags fn AND FF_Resolved \<noteq> 0 then ret p
     else with_scope
       (bnd (each (visit_param v) (fs_parameters (fn_sig fn))) (\<lambda>_.
        bnd (declare_fn v p ctx) (\<lambda>_.
        bnd (in_function p (if fn_flags fn AND FF_ArrowFn \<noteq> 0 then visit_arrow_body v p else visit_block_body v p)) (\<lambda>_.
        bnd (change_fn p (\<lambda>f. f\<lparr>fn_flags := fn_flags f OR FF_Resolved\<rparr>)) (\<lambda>_. ret p))))))"

subsection \<open>Types\<close>

definition STF_Resolved :: "32 word" where "STF_Resolved = 1"

definition the_struct :: "ptr \<Rightarrow> struct_type an" where
  "the_struct p = ask (\<lambda>s. case heap_type s p of Some (StructType st) \<Rightarrow> Inr st | _ \<Rightarrow> null_pointer)"

definition change_struct :: "ptr \<Rightarrow> (struct_type \<Rightarrow> struct_type) \<Rightarrow> unit an" where
  "change_struct p f = change_type p (set_struct f)"

definition resolve_field :: "visitor \<Rightarrow> ptr \<Rightarrow> nat \<Rightarrow> unit an" where
  "resolve_field v p i =
     bnd (the_struct p) (\<lambda>st.
     bnd (resolve_type v (snd (stt_fields st ! i))) (\<lambda>meta.
     change_struct p (\<lambda>st. st\<lparr>stt_fields := (stt_fields st)[i := (fst (stt_fields st ! i), meta)]\<rparr>)))"

definition visit_struct :: "visitor \<Rightarrow> ptr \<Rightarrow> ptr an" where
  "visit_struct v p =
     bnd (the_struct p) (\<lambda>st.
     if stt_flags st AND STF_Resolved \<noteq> 0 then ret p
     else
       bnd (each (resolve_field v p) [0..<length (stt_fields st)]) (\<lambda>_.
       bnd (change_struct p (\<lambda>st. st\<lparr>stt_flags := stt_flags st OR STF_Resolved\<rparr>)) (\<lambda>_. ret p)))"

definition visit_alias :: "visitor \<Rightarrow> ptr \<Rightarrow> alias_type \<Rightarrow> ptr an" where
  "visit_alias v p al =
     bnd (resolve_type v (al_type al)) (\<lambda>meta.
     bnd (change_type p (set_alias (\<lambda>al. al\<lparr>al_type := meta\<rparr>))) (\<lambda>_.
     bnd (declare_name (al_symbol al) p False None) (\<lambda>_. ret p)))"

text \<open>\<open>*ctx.result = get_type(...)\<close>\<close>

definition visit_unresolved :: "ptr \<Rightarrow> string \<Rightarrow> visit_ctx \<Rightarrow> ptr an" where
  "visit_unresolved p name ctx =
     bnd (token_of p) (\<lambda>tok.
     bnd (lookup_type name tok) (\<lambda>t.
     if \<not> vc_result ctx then null_deref
     else bnd (modify (\<lambda>s. s\<lparr>an_cell := t\<rparr>)) (\<lambda>_. ret p)))"

definition visit_pointer :: "visitor \<Rightarrow> ptr \<Rightarrow> ptr \<Rightarrow> ptr an" where
  "visit_pointer v p inner =
     bnd (visit_cell v inner) (\<lambda>inner1.
     bnd (pointer_set_inner p inner1) (\<lambda>_. ret p))"

definition visit_slice_type :: "visitor \<Rightarrow> ptr \<Rightarrow> ptr \<Rightarrow> ptr an" where
  "visit_slice_type v p inner =
     bnd (visit_cell v inner) (\<lambda>inner1.
     bnd (base_array_set_inner p inner1) (\<lambda>_. ret p))"

definition change_array :: "ptr \<Rightarrow> (array_type \<Rightarrow> array_type) \<Rightarrow> unit an" where
  "change_array p f =
     bnd (ask (\<lambda>s. case heap_type s p of Some (ArrayType ar) \<Rightarrow> Inr () | _ \<Rightarrow> null_pointer)) (\<lambda>_.
     change_type p (set_array f))"

text \<open>The size is an expression that must evaluate to an integer; it is cut to a \<open>u32\<close>. A value
  that is no literal is dereferenced all the same.\<close>

definition visit_array_size :: "visitor \<Rightarrow> ptr \<Rightarrow> ptr \<Rightarrow> unit an" where
  "visit_array_size v p size_expr =
     bnd (evaluate (v_fuel v) v size_expr) (\<lambda>value.
     bnd (gets (\<lambda>s. literal_value_of s value)) (\<lambda>literal.
     case literal of
       None \<Rightarrow> null_deref
     | Some (LInt w, _) \<Rightarrow> change_array p (\<lambda>ar. ar\<lparr>ar_size := unat w\<rparr>)
     | _ \<Rightarrow> throw_at p ''Array size must be known at compile time'' []))"

definition visit_array_type :: "visitor \<Rightarrow> ptr \<Rightarrow> array_type \<Rightarrow> ptr an" where
  "visit_array_type v p ar =
     bnd (visit_cell v (ar_element_type ar)) (\<lambda>inner.
     bnd (change_array p (\<lambda>a. a\<lparr>ar_element_type := inner\<rparr>)) (\<lambda>_.
     bnd (visit_expr v Null (ar_size_expr ar) empty_ctx) (\<lambda>size_expr.
     bnd (change_array p (\<lambda>a. a\<lparr>ar_size_expr := size_expr\<rparr>)) (\<lambda>_.
     bnd (only_if (size_expr \<noteq> Null) (visit_array_size v p size_expr)) (\<lambda>_.
     bnd (base_array_set_inner p inner) (\<lambda>_. ret p))))))"

subsection \<open>Statements\<close>

definition change_var :: "ptr \<Rightarrow> (var_decl \<Rightarrow> var_decl) \<Rightarrow> unit an" where
  "change_var p f = change p (upd_var f)"

text \<open>\<open>var x = E\<close>: the initializer is visited with the declared type, which it supplies when none
  is declared. (The test for a null type behind it never succeeds.)\<close>

definition infer_type :: "ptr \<Rightarrow> ptr \<Rightarrow> ptr \<Rightarrow> unit an" where
  "infer_type p init init_type =
     bnd (the_var p) (\<lambda>d.
     bnd (only_if (meta_ptr (vd_type d) = Null) (change_var p (\<lambda>d. d\<lparr>vd_type := meta_of init_type\<rparr>))) (\<lambda>_.
     bnd (the_var p) (\<lambda>d1.
     only_if (meta_ptr (vd_type d1) = Null)
       (bnd (the_expr init) (\<lambda>e.
        change_var p (\<lambda>d. d\<lparr>vd_type := (vd_type d)\<lparr>mut_set :=
          (if bit (mut_set (vd_type d)) 0 then set_bit 0 (ex_mut_set e) else ex_mut_set e)\<rparr>\<rparr>))))))"

definition visit_initializer :: "visitor \<Rightarrow> ptr \<Rightarrow> visit_ctx \<Rightarrow> unit an" where
  "visit_initializer v p ctx =
     bnd (the_var p) (\<lambda>d.
     only_if (vd_initializer d \<noteq> Null)
       (bnd (visit_expr v Null (vd_initializer d) (new_ctx p ctx (meta_ptr (vd_type d)))) (\<lambda>init.
        bnd (change_var p (\<lambda>d. d\<lparr>vd_initializer := init\<rparr>)) (\<lambda>_.
        bnd (type_of init) (\<lambda>t.
        if t = Null then throw_at p ''Cannot infer type from initializer'' []
        else infer_type p init t)))))"

definition array_of :: "'s store_scheme \<Rightarrow> ptr \<Rightarrow> array_type option" where
  "array_of s p = (case heap_type s p of Some (ArrayType ar) \<Rightarrow> Some ar | _ \<Rightarrow> None)"

text \<open>The size of an array is that of its initializer.\<close>

definition size_array :: "ptr \<Rightarrow> unit an" where
  "size_array p =
     bnd (the_var p) (\<lambda>d.
     bnd (gets (\<lambda>s. array_of s (meta_ptr (vd_type d)))) (\<lambda>array.
     case array of
       None \<Rightarrow> ret ()
     | Some ar \<Rightarrow>
         if ar_size ar = UNSIZED_ARRAY \<and> vd_initializer d = Null
         then throw_at p ''Cannot infer size of array'' []
         else only_if (vd_initializer d \<noteq> Null)
           (bnd (type_of (vd_initializer d)) (\<lambda>t.
            bnd (ask (\<lambda>s. case array_of s t of Some other \<Rightarrow> Inr (ar_size other) | None \<Rightarrow> null_pointer)) (\<lambda>n.
            change_array (meta_ptr (vd_type d)) (\<lambda>a. a\<lparr>ar_size := n\<rparr>))))))"

definition check_initializer :: "visitor \<Rightarrow> ptr \<Rightarrow> unit an" where
  "check_initializer v p =
     bnd (the_var p) (\<lambda>d.
     only_if (vd_initializer d \<noteq> Null \<and> meta_ptr (vd_type d) \<noteq> Null)
       (bnd (type_of (vd_initializer d)) (\<lambda>t.
        bnd (ask (\<lambda>s. is_assignable_from (v_fuel v) s t (meta_ptr (vd_type d)))) (\<lambda>ok.
        only_if (\<not> ok)
          (bnd (name_of_type (meta_ptr (vd_type d))) (\<lambda>type_name.
           bnd (name_of_type t) (\<lambda>init_name.
           throw_at p ''cannot initialize variable {} of type {} with type {}''
             [sy_name (vd_symbol d), type_name, init_name])))))))"

definition evaluate_const :: "visitor \<Rightarrow> ptr \<Rightarrow> unit an" where
  "evaluate_const v p =
     bnd (the_var p) (\<lambda>d.
     only_if (vd_flags d AND VF_Const \<noteq> 0)
       (if vd_initializer d = Null then throw_at p ''const must have an initializer'' []
        else
          bnd (evaluate (v_fuel v) v (vd_initializer d)) (\<lambda>result.
          bnd (expr_or_null result) (\<lambda>init.
          bnd (change_var p (\<lambda>d. d\<lparr>vd_initializer := init\<rparr>)) (\<lambda>_.
          only_if (init = Null)
            (throw_at p ''const must have an initializer known at compile time'' []))))))"

definition visit_var :: "visitor \<Rightarrow> ptr \<Rightarrow> visit_ctx \<Rightarrow> ptr an" where
  "visit_var v p ctx =
     bnd (the_var p) (\<lambda>d.
     bnd (only_if (meta_ptr (vd_type d) \<noteq> Null)
            (bnd (resolve_type v (vd_type d)) (\<lambda>meta. change_var p (\<lambda>d. d\<lparr>vd_type := meta\<rparr>)))) (\<lambda>_.
     bnd (visit_initializer v p ctx) (\<lambda>_.
     bnd (size_array p) (\<lambda>_.
     bnd (check_initializer v p) (\<lambda>_.
     bnd (gets (\<lambda>s. has_keyword_attribute (g_attributes s) (vd_symbol d) TkVolatile)) (\<lambda>is_volatile.
     bnd (only_if is_volatile (change_var p (\<lambda>d. d\<lparr>vd_flags := vd_flags d OR VF_Volatile\<rparr>))) (\<lambda>_.
     bnd level_now (\<lambda>level.
     bnd (only_if (level = 0) (change_var p (\<lambda>d. d\<lparr>vd_flags := vd_flags d OR VF_Global\<rparr>))) (\<lambda>_.
     bnd (evaluate_const v p) (\<lambda>_.
     bnd (declare_name (vd_symbol d) p True None) (\<lambda>_. ret p)))))))))))"

definition import_selected :: "nat \<Rightarrow> string \<times> string \<Rightarrow> unit an" where
  "import_selected m names =
     bnd (the_table (Some m)) (\<lambda>t.
     declare_name (named_symbol (snd names)) (fst (find_local_symbol (fst names) t)) False None)"

fun path_text :: "string list \<Rightarrow> string" where
  "path_text [] = []"
| "path_text [c] = c"
| "path_text (c # cs) = c @ ''/'' @ path_text cs"

definition visit_import :: "visitor \<Rightarrow> ptr \<Rightarrow> import_stmt \<Rightarrow> ptr an" where
  "visit_import v p im =
     bnd (v_get_module v (im_path im)) (\<lambda>module.
     bnd (change_stmt p (set_module module)) (\<lambda>_.
     case module of
       None \<Rightarrow> throw_at p (''Could not read module in any include paths '' @ squote # ''{}'' @ [squote]) [path_text (im_path im)]
     | Some m \<Rightarrow>
         bnd (if im_alias im \<noteq> [] then declare_name (named_symbol (im_alias im)) p False None
              else only_if (im_selective im = []) (change_scopes (add_import m))) (\<lambda>_.
         bnd (each (import_selected m) (im_selective im)) (\<lambda>_. ret p))))"

definition visit_return :: "visitor \<Rightarrow> ptr \<Rightarrow> ptr \<Rightarrow> visit_ctx \<Rightarrow> ptr an" where
  "visit_return v p e ctx =
     (if e = Null then ret p
      else
        bnd get_current_fn (\<lambda>fn.
        bnd (return_type_of fn) (\<lambda>t.
        bnd (visit_expr v Null e (new_ctx p ctx t)) (\<lambda>e1.
        bnd (change_stmt p (set_returned e1)) (\<lambda>_.
        bnd (return_type_of fn) (\<lambda>t1.
        bnd (type_of e1) (\<lambda>et.
        bnd (same_type v t1 et) (\<lambda>ok.
        if \<not> ok
        then bnd (name_of_type t1) (\<lambda>expected.
             bnd (name_of_type et) (\<lambda>got.
             throw_at p ''Expected expression of type {} in return statement but got {}'' [expected, got]))
        else bnd mark_return (\<lambda>_. ret p)))))))))"

text \<open>A return in a block counts for the block around it, whatever the block belongs to.\<close>

definition propagate_return :: "unit an" where
  "propagate_return =
     bnd current_flags (\<lambda>flags.
     bnd level_now (\<lambda>level.
     only_if (has_return flags \<and> level > 1)
       (change_scopes (upd_level (unat (level - 1)) (\<lambda>d. d\<lparr>sd_flags := sd_flags d OR SF_HasReturn\<rparr>)))))"

definition visit_block :: "visitor \<Rightarrow> ptr \<Rightarrow> ptr list \<Rightarrow> visit_ctx \<Rightarrow> ptr an" where
  "visit_block v p ns ctx =
     with_scope
       (bnd (each (\<lambda>n. bnd (v_accept v n (new_ctx p ctx Null)) (\<lambda>_. ret ())) ns) (\<lambda>_.
        bnd propagate_return (\<lambda>_. ret p)))"

definition visit_assignment :: "visitor \<Rightarrow> ptr \<Rightarrow> ptr \<Rightarrow> ptr \<Rightarrow> ptr an" where
  "visit_assignment v p lhs rhs =
     bnd (visit_expr v Null lhs empty_ctx) (\<lambda>l.
     bnd (change_stmt p (set_lhs l)) (\<lambda>_.
     bnd (type_of l) (\<lambda>lt.
     bnd (visit_expr v Null rhs (typed_ctx lt)) (\<lambda>r.
     bnd (change_stmt p (set_rhs r)) (\<lambda>_.
     bnd (symbol_name v l) (\<lambda>name.
     bnd (gets (\<lambda>s. find_symbol s name)) (\<lambda>symb.
     bnd (change_var symb (\<lambda>d. d\<lparr>vd_flags := vd_flags d OR VF_Mutated\<rparr>)) (\<lambda>_.
     bnd (type_of l) (\<lambda>lt1.
     bnd (type_of r) (\<lambda>rt.
     bnd (same_type v lt1 rt) (\<lambda>same.
     bnd (if same then ret True else ask (\<lambda>s. can_coerce_into (v_fuel v) s lt1 rt)) (\<lambda>ok.
     if ok then ret p
     else bnd (name_of_type lt1) (\<lambda>ln.
          bnd (name_of_type rt) (\<lambda>rn.
          throw_at p ''assignment to type of {} cannot be done with type of {}'' [ln, rn]))))))))))))))"

definition visit_if :: "visitor \<Rightarrow> ptr \<Rightarrow> ptr \<Rightarrow> ptr \<Rightarrow> ptr \<Rightarrow> ptr an" where
  "visit_if v p condition body else_br =
     bnd level_now (\<lambda>level.
     if level = 0
     then throw_at p ''none compile time if statements are not allowed in the global scope'' []
     else
       bnd (visit_expr v Null condition empty_ctx) (\<lambda>c.
       bnd (change_stmt p (set_condition c)) (\<lambda>_.
       bnd (type_of c) (\<lambda>t.
       bnd (same_type v t (Static BOOL_TYPE)) (\<lambda>is_bool.
       if \<not> is_bool then throw_at c ''if statement condition must be a bool type'' []
       else
         bnd (v_accept v body empty_ctx) (\<lambda>_.
         bnd current_flags (\<lambda>w.
         bnd (change_scopes (set_current_flags (w AND NOT SF_HasReturn))) (\<lambda>_.
         bnd lower_flags (\<lambda>w1.
         bnd (only_if (else_br \<noteq> Null)
                (bnd (v_accept v else_br empty_ctx) (\<lambda>_.
                 bnd lower_flags (\<lambda>w2.
                 only_if (has_return w1 \<and> has_return w2) mark_return)))) (\<lambda>_. ret p))))))))))"

definition visit_while :: "visitor \<Rightarrow> ptr \<Rightarrow> ptr \<Rightarrow> ptr \<Rightarrow> ptr an" where
  "visit_while v p condition body =
     bnd level_now (\<lambda>level.
     if level = 0
     then throw_at p ''none compile time while loops are not allowed in the global scope'' []
     else
       bnd (visit_expr v Null condition empty_ctx) (\<lambda>c.
       bnd (change_stmt p (set_condition c)) (\<lambda>_.
       bnd (v_accept v body empty_ctx) (\<lambda>_. ret p))))"

text \<open>The variables of a \<open>for\<close> are declared in the scope its body will open. There must be one for
  every binding of the type; that is not checked.\<close>

definition bind_var :: "ptr \<Rightarrow> ptr \<Rightarrow> unit an" where
  "bind_var var type =
     bnd (change_var var (\<lambda>d. d\<lparr>vd_type := meta_of type\<rparr>)) (\<lambda>_.
     bnd (the_var var) (\<lambda>d.
     bnd level_now (\<lambda>level. declare_name (vd_symbol d) var False (Some (unat (level + 1))))))"

primrec bind_types :: "ptr list \<Rightarrow> nat \<Rightarrow> ptr list \<Rightarrow> unit an" where
  "bind_types bindings i [] = ret ()"
| "bind_types bindings i (t # ts) =
     (if i < length bindings
      then bnd (bind_var (bindings ! i) t) (\<lambda>_. bind_types bindings (i + 1) ts)
      else fail (Undefined ''binding out of range''))"

definition visit_for :: "visitor \<Rightarrow> ptr \<Rightarrow> ptr list \<Rightarrow> ptr \<Rightarrow> ptr \<Rightarrow> ptr an" where
  "visit_for v p bindings iterable body =
     bnd (visit_expr v Null iterable empty_ctx) (\<lambda>it.
     bnd (change_stmt p (set_iterable it)) (\<lambda>_.
     bnd (type_of it) (\<lambda>t.
     bnd (ask (\<lambda>s. is_iterable (v_fuel v) s t)) (\<lambda>iterates.
     if \<not> iterates
     then bnd (name_of_type t) (\<lambda>n. throw_at it (''type '' @ squote # ''{}'' @ squote # '' is not iterable'') [n])
     else
       bnd (ask (\<lambda>s. get_iter_bindings (v_fuel v) s t)) (\<lambda>types.
       if length bindings > length types + 1
       then throw_at it ''Too many symbols to bind to, expected at most {} symbols'' [string_of_nat (length types + 1)]
       else
         bnd (bind_types bindings 0 types) (\<lambda>_.
         bnd (only_if (length bindings = length types + 1) (bind_var (last bindings) (Static I32_TYPE))) (\<lambda>_.
         bnd (v_accept v body empty_ctx) (\<lambda>_. ret p))))))))"

text \<open>A method gets \<open>self\<close> as a pointer to the type; one that never changes it gets it immutable.\<close>

definition visit_method :: "visitor \<Rightarrow> ptr \<Rightarrow> ptr \<Rightarrow> ptr \<Rightarrow> unit an" where
  "visit_method v p self method =
     bnd (the_fn method) (\<lambda>fn.
     if fn_flags fn AND FF_Static = 0
     then
       (case fs_parameters (fn_sig fn) of
          [] \<Rightarrow> fail (Undefined ''front of an empty vector'')
        | self_param # _ \<Rightarrow>
            bnd (change_var self_param (\<lambda>d. d\<lparr>vd_type := meta_of self\<rparr>)) (\<lambda>_.
            bnd (accept_type v method (empty_ctx\<lparr>vc_invoker := p\<rparr>)) (\<lambda>_.
            bnd (the_var self_param) (\<lambda>d.
            only_if (vd_flags d AND VF_Mutated = 0)
              (change_var self_param (\<lambda>d. d\<lparr>vd_type := (vd_type d)\<lparr>mut_set := set_bit 0 (mut_set (vd_type d))\<rparr>\<rparr>))))))
     else bnd (accept_type v method (empty_ctx\<lparr>vc_invoker := p\<rparr>)) (\<lambda>_. ret ()))"

definition visit_impl :: "visitor \<Rightarrow> ptr \<Rightarrow> symbol \<Rightarrow> ptr list \<Rightarrow> ptr an" where
  "visit_impl v p type_symbol methods =
     bnd (gets (\<lambda>s. fst (find_local_symbol (sy_name type_symbol) (scopes s)))) (\<lambda>symb.
     bnd (gets (\<lambda>s. if is_user_def s symb then symb else Null)) (\<lambda>type.
     bnd (change_stmt p (set_impl_type type)) (\<lambda>_.
     if type = Null
     then throw_at p ''type does not support methods or is not in the same module as the impl statement'' []
     else
       bnd (accept_type v type empty_ctx) (\<lambda>_.
       bnd (change_type type (set_impl_of p)) (\<lambda>_.
       bnd (make (new_type (PointerType Null []))) (\<lambda>self.
       bnd (pointer_set_inner self type) (\<lambda>_.
       with_scope
         (bnd (declare_name (named_symbol ''Self'') type True None) (\<lambda>_.
          bnd (each (visit_method v p self) methods) (\<lambda>_. ret p))))))))))"

subsection \<open>Expressions\<close>

definition visit_literal :: "visitor \<Rightarrow> ptr \<Rightarrow> visit_ctx \<Rightarrow> ptr an" where
  "visit_literal v p ctx =
     bnd (add_flags p EF_ResolvedInternal) (\<lambda>_.
     bnd (type_of p) (\<lambda>t.
     bnd (if vc_type ctx = Null then ret False else ask (\<lambda>s. can_coerce_into (v_fuel v) s t (vc_type ctx))) (\<lambda>ok.
     bnd (only_if ok (put_type p (vc_type ctx))) (\<lambda>_. ret p))))"

definition visit_member :: "visitor \<Rightarrow> ptr \<Rightarrow> string \<Rightarrow> ptr an" where
  "visit_member v p name =
     bnd (type_of p) (\<lambda>t.
     bnd (\<lambda>s. get_member (v_fuel v) s t name) (\<lambda>m.
     bnd (case m of Some info \<Rightarrow> put_type p (mi_type info) | None \<Rightarrow> ret ()) (\<lambda>_. ret p)))"

definition enum_of :: "'s store_scheme \<Rightarrow> ptr \<Rightarrow> enum_type option" where
  "enum_of s p = (case heap_type s p of Some (EnumType e) \<Rightarrow> Some e | _ \<Rightarrow> None)"

text \<open>A variant of an enum, or the error at the expression \<open>at\<close>.\<close>

definition enum_literal :: "ptr \<Rightarrow> ptr \<Rightarrow> enum_type \<Rightarrow> string \<Rightarrow> ptr an" where
  "enum_literal at p e name =
     bnd (\<lambda>s. Inr (get_literal p e name s)) (\<lambda>literal.
     if literal = Null
     then throw_at at ''enum {} does not have a variant {}'' [sy_name (en_symbol e), name]
     else ret literal)"

text \<open>What a name stands for: a variable, a set of functions, a type.\<close>

definition resolve_symbol :: "visitor \<Rightarrow> ptr \<Rightarrow> string \<Rightarrow> visit_ctx \<Rightarrow> ptr \<Rightarrow> unit an" where
  "resolve_symbol v p name ctx node =
     bnd (gets (\<lambda>s. (as_var s node, as_fn_collection s node, is_type s node))) (\<lambda>kinds.
     case kinds of
       (Some d, _, _) \<Rightarrow>
         bnd (change_var node (\<lambda>d. d\<lparr>vd_flags := vd_flags d OR VF_Used\<rparr>)) (\<lambda>_.
         bnd (put_mut_set p (mut_set (vd_type d))) (\<lambda>_.
         put_type p (meta_ptr (vd_type d))))
     | (None, Some functions, _) \<Rightarrow>
         bnd (gets (\<lambda>s. if call_expr s (vc_invoker ctx) = None then Null else vc_invoker ctx)) (\<lambda>callp.
         bnd (get_fn v callp functions) (\<lambda>f. put_type p f))
     | (None, None, True) \<Rightarrow> put_type p node
     | _ \<Rightarrow> throw_at p ''could not resolve the type of symbol {}'' [name])"

definition visit_symbol :: "visitor \<Rightarrow> ptr \<Rightarrow> string \<Rightarrow> visit_ctx \<Rightarrow> ptr an" where
  "visit_symbol v p name ctx =
     (if vc_member ctx then visit_member v p name
      else
        bnd (gets (\<lambda>s. enum_of s (vc_type ctx))) (\<lambda>enum.
        case enum of
          Some e \<Rightarrow> enum_literal p (vc_type ctx) e name
        | None \<Rightarrow>
            bnd (token_of p) (\<lambda>tok.
            bnd (lookup name tok (vc_override ctx) False) (\<lambda>node.
            bnd (resolve_symbol v p name ctx node) (\<lambda>_.
            bnd (put_body p (SymbolExpr node name)) (\<lambda>_. ret p))))))"

definition visit_binary :: "visitor \<Rightarrow> ptr \<Rightarrow> TokenType \<Rightarrow> ptr \<Rightarrow> ptr \<Rightarrow> visit_ctx \<Rightarrow> ptr an" where
  "visit_binary v p op left right ctx =
     bnd (visit_expr v p left (new_ctx p ctx (vc_type ctx))) (\<lambda>l.
     bnd (put_body p (BinaryExpr op l right)) (\<lambda>_.
     bnd (type_of l) (\<lambda>lt.
     bnd (visit_expr v p right (typed_ctx lt)) (\<lambda>r.
     bnd (put_body p (BinaryExpr op l r)) (\<lambda>_.
     if is_comparison_op op then bnd (put_type p (Static BOOL_TYPE)) (\<lambda>_. ret p)
     else if op = TkDotDot \<or> op = TkDotDotEqual then bnd (put_type p (Static RANGE_TYPE)) (\<lambda>_. ret p)
     else
       bnd (type_of l) (\<lambda>lt1.
       bnd (type_of r) (\<lambda>rt.
       bnd (same_type v lt1 rt) (\<lambda>ok.
       if \<not> ok then throw_at p ''binary expression operands types do not match'' []
       else bnd (put_type p lt1) (\<lambda>_. ret p))))))))) "

definition visit_unary :: "visitor \<Rightarrow> ptr \<Rightarrow> byte \<Rightarrow> ptr \<Rightarrow> visit_ctx \<Rightarrow> ptr an" where
  "visit_unary v p op right ctx =
     bnd (visit_expr v p right (new_ctx p ctx Null)) (\<lambda>r.
     bnd (put_body p (UnaryExpr op r)) (\<lambda>_.
     if op = CHR ''!'' then bnd (put_type p (Static BOOL_TYPE)) (\<lambda>_. ret p)
     else bnd (type_of r) (\<lambda>t. bnd (put_type p t) (\<lambda>_. ret p))))"

text \<open>Expressions that have the type of the one inside: groups, \<open>|e|\<close>, named arguments.\<close>

definition visit_inner :: "visitor \<Rightarrow> ptr \<Rightarrow> (ptr \<Rightarrow> expr_body) \<Rightarrow> ptr \<Rightarrow> visit_ctx \<Rightarrow> ptr an" where
  "visit_inner v p build inner ctx =
     bnd (visit_expr v p inner ctx) (\<lambda>e.
     bnd (put_body p (build e)) (\<lambda>_.
     bnd (type_of e) (\<lambda>t. bnd (put_type p t) (\<lambda>_. ret p))))"

definition visit_group :: "visitor \<Rightarrow> ptr \<Rightarrow> ptr \<Rightarrow> visit_ctx \<Rightarrow> ptr an" where
  "visit_group v p inner ctx = visit_inner v p GroupExpr inner (new_ctx p ctx Null)"

definition visit_abs :: "visitor \<Rightarrow> ptr \<Rightarrow> ptr \<Rightarrow> visit_ctx \<Rightarrow> ptr an" where
  "visit_abs v p inner ctx = visit_inner v p AbsExpr inner (new_ctx p ctx Null)"

definition visit_named :: "visitor \<Rightarrow> ptr \<Rightarrow> string \<Rightarrow> ptr \<Rightarrow> visit_ctx \<Rightarrow> ptr an" where
  "visit_named v p name value ctx = visit_inner v p (NamedExpr name) value (new_ctx p ctx (vc_type ctx))"

definition visit_sizeof :: "visitor \<Rightarrow> ptr \<Rightarrow> ptr \<Rightarrow> visit_ctx \<Rightarrow> ptr an" where
  "visit_sizeof v p inner ctx =
     bnd (put_type p (Static I32_TYPE)) (\<lambda>_.
     bnd (visit_expr v p inner (new_ctx p ctx Null)) (\<lambda>e.
     bnd (put_body p (SizeofExpr e)) (\<lambda>_. ret p)))"

definition visit_nameof :: "visitor \<Rightarrow> ptr \<Rightarrow> ptr \<Rightarrow> visit_ctx \<Rightarrow> ptr an" where
  "visit_nameof v p inner ctx =
     bnd (put_type p (Static STR_TYPE)) (\<lambda>_.
     bnd (visit_expr v p inner (new_ctx p ctx Null)) (\<lambda>e.
     bnd (put_body p (NameofExpr e)) (\<lambda>_. ret p)))"

definition visit_cast :: "visitor \<Rightarrow> ptr \<Rightarrow> type_meta \<Rightarrow> ptr \<Rightarrow> ptr \<Rightarrow> visit_ctx \<Rightarrow> ptr an" where
  "visit_cast v p cast_type target original ctx =
     bnd (resolve_type v cast_type) (\<lambda>meta.
     bnd (put_body p (CastExpr meta target original)) (\<lambda>_.
     bnd (put_type p (meta_ptr meta)) (\<lambda>_.
     bnd (put_mut_set p (mut_set meta)) (\<lambda>_.
     bnd (visit_expr v p target (new_ctx p ctx (meta_ptr meta))) (\<lambda>e.
     bnd (type_of e) (\<lambda>t.
     bnd (put_body p (CastExpr meta e t)) (\<lambda>_.
     bnd (put_type e (meta_ptr meta)) (\<lambda>_. ret p))))))))"

text \<open>\<open>^e\<close>: of a name that is a type it makes the pointer type. The code looks at the symbol of
  the target without asking whether the target is a name.\<close>

definition visit_deref :: "visitor \<Rightarrow> ptr \<Rightarrow> ptr \<Rightarrow> ptr an" where
  "visit_deref v p target =
     bnd (body_of target) (\<lambda>b.
     case b of
       SymbolExpr node _ \<Rightarrow>
         bnd (gets (\<lambda>s. is_type s node)) (\<lambda>names_type.
         if names_type
         then bnd (make (new_type (PointerType Null []))) (\<lambda>ptr.
              bnd (pointer_set_inner ptr node) (\<lambda>_.
              bnd (put_type target ptr) (\<lambda>_. ret target)))
         else
           bnd (type_of target) (\<lambda>t.
           bnd (ask (\<lambda>s. is_ptr (v_fuel v) s t)) (\<lambda>ok.
           if \<not> ok then throw_at p ''Dereference target is not a pointer'' []
           else bnd (ask (\<lambda>s. get_inner (v_fuel v) s t)) (\<lambda>inner.
                bnd (put_type p inner) (\<lambda>_. ret p)))))
     | _ \<Rightarrow> null_deref)"

definition visit_ptr_op :: "visitor \<Rightarrow> ptr \<Rightarrow> TokenType \<Rightarrow> ptr \<Rightarrow> visit_ctx \<Rightarrow> ptr an" where
  "visit_ptr_op v p op target0 ctx =
     bnd (visit_expr v p target0 (new_ctx p ctx Null)) (\<lambda>target.
     bnd (put_body p (PtrOpExpr op target)) (\<lambda>_.
     bnd (the_expr target) (\<lambda>e.
     bnd (put_mut_set p (ex_mut_set e)) (\<lambda>_.
     if op = TkCaret then visit_deref v p target
     else if op = TkAmpersand
     then bnd (make (new_type (PointerType Null []))) (\<lambda>ptr.
          bnd (pointer_set_inner ptr (ex_type e)) (\<lambda>_.
          bnd (put_type p ptr) (\<lambda>_. ret p)))
     else ret p))))"

subsection \<open>Initializer lists\<close>

definition elements_of :: "ptr \<Rightarrow> initializer_element list an" where
  "elements_of p = bnd (body_of p) (\<lambda>b.
     case b of AnonInitExpr es \<Rightarrow> ret es | ArrayLiteralExpr es _ \<Rightarrow> ret es | StructLiteral es _ \<Rightarrow> ret es | _ \<Rightarrow> null_deref)"

definition put_element :: "ptr \<Rightarrow> nat \<Rightarrow> (initializer_element \<Rightarrow> initializer_element) \<Rightarrow> unit an" where
  "put_element p i f = bnd (body_of p) (\<lambda>b.
     put_body p (case b of
       AnonInitExpr es \<Rightarrow> AnonInitExpr (es[i := f (es ! i)])
     | ArrayLiteralExpr es t \<Rightarrow> ArrayLiteralExpr (es[i := f (es ! i)]) t
     | StructLiteral es n \<Rightarrow> StructLiteral (es[i := f (es ! i)]) n
     | other \<Rightarrow> other))"

text \<open>One element of \<open>assign_named_indices\<close>: the field it initializes is that of its name, or the one
  behind the field of the element before. A name that is no field leaves the position behind the
  last field, which is read all the same.\<close>

definition assign_element :: "visitor \<Rightarrow> ptr \<Rightarrow> (string \<times> ptr) list \<Rightarrow> nat \<Rightarrow> nat \<Rightarrow> nat an" where
  "assign_element v p slots i cursor0 =
     bnd (elements_of p) (\<lambda>es.
     let init = ie_expr (es ! i) in
     bnd (gets (\<lambda>s. named_expr s init)) (\<lambda>named.
     let cursor = (case named of
           Some (name, _) \<Rightarrow>
             (case find_index (\<lambda>f. fst f = name) slots of Some k \<Rightarrow> k | None \<Rightarrow> length slots)
         | None \<Rightarrow> cursor0) in
     if cursor \<ge> length slots then fail (Undefined ''field out of range'')
     else
       let expected = snd (slots ! cursor) in
       bnd (accept_expr v init (typed_ctx expected)) (\<lambda>_.
       bnd (type_of init) (\<lambda>t.
       bnd (same_type v expected t) (\<lambda>ok.
       if \<not> ok
       then bnd (name_of_type expected) (\<lambda>en.
            bnd (name_of_type t) (\<lambda>tn.
            throw_at init ''cannot initialize object at position {} of type {} with type {}''
              [string_of_nat i, en, tn]))
       else bnd (put_element p i (\<lambda>e. e\<lparr>ie_index := cursor\<rparr>)) (\<lambda>_. ret (cursor + 1)))))))"

primrec assign_elements :: "visitor \<Rightarrow> ptr \<Rightarrow> (string \<times> ptr) list \<Rightarrow> nat list \<Rightarrow> nat \<Rightarrow> unit an" where
  "assign_elements v p slots [] cursor = ret ()"
| "assign_elements v p slots (i # is) cursor =
     bnd (assign_element v p slots i cursor) (\<lambda>cursor1. assign_elements v p slots is cursor1)"

definition assign_named_indices :: "visitor \<Rightarrow> ptr \<Rightarrow> (string \<times> ptr) list \<Rightarrow> unit an" where
  "assign_named_indices v p slots =
     bnd (elements_of p) (\<lambda>es.
     assign_elements v p slots [0..<min (length slots) (length es)] 0)"

definition assign_struct_indices :: "visitor \<Rightarrow> ptr \<Rightarrow> struct_type \<Rightarrow> unit an" where
  "assign_struct_indices v p st =
     assign_named_indices v p (map (\<lambda>f. (sy_name (fst f), meta_ptr (snd f))) (stt_fields st))"

definition struct_of :: "'s store_scheme \<Rightarrow> ptr \<Rightarrow> struct_type option" where
  "struct_of s p = (case heap_type s p of Some (StructType st) \<Rightarrow> Some st | _ \<Rightarrow> None)"

definition visit_struct_literal :: "visitor \<Rightarrow> ptr \<Rightarrow> string \<Rightarrow> ptr an" where
  "visit_struct_literal v p name =
     bnd (token_of p) (\<lambda>tok.
     bnd (lookup_type name tok) (\<lambda>t.
     bnd (put_type p t) (\<lambda>_.
     bnd (gets (\<lambda>s. struct_of s t)) (\<lambda>struct.
     case struct of
       None \<Rightarrow> bnd (name_of_type t) (\<lambda>n. throw_at p ''{} is not a struct'' [n])
     | Some st \<Rightarrow> bnd (assign_struct_indices v p st) (\<lambda>_. ret p)))))"

text \<open>The field of an anonymous struct.\<close>

definition anon_field :: "visitor \<Rightarrow> ptr \<Rightarrow> ptr \<Rightarrow> nat \<Rightarrow> unit an" where
  "anon_field v p type i =
     bnd (elements_of p) (\<lambda>es.
     let init = ie_expr (es ! i) in
     bnd (gets (\<lambda>s. named_expr s init)) (\<lambda>named.
     case named of
       None \<Rightarrow> throw_at init ''anon struct can only contain named fields'' []
     | Some (name, value) \<Rightarrow>
         bnd (accept_expr v value empty_ctx) (\<lambda>_.
         bnd (type_of value) (\<lambda>t.
         bnd (change_struct type (\<lambda>st. st\<lparr>stt_fields := stt_fields st @ [(named_symbol name, meta_of t)]\<rparr>)) (\<lambda>_.
         put_element p i (\<lambda>e. e\<lparr>ie_index := i\<rparr>))))))"

definition visit_anon_init :: "visitor \<Rightarrow> ptr \<Rightarrow> visit_ctx \<Rightarrow> ptr an" where
  "visit_anon_init v p ctx =
     bnd (elements_of p) (\<lambda>es.
     if vc_type ctx = Null \<and> es \<noteq> []
     then
       bnd (make (new_type (StructType empty_struct))) (\<lambda>type.
       bnd (put_type p type) (\<lambda>_.
       bnd (each (anon_field v p type) [0..<length es]) (\<lambda>_. ret p)))
     else
       bnd (ask (\<lambda>s. produce_type s (vc_type ctx))) (\<lambda>t.
       bnd (put_type p t) (\<lambda>_.
       bnd (gets (\<lambda>s. struct_of s t)) (\<lambda>struct.
       bnd (case struct of Some st \<Rightarrow> assign_struct_indices v p st | None \<Rightarrow> ret ()) (\<lambda>_. ret p)))))"

definition inner_of_array :: "ptr \<Rightarrow> ptr an" where
  "inner_of_array p = ask (\<lambda>s. case array_of s p of Some ar \<Rightarrow> Inr (ar_element_type ar) | None \<Rightarrow> null_pointer)"

definition array_element :: "visitor \<Rightarrow> ptr \<Rightarrow> ptr \<Rightarrow> nat \<Rightarrow> unit an" where
  "array_element v p array i =
     bnd (elements_of p) (\<lambda>es.
     bnd (inner_of_array array) (\<lambda>inner.
     bnd (visit_expr v p (ie_expr (es ! i)) (typed_ctx inner)) (\<lambda>e.
     bnd (put_element p i (\<lambda>x. x\<lparr>ie_expr := e\<rparr>)) (\<lambda>_.
     bnd (inner_of_array array) (\<lambda>inner1.
     bnd (only_if (inner1 = Null)
            (bnd (type_of e) (\<lambda>t. base_array_set_inner array t))) (\<lambda>_.
     bnd (inner_of_array array) (\<lambda>inner2.
     bnd (type_of e) (\<lambda>t1.
     bnd (same_type v inner2 t1) (\<lambda>ok.
     if \<not> ok then throw_at e ''array literal element types dont all match'' []
     else put_element p i (\<lambda>x. x\<lparr>ie_index := i\<rparr>))))))))))"

text \<open>The type of an array literal: the elements are of the type in front of it, or of the
  elements of the array it initializes.\<close>

definition literal_array_type :: "visitor \<Rightarrow> ptr \<Rightarrow> visit_ctx \<Rightarrow> ptr an" where
  "literal_array_type v specifier ctx =
     bnd (make (new_type (ArrayType empty_array))) (\<lambda>array.
     if specifier \<noteq> Null
     then
       bnd (symbol_name v specifier) (\<lambda>name.
       bnd (token_of specifier) (\<lambda>tok.
       bnd (lookup_type name tok) (\<lambda>type.
       bnd (base_array_set_inner array type) (\<lambda>_. ret array))))
     else
       bnd (ask (\<lambda>s. produce_obj s (vc_type ctx))) (\<lambda>array_ctx.
       case array_ctx of
         Some t \<Rightarrow>
           if kind_of t = Kind_Array \<or> kind_of t = Kind_Slice
           then bnd (base_array_set_inner array (inner_of t)) (\<lambda>_. ret array) else ret array
       | None \<Rightarrow> ret array))"

text \<open>The node of the type is new, so it has no named members and the branch of the code for them
  is never taken.\<close>

definition visit_array_literal :: "visitor \<Rightarrow> ptr \<Rightarrow> ptr \<Rightarrow> visit_ctx \<Rightarrow> ptr an" where
  "visit_array_literal v p specifier ctx =
     bnd (elements_of p) (\<lambda>es.
     if es = [] then ret p
     else
       bnd (literal_array_type v specifier ctx) (\<lambda>array.
       bnd (put_type p array) (\<lambda>_.
       bnd (change_array array (\<lambda>a. a\<lparr>ar_size := length es\<rparr>)) (\<lambda>_.
       bnd (each (array_element v p array) [0..<length es]) (\<lambda>_.
       bnd (gets (\<lambda>s. array_of s (vc_type ctx))) (\<lambda>ctx_array.
       case ctx_array of
         None \<Rightarrow> ret p
       | Some ar \<Rightarrow>
           if ar_size ar = UNSIZED_ARRAY then ret p
           else
             bnd (ask (\<lambda>s. case array_of s array of Some a \<Rightarrow> Inr (ar_size a) | None \<Rightarrow> null_pointer)) (\<lambda>n.
             if ar_size ar < n then throw_at p ''Array has too many members'' []
             else bnd (change_array array (\<lambda>a. a\<lparr>ar_size := ar_size ar\<rparr>)) (\<lambda>_. ret p))))))))"

definition visit_index :: "visitor \<Rightarrow> ptr \<Rightarrow> ptr \<Rightarrow> ptr \<Rightarrow> visit_ctx \<Rightarrow> ptr an" where
  "visit_index v p lhs index ctx =
     bnd (symbol_name v lhs) (\<lambda>name.
     bnd (token_of lhs) (\<lambda>tok.
     bnd (lookup name tok None True) (\<lambda>left_symbol.
     bnd (gets (\<lambda>s. is_type s left_symbol)) (\<lambda>names_type.
     if names_type
     then
       bnd (make (new_expr (ArrayLiteralExpr [initializer index] lhs))) (\<lambda>literal.
       visit_expr v p literal empty_ctx)
     else
       bnd (type_of p) (\<lambda>t.
       bnd (put_type lhs t) (\<lambda>_.
       bnd (visit_expr v p lhs (new_ctx p ctx Null)) (\<lambda>l.
       bnd (put_body p (IndexOpExpr l index)) (\<lambda>_.
       bnd (visit_expr v p index empty_ctx) (\<lambda>i.
       bnd (put_body p (IndexOpExpr l i)) (\<lambda>_.
       bnd (type_of i) (\<lambda>it.
       bnd (ask (\<lambda>s. is_int (v_fuel v) s it)) (\<lambda>int_index.
       if \<not> int_index then throw_at i ''Array index must be an integer'' []
       else
         bnd (type_of l) (\<lambda>lt.
         bnd (ask (\<lambda>s. is_array (v_fuel v) s lt)) (\<lambda>ok.
         if \<not> ok then throw_at l ''left hand side is not an array'' []
         else bnd (ask (\<lambda>s. get_inner (v_fuel v) s lt)) (\<lambda>inner.
              bnd (put_type p inner) (\<lambda>_. ret p)))))))))))))))) "

definition visit_slice :: "visitor \<Rightarrow> ptr \<Rightarrow> ptr \<Rightarrow> ptr \<Rightarrow> ptr \<Rightarrow> ptr an" where
  "visit_slice v p lhs start stop =
     bnd (visit_expr v p lhs empty_ctx) (\<lambda>l.
     bnd (put_body p (SliceExpr l start stop)) (\<lambda>_.
     bnd (visit_expr v p start empty_ctx) (\<lambda>i.
     bnd (put_body p (SliceExpr l i stop)) (\<lambda>_.
     bnd (visit_expr v p stop empty_ctx) (\<lambda>j.
     bnd (put_body p (SliceExpr l i j)) (\<lambda>_.
     bnd (type_of l) (\<lambda>t.
     bnd (ask (\<lambda>s. is_array (v_fuel v) s t)) (\<lambda>ok.
     if \<not> ok
     then bnd (type_of p) (\<lambda>pt.
          bnd (name_of_type pt) (\<lambda>n. throw_at p ''type of {} cannot be sliced'' [n]))
     else
       bnd (make (new_type (SliceType Null []))) (\<lambda>slice.
       bnd (ask (\<lambda>s. get_inner (v_fuel v) s t)) (\<lambda>inner.
       bnd (base_array_set_inner slice inner) (\<lambda>_.
       bnd (put_type p slice) (\<lambda>_. ret p))))))))))))"

subsection \<open>Member access\<close>

definition target_of :: "ptr \<Rightarrow> ptr an" where
  "target_of p = bnd (body_of p) (\<lambda>b. case b of MemberAccessExpr t _ _ _ \<Rightarrow> ret t | _ \<Rightarrow> null_deref)"

definition accessor_of :: "ptr \<Rightarrow> ptr an" where
  "accessor_of p = bnd (body_of p) (\<lambda>b. case b of MemberAccessExpr _ a _ _ \<Rightarrow> ret a | _ \<Rightarrow> null_deref)"

definition upd_member :: "(ptr \<times> ptr \<times> bool \<times> bool \<Rightarrow> ptr \<times> ptr \<times> bool \<times> bool) \<Rightarrow> expr_body \<Rightarrow> expr_body" where
  "upd_member f b =
     (case b of
        MemberAccessExpr t a st m \<Rightarrow> (case f (t, a, st, m) of (t', a', st', m') \<Rightarrow> MemberAccessExpr t' a' st' m')
      | _ \<Rightarrow> b)"

definition put_target :: "ptr \<Rightarrow> ptr \<Rightarrow> unit an" where
  "put_target p t = bnd (body_of p) (\<lambda>b. put_body p (upd_member (\<lambda>(_, a, st, m). (t, a, st, m)) b))"

definition put_accessor :: "ptr \<Rightarrow> ptr \<Rightarrow> unit an" where
  "put_accessor p a = bnd (body_of p) (\<lambda>b. put_body p (upd_member (\<lambda>(t, _, st, m). (t, a, st, m)) b))"

definition put_is_method :: "ptr \<Rightarrow> bool \<Rightarrow> unit an" where
  "put_is_method p m = bnd (body_of p) (\<lambda>b. put_body p (upd_member (\<lambda>(t, a, st, _). (t, a, st, m)) b))"

text \<open>\<open>i32.max\<close>: a property of a type.\<close>

definition access_property :: "ptr \<Rightarrow> ptr \<Rightarrow> unit an" where
  "access_property p type_node =
     bnd (accessor_of p) (\<lambda>accessor.
     bnd (gets (\<lambda>s. case as_expr s accessor of
            Some e \<Rightarrow> (case ex_body e of SymbolExpr _ name \<Rightarrow> Some name | _ \<Rightarrow> None) | None \<Rightarrow> None)) (\<lambda>prop_symbol.
     case prop_symbol of
       None \<Rightarrow> throw_at type_node ''Expected identifier for type property access'' []
     | Some name \<Rightarrow>
         bnd (token_of p) (\<lambda>tok.
         bnd (make (NExpr \<lparr>ex_token = tok, ex_flags = 0, ex_mut_set = 0, ex_type = type_node,
                          ex_body = TypePropExpr name\<rparr>)) (\<lambda>prop.
         put_accessor p prop))))"

text \<open>The member of the name, as a method first when it is called.\<close>

definition find_member :: "visitor \<Rightarrow> ptr \<Rightarrow> ptr \<Rightarrow> string \<Rightarrow> bool \<Rightarrow> member_info an" where
  "find_member v p type name is_method =
     bnd (if is_method then ask (\<lambda>s. get_method (v_fuel v) s type name) else (\<lambda>s. get_member (v_fuel v) s type name)) (\<lambda>m.
     bnd (if is_method \<and> m = None
          then bnd (\<lambda>s. get_member (v_fuel v) s type name) (\<lambda>m1. bnd (put_is_method p False) (\<lambda>_. ret m1))
          else ret m) (\<lambda>m2.
     case m2 of
       Some info \<Rightarrow> ret info
     | None \<Rightarrow>
         bnd (target_of p) (\<lambda>target.
         bnd (symbol_name v target) (\<lambda>tn.
         throw_at p (''member '' @ squote # ''{}'' @ squote # '' does not exist on '' @ squote # ''{}'' @ squote # '' object'') [name, tn]))))"

text \<open>A method is called with the address of the object as its first argument.\<close>

definition pass_self :: "ptr \<Rightarrow> ptr \<Rightarrow> unit an" where
  "pass_self callp target =
     bnd (type_of target) (\<lambda>t.
     bnd (gets (\<lambda>s. class_is s Kind_Pointer t)) (\<lambda>is_pointer.
     bnd (if is_pointer then add_flags target EF_AlwaysLoad
          else
            bnd (add_flags target EF_AlwaysPtr) (\<lambda>_.
            bnd (make (new_type (PointerType Null []))) (\<lambda>self.
            bnd (ask (\<lambda>s. get_real_type s t)) (\<lambda>real.
            bnd (pointer_set_inner self real) (\<lambda>_. put_type target self))))) (\<lambda>_.
     bnd (call_args callp) (\<lambda>args. put_call_args callp (target # args)))))"

definition is_method_access :: "ptr \<Rightarrow> bool an" where
  "is_method_access p = bnd (body_of p) (\<lambda>b. case b of MemberAccessExpr _ _ st m \<Rightarrow> ret (m \<and> \<not> st) | _ \<Rightarrow> null_deref)"

definition access_member :: "visitor \<Rightarrow> ptr \<Rightarrow> visit_ctx \<Rightarrow> unit an" where
  "access_member v p ctx0 =
     (let ctx = new_ctx p ctx0 Null in
     bnd (type_of p) (\<lambda>t.
     bnd (target_of p) (\<lambda>target0.
     bnd (put_type target0 t) (\<lambda>_.
     bnd (if t = Null \<or> vc_member ctx
          then bnd (visit_expr v p target0 ctx) (\<lambda>e. bnd (put_target p e) (\<lambda>_. ret e))
          else ret target0) (\<lambda>target.
     bnd (accessor_of p) (\<lambda>accessor.
     bnd (symbol_name v accessor) (\<lambda>subsymbol.
     bnd (gets (\<lambda>s. call_expr s accessor \<noteq> None)) (\<lambda>is_call.
     bnd (put_is_method p is_call) (\<lambda>_.
     bnd (type_of target) (\<lambda>tt.
     bnd (find_member v p tt subsymbol is_call) (\<lambda>info.
     bnd (is_method_access p) (\<lambda>with_self.
     bnd (only_if with_self (pass_self accessor target)) (\<lambda>_.
     bnd (only_if is_call (bnd (callable_of accessor) (\<lambda>c. put_type c (mi_type info)))) (\<lambda>_.
     bnd (put_type accessor (mi_type info)) (\<lambda>_.
     bnd (visit_expr v p accessor (ctx\<lparr>vc_member := True\<rparr>)) (\<lambda>a.
     put_accessor p a))))))))))))))))"

definition finish_access :: "ptr \<Rightarrow> ptr an" where
  "finish_access p =
     bnd (accessor_of p) (\<lambda>a.
     bnd (type_of a) (\<lambda>t.
     bnd (put_type p t) (\<lambda>_.
     bnd (target_of p) (\<lambda>target.
     bnd (the_expr target) (\<lambda>e.
     bnd (put_mut_set p (ex_mut_set e)) (\<lambda>_. ret p))))))"

definition import_of :: "'s store_scheme \<Rightarrow> ptr \<Rightarrow> import_stmt option" where
  "import_of s p =
     (case as_stmt s p of
        Some st \<Rightarrow> (case st_body st of ImportStmt im \<Rightarrow> Some im | _ \<Rightarrow> None) | None \<Rightarrow> None)"

definition visit_member_access :: "visitor \<Rightarrow> ptr \<Rightarrow> ptr \<Rightarrow> ptr \<Rightarrow> bool \<Rightarrow> visit_ctx \<Rightarrow> ptr an" where
  "visit_member_access v p target accessor is_static ctx =
     bnd (symbol_name v target) (\<lambda>symb.
     bnd (token_of p) (\<lambda>tok.
     bnd (if vc_member ctx then ret Null else lookup symb tok None False) (\<lambda>symbol_node.
     bnd (gets (\<lambda>s. (import_of s symbol_node, enum_of s symbol_node, is_type s symbol_node))) (\<lambda>kinds.
     case kinds of
       (Some im, _, _) \<Rightarrow>
         (case im_module im of
            None \<Rightarrow> null_deref
          | Some m \<Rightarrow>
              bnd (visit_expr v p accessor (new_ctx p (ctx\<lparr>vc_override := Some m\<rparr>) Null)) (\<lambda>a.
              bnd (put_accessor p a) (\<lambda>_. finish_access p)))
     | (None, Some e, _) \<Rightarrow>
         bnd (symbol_name v accessor) (\<lambda>name. enum_literal accessor symbol_node e name)
     | (None, None, names_type) \<Rightarrow>
         bnd (if names_type \<and> \<not> is_static then access_property p symbol_node else access_member v p ctx) (\<lambda>_.
         finish_access p)))))"

subsection \<open>\<open>accept\<close>\<close>

definition visit_expr_node :: "visitor \<Rightarrow> ptr \<Rightarrow> expr_body \<Rightarrow> visit_ctx \<Rightarrow> ptr an" where
  "visit_expr_node v p b ctx =
     (case b of
        LiteralExpr _ \<Rightarrow> visit_literal v p ctx
      | BinaryExpr op l r \<Rightarrow> visit_binary v p op l r ctx
      | UnaryExpr op r \<Rightarrow> visit_unary v p op r ctx
      | SymbolExpr _ name \<Rightarrow> visit_symbol v p name ctx
      | CallExpr _ _ \<Rightarrow> visit_call v p ctx
      | GroupExpr e \<Rightarrow> visit_group v p e ctx
      | SizeofExpr e \<Rightarrow> visit_sizeof v p e ctx
      | NameofExpr e \<Rightarrow> visit_nameof v p e ctx
      | MemberAccessExpr t a st _ \<Rightarrow> visit_member_access v p t a st ctx
      | CastExpr meta t original \<Rightarrow> visit_cast v p meta t original ctx
      | NamedExpr name e \<Rightarrow> visit_named v p name e ctx
      | AbsExpr e \<Rightarrow> visit_abs v p e ctx
      | PtrOpExpr op e \<Rightarrow> visit_ptr_op v p op e ctx
      | AnonInitExpr _ \<Rightarrow> visit_anon_init v p ctx
      | ArrayLiteralExpr _ specifier \<Rightarrow> visit_array_literal v p specifier ctx
      | IndexOpExpr lhs index \<Rightarrow> visit_index v p lhs index ctx
      | StructLiteral _ name \<Rightarrow> visit_struct_literal v p name
      | SliceExpr lhs start stop \<Rightarrow> visit_slice v p lhs start stop
      | PackedExpr \<Rightarrow> ret p
      | TypeExpr \<Rightarrow> ret Null
      | TypePropExpr _ \<Rightarrow> ret Null
      | EnumLiteralExpr _ \<Rightarrow> ret Null
      | KeywordExpr \<Rightarrow> ret Null)"

definition visit_stmt_node :: "visitor \<Rightarrow> ptr \<Rightarrow> stmt_body \<Rightarrow> visit_ctx \<Rightarrow> ptr an" where
  "visit_stmt_node v p b ctx =
     (case b of
        VarDeclStmt _ \<Rightarrow> visit_var v p ctx
      | AssignmentStmt l r _ \<Rightarrow> visit_assignment v p l r
      | BlockStmt ns \<Rightarrow> visit_block v p ns ctx
      | ImportStmt im \<Rightarrow> visit_import v p im
      | ReturnStmt e \<Rightarrow> visit_return v p e ctx
      | IfStmt c b e \<Rightarrow> visit_if v p c b e
      | CompIfStmt i \<Rightarrow> bnd (v_accept v i empty_ctx) (\<lambda>_. ret p)
      | WhileStmt c b \<Rightarrow> visit_while v p c b
      | ForStmt bs it b \<Rightarrow> visit_for v p bs it b
      | ImplStmt symb _ methods \<Rightarrow> visit_impl v p symb methods
      | BreakStmt \<Rightarrow> ret Null
      | ContinueStmt \<Rightarrow> ret Null
      | ConstantReturnStmt _ \<Rightarrow> ret Null)"

definition visit_type_node :: "visitor \<Rightarrow> ptr \<Rightarrow> type_body \<Rightarrow> visit_ctx \<Rightarrow> ptr an" where
  "visit_type_node v p b ctx =
     (case b of
        UnresolvedSymbolType name \<Rightarrow> visit_unresolved p name ctx
      | AliasType al \<Rightarrow> visit_alias v p al
      | PointerType inner _ \<Rightarrow> visit_pointer v p inner
      | ArrayType ar \<Rightarrow> visit_array_type v p ar
      | SliceType inner _ \<Rightarrow> visit_slice_type v p inner
      | StructType _ \<Rightarrow> visit_struct v p
      | FnType _ \<Rightarrow> visit_fn v p ctx
      | EnumType _ \<Rightarrow> ret Null)"

text \<open>Of the types that exist once only \<open>str\<close> and the type of \<open>null\<close> are pointers that \<open>visit\<close>
  would take; it only writes their own inner type to them again.\<close>

definition visit_node :: "visitor \<Rightarrow> ptr \<Rightarrow> visit_ctx \<Rightarrow> ptr an" where
  "visit_node v p ctx = (\<lambda>s.
     (case peek_node s p of
        Some (NExpr e) \<Rightarrow> visit_expr_node v p (ex_body e) ctx
      | Some (NStmt st) \<Rightarrow> visit_stmt_node v p (st_body st) ctx
      | Some (NType t) \<Rightarrow> visit_type_node v p (ty_body t) ctx
      | Some (NFnCollection _ _) \<Rightarrow> ret Null
      | None \<Rightarrow>
          (case p of
             Static b \<Rightarrow> ret (if b = STR_TYPE \<or> b = VOID_POINTER_TYPE then p else Null)
           | _ \<Rightarrow> null_deref)) s)"

text \<open>\<open>analyzer n\<close> may nest \<open>n\<close> visits; its other loops have the fuel of the environment.\<close>

primrec accept :: "visitor \<Rightarrow> nat \<Rightarrow> ptr \<Rightarrow> visit_ctx \<Rightarrow> ptr an" where
  "accept env 0 = (\<lambda>p ctx. fail OutOfFuel)"
| "accept env (Suc n) = visit_node (env\<lparr>v_accept := accept env n\<rparr>)"

text \<open>\<open>Analyzer::analyze\<close>\<close>

definition analyze :: "visitor \<Rightarrow> nat \<Rightarrow> ptr list \<Rightarrow> unit an" where
  "analyze env n ns = each (\<lambda>p. bnd (accept env n p empty_ctx) (\<lambda>_. ret ())) ns"

end
