(* ===== verification/Analyzer_Frame.thy ===== *)
theory Analyzer_Frame
  imports Analyzer "HOL-Library.Sublist"
begin

unbundle bit_operations_syntax

section \<open>What the analyzer leaves as it was\<close>

text \<open>
  The analyzer changes nodes in place, opens scopes, pushes functions and counts the depth of
  expressions. \<open>steady\<close> says what a visit that returns has restored or kept: the level and the
  lock of the scope table, the function stack, the depth, the class of every node with the
  members that make up the shape of the tree (\<open>skel\<close>), all symbols known to other modules,
  the modules and the files. Flags of a scope are changed only by what stands in it or one block below, so
  the relation says how many of the innermost scopes may have other flags (\<open>d\<close>).
\<close>

subsection \<open>The shape of nodes\<close>

fun skel_stmt :: "stmt_body \<Rightarrow> stmt_body" where
  "skel_stmt (VarDeclStmt _) = VarDeclStmt empty_var_decl"
| "skel_stmt (AssignmentStmt _ _ op) = AssignmentStmt Null Null op"
| "skel_stmt (BlockStmt ns) = BlockStmt ns"
| "skel_stmt (ImportStmt _) = ImportStmt empty_import"
| "skel_stmt (ReturnStmt e) = ReturnStmt (if e = Null then Null else Static VOID_TYPE)"
| "skel_stmt (ConstantReturnStmt _) = ConstantReturnStmt Null"
| "skel_stmt BreakStmt = BreakStmt"
| "skel_stmt ContinueStmt = ContinueStmt"
| "skel_stmt (IfStmt _ b e) = IfStmt Null b e"
| "skel_stmt (CompIfStmt i) = CompIfStmt i"
| "skel_stmt (WhileStmt _ b) = WhileStmt Null b"
| "skel_stmt (ForStmt _ _ b) = ForStmt [] Null b"
| "skel_stmt (ImplStmt symb _ ms) = ImplStmt symb Null ms"

fun skel_type :: "type_body \<Rightarrow> type_body" where
  "skel_type (UnresolvedSymbolType _) = UnresolvedSymbolType []"
| "skel_type (AliasType _) = AliasType empty_alias"
| "skel_type (PointerType _ _) = PointerType Null []"
| "skel_type (ArrayType _) = ArrayType empty_array"
| "skel_type (SliceType _ _) = SliceType Null []"
| "skel_type (StructType _) = StructType empty_struct"
| "skel_type (FnType f) = FnType (empty_fn\<lparr>fn_symbol := fn_symbol f, fn_body := fn_body f,
     fn_collection := fn_collection f,
     fn_sig := (fn_sig f)\<lparr>fs_return_type := empty_meta\<rparr>\<rparr>)"
| "skel_type (EnumType _) = EnumType empty_enum"

fun skel :: "node \<Rightarrow> node" where
  "skel (NExpr e) = new_expr KeywordExpr"
| "skel (NStmt st) = new_stmt (skel_stmt (st_body st))"
| "skel (NType t) = new_type (skel_type (ty_body t))"
| "skel (NFnCollection k fns) = NFnCollection empty_token fns"

lemma skel_updates [simp]:
  "skel (upd_expr f n) = skel n" "skel (upd_var g n) = skel n" "skel (set_expr_body b n) = skel n"
  by (cases n; simp add: upd_expr_def upd_var_def set_expr_body_def split: stmt_body.split)+

lemma skel_set_stmt:
  "n = NStmt st \<Longrightarrow> skel (set_stmt_body b n) = new_stmt (skel_stmt b)"
  by (simp add: set_stmt_body_def)

subsection \<open>The relation\<close>

definition flags_at :: "scope_table \<Rightarrow> nat \<Rightarrow> 32 word" where
  "flags_at t i = sd_flags (m_table t ! i)"

definition steady :: "nat \<Rightarrow> analyzer \<Rightarrow> analyzer \<Rightarrow> bool" where
  "steady d s s' \<longleftrightarrow>
     m_level (scopes s') = m_level (scopes s) \<and> m_locked_level (scopes s') = m_locked_level (scopes s) \<and>
     m_scope_file_id (scopes s') = m_scope_file_id (scopes s) \<and>
     length (m_table (scopes s)) \<le> length (m_table (scopes s')) \<and>
     (\<forall>i < length (m_table (scopes s)). i + d \<le> unat (m_level (scopes s)) \<longrightarrow>
        flags_at (scopes s') i = flags_at (scopes s) i) \<and>
     an_function_stack s' = an_function_stack s \<and> an_expr_depth s' = an_expr_depth s \<and>
     prefix (map skel (nodes s)) (map skel (nodes s')) \<and>
     (\<forall>nm. set (find_global_symbol s nm) \<subseteq> set (find_global_symbol s' nm)) \<and>
     (\<forall>path i. hm_find (an_module_table s) path = Some i \<longrightarrow> hm_find (an_module_table s') path = Some i) \<and>
     prefix (g_file_index (an_files s)) (g_file_index (an_files s'))"

lemma steady_refl [simp, intro]: "steady d s s"
  by (simp add: steady_def)

lemma steady_trans: "steady d s s' \<Longrightarrow> steady d s' s'' \<Longrightarrow> steady d s s''"
  unfolding steady_def by (auto intro: prefix_order.trans) (meson subset_iff)

lemma steady_weaken: "steady d s s' \<Longrightarrow> d \<le> e \<Longrightarrow> steady e s s'"
  unfolding steady_def by auto

lemma steady_level: "steady d s s' \<Longrightarrow> m_level (scopes s') = m_level (scopes s)"
  by (simp add: steady_def)

lemma steady_node:
  assumes "steady d s s'" and "peek_node s p = Some k"
  obtains k' where "peek_node s' p = Some k'" and "skel k' = skel k"
proof -
  obtain i where i: "p = At i" "i < length (nodes s)" "k = nodes s ! i"
    using assms(2) by (auto simp: peek_node_def split: ptr.splits if_splits)
  have "prefix (map skel (nodes s)) (map skel (nodes s'))" using assms(1) by (simp add: steady_def)
  then obtain zs where z: "map skel (nodes s') = map skel (nodes s) @ zs" by (auto elim: prefixE)
  then have l: "i < length (nodes s')" using i(2) by (metis le_add1 length_append length_map less_le_trans)
  have "skel (nodes s' ! i) = map skel (nodes s') ! i" using l by simp
  also have "\<dots> = skel (nodes s ! i)" using z i(2) by (simp add: nth_append)
  finally show ?thesis using that [of "nodes s' ! i"] i l by (simp add: peek_node_def)
qed

text \<open>The visits that return keep the relation, as long as the level cannot wrap around.\<close>

definition stays :: "nat \<Rightarrow> nat \<Rightarrow> 'a an \<Rightarrow> bool" where
  "stays n d m \<longleftrightarrow> (\<forall>s x s'. unat (m_level (scopes s)) + n < 2 ^ 16 \<longrightarrow> m s = Inr (x, s') \<longrightarrow> steady d s s')"

named_theorems stays_intros

lemma staysI:
  "(\<And>s x s'. unat (m_level (scopes s)) + n < 2 ^ 16 \<Longrightarrow> m s = Inr (x, s') \<Longrightarrow> steady d s s') \<Longrightarrow> stays n d m"
  by (simp add: stays_def)

lemma staysD: "stays n d m \<Longrightarrow> m s = Inr (x, s') \<Longrightarrow> unat (m_level (scopes s)) + n < 2 ^ 16 \<Longrightarrow> steady d s s'"
  by (simp add: stays_def)

lemma stays_weaken: "stays n d m \<Longrightarrow> n \<le> k \<Longrightarrow> d \<le> e \<Longrightarrow> stays k e m"
  unfolding stays_def by (meson add_left_mono le_less_trans steady_weaken)

lemma stays_steady: "(\<And>s x s'. m s = Inr (x, s') \<Longrightarrow> steady d s s') \<Longrightarrow> stays n d m"
  unfolding stays_def by blast

lemma stays_pure: "(\<And>s x s'. m s = Inr (x, s') \<Longrightarrow> s' = s) \<Longrightarrow> stays n d m"
  unfolding stays_def by (metis steady_refl)

lemma stays_basic [stays_intros, simp]:
  "stays n d (ret x)" "stays n d (fail e)" "stays n d (gets f)" "stays n d null_deref"
  "stays n d (throw_frontend t msg)" "stays n d (throw_formatted t msg args)"
  by (rule stays_pure, auto simp: null_deref_def throw_formatted_def split: option.splits)+

lemma stays_ask [stays_intros, simp]: "stays n d (ask q)"
  by (rule stays_pure) (auto simp: ask_def rbind_eq_Inr_iff)

lemma stays_bnd [stays_intros]:
  assumes "stays n d m" and "\<And>x. stays n d (f x)"
  shows "stays n d (bnd m f)"
proof (rule staysI)
  fix s x s' assume l: "unat (m_level (scopes s)) + n < 2 ^ 16" and "bnd m f s = Inr (x, s')"
  then obtain y s1 where 1: "m s = Inr (y, s1)" and 2: "f y s1 = Inr (x, s')" by auto
  have a: "steady d s s1" using staysD [OF assms(1) 1 l] .
  then have "unat (m_level (scopes s1)) + n < 2 ^ 16" using l by (simp add: steady_level)
  from steady_trans [OF a staysD [OF assms(2) 2 this]] show "steady d s s'" .
qed

lemma stays_if [stays_intros]: "stays n d m \<Longrightarrow> stays n d m' \<Longrightarrow> stays n d (if c then m else m')"
  by simp

lemma stays_only_if [stays_intros]: "stays n d m \<Longrightarrow> stays n d (only_if c m)"
  by (simp add: only_if_def)

lemma stays_option [stays_intros]:
  "stays n d m \<Longrightarrow> (\<And>x. stays n d (f x)) \<Longrightarrow> stays n d (case r of None \<Rightarrow> m | Some x \<Rightarrow> f x)"
  by (cases r) auto

lemma stays_prod [stays_intros]: "(\<And>x y. stays n d (f x y)) \<Longrightarrow> stays n d (case p of (x, y) \<Rightarrow> f x y)"
  by (cases p) auto

lemma stays_list [stays_intros]:
  "stays n d m \<Longrightarrow> (\<And>x xs. stays n d (f x xs)) \<Longrightarrow> stays n d (case l of [] \<Rightarrow> m | x # xs \<Rightarrow> f x xs)"
  by (cases l) auto

lemma stays_bool [stays_intros]: "stays n d m \<Longrightarrow> stays n d m' \<Longrightarrow> stays n d (case c of True \<Rightarrow> m | False \<Rightarrow> m')"
  by (cases c) auto

lemma stays_let [stays_intros]: "stays n d (f x) \<Longrightarrow> stays n d (let y = x in f y)"
  by simp

lemma stays_Inr [stays_intros, simp]: "stays n d (\<lambda>a. Inr (x, a))"
  by (rule stays_pure) simp

lemma stays_each [stays_intros]: "(\<And>x. stays n d (f x)) \<Longrightarrow> stays n d (each f xs)"
  by (induction xs) (auto intro: stays_intros)

lemma stays_at: "(\<And>s. \<exists>m'. m s = m' s \<and> stays n d m') \<Longrightarrow> stays n d m"
  unfolding stays_def by metis

subsection \<open>Nodes and scopes\<close>

lemma map_poke:
  assumes "\<And>n. peek_node s p = Some n \<Longrightarrow> skel (f n) = skel n"
  shows "map skel (nodes (poke_node p f s)) = map skel (nodes s)"
  using assms by (auto simp: poke_node_def peek_node_def map_update split: ptr.splits intro!: list_update_same_conv[THEN iffD2])

lemma poke_frames [simp, frame_simps]:
  "scopes (poke_node p f s) = scopes s" "an_function_stack (poke_node p f t) = an_function_stack t"
  "an_expr_depth (poke_node p f t) = an_expr_depth t" "g_global_symbols (poke_node p f s) = g_global_symbols s"
  "find_global_symbol (poke_node p f s) = find_global_symbol s"
  "an_module_table (poke_node p f t) = an_module_table t" "an_files (poke_node p f t) = an_files t"
  by (auto simp: poke_node_def find_global_symbol_def fun_eq_iff split: ptr.splits)

lemma alloc_frames [simp, frame_simps]:
  "scopes (snd (alloc n s)) = scopes s" "an_function_stack (snd (alloc n t)) = an_function_stack t"
  "an_expr_depth (snd (alloc n t)) = an_expr_depth t" "g_global_symbols (snd (alloc n s)) = g_global_symbols s"
  "an_module_table (snd (alloc n t)) = an_module_table t" "an_files (snd (alloc n t)) = an_files t"
  "find_global_symbol (snd (alloc n s)) = find_global_symbol s" "nodes (snd (alloc n s)) = nodes s @ [n]"
  by (simp_all add: alloc_def find_global_symbol_def fun_eq_iff)

lemma steady_poke:
  "(\<And>n. peek_node s p = Some n \<Longrightarrow> skel (f n) = skel n) \<Longrightarrow> steady d s (poke_node p f s)"
  by (simp add: steady_def map_poke)

lemma steady_alloc: "steady d s (snd (alloc n s))"
  by (simp add: steady_def)

lemma stays_change: "(\<And>k. skel (f k) = skel k) \<Longrightarrow> stays n d (change p f)"
  unfolding stays_def change_def by (auto intro: steady_poke)

lemma stays_make [stays_intros, simp]: "stays n d (make k)"
  unfolding stays_def make_def by (metis snd_conv steady_alloc sum.inject(2))

lemma stays_puts [stays_intros, simp]:
  "stays n d (put_type p t)" "stays n d (put_mut_set p m)" "stays n d (add_flags p f)"
  "stays n d (put_body p e)" "stays n d (change_var p g)" "stays n d (change p (upd_var g))"
  by (simp_all add: put_type_def put_mut_set_def add_flags_def put_body_def change_var_def stays_change)

lemma stays_reads [stays_intros, simp]:
  "stays n d (the_expr p)" "stays n d (the_stmt p)" "stays n d (the_var p)" "stays n d (the_fn p)"
  "stays n d (token_of p)" "stays n d (type_of p)" "stays n d (body_of p)" "stays n d (expr_or_null p)"
  "stays n d level_now" "stays n d current_flags" "stays n d lower_flags" "stays n d (the_table t)"
  "stays n d get_current_fn" "stays n d (lookup nm tok tb permissive)" "stays n d (lookup_type nm tok)"
  by (auto simp: the_expr_def the_stmt_def the_var_def the_fn_def token_of_def type_of_def body_of_def
      expr_or_null_def level_now_def current_flags_def lower_flags_def scope_flags_def the_table_def
      get_current_fn_def lookup_def lookup_type_def Let_def intro!: stays_intros)

lemma skel_upd_stmt:
  "(\<And>b. skel_stmt (f b) = skel_stmt b) \<Longrightarrow> skel (upd_stmt f n) = skel n"
  by (cases n) (auto simp: upd_stmt_def)

lemma skel_upd_type:
  "(\<And>b. skel_type (f b) = skel_type b) \<Longrightarrow> skel (upd_type f n) = skel n"
  by (cases n) (auto simp: upd_type_def)

lemma stays_members [stays_intros, simp]:
  "stays n d (change_stmt p (set_condition c))" "stays n d (change_stmt p (set_iterable c))"
  "stays n d (change_stmt p (set_lhs c))" "stays n d (change_stmt p (set_rhs c))"
  "stays n d (change_stmt p (set_module m))" "stays n d (change_stmt p (set_impl_type c))"
  "stays n d (change_type p (set_array fa))" "stays n d (change_type p (set_struct fs))"
  "stays n d (change_type p (set_alias fl))" "stays n d (change_type p (set_impl_of c))"
  "stays n d (change_type p (set_pointee c nm))" "stays n d (change_struct p fs)"
  unfolding change_stmt_def change_type_def change_struct_def
  by (rule stays_change, rule skel_upd_stmt skel_upd_type,
      simp add: set_condition_def set_iterable_def set_lhs_def set_rhs_def set_module_def set_impl_type_def
        set_array_def set_struct_def set_alias_def set_impl_of_def set_pointee_def
        split: stmt_body.split type_body.split)+

lemma stays_array [stays_intros, simp]: "stays n d (change_array p f)"
  by (auto simp: change_array_def intro!: stays_intros)

lemma skel_upd_fn:
  "(\<And>f. skel_type (FnType (g f)) = skel_type (FnType f)) \<Longrightarrow> skel (upd_fn g n) = skel n"
  by (auto simp: upd_fn_def split: node.split type_body.split)

lemma stays_fns [stays_intros, simp]:
  "stays n d (change_fn p (fn_flags_update fl))" "stays n d (change_fn p (\<lambda>f. f\<lparr>fn_mangled_name := gm f\<rparr>))"
  "stays n d (change_fn p (\<lambda>f. f\<lparr>fn_sig := (fn_sig f)\<lparr>fs_return_type := gt f\<rparr>\<rparr>))"
  "stays n d (change_fn p (\<lambda>f. f\<lparr>fn_flags := gf f\<rparr>))"
  by (simp_all add: change_fn_def stays_change skel_upd_fn)

lemma stays_pointer [stays_intros, simp]: "stays n d (pointer_set_inner p inner)"
proof (rule stays_steady)
  fix s s' :: analyzer and x assume "pointer_set_inner p inner s = Inr (x, s')"
  then obtain name where "s' = poke_node p (upd_type (set_pointee inner (''^'' @ name))) s"
    by (auto simp: pointer_set_inner_def rbind_eq_Inr_iff)
  then show "steady d s s'"
    by (auto intro!: steady_poke skel_upd_type simp: set_pointee_def split: type_body.split)
qed

lemma type_obj_node:
  "type_obj_at s p = Some (Heap b) \<Longrightarrow> peek_node s p = Some k \<Longrightarrow> \<exists>t. k = NType t \<and> ty_body t = b"
  by (auto simp: type_obj_at_def as_type_def split: ptr.splits option.splits node.splits)

lemma stays_base_array [stays_intros, simp]: "stays n d (base_array_set_inner p inner)"
proof (rule stays_steady)
  fix s s' :: analyzer and x assume run: "base_array_set_inner p inner s = Inr (x, s')"
  have "steady d s (poke_node p (set_type_body b) s)"
    if b: "type_obj_at s p = Some (Heap b')" and same: "skel_type b = skel_type b'" for b b'
    by (rule steady_poke) (use type_obj_node [OF b] same in \<open>auto simp: set_type_body_def\<close>)
  note same = this
  obtain name where name: "get_type_name s inner = Inr name"
    using run by (auto simp: base_array_set_inner_def rbind_eq_Inr_iff)
  obtain b where b: "type_obj_at s p = Some (Heap b)"
    using run name by (cases "type_obj_at s p"; cases "the (type_obj_at s p)")
      (auto simp: base_array_set_inner_def null_pointer_def)
  show "steady d s s'"
    by (cases b; use run name b same [OF b] in \<open>force simp: base_array_set_inner_def null_pointer_def\<close>)
qed

lemma stays_literal [stays_intros, simp]: "stays n d (\<lambda>s. Inr (get_literal p e nm s))"
proof (rule stays_steady)
  fix s s' :: analyzer and x assume "Inr (get_literal p e nm s) = (Inr (x, s') :: exn + ptr \<times> analyzer)"
  then have "s' = snd (get_literal p e nm s)" by simp
  then show "steady d s s'" by (auto simp: get_literal_def steady_alloc split: option.split)
qed

lemma base_array_member_steady:
  "base_array_get_member s el nm = Inr (m, s') \<Longrightarrow> steady d (s :: analyzer) s'"
proof (cases "nm = ''ptr''")
  case True
  assume run: "base_array_get_member s el nm = Inr (m, s')"
  obtain q s1 where a: "alloc (new_type (PointerType Null [])) s = (q, s1)" by (rule prod.exhaust)
  obtain x where set: "pointer_set_inner q el s1 = Inr (x, s')"
    using run True a by (auto simp: base_array_get_member_def rbind_eq_Inr_iff split: if_splits)
  then have "steady d s1 s'"
    by (auto simp: pointer_set_inner_def rbind_eq_Inr_iff set_pointee_def intro!: steady_poke skel_upd_type
        split: type_body.split)
  moreover have "steady d s s1" using steady_alloc [of d s "new_type (PointerType Null [])"] a by simp
  ultimately show ?thesis using steady_trans by blast
qed (auto simp: base_array_get_member_def split: if_splits)

lemma get_member_steady: "get_member k s p nm = Inr (m, s') \<Longrightarrow> steady d (s :: analyzer) s'"
proof (induction k arbitrary: p)
  case (Suc k)
  then obtain t where t: "the_type s p = Inr t" by (auto simp: rbind_eq_Inr_iff)
  show ?case
  proof (cases t)
    case (Heap b)
    show ?thesis
      by (cases b; use Suc t Heap in \<open>auto simp: rbind_eq_Inr_iff array_get_member_def split: if_splits
        dest: base_array_member_steady\<close>)
  qed (use Suc.prems t in auto)
qed simp

lemma stays_get_member [stays_intros, simp]: "stays n d (\<lambda>s. get_member k s p nm)"
  by (rule stays_steady) (rule get_member_steady)

lemma stays_evaluate [stays_intros, simp]: "stays n d (evaluate k v p)"
proof (induction k arbitrary: p)
  case (Suc k)
  have elements: "stays n d (eval_elements (evaluate k v) (\<lambda>xs. put_body q (build xs)) zs es)" for q build zs es
    by (induction es arbitrary: zs) (auto intro!: stays_intros Suc.IH)
  have statements: "stays n d (eval_statements (evaluate k v) ps)" for ps
    by (induction ps) (auto intro!: stays_intros Suc.IH)
  have e: "stays n d (eval_expr v (evaluate k v) p b)" for b
    by (cases b) (auto simp: eval_expr_def eval_binary_expr_def eval_symbol_def eval_aggregate_def
        intro!: stays_intros Suc.IH elements)
  have st: "stays n d (eval_stmt (evaluate k v) b)" for b
    by (cases b) (auto simp: eval_stmt_def eval_return_def intro!: stays_intros Suc.IH)
  have z: "stays n d (case p of Static _ \<Rightarrow> ret Null | _ \<Rightarrow> null_deref)" by (cases p) auto
  have f: "stays n d (eval_fn v (evaluate k v) fn)" for fn
    by (auto simp: eval_fn_def intro!: stays_intros Suc.IH statements split: stmt_body.split list.split)
  let ?step = "\<lambda>n. case n of
      Some (NExpr e) \<Rightarrow> eval_expr v (evaluate k v) p (ex_body e)
    | Some (NStmt st) \<Rightarrow> eval_stmt (evaluate k v) (st_body st)
    | Some (NType t) \<Rightarrow> (case ty_body t of FnType f \<Rightarrow> eval_fn v (evaluate k v) f | _ \<Rightarrow> ret Null)
    | Some (NFnCollection _ _) \<Rightarrow> ret Null
    | None \<Rightarrow> (case p of Static _ \<Rightarrow> ret Null | _ \<Rightarrow> null_deref)"
  have "stays n d (?step (peek_node s p))" for s :: analyzer
    by (auto intro!: e st f z split: option.split node.split type_body.split)
  moreover have "evaluate (Suc k) v p s = ?step (peek_node s p) s" for s by simp
  ultimately show ?case by (intro stays_at) blast
qed simp

subsection \<open>Scopes, functions, depth\<close>

lemma flags_upd_level: "flags_at (upd_level i f t) j =
    (if j = i \<and> i < length (m_table t) then sd_flags (f (m_table t ! i)) else flags_at t j)"
  by (cases "i < length (m_table t)") (auto simp: flags_at_def upd_level_def nth_list_update list_update_beyond not_less)

lemma flags_at_level [simp]: "flags_at (t\<lparr>m_level := l\<rparr>) i = flags_at t i"
  by (simp add: flags_at_def)

lemma upd_level_frames [simp]:
  "m_level (upd_level i f t) = m_level t" "m_locked_level (upd_level i f t) = m_locked_level t"
  "m_scope_file_id (upd_level i f t) = m_scope_file_id t" "length (m_table (upd_level i f t)) = length (m_table t)"
  by (simp_all add: upd_level_def)

lemma steady_scopes:
  assumes "m_level t = m_level (scopes s)" and "m_locked_level t = m_locked_level (scopes s)"
    and "m_scope_file_id t = m_scope_file_id (scopes s)"
    and "length (m_table (scopes s)) \<le> length (m_table t)"
    and "\<And>i. i < length (m_table (scopes s)) \<Longrightarrow> i + d \<le> unat (m_level (scopes s)) \<Longrightarrow>
      flags_at t i = flags_at (scopes s) i"
  shows "steady d s (s\<lparr>scopes := t\<rparr>)"
  using assms by (simp add: steady_def find_global_symbol_def)

lemma stays_import [stays_intros, simp]: "stays n d (change_scopes (add_import m))"
proof -
  have "flags_at (add_import m t) i = flags_at t i" for t i
    by (simp add: add_import_def flags_upd_level) (simp add: flags_at_def)
  then show ?thesis
    by (auto intro!: stays_steady steady_scopes simp: change_scopes_def) (simp_all add: add_import_def)
qed

lemma get_scope_frames:
  "get_scope level t = (i, t1) \<Longrightarrow> m_level t1 = m_level t \<and> m_locked_level t1 = m_locked_level t \<and>
     m_scope_file_id t1 = m_scope_file_id t \<and> length (m_table t) \<le> length (m_table t1) \<and>
     (\<forall>j < length (m_table t). flags_at t1 j = flags_at t j)"
  by (auto simp: get_scope_def flags_at_def nth_append split: option.splits if_splits)

lemma steady_global: "steady d s (declare_global_symbol nm g s)"
  by (auto simp: steady_def declare_global_symbol_def find_global_symbol_def split: option.splits)

lemma stays_declare [stays_intros, simp]: "stays n d (declare_name symb p is_public level)"
proof (rule stays_steady)
  fix s s' :: analyzer and x assume "declare_name symb p is_public level s = Inr (x, s')"
  then have s': "s' = add_to_scope symb p is_public level s" by (simp add: declare_name_def)
  obtain i t1 where g: "get_scope level (scopes s) = (i, t1)" by (rule prod.exhaust)
  define t2 where "t2 = upd_level i (\<lambda>d. d\<lparr>sd_scope := snd (hm_emplace (sy_name symb) p (sd_scope d))\<rparr>) t1"
  have "flags_at t2 j = flags_at t1 j" for j
    by (auto simp: t2_def flags_upd_level) (simp add: flags_at_def)
  then have a: "steady d s (s\<lparr>scopes := t2\<rparr>)"
    using get_scope_frames [OF g] by (intro steady_scopes) (auto simp: t2_def)
  show "steady d s s'"
    using steady_trans [OF a steady_global] a
    by (auto simp: s' add_to_scope_def Let_def g t2_def [symmetric] prod.case_eq_if)
qed

lemma go_down_frames:
  assumes "unat (m_level t) + 1 < 2 ^ 16"
  shows "unat (m_level (go_down t)) = unat (m_level t) + 1"
    and "m_locked_level (go_down t) = m_locked_level t" and "m_scope_file_id (go_down t) = m_scope_file_id t"
    and "length (m_table t) \<le> length (m_table (go_down t))"
    and "i < length (m_table t) \<Longrightarrow> i \<le> unat (m_level t) \<Longrightarrow> flags_at (go_down t) i = flags_at t i"
proof -
  have l: "unat (m_level t + 1) = unat (m_level t) + 1"
    using assms by (simp add: unat_word_ariths)
  show "unat (m_level (go_down t)) = unat (m_level t) + 1" by (simp add: go_down_def Let_def l)
  show "m_locked_level (go_down t) = m_locked_level t" "m_scope_file_id (go_down t) = m_scope_file_id t"
    "length (m_table t) \<le> length (m_table (go_down t))" by (simp_all add: go_down_def Let_def)
  show "i < length (m_table t) \<Longrightarrow> i \<le> unat (m_level t) \<Longrightarrow> flags_at (go_down t) i = flags_at t i"
    by (simp add: go_down_def Let_def flags_upd_level l) (simp add: flags_at_def nth_append)
qed

lemma go_up_frames:
  assumes "0 < unat (m_level t)"
  shows "unat (m_level (go_up t)) = unat (m_level t) - 1"
    and "m_locked_level (go_up t) = m_locked_level t" and "m_scope_file_id (go_up t) = m_scope_file_id t"
    and "length (m_table (go_up t)) = length (m_table t)" and "flags_at (go_up t) i = flags_at t i"
proof -
  have p: "\<not> m_level t \<le> 0" using assms by (auto simp: word_le_nat_alt)
  show "unat (m_level (go_up t)) = unat (m_level t) - 1"
    using p by (simp add: go_up_def Let_def clear_level_def unat_minus_one word_neq_0_conv word_le_0_iff)
  show "m_locked_level (go_up t) = m_locked_level t" "m_scope_file_id (go_up t) = m_scope_file_id t"
    "length (m_table (go_up t)) = length (m_table t)" by (simp_all add: go_up_def Let_def clear_level_def)
  show "flags_at (go_up t) i = flags_at t i"
    by (simp add: go_up_def Let_def clear_level_def flags_upd_level) (simp add: flags_at_def)
qed

lemma stays_scope:
  assumes "stays n (Suc d) m"
  shows "stays (Suc n) d (with_scope m)"
proof (rule staysI)
  fix s s' :: analyzer and x
  assume l: "unat (m_level (scopes s)) + Suc n < 2 ^ 16" and run: "with_scope m s = Inr (x, s')"
  let ?s0 = "s\<lparr>scopes := go_down (scopes s)\<rparr>"
  obtain s1 where 1: "m ?s0 = Inr (x, s1)" and s': "s' = s1\<lparr>scopes := go_up (scopes s1)\<rparr>"
    using run by (auto simp: with_scope_def change_scopes_def)
  have w: "unat (m_level (scopes s)) + 1 < 2 ^ 16" using l by simp
  note down = go_down_frames [OF w]
  have st: "steady (Suc d) ?s0 s1" using staysD [OF assms 1] l down(1) by simp
  then have lev: "m_level (scopes s1) = m_level (go_down (scopes s))" by (simp add: steady_def)
  then have pos: "0 < unat (m_level (scopes s1))" using down(1) by simp
  note up = go_up_frames [OF pos]
  have "unat (m_level (go_up (scopes s1))) = unat (m_level (scopes s))" using up(1) lev down(1) by simp
  then have "m_level (go_up (scopes s1)) = m_level (scopes s)" by (rule word_unat_eq_iff [THEN iffD2])
  then show "steady d s s'"
    using st down up by (auto simp: steady_def s' find_global_symbol_def)
qed

lemma stays_scope_exact [stays_intros]: "stays n 1 m \<Longrightarrow> stays (Suc n) d (with_scope m)"
  using stays_scope [of n 0 m] stays_weaken by fastforce

lemma steady_other [simp]:
  "steady d s (s'\<lparr>an_cell := c\<rparr>) = steady d s s'" "steady d (s\<lparr>an_cell := c\<rparr>) s' = steady d s s'"
  "steady d s (s'\<lparr>an_named_replace_list := c'\<rparr>) = steady d s s'"
  "steady d (s\<lparr>an_named_replace_list := c'\<rparr>) s' = steady d s s'"
  by (simp_all add: steady_def find_global_symbol_def peek_node_def)

lemma stays_cell [stays_intros, simp]:
  "stays n d (modify (\<lambda>s. s\<lparr>an_cell := c s\<rparr>))" "stays n d (modify (\<lambda>s. s\<lparr>an_named_replace_list := c' s\<rparr>))"
  by (auto intro!: stays_steady)

lemma stays_function [stays_intros]:
  assumes "stays n d m"
  shows "stays n d (in_function p m)"
proof (rule staysI)
  fix s s' :: analyzer and x
  assume l: "unat (m_level (scopes s)) + n < 2 ^ 16" and run: "in_function p m s = Inr (x, s')"
  let ?s0 = "s\<lparr>an_function_stack := an_function_stack s @ [p]\<rparr>"
  obtain s1 where 1: "m ?s0 = Inr (x, s1)" and s': "s' = s1\<lparr>an_function_stack := butlast (an_function_stack s1)\<rparr>"
    using run by (auto simp: in_function_def)
  have "steady d ?s0 s1" using staysD [OF assms 1] l by simp
  then show "steady d s s'" by (simp add: steady_def s' find_global_symbol_def)
qed


subsection \<open>The visits\<close>

text \<open>What a node may do to the flags of the scopes around it: a return marks its scope, a block the
  one around it, an \<open>if\<close> clears and sets its own; everything else leaves them.\<close>

fun flow :: "node \<Rightarrow> bool" where
  "flow (NStmt st) =
     (case st_body st of
        ReturnStmt _ \<Rightarrow> True | BlockStmt _ \<Rightarrow> True | IfStmt _ _ _ \<Rightarrow> True | CompIfStmt _ \<Rightarrow> True
      | WhileStmt _ _ \<Rightarrow> True | ForStmt _ _ _ \<Rightarrow> True | _ \<Rightarrow> False)"
| "flow _ = False"

definition slack :: "analyzer \<Rightarrow> ptr \<Rightarrow> nat" where
  "slack s p = (case peek_node s p of Some k \<Rightarrow> if flow k then 1 else 0 | None \<Rightarrow> 0)"

text \<open>The contract of \<open>accept\<close> the visits rely on, and of the reader of modules.\<close>

definition accept_steady :: "nat \<Rightarrow> (ptr \<Rightarrow> visit_ctx \<Rightarrow> ptr an) \<Rightarrow> bool" where
  "accept_steady n acc \<longleftrightarrow> (\<forall>p ctx s x s'. unat (m_level (scopes s)) + n < 2 ^ 16 \<longrightarrow>
     acc p ctx s = Inr (x, s') \<longrightarrow> steady (slack s p) s s')"

definition modules_steady :: "visitor \<Rightarrow> bool" where
  "modules_steady v \<longleftrightarrow> (\<forall>path s x s'. v_get_module v path s = Inr (x, s') \<longrightarrow> steady 0 s s')"

lemma run_first: "bnd (gets g) f s = f (g s) s" "bnd (modify h) k s = k () (h s)"
  by (simp_all add: bnd_def)

lemma stays_module: "modules_steady v \<Longrightarrow> stays n d (v_get_module v path)"
  by (auto simp: modules_steady_def intro!: stays_steady) (meson steady_weaken zero_le)

locale steady_visits =
  fixes v :: visitor and n :: nat
  assumes accept_ok: "accept_steady n (v_accept v)" and modules_ok: "modules_steady v"
begin

lemma accept_any: "stays n (Suc 0) (v_accept v p ctx)"
proof (rule staysI)
  fix s x s' assume "unat (m_level (scopes s)) + n < 2 ^ 16" "v_accept v p ctx s = Inr (x, s')"
  then have "steady (slack s p) s s'" using accept_ok by (auto simp: accept_steady_def)
  moreover have "slack s p \<le> Suc 0" by (simp add: slack_def split: option.split)
  ultimately show "steady (Suc 0) s s'" by (rule steady_weaken)
qed

lemma accept_checked:
  assumes "\<And>s. c s \<Longrightarrow> slack s p = 0"
  shows "stays n d (bnd (gets c) (\<lambda>ok. if ok then v_accept v p ctx else null_deref))"
proof (rule staysI)
  fix s x s' assume l: "unat (m_level (scopes s)) + n < 2 ^ 16"
    and run: "bnd (gets c) (\<lambda>ok. if ok then v_accept v p ctx else null_deref) s = Inr (x, s')"
  then have "c s" and "v_accept v p ctx s = Inr (x, s')"
    by (auto simp: null_deref_def split: if_splits)
  then have "steady 0 s s'" using accept_ok assms l by (force simp: accept_steady_def)
  then show "steady d s s'" by (rule steady_weaken) simp
qed

lemma accept_expr_stays [stays_intros, simp]: "stays n d (accept_expr v p ctx)"
  unfolding accept_expr_def
  by (rule accept_checked) (auto simp: is_expr_def as_expr_def slack_def split: option.splits node.splits)

lemma accept_var_stays [stays_intros, simp]: "stays n d (accept_var v p ctx)"
  unfolding accept_var_def
  by (rule accept_checked)
    (auto simp: as_var_def as_stmt_def slack_def split: option.splits node.splits stmt_body.splits)

lemma accept_type_stays [stays_intros, simp]: "stays n d (accept_type v p ctx)"
  unfolding accept_type_def
  by (rule accept_checked)
    (auto simp: is_type_def type_obj_at_def as_type_def slack_def peek_node_def split: option.splits node.splits ptr.splits)

lemma visit_expr_stays [stays_intros, simp]: "stays n d (visit_expr v parent p ctx)"
proof (rule staysI)
  fix s x s' assume l: "unat (m_level (scopes s)) + n < 2 ^ 16" and run: "visit_expr v parent p ctx s = Inr (x, s')"
  show "steady d s s'"
  proof (cases "p = Null")
    case False
    let ?s0 = "s\<lparr>an_expr_depth := an_expr_depth s + 1\<rparr>"
    let ?m = "bnd (accept_expr v p (ctx\<lparr>vc_depth := an_expr_depth s\<rparr>)) (\<lambda>result.
        bnd (the_expr p) (\<lambda>e.
        bnd (ask (\<lambda>_. test_mut (an_expr_depth s) (ex_mut_set e))) (\<lambda>immutable.
        bnd (only_if immutable (add_flags p EF_Immutable)) (\<lambda>_.
        bnd (only_if (parent \<noteq> Null) (put_mut_set parent (ex_mut_set e))) (\<lambda>_. ret result)))))"
    have "bnd ?m (\<lambda>result. bnd (modify (\<lambda>s. s\<lparr>an_expr_depth := an_expr_depth s - 1\<rparr>)) (\<lambda>_. expr_or_null result)) ?s0 = Inr (x, s')"
      using run False unfolding visit_expr_def bnd_assoc bnd_ret_left by (simp only: run_first if_False)
    then obtain r s1 where 1: "?m ?s0 = Inr (r, s1)"
      and 2: "bnd (modify (\<lambda>s. s\<lparr>an_expr_depth := an_expr_depth s - 1\<rparr>)) (\<lambda>_. expr_or_null r) s1 = Inr (x, s')"
      by (rule bndE)
    from 2 have s': "s' = s1\<lparr>an_expr_depth := an_expr_depth s1 - 1\<rparr>"
      by (auto simp: expr_or_null_def)
    have st: "stays n d ?m" by (intro stays_intros)
    have "steady d ?s0 s1" by (rule staysD [OF st 1]) (use l in simp)
    then show ?thesis by (simp add: steady_def s' find_global_symbol_def)
  qed (use run in \<open>simp add: visit_expr_def\<close>)
qed

lemma visit_cell_stays [stays_intros, simp]:
  "stays n d (visit_cell v p)"
  by (auto simp: visit_cell_def intro!: stays_intros)

lemma resolve_type_stays [stays_intros, simp]:
  "stays n d (resolve_type v meta)"
  by (auto simp: resolve_type_def intro!: stays_intros)

lemma questions_stays [stays_intros, simp]:
  "stays n d (same_type v a b)" "stays n d (name_of_type p)" "stays n d (symbol_name v p)" "stays n d (throw_at p msg args)"
  by (auto simp: same_type_def name_of_type_def symbol_name_def throw_at_def intro!: stays_intros)

lemma call_part_stays [stays_intros, simp]:
  "stays n d (call_args p)" "stays n d (callable_of p)"
  by (auto simp: call_args_def callable_of_def intro!: stays_intros split: expr_body.split)

lemma call_change_stays [stays_intros, simp]:
  "stays n d (put_call_args p args)" "stays n d (put_arg p i x)" "stays n d (arg_at p i)"
  by (auto simp: put_call_args_def put_arg_def arg_at_def intro!: stays_intros)

lemma note_named_stays [stays_intros, simp]:
  "stays n d (note_named params arg)"
  by (auto simp: note_named_def intro!: stays_intros)

lemma arguments_stays [stays_intros, simp]:
  "stays n d (visit_plain_arg v p ctx i)" "stays n d (visit_arg v p params i)" "stays n d (place_named p entry)" "stays n d (visit_default v p param)"
  by (auto simp: visit_plain_arg_def visit_arg_def place_named_def visit_default_def intro!: stays_intros)

lemma visit_call_stays [stays_intros, simp]:
  "stays n d (visit_call v p ctx)"
  by (auto simp: visit_call_def Let_def intro!: stays_intros)

lemma match_arg_stays [stays_intros, simp]:
  "stays n d (match_arg v callp i param amb)"
  by (auto simp: match_arg_def intro!: stays_intros)

lemma match_args_stays [stays_intros, simp]:
  "stays n d (match_args v callp params is amb)"
  by (induction "is" arbitrary: amb) (auto intro!: stays_intros)

lemma try_overloads_stays [stays_intros, simp]:
  "stays n d (try_overloads v callp count fs)"
  by (induction fs) (auto intro!: stays_intros)

lemma get_fn_stays [stays_intros, simp]:
  "stays n d (get_fn v callp fs)"
  by (auto simp: get_fn_def intro!: stays_intros)

lemma visit_param_stays [stays_intros, simp]:
  "stays n d (visit_param v param)"
  by (auto simp: visit_param_def intro!: stays_intros)

lemma param_type_names_stays [stays_intros, simp]:
  "stays n d (param_type_names ps)"
  by (induction ps) (auto simp: param_type_name_def intro!: stays_intros)

lemma declare_fn_stays [stays_intros, simp]:
  "stays n d (mangle_fn p fn ctx)" "stays n d (declare_fn v p ctx)"
  by (auto simp: mangle_fn_def declare_fn_def intro!: stays_intros)

lemma fn_parts_stays [stays_intros, simp]:
  "stays n d (resolve_return v p)" "stays n d (return_type_of p)" "stays n d (block_nodes p)"
  by (auto simp: resolve_return_def return_type_of_def block_nodes_def intro!: stays_intros split: stmt_body.split)

lemma visit_arrow_body_stays [stays_intros, simp]:
  "stays n d (visit_arrow_body v p)"
  by (auto simp: visit_arrow_body_def Let_def intro!: stays_intros)

lemma visit_block_body_stays [stays_intros, simp]:
  "stays n 1 (visit_block_body v p)"
  by (auto simp: visit_block_body_def intro!: stays_intros accept_any)

lemma visit_fn_stays [stays_intros, simp]:
  "stays (Suc n) d (visit_fn v p ctx)"
  by (auto simp: visit_fn_def intro!: stays_intros)

lemma structs_stays [stays_intros, simp]:
  "stays n d (the_struct p)" "stays n d (resolve_field v p i)" "stays n d (visit_struct v p)"
  by (auto simp: the_struct_def resolve_field_def visit_struct_def intro!: stays_intros)

lemma visit_types_stays [stays_intros, simp]:
  "stays n d (visit_alias v p al)" "stays n d (visit_unresolved p nm ctx)" "stays n d (visit_pointer v p inner)" "stays n d (visit_slice_type v p inner)"
  by (auto simp: visit_alias_def visit_unresolved_def visit_pointer_def visit_slice_type_def intro!: stays_intros)

lemma visit_array_size_stays [stays_intros, simp]:
  "stays n d (visit_array_size v p e)"
  by (auto simp: visit_array_size_def intro!: stays_intros split: literal_value.split)

lemma visit_array_type_stays [stays_intros, simp]:
  "stays n d (visit_array_type v p ar)"
  by (auto simp: visit_array_type_def intro!: stays_intros)

lemma var_parts_stays [stays_intros, simp]:
  "stays n d (infer_type p init t)" "stays n d (visit_initializer v p ctx)" "stays n d (size_array p)" "stays n d (check_initializer v p)" "stays n d (evaluate_const v p)"
  by (auto simp: infer_type_def visit_initializer_def size_array_def check_initializer_def evaluate_const_def intro!: stays_intros)

lemma visit_var_stays [stays_intros, simp]:
  "stays n d (visit_var v p ctx)"
  by (auto simp: visit_var_def intro!: stays_intros)

lemma visit_import_stays [stays_intros, simp]:
  "stays n d (import_selected m nms)" "stays n d (visit_import v p im)"
  by (auto simp: import_selected_def visit_import_def intro!: stays_intros stays_module modules_ok)

lemma visit_assignment_stays [stays_intros, simp]:
  "stays n d (visit_assignment v p l r)"
  by (auto simp: visit_assignment_def intro!: stays_intros)

lemma flag_write_stays [stays_intros, simp]:
  "stays n (Suc d) (change_scopes (set_current_flags w))"
  by (auto simp: change_scopes_def set_current_flags_def flags_upd_level intro!: stays_steady steady_scopes)

lemma mark_return_stays [stays_intros, simp]:
  "stays n (Suc d) (mark_return)"
  by (auto simp: mark_return_def intro!: stays_intros)

lemma visit_if_stays [stays_intros, simp]:
  "stays n 1 (visit_if v p c b e)"
  by (auto simp: visit_if_def intro!: stays_intros accept_any)

lemma visit_while_stays [stays_intros, simp]:
  "stays n 1 (visit_while v p c b)"
  by (auto simp: visit_while_def intro!: stays_intros accept_any)

lemma bind_var_stays [stays_intros, simp]:
  "stays n d (bind_var x t)"
  by (auto simp: bind_var_def intro!: stays_intros)

lemma bind_types_stays [stays_intros, simp]:
  "stays n d (bind_types bs i ts)"
  by (induction ts arbitrary: i) (auto intro!: stays_intros)

lemma visit_for_stays [stays_intros, simp]:
  "stays n 1 (visit_for v p bs it b)"
  by (auto simp: visit_for_def intro!: stays_intros accept_any)

lemma visit_method_stays [stays_intros, simp]:
  "stays n d (visit_method v p self m)"
  by (auto simp: visit_method_def intro!: stays_intros)

lemma visit_impl_stays [stays_intros, simp]:
  "stays (Suc n) d (visit_impl v p symb ms)"
  unfolding visit_impl_def
  by (auto intro!: stays_intros stays_weaken [OF accept_type_stays] stays_weaken [OF questions_stays(4)])

lemma visit_block_stays [stays_intros, simp]: "stays (Suc n) 1 (visit_block v p ns ctx)"
proof -
  have less: "unat (l - 1) = unat l - 1" "2 \<le> unat l" if "1 < l" for l :: "16 word"
    using that by (simp_all add: word_less_nat_alt unat_minus_one word_neq_0_conv)
  have "stays n 2 propagate_return"
  proof (rule stays_steady)
    fix s x s' assume "propagate_return s = Inr (x, s')"
    then show "steady 2 s s'"
      using less by (auto simp: propagate_return_def current_flags_def scope_flags_def ask_def level_now_def only_if_def
          change_scopes_def rbind_eq_Inr_iff flags_upd_level
          split: if_splits intro!: steady_scopes)
  qed
  moreover have "stays n 2 (v_accept v q c)" for q c by (rule stays_weaken [OF accept_any]) auto
  ultimately have "stays n (Suc 1) (bnd (each (\<lambda>q. bnd (v_accept v q (new_ctx p ctx Null)) (\<lambda>_. ret ())) ns)
        (\<lambda>_. bnd propagate_return (\<lambda>_. ret p)))"
    by (auto intro!: stays_intros simp: numeral_2_eq_2 simp del: One_nat_def)
  then show ?thesis unfolding visit_block_def by (rule stays_scope)
qed

lemma visit_literal_stays [stays_intros, simp]:
  "stays n d (visit_literal v p ctx)" "stays n d (visit_member v p nm)" "stays n d (enum_literal a q e nm)"
  by (auto simp: visit_literal_def visit_member_def enum_literal_def intro!: stays_intros)

lemma visit_symbol_stays [stays_intros, simp]:
  "stays n d (resolve_symbol v p nm ctx node)" "stays n d (visit_symbol v p nm ctx)"
  by (auto simp: resolve_symbol_def visit_symbol_def intro!: stays_intros)

lemma operators_stays [stays_intros, simp]:
  "stays n d (visit_binary v p op l r ctx)" "stays n d (visit_unary v p c r ctx)" "stays n d (visit_inner v p bd i ctx)" "stays n d (visit_group v p i ctx)" "stays n d (visit_abs v p i ctx)" "stays n d (visit_named v p nm i ctx)" "stays n d (visit_sizeof v p i ctx)" "stays n d (visit_nameof v p i ctx)" "stays n d (visit_cast v p meta t orig ctx)"
  by (auto simp: visit_binary_def visit_unary_def visit_inner_def visit_group_def visit_abs_def visit_named_def visit_sizeof_def visit_nameof_def visit_cast_def intro!: stays_intros)

lemma visit_deref_stays [stays_intros, simp]:
  "stays n d (visit_deref v p t)"
  by (auto simp: visit_deref_def intro!: stays_intros split: expr_body.split)

lemma visit_ptr_op_stays [stays_intros, simp]:
  "stays n d (visit_ptr_op v p op t ctx)"
  by (auto simp: visit_ptr_op_def intro!: stays_intros)

lemma elements_of_stays [stays_intros, simp]:
  "stays n d (elements_of p)"
  by (auto simp: elements_of_def intro!: stays_intros split: expr_body.split)

lemma put_element_stays [stays_intros, simp]:
  "stays n d (put_element p i f)"
  by (auto simp: put_element_def intro!: stays_intros)

lemma assign_element_stays [stays_intros, simp]:
  "stays n d (assign_element v p slots i c)"
  by (auto simp: assign_element_def Let_def intro!: stays_intros)

lemma assign_elements_stays [stays_intros, simp]:
  "stays n d (assign_elements v p slots is c)"
  by (induction "is" arbitrary: c) (auto intro!: stays_intros)

lemma struct_literals_stays [stays_intros, simp]:
  "stays n d (assign_named_indices v p slots)" "stays n d (assign_struct_indices v p st)" "stays n d (visit_struct_literal v p nm)" "stays n d (anon_field v p t i)" "stays n d (visit_anon_init v p ctx)"
  by (auto simp: assign_named_indices_def assign_struct_indices_def visit_struct_literal_def anon_field_def visit_anon_init_def Let_def intro!: stays_intros)

lemma array_literals_stays [stays_intros, simp]:
  "stays n d (inner_of_array a)" "stays n d (array_element v p a i)" "stays n d (literal_array_type v sp ctx)" "stays n d (visit_array_literal v p sp ctx)"
  by (auto simp: inner_of_array_def array_element_def literal_array_type_def visit_array_literal_def intro!: stays_intros)

lemma visit_index_stays [stays_intros, simp]:
  "stays n d (visit_index v p l i ctx)" "stays n d (visit_slice v p l i j)"
  by (auto simp: visit_index_def visit_slice_def intro!: stays_intros)

lemma member_parts_stays [stays_intros, simp]:
  "stays n d (target_of p)" "stays n d (accessor_of p)" "stays n d (put_target p x)" "stays n d (put_accessor p x)" "stays n d (put_is_method p b)" "stays n d (is_method_access p)"
  by (auto simp: target_of_def accessor_of_def put_target_def put_accessor_def put_is_method_def is_method_access_def intro!: stays_intros split: expr_body.split)

lemma access_stays [stays_intros, simp]:
  "stays n d (access_property p t)" "stays n d (find_member v p t nm m)" "stays n d (pass_self c t)" "stays n d (access_member v p ctx)" "stays n d (finish_access p)"
  by (auto simp: access_property_def find_member_def pass_self_def access_member_def finish_access_def Let_def intro!: stays_intros split: expr_body.split)

lemma visit_member_access_stays [stays_intros, simp]:
  "stays n d (visit_member_access v p t a st ctx)"
  by (auto simp: visit_member_access_def intro!: stays_intros)

lemma visit_expr_node_stays: "stays n d (visit_expr_node v p b ctx)"
  by (cases b) (auto simp: visit_expr_node_def)

lemma visit_type_node_stays: "stays (Suc n) d (visit_type_node v p b ctx)"
  by (cases b) (auto simp: visit_type_node_def intro: stays_weaken [OF visit_types_stays(1)]
      stays_weaken [OF visit_types_stays(2)] stays_weaken [OF visit_types_stays(3)]
      stays_weaken [OF visit_types_stays(4)] stays_weaken [OF visit_array_type_stays]
      stays_weaken [OF structs_stays(3)])

text \<open>A return keeps whether it has an expression: without one the type of it could not be asked.\<close>

definition before_return :: "ptr \<Rightarrow> ptr \<Rightarrow> visit_ctx \<Rightarrow> (ptr \<times> ptr) an" where
  "before_return p e ctx =
     bnd get_current_fn (\<lambda>fn. bnd (return_type_of fn) (\<lambda>t.
     bnd (visit_expr v Null e (new_ctx p ctx t)) (\<lambda>e1. ret (fn, e1))))"

definition after_return :: "ptr \<Rightarrow> ptr \<Rightarrow> ptr \<Rightarrow> ptr an" where
  "after_return p fn e1 =
     bnd (return_type_of fn) (\<lambda>t1.
     bnd (type_of e1) (\<lambda>et.
     bnd (same_type v t1 et) (\<lambda>ok.
     if \<not> ok
     then bnd (name_of_type t1) (\<lambda>expected.
          bnd (name_of_type et) (\<lambda>got.
          throw_at p ''Expected expression of type {} in return statement but got {}'' [expected, got]))
     else bnd mark_return (\<lambda>_. ret p))))"

lemma visit_return_split:
  "e \<noteq> Null \<Longrightarrow> visit_return v p e ctx =
     bnd (before_return p e ctx) (\<lambda>x. bnd (change_stmt p (set_returned (snd x))) (\<lambda>_. after_return p (fst x) (snd x)))"
  by (simp add: visit_return_def before_return_def after_return_def bnd_assoc)

lemma after_return_stays: "stays n (Suc d) (after_return p fn e1)"
  by (auto simp: after_return_def intro!: stays_intros)

lemma visit_return_steady:
  assumes "peek_node s p = Some (NStmt st)" and "st_body st = ReturnStmt e"
    and l: "unat (m_level (scopes s)) + n < 2 ^ 16" and run: "visit_return v p e ctx s = Inr (x, s')"
  shows "steady (Suc 0) s s'"
proof (cases "e = Null")
  case False
  have before: "stays n (Suc 0) (before_return p e ctx)"
    by (auto simp: before_return_def intro!: stays_intros)
  obtain fn e1 s1 s2 where 1: "before_return p e ctx s = Inr ((fn, e1), s1)"
    and 2: "change_stmt p (set_returned e1) s1 = Inr ((), s2)" and 3: "after_return p fn e1 s2 = Inr (x, s')"
    using run unfolding visit_return_split [OF False] by (elim bndE) auto
  have a: "steady (Suc 0) s s1" by (rule staysD [OF before 1 l])
  have e1: "e1 \<noteq> Null"
    using 3 by (auto simp: after_return_def type_of_def the_expr_def ask_def as_expr_def peek_node_def null_pointer_def
        rbind_eq_Inr_iff)
  obtain k where k: "peek_node s1 p = Some k" "skel k = skel (NStmt st)"
    using steady_node [OF a assms(1)] .
  have "skel (upd_stmt (set_returned e1) k) = skel k"
  proof (cases k)
    case (NStmt st')
    then obtain e' where "st_body st' = ReturnStmt e'" "(e' = Null) = (e = Null)"
      using k(2) assms(2) by (cases "st_body st'") (auto simp: new_stmt_def split: if_splits)
    then show ?thesis using NStmt False e1 by (simp add: upd_stmt_def set_returned_def)
  qed (simp_all add: upd_stmt_def)
  then have b: "steady (Suc 0) s1 s2"
    using 2 k(1) by (auto simp: change_stmt_def change_def intro!: steady_poke)
  have "unat (m_level (scopes s2)) + n < 2 ^ 16" using l steady_level [OF a] steady_level [OF b] by simp
  then have c: "steady (Suc 0) s2 s'" by (rule staysD [OF after_return_stays 3])
  show ?thesis using steady_trans [OF steady_trans [OF a b] c] .
qed (use run in \<open>simp add: visit_return_def\<close>)

lemma visit_stmt_node_steady:
  assumes node: "peek_node s p = Some (NStmt st)" and l: "unat (m_level (scopes s)) + Suc n < 2 ^ 16"
    and run: "visit_stmt_node v p (st_body st) ctx s = Inr (x, s')"
  shows "steady (slack s p) s s'"
proof -
  have l': "unat (m_level (scopes s)) + n < 2 ^ 16" using l by simp
  have any: "stays n (Suc 0) (bnd (v_accept v i empty_ctx) (\<lambda>_. ret p))" for i
    by (auto intro!: stays_intros accept_any)
  note facts = visit_var_stays visit_assignment_stays visit_import_stays(2) visit_if_stays visit_while_stays
    visit_for_stays any stays_basic(1)
  show ?thesis
  proof (cases "st_body st")
    case (ReturnStmt e)
    then show ?thesis
      using visit_return_steady [OF node ReturnStmt l'] run node by (simp add: visit_stmt_node_def slack_def)
  qed (use run node in \<open>simp_all add: visit_stmt_node_def slack_def staysD [OF visit_block_stays _ l, simplified]
        staysD [OF visit_impl_stays _ l] facts [THEN staysD, OF _ l', simplified]\<close>)
qed

lemma visit_node_steady: "accept_steady (Suc n) (visit_node v)"
  unfolding accept_steady_def
proof (intro allI impI)
  fix p ctx s x s'
  assume l: "unat (m_level (scopes s)) + Suc n < 2 ^ 16" and run: "visit_node v p ctx s = Inr (x, s')"
  have l': "unat (m_level (scopes s)) + n < 2 ^ 16" using l by simp
  show "steady (slack s p) s s'"
  proof (cases "peek_node s p")
    case None
    then show ?thesis using run by (auto simp: visit_node_def null_deref_def split: ptr.splits)
  next
    case (Some k)
    show ?thesis
    proof (cases k)
      case (NExpr e)
      then show ?thesis
        using Some run staysD [OF visit_expr_node_stays _ l'] by (simp add: visit_node_def slack_def)
    next
      case (NStmt st)
      then show ?thesis
        using Some run visit_stmt_node_steady [OF _ l] by (simp add: visit_node_def)
    next
      case (NType t)
      then show ?thesis
        using Some run staysD [OF visit_type_node_stays _ l] by (simp add: visit_node_def slack_def)
    qed (use Some run in \<open>auto simp: visit_node_def\<close>)
  qed
qed

end

subsection \<open>The whole analysis\<close>

lemma accept_keeps: "modules_steady env \<Longrightarrow> accept_steady n (accept env n)"
proof (induction n)
  case 0
  show ?case by (simp add: accept_steady_def)
next
  case (Suc n)
  have "steady_visits (env\<lparr>v_accept := accept env n\<rparr>) n"
    by standard (use Suc in \<open>simp_all add: modules_steady_def\<close>)
  then show ?case using steady_visits.visit_node_steady by simp
qed

lemma analyze_keeps:
  assumes "modules_steady env"
  shows "stays n 1 (analyze env n ns)"
proof -
  have "stays n (Suc 0) (accept env n p empty_ctx)" for p
  proof (rule staysI)
    fix s x s' assume "unat (m_level (scopes s)) + n < 2 ^ 16" "accept env n p empty_ctx s = Inr (x, s')"
    then have "steady (slack s p) s s'" using accept_keeps [OF assms] by (auto simp: accept_steady_def)
    moreover have "slack s p \<le> Suc 0" by (simp add: slack_def split: option.split)
    ultimately show "steady (Suc 0) s s'" by (rule steady_weaken)
  qed
  then show ?thesis by (auto simp: analyze_def intro!: stays_intros)
qed

text \<open>C6: Analysing a module leaves the frontend balanced. When it ends without an error, the scope
  in use, the lock, the function stack and the depth of expressions are those of the start, the
  flags of the scopes around are untouched, no global symbol is lost (imports may add some), and every node is still
  there, of the same class and with the same children as far as they decide the flow of control.
  The modules it imports are read by something that keeps this frame (\<open>read_module_steady\<close> shows it of the module
  manager). Fuel bounds the nesting of scopes, so that the 16 bit level cannot wrap around.\<close>

theorem analysis_balanced:
  assumes "modules_steady env" and "unat (m_level (scopes s)) + n < 2 ^ 16"
    and "analyze env n ns s = Inr ((), s')"
  shows "m_level (scopes s') = m_level (scopes s) \<and> m_locked_level (scopes s') = m_locked_level (scopes s) \<and>
    an_function_stack s' = an_function_stack s \<and> an_expr_depth s' = an_expr_depth s \<and>
    (\<forall>i < length (m_table (scopes s)). i < unat (m_level (scopes s)) \<longrightarrow>
       flags_at (scopes s') i = flags_at (scopes s) i) \<and>
    (\<forall>nm. set (find_global_symbol s nm) \<subseteq> set (find_global_symbol s' nm)) \<and>
    (\<forall>p k. peek_node s p = Some k \<longrightarrow> (\<exists>k'. peek_node s' p = Some k' \<and> skel k' = skel k))"
proof -
  have st: "steady 1 s s'" by (rule staysD [OF analyze_keeps [OF assms(1)] assms(3,2)])
  then have "peek_node s p = Some k \<longrightarrow> (\<exists>k'. peek_node s' p = Some k' \<and> skel k' = skel k)" for p k
    by (metis steady_node)
  then show ?thesis using st unfolding steady_def by auto
qed

text \<open>\<open>{ 7; return; break }\<close> in an empty module.\<close>

definition lone_env :: visitor where
  "lone_env = \<lparr>v_fuel = 9, v_accept = (\<lambda>p c. fail OutOfFuel), v_get_module = (\<lambda>path. ret None),
     v_float_op = (\<lambda>op a b. a)\<rparr>"

definition lone_analyzer :: "node list \<Rightarrow> analyzer" where
  "lone_analyzer ns = \<lparr>nodes = ns, g_attributes = [], g_global_symbols = [], scopes = new_scope_table,
     an_function_stack = [], an_expr_depth = 0, an_named_replace_list = [], an_modules = [], an_module_table = [],
     an_files = no_files, an_escape_buffer = arena_init 0, an_cell = Null\<rparr>"

definition small_block :: "node list" where
  "small_block = [new_stmt (BlockStmt [At 1, At 2, At 3]), new_expr (LiteralExpr (LInt 7)),
     new_stmt (ReturnStmt Null), new_stmt BreakStmt]"

lemmas evaluation = numeral_3_eq_3 visit_node_def [THEN fun_cong] peek_node_def new_stmt_def visit_stmt_node_def
  change_scopes_def bnd_def [THEN fun_cong] current_flags_def scope_flags_def ask_def level_now_def only_if_def
  get_current_flags_def get_scope_data_def go_down_def Let_def upd_level_def new_scope_table_def empty_scope_def
  has_return_def rbind_def put_type_def add_flags_def change_def poke_node_def upd_expr_def type_of_def the_expr_def
  as_expr_def new_expr_def

lemma small_block_run: "\<exists>s'. analyze lone_env 3 [At 0] (lone_analyzer small_block) = Inr ((), s')"
  by (simp add: evaluation analyze_def lone_analyzer_def small_block_def visit_block_def with_scope_def
      visit_return_def propagate_return_def visit_expr_node_def visit_literal_def new_ctx_def empty_ctx_def)

theorem analysis_balanced_witness:
  "\<exists>s'. analyze lone_env 3 [At 0] (lone_analyzer small_block) = Inr ((), s') \<and> an_expr_depth s' = 0 \<and>
     m_level (scopes s') = 0 \<and> (\<exists>k. peek_node s' (At 1) = Some k \<and> skel k = new_expr KeywordExpr)"
proof -
  obtain s' where s': "analyze lone_env 3 [At 0] (lone_analyzer small_block) = Inr ((), s')"
    using small_block_run by blast
  have m: "modules_steady lone_env" by (simp add: modules_steady_def lone_env_def)
  have start: "m_level (scopes (lone_analyzer ns)) = 0" "an_expr_depth (lone_analyzer ns) = 0" for ns
    by (simp_all add: lone_analyzer_def new_scope_table_def)
  have one: "peek_node (lone_analyzer small_block) (At 1) = Some (new_expr (LiteralExpr (LInt 7)))"
    by (simp add: lone_analyzer_def small_block_def peek_node_def)
  have "unat (m_level (scopes (lone_analyzer small_block))) + 3 < 2 ^ 16" by (simp add: start)
  from analysis_balanced [OF m this s'] one s' show ?thesis
    unfolding start by (metis skel.simps(1) new_expr_def)
qed

end
