(* ===== verification/Analyzer_Returns.thy ===== *)
theory Analyzer_Returns
  imports Analyzer_Frame
begin

unbundle bit_operations_syntax

section \<open>Do all paths return a value\<close>

text \<open>
  The analyzer marks the scope of a return with the flag \<open>HasReturn\<close>, lets a block pass its mark
  to the scope around it, and treats an \<open>if\<close> specially. This theory says what the flag means: it
  is a function of the tree of the statements (\<open>marked\<close>, \<open>marks\<close>), and a function whose body is
  not marked is refused.
\<close>

subsection \<open>The trees the flag depends on\<close>

datatype flow_tree =
  Quiet
| Returns
| Block "flow_tree list"
| Loop flow_tree
| Branch flow_tree "flow_tree option"

text \<open>\<open>mark_after t c\<close>: the flag of the scope \<open>t\<close> stands in, which was \<open>c\<close> before; \<open>mark_below t\<close>: the
  flag left in the scope of the block \<open>t\<close> is or ends with.\<close>

fun mark_after :: "flow_tree \<Rightarrow> bool \<Rightarrow> bool" and mark_below :: "flow_tree \<Rightarrow> bool" where
  "mark_after Quiet c = c"
| "mark_after Returns c = True"
| "mark_after (Block ts) c = (c \<or> fold mark_after ts False)"
| "mark_after (Loop t) c = mark_after t c"
| "mark_after (Branch t None) c = False"
| "mark_after (Branch t (Some e)) c = (mark_after e False \<or> (mark_below t \<and> mark_below e))"
| "mark_below (Block ts) = fold mark_after ts False"
| "mark_below (Branch t None) = mark_below t"
| "mark_below (Branch t (Some e)) = mark_below e"
| "mark_below t = False"

fun branching :: "flow_tree \<Rightarrow> bool" where
  "branching (Block ts) = True" | "branching (Branch t e) = True" | "branching _ = False"

inductive shape :: "analyzer \<Rightarrow> ptr \<Rightarrow> flow_tree \<Rightarrow> bool" for s where
  quiet: "peek_node s p = Some k \<Longrightarrow> \<not> flow k \<Longrightarrow> shape s p Quiet"
| bare: "peek_node s p = Some k \<Longrightarrow> skel k = new_stmt (ReturnStmt Null) \<Longrightarrow> shape s p Quiet"
| result: "peek_node s p = Some k \<Longrightarrow> skel k = new_stmt (ReturnStmt e) \<Longrightarrow> e \<noteq> Null \<Longrightarrow> shape s p Returns"
| block: "peek_node s p = Some k \<Longrightarrow> skel k = new_stmt (BlockStmt ns) \<Longrightarrow> list_all2 (shape s) ns ts \<Longrightarrow>
    shape s p (Block ts)"
| loop: "peek_node s p = Some k \<Longrightarrow>
    skel k \<in> {new_stmt (WhileStmt Null b), new_stmt (ForStmt [] Null b), new_stmt (CompIfStmt b)} \<Longrightarrow>
    shape s b t \<Longrightarrow> shape s p (Loop t)"
| if_only: "peek_node s p = Some k \<Longrightarrow> skel k = new_stmt (IfStmt Null b Null) \<Longrightarrow> shape s b t \<Longrightarrow> branching t \<Longrightarrow>
    shape s p (Branch t None)"
| if_else: "peek_node s p = Some k \<Longrightarrow> skel k = new_stmt (IfStmt Null b e) \<Longrightarrow> e \<noteq> Null \<Longrightarrow> shape s b t \<Longrightarrow> branching t \<Longrightarrow>
    shape s e u \<Longrightarrow> branching u \<Longrightarrow> shape s p (Branch t (Some u))"

lemma flow_skel: "skel k = skel k' \<Longrightarrow> flow k = flow k'"
proof -
  have "flow (skel k) = flow k" for k
    by (cases k) (auto simp: new_stmt_def new_expr_def new_type_def split: stmt_body.split)
  then show "skel k = skel k' \<Longrightarrow> flow k = flow k'" by metis
qed

lemma shape_mono:
  assumes "shape s p t"
    and same: "\<And>p k. peek_node s p = Some k \<Longrightarrow> \<exists>k'. peek_node s' p = Some k' \<and> skel k' = skel k"
  shows "shape s' p t"
  using assms(1)
proof (induction rule: shape.induct)
  case (quiet p k)
  then show ?case by (metis flow_skel shape.quiet same)
next
  case (block p k ns ts)
  then have "list_all2 (shape s') ns ts" by (auto elim: list_all2_mono)
  with block show ?case by (metis shape.block same)
qed (metis shape.intros same)+

lemma shape_steady: "shape s p t \<Longrightarrow> steady d s s' \<Longrightarrow> shape s' p t"
  by (erule shape_mono) (metis steady_node)

lemma shape_cong: "shape s p t \<Longrightarrow> nodes s' = nodes s \<Longrightarrow> shape s' p t"
  by (erule shape_mono) (simp add: peek_node_def split: ptr.splits if_splits)

subsection \<open>The flag\<close>

definition marked :: "analyzer \<Rightarrow> nat \<Rightarrow> bool" where
  "marked s i = has_return (flags_at (scopes s) i)"

abbreviation lev :: "analyzer \<Rightarrow> nat" where
  "lev s \<equiv> unat (m_level (scopes s))"

definition in_table :: "nat \<Rightarrow> analyzer \<Rightarrow> bool" where
  "in_table n s \<longleftrightarrow> 0 < lev s \<and> lev s < length (m_table (scopes s)) \<and> lev s + n < 2 ^ 16"

definition marks :: "flow_tree \<Rightarrow> analyzer \<Rightarrow> analyzer \<Rightarrow> bool" where
  "marks t s s' \<longleftrightarrow> marked s' (lev s) = mark_after t (marked s (lev s)) \<and>
     (branching t \<longrightarrow> marked s' (Suc (lev s)) = mark_below t)"

definition accept_marks :: "nat \<Rightarrow> (ptr \<Rightarrow> visit_ctx \<Rightarrow> ptr an) \<Rightarrow> bool" where
  "accept_marks n acc \<longleftrightarrow> (\<forall>p ctx s x s' t. in_table n s \<longrightarrow> shape s p t \<longrightarrow>
     acc p ctx s = Inr (x, s') \<longrightarrow> marks t s s')"

lemma steady_marked: "steady d s s' \<Longrightarrow> i < length (m_table (scopes s)) \<Longrightarrow> i + d \<le> lev s \<Longrightarrow> marked s' i = marked s i"
  by (simp add: steady_def marked_def)

lemma steady_in_table: "steady d s s' \<Longrightarrow> in_table n s \<Longrightarrow> in_table n s'"
  by (auto simp: steady_def in_table_def)

lemma in_table_less: "in_table (Suc n) s \<Longrightarrow> in_table n s"
  by (simp add: in_table_def)

lemma has_return_bit: "has_return w \<longleftrightarrow> bit w 0"
  by (simp add: has_return_def SF_HasReturn_def and_one_eq bit_0 mod_2_eq_odd)

lemma has_return_simps [simp]:
  "has_return (w OR SF_HasReturn)" "\<not> has_return (w AND NOT SF_HasReturn)" "\<not> has_return 0"
  by (simp_all add: has_return_bit SF_HasReturn_def bit_simps)

lemma current_flags_at:
  "lev s < length (m_table (scopes s)) \<Longrightarrow> current_flags s = Inr (flags_at (scopes s) (lev s), s)"
  by (simp add: current_flags_def scope_flags_def ask_def get_current_flags_def get_scope_data_def flags_at_def)

lemma marked_or:
  "marked (s\<lparr>scopes := upd_level i (\<lambda>d. d\<lparr>sd_flags := sd_flags d OR SF_HasReturn\<rparr>) (scopes s)\<rparr>) j =
     (marked s j \<or> (j = i \<and> i < length (m_table (scopes s))))"
  by (auto simp: marked_def flags_upd_level)

lemma lower_flags_at:
  "lower_flags s = Inr (w, s') \<Longrightarrow> lev s + 1 < 2 ^ 16 \<Longrightarrow> s' = s \<and> has_return w = marked s (Suc (lev s))"
  by (auto simp: lower_flags_def scope_flags_def ask_def rbind_eq_Inr_iff get_lower_flags_def get_scope_data_def
      marked_def flags_at_def unat_word_ariths split: if_splits)

locale return_visits = steady_visits +
  assumes accept_marks_ok: "accept_marks n (v_accept v)"
begin

lemma child_marks:
  "v_accept v p ctx s = Inr (x, s') \<Longrightarrow> shape s p t \<Longrightarrow> in_table n s \<Longrightarrow> marks t s s'"
  using accept_marks_ok by (auto simp: accept_marks_def)

lemma child_steady: "v_accept v p ctx s = Inr (x, s') \<Longrightarrow> in_table n s \<Longrightarrow> steady (Suc 0) s s'"
  by (rule staysD [OF accept_any]) (simp_all add: in_table_def)

lemma exact_steady: "stays n 0 m \<Longrightarrow> m s = Inr (x, s') \<Longrightarrow> in_table n s \<Longrightarrow> steady 0 s s'"
  by (rule staysD [of n 0 m s x s']) (auto simp: in_table_def)

lemma exact_marked: "stays n 0 m \<Longrightarrow> m s = Inr (x, s') \<Longrightarrow> in_table n s \<Longrightarrow> marked s' (lev s) = marked s (lev s)"
  using steady_marked [OF exact_steady [of m s x s']] by (simp add: in_table_def)

text \<open>The statements of a block, one after the other.\<close>

lemma each_marks:
  assumes "each (\<lambda>q. bnd (v_accept v q ctx) (\<lambda>_. ret ())) ns s = Inr (x, s')"
    and "list_all2 (shape s) ns ts" and "in_table n s"
  shows "marked s' (lev s) = fold mark_after ts (marked s (lev s)) \<and> steady (Suc 0) s s'"
  using assms
proof (induction ns arbitrary: ts s)
  case (Cons q ns)
  obtain t ts' where ts: "ts = t # ts'" "shape s q t" "list_all2 (shape s) ns ts'"
    using Cons.prems(2) by (auto simp: list_all2_Cons1)
  obtain y s1 where 1: "v_accept v q ctx s = Inr (y, s1)"
    and 2: "each (\<lambda>q. bnd (v_accept v q ctx) (\<lambda>_. ret ())) ns s1 = Inr (x, s')"
    using Cons.prems(1) unfolding each.simps bnd_assoc bnd_ret_left by (rule bndE)
  have st: "steady (Suc 0) s s1" by (rule child_steady [OF 1 Cons.prems(3)])
  have m: "marked s1 (lev s) = mark_after t (marked s (lev s))"
    using child_marks [OF 1 ts(2) Cons.prems(3)] by (simp add: marks_def)
  have "list_all2 (shape s1) ns ts'" using ts(3) shape_steady [OF _ st] by (auto elim: list_all2_mono)
  from Cons.IH [OF 2 this steady_in_table [OF st Cons.prems(3)]]
  have "marked s' (lev s1) = fold mark_after ts' (marked s1 (lev s1))" and "steady (Suc 0) s1 s'" by auto
  then show ?case using m ts(1) steady_level [OF st] steady_trans [OF st] by auto
qed simp

text \<open>\<open>leads m k\<close>: a run of \<open>m\<close> that returns ends with \<open>k\<close>, and leaves all flags until then.\<close>

definition leads :: "'a an \<Rightarrow> 'a an \<Rightarrow> bool" where
  "leads m k \<longleftrightarrow> (\<forall>s x s'. in_table n s \<longrightarrow> m s = Inr (x, s') \<longrightarrow> (\<exists>s1. steady 0 s s1 \<and> k s1 = Inr (x, s')))"

lemma leads_refl: "leads k k"
  by (auto simp: leads_def)

lemma leads_bnd:
  assumes "stays n 0 m" and "\<And>x. leads (f x) k"
  shows "leads (bnd m f) k"
  unfolding leads_def
proof (intro allI impI)
  fix s x s' assume t: "in_table n s" and "bnd m f s = Inr (x, s')"
  then obtain y s1 where 1: "m s = Inr (y, s1)" and 2: "f y s1 = Inr (x, s')" by auto
  have st: "steady 0 s s1" by (rule exact_steady [OF assms(1) 1 t])
  obtain s2 where "steady 0 s1 s2" "k s2 = Inr (x, s')"
    using assms(2) [unfolded leads_def, rule_format, OF steady_in_table [OF st t] 2] by blast
  then show "\<exists>s1. steady 0 s s1 \<and> k s1 = Inr (x, s')" using steady_trans [OF st] by blast
qed

lemma leads_if: "leads a k \<Longrightarrow> leads b k \<Longrightarrow> leads (if c then a else b) k"
  by simp

lemma leads_throw: "leads (throw_at p msg args) k"
  by (auto simp: leads_def throw_at_def throw_formatted_def split: option.splits)

lemmas leads_steps = leads_if leads_throw leads_bnd

lemma leads_while: "leads (visit_while v p c b) (bnd (v_accept v b empty_ctx) (\<lambda>_. ret p))"
  unfolding visit_while_def by (rule leads_refl | (rule leads_steps, (simp; fail)?))+

lemma leads_for: "leads (visit_for v p bs it b) (bnd (v_accept v b empty_ctx) (\<lambda>_. ret p))"
  unfolding visit_for_def by (rule leads_refl | (rule leads_steps, (simp add: stays_only_if; fail)?))+

lemma leads_return: "leads (after_return p fn e) (bnd mark_return (\<lambda>_. ret p))"
  unfolding after_return_def by (rule leads_refl | (rule leads_steps, (simp; fail)?))+

definition after_condition :: "ptr \<Rightarrow> ptr \<Rightarrow> ptr \<Rightarrow> ptr an" where
  "after_condition p body else_br =
     bnd (v_accept v body empty_ctx) (\<lambda>_.
     bnd current_flags (\<lambda>w.
     bnd (change_scopes (set_current_flags (w AND NOT SF_HasReturn))) (\<lambda>_.
     bnd lower_flags (\<lambda>w1.
     bnd (only_if (else_br \<noteq> Null)
            (bnd (v_accept v else_br empty_ctx) (\<lambda>_.
             bnd lower_flags (\<lambda>w2.
             only_if (has_return w1 \<and> has_return w2) mark_return)))) (\<lambda>_. ret p)))))"

lemma leads_condition: "leads (visit_if v p c b e) (after_condition p b e)"
  unfolding visit_if_def after_condition_def [symmetric]
  by (rule leads_refl | (rule leads_steps, (simp; fail)?))+

lemma leadsE:
  assumes "leads m k" and "m s = Inr (x, s')" and "in_table n s"
  obtains s1 where "steady 0 s s1" and "k s1 = Inr (x, s')"
  using assms unfolding leads_def by blast

lemma mark_return_marks:
  assumes "bnd mark_return (\<lambda>_. ret p) s = Inr (x, s')" and "in_table n s"
  shows "marked s' (lev s)"
  using assms by (auto simp: mark_return_def current_flags_def scope_flags_def ask_def rbind_eq_Inr_iff change_scopes_def
      set_current_flags_def marked_def flags_upd_level in_table_def)

lemma return_marks:
  assumes node: "peek_node s p = Some (NStmt st)" "st_body st = ReturnStmt e" and e: "e \<noteq> Null"
    and run: "visit_return v p e ctx s = Inr (x, s')" and t: "in_table n s"
  shows "marked s' (lev s)"
proof -
  have before: "stays n 0 (before_return p e ctx)" by (auto simp: before_return_def intro!: stays_intros)
  obtain fn e1 s1 s2 where 1: "before_return p e ctx s = Inr ((fn, e1), s1)"
    and 2: "change_stmt p (set_returned e1) s1 = Inr ((), s2)" and 3: "after_return p fn e1 s2 = Inr (x, s')"
    using run unfolding visit_return_split [OF e] by (elim bndE) auto
  have a: "steady 0 s s1" by (rule exact_steady [OF before 1 t])
  have same: "scopes s2 = scopes s1" using 2 by (auto simp: change_stmt_def change_def)
  have t2: "in_table n s2" using steady_in_table [OF a t] same by (simp add: in_table_def)
  obtain s3 where b: "steady 0 s2 s3" and 4: "bnd mark_return (\<lambda>_. ret p) s3 = Inr (x, s')"
    by (rule leadsE [OF leads_return 3 t2])
  have "lev s3 = lev s" using steady_level [OF a] steady_level [OF b] same by simp
  then show ?thesis using mark_return_marks [OF 4 steady_in_table [OF b t2]] by simp
qed

lemma propagate_marks:
  assumes "propagate_return s = Inr ((), s')" and "1 < m_level (scopes s)"
    and "lev s < length (m_table (scopes s))" and "unat (m_level (scopes s) - 1) = i" and "lev s = Suc i"
  shows "marked s' i = (marked s i \<or> marked s (Suc i))" and "marked s' (Suc i) = marked s (Suc i)" and "lev s' = Suc i"
  using assms by (auto simp: propagate_return_def current_flags_at level_now_def only_if_def change_scopes_def
      marked_or bnd_def [of "current_flags"] marked_def [of s "Suc i", symmetric] split: if_splits)

lemma block_marks:
  assumes ts: "list_all2 (shape s) ns ts" and run: "visit_block v p ns ctx s = Inr (x, s')" and t: "in_table (Suc n) s"
  shows "marks (Block ts) s s'"
proof -
  let ?s0 = "s\<lparr>scopes := go_down (scopes s)\<rparr>"
  obtain s1 s2 where 1: "each (\<lambda>q. bnd (v_accept v q (new_ctx p ctx Null)) (\<lambda>_. ret ())) ns ?s0 = Inr ((), s1)"
    and 2: "propagate_return s1 = Inr ((), s2)" and s': "s' = s2\<lparr>scopes := go_up (scopes s2)\<rparr>"
    using run by (auto simp: visit_block_def with_scope_def change_scopes_def)
  have w: "unat (m_level (scopes s)) + 1 < 2 ^ 16" using t by (simp add: in_table_def)
  note down = go_down_frames [OF w]
  have len: "lev ?s0 < length (m_table (scopes ?s0))"
    using t down(1) by (auto simp: in_table_def go_down_def Let_def)
  have t0: "in_table n ?s0" using t down(1) len by (simp add: in_table_def)
  have shape0: "list_all2 (shape ?s0) ns ts"
    using ts by (rule list_all2_mono) (erule shape_cong, simp)
  have fresh: "marked ?s0 (Suc (lev s)) = False"
    using t down(1) by (auto simp: marked_def go_down_def Let_def flags_upd_level in_table_def)
  have outer: "marked ?s0 (lev s) = marked s (lev s)" using down(5) t by (simp add: marked_def in_table_def)
  have m: "marked s1 (Suc (lev s)) = fold mark_after ts False" and st: "steady (Suc 0) ?s0 s1"
    using each_marks [OF 1 shape0 t0] down(1) fresh by auto
  have l1: "lev s1 = Suc (lev s)" using steady_level [OF st] down(1) by simp
  have len1: "Suc (lev s) < length (m_table (scopes s1))" using st len down(1) by (simp add: steady_def)
  have outer1: "marked s1 (lev s) = marked s (lev s)"
    using steady_marked [OF st, of "lev s"] outer len down(1) by simp
  have big: "1 < m_level (scopes s1)" and up: "unat (m_level (scopes s1) - 1) = lev s"
    using l1 t by (simp_all add: word_less_nat_alt unat_minus_one word_neq_0_conv in_table_def)
  have passed: "marked s2 (lev s) = (marked s (lev s) \<or> fold mark_after ts False)"
    "marked s2 (Suc (lev s)) = fold mark_after ts False" "lev s2 = Suc (lev s)"
    using propagate_marks [OF 2 big] m outer1 len1 up l1 by auto
  have "marked s' i = marked s2 i" for i
    using go_up_frames(5) [of "scopes s2"] passed(3) by (simp add: s' marked_def)
  then show ?thesis using passed by (simp add: marks_def)
qed

lemma if_marks:
  assumes run: "visit_if v p c b e s = Inr (x, s')" and t: "in_table (Suc n) s"
    and b: "shape s b tb" "branching tb" and e: "e \<noteq> Null \<Longrightarrow> shape s e te \<and> branching te"
  shows "marks (Branch tb (if e = Null then None else Some te)) s s'"
proof -
  have tn: "in_table n s" using t by (rule in_table_less)
  obtain s1 where st1: "steady 0 s s1" and rest: "after_condition p b e s1 = Inr (x, s')"
    by (rule leadsE [OF leads_condition run tn])
  have l1: "lev s1 = lev s" and t1: "in_table n s1"
    using steady_level [OF st1] steady_in_table [OF st1 tn] by simp_all
  obtain y s2 w s3 w1 sL where body: "v_accept v b empty_ctx s1 = Inr (y, s2)"
    and w: "current_flags s2 = Inr (w, s2)" and s3: "s3 = s2\<lparr>scopes := set_current_flags (w AND NOT SF_HasReturn) (scopes s2)\<rparr>"
    and w1: "lower_flags s3 = Inr (w1, sL)" and tail: "only_if (e \<noteq> Null)
            (bnd (v_accept v e empty_ctx) (\<lambda>_. bnd lower_flags (\<lambda>w2.
             only_if (has_return w1 \<and> has_return w2) mark_return))) sL = Inr ((), s')"
    using rest unfolding after_condition_def change_scopes_def
    by (elim bndE) (auto simp: current_flags_def scope_flags_def ask_def rbind_eq_Inr_iff)
  have st2: "steady (Suc 0) s1 s2" by (rule child_steady [OF body t1])
  have m2: "marked s2 (Suc (lev s)) = mark_below tb"
    using child_marks [OF body shape_steady [OF b(1) st1] t1] b(2) l1 by (simp add: marks_def)
  have l2: "lev s2 = lev s" and t2: "in_table n s2"
    using steady_level [OF st2] steady_in_table [OF st2 t1] l1 by simp_all
  have st3: "steady (Suc 0) s2 s3"
    by (auto simp: s3 set_current_flags_def flags_upd_level intro!: steady_scopes)
  have l3: "lev s3 = lev s" and t3: "in_table n s3"
    using steady_level [OF st3] steady_in_table [OF st3 t2] l2 by simp_all
  have m3: "marked s3 (lev s) = False" "marked s3 (Suc (lev s)) = mark_below tb"
    using m2 t2 l2 by (auto simp: s3 set_current_flags_def marked_def flags_upd_level in_table_def)
  have bound: "lev s + 1 < 2 ^ 16" using t by (simp add: in_table_def)
  have low1: "sL = s3" "has_return w1 = mark_below tb"
    using lower_flags_at [OF w1] bound l3 m3 by simp_all
  show ?thesis
  proof (cases "e = Null")
    case True
    then show ?thesis using tail low1 m3 by (simp add: marks_def only_if_def)
  next
    case False
    then obtain z s4 w2 s5 s6 where other: "v_accept v e empty_ctx s3 = Inr (z, s4)"
      and w2: "lower_flags s4 = Inr (w2, s5)"
      and final: "only_if (has_return w1 \<and> has_return w2) mark_return s5 = Inr ((), s6)" and s': "s' = s6"
      using tail low1(1) by (auto simp: only_if_def)
    have "shape s3 e te" using e [OF False] shape_steady st1 st2 st3 by blast
    from child_marks [OF other this t3] e [OF False] m3 l3
    have m4: "marked s4 (lev s) = mark_after te False" "marked s4 (Suc (lev s)) = mark_below te"
      by (simp_all add: marks_def)
    have st4: "steady (Suc 0) s3 s4" by (rule child_steady [OF other t3])
    have l4: "lev s4 = lev s" and t4: "in_table n s4"
      using steady_level [OF st4] steady_in_table [OF st4 t3] l3 by simp_all
    have low2: "s5 = s4" "has_return w2 = mark_below te"
      using lower_flags_at [OF w2] bound l4 m4 by simp_all
    have "marked s' (lev s) = (mark_after te False \<or> mark_below tb \<and> mark_below te)"
      "marked s' (Suc (lev s)) = mark_below te"
      using final m4 low1 low2 t4 l4
      by (auto simp: s' only_if_def mark_return_def current_flags_at change_scopes_def set_current_flags_def
          marked_def flags_upd_level in_table_def bnd_def [of current_flags] split: if_splits)
    then show ?thesis using False by (simp add: marks_def)
  qed
qed

lemma loop_marks:
  assumes lead: "leads m (bnd (v_accept v b empty_ctx) (\<lambda>_. ret p))" and run: "m s = Inr (x, s')"
    and t: "in_table n s" and b: "shape s b tb"
  shows "marks (Loop tb) s s'"
proof -
  obtain s1 where st1: "steady 0 s s1" and rest: "bnd (v_accept v b empty_ctx) (\<lambda>_. ret p) s1 = Inr (x, s')"
    by (rule leadsE [OF lead run t])
  then obtain y where body: "v_accept v b empty_ctx s1 = Inr (y, s')" by auto
  have "marks tb s1 s'" by (rule child_marks [OF body shape_steady [OF b st1] steady_in_table [OF st1 t]])
  moreover have "lev s1 = lev s" using steady_level [OF st1] by simp
  moreover have "marked s1 (lev s) = marked s (lev s)"
    using steady_marked [OF st1] t by (simp add: in_table_def)
  ultimately show ?thesis by (simp add: marks_def)
qed

lemma visit_node_marks: "accept_marks (Suc n) (visit_node v)"
  unfolding accept_marks_def
proof (intro allI impI)
  fix p ctx s x s' t
  assume t: "in_table (Suc n) s" and shape: "shape s p t" and run: "visit_node v p ctx s = Inr (x, s')"
  have tn: "in_table n s" using t by (rule in_table_less)
  have l: "unat (m_level (scopes s)) + Suc n < 2 ^ 16" using t by (simp add: in_table_def)
  from shape show "marks t s s'"
  proof cases
    case (quiet k)
    then have "steady 0 s s'" using visit_node_steady l run by (force simp: accept_steady_def slack_def)
    then show ?thesis using quiet steady_marked t by (simp add: marks_def in_table_def)
  next
    case (bare k)
    then have "s' = s" using run by (cases k) (auto simp: new_stmt_def new_expr_def new_type_def visit_node_def
        visit_stmt_node_def visit_return_def elim!: skel_stmt.elims split: if_splits)
    then show ?thesis using bare by (simp add: marks_def)
  next
    case (result k e)
    then obtain st e' where "k = NStmt st" "st_body st = ReturnStmt e'" "e' \<noteq> Null"
      by (cases k) (auto simp: new_stmt_def new_expr_def new_type_def elim!: skel_stmt.elims split: if_splits)
    then show ?thesis
      using return_marks [of s p st e' ctx x s'] run result tn by (simp add: marks_def visit_node_def visit_stmt_node_def)
  next
    case (block k ns ts)
    then obtain st where "k = NStmt st" "st_body st = BlockStmt ns"
      by (cases k) (auto simp: new_stmt_def new_expr_def new_type_def elim!: skel_stmt.elims split: if_splits)
    then show ?thesis
      using block_marks [of s ns ts p ctx x s'] run block t by (simp add: visit_node_def visit_stmt_node_def)
  next
    case (loop k b tb)
    have comp: "leads (bnd (v_accept v b empty_ctx) (\<lambda>_. ret p)) (bnd (v_accept v b empty_ctx) (\<lambda>_. ret p))"
      by (rule leads_refl)
    obtain st where "k = NStmt st" "(\<exists>c. st_body st = WhileStmt c b) \<or> (\<exists>bs it. st_body st = ForStmt bs it b) \<or> st_body st = CompIfStmt b"
      using loop by (cases k) (auto simp: new_stmt_def new_expr_def new_type_def elim!: skel_stmt.elims split: if_splits)
    then show ?thesis
      using loop_marks [OF leads_while _ tn loop(4)] loop_marks [OF leads_for _ tn loop(4)]
        loop_marks [OF comp _ tn loop(4)] run loop by (auto simp: visit_node_def visit_stmt_node_def)
  next
    case (if_only k b tb)
    then obtain st c where "k = NStmt st" "st_body st = IfStmt c b Null"
      by (cases k) (auto simp: new_stmt_def new_expr_def new_type_def elim!: skel_stmt.elims split: if_splits)
    then show ?thesis
      using if_marks [of p c b Null s x s' tb] run if_only t by (simp add: visit_node_def visit_stmt_node_def)
  next
    case (if_else k b e tb te)
    then obtain st c where "k = NStmt st" "st_body st = IfStmt c b e"
      by (cases k) (auto simp: new_stmt_def new_expr_def new_type_def elim!: skel_stmt.elims split: if_splits)
    then show ?thesis
      using if_marks [of p c b e s x s' tb te] run if_else t by (simp add: visit_node_def visit_stmt_node_def)
  qed
qed

end

lemma accept_keeps_marks:
  assumes "modules_steady env"
  shows "accept_marks n (accept env n)"
proof (induction n)
  case 0
  show ?case by (simp add: accept_marks_def)
next
  case (Suc n)
  have "return_visits (env\<lparr>v_accept := accept env n\<rparr>) n"
    by standard (use Suc accept_keeps [OF assms] assms in \<open>simp_all add: modules_steady_def\<close>)
  then show ?case using return_visits.visit_node_marks by simp
qed

subsection \<open>What a marked body is worth\<close>

text \<open>Every path through the tree returns a value.\<close>

fun certain :: "flow_tree \<Rightarrow> bool" where
  "certain Quiet = False"
| "certain Returns = True"
| "certain (Block ts) = (\<exists>t \<in> set ts. certain t)"
| "certain (Loop t) = False"
| "certain (Branch t None) = False"
| "certain (Branch t (Some e)) = (certain t \<and> certain e)"

text \<open>No loop returns, and an \<open>else\<close> is a block that returns only if the block before it does.\<close>

fun tame :: "flow_tree \<Rightarrow> bool" where
  "tame Quiet = True"
| "tame Returns = True"
| "tame (Block ts) = (\<forall>t \<in> set ts. tame t)"
| "tame (Loop t) = (\<forall>c. mark_after t c = c)"
| "tame (Branch t None) = True"
| "tame (Branch t (Some (Block es))) = ((\<forall>e \<in> set es. tame e) \<and> (certain (Block es) \<longrightarrow> certain t))"
| "tame (Branch t (Some e)) = False"

lemma tame_fold:
  assumes "\<And>t c. t \<in> set ts \<Longrightarrow> tame t \<Longrightarrow> mark_after t c \<Longrightarrow> c \<or> certain t"
    and "\<forall>t \<in> set ts. tame t" and "fold mark_after ts c"
  shows "c \<or> (\<exists>t \<in> set ts. certain t)"
  using assms by (induction ts arbitrary: c) (simp, metis fold_Cons comp_apply list.set_intros)

lemma tame_marks: "tame t \<Longrightarrow> mark_after t c \<Longrightarrow> c \<or> certain t"
proof (induction t arbitrary: c rule: tame.induct)
  case (3 ts)
  then show ?case using tame_fold [of ts False] by auto
next
  case (6 t es)
  then show ?case using tame_fold [of es False] by auto
qed auto

text \<open>What the flag gets wrong: a return in a loop counts, and so does one in an \<open>else\<close> alone, while
  an \<open>if\<close> without \<open>else\<close> drops the returns in front of it.\<close>

lemma mark_faults:
  "fold mark_after [Loop (Block [Returns])] False" "\<not> certain (Block [Loop (Block [Returns])])"
  "fold mark_after [Branch (Block []) (Some (Block [Returns]))] False"
  "\<not> certain (Block [Branch (Block []) (Some (Block [Returns]))])"
  "\<not> fold mark_after [Returns, Branch (Block []) None] False" "certain (Block [Returns, Branch (Block []) None])"
  by simp_all

subsection \<open>The properties\<close>

text \<open>C5: The flag \<open>HasReturn\<close> is a function of the tree. A visit of a statement in a scope that is
  in the table, below level 0, that ends without an error leaves in that scope the mark
  \<open>mark_after\<close> of the tree of the statement, and in the scope of its block the mark \<open>mark_below\<close>.\<close>

theorem return_flag_refines:
  assumes "modules_steady env" and "shape s p t"
    and "0 < unat (m_level (scopes s))" and "unat (m_level (scopes s)) < length (m_table (scopes s))"
    and "unat (m_level (scopes s)) + n < 2 ^ 16" and "accept env n p ctx s = Inr (x, s')"
  shows "marked s' (unat (m_level (scopes s))) = mark_after t (marked s (unat (m_level (scopes s)))) \<and>
    (branching t \<longrightarrow> marked s' (Suc (unat (m_level (scopes s)))) = mark_below t)"
proof -
  have "in_table n s" using assms(3-5) by (simp add: in_table_def)
  then have "marks t s s'"
    using accept_keeps_marks [OF assms(1), of n] assms(2,6) unfolding accept_marks_def by blast
  then show ?thesis by (simp add: marks_def)
qed

context return_visits begin

lemma body_marks:
  assumes run: "visit_block_body v p s = Inr ((), s')" and t: "in_table n s" and fresh: "\<not> marked s (lev s)"
    and f: "as_fn s p = Some f" and body: "fn_body f \<noteq> Null" "peek_node s (fn_body f) = Some k"
      "skel k = new_stmt (BlockStmt ns)" "list_all2 (shape s) ns ts"
  shows "(\<exists>g. as_fn s' p = Some g \<and> is_equal (v_fuel v) s' (meta_ptr (fs_return_type (fn_sig g))) (Static VOID_TYPE) = Inr True)
    \<or> fold mark_after ts False"
proof -
  obtain u s1 where 1: "resolve_return v p s = Inr (u, s1)" and rest: "bnd (the_fn p) (\<lambda>fn.
     bnd (if fn_body fn = Null then ret [] else block_nodes (fn_body fn)) (\<lambda>ns.
     bnd (each (\<lambda>n. bnd (v_accept v n empty_ctx) (\<lambda>_. ret ())) ns) (\<lambda>_.
     bnd current_flags (\<lambda>flags.
     bnd (return_type_of p) (\<lambda>t.
     bnd (same_type v t (Static VOID_TYPE)) (\<lambda>is_void.
     only_if (\<not> is_void \<and> \<not> has_return flags \<and> fn_body fn \<noteq> Null)
       (throw_at p ''Not all paths return a value'' []))))))) s1 = Inr ((), s')"
    using run unfolding visit_block_body_def by (rule bndE)
  have st1: "steady 0 s s1" by (rule exact_steady [of "resolve_return v p", OF _ 1 t]) simp
  have t1: "in_table n s1" by (rule steady_in_table [OF st1 t])
  obtain k1 where k1: "peek_node s1 (fn_body f) = Some k1" "skel k1 = skel k"
    by (rule steady_node [OF st1 body(2)])
  then obtain st where st: "k1 = NStmt st" "st_body st = BlockStmt ns"
    using body(3) by (cases k1) (auto simp: new_stmt_def new_expr_def new_type_def elim!: skel_stmt.elims split: if_splits)
  obtain tn where tn: "peek_node s p = Some (NType tn)" "ty_body tn = FnType f"
    using f by (auto simp: as_fn_def as_type_def split: option.splits node.splits type_body.splits)
  obtain k2 where k2: "peek_node s1 p = Some k2" "skel k2 = skel (NType tn)" by (rule steady_node [OF st1 tn(1)])
  then obtain g where g: "as_fn s1 p = Some g" "fn_body g = fn_body f"
    using tn(2) by (cases k2) (auto simp: as_fn_def as_type_def empty_fn_def new_expr_def new_stmt_def new_type_def
        elim!: skel_type.elims split: type_body.splits)
  have nodes: "block_nodes (fn_body f) s1 = Inr (ns, s1)"
    using k1(1) st by (simp add: block_nodes_def the_stmt_def ask_def as_stmt_def bnd_def)
  obtain s2 flags ty is_void where 2: "each (\<lambda>n. bnd (v_accept v n empty_ctx) (\<lambda>_. ret ())) ns s1 = Inr ((), s2)"
    and flags: "current_flags s2 = Inr (flags, s2)" and ty: "return_type_of p s2 = Inr (ty, s2)"
    and void: "is_equal (v_fuel v) s2 ty (Static VOID_TYPE) = Inr is_void"
    and ok: "is_void \<or> has_return flags" and s': "s' = s2"
    using rest g(2) nodes g(1) body(1)
    by (auto simp: the_fn_def ask_def run_bnd_Inr current_flags_def scope_flags_def rbind_eq_Inr_iff only_if_def
        return_type_of_def same_type_def throw_at_def throw_formatted_def split: if_splits option.splits)
  have "list_all2 (shape s1) ns ts" using body(4) shape_steady [OF _ st1] by (auto elim: list_all2_mono)
  from each_marks [OF 2 this t1]
  have m: "marked s2 (lev s1) = fold mark_after ts (marked s1 (lev s1))" and st2: "steady (Suc 0) s1 s2" by auto
  have "marked s1 (lev s) = marked s (lev s)" by (rule steady_marked [OF st1]) (use t in \<open>auto simp: in_table_def\<close>)
  then have "has_return flags = fold mark_after ts False"
    using m flags fresh steady_level [OF st1] steady_level [OF st2] steady_in_table [OF st2 t1]
    by (simp add: current_flags_at marked_def in_table_def)
  moreover have "\<exists>g. as_fn s2 p = Some g \<and> meta_ptr (fs_return_type (fn_sig g)) = ty"
    using ty by (auto simp: return_type_of_def the_fn_def ask_def rbind_eq_Inr_iff null_pointer_def split: option.splits)
  ultimately show ?thesis using ok void s' by auto
qed

end


subsection \<open>An example\<close>

text \<open>\<open>fn f() i32 { if true { return 1 } else { return 2 } }\<close>, while it is visited.\<close>

definition typed_literal :: "literal_value \<Rightarrow> static_type \<Rightarrow> node" where
  "typed_literal l t = NExpr \<lparr>ex_token = empty_token, ex_flags = 0, ex_mut_set = 0, ex_type = Static t, ex_body = LiteralExpr l\<rparr>"

definition both_return :: "node list" where
  "both_return = [new_stmt (IfStmt (At 1) (At 2) (At 5)), typed_literal (LBool True) BOOL_TYPE,
     new_stmt (BlockStmt [At 3]), new_stmt (ReturnStmt (At 4)), typed_literal (LInt 1) I32_TYPE,
     new_stmt (BlockStmt [At 6]), new_stmt (ReturnStmt (At 7)), typed_literal (LInt 2) I32_TYPE,
     new_type (FnType (empty_fn\<lparr>fn_body := At 9, fn_sig := (fn_sig empty_fn)\<lparr>fs_return_type := meta_of (Static I32_TYPE)\<rparr>\<rparr>)),
     new_stmt (BlockStmt [At 0])]"

definition in_both_return :: analyzer where
  "in_both_return = (lone_analyzer both_return)\<lparr>scopes := go_down new_scope_table, an_function_stack := [At 8]\<rparr>"

lemma accept_numeral:
  "accept env (numeral k) = visit_node (env\<lparr>v_accept := accept env (pred_numeral k)\<rparr>)"
  by (simp add: numeral_eq_Suc)

lemma builtin_facts:
  "is_equal 9 s (Static I32_TYPE) (Static I32_TYPE) = Inr True"
  "is_equal 9 s (Static I32_TYPE) (Static VOID_TYPE) = Inr False"
  "is_equal 9 s (Static BOOL_TYPE) (Static BOOL_TYPE) = Inr True"
  "can_coerce_into 9 s (Static I32_TYPE) (Static I32_TYPE) = Inr True"
  by (simp_all add: eval_nat_numeral the_type_def type_obj_at_def builtin_is_equal_def integral_is_equal_def
      can_coerce_into_def virtual_def integral_can_coerce_def integral_of_def class_is_def alias_target_def produce_obj_def produce_type_def get_real_type_def kind_of_def)

lemmas evaluate_example = evaluation lone_analyzer_def in_both_return_def both_return_def typed_literal_def lone_env_def
  visit_if_def visit_block_def with_scope_def accept_numeral visit_expr_def [THEN fun_cong] builtin_facts same_type_def
  accept_expr_def is_expr_def test_mut_def put_mut_set_def expr_or_null_def change_stmt_def upd_stmt_def set_condition_def
  visit_return_def propagate_return_def visit_expr_node_def visit_literal_def new_ctx_def empty_ctx_def
  get_current_fn_def return_type_of_def the_fn_def as_fn_def as_type_def empty_fn_def new_type_def set_returned_def
  mark_return_def set_current_flags_def go_up_def clear_level_def hm_clear_def lower_flags_def get_lower_flags_def
  meta_of_def EF_ResolvedInternal_def SF_HasReturn_def

lemma both_return_run: "\<exists>s'. accept lone_env 6 (At 0) empty_ctx in_both_return = Inr (At 0, s')"
  by (simp add: evaluate_example)

lemma body_run: "\<exists>s'. visit_block_body (lone_env\<lparr>v_accept := accept lone_env 6\<rparr>) (At 8) in_both_return = Inr ((), s')"
  by (simp add: evaluate_example visit_block_body_def resolve_return_def resolve_type_def visit_cell_def
      accept_type_def is_type_def type_obj_at_def heap_type_def change_fn_def upd_fn_def block_nodes_def the_stmt_def as_stmt_def)

lemma both_return_nodes:
  "peek_node in_both_return (At 0) = Some (new_stmt (IfStmt (At 1) (At 2) (At 5)))"
  "peek_node in_both_return (At 2) = Some (new_stmt (BlockStmt [At 3]))"
  "peek_node in_both_return (At 3) = Some (new_stmt (ReturnStmt (At 4)))"
  "peek_node in_both_return (At 5) = Some (new_stmt (BlockStmt [At 6]))"
  "peek_node in_both_return (At 6) = Some (new_stmt (ReturnStmt (At 7)))"
  "peek_node in_both_return (At 9) = Some (new_stmt (BlockStmt [At 0]))"
  by (simp_all add: in_both_return_def lone_analyzer_def both_return_def peek_node_def)

lemma both_return_shape:
  "shape in_both_return (At 0) (Branch (Block [Returns]) (Some (Block [Returns])))"
  "shape in_both_return (At 9) (Block [Branch (Block [Returns]) (Some (Block [Returns]))])"
proof -
  note nodes = both_return_nodes
  have r: "shape in_both_return (At 3) Returns" "shape in_both_return (At 6) Returns"
    using shape.result [OF nodes(3)] shape.result [OF nodes(5)] by (simp_all add: new_stmt_def)
  then have b: "shape in_both_return (At 2) (Block [Returns])" "shape in_both_return (At 5) (Block [Returns])"
    using shape.block [OF nodes(2)] shape.block [OF nodes(4)] by (simp_all add: new_stmt_def)
  show i: "shape in_both_return (At 0) (Branch (Block [Returns]) (Some (Block [Returns])))"
    using shape.if_else [OF nodes(1) _ _ b(1) _ b(2)] by (simp add: new_stmt_def)
  show "shape in_both_return (At 9) (Block [Branch (Block [Returns]) (Some (Block [Returns]))])"
    using shape.block [OF nodes(6)] i by (simp add: new_stmt_def)
qed

lemma in_both_return_scopes:
  "unat (m_level (scopes in_both_return)) = 1" "length (m_table (scopes in_both_return)) = 6"
  "\<not> marked in_both_return 1" "modules_steady lone_env"
  by (simp_all add: in_both_return_def go_down_def new_scope_table_def marked_def flags_upd_level modules_steady_def
      lone_env_def Let_def upd_level_def flags_at_def empty_scope_def)

theorem return_flag_refines_witness:
  "\<exists>s'. accept lone_env 6 (At 0) empty_ctx in_both_return = Inr (At 0, s') \<and> marked s' 1 \<and> marked s' 2"
proof -
  obtain s' where run: "accept lone_env 6 (At 0) empty_ctx in_both_return = Inr (At 0, s')"
    using both_return_run by blast
  have "marked s' 1 \<and> marked s' (Suc 1)"
    using return_flag_refines [OF in_both_return_scopes(4) both_return_shape(1) _ _ _ run]
    by (simp add: in_both_return_scopes)
  then show ?thesis using run by (simp add: numeral_2_eq_2)
qed


end
