(* ===== verification/Analyzer_Limits.thy ===== *)
theory Analyzer_Limits
  imports Analyzer_Frame
begin

section \<open>Limits of the analyzer\<close>

text \<open>
  Two places where a program that is fine as such cannot be analysed: an expression nested too
  deep, and a call without arguments of an overloaded function.
\<close>

subsection \<open>Nested expressions\<close>

text \<open>The operand a visit of an expression goes to before it changes anything, of those operators
  that do so.\<close>

definition first_operand :: "expr_body \<Rightarrow> ptr option" where
  "first_operand b =
     (case b of
        GroupExpr q \<Rightarrow> Some q
      | UnaryExpr op q \<Rightarrow> Some q
      | BinaryExpr op q r \<Rightarrow> Some q
      | AbsExpr q \<Rightarrow> Some q
      | NamedExpr name q \<Rightarrow> Some q
      | _ \<Rightarrow> None)"

text \<open>A literal below \<open>k\<close> of these operators, wherever their nodes are.\<close>

fun deep :: "analyzer \<Rightarrow> ptr \<Rightarrow> nat \<Rightarrow> bool" where
  "deep s p 0 \<longleftrightarrow> (\<exists>e l. peek_node s p = Some (NExpr e) \<and> ex_body e = LiteralExpr l)"
| "deep s p (Suc k) \<longleftrightarrow>
     (\<exists>e q. peek_node s p = Some (NExpr e) \<and> first_operand (ex_body e) = Some q \<and> deep s q k)"

lemma peek_depth [simp]: "peek_node (s\<lparr>an_expr_depth := d\<rparr>) p = peek_node s p"
  by (simp add: peek_node_def split: ptr.split)

lemma deep_depth [simp]: "deep (s\<lparr>an_expr_depth := d\<rparr>) p k = deep s p k"
  by (induction k arbitrary: p) simp_all

lemma deep_node: "deep s p k \<Longrightarrow> \<exists>e. peek_node s p = Some (NExpr e)"
  by (cases k) auto

lemma deep_accept: "deep s p k \<Longrightarrow> accept_expr v p ctx s = v_accept v p ctx s"
  using deep_node [of s p k] by (auto simp: accept_expr_def run_first is_expr_def as_expr_def)

text \<open>The visit of what is inside runs one level deeper; its errors are those of the expression.\<close>

lemma visit_expr_fails:
  assumes "p \<noteq> Null" and "accept_expr v p (ctx\<lparr>vc_depth := an_expr_depth s\<rparr>) (s\<lparr>an_expr_depth := an_expr_depth s + 1\<rparr>) = Inl err"
  shows "visit_expr v parent p ctx s = Inl err"
  using assms by (simp only: visit_expr_def if_False run_first run_bnd_Inl)

lemma visit_expr_deep:
  assumes "p \<noteq> Null" and "accept_expr v p (ctx\<lparr>vc_depth := an_expr_depth s\<rparr>) (s\<lparr>an_expr_depth := an_expr_depth s + 1\<rparr>) = Inr (x, s1)"
    and "as_expr s1 p = Some g" and "32 \<le> unat (an_expr_depth s)"
  shows "visit_expr v parent p ctx s = Inl (OutOfRange ''bitset::test'')"
proof -
  have "the_expr p s1 = Inr (g, s1)" using assms(3) by (simp add: the_expr_def ask_def)
  moreover have "ask (\<lambda>_. test_mut (an_expr_depth s) (ex_mut_set g)) s1 = Inl (OutOfRange ''bitset::test'')"
    using assms(4) by (simp add: ask_def test_mut_def)
  ultimately show ?thesis
    using assms(1,2) by (simp only: visit_expr_def if_False run_first run_bnd_Inl run_bnd_Inr)
qed

lemma operand_fails:
  assumes node: "peek_node s p = Some (NExpr e)" "first_operand (ex_body e) = Some q" and type: "vc_type ctx = Null"
    and inner: "\<And>c. vc_type c = Null \<Longrightarrow> visit_expr v p q c s = Inl err"
  shows "visit_node v p ctx s = Inl err"
proof -
  have "visit_expr v p q (new_ctx p ctx Null) s = Inl err" "visit_expr v p q (new_ctx p ctx (vc_type ctx)) s = Inl err"
    by (rule inner; simp add: new_ctx_def type)+
  then show ?thesis
    using node unfolding visit_node_def
    by (auto simp: first_operand_def visit_expr_node_def visit_group_def visit_abs_def visit_named_def visit_inner_def
        visit_unary_def visit_binary_def run_bnd_Inl split: expr_body.split_asm)
qed

lemma literal_visit:
  assumes "peek_node s p = Some (NExpr e)" and "ex_body e = LiteralExpr l" and "vc_type ctx = Null"
  shows "\<exists>x s' g. visit_node v p ctx s = Inr (x, s') \<and> as_expr s' p = Some g"
proof -
  let ?s1 = "poke_node p (upd_expr (\<lambda>e. e\<lparr>ex_flags := ex_flags e OR EF_ResolvedInternal\<rparr>)) s"
  have flags: "add_flags p EF_ResolvedInternal s = Inr ((), ?s1)" by (simp add: add_flags_def change_def)
  have e1: "as_expr ?s1 p = Some (e\<lparr>ex_flags := ex_flags e OR EF_ResolvedInternal\<rparr>)"
    using assms(1) by (cases p) (simp_all add: as_expr_def peek_node_def poke_node_def upd_expr_def split: if_split_asm)
  then have "type_of p ?s1 = Inr (ex_type e, ?s1)"
    by (simp add: type_of_def the_expr_def ask_def bnd_def)
  with flags have "visit_literal v p ctx s = Inr (p, ?s1)" for v
    using assms(3) by (simp add: visit_literal_def run_bnd_Inr only_if_def)
  then show ?thesis using assms(1,2) e1 by (simp add: visit_node_def visit_expr_node_def)
qed

lemma deep_aborts:
  assumes "deep s p k" and "unat (an_expr_depth s) + k < 256" and "32 \<le> unat (an_expr_depth s) + k"
    and "k < n" and "vc_type ctx = Null"
  shows "visit_expr (env\<lparr>v_accept := accept env n\<rparr>) parent p ctx s = Inl (OutOfRange ''bitset::test'')"
  using assms
proof (induction k arbitrary: p s n ctx parent)
  case 0
  let ?c = "ctx\<lparr>vc_depth := an_expr_depth s\<rparr>" and ?s = "s\<lparr>an_expr_depth := an_expr_depth s + 1\<rparr>"
  obtain e l where e: "peek_node s p = Some (NExpr e)" "ex_body e = LiteralExpr l" using "0.prems"(1) by auto
  then have p: "p \<noteq> Null" by (auto simp: peek_node_def)
  obtain m where m: "n = Suc m" using "0.prems"(4) by (cases n) auto
  obtain x s1 g where "visit_node (env\<lparr>v_accept := accept env m\<rparr>) p ?c ?s = Inr (x, s1)" "as_expr s1 p = Some g"
    using literal_visit [of ?s p e l ?c "env\<lparr>v_accept := accept env m\<rparr>"] e "0.prems"(5) by auto
  then show ?case
    using visit_expr_deep [OF p, where v = "env\<lparr>v_accept := accept env n\<rparr>" and ctx = ctx and s = s] "0.prems"(1,3) m
    by (simp add: deep_accept [of ?s p 0])
next
  case (Suc k)
  let ?c = "ctx\<lparr>vc_depth := an_expr_depth s\<rparr>" and ?s = "s\<lparr>an_expr_depth := an_expr_depth s + 1\<rparr>"
  obtain e q where e: "peek_node s p = Some (NExpr e)" "first_operand (ex_body e) = Some q" and inner: "deep s q k"
    using Suc.prems(1) by auto
  then have p: "p \<noteq> Null" by (auto simp: peek_node_def)
  obtain m where m: "n = Suc m" "k < m" using Suc.prems(4) by (cases n) auto
  have d: "unat (an_expr_depth s + 1) = unat (an_expr_depth s) + 1"
    using Suc.prems(2) by (simp add: unat_word_ariths)
  have "visit_node (env\<lparr>v_accept := accept env m\<rparr>) p ?c ?s = Inl (OutOfRange ''bitset::test'')"
    by (rule operand_fails [OF _ e(2)])
      (use e(1) Suc.prems inner d m(2) in \<open>auto intro: Suc.IH\<close>)
  then show ?case
    by (intro visit_expr_fails [OF p]) (use Suc.prems(1) m(1) in \<open>simp add: deep_accept [of ?s p "Suc k"]\<close>)
qed

text \<open>C34: An expression nested too deep is never analysed. When the condition of an \<open>if\<close> or a \<open>while\<close> inside of a
  scope has a literal as its innermost first operand, below \<open>k\<close> parentheses, unary or binary operators, absolute values or
  named arguments, with \<open>k\<close> from 32 to 255, the visit of the statement ends with the \<open>out_of_range\<close> of
  \<open>bitset::test\<close>: the mutability of the type at its depth is looked up in a set of 32 bits. The condition
  itself has depth 0.\<close>

theorem deep_expression_aborts:
  assumes "peek_node s w = Some (NStmt st)" and "st_body st = IfStmt p body x \<or> st_body st = WhileStmt p body"
    and "deep s p k" and "32 \<le> k" and "k \<le> 255" and "an_expr_depth s = 0" and "m_level (scopes s) \<noteq> 0"
    and "k + 1 < n"
  shows "accept env n w ctx s = Inl (OutOfRange ''bitset::test'')"
proof -
  obtain m where m: "n = Suc m" "k < m" using assms(8) by (cases n) auto
  have "visit_expr (env\<lparr>v_accept := accept env m\<rparr>) Null p empty_ctx s = Inl (OutOfRange ''bitset::test'')"
    by (rule deep_aborts [OF assms(3) _ _ m(2)]) (use assms in \<open>simp_all add: empty_ctx_def\<close>)
  then show ?thesis
    using assms(1,2,7) m(1)
    by (auto simp: visit_node_def visit_stmt_node_def visit_if_def visit_while_def level_now_def run_first run_bnd_Inl)
qed

text \<open>Nodes as the parser allocates them, the inner expression before its group, with a \<open>while\<close> around.\<close>

definition deep_nodes :: "node list" where
  "deep_nodes = new_expr (LiteralExpr (LInt 1)) # map (\<lambda>i. new_expr (GroupExpr (At i))) [0..<32] @
     [new_stmt (WhileStmt (At 32) Null)]"

definition deep_analyzer :: analyzer where
  "deep_analyzer = \<lparr>nodes = deep_nodes, g_attributes = [], g_global_symbols = [], scopes = go_down new_scope_table,
     an_function_stack = [], an_expr_depth = 0, an_named_replace_list = [], an_modules = [], an_module_table = [],
     an_files = no_files, an_escape_buffer = arena_init 0, an_cell = Null\<rparr>"

lemma deep_groups: "k \<le> 32 \<Longrightarrow> deep deep_analyzer (At k) k"
proof (induction k)
  case (Suc k)
  then have "peek_node deep_analyzer (At (Suc k)) = Some (new_expr (GroupExpr (At k)))"
    by (simp add: deep_analyzer_def deep_nodes_def peek_node_def nth_append)
  then show ?case using Suc by (simp add: new_expr_def first_operand_def)
qed (simp add: deep_analyzer_def deep_nodes_def peek_node_def new_expr_def)

theorem deep_expression_aborts_witness:
  "accept \<lparr>v_fuel = 9, v_accept = (\<lambda>p c. fail OutOfFuel), v_get_module = (\<lambda>path. ret None), v_float_op = (\<lambda>op a b. a)\<rparr>
     40 (At 33) empty_ctx deep_analyzer = Inl (OutOfRange ''bitset::test'')"
proof (rule deep_expression_aborts [where k = 32])
  show "peek_node deep_analyzer (At 33) = Some (NStmt \<lparr>st_token = empty_token, st_body = WhileStmt (At 32) Null\<rparr>)"
    by (simp add: deep_analyzer_def deep_nodes_def peek_node_def nth_append new_stmt_def)
  show "deep deep_analyzer (At 32) 32" by (rule deep_groups) simp
qed (simp_all add: deep_analyzer_def go_down_level)

subsection \<open>Calls without arguments\<close>

lemma no_arguments:
  assumes "try_overloads v callp 0 fs s = Inr (f, s')" and "f \<noteq> Null"
  shows "\<exists>fn. as_fn s f = Some fn \<and> fs_callable_arity (fn_sig fn) = 0 \<and> fs_parameters (fn_sig fn) \<noteq> [] \<and> s' = s"
  using assms
  by (induction fs)
    (auto simp: the_fn_def ask_def rbind_eq_Inr_iff null_pointer_def split: if_splits option.splits)

text \<open>Of the functions of an overloaded name, a call without arguments never finds the one
  without parameters: the number of its arguments that had to be visited equals the number of its
  parameters, which is taken for an ambiguous call. Only a function all parameters of which have
  defaults can be found.\<close>

theorem empty_call_needs_default:
  assumes "length functions \<noteq> 1" and "callp = Null \<or> call_args callp s = Inr ([], s)"
    and "get_fn v callp functions s = Inr (f, s')"
  shows "f = Null \<or> (\<exists>fn. as_fn s f = Some fn \<and> fs_parameters (fn_sig fn) \<noteq> [] \<and> fs_callable_arity (fn_sig fn) = 0)"
proof (cases "f = Null")
  case False
  have "try_overloads v callp 0 functions s = Inr (f, s')"
    using assms by (auto simp: get_fn_def bnd_def split: if_splits)
  from no_arguments [OF this False] show ?thesis by blast
qed simp

text \<open>\<open>fn f() \<dots>\<close> and \<open>fn f(x i32) \<dots>\<close>: the call \<open>f()\<close> finds neither.\<close>

definition two_functions :: "node list" where
  "two_functions = [new_type (FnType empty_fn),
     new_type (FnType (empty_fn\<lparr>fn_sig := (fn_sig empty_fn)\<lparr>fs_parameters := [At 2], fs_callable_arity := 1\<rparr>\<rparr>)),
     new_stmt (VarDeclStmt empty_var_decl)]"

theorem empty_call_needs_default_witness:
  "\<exists>f. get_fn lone_env Null [At 0, At 1] (lone_analyzer two_functions) = Inr (f, lone_analyzer two_functions) \<and> f = Null"
proof -
  have run: "get_fn lone_env Null [At 0, At 1] (lone_analyzer two_functions) = Inr (Null, lone_analyzer two_functions)"
    by (simp add: get_fn_def the_fn_def ask_def bnd_def as_fn_def as_type_def peek_node_def lone_analyzer_def
        two_functions_def new_type_def empty_fn_def empty_signature_def)
  show ?thesis using empty_call_needs_default [OF _ _ run] run by auto
qed

end
