(* ===== verification/Node_Memory.thy ===== *)
theory Node_Memory
  imports Prelude Token
begin

section \<open>Memory of nodes (\<open>node.cpp\<close>)\<close>

text \<open>
  Nodes are placed one behind the other in blocks of 32 MB that are linked in the order they are
  made and never moved. The state is the fill of each block, the current block last; an address is
  a block and an offset into it.
\<close>

type_synonym node_memory = "nat list"

definition BLOCK_SIZE :: nat where
  "BLOCK_SIZE = 32 * 1024 * 1024"

definition get_memory :: "nat \<Rightarrow> node_memory \<Rightarrow> (nat \<times> nat) \<times> node_memory" where
  "get_memory amount blocks =
     (let b1 = (if blocks = [] then [0] else blocks);
          b2 = (if last b1 + amount \<ge> BLOCK_SIZE then b1 @ [0] else b1);
          start = last b2
      in ((length b2 - 1, start), butlast b2 @ [start + amount]))"

definition alloc_node :: "32 word \<Rightarrow> node_memory \<Rightarrow> (nat \<times> nat) \<times> node_memory" where
  "alloc_node amount = get_memory (unat amount)"

text \<open>\<open>next\<close> of a block is set when another one follows it. The loop walks from the root while
  there is a next block, and deletes the block it leaves: first the root, which is a static object.\<close>

definition free_memory_blocks :: "node_memory \<Rightarrow> exn + unit" where
  "free_memory_blocks blocks =
     (if length blocks \<le> 1 then Inr () else Inl (Undefined ''delete of a static object''))"

subsection \<open>Nodes do not overlap\<close>

fun alloc_nodes :: "32 word list \<Rightarrow> node_memory \<Rightarrow> ((nat \<times> nat) \<times> nat) list \<times> node_memory" where
  "alloc_nodes [] m = ([], m)"
| "alloc_nodes (n # ns) m =
     (let (p, m1) = alloc_node n m; (ps, m2) = alloc_nodes ns m1 in ((p, unat n) # ps, m2))"

text \<open>The bytes of an object at an address.\<close>

definition bytes_of :: "(nat \<times> nat) \<times> nat \<Rightarrow> (nat \<times> nat) set" where
  "bytes_of obj = {(b, i) |b i. b = fst (fst obj) \<and> snd (fst obj) \<le> i \<and> i < snd (fst obj) + snd obj}"

text \<open>The bytes handed out so far are below the fill of their block.\<close>

definition below :: "node_memory \<Rightarrow> (nat \<times> nat) set" where
  "below m = {(b, i). b < length m \<and> i < m ! b}"

lemma get_memory_step:
  assumes "get_memory n m = (p, m')" and "n \<le> BLOCK_SIZE" and "\<forall>f \<in> set m. f \<le> BLOCK_SIZE"
  shows "bytes_of (p, n) \<subseteq> below m'" and "bytes_of (p, n) \<inter> below m = {}" and "below m \<subseteq> below m'"
    and "snd p + n \<le> BLOCK_SIZE" and "\<forall>f \<in> set m'. f \<le> BLOCK_SIZE"
proof -
  obtain bs f where b2: "m' = bs @ [f + n]" "p = (length bs, f)" and f: "f + n \<le> BLOCK_SIZE"
    and old: "m = bs @ [f] \<or> (f = 0 \<and> (m = bs \<or> (m = [] \<and> bs = [0])))" and fits: "\<forall>x \<in> set bs. x \<le> BLOCK_SIZE"
  proof (cases "m = []")
    case True
    show ?thesis
    proof (cases "BLOCK_SIZE \<le> n")
      case True2: True
      then show ?thesis using that [of "[0]" 0] True assms by (auto simp: get_memory_def Let_def)
    next
      case False
      then show ?thesis using that [of "[]" 0] True assms by (auto simp: get_memory_def Let_def)
    qed
  next
    case False
    then obtain cs g where m: "m = cs @ [g]" by (metis rev_exhaust)
    show ?thesis
    proof (cases "BLOCK_SIZE \<le> g + n")
      case True
      then show ?thesis using that [of m 0] m assms by (auto simp: get_memory_def Let_def butlast_append)
    next
      case False
      then show ?thesis using that [of cs g] m assms by (auto simp: get_memory_def Let_def)
    qed
  qed
  show "bytes_of (p, n) \<subseteq> below m'" using b2 by (auto simp: bytes_of_def below_def nth_append)
  show "bytes_of (p, n) \<inter> below m = {}" using b2 old by (auto simp: bytes_of_def below_def nth_append)
  show "below m \<subseteq> below m'" using b2 old by (auto simp: below_def nth_append less_Suc_eq)
  show "snd p + n \<le> BLOCK_SIZE" "\<forall>f \<in> set m'. f \<le> BLOCK_SIZE" using b2 f fits by auto
qed

lemma alloc_nodes_disjoint:
  assumes "alloc_nodes ns m = (ps, m')" and "\<forall>n \<in> set ns. unat n \<le> BLOCK_SIZE" and "\<forall>f \<in> set m. f \<le> BLOCK_SIZE"
  shows "(\<forall>i < length ps. \<forall>j < length ps. i \<noteq> j \<longrightarrow> bytes_of (ps ! i) \<inter> bytes_of (ps ! j) = {}) \<and>
    (\<forall>q \<in> set ps. snd (fst q) + snd q \<le> BLOCK_SIZE \<and> bytes_of q \<inter> below m = {})"
  using assms
proof (induction ns arbitrary: m ps)
  case (Cons n ns)
  obtain p m1 where 1: "alloc_node n m = (p, m1)" by (rule prod.exhaust)
  obtain qs where 2: "alloc_nodes ns m1 = (qs, m')" and ps: "ps = (p, unat n) # qs"
    using Cons.prems(1) 1 by (auto split: prod.splits)
  have n: "unat n \<le> BLOCK_SIZE" using Cons.prems(2) by simp
  note st = get_memory_step [OF 1 [unfolded alloc_node_def] n Cons.prems(3)]
  note ih = Cons.IH [OF 2 _ st(5)]
  have ih: "\<forall>i < length qs. \<forall>j < length qs. i \<noteq> j \<longrightarrow> bytes_of (qs ! i) \<inter> bytes_of (qs ! j) = {}"
    "\<forall>q \<in> set qs. snd (fst q) + snd q \<le> BLOCK_SIZE \<and> bytes_of q \<inter> below m1 = {}"
    using ih Cons.prems(2) by simp_all
  have first: "bytes_of (p, unat n) \<inter> bytes_of q = {}" if "q \<in> set qs" for q
    using ih(2) st(1) that by blast
  have "bytes_of (ps ! i) \<inter> bytes_of (ps ! j) = {}" if "i < length ps" "j < length ps" "i \<noteq> j" for i j
    using that ih(1) first ps by (cases i; cases j) (auto simp: Int_commute)
  moreover have "bytes_of q \<inter> below m = {}" if "q \<in> set qs" for q
    using ih(2) st(3) that by blast
  ultimately show ?case using ih(2) st(2,4) ps by auto
qed simp

text \<open>C37: Nodes never overlap. Whatever sizes are asked for (none above a block), every node lies
  within its block, and no byte belongs to two nodes.\<close>

theorem nodes_disjoint:
  assumes "alloc_nodes ns [] = (ps, m)" and "\<forall>n \<in> set ns. unat n \<le> BLOCK_SIZE"
  shows "(\<forall>i < length ps. \<forall>j < length ps. i \<noteq> j \<longrightarrow> bytes_of (ps ! i) \<inter> bytes_of (ps ! j) = {}) \<and>
    (\<forall>q \<in> set ps. snd (fst q) + snd q \<le> BLOCK_SIZE)"
  using alloc_nodes_disjoint [OF assms] by auto

theorem nodes_disjoint_witness:
  "fst (alloc_nodes [20 * 1024 * 1024, 16 * 1024 * 1024, 64] []) =
     [((0, 0), 20 * 1024 * 1024), ((1, 0), 16 * 1024 * 1024), ((1, 16 * 1024 * 1024), 64)] \<and>
   bytes_of ((1, 0), 16 * 1024 * 1024) \<inter> bytes_of ((1, 16 * 1024 * 1024), 64) = {}"
proof -
  obtain ps m where run: "alloc_nodes [20 * 1024 * 1024, 16 * 1024 * 1024, 64] [] = (ps, m)" by (rule prod.exhaust)
  have ps: "ps = [((0, 0), 20 * 1024 * 1024), ((1, 0), 16 * 1024 * 1024), ((1, 16 * 1024 * 1024), 64)]"
    using run by (auto simp: alloc_node_def get_memory_def Let_def BLOCK_SIZE_def)
  have "\<forall>n \<in> set [20 * 1024 * 1024, 16 * 1024 * 1024, 64 :: 32 word]. unat n \<le> BLOCK_SIZE"
    by (simp add: BLOCK_SIZE_def)
  from nodes_disjoint [OF run this, THEN conjunct1, rule_format, of 1 2] show ?thesis
    using run ps by simp
qed

text \<open>A node larger than a block is written over the end of its block.\<close>

lemma large_node_overflows: "BLOCK_SIZE < n \<Longrightarrow> BLOCK_SIZE < snd (fst (get_memory n m)) + n"
  by (simp add: get_memory_def Let_def)

end
