(* ===== verification/Parser_Frame.thy ===== *)
theory Parser_Frame
  imports Parser "HOL-Library.Sublist"
begin

section \<open>The parser leaves the nodes of other modules alone\<close>

text \<open>
  When a module is read, the nodes of the modules read before are in the same memory. The parser
  only writes to nodes it has made itself: those it holds in a variable, and the collections of
  functions the scopes of its own module lead to. So whatever was there when it started is there
  unchanged when it ends, symbols of other modules are only added, and names go to level 0. A node is young when it is
  none of the nodes that were there at the start.
\<close>

named_theorems leaves_rules \<open>rules for the operations of the parser\<close>

subsection \<open>The invariant\<close>

type_synonym surroundings = "node list \<times> (string \<Rightarrow> global_symbol set)"

definition young :: "surroundings \<Rightarrow> ptr \<Rightarrow> bool" where
  "young B p \<longleftrightarrow> (case p of At i \<Rightarrow> length (fst B) \<le> i | _ \<Rightarrow> True)"

definition around :: "surroundings \<Rightarrow> 'a front_scheme \<Rightarrow> bool" where
  "around B s \<longleftrightarrow> prefix (fst B) (nodes s) \<and> (\<forall>name. snd B name \<subseteq> set (find_global_symbol s name)) \<and>
     scope_inv (scopes s) \<and> m_level (scopes s) = 0 \<and> (\<forall>d \<in> set (m_table (scopes s)). \<forall>e \<in> set (sd_scope d). young B (snd e))"

definition leaves :: "surroundings \<Rightarrow> 'a parse \<Rightarrow> ('a \<Rightarrow> bool) \<Rightarrow> bool" where
  "leaves B m Q \<longleftrightarrow> (\<forall>s x s'. around B s \<longrightarrow> m s = Inr (x, s') \<longrightarrow> around B s' \<and> Q x)"

lemma leavesI: "(\<And>s x s'. around B s \<Longrightarrow> m s = Inr (x, s') \<Longrightarrow> around B s' \<and> Q x) \<Longrightarrow> leaves B m Q"
  by (simp add: leaves_def)

lemma leavesD: "leaves B m Q \<Longrightarrow> around B s \<Longrightarrow> m s = Inr (x, s') \<Longrightarrow> around B s' \<and> Q x"
  by (simp add: leaves_def)

lemma young_simps [simp]: "young B Null" "young B (Static t)"
  by (simp_all add: young_def)

lemma young_new: "around B s \<Longrightarrow> young B (fst (alloc n s))"
  by (auto simp: around_def alloc_def young_def prefix_length_le)

lemma around_alloc: "around B s \<Longrightarrow> around B (snd (alloc n s))"
  by (auto simp: around_def alloc_def find_global_symbol_def intro: prefix_prefix)

lemma around_poke:
  assumes "around B s" and "young B p"
  shows "around B (poke_node p f s)"
proof -
  obtain zs where zs: "nodes s = fst B @ zs" using assms(1) by (auto simp: around_def elim: prefixE)
  have "prefix (fst B) (nodes (poke_node p f s))"
    using assms(2) zs by (cases p) (auto simp: poke_node_def young_def list_update_append)
  moreover have "scopes (poke_node p f s) = scopes s" "g_global_symbols (poke_node p f s) = g_global_symbols s"
    by (simp_all add: poke_node_def split: ptr.splits)
  ultimately show ?thesis using assms(1) by (simp add: around_def find_global_symbol_def)
qed

lemma around_declare: "around B s \<Longrightarrow> around B (declare_global_symbol name g s)"
  by (fastforce simp: around_def declare_global_symbol_def find_global_symbol_def hm_find_modify)

lemma around_level: "around B s \<Longrightarrow> unat (m_level (scopes s)) < length (m_table (scopes s))"
  unfolding around_def scope_inv_def by blast

lemma around_add_to_scope:
  assumes "around B s" and "young B p"
  shows "around B (add_to_scope symb p is_public None s)"
proof -
  let ?t = "upd_level (unat (m_level (scopes s))) (\<lambda>d. d\<lparr>sd_scope := snd (hm_emplace (sy_name symb) p (sd_scope d))\<rparr>) (scopes s)"
  have i: "unat (m_level (scopes s)) < length (m_table (scopes s))" by (rule around_level [OF assms(1)])
  then have inv: "scope_inv ?t" using assms(1) by (simp add: around_def scope_inv_def)
  have "young B (snd e)" if "d \<in> set (m_table ?t)" "e \<in> set (sd_scope d)" for d e
  proof -
    have "d \<in> set (m_table (scopes s)) \<or> d = (m_table (scopes s) ! unat (m_level (scopes s)))
        \<lparr>sd_scope := snd (hm_emplace (sy_name symb) p (sd_scope (m_table (scopes s) ! unat (m_level (scopes s)))))\<rparr>"
      using that(1) by (auto simp: upd_level_def dest!: subsetD [OF set_update_subset_insert])
    then have "e = (sy_name symb, p) \<or> (\<exists>d0 \<in> set (m_table (scopes s)). e \<in> set (sd_scope d0))"
      using that(2) nth_mem [OF i] by (fastforce simp: hm_emplace_def split: option.splits)
    then show ?thesis using assms by (auto simp: around_def)
  qed
  then have "around B (s\<lparr>scopes := ?t\<rparr>)"
    using assms(1) inv by (auto simp: around_def find_global_symbol_def)
  then show ?thesis
    using assms(1) by (auto simp: add_to_scope_def Let_def get_scope_def intro!: around_declare)
qed

lemma around_get_or_add:
  assumes "around B s" and "get_or_add_symbol n symb is_public None s = (p, s')"
  shows "around B s' \<and> young B p"
proof (cases "hm_find (sd_scope (m_table (scopes s) ! unat (m_level (scopes s)))) (sy_name symb)")
  case None
  then show ?thesis
    using assms young_new [OF assms(1), of n] around_alloc [OF assms(1), of n]
    by (auto simp: get_or_add_symbol_def get_scope_def Let_def case_prod_beta intro!: around_add_to_scope)
next
  case (Some q)
  let ?d = "m_table (scopes s) ! unat (m_level (scopes s))"
  have "?d \<in> set (m_table (scopes s))" by (rule nth_mem [OF around_level [OF assms(1)]])
  moreover have "(sy_name symb, q) \<in> set (sd_scope ?d)" using Some by (auto simp: hm_find_def dest: map_of_SomeD)
  ultimately have "young B q" using assms(1) by (fastforce simp: around_def)
  then show ?thesis using assms Some by (auto simp: get_or_add_symbol_def get_scope_def Let_def)
qed

subsection \<open>Rules\<close>

lemma leaves_bnd: "leaves B m P \<Longrightarrow> (\<And>x. P x \<Longrightarrow> leaves B (f x) Q) \<Longrightarrow> leaves B (bnd m f) Q"
  by (rule leavesI, erule bndE) (blast dest: leavesD)

lemma leaves_any: "leaves B m (\<lambda>_. True) \<Longrightarrow> (\<And>x. leaves B (f x) Q) \<Longrightarrow> leaves B (bnd m f) Q"
  by (rule leaves_bnd)

lemma leaves_weaken: "leaves B m P \<Longrightarrow> (\<And>x. P x \<Longrightarrow> Q x) \<Longrightarrow> leaves B m Q"
  unfolding leaves_def by blast

lemma leaves_if [leaves_rules]:
  "leaves B m Q \<Longrightarrow> leaves B m' Q \<Longrightarrow> leaves B (if c then m else m') Q"
  by simp

lemma leaves_if_bnd [leaves_rules]:
  "leaves B (if c then m else m') (\<lambda>_. True) \<Longrightarrow> (\<And>x. leaves B (f x) Q) \<Longrightarrow> leaves B (bnd (if c then m else m') f) Q"
  by (rule leaves_any)

lemma leaves_assoc [leaves_rules]: "leaves B (bnd m (\<lambda>x. bnd (f x) g)) Q \<Longrightarrow> leaves B (bnd (bnd m f) g) Q"
  by (simp add: bnd_assoc)

lemma leaves_option [leaves_rules]:
  "leaves B m Q \<Longrightarrow> (\<And>y. leaves B (f y) Q) \<Longrightarrow> leaves B (case x of None \<Rightarrow> m | Some y \<Rightarrow> f y) Q"
  by (cases x) auto

lemma leaves_option_bnd [leaves_rules]:
  "leaves B (bnd m g) Q \<Longrightarrow> (\<And>y. leaves B (bnd (f y) g) Q) \<Longrightarrow>
     leaves B (bnd (case x of None \<Rightarrow> m | Some y \<Rightarrow> f y) g) Q"
  by (cases x) auto

lemma leaves_list [leaves_rules]:
  "leaves B m Q \<Longrightarrow> (\<And>y ys. leaves B (f y ys) Q) \<Longrightarrow> leaves B (case x of [] \<Rightarrow> m | y # ys \<Rightarrow> f y ys) Q"
  by (cases x) auto

lemma leaves_fails [leaves_rules]:
  "leaves B (fail e) Q" "leaves B (throw_frontend t msg) Q" "leaves B (throw_formatted t msg args) Q"
  "leaves B (bnd (fail e) f) Q"
  by (auto simp: leaves_def throw_frontend_def throw_formatted_def bnd_def split: sum.splits option.splits)

lemma leaves_Inr [leaves_rules]: "Q x \<Longrightarrow> leaves B (\<lambda>s. Inr (x, s)) Q"
  by (simp add: leaves_def)

lemma leaves_ret [leaves_rules]: "Q x \<Longrightarrow> leaves B (ret x) Q"
  by (simp add: leaves_def)

lemma leaves_ret_bnd [leaves_rules]: "leaves B (f x) Q \<Longrightarrow> leaves B (bnd (ret x) f) Q"
  by simp

lemma leaves_lx: "leaves B (lx m) (\<lambda>_. True)"
  by (auto simp: leaves_def lx_def around_def find_global_symbol_def split: sum.splits)

lemma leaves_gets: "leaves B (gets f) (\<lambda>_. True)"
  by (simp add: leaves_def)

lemma leaves_modify:
  assumes "\<And>s. nodes (f s) = nodes s \<and> g_global_symbols (f s) = g_global_symbols s \<and> scopes (f s) = scopes s"
  shows "leaves B (modify f) (\<lambda>_. True)"
proof (rule leavesI)
  fix s x s' assume "around B s" and "modify f s = Inr (x, s')"
  then show "around B s' \<and> True" using assms [of s] by (auto simp: around_def find_global_symbol_def)
qed

lemma leaves_tokens:
  "leaves B (match t) (\<lambda>_. True)" "leaves B (expect t) (\<lambda>_. True)" "leaves B (peek_is t) (\<lambda>_. True)"
  "leaves B peek (\<lambda>_. True)" "leaves B peek_last (\<lambda>_. True)" "leaves B (peek_last_is t) (\<lambda>_. True)"
  "leaves B advance (\<lambda>_. True)"
  unfolding match_def expect_def peek_is_def peek_def peek_last_def peek_last_is_def advance_def
  by (rule leaves_lx)+

lemma leaves_match_any: "leaves B (match_any_of ts) (\<lambda>_. True)"
  by (induction ts) (auto intro!: leaves_rules leaves_any [OF leaves_tokens(1)])

lemma leaves_not_peek: "leaves B (not_peek t) (\<lambda>_. True)"
  unfolding not_peek_def by (auto intro!: leaves_rules leaves_any [OF leaves_tokens(3)])

lemma leaves_new_node: "leaves B (new_node n) (young B)"
  unfolding new_node_def
  by (rule leaves_any [OF leaves_tokens(5)])
    (auto intro!: leavesI simp: prod_eq_iff around_alloc young_new)

lemma leaves_change_node: "young B p \<Longrightarrow> leaves B (change_node p f) (\<lambda>_. True)"
  unfolding change_node_def by (simp add: leaves_def around_poke)

lemma leaves_add_name: "young B p \<Longrightarrow> leaves B (add_name symb p b) (\<lambda>_. True)"
  unfolding add_name_def by (simp add: leaves_def around_add_to_scope)

lemma leaves_add_overload: "leaves B (add_overload symb b fn) (\<lambda>_. True)"
proof (rule leavesI)
  fix s x s' assume s: "around B s" and run: "add_overload symb b fn s = Inr (x, s')"
  obtain c s1 where 1: "get_or_add_symbol (NFnCollection empty_token []) symb b None s = (c, s1)" by (rule prod.exhaust)
  then have "s' = poke_node c (add_function fn) s1"
    using run by (auto simp: add_overload_def split: option.splits)
  then show "around B s' \<and> True" using around_get_or_add [OF s 1] by (auto intro: around_poke)
qed

lemma leaves_finish:
  "young B p \<Longrightarrow> leaves B (finish_expr p e) (young B)" "young B p \<Longrightarrow> leaves B (finish_stmt p st) (young B)"
  "young B p \<Longrightarrow> leaves B (finish_type p t) (young B)"
  unfolding finish_expr_def finish_stmt_def finish_type_def
  by (auto intro!: leaves_rules leaves_any [OF leaves_change_node])

lemma leaves_get_symbol: "leaves B get_symbol (\<lambda>_. True)"
  unfolding get_symbol_def
  by (rule leaves_any [OF leaves_tokens(2)])
    (auto simp: leaves_def Let_def around_def find_global_symbol_def split: prod.splits)

lemma leaves_while:
  assumes "leaves B cond (\<lambda>_. True)" and "\<And>x. J x \<Longrightarrow> leaves B (body x) (\<lambda>p. J (fst p))" and "J x"
  shows "leaves B (while_loop n cond body x) J"
  using assms(3)
proof (induction n arbitrary: x)
  case (Suc n)
  have "leaves B (case p of (x', continue) \<Rightarrow> if continue then while_loop n cond body x' else ret x') J"
    if "J (fst p)" for p
    using that Suc.IH by (cases p) (auto intro!: leaves_rules)
  then have "leaves B (bnd (body x) (\<lambda>(x', continue). if continue then while_loop n cond body x' else ret x')) J"
    by (rule leaves_bnd [OF assms(2) [OF Suc.prems]])
  then show ?case
    using Suc.prems unfolding while_loop.simps by (intro leaves_any [OF assms(1)] leaves_if leaves_ret)
qed (auto intro!: leaves_rules)

lemma leaves_loop:
  assumes "leaves B cond (\<lambda>_. True)" and "\<And>x. leaves B (body x) (\<lambda>_. True)"
  shows "leaves B (while_loop n cond body x) (\<lambda>_. True)"
  by (rule leaves_while [OF assms(1)]) (use assms(2) in auto)

text \<open>Two forms of every rule: in front of the rest, and at the end.\<close>

lemma leaves_young_end: "leaves B m (young B) \<Longrightarrow> (\<And>x. young B x \<Longrightarrow> Q x) \<Longrightarrow> leaves B m Q"
  by (rule leaves_weaken)

lemma leaves_end: "leaves B m (\<lambda>_. True) \<Longrightarrow> (\<And>x. Q x) \<Longrightarrow> leaves B m Q"
  by (rule leaves_weaken)

lemmas leaves_firsts [leaves_rules] =
  leaves_tokens [THEN leaves_any] leaves_match_any [THEN leaves_any] leaves_not_peek [THEN leaves_any]
  leaves_lx [THEN leaves_any] leaves_gets [THEN leaves_any] leaves_modify [THEN leaves_any]
  leaves_change_node [THEN leaves_any] leaves_add_name [THEN leaves_any] leaves_add_overload [THEN leaves_any]
  leaves_get_symbol [THEN leaves_any] leaves_loop [THEN leaves_any]
  leaves_new_node [THEN leaves_bnd] leaves_finish [THEN leaves_bnd]

lemmas leaves_ends [leaves_rules] =
  leaves_tokens [THEN leaves_end] leaves_match_any [THEN leaves_end] leaves_not_peek [THEN leaves_end]
  leaves_gets [THEN leaves_end] leaves_modify [THEN leaves_end]
  leaves_change_node [THEN leaves_end] leaves_loop [THEN leaves_end]
  leaves_new_node [THEN leaves_young_end] leaves_finish [THEN leaves_young_end]

subsection \<open>Every method\<close>

definition recs_leave :: "surroundings \<Rightarrow> recs \<Rightarrow> bool" where
  "recs_leave B r \<longleftrightarrow>
     leaves B (r_expression r) (\<lambda>_. True) \<and> leaves B (r_unary r) (\<lambda>_. True) \<and> leaves B (r_primary r) (\<lambda>_. True) \<and>
     leaves B (r_declaration r) (\<lambda>_. True) \<and> leaves B (r_if r) (\<lambda>_. True) \<and>
     (\<forall>m p b. leaves B (r_type r m p b) (\<lambda>_. True))"

lemma recs_leaveD:
  assumes "recs_leave B r"
  shows "leaves B (r_expression r) (\<lambda>_. True)" "leaves B (r_unary r) (\<lambda>_. True)" "leaves B (r_primary r) (\<lambda>_. True)"
    "leaves B (r_declaration r) (\<lambda>_. True)" "leaves B (r_if r) (\<lambda>_. True)" "leaves B (r_type r m p b) (\<lambda>_. True)"
  using assms by (simp_all add: recs_leave_def)

lemmas leaves_recs [leaves_rules] = recs_leaveD [THEN leaves_any] recs_leaveD [THEN leaves_end]

lemma attribute_token_leaves: "leaves B attribute_token (\<lambda>_. True)"
  unfolding attribute_token_def by (auto simp: case_prod_beta Let_def intro!: leaves_rules split: sum.splits)

lemmas [leaves_rules] = attribute_token_leaves [THEN leaves_any] attribute_token_leaves [THEN leaves_end]

lemma symbol_has_leaves: "leaves B (symbol_has symb t) (\<lambda>_. True)"
  unfolding symbol_has_def by (auto simp: case_prod_beta Let_def intro!: leaves_rules split: sum.splits)

lemmas [leaves_rules] = symbol_has_leaves [THEN leaves_any] symbol_has_leaves [THEN leaves_end]

lemma get_current_fn_leaves: "leaves B get_current_fn (\<lambda>_. True)"
  unfolding get_current_fn_def by (auto simp: case_prod_beta Let_def intro!: leaves_rules split: sum.splits)

lemmas [leaves_rules] = get_current_fn_leaves [THEN leaves_any] get_current_fn_leaves [THEN leaves_end]

lemma can_initialize_leaves: "leaves B can_initialize (\<lambda>_. True)"
  unfolding can_initialize_def by (auto simp: case_prod_beta Let_def intro!: leaves_rules split: sum.splits)

lemmas [leaves_rules] = can_initialize_leaves [THEN leaves_any] can_initialize_leaves [THEN leaves_end]

lemma mark_mut_leaves: "leaves B (mark_mut n m) (\<lambda>_. True)"
  unfolding mark_mut_def by (auto simp: case_prod_beta Let_def intro!: leaves_rules split: sum.splits)

lemmas [leaves_rules] = mark_mut_leaves [THEN leaves_any] mark_mut_leaves [THEN leaves_end]

lemma set_token_leaves: "young B p \<Longrightarrow> leaves B (set_token p tok) (\<lambda>_. True)"
  unfolding set_token_def by (auto simp: case_prod_beta Let_def intro!: leaves_rules split: sum.splits)

lemmas [leaves_rules] = set_token_leaves [THEN leaves_any] set_token_leaves [THEN leaves_end]

lemma change_fn_leaves: "young B p \<Longrightarrow> leaves B (change_fn p f) (\<lambda>_. True)"
  unfolding change_fn_def by (auto simp: case_prod_beta Let_def intro!: leaves_rules split: sum.splits)

lemmas [leaves_rules] = change_fn_leaves [THEN leaves_any] change_fn_leaves [THEN leaves_end]

lemma finish_literal_leaves: "young B p \<Longrightarrow> leaves B (finish_literal p v t) (\<lambda>_. True)"
  unfolding finish_literal_def by (auto simp: case_prod_beta Let_def intro!: leaves_rules split: sum.splits)

lemmas [leaves_rules] = finish_literal_leaves [THEN leaves_any] finish_literal_leaves [THEN leaves_end]

lemma parse_literal_leaves: "leaves B parse_literal (\<lambda>_. True)"
  unfolding parse_literal_def by (auto simp: case_prod_beta Let_def intro!: leaves_rules split: sum.splits)

lemmas [leaves_rules] = parse_literal_leaves [THEN leaves_any] parse_literal_leaves [THEN leaves_end]

lemma parse_attributes_leaves: "leaves B (parse_attributes r) (\<lambda>_. True)"
  unfolding parse_attributes_def by (auto simp: case_prod_beta Let_def intro!: leaves_rules split: sum.splits)

lemmas [leaves_rules] = parse_attributes_leaves [THEN leaves_any] parse_attributes_leaves [THEN leaves_end]

lemma collect_attributes_leaves: "leaves B (collect_attributes r) (\<lambda>_. True)"
  unfolding collect_attributes_def by (auto simp: case_prod_beta Let_def intro!: leaves_rules split: sum.splits)

lemmas [leaves_rules] = collect_attributes_leaves [THEN leaves_any] collect_attributes_leaves [THEN leaves_end]

lemma parse_type_meta_leaves: "recs_leave B r \<Longrightarrow> leaves B (parse_type_meta r) (\<lambda>_. True)"
  unfolding parse_type_meta_def by (auto simp: case_prod_beta Let_def intro!: leaves_rules split: sum.splits)

lemmas [leaves_rules] = parse_type_meta_leaves [THEN leaves_any] parse_type_meta_leaves [THEN leaves_end]

lemma parse_fn_param_leaves: "recs_leave B r \<Longrightarrow> leaves B (parse_fn_param r b) (\<lambda>_. True)"
  unfolding parse_fn_param_def by (auto simp: case_prod_beta Let_def intro!: leaves_rules split: sum.splits)

lemmas [leaves_rules] = parse_fn_param_leaves [THEN leaves_any] parse_fn_param_leaves [THEN leaves_end]

lemma parse_params_leaves: "recs_leave B r \<Longrightarrow> leaves B (parse_params r b sig) (\<lambda>_. True)"
  unfolding parse_params_def by (auto simp: case_prod_beta Let_def intro!: leaves_rules split: sum.splits)

lemmas [leaves_rules] = parse_params_leaves [THEN leaves_any] parse_params_leaves [THEN leaves_end]

lemma parse_fn_signature_leaves: "recs_leave B r \<Longrightarrow> leaves B (parse_fn_signature r b ps) (\<lambda>_. True)"
  unfolding parse_fn_signature_def by (auto simp: case_prod_beta Let_def intro!: leaves_rules split: sum.splits)

lemmas [leaves_rules] = parse_fn_signature_leaves [THEN leaves_any] parse_fn_signature_leaves [THEN leaves_end]

lemma parse_fields_leaves:
  assumes "\<And>x. leaves B (field x) (\<lambda>_. True)"
  shows "leaves B (parse_fields r field x) (\<lambda>_. True)"
  unfolding parse_fields_def by (auto intro!: leaves_rules leaves_any [OF assms])

lemmas [leaves_rules] = parse_fields_leaves [THEN leaves_any] parse_fields_leaves [THEN leaves_end]

lemma struct_field_leaves: "recs_leave B r \<Longrightarrow> leaves B (struct_field r fs) (\<lambda>_. True)"
  unfolding struct_field_def by (auto simp: case_prod_beta Let_def intro!: leaves_rules split: sum.splits)

lemmas [leaves_rules] = struct_field_leaves [THEN leaves_any] struct_field_leaves [THEN leaves_end]

lemma parse_struct_body_leaves: "recs_leave B r \<Longrightarrow> young B p \<Longrightarrow> leaves B (parse_struct_body r p symb) (\<lambda>_. True)"
  unfolding parse_struct_body_def by (auto simp: case_prod_beta Let_def intro!: leaves_rules split: sum.splits)

lemmas [leaves_rules] = parse_struct_body_leaves [THEN leaves_any] parse_struct_body_leaves [THEN leaves_end]

lemma parse_struct_leaves: "recs_leave B r \<Longrightarrow> leaves B (parse_struct r b) (\<lambda>_. True)"
  unfolding parse_struct_def by (auto simp: case_prod_beta Let_def intro!: leaves_rules split: sum.splits)

lemmas [leaves_rules] = parse_struct_leaves [THEN leaves_any] parse_struct_leaves [THEN leaves_end]

lemma array_members_leaves: "recs_leave B r \<Longrightarrow> leaves B (array_members r) (\<lambda>_. True)"
  unfolding array_members_def by (auto simp: case_prod_beta Let_def intro!: leaves_rules split: sum.splits)

lemmas [leaves_rules] = array_members_leaves [THEN leaves_any] array_members_leaves [THEN leaves_end]

lemma parse_array_type_leaves: "recs_leave B r \<Longrightarrow> leaves B (parse_array_type r m p) (\<lambda>_. True)"
  unfolding parse_array_type_def by (auto simp: case_prod_beta Let_def intro!: leaves_rules split: sum.splits)

lemmas [leaves_rules] = parse_array_type_leaves [THEN leaves_any] parse_array_type_leaves [THEN leaves_end]

lemma parse_type_leaves: "recs_leave B r \<Longrightarrow> leaves B (parse_type r m p b) (\<lambda>_. True)"
  unfolding parse_type_def by (auto simp: case_prod_beta Let_def intro!: leaves_rules split: sum.splits)

lemmas [leaves_rules] = parse_type_leaves [THEN leaves_any] parse_type_leaves [THEN leaves_end]

lemma collect_expressions_leaves: "recs_leave B r \<Longrightarrow> leaves B (collect_expressions r t) (\<lambda>_. True)"
  unfolding collect_expressions_def by (auto simp: case_prod_beta Let_def intro!: leaves_rules split: sum.splits)

lemmas [leaves_rules] = collect_expressions_leaves [THEN leaves_any] collect_expressions_leaves [THEN leaves_end]

lemma wrap_expression_leaves: "recs_leave B r \<Longrightarrow> leaves B (wrap_expression r con) (young B)"
  unfolding wrap_expression_def by (auto simp: case_prod_beta Let_def intro!: leaves_rules split: sum.splits)

lemmas [leaves_rules] = wrap_expression_leaves [THEN leaves_bnd] wrap_expression_leaves [THEN leaves_weaken]

lemma collect_call_arguments_leaves: "recs_leave B r \<Longrightarrow> leaves B (collect_call_arguments r) (\<lambda>_. True)"
  unfolding collect_call_arguments_def by (auto simp: case_prod_beta Let_def intro!: leaves_rules split: sum.splits)

lemmas [leaves_rules] = collect_call_arguments_leaves [THEN leaves_any] collect_call_arguments_leaves [THEN leaves_end]

lemma parse_brace_list_leaves: "recs_leave B r \<Longrightarrow> leaves B (parse_brace_list r) (\<lambda>_. True)"
  unfolding parse_brace_list_def by (auto simp: case_prod_beta Let_def intro!: leaves_rules split: sum.splits)

lemmas [leaves_rules] = parse_brace_list_leaves [THEN leaves_any] parse_brace_list_leaves [THEN leaves_end]

lemma parse_array_literal_leaves: "recs_leave B r \<Longrightarrow> leaves B (parse_array_literal r es) (young B)"
  unfolding parse_array_literal_def by (auto simp: case_prod_beta Let_def intro!: leaves_rules split: sum.splits)

lemmas [leaves_rules] = parse_array_literal_leaves [THEN leaves_bnd] parse_array_literal_leaves [THEN leaves_weaken]

lemma parse_identifier_leaves: "recs_leave B r \<Longrightarrow> leaves B (parse_identifier r) (young B)"
  unfolding parse_identifier_def by (auto simp: case_prod_beta Let_def intro!: leaves_rules split: sum.splits)

lemmas [leaves_rules] = parse_identifier_leaves [THEN leaves_bnd] parse_identifier_leaves [THEN leaves_weaken]

lemma parse_cast_leaves: "recs_leave B r \<Longrightarrow> leaves B (parse_cast r) (young B)"
  unfolding parse_cast_def by (auto simp: case_prod_beta Let_def intro!: leaves_rules split: sum.splits)

lemmas [leaves_rules] = parse_cast_leaves [THEN leaves_bnd] parse_cast_leaves [THEN leaves_weaken]

lemma parse_primary_inner_leaves: "recs_leave B r \<Longrightarrow> leaves B (parse_primary_inner r) (young B)"
  unfolding parse_primary_inner_def by (auto simp: case_prod_beta Let_def intro!: leaves_rules split: sum.splits)

lemmas [leaves_rules] = parse_primary_inner_leaves [THEN leaves_bnd] parse_primary_inner_leaves [THEN leaves_weaken]

lemma parse_bracket_leaves: "recs_leave B r \<Longrightarrow> leaves B (parse_bracket r inner lhs) (\<lambda>q. young B (fst q))"
  unfolding parse_bracket_def by (auto simp: case_prod_beta Let_def intro!: leaves_rules split: sum.splits)

lemmas [leaves_rules] = parse_bracket_leaves [THEN leaves_bnd] parse_bracket_leaves [THEN leaves_weaken]

lemma parse_suffix_leaves: "recs_leave B r \<Longrightarrow> young B lhs \<Longrightarrow> leaves B (parse_suffix r inner lhs) (\<lambda>_. True)"
  unfolding parse_suffix_def by (auto simp: case_prod_beta Let_def intro!: leaves_rules split: sum.splits)

lemmas [leaves_rules] = parse_suffix_leaves [THEN leaves_any] parse_suffix_leaves [THEN leaves_end]

lemma parse_primary_leaves:
  assumes "recs_leave B r"
  shows "leaves B (parse_primary r) (\<lambda>_. True)"
proof -
  have "leaves B (while_loop n (match TkLeftBracket)
      (\<lambda>(lhs, _). bnd (parse_bracket r inner lhs) (\<lambda>(p, continue). ret ((p, \<not> continue), continue)))
      (Null, False)) (\<lambda>p. young B (fst p))" for n inner
    by (rule leaves_while [OF leaves_tokens(1)]) (use assms in \<open>auto simp: case_prod_beta intro!: leaves_rules\<close>)
  note loop = leaves_bnd [OF this]
  show ?thesis
    unfolding parse_primary_def
    by (intro leaves_bnd [OF parse_primary_inner_leaves [OF assms]] leaves_if loop)
      (use assms in \<open>auto intro!: leaves_rules\<close>)
qed

lemmas [leaves_rules] = parse_primary_leaves [THEN leaves_any] parse_primary_leaves [THEN leaves_end]

lemma parse_unary_leaves: "recs_leave B r \<Longrightarrow> leaves B (parse_unary r) (\<lambda>_. True)"
  unfolding parse_unary_def by (auto simp: case_prod_beta Let_def intro!: leaves_rules split: sum.splits)

lemmas [leaves_rules] = parse_unary_leaves [THEN leaves_any] parse_unary_leaves [THEN leaves_end]

lemma parse_binary_rule_leaves:
  assumes "leaves B rule (\<lambda>_. True)"
  shows "leaves B (parse_binary_rule r ops rule) (\<lambda>_. True)"
  unfolding parse_binary_rule_def by (auto intro!: leaves_rules leaves_any [OF assms])

lemma expression_leaves: "recs_leave B r \<Longrightarrow> leaves B (expression r) (\<lambda>_. True)"
  unfolding expression_def parse_and_def parse_or_def parse_equality_def parse_comparison_def parse_term_def
    parse_factor_def parse_exp_def parse_range_def
  by (intro parse_binary_rule_leaves parse_unary_leaves)

lemmas [leaves_rules] = expression_leaves [THEN leaves_any] expression_leaves [THEN leaves_end]

lemma without_initializers_leaves:
  assumes "leaves B m (\<lambda>_. True)"
  shows "leaves B (without_initializers m) (\<lambda>_. True)"
  unfolding without_initializers_def by (auto intro!: leaves_rules leaves_any [OF assms])

lemmas [leaves_rules] = without_initializers_leaves [THEN leaves_any]

lemma in_function_leaves:
  assumes "leaves B m (\<lambda>_. True)"
  shows "leaves B (in_function fn m) (\<lambda>_. True)"
  unfolding in_function_def by (auto intro!: leaves_rules leaves_any [OF assms])

lemmas [leaves_rules] = in_function_leaves [THEN leaves_any]

lemma declare_to_leaves: "recs_leave B r \<Longrightarrow> leaves B (declare_to r ns) (\<lambda>_. True)"
  unfolding declare_to_def by (auto simp: case_prod_beta Let_def intro!: leaves_rules split: sum.splits)

lemmas [leaves_rules] = declare_to_leaves [THEN leaves_any] declare_to_leaves [THEN leaves_end]

lemma parse_block_leaves: "recs_leave B r \<Longrightarrow> leaves B (parse_block r) (\<lambda>_. True)"
  unfolding parse_block_def by (auto simp: case_prod_beta Let_def intro!: leaves_rules split: sum.splits)

lemmas [leaves_rules] = parse_block_leaves [THEN leaves_any] parse_block_leaves [THEN leaves_end]

lemma import_path_leaves: "recs_leave B r \<Longrightarrow> leaves B (import_path r) (\<lambda>_. True)"
  unfolding import_path_def by (auto simp: case_prod_beta Let_def intro!: leaves_rules split: sum.splits)

lemmas [leaves_rules] = import_path_leaves [THEN leaves_any] import_path_leaves [THEN leaves_end]

lemma selective_imports_leaves: "recs_leave B r \<Longrightarrow> leaves B (selective_imports r) (\<lambda>_. True)"
  unfolding selective_imports_def by (auto simp: case_prod_beta Let_def intro!: leaves_rules split: sum.splits)

lemmas [leaves_rules] = selective_imports_leaves [THEN leaves_any] selective_imports_leaves [THEN leaves_end]

lemma parse_import_leaves: "recs_leave B r \<Longrightarrow> leaves B (parse_import r) (\<lambda>_. True)"
  unfolding parse_import_def by (auto simp: case_prod_beta Let_def intro!: leaves_rules split: sum.splits)

lemmas [leaves_rules] = parse_import_leaves [THEN leaves_any] parse_import_leaves [THEN leaves_end]

lemma parse_if_leaves: "recs_leave B r \<Longrightarrow> leaves B (parse_if r) (\<lambda>_. True)"
  unfolding parse_if_def by (auto simp: case_prod_beta Let_def intro!: leaves_rules split: sum.splits)

lemmas [leaves_rules] = parse_if_leaves [THEN leaves_any] parse_if_leaves [THEN leaves_end]

lemma parse_while_leaves: "recs_leave B r \<Longrightarrow> leaves B (parse_while r c) (\<lambda>_. True)"
  unfolding parse_while_def by (auto simp: case_prod_beta Let_def intro!: leaves_rules split: sum.splits)

lemmas [leaves_rules] = parse_while_leaves [THEN leaves_any] parse_while_leaves [THEN leaves_end]

lemma parse_loop_leaves: "recs_leave B r \<Longrightarrow> leaves B (parse_loop r) (\<lambda>_. True)"
  unfolding parse_loop_def by (auto simp: case_prod_beta Let_def intro!: leaves_rules split: sum.splits)

lemmas [leaves_rules] = parse_loop_leaves [THEN leaves_any] parse_loop_leaves [THEN leaves_end]

lemma for_bindings_leaves: "recs_leave B r \<Longrightarrow> leaves B (for_bindings r) (\<lambda>_. True)"
  unfolding for_bindings_def by (auto simp: case_prod_beta Let_def intro!: leaves_rules split: sum.splits)

lemmas [leaves_rules] = for_bindings_leaves [THEN leaves_any] for_bindings_leaves [THEN leaves_end]

lemma parse_for_leaves: "recs_leave B r \<Longrightarrow> leaves B (parse_for r) (\<lambda>_. True)"
  unfolding parse_for_def by (auto simp: case_prod_beta Let_def intro!: leaves_rules split: sum.splits)

lemmas [leaves_rules] = parse_for_leaves [THEN leaves_any] parse_for_leaves [THEN leaves_end]

lemma parse_var_leaves: "recs_leave B r \<Longrightarrow> leaves B (parse_var r) (\<lambda>_. True)"
  unfolding parse_var_def by (auto simp: case_prod_beta Let_def intro!: leaves_rules split: sum.splits)

lemmas [leaves_rules] = parse_var_leaves [THEN leaves_any] parse_var_leaves [THEN leaves_end]

lemma parse_assignment_leaves: "recs_leave B r \<Longrightarrow> leaves B (parse_assignment r e) (\<lambda>_. True)"
  unfolding parse_assignment_def by (auto simp: case_prod_beta Let_def intro!: leaves_rules split: sum.splits)

lemmas [leaves_rules] = parse_assignment_leaves [THEN leaves_any] parse_assignment_leaves [THEN leaves_end]

lemma parse_return_leaves: "recs_leave B r \<Longrightarrow> leaves B (parse_return r) (\<lambda>_. True)"
  unfolding parse_return_def by (auto simp: case_prod_beta Let_def intro!: leaves_rules split: sum.splits)

lemmas [leaves_rules] = parse_return_leaves [THEN leaves_any] parse_return_leaves [THEN leaves_end]

lemma parse_fn_body_leaves: "recs_leave B r \<Longrightarrow> young B p \<Longrightarrow> leaves B (parse_fn_body r p b) (\<lambda>_. True)"
  unfolding parse_fn_body_def by (auto simp: case_prod_beta Let_def intro!: leaves_rules split: sum.splits)

lemmas [leaves_rules] = parse_fn_body_leaves [THEN leaves_any] parse_fn_body_leaves [THEN leaves_end]

lemma parse_fn_leaves: "recs_leave B r \<Longrightarrow> leaves B (parse_fn r ps) (\<lambda>_. True)"
  unfolding parse_fn_def by (auto simp: case_prod_beta Let_def intro!: leaves_rules split: sum.splits)

lemmas [leaves_rules] = parse_fn_leaves [THEN leaves_any] parse_fn_leaves [THEN leaves_end]

lemma enum_field_leaves: "leaves B (enum_field st) (\<lambda>_. True)"
  unfolding enum_field_def by (auto simp: case_prod_beta Let_def intro!: leaves_rules split: sum.splits)

lemmas [leaves_rules] = enum_field_leaves [THEN leaves_any] enum_field_leaves [THEN leaves_end]

lemma parse_enum_leaves: "recs_leave B r \<Longrightarrow> leaves B (parse_enum r) (\<lambda>_. True)"
  unfolding parse_enum_def by (auto simp: case_prod_beta Let_def intro!: leaves_rules split: sum.splits)

lemmas [leaves_rules] = parse_enum_leaves [THEN leaves_any] parse_enum_leaves [THEN leaves_end]

lemma parse_impl_leaves: "recs_leave B r \<Longrightarrow> leaves B (parse_impl r) (\<lambda>_. True)"
  unfolding parse_impl_def by (auto simp: case_prod_beta Let_def intro!: leaves_rules split: sum.splits)

lemmas [leaves_rules] = parse_impl_leaves [THEN leaves_any] parse_impl_leaves [THEN leaves_end]

lemma parse_alias_leaves: "recs_leave B r \<Longrightarrow> leaves B (parse_alias r) (\<lambda>_. True)"
  unfolding parse_alias_def by (auto simp: case_prod_beta Let_def intro!: leaves_rules split: sum.splits)

lemmas [leaves_rules] = parse_alias_leaves [THEN leaves_any] parse_alias_leaves [THEN leaves_end]

lemma statement_expression_leaves: "recs_leave B r \<Longrightarrow> leaves B (statement_expression r) (\<lambda>_. True)"
  unfolding statement_expression_def by (auto simp: case_prod_beta Let_def intro!: leaves_rules split: sum.splits)

lemmas [leaves_rules] = statement_expression_leaves [THEN leaves_any] statement_expression_leaves [THEN leaves_end]

lemma parse_statement_leaves: "recs_leave B r \<Longrightarrow> leaves B (parse_statement r) (\<lambda>_. True)"
  unfolding parse_statement_def by (auto simp: case_prod_beta Let_def intro!: leaves_rules split: sum.splits)

lemmas [leaves_rules] = parse_statement_leaves [THEN leaves_any] parse_statement_leaves [THEN leaves_end]

lemma parse_declaration_leaves: "recs_leave B r \<Longrightarrow> leaves B (parse_declaration r) (\<lambda>_. True)"
  unfolding parse_declaration_def by (auto simp: case_prod_beta Let_def intro!: leaves_rules split: sum.splits)

lemmas [leaves_rules] = parse_declaration_leaves [THEN leaves_any] parse_declaration_leaves [THEN leaves_end]

subsection \<open>The whole file\<close>

lemma knot_leaves: "recs_leave B (knot n)"
proof (induction n)
  case 0
  show ?case by (auto simp: recs_leave_def out_of_fuel_def intro!: leaves_rules)
next
  case (Suc n)
  then show ?case
    by (auto simp: recs_leave_def tie_def intro!: expression_leaves parse_unary_leaves parse_primary_leaves
        parse_declaration_leaves parse_if_leaves parse_type_leaves)
qed

lemma at_scopes_leaves:
  assumes "\<And>t. m_table (f t) = m_table t" and "\<And>t. m_level (f t) = m_level t"
  shows "leaves B (at_scopes f) (\<lambda>_. True)"
  unfolding at_scopes_def using assms
  by (auto simp: leaves_def around_def find_global_symbol_def scope_inv_def)

lemma more_declarations_leaves: "leaves B more_declarations (\<lambda>_. True)"
  unfolding more_declarations_def by (auto intro!: leaves_rules)

lemma parse_leaves: "leaves B (parse fuel) (\<lambda>_. True)"
  unfolding parse_def
  by (auto intro!: leaves_rules at_scopes_leaves [THEN leaves_any] more_declarations_leaves knot_leaves
      simp: set_lock_def)

end
