(* ===== verification/Modules.thy ===== *)
theory Modules
  imports Parser_Frame Analyzer_Returns
begin

section \<open>Modules (\<open>module_manager.cpp\<close>, \<open>module.cpp\<close>, \<open>main.cpp\<close>)\<close>

text \<open>
  A module is a file: it is looked for in every include path, read once, parsed, analysed and
  emitted. It is entered into the table of modules before it is parsed, so an import of a module
  that is being read finds it, with the names it has so far. While a module is read the
  analyzer of the importing module waits: its scope table, function stack and depth of expressions
  are put aside and taken up again. A module is known by the number of its file.

  The parameters are the file system, the include paths, the emission of a module (which decides
  whether the code of the module is verified, may throw, gives loops an index and adds nodes of its
  own: \<open>Emission_Facts\<close> puts the emission of code there) and the fuel of a visit. A scope level has 16 bits, so more fuel is not used.
\<close>

record emitted =
  em_verified :: bool
  em_bindings :: "(ptr \<times> ptr list) list"
  em_nodes :: "node list"

record loader =
  ld_fs :: file_system
  ld_include_paths :: "string list"
  ld_fuel :: nat
  ld_emit :: "nat \<Rightarrow> ptr list \<Rightarrow> analyzer \<Rightarrow> exn + emitted"
  ld_float_op :: "TokenType \<Rightarrow> literal_value \<Rightarrow> literal_value \<Rightarrow> literal_value"

datatype ModulePlatform = Linux | Windows | Darwin

definition PLATFORM :: ModulePlatform where
  "PLATFORM = Linux"

subsection \<open>Paths\<close>

definition slash :: char where "slash = CHR ''/''"

definition dot_char :: char where "dot_char = CHR ''.''"

text \<open>\<open>path / path\<close>: an absolute path replaces the one in front of it.\<close>

definition path_append :: "string \<Rightarrow> string \<Rightarrow> string" where
  "path_append p q =
     (if q \<noteq> [] \<and> hd q = slash then q
      else if p = [] \<or> last p = slash then p @ q
      else p @ [slash] @ q)"

definition file_name :: "string \<Rightarrow> string" where
  "file_name p = rev (takeWhile (\<lambda>c. c \<noteq> slash) (rev p))"

text \<open>The extension starts at the last dot of the file name, unless this is its first character or
  the name is \<open>..\<close>.\<close>

definition extension :: "string \<Rightarrow> string" where
  "extension p =
     (let name = file_name p; tail = rev (takeWhile (\<lambda>c. c \<noteq> dot_char) (rev name))
      in if dot_char \<notin> set name \<or> length tail + 1 = length name \<or> name = ''..'' then []
         else dot_char # tail)"

definition replace_extension :: "string \<Rightarrow> string \<Rightarrow> string" where
  "replace_extension p ext =
     take (length p - length (extension p)) p @
     (if ext \<noteq> [] \<and> hd ext \<noteq> dot_char then dot_char # ext else ext)"

text \<open>Where a module may be. The test \<open>is_directory(path)\<close> is of the path as it was imported,
  not of the place in the include path; an extension always starts with a dot, so the one of the
  path is always replaced, unless it is a directory.\<close>

definition module_path :: "file_system \<Rightarrow> string \<Rightarrow> string \<Rightarrow> string" where
  "module_path fs include path =
     (let p0 = path_append include path;
          p1 = (if fs_is_directory fs path then path_append p0 ''package.pars'' else p0);
          p2 = (if fs_exists fs (p1 @ ''.linux.pars'') \<and> PLATFORM = Linux then replace_extension p1 ''.linux.pars''
                else if fs_exists fs (p1 @ ''.windows.pars'') \<and> PLATFORM = Windows
                then replace_extension p1 ''.windows.pars'' else p1)
      in if \<not> fs_is_directory fs p2 \<and> extension p2 \<noteq> ''pars'' then replace_extension p2 ''pars'' else p2)"

subsection \<open>Finding a module\<close>

datatype found_module = Loaded nat | Found string source_file | Missing

definition load_source :: "file_system \<Rightarrow> string \<Rightarrow> source_file option an" where
  "load_source fs path = (\<lambda>s.
     case load_file fs path (an_files s) of
       Inl e \<Rightarrow> Inl e
     | Inr (source, files) \<Rightarrow> Inr (source, s\<lparr>an_files := files\<rparr>))"

primrec search_module :: "file_system \<Rightarrow> string \<Rightarrow> string list \<Rightarrow> found_module an" where
  "search_module fs path [] = ret Missing"
| "search_module fs path (include # includes) =
     bnd (gets (\<lambda>s. hm_find (an_module_table s) (module_path fs include path))) (\<lambda>known.
     case known of
       Some m \<Rightarrow> ret (Loaded m)
     | None \<Rightarrow>
         bnd (load_source fs (module_path fs include path)) (\<lambda>source.
         case source of
           Some f \<Rightarrow> ret (Found (module_path fs include path) f)
         | None \<Rightarrow> search_module fs path includes))"

subsection \<open>Reading a module\<close>

definition parser_of :: "source_file \<Rightarrow> analyzer \<Rightarrow> parser" where
  "parser_of source s =
     \<lparr>nodes = nodes s, g_attributes = g_attributes s, g_global_symbols = g_global_symbols s, scopes = scopes s,
      m_lexer = new_lexer (sf_id source) (sf_contents source) (\<lambda>_. NUL) (an_escape_buffer s), m_nodes = [],
      m_function_stack = [], m_pending_attributes = [], m_module_attributes = [], m_can_initialize_stack = []\<rparr>"

text \<open>What lies behind the file in the buffer of the files is still zero.\<close>

definition parse_source :: "source_file \<Rightarrow> ptr list an" where
  "parse_source source = (\<lambda>s.
     case parse (length (sf_contents source) + 2) (parser_of source s) of
       Inl e \<Rightarrow> Inl e
     | Inr (ns, ps) \<Rightarrow>
         Inr (ns, s\<lparr>nodes := nodes ps, g_attributes := g_attributes ps, g_global_symbols := g_global_symbols ps,
                    scopes := scopes ps, an_escape_buffer := g_escape_buffer (m_lexer ps)\<rparr>))"

definition enter_module :: "string \<Rightarrow> source_file \<Rightarrow> analyzer \<Rightarrow> analyzer" where
  "enter_module path source s =
     s\<lparr>an_module_table := snd (hm_emplace path (unat (sf_id source)) (an_module_table s)),
       an_modules := (unat (m_scope_file_id (scopes s)), scopes s) # an_modules s,
       scopes := set_file_id (sf_id source) new_scope_table, an_function_stack := [], an_expr_depth := 0\<rparr>"

text \<open>The importing module has an analyzer and a scope table of its own in the code; here they are put aside in
  \<open>outer\<close> and taken up again. The path of the file that was read is a view of \<open>potential_path\<close>, a local
  variable of \<open>get_module\<close>, which dies now; the file is the last one \<open>outer\<close> knows.\<close>

definition leave_module :: "analyzer \<Rightarrow> source_file \<Rightarrow> analyzer \<Rightarrow> analyzer" where
  "leave_module outer source s =
     s\<lparr>an_modules := (unat (sf_id source), scopes s) # an_modules s, scopes := scopes outer,
       an_function_stack := an_function_stack outer, an_expr_depth := an_expr_depth outer, an_cell := an_cell outer,
       an_files := path_dies (length (g_file_index (an_files outer)) - 1) (an_files s)\<rparr>"

definition add_bindings :: "ptr list \<Rightarrow> node \<Rightarrow> node" where
  "add_bindings bs n =
     (case n of
        NStmt st \<Rightarrow>
          (case st_body st of
             ForStmt vs i b \<Rightarrow> NStmt (st\<lparr>st_body := ForStmt (vs @ bs) i b\<rparr>) | _ \<Rightarrow> n)
      | _ \<Rightarrow> n)"

definition emit_module :: "loader \<Rightarrow> source_file \<Rightarrow> ptr list \<Rightarrow> bool an" where
  "emit_module ld source ns = (\<lambda>s.
     case ld_emit ld (unat (sf_id source)) ns s of
       Inl e \<Rightarrow> Inl e
     | Inr em \<Rightarrow>
         (let s1 = fold (\<lambda>(p, bs). poke_node p (add_bindings bs)) (em_bindings em) s
          in Inr (em_verified em, s1\<lparr>nodes := nodes s1 @ em_nodes em\<rparr>)))"

definition visit_fuel :: "loader \<Rightarrow> nat" where
  "visit_fuel ld = min (ld_fuel ld) 65535"

definition environment :: "loader \<Rightarrow> (string \<Rightarrow> nat option an) \<Rightarrow> visitor" where
  "environment ld get =
     \<lparr>v_fuel = ld_fuel ld, v_accept = (\<lambda>p ctx. fail OutOfFuel), v_get_module = (\<lambda>path. get (path_text path)),
      v_float_op = ld_float_op ld\<rparr>"

definition read_module :: "loader \<Rightarrow> (string \<Rightarrow> nat option an) \<Rightarrow> string \<Rightarrow> source_file \<Rightarrow> nat option an" where
  "read_module ld get path source =
     bnd (gets (\<lambda>s. s)) (\<lambda>outer.
     bnd (modify (enter_module path source)) (\<lambda>_.
     bnd (parse_source source) (\<lambda>ns.
     bnd (analyze (environment ld get) (visit_fuel ld) ns) (\<lambda>_.
     bnd (emit_module ld source ns) (\<lambda>verified.
     bnd (modify (leave_module outer source)) (\<lambda>_.
     ret (if verified then Some (unat (sf_id source)) else None)))))))"

text \<open>\<open>get_module n\<close> may nest \<open>n\<close> imports.\<close>

primrec get_module :: "loader \<Rightarrow> nat \<Rightarrow> string \<Rightarrow> nat option an" where
  "get_module ld 0 path = fail OutOfFuel"
| "get_module ld (Suc n) path =
     bnd (search_module (ld_fs ld) path (ld_include_paths ld)) (\<lambda>found.
     case found of
       Missing \<Rightarrow> ret None
     | Loaded m \<Rightarrow> ret (Some m)
     | Found p source \<Rightarrow> read_module ld (get_module ld n) p source)"

subsection \<open>The start of the compiler\<close>

definition global_types :: "static_type list" where
  "global_types = [VOID_TYPE, I8_TYPE, U8_TYPE, I16_TYPE, U16_TYPE, I32_TYPE, U32_TYPE, I64_TYPE, U64_TYPE,
     BOOL_TYPE, STR_TYPE, CHAR_TYPE, UCHAR_TYPE, F32_TYPE, F64_TYPE]"

definition declare_global_type :: "static_type \<Rightarrow> 'a front_scheme \<Rightarrow> 'a front_scheme" where
  "declare_global_type t =
     declare_global_symbol (static_name t) \<lparr>gs_node = Static t, gs_availability = Always, gs_file_id = 0\<rparr>"

definition init_global_symbols :: "'a front_scheme \<Rightarrow> 'a front_scheme" where
  "init_global_symbols = fold declare_global_type global_types"

definition no_modules :: analyzer where
  "no_modules = \<lparr>nodes = [], g_attributes = [], g_global_symbols = [], scopes = new_scope_table,
     an_function_stack = [], an_expr_depth = 0, an_named_replace_list = [], an_modules = [], an_module_table = [],
     an_files = no_files, an_escape_buffer = arena_init ESCAPE_BUFFER_SIZE, an_cell = Null\<rparr>"

definition main_module :: "loader \<Rightarrow> nat \<Rightarrow> string \<Rightarrow> nat option an" where
  "main_module ld n path = bnd (modify init_global_symbols) (\<lambda>_. get_module ld n path)"

subsection \<open>Reading a module leaves the importing one as it was\<close>

definition grows :: "analyzer \<Rightarrow> analyzer \<Rightarrow> bool" where
  "grows s s' \<longleftrightarrow> prefix (map skel (nodes s)) (map skel (nodes s')) \<and>
     (\<forall>nm. set (find_global_symbol s nm) \<subseteq> set (find_global_symbol s' nm)) \<and>
     (\<forall>path i. hm_find (an_module_table s) path = Some i \<longrightarrow> hm_find (an_module_table s') path = Some i) \<and>
     prefix (g_file_index (an_files s)) (g_file_index (an_files s'))"

lemma grows_refl [simp]: "grows s s"
  by (simp add: grows_def)

lemma grows_trans: "grows s s' \<Longrightarrow> grows s' s'' \<Longrightarrow> grows s s''"
  unfolding grows_def by (meson prefix_order.trans subset_trans)

lemma steady_grows: "steady d s s' \<Longrightarrow> grows s s'"
  by (simp add: steady_def grows_def)

lemma grows_steady:
  "grows s s' \<Longrightarrow> scopes s' = scopes s \<Longrightarrow> an_function_stack s' = an_function_stack s \<Longrightarrow>
     an_expr_depth s' = an_expr_depth s \<Longrightarrow> steady d s s'"
  by (simp add: steady_def grows_def)

lemma grows_same:
  assumes "map skel (nodes s') = map skel (nodes s)" and "g_global_symbols s' = g_global_symbols s"
    and "an_module_table s' = an_module_table s" and "an_files s' = an_files s"
  shows "grows s s'"
  using assms by (simp add: grows_def find_global_symbol_def)

lemma load_source_steady: "load_source fs path s = Inr (x, s') \<Longrightarrow> steady d s s'"
  by (auto simp: load_source_def steady_def find_global_symbol_def dest!: load_file_cases split: sum.splits)

text \<open>The state in which the last file has not been loaded yet.\<close>

definition unloaded :: "analyzer \<Rightarrow> analyzer" where
  "unloaded s = s\<lparr>an_files := (an_files s)\<lparr>g_file_index := butlast (g_file_index (an_files s))\<rparr>\<rparr>"

lemma prefix_butlast_update: "prefix xs ys \<Longrightarrow> prefix (butlast xs) (ys[length xs - Suc 0 := y])"
  by (cases xs rule: rev_cases) (auto simp: prefix_def)

lemma grows_leave:
  "grows s s' \<Longrightarrow> grows (unloaded s) (leave_module s source s')"
  unfolding grows_def
  by (auto simp: unloaded_def leave_module_def path_dies_def find_global_symbol_def intro: prefix_butlast_update)

lemma load_source_unloaded: "load_source fs path s = Inr (Some f, s') \<Longrightarrow> steady d s (unloaded s')"
  by (auto simp: load_source_def steady_def unloaded_def find_global_symbol_def dest!: load_file_cases split: sum.splits)

lemma search_module_steady: "search_module fs path dirs s = Inr (x, s') \<Longrightarrow> steady d s s'"
proof (induction dirs arbitrary: s)
  case (Cons dir dirs)
  show ?case
  proof (cases "hm_find (an_module_table s) (module_path fs dir path)")
    case None
    then obtain source s1 where 1: "load_source fs (module_path fs dir path) s = Inr (source, s1)"
      and 2: "(case source of Some f \<Rightarrow> ret (Found (module_path fs dir path) f) | None \<Rightarrow> search_module fs path dirs) s1 = Inr (x, s')"
      using Cons.prems by auto
    have "steady d s1 s'" using 2 Cons.IH by (auto split: option.splits)
    with load_source_steady [OF 1] show ?thesis by (rule steady_trans)
  next
    case (Some m)
    show ?thesis using Cons.prems by (simp add: run_first Some)
  qed
qed simp

lemma search_module_unloaded:
  "search_module fs path dirs s = Inr (Found p f, s') \<Longrightarrow> steady d s (unloaded s')"
proof (induction dirs arbitrary: s)
  case (Cons dir dirs)
  show ?case
  proof (cases "hm_find (an_module_table s) (module_path fs dir path)")
    case None
    then obtain source s1 where 1: "load_source fs (module_path fs dir path) s = Inr (source, s1)"
      and 2: "(case source of Some f \<Rightarrow> ret (Found (module_path fs dir path) f) | None \<Rightarrow> search_module fs path dirs) s1 = Inr (Found p f, s')"
      using Cons.prems by auto
    show ?thesis
    proof (cases source)
      case None
      then show ?thesis using 2 Cons.IH load_source_steady [OF 1] by (auto intro: steady_trans)
    next
      case (Some g)
      then show ?thesis using 1 2 load_source_unloaded by auto
    qed
  next
    case (Some m)
    show ?thesis using Cons.prems by (simp add: run_first Some)
  qed
qed simp

lemma parse_source_grows:
  assumes "parse_source source s = Inr (ns, s')" and inv: "scope_inv (scopes s)"
    and empty: "\<forall>d \<in> set (m_table (scopes s)). sd_scope d = []" and level: "m_level (scopes s) = 0"
  shows "grows s s' \<and> m_level (scopes s') = 0"
proof -
  obtain ps where run: "parse (length (sf_contents source) + 2) (parser_of source s) = Inr (ns, ps)"
    and s': "s' = s\<lparr>nodes := nodes ps, g_attributes := g_attributes ps, g_global_symbols := g_global_symbols ps,
                    scopes := scopes ps, an_escape_buffer := g_escape_buffer (m_lexer ps)\<rparr>"
    using assms(1) by (auto simp: parse_source_def split: sum.splits)
  let ?B = "(nodes s, \<lambda>nm. set (find_global_symbol s nm))"
  have "around ?B (parser_of source s)"
    using inv empty level by (auto simp: around_def parser_of_def find_global_symbol_def)
  from leavesD [OF parse_leaves this run] show ?thesis
    by (auto simp: s' around_def grows_def find_global_symbol_def map_mono_prefix)
qed

lemma skel_add_bindings [simp]: "skel (add_bindings bs n) = skel n"
  by (cases n) (simp_all add: add_bindings_def split: stmt_body.split)

lemma emit_module_grows:
  assumes "emit_module ld source ns s = Inr (x, s')"
  shows "grows s s' \<and> scopes s' = scopes s"
proof -
  have "map skel (nodes (fold (\<lambda>(p, bs). poke_node p (add_bindings bs)) us s)) = map skel (nodes s) \<and>
      scopes (fold (\<lambda>(p, bs). poke_node p (add_bindings bs)) us s) = scopes s \<and>
      g_global_symbols (fold (\<lambda>(p, bs). poke_node p (add_bindings bs)) us s) = g_global_symbols s \<and>
      an_module_table (fold (\<lambda>(p, bs). poke_node p (add_bindings bs)) us s) = an_module_table s \<and>
      an_files (fold (\<lambda>(p, bs). poke_node p (add_bindings bs)) us s) = an_files s" for us
    by (induction us arbitrary: s) (auto simp: map_poke)
  then show ?thesis
    using assms by (auto simp: emit_module_def Let_def grows_def find_global_symbol_def split: sum.splits)
qed

lemma enter_module_grows:
  "grows s (enter_module path source s)"
  by (auto simp: enter_module_def grows_def find_global_symbol_def)

lemma read_module_steady:
  assumes "modules_steady (environment ld get)" and "read_module ld get path source s = Inr (x, s')"
  shows "steady d (unloaded s) s'"
proof -
  let ?s1 = "enter_module path source s"
  obtain ns s2 s3 ok s4 where 2: "parse_source source ?s1 = Inr (ns, s2)"
    and 3: "analyze (environment ld get) (visit_fuel ld) ns s2 = Inr ((), s3)"
    and 4: "emit_module ld source ns s3 = Inr (ok, s4)" and s': "s' = leave_module s source s4"
    using assms(2) by (auto simp: read_module_def elim!: bndE split: sum.splits)
  have fresh: "scope_inv (scopes ?s1)" "\<forall>d \<in> set (m_table (scopes ?s1)). sd_scope d = []" "m_level (scopes ?s1) = 0"
    by (simp_all add: enter_module_def scope_inv_def set_file_id_def new_scope_table_def empty_scope_def)
  from parse_source_grows [OF 2 fresh] have g2: "grows ?s1 s2" "m_level (scopes s2) = 0" by simp_all
  have "unat (m_level (scopes s2)) + visit_fuel ld < 2 ^ 16" using g2(2) by (simp add: visit_fuel_def)
  then have "grows s2 s3" by (rule steady_grows [OF staysD [OF analyze_keeps [OF assms(1)] 3]])
  moreover have "grows s3 s4" using emit_module_grows [OF 4] by simp
  ultimately have "grows s s4" using enter_module_grows g2(1) grows_trans by blast
  then have "grows (unloaded s) s'" unfolding s' by (rule grows_leave)
  then show ?thesis by (rule grows_steady) (simp_all add: s' leave_module_def unloaded_def)
qed

lemma get_module_steady: "get_module ld n path s = Inr (x, s') \<Longrightarrow> steady d s s'"
proof (induction n arbitrary: path s x s' d)
  case (Suc n)
  have env: "modules_steady (environment ld (get_module ld n))"
    using Suc.IH by (simp add: modules_steady_def environment_def)
  obtain found s1 where 1: "search_module (ld_fs ld) path (ld_include_paths ld) s = Inr (found, s1)"
    and 2: "(case found of Missing \<Rightarrow> ret None | Loaded m \<Rightarrow> ret (Some m)
       | Found p source \<Rightarrow> read_module ld (get_module ld n) p source) s1 = Inr (x, s')"
    using Suc.prems by auto
  show ?case
  proof (cases found)
    case (Found p source)
    then have "steady d (unloaded s1) s'" using 2 read_module_steady [OF env] by simp
    with search_module_unloaded [OF 1 [unfolded Found]] show ?thesis by (rule steady_trans)
  qed (use 2 search_module_steady [OF 1] in auto)
qed simp

lemma environment_steady: "modules_steady (environment ld (get_module ld n))"
  by (auto simp: modules_steady_def environment_def intro: get_module_steady)

text \<open>So the visits of every module, with any number of nested imports, meet the contracts the lemmas
  about the analyzer are proved from.\<close>

definition visiting :: "loader \<Rightarrow> nat \<Rightarrow> nat \<Rightarrow> visitor" where
  "visiting ld k n = (environment ld (get_module ld k))\<lparr>v_accept := accept (environment ld (get_module ld k)) n\<rparr>"

lemma visiting_steady: "modules_steady (visiting ld k n)"
  using environment_steady [of ld k] by (simp add: modules_steady_def visiting_def)

interpretation module_frame: steady_visits "visiting ld k n" n for ld k n
proof
  show "accept_steady n (v_accept (visiting ld k n))"
    using accept_keeps [OF environment_steady] by (simp add: visiting_def)
  show "modules_steady (visiting ld k n)" by (rule visiting_steady)
qed

interpretation module_visits: return_visits "visiting ld k n" n for ld k n
proof
  show "accept_marks n (v_accept (visiting ld k n))"
    using accept_keeps_marks [OF environment_steady] by (simp add: visiting_def)
qed

subsection \<open>Properties of imports\<close>

lemma load_source_scopes:
  "load_source fs path s = Inr (x, s') \<Longrightarrow>
     scopes s' = scopes s \<and> an_function_stack s' = an_function_stack s \<and> an_module_table s' = an_module_table s"
  by (auto simp: load_source_def split: sum.splits)

lemma search_cases:
  assumes "search_module fs path dirs s = Inr (x, s')"
  shows "scopes s' = scopes s \<and> an_function_stack s' = an_function_stack s \<and> an_module_table s' = an_module_table s"
  using assms
proof (induction dirs arbitrary: s)
  case (Cons dir dirs)
  show ?case
  proof (cases "hm_find (an_module_table s) (module_path fs dir path)")
    case None
    then obtain source s1 where 1: "load_source fs (module_path fs dir path) s = Inr (source, s1)"
      and 2: "(case source of Some f \<Rightarrow> ret (Found (module_path fs dir path) f) | None \<Rightarrow> search_module fs path dirs) s1 = Inr (x, s')"
      using Cons.prems by auto
    show ?thesis using load_source_scopes [OF 1] 2 Cons.IH by (auto split: option.splits)
  next
    case (Some m)
    show ?thesis using Cons.prems by (simp add: run_first Some)
  qed
qed simp

text \<open>C8: An import leaves the importing module as it was. Whatever is imported, read from whatever
  files, when \<open>get_module\<close> returns, the scope table and the function stack are those before, as is
  the depth of expressions, every node is still there with its class and the children that decide
  the flow of control, no global symbol is lost, and the modules and files known are still known.\<close>

theorem import_leaves_module:
  assumes "get_module ld n path s = Inr (m, s')"
  shows "scopes s' = scopes s \<and> an_function_stack s' = an_function_stack s \<and> an_expr_depth s' = an_expr_depth s \<and>
    (\<forall>p k. peek_node s p = Some k \<longrightarrow> (\<exists>k'. peek_node s' p = Some k' \<and> skel k' = skel k)) \<and>
    (\<forall>nm. set (find_global_symbol s nm) \<subseteq> set (find_global_symbol s' nm)) \<and>
    (\<forall>q i. hm_find (an_module_table s) q = Some i \<longrightarrow> hm_find (an_module_table s') q = Some i) \<and>
    prefix (g_file_index (an_files s)) (g_file_index (an_files s'))"
proof -
  have st: "steady 0 s s'" using assms by (rule get_module_steady)
  obtain k where n: "n = Suc k" using assms by (cases n) auto
  obtain found s1 where 1: "search_module (ld_fs ld) path (ld_include_paths ld) s = Inr (found, s1)"
    and 2: "(case found of Missing \<Rightarrow> ret None | Loaded m \<Rightarrow> ret (Some m)
       | Found p source \<Rightarrow> read_module ld (get_module ld k) p source) s1 = Inr (m, s')"
    using assms unfolding n by auto
  have "scopes s' = scopes s1 \<and> an_function_stack s' = an_function_stack s1"
    using 2 by (auto simp: read_module_def leave_module_def elim!: bndE split: found_module.splits)
  with search_cases [OF 1] have "scopes s' = scopes s" "an_function_stack s' = an_function_stack s" by simp_all
  moreover have "peek_node s p = Some k \<longrightarrow> (\<exists>k'. peek_node s' p = Some k' \<and> skel k' = skel k)" for p k
    using st by (metis steady_node)
  ultimately show ?thesis using st by (simp add: steady_def)
qed

lemma known_module:
  "ld_include_paths ld = dir # dirs \<Longrightarrow> hm_find (an_module_table s) (module_path (ld_fs ld) dir path) = Some m \<Longrightarrow>
     get_module ld (Suc n) path s = Inr (Some m, s)"
  by (simp add: run_first bnd_def)

lemma read_module_known:
  assumes "read_module ld (get_module ld n) path source s = Inr (Some m, s')"
    and new: "hm_find (an_module_table s) path = None"
  shows "hm_find (an_module_table s') path = Some m"
proof -
  let ?s1 = "enter_module path source s"
  obtain ns s2 s3 s4 where 2: "parse_source source ?s1 = Inr (ns, s2)"
    and 3: "analyze (environment ld (get_module ld n)) (visit_fuel ld) ns s2 = Inr ((), s3)"
    and 4: "emit_module ld source ns s3 = Inr (True, s4)" and s': "s' = leave_module s source s4"
    and m: "m = unat (sf_id source)"
    using assms(1) by (auto simp: read_module_def elim!: bndE split: if_splits)
  have fresh: "scope_inv (scopes ?s1)" "\<forall>d \<in> set (m_table (scopes ?s1)). sd_scope d = []" "m_level (scopes ?s1) = 0"
    by (simp_all add: enter_module_def scope_inv_def set_file_id_def new_scope_table_def empty_scope_def)
  have g2: "grows ?s1 s2" "m_level (scopes s2) = 0" using parse_source_grows [OF 2 fresh] by simp_all
  have "unat (m_level (scopes s2)) + visit_fuel ld < 2 ^ 16" using g2(2) by (simp add: visit_fuel_def)
  then have "grows s2 s3"
    by (rule steady_grows [OF staysD [OF analyze_keeps [OF environment_steady] 3]])
  moreover have "grows s3 s4" using emit_module_grows [OF 4] by simp
  ultimately have "grows ?s1 s4" using g2(1) grows_trans by blast
  moreover have "hm_find (an_module_table ?s1) path = Some m" using new m by (simp add: enter_module_def)
  ultimately show ?thesis by (simp add: grows_def s' leave_module_def)
qed

text \<open>C30: A module is read once. When an import found its module in the first include path, any later
  import of the same path, after any other import, gives the same module and changes nothing: no
  file is read and nothing is parsed or analysed again.\<close>

theorem imported_once:
  assumes "ld_include_paths ld = dir # dirs" and "get_module ld (Suc n) path s = Inr (Some m, s1)"
    and "hm_find (an_module_table s) (module_path (ld_fs ld) dir path) \<noteq> None \<or>
      fs_read (ld_fs ld) (module_path (ld_fs ld) dir path) \<noteq> None"
    and "get_module ld j other s1 = Inr (r, s2)"
  shows "get_module ld (Suc k) path s2 = Inr (Some m, s2)"
proof -
  let ?p = "module_path (ld_fs ld) dir path"
  have "hm_find (an_module_table s1) ?p = Some m"
  proof (cases "hm_find (an_module_table s) ?p")
    case (Some m')
    then show ?thesis using known_module [OF assms(1) Some, of n] assms(2) by simp
  next
    case None
    then obtain source s0 found s0' where load: "load_source (ld_fs ld) ?p s = Inr (source, s0)"
      and choice: "(case source of Some f \<Rightarrow> ret (Found ?p f) | None \<Rightarrow> search_module (ld_fs ld) path dirs) s0 = Inr (found, s0')"
      and rest: "(case found of Missing \<Rightarrow> ret None | Loaded m \<Rightarrow> ret (Some m)
         | Found p source \<Rightarrow> read_module ld (get_module ld n) p source) s0' = Inr (Some m, s1)"
      using assms(1,2) by auto
    obtain f where f: "source = Some f"
      using load None assms(3) by (auto simp: load_source_def dest!: load_file_cases split: sum.splits)
    have "read_module ld (get_module ld n) ?p f s0 = Inr (Some m, s1)" using rest choice f by auto
    then show ?thesis using read_module_known load_source_scopes [OF load] None by simp
  qed
  then have "hm_find (an_module_table s2) ?p = Some m"
    using get_module_steady [OF assms(4), of 0] by (simp add: steady_def)
  then show ?thesis by (rule known_module [OF assms(1)])
qed

lemma search_missing:
  assumes "\<forall>dir \<in> set dirs. hm_find (an_module_table s) (module_path fs dir path) = None \<and>
      fs_read fs (module_path fs dir path) = None \<and> \<not> fs_is_directory fs (module_path fs dir path)"
  shows "\<exists>files. search_module fs path dirs s = Inr (Missing, s\<lparr>an_files := files\<rparr>)"
  using assms
proof (induction dirs arbitrary: s)
  case Nil
  have "s = s\<lparr>an_files := an_files s\<rparr>" by simp
  then show ?case unfolding search_module.simps run_ret by metis
next
  case (Cons dir dirs)
  obtain files where 1: "load_source fs (module_path fs dir path) s = Inr (None, s\<lparr>an_files := files\<rparr>)"
    using Cons.prems by (auto simp: load_source_def load_file_def read_file_def Let_def)
  from Cons.IH [of "s\<lparr>an_files := files\<rparr>"] Cons.prems obtain files'
    where "search_module fs path dirs (s\<lparr>an_files := files\<rparr>) = Inr (Missing, s\<lparr>an_files := files'\<rparr>)"
    by auto
  then show ?case using Cons.prems 1 by (auto simp: run_first bnd_def [of "load_source _ _"])
qed

lemma search_found:
  assumes "hm_find (an_module_table s) (module_path fs dir path) = None"
    and "load_source fs (module_path fs dir path) s = Inr (Some f, t)"
  shows "search_module fs path (dir # dirs) s = Inr (Found (module_path fs dir path) f, t)"
  using assms by (simp add: run_first bnd_def)

lemma get_missing:
  "search_module (ld_fs ld) path (ld_include_paths ld) s = Inr (Missing, t) \<Longrightarrow> get_module ld (Suc n) path s = Inr (None, t)"
  by (simp add: bnd_def)

lemma get_found:
  "search_module (ld_fs ld) path (ld_include_paths ld) s = Inr (Found p f, t) \<Longrightarrow>
     get_module ld (Suc n) path s = read_module ld (get_module ld n) p f t"
  by (simp add: bnd_def)

lemma fmt_one:
  assumes "CHR ''{'' \<notin> set pre" and "CHR ''{'' \<notin> set post" and "NUL \<notin> set a"
  shows "fmt_format (pre @ ''{}'' @ post) [a] = Some (pre @ a @ post)"
proof -
  have "do_format (post @ []) (Some []) = Some post" using do_format_literal [OF assms(2), of "[]" "Some []"] by simp
  then show ?thesis
    unfolding fmt_format_def
    using do_format_literal [OF assms(1), of "''{}'' @ post" "Some (a @ [NUL])"] do_format_hole [OF assms(3), of post "[]"]
    by simp
qed

text \<open>C32: An import of a module that is nowhere is reported at the import. If no include path has it,
  neither among the modules that are known nor among the files, the statement throws a frontend
  error for its token, which names the path (as far as its first NUL, here the whole). The report of that error is made first, see \<open>Thrown\<close>.\<close>

theorem missing_module_reported:
  assumes "\<forall>dir \<in> set (ld_include_paths ld).
      hm_find (an_module_table s) (module_path (ld_fs ld) dir (path_text (im_path im))) = None \<and>
      fs_read (ld_fs ld) (module_path (ld_fs ld) dir (path_text (im_path im))) = None \<and>
      \<not> fs_is_directory (ld_fs ld) (module_path (ld_fs ld) dir (path_text (im_path im)))"
    and "peek_node s p = Some k" and "NUL \<notin> set (path_text (im_path im))"
  shows "visit_import (visiting ld (Suc j) n) p im s = Inl (Frontend (node_token k)
    (''Could not read module in any include paths '' @ squote # path_text (im_path im) @ [squote]))"
proof -
  obtain files where "search_module (ld_fs ld) (path_text (im_path im)) (ld_include_paths ld) s =
      Inr (Missing, s\<lparr>an_files := files\<rparr>)"
    using search_missing [OF assms(1)] by blast
  then have get: "get_module ld (Suc j) (path_text (im_path im)) s = Inr (None, s\<lparr>an_files := files\<rparr>)"
    by (rule get_missing)
  have "fmt_format (''Could not read module in any include paths '' @ squote # ''{}'' @ [squote]) [path_text (im_path im)] =
      Some (''Could not read module in any include paths '' @ squote # path_text (im_path im) @ [squote])"
    using fmt_one [of "''Could not read module in any include paths '' @ [squote]" "[squote]", OF _ _ assms(3)] by simp
  moreover have "token_of p t = Inr (node_token k, t)" if "t = poke_node p (upd_stmt (set_module None)) (s\<lparr>an_files := files\<rparr>)" for t
    using assms(2) that
    by (cases k) (auto simp: token_of_def peek_node_def poke_node_def upd_stmt_def split: ptr.splits if_splits)
  ultimately show ?thesis
    using get by (simp add: visit_import_def visiting_def environment_def bnd_def change_stmt_def change_def
      throw_at_def throw_formatted_def)
qed

lemma find_declared:
  "find_global_symbol (declare_global_type t s) nm =
     find_global_symbol s nm @ (if static_name t = nm then [\<lparr>gs_node = Static t, gs_availability = Always, gs_file_id = 0\<rparr>] else [])"
  by (auto simp: declare_global_type_def declare_global_symbol_def find_global_symbol_def split: option.splits)

lemma find_all_declared:
  "find_global_symbol (fold declare_global_type ts s) nm = find_global_symbol s nm @
     map (\<lambda>t. \<lparr>gs_node = Static t, gs_availability = Always, gs_file_id = 0\<rparr>) (filter (\<lambda>t. static_name t = nm) ts)"
  by (induction ts arbitrary: s) (auto simp: find_declared)

lemma scopes_declared: "scopes (fold declare_global_type ts s) = scopes s"
  by (induction ts arbitrary: s) (auto simp: declare_global_type_def declare_global_symbol_def)

lemma filter_distinct: "distinct (map f xs) \<Longrightarrow> x \<in> set xs \<Longrightarrow> filter (\<lambda>y. f y = f x) xs = [x]"
  by (induction xs) (auto simp: filter_empty_conv image_iff)

lemma names_differ: "distinct (map static_name global_types)"
  by (simp add: global_types_def static_name_def)

lemma declared_type_found:
  assumes "t \<in> set global_types" and "g_global_symbols s = []"
    and "fst (search_levels (static_name t) (levels_in_use (scopes s)) []) = None"
  shows "find_symbol (init_global_symbols s) (static_name t) = Static t"
proof -
  have find: "find_global_symbol (init_global_symbols s) (static_name t) =
      [\<lparr>gs_node = Static t, gs_availability = Always, gs_file_id = 0\<rparr>]"
    using assms(2) filter_distinct [OF names_differ assms(1)] find_all_declared [of global_types s "static_name t"]
    by (simp add: init_global_symbols_def find_global_symbol_def [of s])
  obtain f where "search_levels (static_name t) (levels_in_use (scopes s)) [] = (None, f)"
    using assms(3) by (cases "search_levels (static_name t) (levels_in_use (scopes s)) []") auto
  moreover obtain g where "search_levels (static_name t) (levels_in_use (scopes s)) f = (None, g)"
    using assms(3) search_levels_None by (metis prod.exhaust fst_conv)
  ultimately show ?thesis
    by (simp add: find_symbol_def find_local_symbol_def find init_global_symbols_def scopes_declared visible_global_def
        find [unfolded init_global_symbols_def])
qed

text \<open>C33: The fifteen types of the language are found everywhere. After \<open>init_global_symbols\<close>, a module that
  has not given such a name to anything in a scope in use finds under \<open>i8\<close>, \<open>u8\<close>, \<open>i16\<close>, \<open>u16\<close>, \<open>i32\<close>, \<open>u32\<close>,
  \<open>i64\<close>, \<open>u64\<close> the integer of this width and sign, under \<open>f32\<close> and \<open>f64\<close> the floats, and under \<open>void\<close>, \<open>bool\<close>,
  \<open>str\<close>, \<open>char\<close>, \<open>uchar\<close> these types; no other name is found.\<close>

theorem builtin_types_found:
  assumes "g_global_symbols s = []" and "fst (search_levels name (levels_in_use (scopes s)) []) = None"
  shows "find_symbol (init_global_symbols s) name =
    (case map_of
       [(''void'', VOID_TYPE), (''i8'', I8_TYPE), (''u8'', U8_TYPE), (''i16'', I16_TYPE), (''u16'', U16_TYPE),
        (''i32'', I32_TYPE), (''u32'', U32_TYPE), (''i64'', I64_TYPE), (''u64'', U64_TYPE), (''bool'', BOOL_TYPE),
        (''str'', STR_TYPE), (''char'', CHAR_TYPE), (''uchar'', UCHAR_TYPE), (''f32'', F32_TYPE), (''f64'', F64_TYPE)] name of
       Some t \<Rightarrow> Static t | None \<Rightarrow> Null)"
proof (cases "name \<in> static_name ` set global_types")
  case True
  then obtain t where "t \<in> set global_types" "name = static_name t" by blast
  then show ?thesis
    using declared_type_found [of t s] assms
    unfolding global_types_def by (auto simp: static_name_def)
next
  case False
  then have none: "filter (\<lambda>t. static_name t = name) global_types = []" by (auto simp: filter_empty_conv)
  have "find_global_symbol (init_global_symbols s) name = []"
    using assms(1) none find_all_declared [of global_types s name]
    by (simp add: init_global_symbols_def find_global_symbol_def [of s])
  moreover obtain f where "search_levels name (levels_in_use (scopes s)) [] = (None, f)"
    using assms(2) by (cases "search_levels name (levels_in_use (scopes s)) []") auto
  moreover obtain g where "search_levels name (levels_in_use (scopes s)) f = (None, g)"
    using assms(2) search_levels_None by (metis prod.exhaust fst_conv)
  ultimately have "find_symbol (init_global_symbols s) name = Null"
    by (simp add: find_symbol_def find_local_symbol_def init_global_symbols_def scopes_declared)
  then show ?thesis using False by (simp add: global_types_def static_name_def)
qed

subsection \<open>A file without declarations\<close>

definition one_file :: file_system where
  "one_file = \<lparr>fs_read = [''./a.pars'' \<mapsto> []], fs_exists = (\<lambda>p. p = ''./a.pars''), fs_is_directory = (\<lambda>_. False)\<rparr>"

definition small_loader :: loader where
  "small_loader = \<lparr>ld_fs = one_file, ld_include_paths = [''./'', ''/bin/''], ld_fuel = 9,
     ld_emit = (\<lambda>_ _ _. Inr \<lparr>em_verified = True, em_bindings = [], em_nodes = []\<rparr>), ld_float_op = (\<lambda>op a b. a)\<rparr>"

lemma small_loader_simps [simp]:
  "ld_fs small_loader = one_file" "ld_include_paths small_loader = [''./'', ''/bin/'']"
  "ld_emit small_loader m ns s = Inr \<lparr>em_verified = True, em_bindings = [], em_nodes = []\<rparr>"
  by (simp_all add: small_loader_def)

lemmas path_evaluation = module_path_def one_file_def path_append_def slash_def replace_extension_def extension_def
  file_name_def dot_char_def Let_def

lemma small_paths:
  "module_path one_file ''./'' ''a'' = ''./a.pars''" "module_path one_file ''./'' ''b'' = ''./b.pars''"
  "module_path one_file ''/bin/'' ''b'' = ''/bin/b.pars''"
  by (simp_all add: path_evaluation)

lemma parse_nothing: "\<not> lex_has_next (m_lexer s) \<Longrightarrow> \<exists>s'. parse (Suc n) s = Inr (m_nodes s, s')"
  by (simp add: parse_def at_scopes_def more_declarations_def bnd_assoc run_first bnd_def)

lemma parse_source_nothing: "sf_contents source = [] \<Longrightarrow> \<exists>t'. parse_source source t = Inr ([], t') \<and> an_module_table t' = an_module_table t"
  using parse_nothing [of "parser_of source t" 1]
  by (auto simp: parse_source_def numeral_2_eq_2 parser_of_def new_lexer_def lex_has_next_def set_source_def at_end_def
      split: sum.splits)

lemma read_empty:
  assumes "sf_contents source = []"
  shows "\<exists>s'. read_module small_loader get path source s = Inr (Some (unat (sf_id source)), s') \<and>
    an_module_table s' = snd (hm_emplace path (unat (sf_id source)) (an_module_table s))"
proof -
  obtain t' where "parse_source source (enter_module path source s) = Inr ([], t')"
    "an_module_table t' = snd (hm_emplace path (unat (sf_id source)) (an_module_table s))"
    using parse_source_nothing [OF assms, of "enter_module path source s"] by (auto simp: enter_module_def)
  then show ?thesis
    by (simp add: read_module_def bnd_def analyze_def emit_module_def leave_module_def)
qed

lemma small_run_from:
  assumes "an_module_table s = []" and "an_files s = no_files"
  shows "\<exists>s'. get_module small_loader (Suc n) ''a'' s = Inr (Some 0, s') \<and> an_module_table s' = [(''./a.pars'', 0)]"
proof -
  let ?source = "\<lparr>sf_id = 0, sf_path = Some ''./a.pars'', sf_contents = []\<rparr>"
  obtain files where 1: "load_source one_file ''./a.pars'' s = Inr (Some ?source, s\<lparr>an_files := files\<rparr>)"
    using assms(2) by (simp add: load_source_def load_file_def read_file_def one_file_def no_files_def Let_def arena_view_def)
  have 2: "search_module one_file ''a'' [''./'', ''/bin/''] s = Inr (Found ''./a.pars'' ?source, s\<lparr>an_files := files\<rparr>)"
    using search_found [of s one_file "''./''" "''a''"] 1 assms(1) by (simp only: small_paths) simp
  obtain s' where "read_module small_loader (get_module small_loader n) ''./a.pars'' ?source
      (s\<lparr>an_files := files\<rparr>) = Inr (Some 0, s')" "an_module_table s' = [(''./a.pars'', 0)]"
    using read_empty [of ?source "get_module small_loader n" "''./a.pars''" "s\<lparr>an_files := files\<rparr>"] assms(1)
    by (auto simp: hm_emplace_def)
  moreover have "get_module small_loader (Suc n) ''a'' s =
      read_module small_loader (get_module small_loader n) ''./a.pars'' ?source (s\<lparr>an_files := files\<rparr>)"
    by (rule get_found) (simp only: small_loader_simps 2)
  ultimately show ?thesis by metis
qed

lemma small_run:
  "\<exists>s'. get_module small_loader (Suc n) ''a'' no_modules = Inr (Some 0, s') \<and> an_module_table s' = [(''./a.pars'', 0)]"
  by (rule small_run_from) (simp_all add: no_modules_def)

lemma small_main:
  "\<exists>s'. main_module small_loader (Suc n) ''a'' no_modules = Inr (Some 0, s') \<and> an_module_table s' = [(''./a.pars'', 0)]"
proof -
  have "an_module_table (fold declare_global_type ts s) = an_module_table s"
    "an_files (fold declare_global_type ts s) = an_files s" for ts and s :: analyzer
    by (induction ts arbitrary: s) (auto simp: declare_global_type_def declare_global_symbol_def)
  then have "an_module_table (init_global_symbols no_modules) = []" "an_files (init_global_symbols no_modules) = no_files"
    by (simp_all add: init_global_symbols_def no_modules_def)
  from small_run_from [OF this] show ?thesis by (simp only: main_module_def run_first)
qed

theorem import_leaves_module_witness:
  "\<exists>s'. get_module small_loader (Suc 0) ''a'' no_modules = Inr (Some 0, s') \<and> scopes s' = new_scope_table"
proof -
  obtain s' where s': "get_module small_loader (Suc 0) ''a'' no_modules = Inr (Some 0, s')" using small_run by blast
  from import_leaves_module [OF s'] have "scopes s' = new_scope_table" by (simp add: no_modules_def)
  with s' show ?thesis by auto
qed

theorem imported_once_witness:
  "\<exists>s1 s2. get_module small_loader (Suc 1) ''a'' no_modules = Inr (Some 0, s1) \<and>
     get_module small_loader (Suc 0) ''b'' s1 = Inr (None, s2) \<and> get_module small_loader (Suc 5) ''a'' s2 = Inr (Some 0, s2)"
proof -
  obtain s1 where 1: "get_module small_loader (Suc 1) ''a'' no_modules = Inr (Some 0, s1)"
    and table: "an_module_table s1 = [(''./a.pars'', 0)]" using small_run by blast
  have dirs: "ld_include_paths small_loader = ''./'' # [''/bin/'']" by simp
  have found: "fs_read (ld_fs small_loader) (module_path (ld_fs small_loader) ''./'' ''a'') \<noteq> None"
    by (simp add: small_paths) (simp add: one_file_def)
  have "\<exists>files. search_module one_file ''b'' [''./'', ''/bin/''] s1 = Inr (Missing, s1\<lparr>an_files := files\<rparr>)"
    by (rule search_missing) (simp add: small_paths table hm_find_def, simp add: one_file_def)
  then obtain s2 where "search_module (ld_fs small_loader) ''b'' (ld_include_paths small_loader) s1 = Inr (Missing, s2)"
    unfolding small_loader_simps by blast
  then have 2: "get_module small_loader (Suc 0) ''b'' s1 = Inr (None, s2)" by (rule get_missing)
  from imported_once [OF dirs 1 disjI2 [OF found] 2] show ?thesis using 1 2 by blast
qed

theorem missing_module_reported_witness:
  "visit_import (visiting small_loader (Suc 0) 3) (At 0) (empty_import\<lparr>im_path := [''b'']\<rparr>)
     (no_modules\<lparr>nodes := [new_stmt (ImportStmt (empty_import\<lparr>im_path := [''b'']\<rparr>))]\<rparr>) =
   Inl (Frontend empty_token (''Could not read module in any include paths '' @ squote # ''b'' @ [squote]))"
  using missing_module_reported [of small_loader
      "no_modules\<lparr>nodes := [new_stmt (ImportStmt (empty_import\<lparr>im_path := [''b'']\<rparr>))]\<rparr>"
      "empty_import\<lparr>im_path := [''b'']\<rparr>" "At 0" "new_stmt (ImportStmt (empty_import\<lparr>im_path := [''b'']\<rparr>))" 0 3]
  by (simp add: small_paths no_modules_def peek_node_def new_stmt_def) (simp add: one_file_def)

theorem builtin_types_found_witness:
  "find_symbol (init_global_symbols no_modules) ''u64'' = Static U64_TYPE"
  using builtin_types_found [of no_modules "''u64''"]
  by (simp add: no_modules_def static_name_def search_levels_None levels_in_use_def new_scope_table_def
      empty_scope_def)

end
