(* ===== verification/Build.thy ===== *)
theory Build
  imports Modules Diagnostics
begin

section \<open>The driver and the linker (\<open>main.cpp\<close>, \<open>compiler.cpp\<close>)\<close>

text \<open>
  \<open>compile_exe\<close> writes an object file for every module, in the order the modules were read, calls
  \<open>clang\<close> on them and removes them. What it does is modelled as the list of its effects on files and
  processes. LLVM, \<open>clang\<close> and the directory are parameters: whether there is a target for the host,
  whether an object file can be opened, and what the call of \<open>clang\<close> returns.
\<close>

datatype OptLevel = O0 | O1 | O2 | O3 | Os | Oz

datatype build_action = Optimize string OptLevel | WriteObject string | Execute "string list" | RemoveObject string

record linker =
  ln_no_target :: "string option"
  ln_cannot_open :: "string \<Rightarrow> string option"
  ln_execute :: "string list \<Rightarrow> 32 word \<times> string"

text \<open>The \<open>switch\<close> has no default: \<open>llvm::OptimizationLevel\<close> is \<open>O2\<close> when it is not assigned.\<close>

definition opt_level :: "32 word \<Rightarrow> OptLevel" where
  "opt_level n = (if n = 0 then O0 else if n = 1 then O1 else if n = 2 then O2 else if n = 3 then O3
     else if n = 4 then Os else if n = 5 then Oz else O2)"

definition object_path :: "string \<Rightarrow> string" where
  "object_path name = map (\<lambda>c. if c = slash then CHR ''_'' else c) name @ ''.o''"

definition linker_options :: "string \<Rightarrow> string list" where
  "linker_options output_path = [''clang'', ''-o'', output_path, ''-no-pie'', ''-lm'']"

text \<open>The loop over the modules: the effects and the objects, or the message of the error.\<close>

fun compile_modules :: "linker \<Rightarrow> OptLevel \<Rightarrow> string list \<Rightarrow> build_action list \<times> (string + string list)" where
  "compile_modules lk level [] = ([], Inr [])"
| "compile_modules lk level (name # names) =
     (case ln_cannot_open lk (object_path name) of
        Some message \<Rightarrow> ([], Inl (''Cannot open output file: '' @ message))
      | None \<Rightarrow>
          (let (acts, r) = compile_modules lk level names
           in ([Optimize name level, WriteObject (object_path name)] @ acts,
               case r of Inl e \<Rightarrow> Inl e | Inr objects \<Rightarrow> Inr (object_path name # objects))))"

definition compile_exe :: "linker \<Rightarrow> config \<Rightarrow> string \<Rightarrow> string list \<Rightarrow> build_action list \<times> (string + unit)" where
  "compile_exe lk cfg output_path names =
     (case ln_no_target lk of
        Some err \<Rightarrow> ([], Inl (''Target lookup failed: '' @ err))
      | None \<Rightarrow>
          (case compile_modules lk (opt_level (cf_opt_level cfg)) names of
             (acts, Inl e) \<Rightarrow> (acts, Inl e)
           | (acts, Inr objects) \<Rightarrow>
               (let args = linker_options output_path @ objects; (code, message) = ln_execute lk args
                in (acts @ [Execute args] @ map RemoveObject objects,
                    if code \<noteq> 0 then Inl (''Linking failed: '' @ message) else Inr ()))))"

subsection \<open>\<open>main\<close>\<close>

text \<open>The steps of \<open>main\<close> after the command line was read, and its exit code. The emission of the modules adds
  the warnings; what is printed for an error is its \<open>what()\<close> (\<open>Diagnostics\<close>).
  These are the steps when the report of the error returns; otherwise \<open>main\<close> stays in the constructor of the
  exception, behind the steps before it (\<open>Thrown\<close>).\<close>

datatype driver_step = Print string | PrintHelp | ReportError "exn + string" | Building "build_action list" | System string

definition output_name :: "config \<Rightarrow> string \<Rightarrow> string" where
  "output_name cfg source_path =
     (if cf_out cfg = [] then replace_extension (file_name source_path) [] else cf_out cfg)"

definition joined_args :: "string list \<Rightarrow> string" where
  "joined_args args = concat (map (\<lambda>a. a @ '' '') (tl args))"

definition on_error :: "config \<Rightarrow> exn + string \<Rightarrow> driver_step list \<times> int" where
  "on_error cfg e = (if cf_silent_errors cfg then [] else [ReportError e], -1)"

definition finish_run :: "config \<Rightarrow> string \<Rightarrow> string list \<Rightarrow> driver_step list" where
  "finish_run cfg out args =
     (if cf_command cfg = Run then [Print (joined_args args), System (out @ '' '' @ joined_args args)] else [])"

definition after_modules :: "linker \<Rightarrow> config \<Rightarrow> string list \<Rightarrow> warnings \<Rightarrow> string list \<Rightarrow> driver_step list \<times> int" where
  "after_modules lk cfg args warnings names =
     (let (texts, exits) = display_warnings cfg warnings; out = output_name cfg (hd args)
      in if exits then (map Print texts, -1)
         else if \<not> should_compile cfg then (map Print texts @ finish_run cfg out args, 0)
         else
           (case compile_exe lk cfg out names of
              (acts, Inl e) \<Rightarrow>
                (let (steps, code) = on_error cfg (Inr e) in (map Print texts @ [Building acts] @ steps, code))
            | (acts, Inr _) \<Rightarrow> (map Print texts @ [Building acts] @ finish_run cfg out args, 0)))"

definition main_program :: "linker \<Rightarrow> loader \<Rightarrow> nat \<Rightarrow> config \<Rightarrow> warnings \<Rightarrow> cli_result \<Rightarrow> driver_step list \<times> int" where
  "main_program lk ld n cfg warnings result =
     (if has_error result then ([Print (cr_message result)], -1)
      else if cf_command cfg = Help then ([PrintHelp], 0)
      else if cr_args result = [] then ([Print ''Must provide an entry file''], -1)
      else
        (case main_module ld n (hd (cr_args result)) no_modules of
           Inl e \<Rightarrow> on_error cfg (Inl e)
         | Inr (None, _) \<Rightarrow> ([Print ''Could not read main module''], -1)
         | Inr (Some _, s) \<Rightarrow> after_modules lk cfg (cr_args result) warnings (map fst (an_module_table s))))"

subsection \<open>Object files\<close>

text \<open>The object files that are there after a list of effects.\<close>

fun left_over :: "build_action list \<Rightarrow> string set \<Rightarrow> string set" where
  "left_over [] files = files"
| "left_over (WriteObject p # acts) files = left_over acts (insert p files)"
| "left_over (RemoveObject p # acts) files = left_over acts (files - {p})"
| "left_over (_ # acts) files = left_over acts files"

lemma left_over_append [simp]: "left_over (xs @ ys) files = left_over ys (left_over xs files)"
  by (induction xs files rule: left_over.induct) auto

lemma left_over_removed [simp]: "left_over (map RemoveObject ps) files = files - set ps"
  by (induction ps arbitrary: files) auto

lemma compile_modules_ok:
  assumes "compile_modules lk level names = (acts, Inr objects)"
  shows "objects = map object_path names \<and> left_over acts files = files \<union> set objects \<and>
    (\<forall>args. Execute args \<notin> set acts)"
  using assms
proof (induction names arbitrary: acts objects files)
  case (Cons name names)
  then obtain as os where "compile_modules lk level names = (as, Inr os)"
    and "acts = [Optimize name level, WriteObject (object_path name)] @ as" "objects = object_path name # os"
    by (auto split: option.splits prod.splits sum.splits)
  with Cons.IH [of as os "insert (object_path name) files"] show ?case by auto
qed auto

lemma object_path_inj:
  assumes "object_path a = object_path b" and "CHR ''_'' \<notin> set a" and "CHR ''_'' \<notin> set b"
  shows "a = b"
proof -
  let ?f = "\<lambda>c. if c = slash then CHR ''_'' else c"
  have m: "map ?f a = map ?f b" using assms(1) by (simp add: object_path_def)
  have "inj_on ?f (set a \<union> set b)"
    using assms(2,3) by (auto simp: inj_on_def split: if_splits)
  then show ?thesis using m by (meson map_inj_on)
qed

text \<open>C31: The linker gets every module, when the target is found and every object file can be opened:
  \<open>clang\<close> is called once, with the objects of all modules in the order of the modules, and whether it succeeds or
  not, no object file that was not there before is left. If no path of a module has an underscore, no two modules share
  an object file. Without these conditions this is not so, see \<open>objects_left_behind\<close> and \<open>objects_collide\<close>.\<close>

theorem build_links_all:
  assumes "compile_exe lk cfg out names = (acts, r)" and "ln_no_target lk = None"
    and "\<forall>name \<in> set names. ln_cannot_open lk (object_path name) = None"
  shows "filter (\<lambda>a. case a of Execute _ \<Rightarrow> True | _ \<Rightarrow> False) acts =
      [Execute (linker_options out @ map object_path names)] \<and>
    left_over acts files \<subseteq> files \<and>
    (r = Inr () \<longleftrightarrow> fst (ln_execute lk (linker_options out @ map object_path names)) = 0) \<and>
    (distinct names \<longrightarrow> (\<forall>name \<in> set names. CHR ''_'' \<notin> set name) \<longrightarrow> distinct (map object_path names))"
proof -
  have "\<exists>as. compile_modules lk level ns = (as, Inr (map object_path ns))"
    if "\<forall>name \<in> set ns. ln_cannot_open lk (object_path name) = None" for level ns
    using that by (induction ns) auto
  then obtain as where as: "compile_modules lk (opt_level (cf_opt_level cfg)) names = (as, Inr (map object_path names))"
    using assms(3) by blast
  let ?args = "linker_options out @ map object_path names"
  have acts: "acts = as @ [Execute ?args] @ map RemoveObject (map object_path names)"
    and r: "r = Inr () \<longleftrightarrow> fst (ln_execute lk ?args) = 0"
    using assms(1,2) as by (auto simp: compile_exe_def Let_def split: prod.splits if_splits)
  note ok = compile_modules_ok [OF as]
  have none: "filter (\<lambda>a. case a of Execute _ \<Rightarrow> True | _ \<Rightarrow> False) as = []"
    "filter (\<lambda>a. case a of Execute _ \<Rightarrow> True | _ \<Rightarrow> False) (map RemoveObject ps) = []" for ps
    using ok by (auto simp: filter_empty_conv split: build_action.splits)
  have "left_over acts files \<subseteq> files" using ok [of files] unfolding acts by (auto simp del: map_map)
  moreover have "distinct (map object_path names)" if "distinct names" "\<forall>name \<in> set names. CHR ''_'' \<notin> set name"
    using that by (auto simp: distinct_map inj_on_def intro: object_path_inj)
  ultimately show ?thesis using r none by (simp add: acts)
qed

definition tool :: linker where
  "tool = \<lparr>ln_no_target = None, ln_cannot_open = (\<lambda>_. None), ln_execute = (\<lambda>_. (0, []))\<rparr>"

theorem build_links_all_witness:
  "left_over (fst (compile_exe tool zero_config ''app'' [''./app.pars'', ''./lib/io.pars''])) {} = {} \<and>
   snd (compile_exe tool zero_config ''app'' [''./app.pars'', ''./lib/io.pars'']) = Inr () \<and>
   Execute [''clang'', ''-o'', ''app'', ''-no-pie'', ''-lm'', ''._app.pars.o'', ''._lib_io.pars.o''] \<in>
     set (fst (compile_exe tool zero_config ''app'' [''./app.pars'', ''./lib/io.pars'']))"
proof -
  let ?names = "[''./app.pars'', ''./lib/io.pars'']"
  obtain acts r where run: "compile_exe tool zero_config ''app'' ?names = (acts, r)" by (rule prod.exhaust)
  note t = build_links_all [OF run, of "{}"]
  have objects: "map object_path ?names = [''._app.pars.o'', ''._lib_io.pars.o'']" by (simp add: object_path_def slash_def)
  have "filter (\<lambda>a. case a of Execute _ \<Rightarrow> True | _ \<Rightarrow> False) acts = [Execute (linker_options ''app'' @ map object_path ?names)]"
    using t by (simp add: tool_def)
  then have "Execute (linker_options ''app'' @ map object_path ?names) \<in> set acts"
    by (auto simp: filter_eq_Cons_iff)
  then show ?thesis using t run objects by (simp add: tool_def linker_options_def)
qed

text \<open>Two modules can share an object file: the second is written over the first, and the linker gets it
  twice. And when an object cannot be opened, those written before stay.\<close>

lemma objects_collide: "object_path ''a/b.pars'' = object_path ''a_b.pars''"
  by (simp add: object_path_def slash_def)

lemma objects_left_behind:
  "left_over (fst (compile_exe (tool\<lparr>ln_cannot_open := (\<lambda>p. if p = ''b.o'' then Some ''denied'' else None)\<rparr>)
     zero_config ''app'' [''a'', ''b''])) {} = {''a.o''}"
  by (simp add: compile_exe_def tool_def object_path_def slash_def)

subsection \<open>The whole program\<close>

text \<open>C12: A program is run only when it was built. If \<open>main\<close> ever calls the shell, then the command
  is \<open>run\<close>, the main module was read without an error, the executable it runs was linked before,
  and every object file was passed to the linker; the text for the shell is the name of the output and
  the arguments behind the entry file.\<close>

theorem runs_what_it_built:
  assumes "main_program lk ld n cfg warnings result = (steps, code)" and "System cmd \<in> set steps"
  shows "cf_command cfg = Run \<and>
    cmd = output_name cfg (hd (cr_args result)) @ '' '' @ joined_args (cr_args result) \<and>
    (\<exists>before acts after names s. steps = before @ [Building acts] @ after \<and> System cmd \<in> set after \<and>
       (\<exists>m. main_module ld n (hd (cr_args result)) no_modules = Inr (Some m, s)) \<and> names = map fst (an_module_table s) \<and>
       Execute (linker_options (output_name cfg (hd (cr_args result))) @ map object_path names) \<in> set acts \<and>
       fst (ln_execute lk (linker_options (output_name cfg (hd (cr_args result))) @ map object_path names)) = 0)"
proof -
  let ?out = "output_name cfg (hd (cr_args result))"
  obtain m s where main: "main_module ld n (hd (cr_args result)) no_modules = Inr (Some m, s)"
    and steps: "after_modules lk cfg (cr_args result) warnings (map fst (an_module_table s)) = (steps, code)"
    using assms by (auto simp: main_program_def on_error_def split: if_splits sum.splits option.splits prod.splits)
  let ?names = "map fst (an_module_table s)"
  have run: "cf_command cfg = Run" and cmd: "cmd = ?out @ '' '' @ joined_args (cr_args result)"
    using steps assms(2)
    by (auto simp: after_modules_def finish_run_def on_error_def Let_def split: if_splits sum.splits prod.splits)
  have "should_compile cfg" using run by (simp add: should_compile_def)
  then obtain acts texts where build: "compile_exe lk cfg ?out ?names = (acts, Inr ())"
    and all: "steps = map Print texts @ [Building acts] @ finish_run cfg ?out (cr_args result)"
    using steps assms(2)
    by (auto simp: after_modules_def on_error_def Let_def split: if_splits sum.splits prod.splits)
  then obtain as objects where as: "compile_modules lk (opt_level (cf_opt_level cfg)) ?names = (as, Inr objects)"
    and acts: "acts = as @ [Execute (linker_options ?out @ objects)] @ map RemoveObject objects"
    and code: "fst (ln_execute lk (linker_options ?out @ objects)) = 0"
    by (auto simp: compile_exe_def Let_def split: option.splits prod.splits sum.splits if_splits)
  have "objects = map object_path ?names" using compile_modules_ok [OF as] by simp
  moreover have "System cmd \<in> set (finish_run cfg ?out (cr_args result))"
    using run cmd by (simp add: finish_run_def)
  ultimately have "Execute (linker_options ?out @ map object_path ?names) \<in> set acts"
    "fst (ln_execute lk (linker_options ?out @ map object_path ?names)) = 0"
    "System cmd \<in> set (finish_run cfg ?out (cr_args result))"
    using acts code by simp_all
  then show ?thesis using run cmd main all by blast
qed

theorem runs_what_it_built_witness:
  "fst (main_program tool small_loader (Suc 0) (zero_config\<lparr>cf_command := Run\<rparr>) []
      \<lparr>cr_message = [], cr_args = [''a'', ''x'']\<rparr>) =
     [Building (fst (compile_exe tool (zero_config\<lparr>cf_command := Run\<rparr>) ''a'' [''./a.pars''])), Print ''x '', System ''a x '']"
proof -
  let ?cfg = "zero_config\<lparr>cf_command := Run\<rparr>"
  let ?result = "\<lparr>cr_message = [], cr_args = [''a'', ''x'']\<rparr>"
  obtain steps code where run: "main_program tool small_loader (Suc 0) ?cfg [] ?result = (steps, code)" by (rule prod.exhaust)
  obtain s where s: "main_module small_loader (Suc 0) ''a'' no_modules = Inr (Some 0, s)"
    "map fst (an_module_table s) = [''./a.pars'']"
    using small_main [of 0] by auto
  have name: "output_name ?cfg ''a'' = ''a''"
    by (simp add: output_name_def zero_config_def replace_extension_def extension_def file_name_def dot_char_def slash_def)
  have build: "snd (compile_exe tool ?cfg ''a'' [''./a.pars'']) = Inr ()"
    by (simp add: compile_exe_def tool_def)
  have "main_program tool small_loader (Suc 0) ?cfg [] ?result = after_modules tool ?cfg [''a'', ''x''] [] [''./a.pars'']"
    unfolding main_program_def by (simp add: s has_error_def)
  also have "\<dots> = ([Building (fst (compile_exe tool ?cfg ''a'' [''./a.pars'']))] @ finish_run ?cfg ''a'' [''a'', ''x''], 0)"
    using build name
    by (cases "compile_exe tool ?cfg ''a'' [''./a.pars'']")
      (simp add: after_modules_def display_warnings_def should_compile_def Let_def)
  finally have steps: "steps = [Building (fst (compile_exe tool ?cfg ''a'' [''./a.pars''])), Print ''x '', System ''a x '']"
    using run by (simp add: finish_run_def joined_args_def)
  have "''a x '' = output_name ?cfg ''a'' @ '' '' @ joined_args [''a'', ''x'']"
    using runs_what_it_built [OF run, of "''a x ''"] steps by simp
  then show ?thesis using run steps by simp
qed

text \<open>The shell looks for the output along \<open>PATH\<close>: without \<open>--out\<close> its name has no slash.\<close>

lemma output_has_no_slash: "cf_out cfg = [] \<Longrightarrow> slash \<notin> set (output_name cfg path)"
proof -
  assume "cf_out cfg = []"
  moreover have "slash \<notin> set (file_name path)" by (auto simp: file_name_def dest: set_takeWhileD)
  ultimately show ?thesis
    by (auto simp: output_name_def replace_extension_def dest: in_set_takeD)
qed

end
