(* ===== verification/Llvm.thy ===== *)
theory Llvm
  imports Analysis
begin

section \<open>LLVM, as the emission of code uses it (\<open>emit_context.hpp\<close>, \<open>util/llvm_utils.cpp\<close>)\<close>

text \<open>
  The last phase of the compiler drives LLVM, which is not part of it. What the compiler asks of LLVM
  is written down here as data (types, constants, instructions), and LLVM itself is a parameter: a
  record of functions over a state \<open>'m\<close> (context, module, builder) and values \<open>'v\<close>. LLVM may
  answer a request with any value, for instance fold an addition of constants, so nothing is assumed of
  the answers. A null value is \<open>None\<close>; the builder reads its operands, so a null operand is
  \<open>Undefined\<close>.
\<close>

subsection \<open>Types, constants, instructions\<close>

text \<open>Types that LLVM makes unique by their structure, and structs it finds by their name. A pointer
  does not know what it points to.\<close>

datatype lltype =
    VoidT | IntT nat | FloatT | PtrT | ArrayT lltype nat | VectorT lltype nat | StructT "lltype list"
  | NamedT string | FunctionT lltype "lltype list" bool

text \<open>\<open>IntC bits value signed\<close> is \<open>APInt(bits, value, signed)\<close>. A floating point constant is
  that of a literal (with its digits), of an integer converted to \<open>double\<close>, or zero.\<close>

datatype 'v llconst =
    IntC nat "64 word" bool | LiteralC string | FromIntC "64 word" | ZeroFloatC lltype | NullC
  | ZeroC lltype | UndefC lltype | PoisonC lltype | ArrayC lltype "'v list" | StructC lltype "'v list"

datatype binop =
    AddOp | SubOp | MulOp | SDivOp | UDivOp | SRemOp | URemOp
  | FAddOp | FSubOp | FMulOp | FDivOp | FRemOp | PowOp | LogicalAndOp | LogicalOrOp
  | ICmpEQ | ICmpNE | ICmpSGE | ICmpSLE | ICmpSLT | ICmpULT | ICmpSGT
  | FCmpOEQ | FCmpONE | FCmpOGE | FCmpOLE | FCmpOLT | FCmpOGT

datatype unop = NegOp | FNegOp | NotOp

datatype conversion = SIToFP | UIToFP | FPToSI | FPToUI

text \<open>\<open>CreateCast\<close> is the cast with the operation \<open>getCastOpcode\<close> chooses for the value, its
  sign, the type and its sign. The names the builder is given for results are kept.\<close>

datatype 'v instr =
    CreateBinary binop 'v 'v
  | CreateUnary unop 'v
  | CreateConversion conversion 'v lltype
  | CreateCast 'v bool lltype bool
  | CreateIntrinsic string lltype "'v list"
  | CreateLoad lltype 'v string
  | CreateAlignedLoad lltype 'v nat
  | CreateStore 'v 'v bool
  | CreateGEP bool lltype 'v "'v list" string
  | CreateConstGEP lltype 'v nat nat string
  | CreateAlloca lltype
  | CreateCall 'v "'v list"
  | CreateCallThrough lltype 'v "'v list"
  | CreateBr 'v
  | CreateCondBr 'v 'v 'v
  | CreateRet "'v option"
  | CreateRetVoid

text \<open>What \<open>dyn_cast\<close> and the tests of the type of a value ask.\<close>

datatype value_class =
    IsPointer | IsInteger | IsConstant | IsConstantInt | IsBlock | IsInstruction | IsAlloca
  | IsGlobalObject | IsConstantDataArray | IsConstantAggregate

text \<open>\<open>ll_element\<close> is \<open>getAggregateElement\<close>; \<open>ll_entry_alloca\<close> puts an \<open>alloca\<close>
  before the first other instruction of the entry block of a function; \<open>ll_make_ctx\<close> turns to the
  module of a name, with a new builder that has no place to insert; \<open>ll_verify\<close> is the report
  of a failed verification, with the module printed in front.\<close>

record ('m, 'v) llvm =
  ll_make_ctx :: "string \<Rightarrow> 'm \<Rightarrow> 'm"
  ll_constant :: "'v llconst \<Rightarrow> 'v"
  ll_build :: "'v instr \<Rightarrow> 'm \<Rightarrow> 'v \<times> 'm"
  ll_insert_block :: "'m \<Rightarrow> 'v option"
  ll_set_insert_point :: "'v option \<Rightarrow> 'm \<Rightarrow> 'm"
  ll_new_block :: "string \<Rightarrow> 'v \<Rightarrow> 'm \<Rightarrow> 'v \<times> 'm"
  ll_terminated :: "'m \<Rightarrow> 'v \<Rightarrow> bool"
  ll_parent :: "'m \<Rightarrow> 'v \<Rightarrow> 'v"
  ll_entry_alloca :: "'v \<Rightarrow> lltype \<Rightarrow> string \<Rightarrow> 'm \<Rightarrow> 'v \<times> 'm"
  ll_is :: "'m \<Rightarrow> value_class \<Rightarrow> 'v \<Rightarrow> bool"
  ll_is_one :: "'m \<Rightarrow> 'v \<Rightarrow> bool"
  ll_element :: "'m \<Rightarrow> 'v \<Rightarrow> nat \<Rightarrow> 'v option"
  ll_element_at :: "'m \<Rightarrow> 'v \<Rightarrow> 'v \<Rightarrow> 'v option"
  ll_metadata :: "'m \<Rightarrow> 'v \<Rightarrow> string \<Rightarrow> bool"
  ll_set_metadata :: "'v \<Rightarrow> string \<Rightarrow> 'm \<Rightarrow> 'm"
  ll_set_alignment :: "'v \<Rightarrow> nat \<Rightarrow> 'm \<Rightarrow> 'm"
  ll_function :: "'m \<Rightarrow> string \<Rightarrow> 'v option"
  ll_new_function :: "lltype \<Rightarrow> bool \<Rightarrow> string \<Rightarrow> 'm \<Rightarrow> 'v \<times> 'm"
  ll_always_inline :: "'v \<Rightarrow> 'm \<Rightarrow> 'm"
  ll_arguments :: "'m \<Rightarrow> 'v \<Rightarrow> 'v list"
  ll_set_name :: "'v \<Rightarrow> string \<Rightarrow> 'm \<Rightarrow> 'm"
  ll_verify :: "'m \<Rightarrow> 'v \<Rightarrow> string option"
  ll_erase :: "'v \<Rightarrow> 'm \<Rightarrow> 'm"
  ll_global :: "string \<Rightarrow> lltype \<Rightarrow> 'm \<Rightarrow> 'v \<times> 'm"
  ll_internal :: "'v \<Rightarrow> 'm \<Rightarrow> 'm"
  ll_set_initializer :: "'v \<Rightarrow> 'v \<Rightarrow> 'm \<Rightarrow> 'm"
  ll_global_string :: "string \<Rightarrow> 'm \<Rightarrow> 'v \<times> 'm"
  ll_struct_exists :: "'m \<Rightarrow> string \<Rightarrow> bool"
  ll_create_struct :: "string \<Rightarrow> 'm \<Rightarrow> 'm"
  ll_set_body :: "lltype \<Rightarrow> lltype list \<Rightarrow> 'm \<Rightarrow> 'm"
  ll_is_sized :: "'m \<Rightarrow> lltype \<Rightarrow> bool"
  ll_alloc_size :: "'m \<Rightarrow> lltype \<Rightarrow> nat"

subsection \<open>The state\<close>

text \<open>
  \<open>EmitCtx\<close> and the variables that outlive it: the strings emitted so far (\<open>g_static_strings\<close>), the
  vector in which \<open>get_fn_llvm_type\<close> collects types, and the warnings. \<open>named_values\<close> is used
  through \<open>operator[]\<close> only, so a missing entry and a null one are the same. A loop is the pair
  of its blocks \<open>merge\<close> and \<open>start\<close>; the innermost one is at the head of the list.
\<close>

record ('m, 'v) emitter = store +
  em_llvm :: 'm
  em_named_values :: "string \<Rightarrow> 'v option"
  em_loop_bbs :: "('v \<times> 'v) list"
  em_if_merge_bbs :: "'v list"
  em_static_strings :: "(string, 'v) hash_map"
  em_type_cache :: "lltype list"
  em_warnings :: "(string \<times> token) list"

type_synonym ('m, 'v, 'a) em = "(('m, 'v) emitter, exn, 'a) comp"

text \<open>\<open>EmitParams\<close>\<close>

record 'v emit_params =
  target_ptr :: "'v option"
  predecessor_ptr :: "'v option"

definition no_params :: "'v emit_params" where
  "no_params = \<lparr>target_ptr = None, predecessor_ptr = None\<rparr>"

definition to_target :: "'v option \<Rightarrow> 'v emit_params" where
  "to_target v = \<lparr>target_ptr = v, predecessor_ptr = None\<rparr>"

definition behind :: "'v option \<Rightarrow> 'v emit_params" where
  "behind v = \<lparr>target_ptr = None, predecessor_ptr = v\<rparr>"

text \<open>What the methods call back: the virtual methods \<open>emit\<close>, \<open>emit_ptr\<close> and \<open>emit_constant\<close>
  of any node. \<open>e_fuel\<close> bounds walks along types; the conversion of a decimal to \<open>i64\<close> is that
  of the machine (\<open>None\<close> where it is undefined).\<close>

record ('m, 'v) emission =
  e_llvm :: "('m, 'v) llvm"
  e_fuel :: nat
  e_float_to_int :: "string \<Rightarrow> 64 word option"
  e_emit :: "ptr \<Rightarrow> 'v emit_params \<Rightarrow> ('m, 'v, 'v option) em"
  e_emit_ptr :: "ptr \<Rightarrow> 'v emit_params \<Rightarrow> ('m, 'v, 'v option) em"
  e_emit_constant :: "ptr \<Rightarrow> 'v emit_params \<Rightarrow> ('m, 'v, 'v option) em"

subsection \<open>Steps\<close>

definition query :: "(('m, 'v) emitter \<Rightarrow> 'a result) \<Rightarrow> ('m, 'v, 'a) em" where
  "query q = (\<lambda>s. rbind (q s) (\<lambda>x. Inr (x, s)))"

definition inspect :: "('m \<Rightarrow> 'a) \<Rightarrow> ('m, 'v, 'a) em" where
  "inspect f = gets (\<lambda>s. f (em_llvm s))"

definition perform :: "('m \<Rightarrow> 'm) \<Rightarrow> ('m, 'v, unit) em" where
  "perform f = modify (\<lambda>s. s\<lparr>em_llvm := f (em_llvm s)\<rparr>)"

definition obtains_value :: "('m \<Rightarrow> 'a \<times> 'm) \<Rightarrow> ('m, 'v, 'a) em" where
  "obtains_value f = (\<lambda>s. case f (em_llvm s) of (v, m) \<Rightarrow> Inr (v, s\<lparr>em_llvm := m\<rparr>))"

definition nonnull :: "'a option \<Rightarrow> ('m, 'v, 'a) em" where
  "nonnull v = (case v of None \<Rightarrow> fail (Undefined ''null pointer'') | Some x \<Rightarrow> ret x)"

definition build :: "('m, 'v) llvm \<Rightarrow> 'v instr \<Rightarrow> ('m, 'v, 'v) em" where
  "build L i = obtains_value (ll_build L i)"

definition some :: "('m, 'v, 'v) em \<Rightarrow> ('m, 'v, 'v option) em" where
  "some m = bnd m (\<lambda>v. ret (Some v))"

text \<open>Instructions whose operands may be null.\<close>

definition build1 :: "('m, 'v) llvm \<Rightarrow> ('v \<Rightarrow> 'v instr) \<Rightarrow> 'v option \<Rightarrow> ('m, 'v, 'v) em" where
  "build1 L i a = bnd (nonnull a) (\<lambda>a. build L (i a))"

definition build2 ::
    "('m, 'v) llvm \<Rightarrow> ('v \<Rightarrow> 'v \<Rightarrow> 'v instr) \<Rightarrow> 'v option \<Rightarrow> 'v option \<Rightarrow> ('m, 'v, 'v) em" where
  "build2 L i a b = bnd (nonnull a) (\<lambda>a. bnd (nonnull b) (\<lambda>b. build L (i a b)))"

definition value_is :: "('m, 'v) llvm \<Rightarrow> value_class \<Rightarrow> 'v \<Rightarrow> ('m, 'v, bool) em" where
  "value_is L c v = inspect (\<lambda>m. ll_is L m c v)"

definition throw_compile :: "token \<Rightarrow> string \<Rightarrow> string list \<Rightarrow> ('s, exn, 'a) comp" where
  "throw_compile t f args =
     (case fmt_format f args of
        Some msg \<Rightarrow> fail (Compile t msg)
      | None \<Rightarrow> fail (Undefined ''format''))"

definition traverse :: "('a \<Rightarrow> ('s, exn, 'b) comp) \<Rightarrow> 'a list \<Rightarrow> ('s, exn, 'b list) comp" where
  "traverse f xs = foldr (\<lambda>x rest. bnd (f x) (\<lambda>y. bnd rest (\<lambda>ys. ret (y # ys)))) xs (ret [])"

definition node_at :: "ptr \<Rightarrow> ('m, 'v, node) em" where
  "node_at p = query (\<lambda>s. case peek_node s p of Some n \<Rightarrow> Inr n | None \<Rightarrow> null_pointer)"

definition expr_at :: "ptr \<Rightarrow> ('m, 'v, expr_node) em" where
  "expr_at p = query (\<lambda>s. case as_expr s p of Some e \<Rightarrow> Inr e | None \<Rightarrow> null_pointer)"

definition expr_type :: "ptr \<Rightarrow> ('m, 'v, ptr) em" where
  "expr_type p = bnd (expr_at p) (\<lambda>e. ret (ex_type e))"

definition i32 :: "nat \<Rightarrow> 'v llconst" where "i32 k = IntC 32 (of_nat k) False"
definition i64 :: "nat \<Rightarrow> 'v llconst" where "i64 k = IntC 64 (of_nat k) False"

subsection \<open>Helpers (\<open>util/llvm_utils.cpp\<close>)\<close>

definition get_block_poison :: "('m, 'v) llvm \<Rightarrow> 'v" where
  "get_block_poison L = ll_constant L (PoisonC VoidT)"

definition is_block_poison :: "('m, 'v) llvm \<Rightarrow> 'v option \<Rightarrow> bool" where
  "is_block_poison L v = (v = Some (get_block_poison L))"

text \<open>Local variables are at the start of the entry block of the function.\<close>

definition create_alloca :: "('m, 'v) llvm \<Rightarrow> lltype \<Rightarrow> string \<Rightarrow> ('m, 'v, 'v) em" where
  "create_alloca L t name =
     bnd (inspect (ll_insert_block L)) (\<lambda>block.
     bnd (nonnull block) (\<lambda>bb.
     bnd (inspect (\<lambda>m. ll_parent L m bb)) (\<lambda>fn.
     obtains_value (ll_entry_alloca L fn t name))))"

definition get_metadata :: "('m, 'v) llvm \<Rightarrow> 'v option \<Rightarrow> string \<Rightarrow> ('m, 'v, bool) em" where
  "get_metadata L v kind =
     bnd (nonnull v) (\<lambda>v. inspect (\<lambda>m.
       if ll_is L m IsInstruction v then ll_metadata L m v kind
       else if ll_is L m IsAlloca v then ll_metadata L m v kind
       else if ll_is L m IsGlobalObject v then ll_metadata L m v kind
       else False))"

definition set_metadata :: "('m, 'v) llvm \<Rightarrow> 'v option \<Rightarrow> string \<Rightarrow> ('m, 'v, unit) em" where
  "set_metadata L v kind =
     bnd (nonnull v) (\<lambda>v. perform (\<lambda>m.
       if ll_is L m IsInstruction v then ll_set_metadata L v kind m
       else if ll_is L m IsAlloca v then ll_set_metadata L v kind m
       else if ll_is L m IsGlobalObject v then ll_set_metadata L v kind m
       else m))"

definition set_flag_metadata :: "('m, 'v) llvm \<Rightarrow> ptr \<Rightarrow> 'v \<Rightarrow> ('m, 'v, unit) em" where
  "set_flag_metadata L expr v =
     bnd (expr_at expr) (\<lambda>e.
     if ex_flags e AND EF_Immutable \<noteq> 0 then set_metadata L (Some v) ''Const'' else ret ())"

definition safe_to_terminate :: "('m, 'v) llvm \<Rightarrow> ('m, 'v, bool) em" where
  "safe_to_terminate L = inspect (\<lambda>m. case ll_insert_block L m of
     None \<Rightarrow> False | Some bb \<Rightarrow> \<not> ll_terminated L m bb)"

definition create_safe_br :: "('m, 'v) llvm \<Rightarrow> 'v option \<Rightarrow> 'v \<Rightarrow> ('m, 'v, 'v option) em" where
  "create_safe_br L current_block next_block =
     bnd (inspect (\<lambda>m. case current_block of None \<Rightarrow> False | Some bb \<Rightarrow> \<not> ll_terminated L m bb)) (\<lambda>open.
     if open then some (build L (CreateBr next_block)) else ret None)"

definition create_safe_void_ret :: "('m, 'v) llvm \<Rightarrow> ('m, 'v, 'v option) em" where
  "create_safe_void_ret L =
     bnd (safe_to_terminate L) (\<lambda>ok. if ok then some (build L CreateRetVoid) else ret None)"

definition create_safe_ret :: "('m, 'v) llvm \<Rightarrow> 'v option \<Rightarrow> ('m, 'v, 'v option) em" where
  "create_safe_ret L v =
     bnd (safe_to_terminate L) (\<lambda>ok. if ok then some (build L (CreateRet v)) else ret None)"

text \<open>The calls of \<open>warn\<close>, in order. \<open>warn\<close> makes the report of its token at once, which may not return:
  \<open>Diagnostics.warn_all\<close> runs these calls.\<close>

definition em_warn :: "string \<Rightarrow> token \<Rightarrow> ('m, 'v, unit) em" where
  "em_warn message t = modify (\<lambda>s. s\<lparr>em_warnings := em_warnings s @ [(message, t)]\<rparr>)"

subsection \<open>What emission leaves alone\<close>

text \<open>
  A node stays what it is, except that a \<open>for\<close> loop may be given more bindings; new nodes are put
  behind the old ones. The stacks of the blocks of loops and conditionals are as before.
\<close>

inductive grown_node :: "node \<Rightarrow> node \<Rightarrow> bool" where
  same [intro, simp]: "grown_node n n"
| more_bindings: "grown_node (NStmt \<lparr>st_token = t, st_body = ForStmt vs i x\<rparr>)
    (NStmt \<lparr>st_token = t, st_body = ForStmt (vs @ us) i x\<rparr>)"

inductive_cases grown_node_forE: "grown_node (NStmt \<lparr>st_token = t, st_body = ForStmt vs i x\<rparr>) n"

definition grown_tree :: "node list \<Rightarrow> node list \<Rightarrow> bool" where
  "grown_tree ns ms \<longleftrightarrow> length ns \<le> length ms \<and> (\<forall>i < length ns. grown_node (ns ! i) (ms ! i))"

text \<open>
  What LLVM has been told is related by \<open>R\<close>: any relation each single request respects (the erasing of
  a function, after which an error is thrown, is not among them).
\<close>

definition balanced :: "('m \<Rightarrow> 'm \<Rightarrow> bool) \<Rightarrow> ('m, 'v) emitter \<Rightarrow> ('m, 'v) emitter \<Rightarrow> bool" where
  "balanced R s s' \<longleftrightarrow> grown_tree (nodes s) (nodes s') \<and> g_attributes s' = g_attributes s \<and>
     em_loop_bbs s' = em_loop_bbs s \<and> em_if_merge_bbs s' = em_if_merge_bbs s \<and> R (em_llvm s) (em_llvm s')"

definition requests_in :: "('m, 'v) llvm \<Rightarrow> ('m \<Rightarrow> 'm \<Rightarrow> bool) \<Rightarrow> bool" where
  "requests_in L R \<longleftrightarrow> (\<forall>m. R m m) \<and> (\<forall>a b c. R a b \<longrightarrow> R b c \<longrightarrow> R a c) \<and>
     (\<forall>m i. R m (snd (ll_build L i m))) \<and> (\<forall>m bb. R m (ll_set_insert_point L bb m)) \<and>
     (\<forall>m name fn. R m (snd (ll_new_block L name fn m))) \<and>
     (\<forall>m fn t name. R m (snd (ll_entry_alloca L fn t name m))) \<and>
     (\<forall>m v k. R m (ll_set_metadata L v k m)) \<and> (\<forall>m v k. R m (ll_set_alignment L v k m)) \<and>
     (\<forall>m t x name. R m (snd (ll_new_function L t x name m))) \<and> (\<forall>m v. R m (ll_always_inline L v m)) \<and>
     (\<forall>m v name. R m (ll_set_name L v name m)) \<and> (\<forall>m name t. R m (snd (ll_global L name t m))) \<and>
     (\<forall>m v. R m (ll_internal L v m)) \<and> (\<forall>m v c. R m (ll_set_initializer L v c m)) \<and>
     (\<forall>m name. R m (snd (ll_global_string L name m))) \<and> (\<forall>m name. R m (ll_create_struct L name m)) \<and>
     (\<forall>m t ts. R m (ll_set_body L t ts m))"

lemma requests_in_any: "requests_in L (\<lambda>m m'. True)"
  by (simp add: requests_in_def)

lemma grown_tree_refl [simp]: "grown_tree ns ns"
  by (simp add: grown_tree_def grown_node.same)

lemma grown_node_trans: "grown_node a b \<Longrightarrow> grown_node b c \<Longrightarrow> grown_node a c"
proof (induction rule: grown_node.induct)
  case (more_bindings t vs i x us)
  then show ?case by (elim grown_node_forE) (simp_all add: grown_node.more_bindings)
qed simp

lemma grown_tree_trans: "grown_tree a b \<Longrightarrow> grown_tree b c \<Longrightarrow> grown_tree a c"
  unfolding grown_tree_def by (auto intro: grown_node_trans)

lemma grown_tree_append [simp]: "grown_tree ns (ns @ ms)"
  by (simp add: grown_tree_def nth_append)

lemma balanced_refl: "requests_in L R \<Longrightarrow> balanced R s s"
  by (simp add: balanced_def requests_in_def)

lemma balanced_equal [simp]: "balanced (=) s s"
  by (simp add: balanced_def)

lemma balanced_trans: "requests_in L R \<Longrightarrow> balanced R s s' \<Longrightarrow> balanced R s' s'' \<Longrightarrow> balanced R s s''"
  unfolding balanced_def requests_in_def by (auto intro: grown_tree_trans)

definition keeping :: "('m, 'v) llvm \<Rightarrow> ('m \<Rightarrow> 'm \<Rightarrow> bool) \<Rightarrow> ('m, 'v, 'a) em \<Rightarrow> bool" where
  "keeping L R m \<longleftrightarrow> (\<forall>s x s'. requests_in L R \<longrightarrow> m s = Inr (x, s') \<longrightarrow> balanced R s s')"

named_theorems keeping_intros \<open>computations that leave the tree and the stacks of blocks alone\<close>

lemma keepingI: "(\<And>s x s'. requests_in L R \<Longrightarrow> m s = Inr (x, s') \<Longrightarrow> balanced R s s') \<Longrightarrow> keeping L R m"
  by (simp add: keeping_def)

lemma keepingD: "keeping L R m \<Longrightarrow> requests_in L R \<Longrightarrow> m s = Inr (x, s') \<Longrightarrow> balanced R s s'"
  by (simp add: keeping_def)

lemma keeping_pure: "(\<And>s x s'. m s = Inr (x, s') \<Longrightarrow> s' = s) \<Longrightarrow> keeping L R m"
  unfolding keeping_def by (metis balanced_refl)

text \<open>A step that changes neither the tree nor the stacks nor LLVM.\<close>

lemma keeping_same:
  assumes "\<And>s x s'. m s = Inr (x, s') \<Longrightarrow> nodes s' = nodes s \<and> g_attributes s' = g_attributes s \<and>
      em_loop_bbs s' = em_loop_bbs s \<and> em_if_merge_bbs s' = em_if_merge_bbs s \<and> em_llvm s' = em_llvm s"
  shows "keeping L R m"
  using assms by (fastforce simp: keeping_def balanced_def requests_in_def)

lemma keeping_basic [keeping_intros, simp]:
  "keeping L R (ret x)" "keeping L R (fail err)" "keeping L R (gets f)" "keeping L R (inspect g)" "keeping L R (nonnull v)"
  "keeping L R (query q)" "keeping L R (throw_compile t msg args)" "keeping L R (node_at p)" "keeping L R (expr_at p)"
  by (rule keeping_pure, auto simp: inspect_def nonnull_def query_def throw_compile_def node_at_def expr_at_def
      rbind_eq_Inr_iff split: option.splits)+

lemma keeping_results [keeping_intros, simp]: "keeping L R (\<lambda>s. Inl err)" "keeping L R (\<lambda>s. Inr (x, s))"
  by (rule keeping_pure, simp)+

lemma keeping_warn [keeping_intros, simp]: "keeping L R (em_warn msg t)"
  by (rule keeping_same) (auto simp: em_warn_def)

lemma keeping_perform: "(\<And>m. requests_in L R \<Longrightarrow> R m (f m)) \<Longrightarrow> keeping L R (perform f)"
  by (rule keepingI) (auto simp: perform_def balanced_def)

lemma keeping_obtains: "(\<And>m. requests_in L R \<Longrightarrow> R m (snd (f m))) \<Longrightarrow> keeping L R (obtains_value f)"
  by (rule keepingI) (auto simp: obtains_value_def balanced_def split: prod.splits, metis snd_conv)

lemma keeping_requests [keeping_intros, simp]:
  "keeping L R (perform (ll_set_insert_point L bb))" "keeping L R (perform (ll_always_inline L v))"
  "keeping L R (perform (ll_set_name L v name))" "keeping L R (perform (ll_internal L v))"
  "keeping L R (perform (ll_set_initializer L v w))" "keeping L R (perform (ll_create_struct L name))"
  "keeping L R (perform (ll_set_body L t ts))"
  by (rule keeping_perform, simp add: requests_in_def)+

lemma keeping_values [keeping_intros, simp]:
  "keeping L R (obtains_value (ll_build L i))" "keeping L R (obtains_value (ll_new_block L name v))"
  "keeping L R (obtains_value (ll_entry_alloca L v t name))" "keeping L R (obtains_value (ll_new_function L t ext name))"
  "keeping L R (obtains_value (ll_global L name t))" "keeping L R (obtains_value (ll_global_string L name))"
  by (rule keeping_obtains, simp add: requests_in_def)+

lemma keeping_bnd [keeping_intros]:
  assumes "keeping L R m" and "\<And>x. keeping L R (f x)"
  shows "keeping L R (bnd m f)"
  using assms unfolding keeping_def by (auto simp: bnd_eq_Inr_iff) (meson balanced_trans)

lemma keeping_throw [simp]: "keeping L R (bnd m (\<lambda>x. fail (err x)))"
  by (rule keepingI) (auto simp: bnd_eq_Inr_iff)

lemma keeping_if [keeping_intros]: "keeping L R m \<Longrightarrow> keeping L R m' \<Longrightarrow> keeping L R (if c then m else m')"
  by simp

lemma keeping_option [keeping_intros]:
  "keeping L R m \<Longrightarrow> (\<And>x. keeping L R (f x)) \<Longrightarrow> keeping L R (case r of None \<Rightarrow> m | Some x \<Rightarrow> f x)"
  by (cases r) auto

lemma keeping_prod [keeping_intros]: "(\<And>x y. keeping L R (f x y)) \<Longrightarrow> keeping L R (case p of (x, y) \<Rightarrow> f x y)"
  by (cases p) auto

lemma keeping_bool [keeping_intros]: "keeping L R m \<Longrightarrow> keeping L R m' \<Longrightarrow> keeping L R (case b of True \<Rightarrow> m | False \<Rightarrow> m')"
  by (cases b) auto

lemma keeping_let [keeping_intros]: "keeping L R (f x) \<Longrightarrow> keeping L R (let y = x in f y)"
  by simp

lemma keeping_traverse [keeping_intros]: "(\<And>x. keeping L R (f x)) \<Longrightarrow> keeping L R (traverse f xs)"
  by (induction xs) (auto simp: traverse_def intro!: keeping_intros)

lemma keeping_metadata [keeping_intros, simp]: "keeping L R (set_metadata L x kind)"
  unfolding set_metadata_def by (intro keeping_intros keeping_perform) (simp add: requests_in_def)

lemma keeping_helpers [keeping_intros, simp]:
  "keeping L R (build L i)" "keeping L R (build1 L f a)" "keeping L R (build2 L g a b)" "keeping L R (value_is L c v)"
  "keeping L R (expr_type p)" "keeping L R (create_alloca L t name)" "keeping L R (get_metadata L x kind)"
  "keeping L R (set_flag_metadata L p v)" "keeping L R (safe_to_terminate L)"
  "keeping L R (create_safe_br L x v)" "keeping L R (create_safe_void_ret L)" "keeping L R (create_safe_ret L x)"
  by (auto simp: build_def build1_def build2_def value_is_def expr_type_def create_alloca_def get_metadata_def
      set_flag_metadata_def safe_to_terminate_def create_safe_br_def create_safe_void_ret_def
      create_safe_ret_def some_def intro!: keeping_intros)

lemma keeping_some [keeping_intros]: "keeping L R m \<Longrightarrow> keeping L R (some m)"
  by (simp add: some_def keeping_intros)

end
