(* ===== verification/Emit_Types.thy ===== *)
theory Emit_Types
  imports Llvm
begin

section \<open>The code of types (\<open>type.cpp\<close>)\<close>

text \<open>
  The virtual methods of types that ask LLVM for types, constants and instructions. As in \<open>Types\<close>
  they branch on the class of the object, an alias hands everything on to its type, and a walk along
  types takes fuel. A method that a class does not override returns null. Arguments of C++ calls are
  evaluated from left to right.
\<close>

definition type_at :: "ptr \<Rightarrow> ('m, 'v, type_obj) em" where
  "type_at p = query (\<lambda>s. the_type s p)"

text \<open>The object that answers for a type, at the end of a chain of aliases.\<close>

definition answering :: "nat \<Rightarrow> ptr \<Rightarrow> (ptr \<Rightarrow> type_obj \<Rightarrow> ('m, 'v, 'a) em) \<Rightarrow> ('m, 'v, 'a) em" where
  "answering n p f = bnd (query (\<lambda>s. through n s p)) (\<lambda>q. bnd (type_at q) (f q))"

definition bits_of :: "integral \<Rightarrow> nat" where
  "bits_of i = unat (it_bits i)"

subsection \<open>LLVM types\<close>

text \<open>Every \<open>FloatType\<close> is a 32 bit float, whatever its number of bits.\<close>

definition static_llvm_type :: "static_type \<Rightarrow> lltype option" where
  "static_llvm_type b =
     (if b = VOID_TYPE then Some VoidT
      else if b = VOID_POINTER_TYPE \<or> b = STR_TYPE then Some PtrT
      else case static_integral b of
             Some i \<Rightarrow> Some (if static_kind b = Kind_Float then FloatT else IntT (bits_of i))
           | None \<Rightarrow> None)"

definition get_slice_struct :: lltype where
  "get_slice_struct = StructT [PtrT, IntT 32]"

text \<open>A struct is looked up by its name in the context, which all modules share; a struct without a
  name gives a body to the empty struct type.\<close>

definition struct_llvm_type ::
    "('m, 'v) llvm \<Rightarrow> (ptr \<Rightarrow> ('m, 'v, lltype option) em) \<Rightarrow> struct_type \<Rightarrow> ('m, 'v, lltype option) em" where
  "struct_llvm_type L get st =
     (let name = sy_name (stt_symbol st) in
     bnd (inspect (\<lambda>m. ll_struct_exists L m name)) (\<lambda>known.
     if known then ret (Some (NamedT name))
     else
       let t = (if name = [] then StructT [] else NamedT name) in
       bnd (if name = [] then ret () else perform (ll_create_struct L name)) (\<lambda>_.
       bnd (traverse (\<lambda>f. bnd (get (meta_ptr (snd f))) nonnull) (stt_fields st)) (\<lambda>ts.
       bnd (perform (ll_set_body L t ts)) (\<lambda>_.
       ret (Some t))))))"

definition var_at :: "ptr \<Rightarrow> ('m, 'v, var_decl) em" where
  "var_at p = query (\<lambda>s. case as_var s p of Some v \<Rightarrow> Inr v | None \<Rightarrow> null_pointer)"

definition param_type :: "ptr \<Rightarrow> ('m, 'v, ptr) em" where
  "param_type p = bnd (var_at p) (\<lambda>v. ret (meta_ptr (vd_type v)))"

text \<open>The types of the parameters are collected in a vector that is one for the whole thread: a
  parameter that is a function itself clears it.\<close>

definition collect_param_type ::
    "(ptr \<Rightarrow> ('m, 'v, lltype option) em) \<Rightarrow> ptr \<Rightarrow> ('m, 'v, unit) em" where
  "collect_param_type get p =
     bnd (param_type p) (\<lambda>t.
     bnd (get t) (\<lambda>lt.
     bnd (nonnull lt) (\<lambda>lt.
     modify (\<lambda>s. s\<lparr>em_type_cache := em_type_cache s @ [lt]\<rparr>))))"

definition fn_llvm_type ::
    "(ptr \<Rightarrow> ('m, 'v, lltype option) em) \<Rightarrow> fn_type \<Rightarrow> ('m, 'v, lltype) em" where
  "fn_llvm_type get f =
     bnd (modify (\<lambda>s. s\<lparr>em_type_cache := []\<rparr>)) (\<lambda>_.
     bnd (traverse (collect_param_type get) (fs_parameters (fn_sig f))) (\<lambda>_.
     bnd (get (meta_ptr (fs_return_type (fn_sig f)))) (\<lambda>r.
     bnd (nonnull r) (\<lambda>r.
     bnd (gets em_type_cache) (\<lambda>ts.
     ret (FunctionT r ts False))))))"

fun get_llvm_type :: "('m, 'v) llvm \<Rightarrow> nat \<Rightarrow> ptr \<Rightarrow> ('m, 'v, lltype option) em" where
  "get_llvm_type L 0 p = fail OutOfFuel"
| "get_llvm_type L (Suc n) p =
     bnd (type_at p) (\<lambda>t.
     case t of
       Builtin b \<Rightarrow> ret (static_llvm_type b)
     | Heap (UnresolvedSymbolType _) \<Rightarrow> ret None
     | Heap (AliasType al) \<Rightarrow> get_llvm_type L n (meta_ptr (al_type al))
     | Heap (PointerType inner _) \<Rightarrow>
         bnd (get_llvm_type L n inner) (\<lambda>i. bnd (nonnull i) (\<lambda>_. ret (Some PtrT)))
     | Heap (ArrayType ar) \<Rightarrow>
         bnd (get_llvm_type L n (ar_element_type ar)) (\<lambda>i. bnd (nonnull i) (\<lambda>i. ret (Some (ArrayT i (ar_size ar)))))
     | Heap (SliceType _ _) \<Rightarrow> ret (Some get_slice_struct)
     | Heap (StructType st) \<Rightarrow> struct_llvm_type L (get_llvm_type L n) st
     | Heap (FnType f) \<Rightarrow> bnd (fn_llvm_type (get_llvm_type L n) f) (\<lambda>_. ret (Some PtrT))
     | Heap (EnumType _) \<Rightarrow> ret (static_llvm_type U32_TYPE))"

text \<open>Where the code goes on to use the type.\<close>

definition llvm_type :: "('m, 'v) llvm \<Rightarrow> nat \<Rightarrow> ptr \<Rightarrow> ('m, 'v, lltype) em" where
  "llvm_type L n p = bnd (get_llvm_type L n p) nonnull"

definition get_fn_llvm_type :: "('m, 'v) llvm \<Rightarrow> nat \<Rightarrow> fn_type \<Rightarrow> ('m, 'v, lltype) em" where
  "get_fn_llvm_type L n f = fn_llvm_type (get_llvm_type L n) f"

subsection \<open>Default values and properties\<close>

definition constant_value :: "('m, 'v) llvm \<Rightarrow> 'v llconst \<Rightarrow> ('m, 'v, 'v option) em" where
  "constant_value L c = ret (Some (ll_constant L c))"

text \<open>The default value of an enum has 64 bits, its type has 32.\<close>

definition static_default_value :: "('m, 'v) llvm \<Rightarrow> static_type \<Rightarrow> ('m, 'v, 'v option) em" where
  "static_default_value L b =
     (if b = VOID_TYPE \<or> b = PACKED_TYPE then constant_value L (UndefC VoidT)
      else if b = VOID_POINTER_TYPE \<or> b = STR_TYPE then constant_value L NullC
      else case static_integral b of
             Some i \<Rightarrow> if static_kind b = Kind_Float then constant_value L (ZeroFloatC FloatT)
                       else constant_value L (IntC (bits_of i) 0 (it_is_signed i))
           | None \<Rightarrow> ret None)"

definition get_default_value :: "('m, 'v) llvm \<Rightarrow> nat \<Rightarrow> ptr \<Rightarrow> ('m, 'v, 'v option) em" where
  "get_default_value L n p = answering n p (\<lambda>q t.
     case t of
       Builtin b \<Rightarrow> static_default_value L b
     | Heap (PointerType _ _) \<Rightarrow> bnd (llvm_type L n q) (\<lambda>_. constant_value L NullC)
     | Heap (ArrayType _) \<Rightarrow> bnd (llvm_type L n q) (\<lambda>lt. constant_value L (ZeroC lt))
     | Heap (SliceType _ _) \<Rightarrow> bnd (llvm_type L n q) (\<lambda>lt. constant_value L (ZeroC lt))
     | Heap (StructType _) \<Rightarrow> bnd (llvm_type L n q) (\<lambda>lt. constant_value L (ZeroC lt))
     | Heap (FnType _) \<Rightarrow> bnd (llvm_type L n q) (\<lambda>_. constant_value L NullC)
     | Heap (EnumType en) \<Rightarrow> constant_value L (IntC 64 (en_default_value en) True)
     | _ \<Rightarrow> ret None)"

text \<open>Properties of integral types (which include pointers and floats) may be \<open>min\<close> and \<open>max\<close>.\<close>

definition get_property :: "('m, 'v) llvm \<Rightarrow> nat \<Rightarrow> ptr \<Rightarrow> string \<Rightarrow> ('m, 'v, 'v option) em" where
  "get_property L n p name = answering n p (\<lambda>q t.
     bnd (if name = ''init'' then get_default_value L n q else ret None) (\<lambda>init.
     if init \<noteq> None then ret init
     else case integral_of t of
       None \<Rightarrow> ret None
     | Some i \<Rightarrow>
         if name \<noteq> ''min'' \<and> name \<noteq> ''max'' then ret None
         else bnd (query (\<lambda>_. integral_limit i (name = ''min''))) (\<lambda>v.
           constant_value L (IntC (bits_of i) v (it_is_signed i)))))"

subsection \<open>Constants\<close>

text \<open>\<open>get_constant_from_literal\<close> for \<open>i64\<close> and for \<open>f64\<close>. Pointers are integer types.\<close>

definition integer_of :: "type_obj \<Rightarrow> integral option" where
  "integer_of t =
     (if kind_of t = Kind_Integer \<or> kind_of t = Kind_Pointer \<or> kind_of t = Kind_Str then integral_of t else None)"

definition get_constant_from_int :: "('m, 'v) llvm \<Rightarrow> nat \<Rightarrow> ptr \<Rightarrow> 64 word \<Rightarrow> ('m, 'v, 'v option) em" where
  "get_constant_from_int L n p v = answering n p (\<lambda>_ t.
     case integer_of t of
       Some i \<Rightarrow> constant_value L (IntC (bits_of i) v True)
     | None \<Rightarrow> if kind_of t = Kind_Float then constant_value L (FromIntC v) else ret None)"

definition get_constant_from_decimal ::
    "('m, 'v) llvm \<Rightarrow> (string \<Rightarrow> 64 word option) \<Rightarrow> nat \<Rightarrow> ptr \<Rightarrow> string \<Rightarrow> ('m, 'v, 'v option) em" where
  "get_constant_from_decimal L to_int n p digits = answering n p (\<lambda>_ t.
     case integer_of t of
       Some i \<Rightarrow>
         (case to_int digits of
            Some v \<Rightarrow> constant_value L (IntC (bits_of i) v True)
          | None \<Rightarrow> fail (Undefined ''conversion of a float''))
     | None \<Rightarrow> if kind_of t = Kind_Float then constant_value L (LiteralC digits) else ret None)"

definition get_aggregate_constant :: "('m, 'v) llvm \<Rightarrow> nat \<Rightarrow> ptr \<Rightarrow> 'v list \<Rightarrow> ('m, 'v, 'v option) em" where
  "get_aggregate_constant L n p cs = answering n p (\<lambda>q t.
     if kind_of t = Kind_Array then bnd (llvm_type L n q) (\<lambda>lt. constant_value L (ArrayC lt cs))
     else if kind_of t = Kind_Struct then bnd (llvm_type L n q) (\<lambda>lt. constant_value L (StructC lt cs))
     else ret None)"

subsection \<open>Binary operators\<close>

text \<open>Of the comparisons only \<open><\<close> looks at the sign of the type.\<close>

definition integer_binop :: "bool \<Rightarrow> TokenType \<Rightarrow> binop option" where
  "integer_binop is_signed op =
     (if op = TkPlus then Some AddOp
      else if op = TkMinus then Some SubOp
      else if op = TkStar then Some MulOp
      else if op = TkForwardSlash then Some (if is_signed then SDivOp else UDivOp)
      else if op = TkPercent then Some (if is_signed then SRemOp else URemOp)
      else if op = TkEqualEqual then Some ICmpEQ
      else if op = TkBangEqual then Some ICmpNE
      else if op = TkGreaterEqual then Some ICmpSGE
      else if op = TkLessEqual then Some ICmpSLE
      else if op = TkLess then Some (if is_signed then ICmpSLT else ICmpULT)
      else if op = TkGreater then Some ICmpSGT
      else None)"

text \<open>A power is computed with 32 bit floats.\<close>

definition to_float :: "('m, 'v) llvm \<Rightarrow> bool \<Rightarrow> 'v option \<Rightarrow> ('m, 'v, 'v option) em" where
  "to_float L is_signed v =
     bnd (nonnull v) (\<lambda>v.
     bnd (value_is L IsInteger v) (\<lambda>int.
     if int then some (build L (CreateConversion (if is_signed then SIToFP else UIToFP) v FloatT)) else ret (Some v)))"

definition integer_op_binary ::
    "('m, 'v) llvm \<Rightarrow> ('m, 'v, lltype) em \<Rightarrow> bool \<Rightarrow> TokenType \<Rightarrow> 'v option \<Rightarrow> 'v option \<Rightarrow>
     ('m, 'v, 'v option) em" where
  "integer_op_binary L get_type is_signed op lhs rhs =
     (if op = TkStarStar then
        bnd (to_float L is_signed lhs) (\<lambda>a.
        bnd (to_float L is_signed rhs) (\<lambda>b.
        bnd (build2 L (CreateBinary PowOp) a b) (\<lambda>r.
        bnd get_type (\<lambda>lt.
        some (build L (CreateConversion (if is_signed then FPToSI else FPToUI) r lt))))))
      else case integer_binop is_signed op of
             Some o' \<Rightarrow> some (build2 L (CreateBinary o') lhs rhs)
           | None \<Rightarrow> ret None)"

definition float_binop :: "TokenType \<Rightarrow> binop option" where
  "float_binop op =
     (if op = TkPlus then Some FAddOp
      else if op = TkMinus then Some FSubOp
      else if op = TkForwardSlash then Some FDivOp
      else if op = TkStar then Some FMulOp
      else if op = TkPercent then Some FRemOp
      else if op = TkStarStar then Some PowOp
      else if op = TkEqualEqual then Some FCmpOEQ
      else if op = TkBangEqual then Some FCmpONE
      else if op = TkGreaterEqual then Some FCmpOGE
      else if op = TkLessEqual then Some FCmpOLE
      else if op = TkLess then Some FCmpOLT
      else if op = TkGreater then Some FCmpOGT
      else None)"

definition bool_binop :: "TokenType \<Rightarrow> binop option" where
  "bool_binop op = (if op = TkAnd then Some LogicalAndOp else if op = TkOr then Some LogicalOrOp else None)"

definition simple_op_binary ::
    "('m, 'v) llvm \<Rightarrow> binop option \<Rightarrow> 'v option \<Rightarrow> 'v option \<Rightarrow> ('m, 'v, 'v option) em" where
  "simple_op_binary L o' lhs rhs =
     (case o' of Some b \<Rightarrow> some (build2 L (CreateBinary b) lhs rhs) | None \<Rightarrow> ret None)"

definition pointer_op_binary ::
    "('m, 'v) llvm \<Rightarrow> nat \<Rightarrow> ptr \<Rightarrow> TokenType \<Rightarrow> 'v option \<Rightarrow> 'v option \<Rightarrow> ('m, 'v, 'v option) em" where
  "pointer_op_binary L n inner op lhs rhs =
     (if op = TkPlus then
        bnd (llvm_type L n inner) (\<lambda>lt.
        some (build2 L (\<lambda>a b. CreateGEP False lt a [b] '''') lhs rhs))
      else if op = TkMinus then
        bnd (llvm_type L n inner) (\<lambda>lt.
        bnd (build1 L (CreateUnary NegOp) rhs) (\<lambda>neg.
        some (build1 L (\<lambda>a. CreateGEP False lt a [neg] '''') lhs)))
      else integer_op_binary L (bnd (llvm_type L n inner) (\<lambda>_. ret PtrT)) True op lhs rhs)"

text \<open>Arrays are added and multiplied as vectors; the alignment of two local arrays is raised.\<close>

definition align_allocas :: "('m, 'v) llvm \<Rightarrow> 'v \<Rightarrow> 'v \<Rightarrow> ('m, 'v, unit) em" where
  "align_allocas L a b = perform (\<lambda>m.
     if ll_is L m IsAlloca a \<and> ll_is L m IsAlloca b
     then ll_set_alignment L b 16 (ll_set_alignment L a 16 m) else m)"

definition array_op_binary ::
    "('m, 'v) llvm \<Rightarrow> nat \<Rightarrow> (ptr \<Rightarrow> TokenType \<Rightarrow> 'v option \<Rightarrow> 'v option \<Rightarrow> ('m, 'v, 'v option) em) \<Rightarrow>
     array_type \<Rightarrow> TokenType \<Rightarrow> 'v option \<Rightarrow> 'v option \<Rightarrow> ('m, 'v, 'v option) em" where
  "array_op_binary L n element_op ar op lhs rhs =
     (if op \<noteq> TkPlus \<and> op \<noteq> TkMinus \<and> op \<noteq> TkStar \<and> op \<noteq> TkForwardSlash then ret None
      else
        bnd (llvm_type L n (ar_element_type ar)) (\<lambda>lt.
        bnd (nonnull lhs) (\<lambda>l.
        bnd (nonnull rhs) (\<lambda>r.
        bnd (align_allocas L l r) (\<lambda>_.
        bnd (build L (CreateAlignedLoad (VectorT lt (ar_size ar)) l 16)) (\<lambda>a.
        bnd (build L (CreateAlignedLoad (VectorT lt (ar_size ar)) r 16)) (\<lambda>b.
        element_op (ar_element_type ar) op (Some a) (Some b))))))))"

definition static_op_binary ::
    "('m, 'v) llvm \<Rightarrow> nat \<Rightarrow> static_type \<Rightarrow> TokenType \<Rightarrow> 'v option \<Rightarrow> 'v option \<Rightarrow> ('m, 'v, 'v option) em" where
  "static_op_binary L n b op lhs rhs =
     (if b = VOID_POINTER_TYPE \<or> b = STR_TYPE then pointer_op_binary L n (inner_of (Builtin b)) op lhs rhs
      else case static_integral b of
        None \<Rightarrow> ret None
      | Some i \<Rightarrow>
          if static_kind b = Kind_Float then simple_op_binary L (float_binop op) lhs rhs
          else if static_kind b = Kind_Bool then simple_op_binary L (bool_binop op) lhs rhs
          else integer_op_binary L (ret (IntT (bits_of i))) (it_is_signed i) op lhs rhs)"

fun op_binary ::
    "('m, 'v) llvm \<Rightarrow> nat \<Rightarrow> ptr \<Rightarrow> TokenType \<Rightarrow> 'v option \<Rightarrow> 'v option \<Rightarrow> ('m, 'v, 'v option) em" where
  "op_binary L 0 p op lhs rhs = fail OutOfFuel"
| "op_binary L (Suc n) p op lhs rhs =
     bnd (type_at p) (\<lambda>t.
     case t of
       Builtin b \<Rightarrow> static_op_binary L n b op lhs rhs
     | Heap (AliasType al) \<Rightarrow> op_binary L n (meta_ptr (al_type al)) op lhs rhs
     | Heap (PointerType inner _) \<Rightarrow> pointer_op_binary L n inner op lhs rhs
     | Heap (ArrayType ar) \<Rightarrow> array_op_binary L n (op_binary L n) ar op lhs rhs
     | Heap (EnumType _) \<Rightarrow> if op = TkEqualEqual then some (build2 L (CreateBinary ICmpEQ) lhs rhs) else ret None
     | _ \<Rightarrow> ret None)"

subsection \<open>Other operators\<close>

definition op_unary :: "('m, 'v) llvm \<Rightarrow> nat \<Rightarrow> ptr \<Rightarrow> TokenType \<Rightarrow> 'v option \<Rightarrow> ('m, 'v, 'v option) em" where
  "op_unary L n p op rhs = answering n p (\<lambda>_ t.
     if integer_of t \<noteq> None \<and> op = TkMinus then some (build1 L (CreateUnary NegOp) rhs)
     else if kind_of t = Kind_Float \<and> op = TkMinus then some (build1 L (CreateUnary FNegOp) rhs)
     else if kind_of t = Kind_Bool \<and> op = TkBang then some (build1 L (CreateUnary NotOp) rhs)
     else ret None)"

definition is_pointer_obj :: "type_obj \<Rightarrow> bool" where
  "is_pointer_obj t = (case t of Heap (PointerType _ _) \<Rightarrow> True | Builtin b \<Rightarrow> b = STR_TYPE \<or> b = VOID_POINTER_TYPE | _ \<Rightarrow> False)"

definition op_abs :: "('m, 'v) llvm \<Rightarrow> nat \<Rightarrow> ptr \<Rightarrow> 'v option \<Rightarrow> ('m, 'v, 'v option) em" where
  "op_abs L n p v = answering n p (\<lambda>q t.
     if is_pointer_obj t then ret None
     else if kind_of t = Kind_Integer then
       bnd (llvm_type L n q) (\<lambda>lt.
       some (build1 L (\<lambda>a. CreateIntrinsic ''abs'' lt [a, ll_constant L (IntC 1 1 False)]) v))
     else if kind_of t = Kind_Float then
       bnd (llvm_type L n q) (\<lambda>lt. some (build1 L (\<lambda>a. CreateIntrinsic ''fabs'' lt [a]) v))
     else ret None)"

text \<open>\<open>produce_type\<close> looks through one alias of the desired type.\<close>

definition integral_op_cast ::
    "('m, 'v) llvm \<Rightarrow> nat \<Rightarrow> integral \<Rightarrow> 'v option \<Rightarrow> ptr \<Rightarrow> ('m, 'v, 'v option) em" where
  "integral_op_cast L n i v desired =
     bnd (get_llvm_type L n desired) (\<lambda>target.
     bnd (query (\<lambda>s. produce_obj s desired)) (\<lambda>other.
     case Option.bind other integral_of of
       None \<Rightarrow> ret None
     | Some j \<Rightarrow>
         bnd (nonnull target) (\<lambda>lt.
         some (build1 L (\<lambda>a. CreateCast a (it_is_signed i) lt (it_is_signed j)) v))))"

definition op_cast :: "('m, 'v) llvm \<Rightarrow> nat \<Rightarrow> ptr \<Rightarrow> 'v option \<Rightarrow> ptr \<Rightarrow> ('m, 'v, 'v option) em" where
  "op_cast L n p v desired = answering n p (\<lambda>_ t.
     case integral_of t of
       Some i \<Rightarrow> integral_op_cast L n i v desired
     | None \<Rightarrow>
         if kind_of t = Kind_Enum
         then bnd (query (\<lambda>s. is_int n s desired)) (\<lambda>int. ret (if int then v else None))
         else ret None)"

text \<open>A slice of an array: the pointer to its first element, and its length.\<close>

definition array_op_slice ::
    "('m, 'v) llvm \<Rightarrow> nat \<Rightarrow> ptr \<Rightarrow> 'v option \<Rightarrow> 'v option \<Rightarrow> 'v option \<Rightarrow> 'v option \<Rightarrow> ('m, 'v, 'v option) em" where
  "array_op_slice L n p array target start end' =
     bnd (llvm_type L n p) (\<lambda>lt.
     bnd (build2 L (\<lambda>a s. CreateGEP True lt a [ll_constant L (i64 0), s] ''slice_offsets'') array start) (\<lambda>offset_ptr.
     bnd (build1 L (\<lambda>t. CreateConstGEP get_slice_struct t 0 0 '''') target) (\<lambda>array_ptr.
     bnd (build1 L (\<lambda>t. CreateConstGEP get_slice_struct t 0 1 '''') target) (\<lambda>len_ptr.
     bnd (build2 L (CreateBinary SubOp) end' start) (\<lambda>length_value.
     bnd (build L (CreateStore length_value len_ptr False)) (\<lambda>_.
     bnd (build L (CreateStore offset_ptr array_ptr False)) (\<lambda>_.
     some (build1 L (\<lambda>t. CreateLoad get_slice_struct t '''') target))))))))"

definition op_slice ::
    "('m, 'v) llvm \<Rightarrow> nat \<Rightarrow> ptr \<Rightarrow> 'v option \<Rightarrow> 'v option \<Rightarrow> 'v option \<Rightarrow> 'v option \<Rightarrow> ('m, 'v, 'v option) em" where
  "op_slice L n p array target start end' = answering n p (\<lambda>q t.
     if kind_of t = Kind_Array then array_op_slice L n q array target start end' else ret None)"

definition op_coerce :: "('m, 'v) llvm \<Rightarrow> nat \<Rightarrow> ptr \<Rightarrow> 'v option \<Rightarrow> ptr \<Rightarrow> ('m, 'v, 'v option) em" where
  "op_coerce L n p v desired = answering n p (\<lambda>q t.
     if is_pointer_obj t then ret v
     else case (integral_of t, t) of
       (Some i, _) \<Rightarrow> integral_op_cast L n i v desired
     | (None, Heap (ArrayType ar)) \<Rightarrow>
         bnd (build L (CreateAlloca get_slice_struct)) (\<lambda>target.
         array_op_slice L n q v (Some target) (Some (ll_constant L (i64 0))) (Some (ll_constant L (i32 (ar_size ar)))))
     | _ \<Rightarrow> ret None)"

definition array_op_index ::
    "('m, 'v) llvm \<Rightarrow> nat \<Rightarrow> ptr \<Rightarrow> ptr \<Rightarrow> 'v option \<Rightarrow> 'v option \<Rightarrow> ('m, 'v, 'v option) em" where
  "array_op_index L n p element target index =
     bnd (llvm_type L n p) (\<lambda>lt.
     bnd (build2 L (\<lambda>a i. CreateGEP True lt a [ll_constant L (i32 0), i] ''array.op_index'') target index) (\<lambda>ptr.
     bnd (llvm_type L n element) (\<lambda>et.
     some (build L (CreateLoad et ptr '''')))))"

definition slice_op_index ::
    "('m, 'v) llvm \<Rightarrow> nat \<Rightarrow> ptr \<Rightarrow> 'v option \<Rightarrow> 'v option \<Rightarrow> ('m, 'v, 'v option) em" where
  "slice_op_index L n element target index =
     bnd (build1 L (\<lambda>t. CreateConstGEP get_slice_struct t 0 0 ''slice.ptr'') target) (\<lambda>base_ptr.
     bnd (llvm_type L n element) (\<lambda>_.
     bnd (build L (CreateLoad PtrT base_ptr '''')) (\<lambda>array.
     bnd (llvm_type L n element) (\<lambda>et.
     bnd (build1 L (\<lambda>i. CreateGEP False et array [i] ''array.op_index'') index) (\<lambda>ptr.
     bnd (llvm_type L n element) (\<lambda>et.
     some (build L (CreateLoad et ptr ''''))))))))"

definition op_index :: "('m, 'v) llvm \<Rightarrow> nat \<Rightarrow> ptr \<Rightarrow> 'v option \<Rightarrow> 'v option \<Rightarrow> ('m, 'v, 'v option) em" where
  "op_index L n p target index = answering n p (\<lambda>q t.
     case t of
       Heap (ArrayType ar) \<Rightarrow> array_op_index L n q (ar_element_type ar) target index
     | Heap (SliceType element _) \<Rightarrow> slice_op_index L n element target index
     | _ \<Rightarrow> ret None)"

subsection \<open>Members\<close>

text \<open>An index that was not found is -1, as 32 bits.\<close>

definition array_access_member ::
    "('m, 'v) llvm \<Rightarrow> nat \<Rightarrow> ptr \<Rightarrow> array_type \<Rightarrow> 'v option \<Rightarrow> string \<Rightarrow> ('m, 'v, 'v option) em" where
  "array_access_member L n p ar target name =
     (if name = ''length'' then constant_value L (i32 (ar_size ar))
      else if name = ''ptr'' then ret target
      else
        let index = (case get_member_index ar name of Some i \<Rightarrow> i | None \<Rightarrow> UINT32_MAX)
        in array_op_index L n p (ar_element_type ar) target (Some (ll_constant L (i32 index))))"

definition slice_access_member :: "('m, 'v) llvm \<Rightarrow> 'v option \<Rightarrow> string \<Rightarrow> ('m, 'v, 'v option) em" where
  "slice_access_member L ptr name =
     (if name = ''length'' then
        bnd (build1 L (\<lambda>p. CreateConstGEP get_slice_struct p 0 1 '''') ptr) (\<lambda>len_ptr.
        some (build L (CreateLoad (IntT 32) len_ptr ''slice.length'')))
      else if name = ''ptr'' then some (build1 L (\<lambda>p. CreateConstGEP get_slice_struct p 0 0 ''slice.ptr'') ptr)
      else ret None)"

definition struct_access_member ::
    "('m, 'v) llvm \<Rightarrow> nat \<Rightarrow> ptr \<Rightarrow> struct_type \<Rightarrow> 'v option \<Rightarrow> string \<Rightarrow> ('m, 'v, 'v option) em" where
  "struct_access_member L n p st ptr name =
     (case find_index (\<lambda>f. sy_name (fst f) = name) (stt_fields st) of
        None \<Rightarrow> ret None
      | Some index \<Rightarrow>
          bnd (nonnull ptr) (\<lambda>v.
          bnd (value_is L IsConstantAggregate v) (\<lambda>const.
          if const then inspect (\<lambda>m. ll_element L m v index)
          else bnd (llvm_type L n p) (\<lambda>lt.
            some (build L (CreateGEP False lt v [ll_constant L (i64 0), ll_constant L (i32 index)] ''''))))))"

fun access_member :: "('m, 'v) llvm \<Rightarrow> nat \<Rightarrow> ptr \<Rightarrow> 'v option \<Rightarrow> string \<Rightarrow> ('m, 'v, 'v option) em" where
  "access_member L 0 p ptr name = fail OutOfFuel"
| "access_member L (Suc n) p ptr name =
     bnd (type_at p) (\<lambda>t.
     case t of
       Builtin b \<Rightarrow>
         if b = STR_TYPE \<or> b = VOID_POINTER_TYPE then access_member L n (inner_of t) ptr name else ret None
     | Heap (AliasType al) \<Rightarrow> access_member L n (meta_ptr (al_type al)) ptr name
     | Heap (PointerType inner _) \<Rightarrow> access_member L n inner ptr name
     | Heap (ArrayType ar) \<Rightarrow> array_access_member L n p ar ptr name
     | Heap (SliceType _ _) \<Rightarrow> slice_access_member L ptr name
     | Heap (StructType st) \<Rightarrow> struct_access_member L n p st ptr name
     | _ \<Rightarrow> ret None)"

subsection \<open>Functions\<close>

definition sig_emit ::
    "('m, 'v) llvm \<Rightarrow> nat \<Rightarrow> string \<Rightarrow> 8 word \<Rightarrow> fn_signature \<Rightarrow> ('m, 'v, 'v) em" where
  "sig_emit L n name flags sig =
     bnd (inspect (\<lambda>m. ll_function L m name)) (\<lambda>known.
     case known of
       Some fn \<Rightarrow> ret fn
     | None \<Rightarrow>
         bnd (traverse (\<lambda>p. bnd (param_type p) (llvm_type L n)) (fs_parameters sig)) (\<lambda>param_types.
         bnd (llvm_type L n (meta_ptr (fs_return_type sig))) (\<lambda>r.
         bnd (obtains_value (ll_new_function L (FunctionT r param_types (fs_is_variadic sig))
               (flags AND FF_Extern \<noteq> 0 \<or> flags AND FF_Private = 0) name)) (\<lambda>fn.
         bnd (if flags AND FF_Inline \<noteq> 0 then perform (ll_always_inline L fn) else ret ()) (\<lambda>_.
         ret fn)))))"

definition get_llvm_fn :: "('m, 'v) llvm \<Rightarrow> nat \<Rightarrow> fn_type \<Rightarrow> ('m, 'v, 'v) em" where
  "get_llvm_fn L n f =
     bnd (inspect (\<lambda>m. ll_function L m (get_fn_name f))) (\<lambda>known.
     case known of
       Some fn \<Rightarrow> ret fn
     | None \<Rightarrow> sig_emit L n (get_fn_name f) (fn_flags f) (fn_sig f))"

definition op_call :: "('m, 'v) llvm \<Rightarrow> nat \<Rightarrow> ptr \<Rightarrow> 'v option \<Rightarrow> 'v option list \<Rightarrow> ('m, 'v, 'v option) em" where
  "op_call L n p callable args = answering n p (\<lambda>_ t.
     case t of
       Heap (FnType f) \<Rightarrow>
         if callable = None \<or> sy_name (fn_symbol f) \<noteq> [] then
           bnd (get_llvm_fn L n f) (\<lambda>fn.
           bnd (traverse nonnull args) (\<lambda>vs.
           some (build L (CreateCall fn vs))))
         else
           bnd (get_fn_llvm_type L n f) (\<lambda>lt.
           bnd (traverse nonnull args) (\<lambda>vs.
           some (build1 L (\<lambda>c. CreateCallThrough lt c vs) callable)))
     | _ \<Rightarrow> ret None)"

subsection \<open>Iteration\<close>

text \<open>\<open>vars\<close> are the variables of a loop; the code reads places of the span without a test.\<close>

definition var_of :: "'v option list \<Rightarrow> nat \<Rightarrow> ('m, 'v, 'v option) em" where
  "var_of vars i = (if i < length vars then ret (vars ! i) else fail (Undefined ''span out of range''))"

definition range_operands :: "ptr \<Rightarrow> ('m, 'v, TokenType \<times> ptr \<times> ptr) em" where
  "range_operands p =
     bnd (expr_at p) (\<lambda>e.
     case ex_body e of BinaryExpr op l r \<Rightarrow> ret (op, l, r) | _ \<Rightarrow> fail (Undefined ''null pointer''))"

definition load_i32 :: "('m, 'v) llvm \<Rightarrow> 'v option list \<Rightarrow> nat \<Rightarrow> ('m, 'v, 'v) em" where
  "load_i32 L vars i = bnd (var_of vars i) (build1 L (\<lambda>v. CreateLoad (IntT 32) v ''''))"

definition increment :: "('m, 'v) llvm \<Rightarrow> 'v \<Rightarrow> ('m, 'v, 'v) em" where
  "increment L v = build L (CreateBinary AddOp v (ll_constant L (i32 1)))"

definition range_iter_init :: "('m, 'v) emission \<Rightarrow> ptr \<Rightarrow> 'v option list \<Rightarrow> ('m, 'v, 'v option) em" where
  "range_iter_init e p vars =
     bnd (range_operands p) (\<lambda>(op, l, r).
     bnd (e_emit e l no_params) (\<lambda>min.
     bnd (var_of vars 0) (\<lambda>v.
     some (build2 (e_llvm e) (\<lambda>x v. CreateStore x v False) min v))))"

definition range_iter_condition :: "('m, 'v) emission \<Rightarrow> ptr \<Rightarrow> 'v option list \<Rightarrow> ('m, 'v, 'v option) em" where
  "range_iter_condition e p vars =
     bnd (range_operands p) (\<lambda>(op, l, r).
     bnd (e_emit e r no_params) (\<lambda>max.
     bnd (load_i32 (e_llvm e) vars 0) (\<lambda>v.
     bnd (expr_type l) (\<lambda>t.
     op_binary (e_llvm e) (e_fuel e) t (if op = TkDotDotEqual then TkLessEqual else TkLess) (Some v) max))))"

definition range_iter_update :: "('m, 'v) emission \<Rightarrow> 'v option list \<Rightarrow> ('m, 'v, 'v option) em" where
  "range_iter_update e vars =
     bnd (load_i32 (e_llvm e) vars 0) (\<lambda>v.
     bnd (increment (e_llvm e) v) (\<lambda>inc.
     bnd (var_of vars 0) (\<lambda>p.
     some (build1 (e_llvm e) (\<lambda>p. CreateStore inc p False) p))))"

definition array_iter_update :: "('m, 'v) emission \<Rightarrow> ptr \<Rightarrow> ptr \<Rightarrow> 'v option list \<Rightarrow> ('m, 'v, 'v option) em" where
  "array_iter_update e t p vars =
     bnd (load_i32 (e_llvm e) vars 1) (\<lambda>index.
     bnd (e_emit_ptr e p no_params) (\<lambda>array.
     bnd (op_index (e_llvm e) (e_fuel e) t array (Some index)) (\<lambda>v.
     bnd (var_of vars 0) (\<lambda>x.
     some (build2 (e_llvm e) (\<lambda>v x. CreateStore v x False) v x)))))"

definition array_iter_condition :: "('m, 'v) emission \<Rightarrow> ptr \<Rightarrow> ptr \<Rightarrow> 'v option list \<Rightarrow> ('m, 'v, 'v option) em" where
  "array_iter_condition e t p vars =
     bnd (load_i32 (e_llvm e) vars 1) (\<lambda>index.
     bnd (e_emit_ptr e p no_params) (\<lambda>array.
     bnd (access_member (e_llvm e) (e_fuel e) t array ''length'') (\<lambda>len.
     integer_op_binary (e_llvm e) (ret (IntT 32)) False TkLess (Some index) len)))"

definition is_array_obj :: "type_obj \<Rightarrow> bool" where
  "is_array_obj t = (kind_of t = Kind_Array \<or> kind_of t = Kind_Slice)"

definition iter_emit_init :: "('m, 'v) emission \<Rightarrow> ptr \<Rightarrow> ptr \<Rightarrow> 'v option list \<Rightarrow> ('m, 'v, 'v option) em" where
  "iter_emit_init e t p vars = answering (e_fuel e) t (\<lambda>q obj.
     if kind_of obj = Kind_Range then range_iter_init e p vars
     else if is_array_obj obj then bnd (array_iter_update e q p vars) (\<lambda>_. ret None)
     else ret None)"

definition iter_emit_condition :: "('m, 'v) emission \<Rightarrow> ptr \<Rightarrow> ptr \<Rightarrow> 'v option list \<Rightarrow> ('m, 'v, 'v option) em" where
  "iter_emit_condition e t p vars = answering (e_fuel e) t (\<lambda>q obj.
     if kind_of obj = Kind_Range then range_iter_condition e p vars
     else if is_array_obj obj then array_iter_condition e q p vars
     else ret None)"

definition iter_emit_update :: "('m, 'v) emission \<Rightarrow> ptr \<Rightarrow> ptr \<Rightarrow> 'v option list \<Rightarrow> ('m, 'v, 'v option) em" where
  "iter_emit_update e t p vars = answering (e_fuel e) t (\<lambda>q obj.
     if kind_of obj = Kind_Range then range_iter_update e vars
     else if is_array_obj obj then array_iter_update e q p vars
     else ret None)"

subsection \<open>The code of types leaves the tree and the stacks alone\<close>

lemma keeping_type_obj [keeping_intros]:
  "(\<And>b. keeping L R (f b)) \<Longrightarrow> (\<And>b. keeping L R (g b)) \<Longrightarrow> keeping L R (case t of Builtin b \<Rightarrow> f b | Heap b \<Rightarrow> g b)"
  by (cases t) auto

lemma keeping_type_body [keeping_intros]:
  assumes "\<And>x. keeping L R (f1 x)" and "\<And>x. keeping L R (f2 x)" and "\<And>x y. keeping L R (f3 x y)" and "\<And>x. keeping L R (f4 x)"
    and "\<And>x y. keeping L R (f5 x y)" and "\<And>x. keeping L R (f6 x)" and "\<And>x. keeping L R (f7 x)" and "\<And>x. keeping L R (f8 x)"
  shows "keeping L R (case t of UnresolvedSymbolType x \<Rightarrow> f1 x | AliasType x \<Rightarrow> f2 x | PointerType x y \<Rightarrow> f3 x y
     | ArrayType x \<Rightarrow> f4 x | SliceType x y \<Rightarrow> f5 x y | StructType x \<Rightarrow> f6 x | FnType x \<Rightarrow> f7 x | EnumType x \<Rightarrow> f8 x)"
  using assms by (cases t) auto

lemma keeping_type_cache [keeping_intros, simp]: "keeping L R (modify (\<lambda>s. s\<lparr>em_type_cache := f s\<rparr>))"
  by (rule keeping_same) auto

lemma keeping_align [keeping_intros, simp]: "keeping L R (align_allocas L a b)"
  unfolding align_allocas_def
  by (rule keeping_perform) (simp add: requests_in_def, metis)

lemma keeping_type_steps [keeping_intros, simp]:
  "keeping L R (type_at p)" "keeping L R (var_at p)" "keeping L R (param_type p)" "keeping L R (constant_value L c)"
  "keeping L R (static_default_value L b)" "keeping L R (var_of vars i)" "keeping L R (range_operands p)"
  by (auto simp: type_at_def var_at_def param_type_def constant_value_def static_default_value_def var_of_def
      range_operands_def intro!: keeping_intros split: expr_body.split)

lemma keeping_answering [keeping_intros]:
  "(\<And>q t. keeping L R (f q t)) \<Longrightarrow> keeping L R (answering n p f)"
  by (auto simp: answering_def intro!: keeping_intros)

lemma keeping_get_llvm_type [keeping_intros, simp]: "keeping L R (get_llvm_type L n p)"
  by (induction L n p rule: get_llvm_type.induct)
    (auto simp: struct_llvm_type_def fn_llvm_type_def collect_param_type_def Let_def intro!: keeping_intros)

lemma keeping_llvm_types [keeping_intros, simp]:
  "keeping L R (llvm_type L n p)" "keeping L R (get_fn_llvm_type L n f)" "keeping L R (get_default_value L n p)"
  "keeping L R (get_property L n p name)" "keeping L R (get_constant_from_int L n p v)"
  "keeping L R (get_constant_from_decimal L g n p digits)" "keeping L R (get_aggregate_constant L n p cs)"
  by (auto simp: llvm_type_def get_fn_llvm_type_def fn_llvm_type_def collect_param_type_def get_default_value_def
      get_property_def get_constant_from_int_def get_constant_from_decimal_def get_aggregate_constant_def
      intro!: keeping_intros)

lemma keeping_integer_op [keeping_intros]: "keeping L R g \<Longrightarrow> keeping L R (integer_op_binary L g is_signed op lhs rhs)"
  by (auto simp: integer_op_binary_def to_float_def intro!: keeping_intros)

lemma keeping_op_binary [keeping_intros, simp]: "keeping L R (op_binary L n p op lhs rhs)"
  by (induction L n p op lhs rhs rule: op_binary.induct)
    (auto simp: static_op_binary_def pointer_op_binary_def array_op_binary_def simple_op_binary_def
      intro!: keeping_intros)

lemma keeping_ops [keeping_intros, simp]:
  "keeping L R (op_unary L n p op rhs)" "keeping L R (op_abs L n p v)" "keeping L R (integral_op_cast L n i v q)"
  "keeping L R (op_cast L n p v q)" "keeping L R (array_op_slice L n p v t a b)" "keeping L R (op_slice L n p v t a b)"
  "keeping L R (op_coerce L n p v q)" "keeping L R (array_op_index L n p q v a)" "keeping L R (slice_op_index L n q v a)"
  "keeping L R (op_index L n p v a)" "keeping L R (sig_emit L n name flags sig)" "keeping L R (get_llvm_fn L n f)"
  "keeping L R (op_call L n p v vs)"
  by (auto simp: op_unary_def op_abs_def integral_op_cast_def op_cast_def array_op_slice_def op_slice_def
      op_coerce_def array_op_index_def slice_op_index_def op_index_def sig_emit_def get_llvm_fn_def op_call_def
      intro!: keeping_intros)

lemma keeping_access_member [keeping_intros, simp]: "keeping L R (access_member L n p v name)"
  by (induction L n p v name rule: access_member.induct)
    (auto simp: array_access_member_def slice_access_member_def struct_access_member_def Let_def
      intro!: keeping_intros)

lemma keeping_iter:
  assumes "\<And>p x. keeping (e_llvm e) R (e_emit e p x)" and "\<And>p x. keeping (e_llvm e) R (e_emit_ptr e p x)"
  shows "keeping (e_llvm e) R (iter_emit_init e t p vars)" "keeping (e_llvm e) R (iter_emit_condition e t p vars)"
    "keeping (e_llvm e) R (iter_emit_update e t p vars)"
  by (auto simp: iter_emit_init_def iter_emit_condition_def iter_emit_update_def range_iter_init_def
      range_iter_condition_def range_iter_update_def array_iter_update_def array_iter_condition_def
      load_i32_def increment_def intro!: keeping_intros assms)

end
