(* ===== verification/Emit_Expr.thy ===== *)
theory Emit_Expr
  imports Emit_Types
begin

section \<open>The code of expressions (\<open>expr.cpp\<close>)\<close>

text \<open>
  \<open>emit\<close> gives the value of an expression, \<open>emit_ptr\<close> the place it is in, \<open>emit_constant\<close> a
  constant. The methods of a class are written against those of other nodes, which are in the record
  \<open>emission\<close>; they are tied together in \<open>Emission\<close>. A method that a class does not override
  returns null.
\<close>

type_synonym ('m, 'v) emit_method =
  "('m, 'v) emission \<Rightarrow> expr_node \<Rightarrow> 'v emit_params \<Rightarrow> ('m, 'v, 'v option) em"

definition emit_at :: "('m, 'v) emission \<Rightarrow> ptr \<Rightarrow> ('m, 'v, 'v option) em" where
  "emit_at e p = e_emit e p no_params"

definition emit_ptr_at :: "('m, 'v) emission \<Rightarrow> ptr \<Rightarrow> ('m, 'v, 'v option) em" where
  "emit_ptr_at e p = e_emit_ptr e p no_params"

definition type_name_at :: "ptr \<Rightarrow> ('m, 'v, string) em" where
  "type_name_at p = query (\<lambda>s. get_type_name s p)"

definition symbol_at :: "('m, 'v) emission \<Rightarrow> ptr \<Rightarrow> ('m, 'v, string) em" where
  "symbol_at e p = query (\<lambda>s. symbol_of (e_fuel e) s p)"

text \<open>The errors of expressions name a type.\<close>

definition type_error :: "token \<Rightarrow> string \<Rightarrow> ptr \<Rightarrow> ('m, 'v, 'a) em" where
  "type_error t msg p = bnd (type_name_at p) (\<lambda>name. throw_compile t msg [name])"

definition or_else :: "('m, 'v, 'v option) em \<Rightarrow> ('m, 'v, 'v option) em \<Rightarrow> ('m, 'v, 'v option) em" where
  "or_else m err = bnd m (\<lambda>r. case r of None \<Rightarrow> err | Some v \<Rightarrow> ret (Some v))"

subsection \<open>Literals and names\<close>

text \<open>A string is emitted once; the global variable is found by its text ever after, also from other
  modules.\<close>

definition get_global_string :: "('m, 'v) llvm \<Rightarrow> string \<Rightarrow> ('m, 'v, 'v option) em" where
  "get_global_string L str =
     bnd (gets (\<lambda>s. hm_find (em_static_strings s) str)) (\<lambda>known.
     case known of
       Some v \<Rightarrow> ret (Some v)
     | None \<Rightarrow>
         bnd (obtains_value (ll_global_string L str)) (\<lambda>v.
         bnd (modify (\<lambda>s. s\<lparr>em_static_strings := hm_modify str v (\<lambda>_. v) (em_static_strings s)\<rparr>)) (\<lambda>_.
         ret (Some v))))"

definition char_word :: "byte \<Rightarrow> 64 word" where
  "char_word c = scast (of_nat (of_char c) :: 8 word)"

definition literal_emit :: "('m, 'v) emission \<Rightarrow> expr_node \<Rightarrow> literal_value \<Rightarrow> ('m, 'v, 'v option) em" where
  "literal_emit e x v =
     (let L = e_llvm e in
      case v of
        LInt w \<Rightarrow> get_constant_from_int L (e_fuel e) (ex_type x) (scast w)
      | LFloat digits \<Rightarrow> get_constant_from_decimal L (e_float_to_int e) (e_fuel e) (ex_type x) digits
      | LStr str \<Rightarrow> get_global_string L str
      | LBool b \<Rightarrow> constant_value L (IntC 1 (of_bool b) False)
      | LChar c \<Rightarrow> constant_value L (IntC 8 (char_word c) False)
      | LNull \<Rightarrow> static_default_value L VOID_POINTER_TYPE)"

definition symbol_emit_ptr :: "('m, 'v) emission \<Rightarrow> expr_node \<Rightarrow> string \<Rightarrow> ('m, 'v, 'v option) em" where
  "symbol_emit_ptr e x name =
     bnd (gets (\<lambda>s. em_named_values s name)) (\<lambda>v.
     case v of
       Some place \<Rightarrow>
         if ex_flags x AND EF_AlwaysLoad \<noteq> 0 then
           bnd (llvm_type (e_llvm e) (e_fuel e) (ex_type x)) (\<lambda>lt.
           some (build (e_llvm e) (CreateLoad lt place '''')))
         else ret (Some place)
     | None \<Rightarrow> ret None)"

text \<open>The name of a function is its address, stored to a fresh variable if the caller has no place for
  it.\<close>

definition function_emit ::
    "('m, 'v) emission \<Rightarrow> expr_node \<Rightarrow> fn_type \<Rightarrow> 'v emit_params \<Rightarrow> ('m, 'v, 'v option) em" where
  "function_emit e x f ps =
     (let L = e_llvm e in
     bnd (get_llvm_fn L (e_fuel e) f) (\<lambda>fn.
     bnd (case target_ptr ps of
            Some t \<Rightarrow> ret t
          | None \<Rightarrow> bnd (llvm_type L (e_fuel e) (ex_type x)) (\<lambda>lt. create_alloca L lt '''')) (\<lambda>target.
     bnd (build L (CreateStore fn target False)) (\<lambda>_.
     ret (Some fn)))))"

definition symbol_emit :: "('m, 'v) emission \<Rightarrow> expr_node \<Rightarrow> string \<Rightarrow> 'v emit_params \<Rightarrow> ('m, 'v, 'v option) em" where
  "symbol_emit e x name ps =
     bnd (symbol_emit_ptr e x name) (\<lambda>v.
     bnd (gets (\<lambda>s. type_obj_at s (ex_type x))) (\<lambda>t.
     case v of
       None \<Rightarrow>
         (case t of
            Some (Heap (FnType f)) \<Rightarrow> function_emit e x f ps
          | _ \<Rightarrow> ret (predecessor_ptr ps))
     | Some value \<Rightarrow>
         bnd (value_is (e_llvm e) IsPointer value) (\<lambda>pointer.
         if pointer \<and> ex_flags x AND EF_AlwaysPtr = 0 \<and> ex_flags x AND EF_AlwaysLoad = 0 then
           bnd (llvm_type (e_llvm e) (e_fuel e) (ex_type x)) (\<lambda>lt.
           some (build (e_llvm e) (CreateLoad lt value name)))
         else ret (Some value))))"

subsection \<open>Operators\<close>

definition binary_emit :: "('m, 'v) emission \<Rightarrow> expr_node \<Rightarrow> TokenType \<Rightarrow> ptr \<Rightarrow> ptr \<Rightarrow> ('m, 'v, 'v option) em" where
  "binary_emit e x op l r =
     bnd (expr_type l) (\<lambda>t.
     bnd (query (\<lambda>s. is_array (e_fuel e) s t)) (\<lambda>array.
     let operand = (if array then emit_ptr_at e else emit_at e) in
     bnd (operand l) (\<lambda>lhs.
     bnd (operand r) (\<lambda>rhs.
     bnd (expr_type l) (\<lambda>t.
     or_else (op_binary (e_llvm e) (e_fuel e) t op lhs rhs)
       (bnd (type_name_at (ex_type x)) (\<lambda>name.
        throw_compile (ex_token x) (''Cannot use binary operator '' @ squote # ''{}'' @ squote # '' on operands {}'')
          [tk_lexeme (ex_token x), name])))))))"

text \<open>Any other operator is token type 0.\<close>

definition unary_emit :: "('m, 'v) emission \<Rightarrow> expr_node \<Rightarrow> byte \<Rightarrow> ptr \<Rightarrow> ('m, 'v, 'v option) em" where
  "unary_emit e x op r =
     bnd (emit_at e r) (\<lambda>rhs.
     let tk = (if op = CHR ''-'' then TkMinus else if op = CHR 0x21 then TkBang else tk_type empty_token) in
     or_else (op_unary (e_llvm e) (e_fuel e) (ex_type x) tk rhs)
       (bnd (type_name_at (ex_type x)) (\<lambda>name.
        throw_compile (ex_token x) (''Cannot use unary operator '' @ squote # ''{}'' @ squote # '' on operands {}'')
          [tk_lexeme (ex_token x), name])))"

definition cast_emit :: "('m, 'v) emission \<Rightarrow> expr_node \<Rightarrow> ptr \<Rightarrow> ptr \<Rightarrow> ('m, 'v, 'v option) em" where
  "cast_emit e x target original =
     bnd (emit_at e target) (\<lambda>v.
     or_else (op_cast (e_llvm e) (e_fuel e) original v (ex_type x))
       (bnd (type_name_at original) (\<lambda>a. bnd (type_name_at (ex_type x)) (\<lambda>b.
        throw_compile (ex_token x) ''cannot cast {} to {}'' [a, b]))))"

definition abs_emit :: "('m, 'v) emission \<Rightarrow> expr_node \<Rightarrow> ptr \<Rightarrow> ('m, 'v, 'v option) em" where
  "abs_emit e x value =
     bnd (emit_at e value) (\<lambda>v.
     bnd (expr_type value) (\<lambda>t.
     or_else (op_abs (e_llvm e) (e_fuel e) t v) (type_error (ex_token x) ''abs is not defined for type {}'' t)))"

text \<open>The size is given as an \<open>i32\<close>.\<close>

definition sizeof_emit :: "('m, 'v) emission \<Rightarrow> ptr \<Rightarrow> ('m, 'v, 'v option) em" where
  "sizeof_emit e p =
     bnd (expr_type p) (\<lambda>t.
     bnd (llvm_type (e_llvm e) (e_fuel e) t) (\<lambda>lt.
     bnd (inspect (\<lambda>m. if ll_is_sized (e_llvm e) m lt then ll_alloc_size (e_llvm e) m lt else 1)) (\<lambda>size.
     constant_value (e_llvm e) (i32 size))))"

definition nameof_emit :: "('m, 'v) emission \<Rightarrow> expr_node \<Rightarrow> ptr \<Rightarrow> ('m, 'v, 'v option) em" where
  "nameof_emit e x p =
     bnd (symbol_at e p) (\<lambda>name.
     if name = [] then throw_compile (ex_token x) ''Cannot get name of expression'' []
     else get_global_string (e_llvm e) name)"

definition type_prop_emit :: "('m, 'v) emission \<Rightarrow> expr_node \<Rightarrow> string \<Rightarrow> ('m, 'v, 'v option) em" where
  "type_prop_emit e x name =
     or_else (get_property (e_llvm e) (e_fuel e) (ex_type x) name)
       (bnd (type_name_at (ex_type x)) (\<lambda>t.
        throw_compile (ex_token x) (''property '' @ squote # ''{}'' @ squote # '' does not exist for type {}'') [name, t]))"

subsection \<open>Calls\<close>

definition call_signature :: "('m, 'v) emission \<Rightarrow> ptr \<Rightarrow> ('m, 'v, fn_signature) em" where
  "call_signature e callable =
     bnd (expr_type callable) (\<lambda>t.
     bnd (query (\<lambda>s. get_call_info (e_fuel e) s t)) (\<lambda>info.
     case info of None \<Rightarrow> fail (OutOfRange ''optional'') | Some sig \<Rightarrow> ret sig))"

definition check_argument :: "('m, 'v) emission \<Rightarrow> expr_node \<Rightarrow> ptr \<Rightarrow> nat \<Rightarrow> ptr \<Rightarrow> ('m, 'v, unit) em" where
  "check_argument e x param index arg =
     bnd (var_at param) (\<lambda>v.
     bnd (expr_at arg) (\<lambda>a.
     bnd (query (\<lambda>s. is_equal (e_fuel e) s (meta_ptr (vd_type v)) (ex_type a))) (\<lambda>ok.
     if \<not> ok then
       bnd (type_name_at (meta_ptr (vd_type v))) (\<lambda>want. bnd (type_name_at (ex_type a)) (\<lambda>got.
       throw_compile (ex_token x) ''expected type {} instead of {} at position {}''
         [want, got, string_of_nat index]))
     else if \<not> bit (mut_set (vd_type v)) 0 \<and> bit (ex_mut_set a) 0
     then throw_compile (ex_token x) ''Mutability does not match'' []
     else ret ())))"

fun emit_arguments ::
    "('m, 'v) emission \<Rightarrow> expr_node \<Rightarrow> 'v emit_params \<Rightarrow> ptr list \<Rightarrow> nat \<Rightarrow> ptr list \<Rightarrow>
     ('m, 'v, 'v option list) em" where
  "emit_arguments e x ps params index [] = ret []"
| "emit_arguments e x ps params index (arg # args) =
     bnd (if index < length params then check_argument e x (params ! index) index arg else ret ()) (\<lambda>_.
     bnd (e_emit e arg ps) (\<lambda>v.
     bnd (emit_arguments e x ps params (index + 1) args) (\<lambda>vs.
     ret (v # vs))))"

text \<open>Every missing argument is the default of the first missing one: the loop counts, and reads the
  parameter at the place it started from.\<close>

definition emit_default :: "('m, 'v) emission \<Rightarrow> ptr \<Rightarrow> ('m, 'v, 'v option) em" where
  "emit_default e param =
     bnd (param_type param) (\<lambda>t.
     bnd (llvm_type (e_llvm e) (e_fuel e) t) (\<lambda>lt.
     bnd (emit_at e param) (\<lambda>place.
     some (build1 (e_llvm e) (\<lambda>p. CreateLoad lt p '''') place))))"

definition emit_defaults :: "('m, 'v) emission \<Rightarrow> ptr list \<Rightarrow> nat \<Rightarrow> ('m, 'v, 'v option list) em" where
  "emit_defaults e params index = traverse (\<lambda>i. emit_default e (params ! index)) [index ..< length params]"

definition call_emit ::
    "('m, 'v) emission \<Rightarrow> expr_node \<Rightarrow> ptr \<Rightarrow> ptr list \<Rightarrow> 'v emit_params \<Rightarrow> ('m, 'v, 'v option) em" where
  "call_emit e x callable args ps =
     bnd (call_signature e callable) (\<lambda>sig.
     bnd (emit_arguments e x ps (fs_parameters sig) 0 args) (\<lambda>vs.
     bnd (emit_defaults e (fs_parameters sig) (length args)) (\<lambda>ds.
     bnd (expr_type callable) (\<lambda>t.
     bnd (case predecessor_ptr ps of
            Some p \<Rightarrow>
              bnd (llvm_type (e_llvm e) (e_fuel e) t) (\<lambda>lt. some (build (e_llvm e) (CreateLoad lt p '''')))
          | None \<Rightarrow> emit_at e callable) (\<lambda>callable_ptr.
     op_call (e_llvm e) (e_fuel e) t callable_ptr (vs @ ds))))))"

subsection \<open>Members\<close>

definition is_symbol_expr :: "'s store_scheme \<Rightarrow> ptr \<Rightarrow> bool" where
  "is_symbol_expr s p = (case as_expr s p of Some x \<Rightarrow> (case ex_body x of SymbolExpr _ _ \<Rightarrow> True | _ \<Rightarrow> False) | None \<Rightarrow> False)"

definition member_of :: "('m, 'v) emission \<Rightarrow> ptr \<Rightarrow> string \<Rightarrow> ('m, 'v, member_info) em" where
  "member_of e t name =
     bnd (\<lambda>s. get_member (e_fuel e) s t name) (\<lambda>m.
     case m of None \<Rightarrow> fail (OutOfRange ''optional'') | Some info \<Rightarrow> ret info)"

definition load_target ::
    "('m, 'v) emission \<Rightarrow> ptr \<Rightarrow> 'v option \<Rightarrow> ('m, 'v, 'v option) em" where
  "load_target e t v =
     bnd (query (\<lambda>s. is_ptr (e_fuel e) s t)) (\<lambda>pointer.
     if pointer then
       bnd (llvm_type (e_llvm e) (e_fuel e) t) (\<lambda>lt. some (build1 (e_llvm e) (\<lambda>a. CreateLoad lt a '''') v))
     else ret v)"

text \<open>A member that cannot be written is marked with the metadata \<open>Const\<close>.\<close>

definition member_emit_ptr ::
    "('m, 'v) emission \<Rightarrow> expr_node \<Rightarrow> ptr \<Rightarrow> ptr \<Rightarrow> bool \<Rightarrow> 'v emit_params \<Rightarrow> ('m, 'v, 'v option) em" where
  "member_emit_ptr e x target accessor is_method ps =
     (if is_method then e_emit e accessor ps
      else
        bnd (if predecessor_ptr ps = None then emit_ptr_at e target else ret (predecessor_ptr ps)) (\<lambda>target_value.
        if target_value = None then emit_at e accessor
        else
          bnd (expr_type target) (\<lambda>t.
          bnd (load_target e t target_value) (\<lambda>target_value.
          bnd (symbol_at e accessor) (\<lambda>name.
          bnd (or_else (access_member (e_llvm e) (e_fuel e) t target_value name)
                (bnd (type_name_at t) (\<lambda>tn.
                 throw_compile (ex_token x) (''property '' @ squote # ''{}'' @ squote # '' does not exist for type {}'')
                   [name, tn]))) (\<lambda>result.
          bnd (member_of e t name) (\<lambda>member.
          bnd (if mi_access member = Access_Readonly \<or> ex_flags x AND EF_Immutable \<noteq> 0
               then set_metadata (e_llvm e) result ''Const'' else ret ()) (\<lambda>_.
          bnd (gets (\<lambda>s. is_symbol_expr s accessor)) (\<lambda>simple.
          if simple then ret result
          else bnd (e_emit_ptr e accessor (behind result)) (\<lambda>v. ret (if v = None then result else v)))))))))))"

definition load_pointer :: "('m, 'v) emission \<Rightarrow> ptr \<Rightarrow> 'v option \<Rightarrow> ('m, 'v, 'v option) em" where
  "load_pointer e t v =
     (case v of
        None \<Rightarrow> ret None
      | Some p \<Rightarrow>
          bnd (value_is (e_llvm e) IsPointer p) (\<lambda>pointer.
          if pointer then
            bnd (llvm_type (e_llvm e) (e_fuel e) t) (\<lambda>lt. some (build (e_llvm e) (CreateLoad lt p '''')))
          else ret (Some p)))"

subsection \<open>Pointers\<close>

definition ptr_op_emit_ptr :: "('m, 'v) emission \<Rightarrow> expr_node \<Rightarrow> TokenType \<Rightarrow> ptr \<Rightarrow> ('m, 'v, 'v option) em" where
  "ptr_op_emit_ptr e x op target =
     bnd (emit_ptr_at e target) (\<lambda>v.
     bnd (case v of None \<Rightarrow> ret False | Some p \<Rightarrow> value_is (e_llvm e) IsPointer p) (\<lambda>pointer.
     if \<not> pointer then
       bnd (symbol_at e target) (\<lambda>name. throw_compile (ex_token x) ''Cannot take address of {}'' [name])
     else if op = TkAmpersand then ret v
     else if op = TkCaret then
       bnd (query (\<lambda>s. is_equal (e_fuel e) s (ex_type x) (Static VOID_TYPE))) (\<lambda>void.
       if void then throw_compile (ex_token x) ''Cannot dereference void pointer'' []
       else
         bnd (build1 (e_llvm e) (\<lambda>p. CreateLoad PtrT p '''') v) (\<lambda>result.
         bnd (set_flag_metadata (e_llvm e) target result) (\<lambda>_.
         ret (Some result))))
     else ret None))"

definition ptr_op_emit :: "('m, 'v) emission \<Rightarrow> expr_node \<Rightarrow> TokenType \<Rightarrow> ptr \<Rightarrow> ('m, 'v, 'v option) em" where
  "ptr_op_emit e x op target =
     bnd (ptr_op_emit_ptr e x op target) (\<lambda>v.
     if op = TkAmpersand then ret v
     else if op = TkCaret then
       bnd (expr_type target) (\<lambda>t.
       bnd (query (\<lambda>s. get_inner (e_fuel e) s t)) (\<lambda>inner.
       bnd (query (\<lambda>s. is_equal (e_fuel e) s inner (Static VOID_TYPE))) (\<lambda>void.
       if void then throw_compile (ex_token x) ''Cannot dereference void pointer. size is not known'' []
       else
         bnd (llvm_type (e_llvm e) (e_fuel e) inner) (\<lambda>lt.
         some (build1 (e_llvm e) (\<lambda>p. CreateLoad lt p '''') v)))))
     else ret None)"

subsection \<open>Aggregates\<close>

text \<open>Outside of a function the elements must be constants.\<close>

definition constant_element :: "('m, 'v) emission \<Rightarrow> expr_node \<Rightarrow> initializer_element \<Rightarrow> ('m, 'v, 'v) em" where
  "constant_element e x i =
     bnd (emit_at e (ie_expr i)) (\<lambda>v.
     bnd (nonnull v) (\<lambda>v.
     bnd (value_is (e_llvm e) IsConstant v) (\<lambda>const.
     if const then ret v
     else throw_compile (ex_token x) ''All global array elements must be known at compile time'' [])))"

definition aggregate_emit_constant ::
    "('m, 'v) emission \<Rightarrow> expr_node \<Rightarrow> initializer_element list \<Rightarrow> ('m, 'v, 'v option) em" where
  "aggregate_emit_constant e x elements =
     bnd (traverse (constant_element e x) elements) (\<lambda>cs.
     get_aggregate_constant (e_llvm e) (e_fuel e) (ex_type x) cs)"

definition emit_element :: "('m, 'v) emission \<Rightarrow> lltype \<Rightarrow> 'v \<Rightarrow> initializer_element \<Rightarrow> ('m, 'v, unit) em" where
  "emit_element e lt target i =
     (let L = e_llvm e in
     bnd (build L (CreateGEP False lt target [ll_constant L (i64 0), ll_constant L (i32 (ie_index i))] '''')) (\<lambda>field.
     bnd (e_emit e (ie_expr i) (to_target (Some field))) (\<lambda>result.
     case result of
       None \<Rightarrow> ret ()
     | Some v \<Rightarrow> bnd (build L (CreateStore v field False)) (\<lambda>_. ret ()))))"

definition aggregate_emit ::
    "('m, 'v) emission \<Rightarrow> expr_node \<Rightarrow> initializer_element list \<Rightarrow> 'v emit_params \<Rightarrow> ('m, 'v, 'v option) em" where
  "aggregate_emit e x elements ps =
     (let L = e_llvm e in
      if elements = [] then get_default_value L (e_fuel e) (ex_type x)
      else
        bnd (llvm_type L (e_fuel e) (ex_type x)) (\<lambda>lt.
        bnd (inspect (ll_insert_block L)) (\<lambda>block.
        if block = None then aggregate_emit_constant e x elements
        else
          bnd (case target_ptr ps of Some t \<Rightarrow> ret t | None \<Rightarrow> create_alloca L lt '''') (\<lambda>target.
          bnd (get_default_value L (e_fuel e) (ex_type x)) (\<lambda>init.
          bnd (build1 L (\<lambda>v. CreateStore v target False) init) (\<lambda>_.
          bnd (traverse (emit_element e lt target) elements) (\<lambda>_.
          if target_ptr ps = None then some (build L (CreateLoad lt target '''')) else ret None)))))))"

subsection \<open>Elements and slices\<close>

definition index_emit :: "('m, 'v) emission \<Rightarrow> expr_node \<Rightarrow> ptr \<Rightarrow> ptr \<Rightarrow> ('m, 'v, 'v option) em" where
  "index_emit e x lhs index =
     bnd (emit_ptr_at e lhs) (\<lambda>lhs_ptr.
     bnd (nonnull lhs_ptr) (\<lambda>v.
     bnd (value_is (e_llvm e) IsConstantDataArray v) (\<lambda>const.
     if const then
       bnd (emit_at e index) (\<lambda>i.
       bnd (nonnull i) (\<lambda>i.
       bnd (value_is (e_llvm e) IsConstantInt i) (\<lambda>int.
       if int then inspect (\<lambda>m. ll_element_at (e_llvm e) m v i) else fail (Undefined ''null pointer''))))
     else
       bnd (emit_at e index) (\<lambda>i.
       bnd (expr_type lhs) (\<lambda>t.
       or_else (op_index (e_llvm e) (e_fuel e) t lhs_ptr i)
         (type_error (ex_token x) ''type of {} cannot be indexed'' (ex_type x)))))))"

definition index_emit_ptr :: "('m, 'v) emission \<Rightarrow> ptr \<Rightarrow> ptr \<Rightarrow> 'v emit_params \<Rightarrow> ('m, 'v, 'v option) em" where
  "index_emit_ptr e lhs index ps =
     bnd (emit_ptr_at e lhs) (\<lambda>array.
     bnd (emit_at e index) (\<lambda>i.
     bnd (expr_type lhs) (\<lambda>t.
     bnd (llvm_type (e_llvm e) (e_fuel e) t) (\<lambda>lt.
     bnd (build2 (e_llvm e) (\<lambda>a i. CreateGEP True lt a [ll_constant (e_llvm e) (i64 0), i] '''')
            (if array = None then predecessor_ptr ps else array) i) (\<lambda>result.
     bnd (set_flag_metadata (e_llvm e) lhs result) (\<lambda>_.
     ret (Some result)))))))"

text \<open>Returns the target and the slice. The bounds are given the target, too.\<close>

definition slice_emit_both ::
    "('m, 'v) emission \<Rightarrow> expr_node \<Rightarrow> ptr \<Rightarrow> ptr \<Rightarrow> ptr \<Rightarrow> 'v emit_params \<Rightarrow> ('m, 'v, 'v \<times> 'v option) em" where
  "slice_emit_both e x lhs start end' ps =
     (let L = e_llvm e in
     bnd (emit_ptr_at e lhs) (\<lambda>ptr.
     bnd (case target_ptr ps of
            Some t \<Rightarrow> ret t
          | None \<Rightarrow> bnd (llvm_type L (e_fuel e) (ex_type x)) (\<lambda>lt. create_alloca L lt '''')) (\<lambda>target.
     let ps = ps\<lparr>target_ptr := Some target\<rparr> in
     bnd (if start \<noteq> Null then e_emit e start ps else constant_value L (i32 0)) (\<lambda>start_value.
     bnd (expr_type lhs) (\<lambda>t.
     bnd (if end' \<noteq> Null then e_emit e end' ps
          else bnd (gets (\<lambda>s. heap_type s t)) (\<lambda>b.
            case b of Some (ArrayType ar) \<Rightarrow> constant_value L (i32 (ar_size ar))
            | _ \<Rightarrow> fail (Undefined ''null pointer''))) (\<lambda>end_value.
     bnd (or_else (op_slice L (e_fuel e) t ptr (Some target) start_value end_value)
            (type_error (ex_token x) ''cannot slice type {}'' t)) (\<lambda>result.
     ret (target, result))))))))"

definition slice_emit ::
    "('m, 'v) emission \<Rightarrow> expr_node \<Rightarrow> ptr \<Rightarrow> ptr \<Rightarrow> ptr \<Rightarrow> 'v emit_params \<Rightarrow> ('m, 'v, 'v option) em" where
  "slice_emit e x lhs start end' ps =
     bnd (slice_emit_both e x lhs start end' ps) (\<lambda>(_, result).
     ret (if target_ptr ps = None then result else None))"

definition slice_emit_ptr ::
    "('m, 'v) emission \<Rightarrow> expr_node \<Rightarrow> ptr \<Rightarrow> ptr \<Rightarrow> ptr \<Rightarrow> 'v emit_params \<Rightarrow> ('m, 'v, 'v option) em" where
  "slice_emit_ptr e x lhs start end' ps =
     bnd (slice_emit_both e x lhs start end' ps) (\<lambda>(target, _). ret (Some target))"

definition enum_literal_constant :: "('m, 'v) emission \<Rightarrow> nat \<Rightarrow> ('m, 'v, 'v option) em" where
  "enum_literal_constant e v = constant_value (e_llvm e) (i32 v)"

subsection \<open>The three methods\<close>

definition expr_emit_ptr :: "('m, 'v) emit_method" where
  "expr_emit_ptr e x ps =
     (case ex_body x of
        SymbolExpr _ name \<Rightarrow> symbol_emit_ptr e x name
      | CallExpr callable args \<Rightarrow> call_emit e x callable args ps
      | GroupExpr inner \<Rightarrow> emit_ptr_at e inner
      | MemberAccessExpr target accessor _ is_method \<Rightarrow> member_emit_ptr e x target accessor is_method ps
      | PtrOpExpr op target \<Rightarrow> ptr_op_emit_ptr e x op target
      | IndexOpExpr lhs index \<Rightarrow> index_emit_ptr e lhs index ps
      | SliceExpr lhs start end' \<Rightarrow> slice_emit_ptr e x lhs start end' ps
      | _ \<Rightarrow> ret None)"

definition expr_emit :: "('m, 'v) emit_method" where
  "expr_emit e x ps =
     (case ex_body x of
        LiteralExpr v \<Rightarrow> literal_emit e x v
      | BinaryExpr op l r \<Rightarrow> binary_emit e x op l r
      | UnaryExpr op r \<Rightarrow> unary_emit e x op r
      | SymbolExpr _ name \<Rightarrow> symbol_emit e x name ps
      | CallExpr callable args \<Rightarrow> call_emit e x callable args ps
      | GroupExpr inner \<Rightarrow> emit_at e inner
      | SizeofExpr p \<Rightarrow> sizeof_emit e p
      | NameofExpr p \<Rightarrow> nameof_emit e x p
      | MemberAccessExpr target accessor _ is_method \<Rightarrow>
          bnd (member_emit_ptr e x target accessor is_method no_params) (load_pointer e (ex_type x))
      | TypePropExpr name \<Rightarrow> type_prop_emit e x name
      | CastExpr _ target original \<Rightarrow> cast_emit e x target original
      | NamedExpr _ value \<Rightarrow> e_emit e value ps
      | AbsExpr value \<Rightarrow> abs_emit e x value
      | PtrOpExpr op target \<Rightarrow> ptr_op_emit e x op target
      | AnonInitExpr elements \<Rightarrow> aggregate_emit e x elements ps
      | ArrayLiteralExpr elements _ \<Rightarrow> aggregate_emit e x elements ps
      | StructLiteral elements _ \<Rightarrow> aggregate_emit e x elements ps
      | IndexOpExpr lhs index \<Rightarrow> index_emit e x lhs index
      | SliceExpr lhs start end' \<Rightarrow> slice_emit e x lhs start end' ps
      | EnumLiteralExpr v \<Rightarrow> enum_literal_constant e v
      | _ \<Rightarrow> ret None)"

text \<open>The cast of \<open>Expr::emit_constant\<close> reads its operand.\<close>

definition only_constant :: "('m, 'v) emission \<Rightarrow> 'v option \<Rightarrow> ('m, 'v, 'v option) em" where
  "only_constant e v =
     bnd (nonnull v) (\<lambda>v.
     bnd (value_is (e_llvm e) IsConstant v) (\<lambda>const.
     ret (if const then Some v else None)))"

definition expr_emit_constant :: "('m, 'v) emit_method" where
  "expr_emit_constant e x ps =
     (case ex_body x of
        AnonInitExpr elements \<Rightarrow> aggregate_emit_constant e x elements
      | ArrayLiteralExpr elements _ \<Rightarrow> aggregate_emit_constant e x elements
      | StructLiteral elements _ \<Rightarrow> aggregate_emit_constant e x elements
      | EnumLiteralExpr v \<Rightarrow> enum_literal_constant e v
      | _ \<Rightarrow> bnd (expr_emit e x ps) (only_constant e))"

subsection \<open>The code of expressions leaves the tree and the stacks alone\<close>

text \<open>A member called \<open>ptr\<close> gets a type of its own, a node behind the others.\<close>

lemma base_array_member_balanced:
  "base_array_get_member s el nm = Inr (m, s') \<Longrightarrow> balanced (=) s s'"
  by (auto simp: base_array_get_member_def rbind_eq_Inr_iff pointer_set_inner_def alloc_def poke_node_def
      balanced_def grown_tree_def nth_append split: if_splits)

lemma get_member_balanced: "get_member k s p nm = Inr (m, s') \<Longrightarrow> balanced (=) s s'"
proof (induction k arbitrary: p)
  case (Suc k)
  then obtain t where t: "the_type s p = Inr t" by (auto simp: rbind_eq_Inr_iff)
  show ?case
  proof (cases t)
    case (Heap b)
    show ?thesis
      by (cases b; use Suc t Heap in \<open>auto simp: rbind_eq_Inr_iff array_get_member_def split: if_splits
        dest: base_array_member_balanced\<close>)
  qed (use Suc.prems t in auto)
qed simp

lemma keeping_get_member [keeping_intros, simp]: "keeping L R (\<lambda>s. get_member k s p nm)"
  using get_member_balanced by (fastforce simp: keeping_def balanced_def requests_in_def)

lemma keeping_expr_basic [keeping_intros, simp]:
  "keeping L R (modify (\<lambda>s. s\<lparr>em_static_strings := f s\<rparr>))" "keeping L R (modify (\<lambda>s. s\<lparr>em_named_values := g s\<rparr>))"
  by (rule keeping_same, simp)+

lemma keeping_or_else [keeping_intros]: "keeping L R m \<Longrightarrow> keeping L R err \<Longrightarrow> keeping L R (or_else m err)"
  by (auto simp: or_else_def intro!: keeping_intros)

lemma keeping_expr_steps [keeping_intros, simp]:
  "keeping L R (type_name_at p)" "keeping (e_llvm e) R (symbol_at e p)" "keeping L R (type_error t msg p)"
  "keeping L R (get_global_string L str)" "keeping (e_llvm e) R (literal_emit e x v)" "keeping (e_llvm e) R (symbol_emit_ptr e x name)"
  "keeping (e_llvm e) R (function_emit e x f ps)" "keeping (e_llvm e) R (sizeof_emit e p)" "keeping (e_llvm e) R (nameof_emit e x p)"
  "keeping (e_llvm e) R (type_prop_emit e x name)" "keeping (e_llvm e) R (call_signature e p)" "keeping (e_llvm e) R (check_argument e x q k p)"
  "keeping (e_llvm e) R (member_of e p name)" "keeping (e_llvm e) R (load_target e p w)" "keeping (e_llvm e) R (load_pointer e p w)"
  "keeping (e_llvm e) R (enum_literal_constant e k)" "keeping (e_llvm e) R (only_constant e w)"
  by (auto simp: type_name_at_def symbol_at_def type_error_def get_global_string_def literal_emit_def
      symbol_emit_ptr_def function_emit_def sizeof_emit_def nameof_emit_def type_prop_emit_def call_signature_def
      check_argument_def member_of_def load_target_def load_pointer_def enum_literal_constant_def only_constant_def
      Let_def intro!: keeping_intros split: literal_value.split)

lemma keeping_symbol_emit [keeping_intros, simp]: "keeping (e_llvm e) R (symbol_emit e x name ps)"
  by (auto simp: symbol_emit_def intro!: keeping_intros split: option.split type_obj.split type_body.split)

text \<open>The methods of other nodes, as the methods of a node need them.\<close>

locale keeping_methods =
  fixes e :: "('m, 'v) emission" and R :: "'m \<Rightarrow> 'm \<Rightarrow> bool"
  assumes emit: "keeping (e_llvm e) R (e_emit e p ps)"
    and emit_ptr: "keeping (e_llvm e) R (e_emit_ptr e p ps)"
    and emit_constant: "keeping (e_llvm e) R (e_emit_constant e p ps)"
begin

lemmas methods = emit emit_ptr emit_constant

lemma emit_at: "keeping (e_llvm e) R (emit_at e p)" and emit_ptr_at: "keeping (e_llvm e) R (emit_ptr_at e p)"
  by (simp_all add: emit_at_def emit_ptr_at_def emit emit_ptr)

lemma arguments: "keeping (e_llvm e) R (emit_arguments e x ps params k args)"
  by (induction args arbitrary: k) (auto intro!: keeping_intros methods)

lemma calls: "keeping (e_llvm e) R (call_emit e x callable args ps)"
  by (auto simp: call_emit_def emit_defaults_def emit_default_def intro!: keeping_intros methods arguments emit_at)

lemma members: "keeping (e_llvm e) R (member_emit_ptr e x target accessor is_method ps)"
  by (auto simp: member_emit_ptr_def intro!: keeping_intros methods emit_at emit_ptr_at)

lemma ptr_ops: "keeping (e_llvm e) R (ptr_op_emit_ptr e x op target)"
  by (auto simp: ptr_op_emit_ptr_def intro!: keeping_intros methods emit_ptr_at)

lemma aggregate_constants: "keeping (e_llvm e) R (aggregate_emit_constant e x elements)"
  by (auto simp: aggregate_emit_constant_def constant_element_def intro!: keeping_intros methods emit_at)

lemma aggregates: "keeping (e_llvm e) R (aggregate_emit e x elements ps)"
  by (auto simp: aggregate_emit_def emit_element_def Let_def intro!: keeping_intros methods aggregate_constants)

lemma index_ptrs: "keeping (e_llvm e) R (index_emit_ptr e lhs index ps)"
  by (auto simp: index_emit_ptr_def intro!: keeping_intros methods emit_at emit_ptr_at)

lemma slices: "keeping (e_llvm e) R (slice_emit_both e x lhs start end' ps)"
  by (auto simp: slice_emit_both_def Let_def intro!: keeping_intros methods emit_ptr_at split: type_body.split)

lemma operators: "keeping (e_llvm e) R (binary_emit e x op l r)" "keeping (e_llvm e) R (unary_emit e x c r)" "keeping (e_llvm e) R (cast_emit e x l t)"
  "keeping (e_llvm e) R (abs_emit e x l)" "keeping (e_llvm e) R (ptr_op_emit e x op l)" "keeping (e_llvm e) R (index_emit e x l r)"
  by (auto simp: binary_emit_def unary_emit_def cast_emit_def abs_emit_def ptr_op_emit_def index_emit_def Let_def
      intro!: keeping_intros methods emit_at emit_ptr_at ptr_ops)

lemma expr_emit_ptr: "keeping (e_llvm e) R (expr_emit_ptr e x ps)"
  by (auto simp: expr_emit_ptr_def slice_emit_ptr_def split: expr_body.split
      intro!: keeping_intros methods emit_ptr_at calls members ptr_ops index_ptrs slices)

lemma expr_emit: "keeping (e_llvm e) R (expr_emit e x ps)"
  by (auto simp: expr_emit_def slice_emit_def split: expr_body.split
      intro!: keeping_intros methods emit_at calls members operators aggregates slices)

lemma expr_emit_constant: "keeping (e_llvm e) R (expr_emit_constant e x ps)"
  by (auto simp: expr_emit_constant_def split: expr_body.split
      intro!: keeping_intros methods expr_emit aggregate_constants)

end

end
