(* ===== verification/Emit_Stmt.thy ===== *)
theory Emit_Stmt
  imports Emit_Expr
begin

section \<open>The code of statements and functions (\<open>stmt.cpp\<close>, \<open>type.cpp\<close>)\<close>

text \<open>
  A statement returns a value for the block it is in: a basic block to go on with, the poison
  value when all branches of a conditional have ended, or any other value (null included), which
  the block ignores. \<open>ctx.loop_bbs\<close> and \<open>ctx.if_merge_bbs\<close> are pushed and popped around the
  parts they are for.
\<close>

definition insert_block :: "('m, 'v) emission \<Rightarrow> ('m, 'v, 'v option) em" where
  "insert_block e = inspect (ll_insert_block (e_llvm e))"

definition set_insert_point :: "('m, 'v) emission \<Rightarrow> 'v option \<Rightarrow> ('m, 'v, unit) em" where
  "set_insert_point e bb = perform (ll_set_insert_point (e_llvm e) bb)"

definition new_block :: "('m, 'v) emission \<Rightarrow> string \<Rightarrow> 'v \<Rightarrow> ('m, 'v, 'v) em" where
  "new_block e name fn = obtains_value (ll_new_block (e_llvm e) name fn)"

definition terminated :: "('m, 'v) emission \<Rightarrow> 'v \<Rightarrow> ('m, 'v, bool) em" where
  "terminated e bb = inspect (\<lambda>m. ll_terminated (e_llvm e) m bb)"

definition parent_of :: "('m, 'v) emission \<Rightarrow> 'v \<Rightarrow> ('m, 'v, 'v) em" where
  "parent_of e bb = inspect (\<lambda>m. ll_parent (e_llvm e) m bb)"

text \<open>\<open>GetInsertBlock()->getParent()\<close>\<close>

definition current_fn :: "('m, 'v) emission \<Rightarrow> ('m, 'v, 'v) em" where
  "current_fn e = bnd (insert_block e) (\<lambda>bb. bnd (nonnull bb) (parent_of e))"

definition in_loop :: "'v \<times> 'v \<Rightarrow> ('m, 'v, 'a) em \<Rightarrow> ('m, 'v, 'a) em" where
  "in_loop bbs m =
     bnd (modify (\<lambda>s. s\<lparr>em_loop_bbs := bbs # em_loop_bbs s\<rparr>)) (\<lambda>_.
     bnd m (\<lambda>x.
     bnd (modify (\<lambda>s. s\<lparr>em_loop_bbs := tl (em_loop_bbs s)\<rparr>)) (\<lambda>_.
     ret x)))"

subsection \<open>Variables\<close>

definition name_value :: "string \<Rightarrow> 'v \<Rightarrow> ('m, 'v, unit) em" where
  "name_value name v = modify (\<lambda>s. s\<lparr>em_named_values := (em_named_values s)(name := Some v)\<rparr>)"

definition produce_value ::
    "('m, 'v) emission \<Rightarrow> var_decl \<Rightarrow> 'v option \<Rightarrow> 'v \<Rightarrow> ('m, 'v, 'v option) em" where
  "produce_value e v value inst =
     (case value of
        Some x \<Rightarrow> ret (Some x)
      | None \<Rightarrow>
          if vd_initializer v = Null then get_default_value (e_llvm e) (e_fuel e) (meta_ptr (vd_type v))
          else e_emit e (vd_initializer v) (to_target (Some inst)))"

definition init_const :: "('m, 'v) emission \<Rightarrow> token \<Rightarrow> var_decl \<Rightarrow> ('m, 'v, 'v option) em" where
  "init_const e t v =
     bnd (e_emit_constant e (vd_initializer v) no_params) (\<lambda>r.
     case r of
       None \<Rightarrow> throw_compile t ''initializer is not a constant value'' []
     | Some c \<Rightarrow> bnd (name_value (sy_name (vd_symbol v)) c) (\<lambda>_. ret (Some c)))"

definition init_global :: "('m, 'v) emission \<Rightarrow> token \<Rightarrow> var_decl \<Rightarrow> lltype \<Rightarrow> 'v option \<Rightarrow> ('m, 'v, 'v) em" where
  "init_global e t v lt value =
     (let L = e_llvm e in
     bnd (obtains_value (ll_global L (sy_name (vd_symbol v)) lt)) (\<lambda>global.
     bnd (perform (ll_internal L global)) (\<lambda>_.
     bnd (produce_value e v value global) (\<lambda>init.
     bnd (nonnull init) (\<lambda>init.
     bnd (value_is L IsConstant init) (\<lambda>const.
     if const then bnd (perform (ll_set_initializer L global init)) (\<lambda>_. ret global)
     else throw_compile t ''global initializer must be known at compile time'' []))))))"

text \<open>An initializer that has stored its value itself returns null.\<close>

definition init_local :: "('m, 'v) emission \<Rightarrow> var_decl \<Rightarrow> lltype \<Rightarrow> 'v option \<Rightarrow> ('m, 'v, 'v) em" where
  "init_local e v lt value =
     (let L = e_llvm e in
     bnd (create_alloca L lt (sy_name (vd_symbol v))) (\<lambda>inst.
     bnd (produce_value e v value inst) (\<lambda>x.
     bnd (case x of
            None \<Rightarrow> ret ()
          | Some x \<Rightarrow> bnd (build L (CreateStore x inst (vd_flags v AND VF_Volatile \<noteq> 0))) (\<lambda>_. ret ())) (\<lambda>_.
     ret inst))))"

definition var_init :: "('m, 'v) emission \<Rightarrow> token \<Rightarrow> var_decl \<Rightarrow> 'v option \<Rightarrow> ('m, 'v, 'v option) em" where
  "var_init e t v value =
     (if vd_flags v AND VF_Const \<noteq> 0 then init_const e t v
      else
        bnd (llvm_type (e_llvm e) (e_fuel e) (meta_ptr (vd_type v))) (\<lambda>lt.
        bnd (if vd_flags v AND VF_Global \<noteq> 0 then init_global e t v lt value else init_local e v lt value) (\<lambda>inst.
        bnd (if bit (mut_set (vd_type v)) 0 then set_metadata (e_llvm e) (Some inst) ''Const'' else ret ()) (\<lambda>_.
        bnd (name_value (sy_name (vd_symbol v)) inst) (\<lambda>_.
        ret (Some inst))))))"

subsection \<open>Assignments\<close>

definition apply_operator :: "TokenType \<Rightarrow> TokenType option" where
  "apply_operator op =
     (if op = TkPlusEqual then Some TkPlus
      else if op = TkMinusEqual then Some TkMinus
      else if op = TkStarEqual then Some TkStar
      else if op = TkSlashEqual then Some TkForwardSlash
      else None)"

definition expr_token :: "ptr \<Rightarrow> ('m, 'v, token) em" where
  "expr_token p = bnd (expr_at p) (\<lambda>x. ret (ex_token x))"

definition coerce_assigned :: "('m, 'v) emission \<Rightarrow> ptr \<Rightarrow> ptr \<Rightarrow> 'v \<Rightarrow> ('m, 'v, 'v option) em" where
  "coerce_assigned e lhs rhs v =
     bnd (expr_type lhs) (\<lambda>t.
     bnd (expr_type rhs) (\<lambda>u.
     bnd (query (\<lambda>s. can_coerce_into (e_fuel e) s t u)) (\<lambda>yes.
     if yes then op_coerce (e_llvm e) (e_fuel e) t (Some v) t else ret (Some v))))"

definition assignment_emit ::
    "('m, 'v) emission \<Rightarrow> token \<Rightarrow> ptr \<Rightarrow> ptr \<Rightarrow> TokenType \<Rightarrow> ('m, 'v, 'v option) em" where
  "assignment_emit e t lhs rhs op =
     (let L = e_llvm e in
     bnd (emit_ptr_at e lhs) (\<lambda>place.
     bnd (get_metadata L place ''Const'') (\<lambda>const.
     bnd (case place of None \<Rightarrow> ret False | Some p \<Rightarrow> value_is L IsPointer p) (\<lambda>pointer.
     if \<not> pointer \<or> const then
       bnd (symbol_at e lhs) (\<lambda>name. bnd (expr_token lhs) (\<lambda>tok. throw_compile tok ''{} is not mutable'' [name]))
     else
       bnd (e_emit e rhs (to_target place)) (\<lambda>rhs_value.
       case rhs_value of
         None \<Rightarrow> ret None
       | Some v \<Rightarrow>
           bnd (coerce_assigned e lhs rhs v) (\<lambda>rhs_value.
           if op = TkEqual then some (build2 L (\<lambda>v p. CreateStore v p False) rhs_value place)
           else
             bnd (emit_at e lhs) (\<lambda>curr_value.
             case apply_operator op of
               None \<Rightarrow> throw_compile t ''operator {} is not allowed for op apply'' [enum_name op]
             | Some op' \<Rightarrow>
                 bnd (expr_type lhs) (\<lambda>lt.
                 bnd (op_binary L (e_fuel e) lt op' curr_value rhs_value) (\<lambda>new_value.
                 bnd (if new_value = None then
                        bnd (type_name_at lt) (\<lambda>name. bnd (expr_token rhs) (\<lambda>tok.
                        throw_compile tok ''this operation is not defined for type of {}'' [name]))
                      else ret ()) (\<lambda>_.
                 some (build2 L (\<lambda>v p. CreateStore v p False) new_value place)))))))))))"

subsection \<open>Blocks\<close>

definition terminates :: "'s store_scheme \<Rightarrow> ptr \<Rightarrow> bool" where
  "terminates s p = (case as_stmt s p of Some st \<Rightarrow> is_terminator (st_body st) | None \<Rightarrow> False)"

definition token_at :: "ptr \<Rightarrow> ('m, 'v, token) em" where
  "token_at p = bnd (node_at p) (\<lambda>n. ret (node_token n))"

definition warn_unreachable :: "ptr \<Rightarrow> ptr list \<Rightarrow> ('m, 'v, unit) em" where
  "warn_unreachable p behind_it =
     (case behind_it of
        [] \<Rightarrow> ret ()
      | q # _ \<Rightarrow>
          bnd (token_at p) (\<lambda>t.
          bnd (token_at q) (\<lambda>next.
          if loc_line (tk_location t) = loc_line (tk_location next)
          then em_warn ''Misleading terminator statement. expression used on the same line as terminator.'' next
          else em_warn ''unreachable code'' next)))"

definition block_of :: "('m, 'v) emission \<Rightarrow> 'v option \<Rightarrow> 'v option \<Rightarrow> ('m, 'v, 'v option) em" where
  "block_of e bb value =
     (case value of
        None \<Rightarrow> ret bb
      | Some v \<Rightarrow> bnd (value_is (e_llvm e) IsBlock v) (\<lambda>yes. ret (if yes then Some v else bb)))"

text \<open>What stands behind the first terminator is not emitted.\<close>

fun emit_nodes :: "('m, 'v) emission \<Rightarrow> 'v option \<Rightarrow> ptr list \<Rightarrow> ('m, 'v, 'v option) em" where
  "emit_nodes e bb [] = ret bb"
| "emit_nodes e bb (p # ps) =
     bnd (emit_at e p) (\<lambda>value.
     if is_block_poison (e_llvm e) value then ret bb
     else
       bnd (block_of e bb value) (\<lambda>bb.
       bnd (set_insert_point e bb) (\<lambda>_.
       bnd (gets (\<lambda>s. terminates s p)) (\<lambda>last.
       if last then bnd (warn_unreachable p ps) (\<lambda>_. ret bb) else emit_nodes e bb ps))))"

definition block_emit :: "('m, 'v) emission \<Rightarrow> ptr list \<Rightarrow> ('m, 'v, 'v option) em" where
  "block_emit e ns = bnd (insert_block e) (\<lambda>bb. emit_nodes e bb ns)"

definition return_emit :: "('m, 'v) emission \<Rightarrow> ptr \<Rightarrow> ('m, 'v, 'v option) em" where
  "return_emit e p =
     (if p = Null then some (build (e_llvm e) CreateRetVoid)
      else bnd (emit_at e p) (\<lambda>v. some (build (e_llvm e) (CreateRet v))))"

subsection \<open>Conditionals\<close>

definition has_terminator :: "('m, 'v) emission \<Rightarrow> 'v option \<Rightarrow> ('m, 'v, bool) em" where
  "has_terminator e bb = (case bb of None \<Rightarrow> ret False | Some b \<Rightarrow> terminated e b)"

definition maybe_br :: "('m, 'v) emission \<Rightarrow> 'v \<Rightarrow> 'v \<Rightarrow> ('m, 'v, unit) em" where
  "maybe_br e this_bb next_bb =
     bnd (terminated e this_bb) (\<lambda>done.
     if done then ret ()
     else bnd (set_insert_point e (Some this_bb)) (\<lambda>_. bnd (build (e_llvm e) (CreateBr next_bb)) (\<lambda>_. ret ())))"

definition emit_else :: "('m, 'v) emission \<Rightarrow> 'v \<Rightarrow> ptr \<Rightarrow> ('m, 'v, 'v option) em" where
  "emit_else e fn else_br =
     (if else_br = Null then ret None
      else
        bnd (new_block e ''else'' fn) (\<lambda>else_bb.
        bnd (set_insert_point e (Some else_bb)) (\<lambda>_.
        bnd (emit_at e else_br) (\<lambda>_.
        ret (Some else_bb)))))"

text \<open>The branches meet in the block the last branch ended in, if it opened one, else in the block of
  the conditional around this one, else in a new block.\<close>

definition push_merge :: "('m, 'v) emission \<Rightarrow> 'v \<Rightarrow> 'v \<Rightarrow> ('m, 'v, 'v \<times> bool) em" where
  "push_merge e fn then_bb =
     bnd (insert_block e) (\<lambda>bb.
     if bb \<noteq> Some then_bb then bnd (nonnull bb) (\<lambda>bb. ret (bb, False))
     else
       bnd (gets em_if_merge_bbs) (\<lambda>merges.
       case merges of
         m # _ \<Rightarrow> ret (m, False)
       | [] \<Rightarrow>
           bnd (new_block e ''merge'' fn) (\<lambda>m.
           bnd (modify (\<lambda>s. s\<lparr>em_if_merge_bbs := m # em_if_merge_bbs s\<rparr>)) (\<lambda>_.
           ret (m, True)))))"

definition pop_merge :: "bool \<Rightarrow> ('m, 'v, unit) em" where
  "pop_merge pop_bb = (if pop_bb then modify (\<lambda>s. s\<lparr>em_if_merge_bbs := tl (em_if_merge_bbs s)\<rparr>) else ret ())"

definition join_branches :: "('m, 'v) emission \<Rightarrow> 'v option \<Rightarrow> 'v \<Rightarrow> 'v \<Rightarrow> 'v option \<Rightarrow> 'v \<Rightarrow> ('m, 'v, unit) em" where
  "join_branches e condition start_bb then_bb else_bb merge_bb =
     bnd (set_insert_point e (Some start_bb)) (\<lambda>_.
     bnd (build1 (e_llvm e) (\<lambda>c. CreateCondBr c then_bb (case else_bb of None \<Rightarrow> merge_bb | Some b \<Rightarrow> b)) condition) (\<lambda>_.
     bnd (maybe_br e then_bb merge_bb) (\<lambda>_.
     bnd (case else_bb of None \<Rightarrow> ret () | Some b \<Rightarrow> maybe_br e b merge_bb) (\<lambda>_.
     set_insert_point e (Some merge_bb)))))"

definition finish_if ::
    "('m, 'v) emission \<Rightarrow> 'v option \<Rightarrow> 'v \<Rightarrow> 'v \<Rightarrow> 'v \<Rightarrow> ptr \<Rightarrow> ('m, 'v, 'v option) em" where
  "finish_if e condition_value start_bb fn then_bb else_br =
     bnd (emit_else e fn else_br) (\<lambda>else_bb.
     bnd (has_terminator e else_bb) (\<lambda>else_ends.
     bnd (has_terminator e (Some then_bb)) (\<lambda>then_ends.
     case (else_ends \<and> then_ends, else_bb) of
       (True, Some b) \<Rightarrow>
         bnd (set_insert_point e (Some start_bb)) (\<lambda>_.
         bnd (build1 (e_llvm e) (\<lambda>c. CreateCondBr c then_bb b) condition_value) (\<lambda>_.
         ret (Some (get_block_poison (e_llvm e)))))
     | _ \<Rightarrow>
         bnd (push_merge e fn then_bb) (\<lambda>(merge_bb, pop_bb).
         bnd (join_branches e condition_value start_bb then_bb else_bb merge_bb) (\<lambda>_.
         bnd (pop_merge pop_bb) (\<lambda>_.
         ret (Some merge_bb)))))))"

definition if_emit :: "('m, 'v) emission \<Rightarrow> ptr \<Rightarrow> ptr \<Rightarrow> ptr \<Rightarrow> ('m, 'v, 'v option) em" where
  "if_emit e condition body else_br =
     bnd (emit_at e condition) (\<lambda>condition_value.
     bnd (insert_block e) (\<lambda>bb.
     bnd (nonnull bb) (\<lambda>start_bb.
     bnd (parent_of e start_bb) (\<lambda>fn.
     bnd (new_block e ''then'' fn) (\<lambda>then_bb.
     bnd (set_insert_point e (Some then_bb)) (\<lambda>_.
     bnd (emit_at e body) (\<lambda>_.
     finish_if e condition_value start_bb fn then_bb else_br)))))))"

text \<open>The condition of \<open>$if\<close> must be a constant: anything else is false.\<close>

definition comp_if_emit :: "('m, 'v) emission \<Rightarrow> ptr \<Rightarrow> ('m, 'v, 'v option) em" where
  "comp_if_emit e p =
     bnd (query (\<lambda>s. case as_stmt s p of
            Some st \<Rightarrow> (case st_body st of IfStmt c b x \<Rightarrow> Inr (c, b, x) | _ \<Rightarrow> null_pointer)
          | None \<Rightarrow> null_pointer)) (\<lambda>(condition, body, else_br).
     bnd (emit_at e condition) (\<lambda>v.
     bnd (nonnull v) (\<lambda>v.
     bnd (inspect (\<lambda>m. ll_is (e_llvm e) m IsConstantInt v \<and> ll_is_one (e_llvm e) m v)) (\<lambda>holds.
     if holds then emit_at e body
     else if else_br \<noteq> Null then emit_at e else_br
     else ret None))))"

subsection \<open>Loops\<close>

definition while_emit :: "('m, 'v) emission \<Rightarrow> ptr \<Rightarrow> ptr \<Rightarrow> ('m, 'v, 'v option) em" where
  "while_emit e condition body =
     bnd (current_fn e) (\<lambda>fn.
     bnd (new_block e ''before'' fn) (\<lambda>before_bb.
     bnd (build (e_llvm e) (CreateBr before_bb)) (\<lambda>_.
     bnd (set_insert_point e (Some before_bb)) (\<lambda>_.
     bnd (emit_at e condition) (\<lambda>condition_value.
     bnd (new_block e ''then'' fn) (\<lambda>then_bb.
     bnd (new_block e ''merge'' fn) (\<lambda>merge_bb.
     bnd (build1 (e_llvm e) (\<lambda>c. CreateCondBr c then_bb merge_bb) condition_value) (\<lambda>_.
     bnd (set_insert_point e (Some then_bb)) (\<lambda>_.
     bnd (in_loop (merge_bb, before_bb) (
       bnd (emit_at e body) (\<lambda>_.
       bnd (insert_block e) (\<lambda>bb.
       bnd (create_safe_br (e_llvm e) bb before_bb) (\<lambda>_.
       set_insert_point e (Some merge_bb)))))) (\<lambda>_.
     ret (Some merge_bb)))))))))))"

definition add_binding :: "ptr \<Rightarrow> node \<Rightarrow> node" where
  "add_binding q n =
     (case n of
        NStmt st \<Rightarrow>
          (case st_body st of
             ForStmt bs i b \<Rightarrow> NStmt (st\<lparr>st_body := ForStmt (bs @ [q]) i b\<rparr>) | _ \<Rightarrow> n)
      | _ \<Rightarrow> n)"

definition index_binding :: node where
  "index_binding = new_stmt (VarDeclStmt (empty_var_decl
     \<lparr>vd_symbol := named_symbol ''index'', vd_flags := VF_NoDiagnostics, vd_type := meta_of (Static U32_TYPE)\<rparr>))"

text \<open>The variables of the loop: the bindings of the iterated type and the index. A loop without one
  is given an index, which stays in the tree.\<close>

definition loop_bindings :: "('m, 'v) emission \<Rightarrow> ptr \<Rightarrow> ptr list \<Rightarrow> ptr \<Rightarrow> ('m, 'v, ptr list) em" where
  "loop_bindings e p bindings iterable =
     bnd (expr_type iterable) (\<lambda>t.
     bnd (query (\<lambda>s. get_iter_bindings (e_fuel e) s t)) (\<lambda>iter_bindings.
     if length bindings = length iter_bindings + 1 then ret bindings
     else
       bnd (\<lambda>s. Inr (alloc index_binding s)) (\<lambda>q.
       bnd (modify (poke_node p (add_binding q))) (\<lambda>_.
       ret (bindings @ [q])))))"

definition step_index :: "('m, 'v) emission \<Rightarrow> ptr \<Rightarrow> 'v option \<Rightarrow> ('m, 'v, unit) em" where
  "step_index e binding index_ptr =
     bnd (param_type binding) (\<lambda>t.
     bnd (llvm_type (e_llvm e) (e_fuel e) t) (\<lambda>lt.
     bnd (build1 (e_llvm e) (\<lambda>p. CreateLoad lt p ''index_value'') index_ptr) (\<lambda>v.
     bnd (increment (e_llvm e) v) (\<lambda>inc.
     bnd (build1 (e_llvm e) (\<lambda>p. CreateStore inc p False) index_ptr) (\<lambda>_. ret ())))))"

text \<open>The branch to the update follows the body also when the body has ended in a jump.\<close>

definition for_loop ::
    "('m, 'v) emission \<Rightarrow> ptr \<Rightarrow> ptr \<Rightarrow> ptr list \<Rightarrow> 'v option list \<Rightarrow> 'v \<Rightarrow> 'v \<Rightarrow> 'v \<Rightarrow> 'v \<Rightarrow> ('m, 'v, 'v) em" where
  "for_loop e iterable body bindings vars preloop_bb body_bb update_bb merge_bb =
     (let L = e_llvm e in
     bnd (expr_type iterable) (\<lambda>t.
     bnd (iter_emit_init e t iterable vars) (\<lambda>_.
     bnd (build L (CreateBr preloop_bb)) (\<lambda>_.
     bnd (set_insert_point e (Some preloop_bb)) (\<lambda>_.
     bnd (iter_emit_condition e t iterable vars) (\<lambda>cond.
     bnd (build1 L (\<lambda>c. CreateCondBr c body_bb merge_bb) cond) (\<lambda>_.
     bnd (set_insert_point e (Some body_bb)) (\<lambda>_.
     bnd (emit_at e body) (\<lambda>_.
     bnd (build L (CreateBr update_bb)) (\<lambda>_.
     bnd (set_insert_point e (Some update_bb)) (\<lambda>_.
     bnd (step_index e (last bindings) (last vars)) (\<lambda>_.
     bnd (iter_emit_update e t iterable vars) (\<lambda>_.
     build L (CreateBr preloop_bb))))))))))))))"

definition for_emit :: "('m, 'v) emission \<Rightarrow> ptr \<Rightarrow> ptr list \<Rightarrow> ptr \<Rightarrow> ptr \<Rightarrow> ('m, 'v, 'v option) em" where
  "for_emit e p bindings iterable body =
     bnd (loop_bindings e p bindings iterable) (\<lambda>bindings.
     bnd (traverse (emit_at e) bindings) (\<lambda>vars.
     bnd (current_fn e) (\<lambda>fn.
     bnd (new_block e ''preloop'' fn) (\<lambda>preloop_bb.
     bnd (new_block e ''body'' fn) (\<lambda>body_bb.
     bnd (new_block e ''update'' fn) (\<lambda>update_bb.
     bnd (new_block e ''merge'' fn) (\<lambda>merge_bb.
     bnd (in_loop (merge_bb, update_bb)
       (for_loop e iterable body bindings vars preloop_bb body_bb update_bb merge_bb)) (\<lambda>_.
     ret (Some merge_bb)))))))))"

text \<open>\<open>ctx.loop_bbs.back()\<close> is read before the test that the vector is not empty.\<close>

definition current_loop :: "('m, 'v, 'v \<times> 'v) em" where
  "current_loop = query (\<lambda>s. case em_loop_bbs s of [] \<Rightarrow> Inl (Undefined ''back of an empty vector'') | bbs # _ \<Rightarrow> Inr bbs)"

definition do_break_continue :: "('m, 'v) emission \<Rightarrow> token \<Rightarrow> 'v \<Rightarrow> string \<Rightarrow> ('m, 'v, 'v option) em" where
  "do_break_continue e t bb what =
     bnd (gets em_loop_bbs) (\<lambda>bbs.
     if bbs = [] then throw_compile t ''cannot {} outside of a loop'' [what]
     else some (build (e_llvm e) (CreateBr bb)))"

definition break_emit :: "('m, 'v) emission \<Rightarrow> token \<Rightarrow> ('m, 'v, 'v option) em" where
  "break_emit e t = bnd current_loop (\<lambda>(merge, _). do_break_continue e t merge ''break'')"

definition continue_emit :: "('m, 'v) emission \<Rightarrow> token \<Rightarrow> ('m, 'v, 'v option) em" where
  "continue_emit e t = bnd current_loop (\<lambda>(_, start). do_break_continue e t start ''continue'')"

definition impl_emit :: "('m, 'v) emission \<Rightarrow> ptr list \<Rightarrow> 'v emit_params \<Rightarrow> ('m, 'v, 'v option) em" where
  "impl_emit e methods ps = bnd (traverse (\<lambda>m. e_emit e m ps) methods) (\<lambda>_. ret None)"

definition stmt_emit :: "('m, 'v) emission \<Rightarrow> ptr \<Rightarrow> stmt_node \<Rightarrow> 'v emit_params \<Rightarrow> ('m, 'v, 'v option) em" where
  "stmt_emit e p st ps =
     (case st_body st of
        VarDeclStmt v \<Rightarrow> var_init e (st_token st) v None
      | AssignmentStmt lhs rhs op \<Rightarrow> assignment_emit e (st_token st) lhs rhs op
      | BlockStmt ns \<Rightarrow> block_emit e ns
      | ReturnStmt x \<Rightarrow> return_emit e x
      | BreakStmt \<Rightarrow> break_emit e (st_token st)
      | ContinueStmt \<Rightarrow> continue_emit e (st_token st)
      | IfStmt c b x \<Rightarrow> if_emit e c b x
      | CompIfStmt i \<Rightarrow> comp_if_emit e i
      | WhileStmt c b \<Rightarrow> while_emit e c b
      | ForStmt bs i b \<Rightarrow> for_emit e p bs i b
      | ImplStmt _ _ ms \<Rightarrow> impl_emit e ms ps
      | _ \<Rightarrow> ret None)"

subsection \<open>Functions\<close>

definition for_params ::
    "(ptr \<Rightarrow> 'v \<Rightarrow> ('m, 'v, unit) em) \<Rightarrow> ptr list \<Rightarrow> 'v list \<Rightarrow> ('m, 'v, unit) em" where
  "for_params f params args =
     (if length params < length args then fail (Undefined ''vector out of range'')
      else bnd (traverse (\<lambda>(p, a). f p a) (zip params args)) (\<lambda>_. ret ()))"

definition name_param :: "('m, 'v) emission \<Rightarrow> ptr \<Rightarrow> 'v \<Rightarrow> ('m, 'v, unit) em" where
  "name_param e p a = bnd (var_at p) (\<lambda>v. perform (ll_set_name (e_llvm e) a (sy_name (vd_symbol v))))"

definition init_param :: "('m, 'v) emission \<Rightarrow> ptr \<Rightarrow> 'v \<Rightarrow> ('m, 'v, unit) em" where
  "init_param e p a =
     bnd (var_at p) (\<lambda>v. bnd (token_at p) (\<lambda>t. bnd (var_init e t v (Some a)) (\<lambda>_. ret ())))"

definition returns_void :: "('m, 'v) emission \<Rightarrow> fn_type \<Rightarrow> ('m, 'v, bool) em" where
  "returns_void e f = query (\<lambda>s. is_equal (e_fuel e) s (meta_ptr (fs_return_type (fn_sig f))) (Static VOID_TYPE))"

definition body_nodes :: "ptr \<Rightarrow> ('m, 'v, ptr list) em" where
  "body_nodes p = query (\<lambda>s. case as_stmt s p of
     Some st \<Rightarrow> (case st_body st of BlockStmt ns \<Rightarrow> Inr ns | _ \<Rightarrow> null_pointer) | None \<Rightarrow> null_pointer)"

definition fn_body_emit :: "('m, 'v) emission \<Rightarrow> fn_type \<Rightarrow> 'v \<Rightarrow> ('m, 'v, unit) em" where
  "fn_body_emit e f fn =
     (let L = e_llvm e in
     bnd (new_block e ''entry'' fn) (\<lambda>bb.
     bnd (set_insert_point e (Some bb)) (\<lambda>_.
     bnd (inspect (\<lambda>m. ll_arguments L m fn)) (\<lambda>args.
     bnd (for_params (init_param e) (fs_parameters (fn_sig f)) args) (\<lambda>_.
     bnd (returns_void e f) (\<lambda>void.
     if fn_flags f AND FF_ArrowFn \<noteq> 0 \<and> \<not> void then
       bnd (body_nodes (fn_body f)) (\<lambda>ns.
       case ns of
         [] \<Rightarrow> fail (Undefined ''front of an empty vector'')
       | p # _ \<Rightarrow> bnd (emit_at e p) (\<lambda>v. bnd (build L (CreateRet v)) (\<lambda>_. ret ())))
     else
       bnd (emit_at e (fn_body f)) (\<lambda>_.
       if void then
         bnd (insert_block e) (\<lambda>bb.
         bnd (nonnull bb) (\<lambda>bb.
         bnd (terminated e bb) (\<lambda>done.
         if done then ret () else bnd (create_safe_void_ret L) (\<lambda>_. ret ()))))
       else ret ())))))))"

text \<open>A function that LLVM finds wrong is erased, and the report is the error.\<close>

definition reject_fn :: "('m, 'v) emission \<Rightarrow> token \<Rightarrow> 'v \<Rightarrow> string \<Rightarrow> ('m, 'v, 'v option) em" where
  "reject_fn e t fn report = bnd (perform (ll_erase (e_llvm e) fn)) (\<lambda>_. fail (Compile t report))"

definition fn_emit :: "('m, 'v) emission \<Rightarrow> token \<Rightarrow> fn_type \<Rightarrow> ('m, 'v, 'v option) em" where
  "fn_emit e t f =
     (let L = e_llvm e in
     bnd (sig_emit L (e_fuel e) (get_fn_name f) (fn_flags f) (fn_sig f)) (\<lambda>fn.
     bnd (inspect (\<lambda>m. ll_arguments L m fn)) (\<lambda>args.
     bnd (for_params (name_param e) (fs_parameters (fn_sig f)) args) (\<lambda>_.
     bnd (insert_block e) (\<lambda>original_bb.
     bnd (if fn_flags f AND FF_Extern = 0 then fn_body_emit e f fn else ret ()) (\<lambda>_.
     bnd (set_insert_point e original_bb) (\<lambda>_.
     bnd (inspect (\<lambda>m. ll_verify L m fn)) (\<lambda>report.
     case report of
       None \<Rightarrow> ret (Some fn)
     | Some text \<Rightarrow> reject_fn e t fn text))))))))"

text \<open>An alias emits its type; the types that exist once emit nothing.\<close>

definition type_emit :: "('m, 'v) emission \<Rightarrow> type_node \<Rightarrow> 'v emit_params \<Rightarrow> ('m, 'v, 'v option) em" where
  "type_emit e t ps =
     (case ty_body t of
        FnType f \<Rightarrow> fn_emit e (ty_token t) f
      | AliasType al \<Rightarrow> e_emit e (meta_ptr (al_type al)) ps
      | _ \<Rightarrow> ret None)"

definition node_emit :: "('m, 'v) emission \<Rightarrow> ptr \<Rightarrow> 'v emit_params \<Rightarrow> ('m, 'v, 'v option) em" where
  "node_emit e p ps =
     (case p of
        Static _ \<Rightarrow> ret None
      | _ \<Rightarrow>
          bnd (node_at p) (\<lambda>n.
          case n of
            NExpr x \<Rightarrow> expr_emit e x ps
          | NStmt st \<Rightarrow> stmt_emit e p st ps
          | NType t \<Rightarrow> type_emit e t ps
          | NFnCollection _ _ \<Rightarrow> ret None))"

subsection \<open>The knot\<close>

text \<open>\<open>emitting L k g n\<close>: methods that may call each other \<open>n\<close> levels deep.\<close>

primrec emitting :: "('m, 'v) llvm \<Rightarrow> nat \<Rightarrow> (string \<Rightarrow> 64 word option) \<Rightarrow> nat \<Rightarrow> ('m, 'v) emission" where
  "emitting L k g 0 =
     \<lparr>e_llvm = L, e_fuel = k, e_float_to_int = g, e_emit = (\<lambda>p ps. fail OutOfFuel),
      e_emit_ptr = (\<lambda>p ps. fail OutOfFuel), e_emit_constant = (\<lambda>p ps. fail OutOfFuel)\<rparr>"
| "emitting L k g (Suc n) =
     \<lparr>e_llvm = L, e_fuel = k, e_float_to_int = g, e_emit = node_emit (emitting L k g n),
      e_emit_ptr = (\<lambda>p ps. bnd (expr_at p) (\<lambda>x. expr_emit_ptr (emitting L k g n) x ps)),
      e_emit_constant = (\<lambda>p ps. bnd (expr_at p) (\<lambda>x. expr_emit_constant (emitting L k g n) x ps))\<rparr>"

lemma emitting_simps [simp]:
  "e_llvm (emitting L k g n) = L" "e_fuel (emitting L k g n) = k" "e_float_to_int (emitting L k g n) = g"
  by (cases n; simp)+

subsection \<open>The nodes of a module (\<open>module_manager.cpp\<close>, \<open>module.cpp\<close>)\<close>

text \<open>\<open>make_ctx\<close>: no names, no loops. The type of the poison value is the same in all modules.\<close>

definition make_ctx :: "('m, 'v) llvm \<Rightarrow> string \<Rightarrow> ('m, 'v, unit) em" where
  "make_ctx L name = modify (\<lambda>s. s\<lparr>em_llvm := ll_make_ctx L name (em_llvm s), em_named_values := (\<lambda>_. None),
     em_loop_bbs := [], em_if_merge_bbs := []\<rparr>)"

definition emit_all :: "('m, 'v) emission \<Rightarrow> string \<Rightarrow> ptr list \<Rightarrow> ('m, 'v, unit) em" where
  "emit_all e name ns = bnd (make_ctx (e_llvm e) name) (\<lambda>_. bnd (traverse (emit_at e) ns) (\<lambda>_. ret ()))"

end
