(* ===== verification/Emission.thy ===== *)
theory Emission
  imports Emit_Stmt
begin

section \<open>What the emission of code leaves as it was\<close>

subsection \<open>Statements\<close>

lemma keeping_stmt_steps [keeping_intros, simp]:
  "keeping (e_llvm e) R (insert_block e)" "keeping (e_llvm e) R (set_insert_point e bb)" "keeping (e_llvm e) R (new_block e name v)"
  "keeping (e_llvm e) R (terminated e v)" "keeping (e_llvm e) R (parent_of e v)" "keeping (e_llvm e) R (current_fn e)" "keeping L R (expr_token p)"
  "keeping L R (token_at p)" "keeping (e_llvm e) R (has_terminator e bb)" "keeping (e_llvm e) R (maybe_br e v w)" "keeping (e_llvm e) R (block_of e bb x)"
  "keeping L R (body_nodes p)" "keeping (e_llvm e) R (returns_void e f)" "keeping L R (current_loop)"
  by (auto simp: insert_block_def set_insert_point_def new_block_def terminated_def parent_of_def current_fn_def
      expr_token_def token_at_def has_terminator_def maybe_br_def block_of_def body_nodes_def returns_void_def
      current_loop_def intro!: keeping_intros)

lemma keeping_name_value [keeping_intros, simp]: "keeping L R (name_value name v)"
  by (simp add: name_value_def)

lemma keeping_more_steps [keeping_intros, simp]:
  "keeping L R (warn_unreachable p ps)" "keeping (e_llvm e) R (do_break_continue e t v what)" "keeping (e_llvm e) R (break_emit e t)"
  "keeping (e_llvm e) R (continue_emit e t)" "keeping (e_llvm e) R (coerce_assigned e l r v)" "keeping (e_llvm e) R (step_index e b x)"
  "keeping (e_llvm e) R (join_branches e x v w y u)" "keeping (e_llvm e) R (name_param e p v)"
  by (auto simp: warn_unreachable_def do_break_continue_def break_emit_def continue_emit_def coerce_assigned_def
      step_index_def increment_def join_branches_def name_param_def intro!: keeping_intros split: list.split)

lemma keeping_reject [keeping_intros, simp]: "keeping L R (reject_fn e t v report)"
  by (simp add: reject_fn_def)

text \<open>Pushing and popping around a part that keeps the stacks keeps them.\<close>

lemma keeping_in_loop [keeping_intros]: "keeping L R m \<Longrightarrow> keeping L R (in_loop bbs m)"
  by (rule keepingI) (auto simp: in_loop_def balanced_def dest!: keepingD)

lemma push_merge_cases:
  assumes "push_merge e fn v s = Inr ((m, pop_bb), s1)" and "requests_in (e_llvm e) R"
  shows "balanced R s (if pop_bb then s1\<lparr>em_if_merge_bbs := tl (em_if_merge_bbs s1)\<rparr> else s1)"
    and "pop_bb \<Longrightarrow> em_if_merge_bbs s1 = m # em_if_merge_bbs s"
proof -
  have "R t (snd (ll_new_block (e_llvm e) name w t))" "R t t" for name w t
    using assms(2) by (simp_all add: requests_in_def)
  then show "balanced R s (if pop_bb then s1\<lparr>em_if_merge_bbs := tl (em_if_merge_bbs s1)\<rparr> else s1)"
    and "pop_bb \<Longrightarrow> em_if_merge_bbs s1 = m # em_if_merge_bbs s"
    using assms(1) by (auto simp: push_merge_def insert_block_def inspect_def nonnull_def new_block_def
        obtains_value_def balanced_def bnd_def split: if_splits option.splits list.splits prod.splits) (metis snd_conv)+
qed

lemma keeping_merge:
  assumes "\<And>m. keeping (e_llvm e) R (f m)"
  shows "keeping (e_llvm e) R
    (bnd (push_merge e fn v) (\<lambda>(m, pop_bb). bnd (f m) (\<lambda>_. bnd (pop_merge pop_bb) (\<lambda>_. ret (g m)))))"
proof (rule keepingI)
  fix s x s'
  assume r: "requests_in (e_llvm e) R"
    and "bnd (push_merge e fn v) (\<lambda>(m, pop_bb). bnd (f m) (\<lambda>_. bnd (pop_merge pop_bb) (\<lambda>_. ret (g m)))) s = Inr (x, s')"
  then obtain m pop_bb s1 y s2 where 1: "push_merge e fn v s = Inr ((m, pop_bb), s1)"
    and 2: "f m s1 = Inr (y, s2)" and 3: "pop_merge pop_bb s2 = Inr ((), s')"
    by (auto split: prod.splits)
  have "balanced R s1 s2" using assms r 2 by (rule keepingD)
  moreover have "s' = (if pop_bb then s2\<lparr>em_if_merge_bbs := tl (em_if_merge_bbs s2)\<rparr> else s2)"
    using 3 by (auto simp: pop_merge_def split: if_splits)
  ultimately have "balanced R (if pop_bb then s1\<lparr>em_if_merge_bbs := tl (em_if_merge_bbs s1)\<rparr> else s1) s'"
    using push_merge_cases(2) [OF 1 r] by (auto simp: balanced_def)
  then show "balanced R s s'" using push_merge_cases(1) [OF 1 r] balanced_trans [OF r] by blast
qed

text \<open>The only change to an old node: an index for a loop.\<close>

lemma grown_add_binding: "grown_node n (add_binding q n)"
proof (cases n)
  case (NStmt st)
  then show ?thesis
    by (cases st) (auto simp: add_binding_def intro: grown_node.intros split: stmt_body.split)
qed (auto simp: add_binding_def)

lemma keeping_loop_bindings [keeping_intros, simp]: "keeping L R (loop_bindings e p bs i)"
proof -
  have "keeping L R (modify (poke_node p (add_binding q)))" for q
    by (rule keepingI) (auto simp: poke_node_def balanced_def grown_tree_def nth_list_update grown_add_binding
        requests_in_def grown_node.same split: ptr.splits if_splits)
  moreover have "keeping L R (\<lambda>s. Inr (alloc n s))" for n
    by (rule keepingI) (auto simp: alloc_def balanced_def requests_in_def)
  ultimately show ?thesis by (auto simp: loop_bindings_def intro!: keeping_intros)
qed

context keeping_methods
begin

lemma variables: "keeping (e_llvm e) R (var_init e t v x)"
  by (auto simp: var_init_def init_const_def init_global_def init_local_def produce_value_def Let_def
      intro!: keeping_intros methods)

lemma assignments: "keeping (e_llvm e) R (assignment_emit e t lhs rhs op)"
  by (auto simp: assignment_emit_def Let_def intro!: keeping_intros methods emit_at emit_ptr_at)

lemma blocks: "keeping (e_llvm e) R (block_emit e ns)"
proof -
  have "keeping (e_llvm e) R (emit_nodes e bb ns)" for bb
    by (induction ns arbitrary: bb) (auto intro!: keeping_intros methods emit_at)
  then show ?thesis by (auto simp: block_emit_def intro!: keeping_intros methods)
qed

lemma conditionals: "keeping (e_llvm e) R (if_emit e c b x)" "keeping (e_llvm e) R (comp_if_emit e i)"
  by (auto simp: if_emit_def finish_if_def emit_else_def comp_if_emit_def intro!: keeping_intros methods emit_at keeping_merge)

lemma loops: "keeping (e_llvm e) R (while_emit e c b)" "keeping (e_llvm e) R (for_emit e p bs i b)"
proof -
  show "keeping (e_llvm e) R (while_emit e c b)"
    by (auto simp: while_emit_def intro!: keeping_intros methods emit_at)
  have "keeping (e_llvm e) R (for_loop e i b bs vars w x y z)" for bs vars w x y z
    by (auto simp: for_loop_def Let_def intro!: keeping_intros methods emit_at keeping_iter)
  then show "keeping (e_llvm e) R (for_emit e p bs i b)"
    by (auto simp: for_emit_def intro!: keeping_intros methods emit_at)
qed

lemma statements: "keeping (e_llvm e) R (stmt_emit e p st ps)"
  by (auto simp: stmt_emit_def return_emit_def impl_emit_def split: stmt_body.split
      intro!: keeping_intros methods emit_at variables assignments blocks conditionals loops)

lemma function_emission: "keeping (e_llvm e) R (fn_emit e t f)"
  by (auto simp: fn_emit_def fn_body_emit_def for_params_def init_param_def Let_def
      intro!: keeping_intros methods emit_at variables split: prod.split list.split)

lemma all_nodes: "keeping (e_llvm e) R (node_emit e p ps)"
  by (auto simp: node_emit_def type_emit_def split: ptr.split node.split
      intro!: keeping_intros methods expr_emit statements function_emission)

end

text \<open>The methods of the model, at every depth.\<close>

lemma keeping_emitting: "keeping_methods (emitting L k g n) R"
proof (induction n)
  case 0
  show ?case by unfold_locales simp_all
next
  case (Suc n)
  note methods = keeping_methods.all_nodes [OF Suc] keeping_methods.expr_emit_ptr [OF Suc]
    keeping_methods.expr_emit_constant [OF Suc]
  show ?case by unfold_locales (use methods in \<open>auto intro!: keeping_intros\<close>)
qed

interpretation emission: keeping_methods "emitting L k g n" R for L :: "('m, 'v) llvm" and k g n R
  by (rule keeping_emitting)

end
