(* ===== verification/Ir_Code.thy ===== *)
theory Ir_Code
  imports Emission "HOL-Library.Sublist"
begin

section \<open>Listings of emitted code and a machine that runs them\<close>

text \<open>
  What LLVM's documentation says of the builder, as far as integers and control flow are concerned, and
  of the instructions. A listing reads the state of LLVM: the instructions of a block with
  their values, the values that exist, the widths and values of integer constants.
\<close>

type_synonym 'v block_code = "('v \<times> 'v instr) list"

type_synonym 'v numbers = "'v \<Rightarrow> (nat \<times> int) option"

record ('m, 'v) listing =
  code :: "'m \<Rightarrow> 'v \<Rightarrow> 'v block_code"
  known :: "'m \<Rightarrow> 'v \<Rightarrow> bool"
  number :: "'v numbers"

fun is_jump :: "'v instr \<Rightarrow> bool" where
  "is_jump (CreateBr b) = True"
| "is_jump (CreateCondBr c t f) = True"
| "is_jump (CreateRet v) = True"
| "is_jump CreateRetVoid = True"
| "is_jump _ = False"

text \<open>The classes and the metadata of the values that exist stay.\<close>

definition unchanged :: "('m, 'v) llvm \<Rightarrow> ('m, 'v) listing \<Rightarrow> 'm \<Rightarrow> 'm \<Rightarrow> bool" where
  "unchanged L V m m' \<longleftrightarrow> (\<forall>u. known V m u \<longrightarrow>
     known V m' u \<and> (\<forall>c. ll_is L m' c u = ll_is L m c u) \<and> (\<forall>k. ll_metadata L m' u k = ll_metadata L m u k))"

subsection \<open>The machine\<close>

text \<open>
  The instructions as LLVM's language reference describes them, on integers of \<open>n\<close> bits given by
  their residues. A number that is compared with a sign is read in two's complement.
\<close>

definition signed_value :: "nat \<Rightarrow> int \<Rightarrow> int" where
  "signed_value n x = (if 2 * x < 2 ^ n then x else x - 2 ^ n)"

fun binop_value :: "binop \<Rightarrow> nat \<Rightarrow> int \<Rightarrow> int \<Rightarrow> (nat \<times> int) option" where
  "binop_value AddOp n x y = Some (n, (x + y) mod 2 ^ n)"
| "binop_value SubOp n x y = Some (n, (x - y) mod 2 ^ n)"
| "binop_value MulOp n x y = Some (n, (x * y) mod 2 ^ n)"
| "binop_value ICmpEQ n x y = Some (1, of_bool (x = y))"
| "binop_value ICmpNE n x y = Some (1, of_bool (x \<noteq> y))"
| "binop_value ICmpULT n x y = Some (1, of_bool (x < y))"
| "binop_value ICmpSLT n x y = Some (1, of_bool (signed_value n x < signed_value n y))"
| "binop_value ICmpSLE n x y = Some (1, of_bool (signed_value n x \<le> signed_value n y))"
| "binop_value ICmpSGT n x y = Some (1, of_bool (signed_value n x > signed_value n y))"
| "binop_value ICmpSGE n x y = Some (1, of_bool (signed_value n x \<ge> signed_value n y))"
| "binop_value LogicalAndOp n x y = Some (1, of_bool (x = 1 \<and> y = 1))"
| "binop_value LogicalOrOp n x y = Some (1, of_bool (x = 1 \<or> y = 1))"
| "binop_value _ n x y = None"

definition cast_value :: "bool \<Rightarrow> nat \<Rightarrow> nat \<times> int \<Rightarrow> nat \<times> int" where
  "cast_value is_signed k a = (case a of (n, x) \<Rightarrow>
     (k, (if n < k \<and> is_signed then signed_value n x else x) mod 2 ^ k))"

fun compute :: "'v numbers \<Rightarrow> 'v numbers \<Rightarrow> 'v instr \<Rightarrow> (nat \<times> int) option" where
  "compute rd mem (CreateBinary op a b) =
     (case (rd a, rd b) of
        (Some (n, x), Some (k, y)) \<Rightarrow> if n = k then binop_value op n x y else None
      | _ \<Rightarrow> None)"
| "compute rd mem (CreateUnary NegOp a) = map_option (\<lambda>(n, x). (n, - x mod 2 ^ n)) (rd a)"
| "compute rd mem (CreateUnary NotOp a) = map_option (\<lambda>(n, x). (n, (- x - 1) mod 2 ^ n)) (rd a)"
| "compute rd mem (CreateCast a sg (IntT k) tg) = map_option (cast_value sg k) (rd a)"
| "compute rd mem (CreateLoad (IntT k) p name) =
     (case mem p of Some (n, x) \<Rightarrow> if n = k then Some (n, x) else None | None \<Rightarrow> None)"
| "compute rd mem _ = None"

text \<open>The machine has the rest of its block, its registers and the integers in memory. Values that are
  not constants are registers.\<close>

type_synonym 'v machine = "'v block_code \<times> 'v numbers \<times> 'v numbers"

definition value_of :: "'v numbers \<Rightarrow> 'v numbers \<Rightarrow> 'v numbers" where
  "value_of num regs u = (case num u of Some x \<Rightarrow> Some x | None \<Rightarrow> regs u)"

definition instr_step ::
    "'v numbers \<Rightarrow> ('v \<Rightarrow> 'v block_code) \<Rightarrow> 'v \<times> 'v instr \<Rightarrow> 'v machine \<Rightarrow> 'v machine option" where
  "instr_step num C vi st = (case (vi, st) of ((v, i), (c, regs, mem)) \<Rightarrow>
     (case i of
        CreateBr b \<Rightarrow> Some (C b, regs, mem)
      | CreateCondBr x t f \<Rightarrow>
          (case value_of num regs x of
             Some (n, b) \<Rightarrow> if n = 1 then Some (C (if b = 1 then t else f), regs, mem) else None
           | None \<Rightarrow> None)
      | CreateStore a p vol \<Rightarrow>
          (case value_of num regs a of Some y \<Rightarrow> Some (c, regs, mem(p := Some y)) | None \<Rightarrow> None)
      | _ \<Rightarrow>
          (case compute (value_of num regs) mem i of Some y \<Rightarrow> Some (c, regs(v := Some y), mem) | None \<Rightarrow> None)))"

fun machine_step :: "'v numbers \<Rightarrow> ('v \<Rightarrow> 'v block_code) \<Rightarrow> 'v machine \<Rightarrow> 'v machine option" where
  "machine_step num C ([], regs, mem) = None"
| "machine_step num C (vi # c, regs, mem) = instr_step num C vi (c, regs, mem)"

inductive runs :: "'v numbers \<Rightarrow> ('v \<Rightarrow> 'v block_code) \<Rightarrow> 'v machine \<Rightarrow> 'v machine \<Rightarrow> bool" for num C where
  stop [intro, simp]: "runs num C a a"
| more: "machine_step num C a = Some b \<Longrightarrow> runs num C b c \<Longrightarrow> runs num C a c"

lemma runs_one: "machine_step num C a = Some b \<Longrightarrow> runs num C a b"
  by (rule runs.more [OF _ runs.stop])

lemma runs_trans [trans]: "runs num C a b \<Longrightarrow> runs num C b c \<Longrightarrow> runs num C a c"
  by (induction rule: runs.induct) (auto intro: runs.more)

text \<open>A run that never stops.\<close>

coinductive endless :: "'v numbers \<Rightarrow> ('v \<Rightarrow> 'v block_code) \<Rightarrow> 'v machine \<Rightarrow> bool" for num C where
  "machine_step num C a = Some b \<Longrightarrow> endless num C b \<Longrightarrow> endless num C a"

lemma endless_round:
  assumes "Q a" and "\<And>a. Q a \<Longrightarrow> \<exists>b c. runs num C a b \<and> machine_step num C b = Some c \<and> Q c"
  shows "endless num C a"
proof -
  have "\<exists>b c. runs num C a b \<and> machine_step num C b = Some c \<and> Q c" by (rule assms(2) [OF assms(1)])
  then show ?thesis
  proof (coinduction arbitrary: a)
    case (endless a)
    then obtain b c where "runs num C a b" and c: "machine_step num C b = Some c" "Q c" by blast
    then show ?case
    proof cases
      case stop
      then show ?thesis using c assms(2) [OF c(2)] by blast
    next
      case (more d)
      then show ?thesis using c by blast
    qed
  qed
qed

lemma endless_runs: "runs num C a b \<Longrightarrow> endless num C b \<Longrightarrow> endless num C a"
  by (induction rule: runs.induct) (auto intro: endless.intros)

text \<open>The steps of the machine at a jump, at a store and at an instruction that computes a number.\<close>

lemma run_br: "runs num C ((v, CreateBr b) # c, regs, mem) (C b, regs, mem)"
  by (rule runs_one) (simp add: instr_step_def)

lemma run_cond_br:
  "value_of num regs x = Some (1, of_bool b) \<Longrightarrow>
   runs num C ((v, CreateCondBr x t f) # c, regs, mem) (C (if b then t else f), regs, mem)"
  by (rule runs_one) (simp add: instr_step_def)

lemma run_store:
  "value_of num regs a = Some y \<Longrightarrow>
   runs num C ((v, CreateStore a p vol) # c, regs, mem) (c, regs, mem(p := Some y))"
  by (rule runs_one) (simp add: instr_step_def)

lemma run_compute:
  "compute (value_of num regs) mem i = Some y \<Longrightarrow>
   runs num C ((v, i) # c, regs, mem) (c, regs(v := Some y), mem)"
  by (rule runs_one) (cases i; simp add: instr_step_def)

subsection \<open>The builder\<close>

definition lasting :: "('m, 'v) listing \<Rightarrow> 'm \<Rightarrow> 'v \<Rightarrow> bool" where
  "lasting V m v \<longleftrightarrow> number V v \<noteq> None \<or> known V m v"

text \<open>
  The instructions on integers the emission of integer code asks for. Of these \<open>IRBuilder\<close> documents that it
  puts them at the end of the block it stands in, where loads, stores and branches always go. An operation on
  numbers it may also fold, or leave out when it does nothing, as a cast to the type a value has: then it
  answers with a value that is there and has the number the operation would have given. Nothing is said of
  any other instruction: conversions to floats, addresses, calls and intrinsics may be folded or be
  turned into anything.
\<close>

definition integer_op :: "binop \<Rightarrow> bool" where
  "integer_op op \<longleftrightarrow> binop_value op 0 0 0 \<noteq> None"

lemma integer_op_computes: "binop_value op n x y = Some z \<Longrightarrow> integer_op op"
  by (cases op) (simp_all add: integer_op_def)

fun integer_instr :: "'v instr \<Rightarrow> bool" where
  "integer_instr (CreateBinary op a b) = integer_op op"
| "integer_instr (CreateUnary op a) = (op \<noteq> FNegOp)"
| "integer_instr (CreateCast a sg (IntT k) tg) = True"
| "integer_instr (CreateLoad (IntT k) p name) = True"
| "integer_instr (CreateStore a p vol) = True"
| "integer_instr (CreateBr b) = True"
| "integer_instr (CreateCondBr c t f) = True"
| "integer_instr _ = False"

definition placed :: "('m, 'v) llvm \<Rightarrow> ('m, 'v) listing \<Rightarrow> 'm \<Rightarrow> 'v \<Rightarrow> 'v instr \<Rightarrow> 'v \<Rightarrow> 'm \<Rightarrow> bool" where
  "placed L V m bb i v m' \<longleftrightarrow>
     code V m' = (code V m)(bb := code V m bb @ [(v, i)]) \<and> ll_insert_block L m' = Some bb \<and>
     \<not> known V m v \<and> known V m' v \<and> number V v = None \<and> \<not> ll_is L m' IsBlock v \<and>
     v \<noteq> ll_constant L (PoisonC VoidT) \<and> unchanged L V m m'"

fun may_fold :: "'v instr \<Rightarrow> bool" where
  "may_fold (CreateBinary op a b) = True"
| "may_fold (CreateUnary op a) = True"
| "may_fold (CreateCast a sg t tg) = True"
| "may_fold _ = False"

fun always_placed :: "'v instr \<Rightarrow> bool" where
  "always_placed (CreateStore a p vol) = True"
| "always_placed (CreateBr b) = True"
| "always_placed (CreateCondBr c t f) = True"
| "always_placed _ = False"

definition folded :: "('m, 'v) llvm \<Rightarrow> ('m, 'v) listing \<Rightarrow> 'm \<Rightarrow> 'v \<Rightarrow> 'v instr \<Rightarrow> 'v \<Rightarrow> 'm \<Rightarrow> bool" where
  "folded L V m bb i v m' \<longleftrightarrow>
     may_fold i \<and> code V m' = code V m \<and> ll_insert_block L m' = Some bb \<and> unchanged L V m m' \<and> lasting V m' v \<and>
     (\<forall>regs mem y. compute (value_of (number V) regs) mem i = Some y \<longrightarrow> value_of (number V) regs v = Some y)"

definition builder_laws :: "('m, 'v) llvm \<Rightarrow> ('m, 'v) listing \<Rightarrow> bool" where
  "builder_laws L V \<longleftrightarrow>
     (\<forall>n w sg. 0 < n \<longrightarrow> n \<le> 64 \<longrightarrow> number V (ll_constant L (IntC n w sg)) = Some (n, uint w mod 2 ^ n)) \<and>
     (\<forall>m i v m' bb. ll_insert_block L m = Some bb \<longrightarrow> ll_build L i m = (v, m') \<longrightarrow> integer_instr i \<longrightarrow>
        placed L V m bb i v m' \<or> folded L V m bb i v m') \<and>
     (\<forall>m bb. code V (ll_set_insert_point L (Some bb) m) = code V m \<and>
        ll_insert_block L (ll_set_insert_point L (Some bb) m) = Some bb \<and>
        unchanged L V m (ll_set_insert_point L (Some bb) m)) \<and>
     (\<forall>m name fn bb m'. ll_new_block L name fn m = (bb, m') \<longrightarrow>
        code V m' = (code V m)(bb := []) \<and> ll_insert_block L m' = ll_insert_block L m \<and>
        \<not> known V m bb \<and> known V m' bb \<and> ll_is L m' IsBlock bb \<and> bb \<noteq> ll_constant L (PoisonC VoidT) \<and>
        unchanged L V m m') \<and>
     (\<forall>m bb. ll_terminated L m bb \<longleftrightarrow> code V m bb \<noteq> [] \<and> is_jump (snd (last (code V m bb))))"

subsection \<open>Adding code\<close>

text \<open>Between two states the code in all blocks only grows.\<close>

definition extends :: "('m, 'v) llvm \<Rightarrow> ('m, 'v) listing \<Rightarrow> 'm \<Rightarrow> 'm \<Rightarrow> bool" where
  "extends L V m m' \<longleftrightarrow> unchanged L V m m' \<and> (\<forall>b. known V m b \<longrightarrow> prefix (code V m b) (code V m' b))"

lemma unchanged_refl [simp]: "unchanged L V m m"
  by (simp add: unchanged_def)

lemma unchanged_trans: "unchanged L V a b \<Longrightarrow> unchanged L V b c \<Longrightarrow> unchanged L V a c"
  by (simp add: unchanged_def)

lemma unchanged_known: "unchanged L V m m' \<Longrightarrow> known V m u \<Longrightarrow> known V m' u"
  by (simp add: unchanged_def)

lemma extends_same [simp]: "extends L V m m"
  by (simp add: extends_def)

lemma extends_step [trans]: "extends L V a b \<Longrightarrow> extends L V b c \<Longrightarrow> extends L V a c"
  unfolding extends_def by (meson prefix_order.trans unchanged_known unchanged_trans)

lemma extends_known: "extends L V m m' \<Longrightarrow> known V m u \<Longrightarrow> known V m' u"
  by (auto simp: extends_def unchanged_known)

text \<open>Instructions added to the block the builder stands in.\<close>

definition appends :: "('m, 'v) llvm \<Rightarrow> ('m, 'v) listing \<Rightarrow> 'v \<Rightarrow> 'm \<Rightarrow> 'v block_code \<Rightarrow> 'm \<Rightarrow> bool" where
  "appends L V bb m c m' \<longleftrightarrow> ll_insert_block L m' = Some bb \<and> unchanged L V m m' \<and>
     code V m' = (code V m)(bb := code V m bb @ c) \<and> (\<forall>(v, i) \<in> set c. \<not> known V m v) \<and>
     (\<forall>(v, i) \<in> set c. \<not> is_jump i)"

lemma appends_nil [simp]: "appends L V bb m [] m \<longleftrightarrow> ll_insert_block L m = Some bb"
  by (simp add: appends_def)

lemma appends_trans:
  "appends L V bb m c m' \<Longrightarrow> appends L V bb m' d m'' \<Longrightarrow> appends L V bb m (c @ d) m''"
  unfolding appends_def by (fastforce simp: fun_eq_iff intro: unchanged_trans unchanged_known)

lemma appends_extends: "appends L V bb m c m' \<Longrightarrow> extends L V m m'"
  by (auto simp: appends_def extends_def)

end
