(* ===== verification/Structured.thy ===== *)
theory Structured
  imports Emit_Stmt
begin

section \<open>Structured integer programs\<close>

text \<open>
  The part of the language for which the emitted code is compared with the meaning of the source:
  assignments to integer variables, conditionals and loops. A program is read off the tree the
  analyzer leaves; its meaning is given by the usual big steps on environments, in which a variable of
  \<open>n\<close> bits has a residue of \<open>2 ^ n\<close> as its value.
\<close>

datatype aexp = Num "32 word" | Var string | Minus aexp | Arith TokenType aexp aexp

datatype bexp =
    Truth bool | Negated bexp | Both bexp bexp | Either bexp bexp | Compare static_type TokenType aexp aexp

datatype com =
    Assign string TokenType aexp | Block "com list" | If bexp com | IfElse bexp com com | While bexp com

type_synonym env = "string \<Rightarrow> int"

definition type_bits :: "static_type \<Rightarrow> nat" where
  "type_bits t = (case static_integral t of Some i \<Rightarrow> bits_of i | None \<Rightarrow> 0)"

definition type_signed :: "static_type \<Rightarrow> bool" where
  "type_signed t = (case static_integral t of Some i \<Rightarrow> it_is_signed i | None \<Rightarrow> False)"

definition integer_type :: "static_type \<Rightarrow> bool" where
  "integer_type t = (static_kind t = Kind_Integer \<and> t \<noteq> VOID_POINTER_TYPE)"

subsection \<open>Meaning\<close>

definition arith_op :: "TokenType \<Rightarrow> (int \<Rightarrow> int \<Rightarrow> int) option" where
  "arith_op op =
     (if op = TkPlus then Some (\<lambda>x y. x + y)
      else if op = TkMinus then Some (\<lambda>x y. x - y)
      else if op = TkStar then Some (\<lambda>x y. x * y)
      else None)"

text \<open>The number a residue stands for in a type.\<close>

definition number_in :: "static_type \<Rightarrow> int \<Rightarrow> int" where
  "number_in t x = (if type_signed t \<and> 2 * x \<ge> 2 ^ type_bits t then x - 2 ^ type_bits t else x)"

definition compare_op :: "TokenType \<Rightarrow> (int \<Rightarrow> int \<Rightarrow> bool) option" where
  "compare_op op =
     (if op = TkEqualEqual then Some (\<lambda>x y. x = y)
      else if op = TkBangEqual then Some (\<lambda>x y. x \<noteq> y)
      else if op = TkLess then Some (\<lambda>x y. x < y)
      else if op = TkLessEqual then Some (\<lambda>x y. x \<le> y)
      else if op = TkGreater then Some (\<lambda>x y. x > y)
      else if op = TkGreaterEqual then Some (\<lambda>x y. x \<ge> y)
      else None)"

text \<open>Numbers of \<open>n\<close> bits wrap around.\<close>

fun aval :: "nat \<Rightarrow> env \<Rightarrow> aexp \<Rightarrow> int" where
  "aval n env (Num w) = sint w mod 2 ^ n"
| "aval n env (Var x) = env x"
| "aval n env (Minus a) = - aval n env a mod 2 ^ n"
| "aval n env (Arith op a b) = the (arith_op op) (aval n env a) (aval n env b) mod 2 ^ n"

fun bval :: "env \<Rightarrow> bexp \<Rightarrow> bool" where
  "bval env (Truth b) = b"
| "bval env (Negated b) = (\<not> bval env b)"
| "bval env (Both a b) = (bval env a \<and> bval env b)"
| "bval env (Either a b) = (bval env a \<or> bval env b)"
| "bval env (Compare t op a b) =
     the (compare_op op) (number_in t (aval (type_bits t) env a)) (number_in t (aval (type_bits t) env b))"

definition assigned :: "nat \<Rightarrow> env \<Rightarrow> string \<Rightarrow> TokenType \<Rightarrow> aexp \<Rightarrow> int" where
  "assigned n env x op a =
     (case apply_operator op of
        None \<Rightarrow> aval n env a
      | Some op' \<Rightarrow> aval n env (Arith op' (Var x) a))"

text \<open>\<open>exec ty c env env'\<close>: the program \<open>c\<close> ends, in \<open>env'\<close>.\<close>

inductive exec :: "(string \<Rightarrow> static_type) \<Rightarrow> com \<Rightarrow> env \<Rightarrow> env \<Rightarrow> bool" for ty where
  Assign: "exec ty (Assign x op a) env (env(x := assigned (type_bits (ty x)) env x op a))"
| Nil: "exec ty (Block []) env env"
| Cons: "exec ty c env env' \<Longrightarrow> exec ty (Block cs) env' env'' \<Longrightarrow> exec ty (Block (c # cs)) env env''"
| IfTrue: "bval env b \<Longrightarrow> exec ty c env env' \<Longrightarrow> exec ty (If b c) env env'"
| IfFalse: "\<not> bval env b \<Longrightarrow> exec ty (If b c) env env"
| Then: "bval env b \<Longrightarrow> exec ty c env env' \<Longrightarrow> exec ty (IfElse b c d) env env'"
| Else: "\<not> bval env b \<Longrightarrow> exec ty d env env' \<Longrightarrow> exec ty (IfElse b c d) env env'"
| WhileFalse: "\<not> bval env b \<Longrightarrow> exec ty (While b c) env env"
| WhileTrue: "bval env b \<Longrightarrow> exec ty c env env' \<Longrightarrow> exec ty (While b c) env' env'' \<Longrightarrow> exec ty (While b c) env env''"

inductive_cases exec_AssignE: "exec ty (Assign x op a) env env'"
inductive_cases exec_NilE: "exec ty (Block []) env env'"
inductive_cases exec_ConsE: "exec ty (Block (c # cs)) env env'"
inductive_cases exec_IfE: "exec ty (If b c) env env'"
inductive_cases exec_IfElseE: "exec ty (IfElse b c d) env env'"

subsection \<open>Programs in the tree\<close>

definition plain_flags :: "expr_node \<Rightarrow> bool" where
  "plain_flags x = (ex_flags x AND EF_AlwaysPtr = 0 \<and> ex_flags x AND EF_AlwaysLoad = 0)"

text \<open>The expression of type \<open>t\<close> at a node, variables having the types \<open>ty\<close>.\<close>

fun arith_of :: "nat \<Rightarrow> 's store_scheme \<Rightarrow> (string \<Rightarrow> static_type) \<Rightarrow> static_type \<Rightarrow> ptr \<Rightarrow> aexp option" where
  "arith_of 0 s ty t p = None"
| "arith_of (Suc n) s ty t p =
     (case as_expr s p of
        None \<Rightarrow> None
      | Some x \<Rightarrow>
          if ex_type x \<noteq> Static t then None
          else (case ex_body x of
             LiteralExpr (LInt w) \<Rightarrow> Some (Num w)
           | SymbolExpr _ name \<Rightarrow> if ty name = t \<and> plain_flags x then Some (Var name) else None
           | GroupExpr q \<Rightarrow> arith_of n s ty t q
           | UnaryExpr op q \<Rightarrow> if op = CHR ''-'' then map_option Minus (arith_of n s ty t q) else None
           | BinaryExpr op l r \<Rightarrow>
               (case (arith_op op, arith_of n s ty t l, arith_of n s ty t r) of
                  (Some _, Some a, Some b) \<Rightarrow> Some (Arith op a b) | _ \<Rightarrow> None)
           | _ \<Rightarrow> None))"

text \<open>For unsigned numbers only the comparisons the code generator does not take for signed ones.\<close>

definition sound_compare :: "static_type \<Rightarrow> TokenType \<Rightarrow> bool" where
  "sound_compare t op \<longleftrightarrow> integer_type t \<and> compare_op op \<noteq> None \<and>
     (type_signed t \<or> op = TkEqualEqual \<or> op = TkBangEqual \<or> op = TkLess)"

definition static_of :: "'s store_scheme \<Rightarrow> ptr \<Rightarrow> static_type option" where
  "static_of s p = (case as_expr s p of
     None \<Rightarrow> None | Some x \<Rightarrow> (case ex_type x of Static t \<Rightarrow> Some t | _ \<Rightarrow> None))"

definition comparison_of ::
    "nat \<Rightarrow> 's store_scheme \<Rightarrow> (string \<Rightarrow> static_type) \<Rightarrow> TokenType \<Rightarrow> ptr \<Rightarrow> ptr \<Rightarrow> bexp option" where
  "comparison_of n s ty op l r =
     (case static_of s l of
        None \<Rightarrow> None
      | Some t \<Rightarrow>
          (case (arith_of n s ty t l, arith_of n s ty t r) of
             (Some a, Some b) \<Rightarrow> if sound_compare t op then Some (Compare t op a b) else None
           | _ \<Rightarrow> None))"

fun bool_of :: "nat \<Rightarrow> 's store_scheme \<Rightarrow> (string \<Rightarrow> static_type) \<Rightarrow> ptr \<Rightarrow> bexp option" where
  "bool_of 0 s ty p = None"
| "bool_of (Suc n) s ty p =
     (case as_expr s p of
        None \<Rightarrow> None
      | Some x \<Rightarrow>
          if ex_type x \<noteq> Static BOOL_TYPE then None
          else (case ex_body x of
             LiteralExpr (LBool b) \<Rightarrow> Some (Truth b)
           | GroupExpr q \<Rightarrow> bool_of n s ty q
           | UnaryExpr op q \<Rightarrow> if op = CHR 0x21 then map_option Negated (bool_of n s ty q) else None
           | BinaryExpr op l r \<Rightarrow>
               if op = TkAnd \<or> op = TkOr then
                 (case (bool_of n s ty l, bool_of n s ty r) of
                    (Some a, Some b) \<Rightarrow> Some (if op = TkAnd then Both a b else Either a b) | _ \<Rightarrow> None)
               else comparison_of n s ty op l r
           | _ \<Rightarrow> None))"

definition sound_assign :: "TokenType \<Rightarrow> bool" where
  "sound_assign op \<longleftrightarrow> op = TkEqual \<or> op = TkPlusEqual \<or> op = TkMinusEqual \<or> op = TkStarEqual"

definition variable_of :: "'s store_scheme \<Rightarrow> (string \<Rightarrow> static_type) \<Rightarrow> ptr \<Rightarrow> string option" where
  "variable_of s ty p =
     (case as_expr s p of
        None \<Rightarrow> None
      | Some x \<Rightarrow>
          (case ex_body x of
             SymbolExpr _ name \<Rightarrow>
               if ex_type x = Static (ty name) \<and> integer_type (ty name) \<and> plain_flags x then Some name else None
           | _ \<Rightarrow> None))"

definition assign_of ::
    "nat \<Rightarrow> 's store_scheme \<Rightarrow> (string \<Rightarrow> static_type) \<Rightarrow> ptr \<Rightarrow> ptr \<Rightarrow> TokenType \<Rightarrow> com option" where
  "assign_of n s ty lhs rhs op =
     (case variable_of s ty lhs of
        None \<Rightarrow> None
      | Some x \<Rightarrow> if sound_assign op then map_option (Assign x op) (arith_of n s ty (ty x) rhs) else None)"

fun com_of :: "nat \<Rightarrow> 's store_scheme \<Rightarrow> (string \<Rightarrow> static_type) \<Rightarrow> ptr \<Rightarrow> com option" where
  "com_of 0 s ty p = None"
| "com_of (Suc n) s ty p =
     (case as_stmt s p of
        None \<Rightarrow> None
      | Some st \<Rightarrow>
          (case st_body st of
             AssignmentStmt lhs rhs op \<Rightarrow> assign_of n s ty lhs rhs op
           | BlockStmt ns \<Rightarrow> map_option Block (those (map (com_of n s ty) ns))
           | IfStmt c b x \<Rightarrow>
               if x = Null then
                 (case (bool_of n s ty c, com_of n s ty b) of (Some c, Some b) \<Rightarrow> Some (If c b) | _ \<Rightarrow> None)
               else
                 (case (bool_of n s ty c, com_of n s ty b, com_of n s ty x) of
                    (Some c, Some b, Some x) \<Rightarrow> Some (IfElse c b x) | _ \<Rightarrow> None)
           | WhileStmt c b \<Rightarrow>
               (case (bool_of n s ty c, com_of n s ty b) of (Some c, Some b) \<Rightarrow> Some (While c b) | _ \<Rightarrow> None)
           | _ \<Rightarrow> None))"

fun avars :: "aexp \<Rightarrow> string set" where
  "avars (Num w) = {}"
| "avars (Var x) = {x}"
| "avars (Minus a) = avars a"
| "avars (Arith op a b) = avars a \<union> avars b"

fun bvars :: "bexp \<Rightarrow> string set" where
  "bvars (Truth b) = {}"
| "bvars (Negated b) = bvars b"
| "bvars (Both a b) = bvars a \<union> bvars b"
| "bvars (Either a b) = bvars a \<union> bvars b"
| "bvars (Compare t op a b) = avars a \<union> avars b"

fun cvars :: "com \<Rightarrow> string set" where
  "cvars (Assign x op a) = insert x (avars a)"
| "cvars (Block cs) = (\<Union>c \<in> set cs. cvars c)"
| "cvars (If b c) = bvars b \<union> cvars c"
| "cvars (IfElse b c d) = bvars b \<union> cvars c \<union> cvars d"
| "cvars (While b c) = bvars b \<union> cvars c"

subsection \<open>The conditionals that are emitted as they are meant\<close>

text \<open>
  The branches of a conditional meet in the block in which the last one has ended. That block must
  be a new and empty one: a branch is either free of jumps or ends in a conditional or a loop. A
  conditional with an \<open>else\<close> needs both, a first branch without jumps and an \<open>else\<close> that ends in
  one, as in a chain of \<open>else if\<close>.
\<close>

fun straight :: "com \<Rightarrow> bool" where
  "straight (Assign x op a) = True"
| "straight (Block cs) = list_all straight cs"
| "straight _ = False"

fun ends_in_jump :: "com \<Rightarrow> bool" where
  "ends_in_jump (Assign x op a) = False"
| "ends_in_jump (Block cs) = (cs \<noteq> [] \<and> last (map ends_in_jump cs))"
| "ends_in_jump _ = True"

fun tidy :: "com \<Rightarrow> bool" where
  "tidy (Assign x op a) = True"
| "tidy (Block cs) = list_all tidy cs"
| "tidy (If b c) = (tidy c \<and> (straight c \<or> ends_in_jump c))"
| "tidy (IfElse b c d) = (tidy c \<and> tidy d \<and> straight c \<and> ends_in_jump d)"
| "tidy (While b c) = tidy c"

end
