(* ===== verification/Emitted_Exprs.thy ===== *)
theory Emitted_Exprs
  imports Ir_Code Structured
begin

section \<open>Code of expressions computes their values\<close>

text \<open>The variables of a program: their types, their names and the places they have in memory.\<close>

record 'v variables =
  va_type :: "string \<Rightarrow> static_type"
  va_names :: "string set"
  va_place :: "string \<Rightarrow> 'v"

definition in_place :: "('m, 'v) llvm \<Rightarrow> ('m, 'v) listing \<Rightarrow> 'v variables \<Rightarrow> ('m, 'v) emitter \<Rightarrow> bool" where
  "in_place L V P s \<longleftrightarrow> inj_on (va_place P) (va_names P) \<and> (\<forall>x \<in> va_names P. em_named_values s x = Some (va_place P x) \<and>
     known V (em_llvm s) (va_place P x) \<and> ll_is L (em_llvm s) IsPointer (va_place P x) \<and>
     \<not> ll_metadata L (em_llvm s) (va_place P x) ''Const'')"

definition ready :: "('m, 'v) llvm \<Rightarrow> ('m, 'v) listing \<Rightarrow> 'v variables \<Rightarrow> 'v \<Rightarrow> ('m, 'v) emitter \<Rightarrow> bool" where
  "ready L V P bb s \<longleftrightarrow> in_place L V P s \<and> ll_insert_block L (em_llvm s) = Some bb \<and> known V (em_llvm s) bb \<and>
     ll_is L (em_llvm s) IsBlock bb \<and> bb \<noteq> ll_constant L (PoisonC VoidT)"

text \<open>Memory contains the values of the variables.\<close>

definition residue :: "static_type \<Rightarrow> int \<Rightarrow> bool" where
  "residue t x \<longleftrightarrow> 0 \<le> x \<and> x < 2 ^ type_bits t"

definition holds :: "'v variables \<Rightarrow> env \<Rightarrow> 'v numbers \<Rightarrow> bool" where
  "holds P env mem \<longleftrightarrow> (\<forall>x \<in> va_names P. mem (va_place P x) = Some (type_bits (va_type P x), env x) \<and>
     residue (va_type P x) (env x))"

text \<open>Code that leaves a number in a value and otherwise only writes to new registers.\<close>

definition delivers ::
    "('m, 'v) listing \<Rightarrow> 'v variables \<Rightarrow> 'm \<Rightarrow> 'v block_code \<Rightarrow> 'v \<Rightarrow> (env \<Rightarrow> nat \<times> int) \<Rightarrow> bool" where
  "delivers V P m c v f \<longleftrightarrow> (\<forall>C rest regs mem env. holds P env mem \<longrightarrow>
     (\<exists>regs'. runs (number V) C (c @ rest, regs, mem) (rest, regs', mem) \<and>
        value_of (number V) regs' v = Some (f env) \<and> (\<forall>u. known V m u \<longrightarrow> regs' u = regs u)))"

text \<open>Code that computes one operation.\<close>

definition computes :: "('m, 'v) listing \<Rightarrow> 'm \<Rightarrow> 'v block_code \<Rightarrow> 'v \<Rightarrow> 'v instr \<Rightarrow> bool" where
  "computes V m c v i \<longleftrightarrow> (\<forall>C rest regs mem y. compute (value_of (number V) regs) mem i = Some y \<longrightarrow>
     (\<exists>regs'. runs (number V) C (c @ rest, regs, mem) (rest, regs', mem) \<and>
        value_of (number V) regs' v = Some y \<and> (\<forall>u. known V m u \<longrightarrow> regs' u = regs u)))"

text \<open>A method that emits such code; \<open>t\<close> is the tree.\<close>

definition evaluates ::
    "('m, 'v) llvm \<Rightarrow> ('m, 'v) listing \<Rightarrow> 'v variables \<Rightarrow> 's store_scheme \<Rightarrow> ('m, 'v, 'v option) em \<Rightarrow>
     (env \<Rightarrow> nat \<times> int) \<Rightarrow> bool" where
  "evaluates L V P t m f \<longleftrightarrow> (\<forall>s bb. nodes s = nodes t \<longrightarrow> ready L V P bb s \<longrightarrow>
     (\<exists>v c m'. m s = Inr (Some v, s\<lparr>em_llvm := m'\<rparr>) \<and> appends L V bb (em_llvm s) c m' \<and> lasting V m' v \<and>
        delivers V P (em_llvm s) c v f))"

lemma as_expr_cong: "nodes s = nodes t \<Longrightarrow> as_expr s p = as_expr t p"
  by (simp add: as_expr_def peek_node_def split: ptr.split)

lemma as_stmt_cong: "nodes s = nodes t \<Longrightarrow> as_stmt s p = as_stmt t p"
  by (simp add: as_stmt_def peek_node_def split: ptr.split)

lemma run_expr_type: "nodes s = nodes t \<Longrightarrow> as_expr t p = Some x \<Longrightarrow> expr_type p s = Inr (ex_type x, s)"
  using as_expr_cong [of s t p] by (simp add: expr_type_def expr_at_def query_def rbind_def bnd_def)

text \<open>What appended code leaves of the state.\<close>

lemma ready_appends:
  "ready L V P bb s \<Longrightarrow> appends L V bb (em_llvm s) c m' \<Longrightarrow> ready L V P bb (s\<lparr>em_llvm := m'\<rparr>)"
  by (auto simp: ready_def in_place_def appends_def unchanged_def)

lemma lasting_appends: "lasting V m v \<Longrightarrow> appends L V bb m c m' \<Longrightarrow> lasting V m' v"
  by (auto simp: lasting_def appends_def unchanged_def)

lemma value_of_lasting:
  "lasting V m v \<Longrightarrow> (\<And>u. known V m u \<Longrightarrow> regs' u = regs u) \<Longrightarrow>
   value_of (number V) regs' v = value_of (number V) regs v"
  by (auto simp: lasting_def value_of_def split: option.splits)

lemma evaluatesD:
  assumes "evaluates L V P t m f" "nodes s = nodes t" "ready L V P bb s"
  obtains v c m' where "m s = Inr (Some v, s\<lparr>em_llvm := m'\<rparr>)" "appends L V bb (em_llvm s) c m'"
    "lasting V m' v" "delivers V P (em_llvm s) c v f"
  using assms unfolding evaluates_def by blast

subsection \<open>Integer types\<close>

lemma static_through [simp]: "through (Suc k) s (Static b) = Inr (Static b)"
  by (simp add: the_type_def type_obj_at_def alias_target_def rbind_def)

lemma answering_static [simp]: "answering (Suc k) (Static b) f = f (Static b) (Builtin b)"
  by (simp add: answering_def type_at_def query_def the_type_def type_obj_at_def rbind_def bnd_def fun_eq_iff
      alias_target_def)

lemma llvm_type_static [simp]:
  "llvm_type L (Suc k) (Static b) = nonnull (static_llvm_type b)"
  by (simp add: llvm_type_def type_at_def query_def the_type_def type_obj_at_def rbind_def bnd_def fun_eq_iff)

lemma integer_cases:
  assumes "integer_type b"
  obtains i where "static_integral b = Some i" "static_kind b = Kind_Integer" "b \<noteq> VOID_POINTER_TYPE"
    "b \<noteq> STR_TYPE" "b \<noteq> VOID_TYPE" "bits_of i \<le> 64" "type_bits b = bits_of i" "type_signed b = it_is_signed i"
  using assms by (cases b) (simp_all add: integer_type_def type_bits_def bits_of_def type_signed_def)

lemma integer_llvm_type: "integer_type b \<Longrightarrow> static_llvm_type b = Some (IntT (type_bits b))"
  by (erule integer_cases) (simp add: static_llvm_type_def)

lemma integer_op_unary:
  "integer_type b \<Longrightarrow> op_unary L (Suc k) (Static b) TkMinus v = some (build1 L (CreateUnary NegOp) v)"
  by (erule integer_cases) (simp add: op_unary_def integer_of_def kind_of_def integral_of_def)

lemma bool_op_unary: "op_unary L (Suc k) (Static BOOL_TYPE) TkBang v = some (build1 L (CreateUnary NotOp) v)"
  by (simp add: op_unary_def integer_of_def kind_of_def integral_of_def)

lemma op_binary_static: "op_binary L (Suc k) (Static b) op v w = static_op_binary L k b op v w"
  by (simp add: type_at_def query_def the_type_def type_obj_at_def rbind_def bnd_def fun_eq_iff)

declare op_binary.simps [simp del]

lemma integer_op_static:
  "integer_type b \<Longrightarrow> integer_binop (type_signed b) op = Some o' \<Longrightarrow> op \<noteq> TkStarStar \<Longrightarrow>
   op_binary L (Suc k) (Static b) op v w = some (build2 L (CreateBinary o') v w)"
  by (erule integer_cases) (simp add: op_binary_static static_op_binary_def integer_op_binary_def)

lemma bool_op_static:
  "bool_binop op = Some o' \<Longrightarrow> op_binary L (Suc k) (Static BOOL_TYPE) op v w = some (build2 L (CreateBinary o') v w)"
  by (simp add: op_binary_static static_op_binary_def simple_op_binary_def)

lemma static_is_array [simp]: "is_array (Suc k) s (Static b) = Inr False"
  by (cases b) (simp_all add: is_array_def virtual_def the_type_def type_obj_at_def rbind_def kind_of_def alias_target_def)


text \<open>The operation the builder is asked for computes what the source says.\<close>

lemma signed_number:
  "integer_type t \<Longrightarrow> type_signed t \<Longrightarrow> signed_value (type_bits t) x = number_in t x"
  by (simp add: signed_value_def number_in_def not_le [symmetric])

lemma arith_binop:
  assumes "arith_op op = Some f"
  obtains o' where "\<And>sg. integer_binop sg op = Some o'" "op \<noteq> TkStarStar" "op \<noteq> TkAnd"
    "\<And>n x y. binop_value o' n x y = Some (n, f x y mod 2 ^ n)"
  using assms by (auto simp: arith_op_def integer_binop_def split: if_splits)

lemma number_in_inj:
  assumes "0 \<le> x" "x < 2 ^ type_bits t" "0 \<le> y" "y < 2 ^ type_bits t"
  shows "number_in t x = number_in t y \<longleftrightarrow> x = y"
  using assms by (auto simp: number_in_def)

lemma compare_binop:
  assumes "sound_compare t op"
  obtains o' f where "compare_op op = Some f" "integer_binop (type_signed t) op = Some o'" "op \<noteq> TkStarStar"
    "\<And>x y. residue t x \<Longrightarrow> residue t y \<Longrightarrow>
       binop_value o' (type_bits t) x y = Some (1, of_bool (f (number_in t x) (number_in t y)))"
proof -
  have t: "integer_type t" and "compare_op op \<noteq> None"
    and sg: "type_signed t \<or> op = TkEqualEqual \<or> op = TkBangEqual \<or> op = TkLess"
    using assms by (auto simp: sound_compare_def)
  then obtain f where f: "compare_op op = Some f" by blast
  have unsigned: "number_in t x = x" if "\<not> type_signed t" for x
    using that by (simp add: number_in_def)
  show thesis
  proof (rule that [OF f, of "the (integer_binop (type_signed t) op)"])
    show "integer_binop (type_signed t) op = Some (the (integer_binop (type_signed t) op))"
      using f by (auto simp: compare_op_def integer_binop_def split: if_splits)
    show "op \<noteq> TkStarStar" using f by (auto simp: compare_op_def)
    show "binop_value (the (integer_binop (type_signed t) op)) (type_bits t) x y =
        Some (1, of_bool (f (number_in t x) (number_in t y)))" if "residue t x" "residue t y" for x y
      using f sg that unsigned signed_number [OF t] number_in_inj [of x t y]
      by (auto simp: compare_op_def integer_binop_def residue_def split: if_splits)
  qed
qed


lemma residue_mod [simp]: "residue t (x mod 2 ^ type_bits t)"
  by (simp add: residue_def)

lemma residue_aval: "holds P env mem \<Longrightarrow> avars a \<subseteq> va_names P \<Longrightarrow> (\<forall>x \<in> avars a. va_type P x = t) \<Longrightarrow>
    residue t (aval (type_bits t) env a)"
  by (cases a) (auto simp: holds_def)

lemma run_build: "ll_build L i (em_llvm s) = (v, m') \<Longrightarrow> build L i s = Inr (v, s\<lparr>em_llvm := m'\<rparr>)"
  by (simp add: build_def obtains_value_def)

lemma run_some: "m s = Inr (v, s') \<Longrightarrow> some m s = Inr (Some v, s')"
  by (simp add: some_def bnd_def)

lemma build_operands [simp]: "build1 L i (Some a) = build L (i a)" "build2 L j (Some a) (Some b) = build L (j a b)"
  by (simp_all add: build1_def build2_def nonnull_def bnd_def fun_eq_iff)

lemma or_else_value: "m s = Inr (Some v, s') \<Longrightarrow> or_else m err s = Inr (Some v, s')"
  by (simp add: or_else_def bnd_def)

lemma scast_residue:
  assumes "n \<le> 64"
  shows "uint (scast w :: 64 word) mod 2 ^ n = sint (w :: 32 word) mod 2 ^ n"
proof -
  have "uint (scast w :: 64 word) = sint w mod 2 ^ 64"
    by (subst scast_eq, subst uint_word_of_int) simp
  moreover have "(2::int) ^ n dvd 2 ^ 64" using assms by (rule le_imp_power_dvd)
  ultimately show ?thesis by (simp add: mod_mod_cancel)
qed

lemma emit_expr:
  assumes "nodes s = nodes t" and "as_expr t p = Some x"
  shows "e_emit (emitting L k g (Suc n)) p ps s = expr_emit (emitting L k g n) x ps s"
proof -
  have "as_expr s p = Some x" using as_expr_cong [OF assms(1)] assms(2) by simp
  then have "peek_node s p = Some (NExpr x)" by (auto simp: as_expr_def split: option.splits node.splits)
  moreover have "\<not> (\<exists>b. p = Static b)" using calculation by (auto simp: peek_node_def)
  ultimately show ?thesis
    by (cases p) (simp_all add: node_emit_def node_at_def query_def rbind_def bnd_def)
qed

lemma evaluates_emit:
  assumes "as_expr t p = Some x" and "evaluates L V P t (expr_emit (emitting L' k g n) x ps) f"
  shows "evaluates L V P t (e_emit (emitting L' k g (Suc n)) p ps) f"
  using assms by (auto simp: evaluates_def emit_expr simp del: emitting.simps)

lemma arith_of_vars: "arith_of n t ty b p = Some a \<Longrightarrow> x \<in> avars a \<Longrightarrow> ty x = b"
  by (induction n arbitrary: p a)
    (auto split: option.splits if_splits expr_body.splits literal_value.splits)

subsection \<open>The builder\<close>

locale builder =
  fixes L :: "('m, 'v) llvm" and V :: "('m, 'v) listing"
  assumes laws: "builder_laws L V"
begin

lemma constant_number: "0 < n \<Longrightarrow> n \<le> 64 \<Longrightarrow> number V (ll_constant L (IntC n w sg)) = Some (n, uint w mod 2 ^ n)"
  using laws by (simp add: builder_laws_def)

lemma built:
  assumes "ll_build L i m = (v, m')" and "ll_insert_block L m = Some bb" and "always_placed i"
  shows "code V m' = (code V m)(bb := code V m bb @ [(v, i)])" "ll_insert_block L m' = Some bb"
    "\<not> known V m v" "known V m' v" "number V v = None" "\<not> ll_is L m' IsBlock v"
    "v \<noteq> ll_constant L (PoisonC VoidT)" "unchanged L V m m'"
proof -
  have "integer_instr i" "\<not> may_fold i" using assms(3) by (cases i; simp)+
  then have "placed L V m bb i v m'" using assms(1,2) laws unfolding builder_laws_def folded_def by blast
  then show "code V m' = (code V m)(bb := code V m bb @ [(v, i)])" "ll_insert_block L m' = Some bb"
    "\<not> known V m v" "known V m' v" "number V v = None" "\<not> ll_is L m' IsBlock v"
    "v \<noteq> ll_constant L (PoisonC VoidT)" "unchanged L V m m'"
    by (simp_all add: placed_def)
qed

lemma built_appends:
  assumes "ll_build L i m = (v, m')" and "ll_insert_block L m = Some bb" and "always_placed i" and "\<not> is_jump i"
  shows "appends L V bb m [(v, i)] m'"
  using built [OF assms(1-3)] assms(4) by (auto simp: appends_def)

text \<open>The code of one operation, or of none when it is folded.\<close>

lemma built_value:
  assumes "ll_build L i m = (w, m')" and "ll_insert_block L m = Some bb" and "integer_instr i" and "\<not> is_jump i"
  obtains d where "appends L V bb m d m'" "lasting V m' w" "computes V m d w i"
proof -
  have "placed L V m bb i w m' \<or> folded L V m bb i w m'"
    using assms(1-3) laws unfolding builder_laws_def by blast
  then show thesis
  proof
    assume p: "placed L V m bb i w m'"
    have "computes V m [(w, i)] w i"
      unfolding computes_def
    proof (intro allI impI)
      fix C rest regs mem y
      assume "compute (value_of (number V) regs) mem i = Some y"
      from run_compute [OF this, of C w rest]
      show "\<exists>regs'. runs (number V) C ([(w, i)] @ rest, regs, mem) (rest, regs', mem) \<and>
          value_of (number V) regs' w = Some y \<and> (\<forall>u. known V m u \<longrightarrow> regs' u = regs u)"
        using p by (intro exI [of _ "regs(w := Some y)"]) (auto simp: value_of_def placed_def)
    qed
    then show thesis using that [of "[(w, i)]"] p assms(4) by (simp add: appends_def placed_def lasting_def)
  next
    assume f: "folded L V m bb i w m'"
    then have "computes V m [] w i" by (auto simp: computes_def folded_def)
    then show thesis using that [of "[]"] f by (simp add: appends_def folded_def)
  qed
qed

text \<open>An operation on operands that are there.\<close>

lemma delivers_then:
  assumes "delivers V P m c v f" and "computes V m' d w i" and "appends L V bb m c m'"
    and computed: "\<And>rd mem env. rd v = Some (f env) \<Longrightarrow> compute rd mem i = Some (r env)"
  shows "delivers V P m (c @ d) w r"
  unfolding delivers_def
proof (intro allI impI)
  fix C rest regs mem env
  assume env: "holds P env mem"
  obtain regs1 where run1: "runs (number V) C (c @ d @ rest, regs, mem) (d @ rest, regs1, mem)"
    and v: "value_of (number V) regs1 v = Some (f env)" and same1: "\<forall>u. known V m u \<longrightarrow> regs1 u = regs u"
    using assms(1) env unfolding delivers_def by blast
  obtain regs2 where run2: "runs (number V) C (d @ rest, regs1, mem) (rest, regs2, mem)"
    and w: "value_of (number V) regs2 w = Some (r env)" and same2: "\<forall>u. known V m' u \<longrightarrow> regs2 u = regs1 u"
    using assms(2) computed [of "value_of (number V) regs1" env mem, OF v] unfolding computes_def by blast
  have "\<forall>u. known V m u \<longrightarrow> regs2 u = regs u"
    using same1 same2 assms(3) by (simp add: appends_def unchanged_def)
  then show "\<exists>regs''. runs (number V) C ((c @ d) @ rest, regs, mem) (rest, regs'', mem) \<and>
      value_of (number V) regs'' w = Some (r env) \<and> (\<forall>u. known V m u \<longrightarrow> regs'' u = regs u)"
    using runs_trans [OF run1 run2] w by auto
qed

lemma delivers_both:
  assumes "delivers V P m c v f" and "appends L V bb m c m1" and "lasting V m1 v"
    and "delivers V P m1 d w h" and "appends L V bb m1 d m2"
    and "computes V m2 e x i"
    and computed: "\<And>rd mem env. holds P env mem \<Longrightarrow> rd v = Some (f env) \<Longrightarrow> rd w = Some (h env) \<Longrightarrow>
      compute rd mem i = Some (r env)"
  shows "delivers V P m (c @ d @ e) x r"
  unfolding delivers_def
proof (intro allI impI)
  fix C rest regs mem env
  assume env: "holds P env mem"
  obtain regs1 where run1: "runs (number V) C (c @ d @ e @ rest, regs, mem) (d @ e @ rest, regs1, mem)"
    and v: "value_of (number V) regs1 v = Some (f env)" and same1: "\<forall>u. known V m u \<longrightarrow> regs1 u = regs u"
    using assms(1) env unfolding delivers_def by blast
  obtain regs2 where run2: "runs (number V) C (d @ e @ rest, regs1, mem) (e @ rest, regs2, mem)"
    and w: "value_of (number V) regs2 w = Some (h env)" and same2: "\<forall>u. known V m1 u \<longrightarrow> regs2 u = regs1 u"
    using assms(4) env unfolding delivers_def by blast
  have v2: "value_of (number V) regs2 v = Some (f env)"
    using value_of_lasting [OF assms(3), of regs2 regs1] same2 v by simp
  have "compute (value_of (number V) regs2) mem i = Some (r env)" by (rule computed [OF env v2 w])
  then obtain regs3 where run3: "runs (number V) C (e @ rest, regs2, mem) (rest, regs3, mem)"
    and x: "value_of (number V) regs3 x = Some (r env)" and same3: "\<forall>u. known V m2 u \<longrightarrow> regs3 u = regs2 u"
    using assms(6) unfolding computes_def by blast
  have "\<forall>u. known V m u \<longrightarrow> regs3 u = regs u"
    using same1 same2 same3 assms(2,5) by (simp add: appends_def unchanged_def)
  then show "\<exists>regs''. runs (number V) C ((c @ d @ e) @ rest, regs, mem) (rest, regs'', mem) \<and>
      value_of (number V) regs'' x = Some (r env) \<and> (\<forall>u. known V m u \<longrightarrow> regs'' u = regs u)"
    using runs_trans [OF run1 runs_trans [OF run2 run3]] x by auto
qed

lemma type_bits_pos: "integer_type b \<Longrightarrow> 0 < type_bits b"
  by (cases b) (simp_all add: integer_type_def type_bits_def bits_of_def)

lemma evaluates_constant:
  assumes "0 < n" and "n \<le> 64"
  shows "evaluates L V P t (constant_value L (IntC n w sg)) (\<lambda>env. (n, uint w mod 2 ^ n))"
  unfolding evaluates_def delivers_def
proof (intro allI impI, goal_cases)
  case (1 s bb)
  then show ?case
    by (intro exI [of _ "ll_constant L (IntC n w sg)"] exI [of _ "[]"] exI [of _ "em_llvm s"])
      (auto simp: constant_value_def constant_number assms lasting_def ready_def value_of_def)
qed

lemma evaluates_symbol:
  assumes "x \<in> va_names P" "integer_type (va_type P x)" "ex_type e = Static (va_type P x)" "plain_flags e"
    and "e_llvm em = L" "e_fuel em = Suc k"
  shows "evaluates L V P t (symbol_emit em e x ps) (\<lambda>env. (type_bits (va_type P x), env x))"
  unfolding evaluates_def
proof (intro allI impI)
  fix s bb
  let ?i = "CreateLoad (IntT (type_bits (va_type P x))) (va_place P x) x"
  assume "ready L V P bb s"
  then have place: "em_named_values s x = Some (va_place P x)" "ll_is L (em_llvm s) IsPointer (va_place P x)"
    and bb: "ll_insert_block L (em_llvm s) = Some bb"
    using assms(1) by (auto simp: ready_def in_place_def)
  obtain v m' where b: "ll_build L ?i (em_llvm s) = (v, m')" by fastforce
  have "symbol_emit em e x ps s = Inr (Some v, s\<lparr>em_llvm := m'\<rparr>)"
    using assms place b
    by (simp add: symbol_emit_def symbol_emit_ptr_def plain_flags_def bnd_def value_is_def inspect_def some_def
        integer_llvm_type nonnull_def build_def obtains_value_def)
  moreover obtain d where d: "appends L V bb (em_llvm s) d m'" "lasting V m' v" "computes V (em_llvm s) d v ?i"
    by (rule built_value [OF b bb]) simp_all
  moreover have "delivers V P (em_llvm s) d v (\<lambda>env. (type_bits (va_type P x), env x))"
    using d(3) assms(1) unfolding delivers_def computes_def by (simp add: holds_def)
  ultimately show "\<exists>v c m'. symbol_emit em e x ps s = Inr (Some v, s\<lparr>em_llvm := m'\<rparr>) \<and>
      appends L V bb (em_llvm s) c m' \<and> lasting V m' v \<and>
      delivers V P (em_llvm s) c v (\<lambda>env. (type_bits (va_type P x), env x))"
    by blast
qed

text \<open>A method that emits its operand and then one instruction on it.\<close>

lemma evaluates_then:
  assumes "evaluates L V P t m f" and "\<And>v. F (Some v) = some (build L (i v))" and "\<And>v. integer_instr (i v) \<and> \<not> is_jump (i v)"
    and "\<And>v rd mem env. rd v = Some (f env) \<Longrightarrow> compute rd mem (i v) = Some (r env)"
  shows "evaluates L V P t (bnd m (\<lambda>v. or_else (F v) err)) r"
  unfolding evaluates_def
proof (intro allI impI)
  fix s bb
  assume s: "nodes s = nodes t" "ready L V P bb s"
  obtain v c m1 where v: "m s = Inr (Some v, s\<lparr>em_llvm := m1\<rparr>)" "appends L V bb (em_llvm s) c m1"
      "delivers V P (em_llvm s) c v f"
    using evaluatesD [OF assms(1) s] by metis
  obtain w m2 where b: "ll_build L (i v) m1 = (w, m2)" by fastforce
  have bb: "ll_insert_block L m1 = Some bb" using v(2) by (simp add: appends_def)
  have "bnd m (\<lambda>v. or_else (F v) err) s = Inr (Some w, s\<lparr>em_llvm := m2\<rparr>)"
    using v(1) b by (simp add: bnd_def or_else_value run_some run_build assms(2))
  moreover obtain d where d: "appends L V bb m1 d m2" "lasting V m2 w" "computes V m1 d w (i v)"
    by (rule built_value [OF b bb]) (use assms(3) in blast)+
  moreover have "delivers V P (em_llvm s) (c @ d) w r"
    by (rule delivers_then [OF v(3) d(3) v(2)]) (rule assms(4))
  ultimately show "\<exists>v c m'. bnd m (\<lambda>v. or_else (F v) err) s = Inr (Some v, s\<lparr>em_llvm := m'\<rparr>) \<and>
      appends L V bb (em_llvm s) c m' \<and> lasting V m' v \<and> delivers V P (em_llvm s) c v r"
    using appends_trans [OF v(2) d(1)] by (intro exI [of _ w] exI [of _ "c @ d"] exI [of _ m2] conjI)
qed

lemma evaluates_unary:
  assumes "evaluates L V P t (emit_at em p) f" and "ex_type x = Static b" and "e_llvm em = L" "e_fuel em = k"
    and "tk = (if op = CHR ''-'' then TkMinus else if op = CHR 0x21 then TkBang else tk_type empty_token)"
    and "o' \<noteq> FNegOp" and "\<And>v. op_unary L k (Static b) tk v = some (build1 L (CreateUnary o') v)"
    and "\<And>(v :: 'v) rd mem env. rd v = Some (f env) \<Longrightarrow> compute rd mem (CreateUnary o' v) = Some (r env)"
  shows "evaluates L V P t (unary_emit em x op p) r"
  unfolding unary_emit_def Let_def assms(2,3,4) assms(5) [symmetric]
proof (rule evaluates_then [OF assms(1)])
  show "op_unary L k (Static b) tk (Some v) = some (build L (CreateUnary o' v))" for v
    by (simp only: assms(7) build_operands)
  show "integer_instr (CreateUnary o' v) \<and> \<not> is_jump (CreateUnary o' v)" for v by (simp add: assms(6))
qed (rule assms(8))

lemma evaluates_binary:
  assumes l: "evaluates L V P t (emit_at em l) f" and r: "evaluates L V P t (emit_at em r) h"
    and x: "as_expr t l = Some xl" "ex_type xl = Static b" and em: "e_llvm em = L" "e_fuel em = Suc k"
    and op: "\<And>v w. op_binary L (Suc k) (Static b) op v w = some (build2 L (CreateBinary o') v w)"
    and int: "integer_op o'"
    and computed: "\<And>env mem. holds P env mem \<Longrightarrow> \<exists>n a b. f env = (n, a) \<and> h env = (n, b) \<and>
      binop_value o' n a b = Some (res env)"
  shows "evaluates L V P t (binary_emit em x op l r) res"
  unfolding evaluates_def
proof (intro allI impI)
  fix s bb
  assume s: "nodes s = nodes t" "ready L V P bb s"
  obtain v c m1 where v: "emit_at em l s = Inr (Some v, s\<lparr>em_llvm := m1\<rparr>)" "appends L V bb (em_llvm s) c m1"
      "lasting V m1 v" "delivers V P (em_llvm s) c v f"
    using evaluatesD [OF l s] by metis
  let ?s1 = "s\<lparr>em_llvm := m1\<rparr>"
  have s1: "nodes ?s1 = nodes t" "ready L V P bb ?s1" using s ready_appends [OF s(2) v(2)] by simp_all
  obtain w d m2 where w: "emit_at em r ?s1 = Inr (Some w, s\<lparr>em_llvm := m2\<rparr>)" "appends L V bb m1 d m2"
      "delivers V P m1 d w h"
    using r [unfolded evaluates_def, rule_format, OF s1] by auto
  let ?i = "CreateBinary o' v w"
  obtain y m3 where b: "ll_build L ?i m2 = (y, m3)" by fastforce
  have bb: "ll_insert_block L m2 = Some bb" using w(2) by (simp add: appends_def)
  have "binary_emit em x op l r s = Inr (Some y, s\<lparr>em_llvm := m3\<rparr>)"
    using v(1) w(1) b s x(2) run_expr_type [OF s(1) x(1)]
      run_expr_type [of "s\<lparr>em_llvm := m2\<rparr>" t l xl] x(1)
    by (simp add: binary_emit_def Let_def em op bnd_def query_def rbind_def or_else_value run_some run_build)
  moreover obtain a where a: "appends L V bb m2 a m3" "lasting V m3 y" "computes V m2 a y ?i"
    by (rule built_value [OF b bb]) (simp_all add: int)
  moreover have "appends L V bb (em_llvm s) (c @ d @ a) m3"
    using appends_trans [OF appends_trans [OF v(2) w(2)] a(1)] by simp
  moreover have "delivers V P (em_llvm s) (c @ d @ a) y res"
    by (rule delivers_both [OF v(4,2,3) w(3,2) a(3)], drule computed) auto
  ultimately show "\<exists>v c m'. binary_emit em x op l r s = Inr (Some v, s\<lparr>em_llvm := m'\<rparr>) \<and>
      appends L V bb (em_llvm s) c m' \<and> lasting V m' v \<and> delivers V P (em_llvm s) c v res"
    by blast
qed

text \<open>Every expression the program fragment has computes its value.\<close>

lemma evaluates_arith:
  assumes "arith_of n t (va_type P) b p = Some a" and "integer_type b" and "avars a \<subseteq> va_names P"
  shows "evaluates L V P t (e_emit (emitting L (Suc k) g n) p ps) (\<lambda>env. (type_bits b, aval (type_bits b) env a))"
  using assms(1,3)
proof (induction n arbitrary: p a ps)
  case (Suc n)
  let ?e = "emitting L (Suc k) g n"
  obtain x where x: "as_expr t p = Some x" "ex_type x = Static b"
    using Suc.prems(1) by (auto split: option.splits if_splits)
  have operand: "evaluates L V P t (emit_at ?e q) (\<lambda>env. (type_bits b, aval (type_bits b) env a'))"
    if "arith_of n t (va_type P) b q = Some a'" "avars a' \<subseteq> va_names P" for q a'
    using Suc.IH [OF that] by (simp add: emit_at_def)
  have "evaluates L V P t (expr_emit ?e x ps) (\<lambda>env. (type_bits b, aval (type_bits b) env a))"
  proof (cases "ex_body x")
    case (LiteralExpr v)
    then obtain w where w: "v = LInt w" "a = Num w"
      using Suc.prems(1) x by (auto split: literal_value.splits)
    obtain i where "static_integral b = Some i" "static_kind b = Kind_Integer" "bits_of i \<le> 64" "type_bits b = bits_of i"
      using integer_cases [OF assms(2)] by metis
    then have "expr_emit ?e x ps = constant_value L (IntC (type_bits b) (scast w) True)"
      using x LiteralExpr w
      by (simp add: expr_emit_def literal_emit_def get_constant_from_int_def integer_of_def kind_of_def integral_of_def)
    then show ?thesis
      using evaluates_constant [of "type_bits b" P t "scast w" True] type_bits_pos [OF assms(2)] \<open>bits_of i \<le> 64\<close> \<open>type_bits b = bits_of i\<close>
      by (simp add: w(2) scast_residue)
  next
    case (SymbolExpr node name)
    then have name: "a = Var name" "va_type P name = b" "plain_flags x" "name \<in> va_names P"
      using Suc.prems x by (auto split: if_splits)
    show ?thesis
      using evaluates_symbol [of name P x ?e k t ps] name x assms(2) SymbolExpr by (simp add: expr_emit_def)
  next
    case (GroupExpr q)
    then show ?thesis using operand [of q a] Suc.prems x by (simp add: expr_emit_def)
  next
    case (UnaryExpr op q)
    then obtain a' where a: "op = CHR ''-''" "arith_of n t (va_type P) b q = Some a'" "a = Minus a'"
      using Suc.prems(1) x by (auto split: if_splits)
    have "evaluates L V P t (unary_emit ?e x op q) (\<lambda>env. (type_bits b, aval (type_bits b) env a))"
      by (rule evaluates_unary [where tk = TkMinus and o' = NegOp and k = "Suc k", OF operand [OF a(2)] x(2)])
        (use a Suc.prems(2) assms(2) in \<open>auto simp: integer_op_unary\<close>)
    then show ?thesis using UnaryExpr by (simp add: expr_emit_def)
  next
    case (BinaryExpr op l r)
    then obtain f a1 a2 where a: "arith_op op = Some f" "arith_of n t (va_type P) b l = Some a1"
        "arith_of n t (va_type P) b r = Some a2" "a = Arith op a1 a2"
      using Suc.prems(1) x by (auto split: option.splits)
    obtain o' where o': "\<And>sg. integer_binop sg op = Some o'" "op \<noteq> TkStarStar"
        "\<And>n x y. binop_value o' n x y = Some (n, f x y mod 2 ^ n)"
      using arith_binop [OF a(1)] by metis
    obtain xl where xl: "as_expr t l = Some xl" "ex_type xl = Static b"
      using a(2) by (cases n) (auto split: option.splits if_splits)
    have "evaluates L V P t (binary_emit ?e x op l r) (\<lambda>env. (type_bits b, aval (type_bits b) env a))"
      by (rule evaluates_binary [where o' = o', OF operand [OF a(2)] operand [OF a(3)] xl])
        (use a o' integer_op_computes [OF o'(3)] Suc.prems(2) assms(2) in \<open>auto simp: integer_op_static\<close>)
    then show ?thesis using BinaryExpr by (simp add: expr_emit_def)
  qed (use Suc.prems(1) x in auto)
  then show ?case by (rule evaluates_emit [OF x(1)])
qed simp

text \<open>So does every condition; a truth value has one bit.\<close>

abbreviation "truth f \<equiv> (\<lambda>env. (1, of_bool (f env)))"

lemma evaluates_comparison:
  assumes "comparison_of n t (va_type P) op l r = Some b" and "bvars b \<subseteq> va_names P"
  shows "evaluates L V P t (binary_emit (emitting L (Suc k) g n) x op l r) (truth (\<lambda>env. bval env b))"
proof -
  let ?e = "emitting L (Suc k) g n"
  obtain ty a1 a2 where a: "static_of t l = Some ty" "arith_of n t (va_type P) ty l = Some a1"
      "arith_of n t (va_type P) ty r = Some a2" "sound_compare ty op" "b = Compare ty op a1 a2"
    using assms(1) by (auto simp: comparison_of_def split: option.splits if_splits)
  obtain xl where xl: "as_expr t l = Some xl" "ex_type xl = Static ty"
    using a(1) by (auto simp: static_of_def split: option.splits ptr.splits)
  have ty: "integer_type ty" using a(4) by (simp add: sound_compare_def)
  obtain o' f where f: "compare_op op = Some f" "integer_binop (type_signed ty) op = Some o'" "op \<noteq> TkStarStar"
      "\<And>x y. residue ty x \<Longrightarrow> residue ty y \<Longrightarrow>
         binop_value o' (type_bits ty) x y = Some (1, of_bool (f (number_in ty x) (number_in ty y)))"
    using compare_binop [OF a(4)] by metis
  have operand: "evaluates L V P t (emit_at ?e q) (\<lambda>env. (type_bits ty, aval (type_bits ty) env a'))"
    if "arith_of n t (va_type P) ty q = Some a'" "avars a' \<subseteq> va_names P" for q a'
    using evaluates_arith [OF that(1) ty that(2)] by (simp add: emit_at_def)
  show ?thesis
  proof (rule evaluates_binary [where o' = o', OF operand [OF a(2)] operand [OF a(3)] xl])
    fix env mem
    assume "holds P env mem"
    then have "residue ty (aval (type_bits ty) env a1)" "residue ty (aval (type_bits ty) env a2)"
      using residue_aval [of P env mem] arith_of_vars [OF a(2)] arith_of_vars [OF a(3)] assms(2) a(5) by auto
    then show "\<exists>n x y. (type_bits ty, aval (type_bits ty) env a1) = (n, x) \<and>
        (type_bits ty, aval (type_bits ty) env a2) = (n, y) \<and> binop_value o' n x y = Some (1, of_bool (bval env b))"
      using f(1,4) a(5) by auto
  qed (use a f(2,3) integer_op_computes [OF f(4) [of 0 0]] assms(2) ty in \<open>auto simp: integer_op_static residue_def\<close>)
qed

lemma evaluates_bool:
  assumes "bool_of n t (va_type P) p = Some b" and "bvars b \<subseteq> va_names P"
  shows "evaluates L V P t (e_emit (emitting L (Suc k) g n) p ps) (truth (\<lambda>env. bval env b))"
  using assms
proof (induction n arbitrary: p b ps)
  case (Suc n)
  let ?e = "emitting L (Suc k) g n"
  obtain x where x: "as_expr t p = Some x" "ex_type x = Static BOOL_TYPE"
    using Suc.prems(1) by (auto split: option.splits if_splits)
  have operand: "evaluates L V P t (emit_at ?e q) (truth (\<lambda>env. bval env b'))"
    if "bool_of n t (va_type P) q = Some b'" "bvars b' \<subseteq> va_names P" for q b'
    using Suc.IH [OF that] by (simp add: emit_at_def)
  have "evaluates L V P t (expr_emit ?e x ps) (truth (\<lambda>env. bval env b))"
  proof (cases "ex_body x")
    case (LiteralExpr v)
    then obtain w where w: "v = LBool w" "b = Truth w"
      using Suc.prems(1) x by (auto split: literal_value.splits)
    then have "expr_emit ?e x ps = constant_value L (IntC 1 (of_bool w) False)"
      using LiteralExpr by (simp add: expr_emit_def literal_emit_def)
    then show ?thesis
      using evaluates_constant [of 1 P t "of_bool w" False] w(2) by (cases w) simp_all
  next
    case (GroupExpr q)
    then show ?thesis using operand [of q b] Suc.prems x by (simp add: expr_emit_def)
  next
    case (UnaryExpr op q)
    then obtain b' where b: "op = CHR 0x21" "bool_of n t (va_type P) q = Some b'" "b = Negated b'"
      using Suc.prems(1) x by (auto split: if_splits)
    have "evaluates L V P t (unary_emit ?e x op q) (truth (\<lambda>env. bval env b))"
      by (rule evaluates_unary [where tk = TkBang and o' = NotOp and k = "Suc k", OF operand [OF b(2)] x(2)])
        (use b Suc.prems(2) in \<open>auto simp: bool_op_unary\<close>)
    then show ?thesis using UnaryExpr by (simp add: expr_emit_def)
  next
    case (BinaryExpr op l r)
    show ?thesis
    proof (cases "op = TkAnd \<or> op = TkOr")
      case True
      then obtain b1 b2 where b: "bool_of n t (va_type P) l = Some b1" "bool_of n t (va_type P) r = Some b2"
          "b = (if op = TkAnd then Both b1 b2 else Either b1 b2)"
        using Suc.prems(1) x BinaryExpr by (auto split: option.splits)
      obtain xl where xl: "as_expr t l = Some xl" "ex_type xl = Static BOOL_TYPE"
        using b(1) by (cases n) (auto split: option.splits if_splits)
      let ?o = "if op = TkAnd then LogicalAndOp else LogicalOrOp"
      have "evaluates L V P t (binary_emit ?e x op l r) (truth (\<lambda>env. bval env b))"
        by (rule evaluates_binary [where o' = ?o, OF operand [OF b(1)] operand [OF b(2)] xl])
          (use b True Suc.prems(2) in \<open>auto simp: bool_op_static bool_binop_def integer_op_def split: if_splits\<close>)
      then show ?thesis using BinaryExpr by (simp add: expr_emit_def)
    next
      case False
      then have "comparison_of n t (va_type P) op l r = Some b"
        using Suc.prems(1) x BinaryExpr by auto
      from evaluates_comparison [OF this Suc.prems(2)] show ?thesis
        using BinaryExpr by (simp add: expr_emit_def)
    qed
  qed (use Suc.prems(1) x in auto)
  then show ?case by (rule evaluates_emit [OF x(1)])
qed simp

end

end
