(* ===== verification/Code_Meaning.thy ===== *)
theory Code_Meaning
  imports Emitted_Exprs
begin

section \<open>What code does\<close>

text \<open>
  \<open>does num C P c a b\<close>: the machine that has the code \<open>a\<close> before it, with the values of the variables in
  memory, does what the program \<open>c\<close> means. When \<open>c\<close> ends the machine comes to \<open>b\<close>, with the new values in
  memory, and when \<open>c\<close> does not end the machine does not either. There is a rule for every construct of
  programs.
\<close>

definition does ::
    "'v numbers \<Rightarrow> ('v \<Rightarrow> 'v block_code) \<Rightarrow> 'v variables \<Rightarrow> com \<Rightarrow> 'v block_code \<Rightarrow> 'v block_code \<Rightarrow> bool" where
  "does num C P c a b \<longleftrightarrow> (\<forall>env regs mem. holds P env mem \<longrightarrow>
     (\<forall>env'. exec (va_type P) c env env' \<longrightarrow>
       (\<exists>regs' mem'. runs num C (a, regs, mem) (b, regs', mem') \<and> holds P env' mem')) \<and>
     ((\<nexists>env'. exec (va_type P) c env env') \<longrightarrow> endless num C (a, regs, mem)))"

text \<open>Code that jumps according to a condition.\<close>

definition decides ::
    "'v numbers \<Rightarrow> ('v \<Rightarrow> 'v block_code) \<Rightarrow> 'v variables \<Rightarrow> bexp \<Rightarrow> 'v block_code \<Rightarrow> 'v block_code \<Rightarrow> 'v block_code \<Rightarrow> bool" where
  "decides num C P b a x y \<longleftrightarrow> (\<forall>env regs mem. holds P env mem \<longrightarrow>
     (\<exists>regs'. runs num C (a, regs, mem) (if bval env b then x else y, regs', mem)))"

lemma doesI:
  assumes "\<And>env env' regs mem. holds P env mem \<Longrightarrow> exec (va_type P) c env env' \<Longrightarrow>
      \<exists>regs' mem'. runs num C (a, regs, mem) (b, regs', mem') \<and> holds P env' mem'"
    and "\<And>env regs mem. holds P env mem \<Longrightarrow> \<nexists>env'. exec (va_type P) c env env' \<Longrightarrow> endless num C (a, regs, mem)"
  shows "does num C P c a b"
  using assms unfolding does_def by blast

lemma does_ends:
  assumes "does num C P c a b" and "holds P env mem" and "exec (va_type P) c env env'"
  obtains regs' mem' where "runs num C (a, regs, mem) (b, regs', mem')" "holds P env' mem'"
  using assms unfolding does_def by blast

lemma does_never_ends:
  "does num C P c a b \<Longrightarrow> holds P env mem \<Longrightarrow> \<nexists>env'. exec (va_type P) c env env' \<Longrightarrow> endless num C (a, regs, mem)"
  unfolding does_def by blast

lemma decidesD:
  assumes "decides num C P b a x y" and "holds P env mem"
  obtains regs' where "runs num C (a, regs, mem) (if bval env b then x else y, regs', mem)"
  using assms unfolding decides_def by blast

subsection \<open>The constructs\<close>

lemma does_nothing: "does num C P (Block []) a a"
  by (rule doesI) (auto intro: exec.Nil elim: exec_NilE)

lemma does_block:
  assumes "does num C P c a b" and "does num C P (Block cs) b d"
  shows "does num C P (Block (c # cs)) a d"
proof (rule doesI)
  fix env env'' regs mem
  assume env: "holds P env mem" and "exec (va_type P) (Block (c # cs)) env env''"
  then obtain env' where c: "exec (va_type P) c env env'" and cs: "exec (va_type P) (Block cs) env' env''"
    by (auto elim: exec_ConsE)
  obtain regs1 mem1 where 1: "runs num C (a, regs, mem) (b, regs1, mem1)" "holds P env' mem1"
    by (rule does_ends [OF assms(1) env c])
  obtain regs2 mem2 where 2: "runs num C (b, regs1, mem1) (d, regs2, mem2)" "holds P env'' mem2"
    by (rule does_ends [OF assms(2) 1(2) cs])
  show "\<exists>regs' mem'. runs num C (a, regs, mem) (d, regs', mem') \<and> holds P env'' mem'"
    using runs_trans [OF 1(1) 2(1)] 2(2) by blast
next
  fix env regs mem
  assume env: "holds P env mem" and never: "\<nexists>env'. exec (va_type P) (Block (c # cs)) env env'"
  show "endless num C (a, regs, mem)"
  proof (cases "\<exists>env'. exec (va_type P) c env env'")
    case True
    then obtain env' where c: "exec (va_type P) c env env'" by blast
    obtain regs1 mem1 where 1: "runs num C (a, regs, mem) (b, regs1, mem1)" "holds P env' mem1"
      by (rule does_ends [OF assms(1) env c])
    have "\<nexists>env''. exec (va_type P) (Block cs) env' env''" using never c by (blast intro: exec.Cons)
    from endless_runs [OF 1(1) does_never_ends [OF assms(2) 1(2) this]] show ?thesis .
  qed (rule does_never_ends [OF assms(1) env])
qed

text \<open>Code in front that changes no variable, and jumps behind.\<close>

lemma does_then:
  assumes "does num C P c a b" and "\<And>regs mem. runs num C (b, regs, mem) (d, regs, mem)"
  shows "does num C P c a d"
proof (rule doesI)
  fix env env' regs mem
  assume "holds P env mem" "exec (va_type P) c env env'"
  then obtain regs1 mem1 where "runs num C (a, regs, mem) (b, regs1, mem1)" "holds P env' mem1"
    by (rule does_ends [OF assms(1)])
  then show "\<exists>regs' mem'. runs num C (a, regs, mem) (d, regs', mem') \<and> holds P env' mem'"
    using runs_trans [OF _ assms(2)] by blast
qed (rule does_never_ends [OF assms(1)])

lemma does_behind:
  assumes "\<And>regs mem. runs num C (a, regs, mem) (b, regs, mem)" and "does num C P c b d"
  shows "does num C P c a d"
proof (rule doesI)
  fix env env' regs mem
  assume "holds P env mem" "exec (va_type P) c env env'"
  then obtain regs1 mem1 where "runs num C (b, regs, mem) (d, regs1, mem1)" "holds P env' mem1"
    by (rule does_ends [OF assms(2)])
  then show "\<exists>regs' mem'. runs num C (a, regs, mem) (d, regs', mem') \<and> holds P env' mem'"
    using runs_trans [OF assms(1)] by blast
next
  fix env regs mem
  assume "holds P env mem" "\<nexists>env'. exec (va_type P) c env env'"
  then show "endless num C (a, regs, mem)" by (rule endless_runs [OF assms(1) does_never_ends [OF assms(2)]])
qed

lemma does_if_else:
  assumes "decides num C P b a x y" and "does num C P c x z" and "does num C P d y z"
  shows "does num C P (IfElse b c d) a z"
proof (rule doesI)
  fix env env' regs mem
  assume env: "holds P env mem" and ex: "exec (va_type P) (IfElse b c d) env env'"
  obtain regs1 where start: "runs num C (a, regs, mem) (if bval env b then x else y, regs1, mem)"
    by (rule decidesD [OF assms(1) env])
  obtain regs2 mem2 where "runs num C (if bval env b then x else y, regs1, mem) (z, regs2, mem2)" "holds P env' mem2"
    using does_ends [OF assms(2) env, of env' regs1 thesis] does_ends [OF assms(3) env, of env' regs1 thesis] ex
    by (auto elim!: exec_IfElseE)
  then show "\<exists>regs' mem'. runs num C (a, regs, mem) (z, regs', mem') \<and> holds P env' mem'"
    using runs_trans [OF start] by blast
next
  fix env regs mem
  assume env: "holds P env mem" and never: "\<nexists>env'. exec (va_type P) (IfElse b c d) env env'"
  obtain regs1 where start: "runs num C (a, regs, mem) (if bval env b then x else y, regs1, mem)"
    by (rule decidesD [OF assms(1) env])
  have "endless num C (if bval env b then x else y, regs1, mem)"
  proof (cases "bval env b")
    case True
    then have "\<nexists>env'. exec (va_type P) c env env'" using never by (blast intro: exec.Then)
    then show ?thesis using does_never_ends [OF assms(2) env] True by simp
  next
    case False
    then have "\<nexists>env'. exec (va_type P) d env env'" using never by (blast intro: exec.Else)
    then show ?thesis using does_never_ends [OF assms(3) env] False by simp
  qed
  with start show "endless num C (a, regs, mem)" by (rule endless_runs)
qed

lemma does_if:
  assumes "decides num C P b a x y" and "does num C P c x y"
  shows "does num C P (If b c) a y"
proof -
  have "does num C P (IfElse b c (Block [])) a y" by (rule does_if_else [OF assms does_nothing])
  moreover have "exec (va_type P) (IfElse b c (Block [])) env env' \<longleftrightarrow> exec (va_type P) (If b c) env env'" for env env'
    by (auto intro: exec.intros elim!: exec_IfElseE exec_IfE exec_NilE)
  ultimately show ?thesis by (simp add: does_def)
qed

lemma endless_rounds:
  assumes "Q a" and "\<And>a. Q a \<Longrightarrow> endless num C a \<or> (\<exists>b c. runs num C a b \<and> machine_step num C b = Some c \<and> Q c)"
  shows "endless num C a"
proof (rule endless_round [where Q = "\<lambda>a. endless num C a \<or> Q a"])
  show "\<exists>b c. runs num C a b \<and> machine_step num C b = Some c \<and> (endless num C c \<or> Q c)"
    if "endless num C a \<or> Q a" for a
    using assms(2) [of a] that runs.stop by (metis endless.cases)
qed (use assms(1) in blast)

text \<open>A loop: behind the body the machine jumps back to the condition.\<close>

lemma does_while:
  fixes num :: "'v numbers"
  assumes "decides num C P b a x z" and "does num C P c x y"
    and jump: "\<And>regs mem. machine_step num C (y, regs, mem) = Some (a, regs, mem)"
  shows "does num C P (While b c) a z"
proof (rule doesI)
  fix env env' regs mem
  assume env: "holds P env mem" and "exec (va_type P) (While b c) env env'"
  from this(2,1) show "\<exists>regs' mem'. runs num C (a, regs, mem) (z, regs', mem') \<and> holds P env' mem'"
  proof (induction "While b c" env env' arbitrary: regs mem rule: exec.induct)
    case (WhileFalse env)
    obtain regs1 where "runs num C (a, regs, mem) (if bval env b then x else z, regs1, mem)"
      by (rule decidesD [OF assms(1) WhileFalse(2)])
    then show ?case using WhileFalse by auto
  next
    case (WhileTrue env env1 env')
    obtain regs1 where "runs num C (a, regs, mem) (if bval env b then x else z, regs1, mem)"
      by (rule decidesD [OF assms(1) WhileTrue(6)])
    then have run1: "runs num C (a, regs, mem) (x, regs1, mem)" using WhileTrue(1) by simp
    obtain regs2 mem2 where run2: "runs num C (x, regs1, mem) (y, regs2, mem2)" and env1: "holds P env1 mem2"
      by (rule does_ends [OF assms(2) WhileTrue(6,2)])
    show ?case
      using WhileTrue(5) [OF env1, of regs2] runs_trans [OF run1 runs_trans [OF run2 runs.more [OF jump]]] by blast
  qed
next
  fix env regs mem
  assume env: "holds P env mem" and never: "\<nexists>env'. exec (va_type P) (While b c) env env'"
  show "endless num C (a, regs, mem)"
  proof (rule endless_rounds [where Q = "\<lambda>s. \<exists>env regs mem. s = (a, regs, mem) \<and> holds P env mem \<and>
      (\<nexists>env'. exec (va_type P) (While b c) env env')"])
    fix s :: "'v machine"
    assume "\<exists>env regs mem. s = (a, regs, mem) \<and> holds P env mem \<and> (\<nexists>env'. exec (va_type P) (While b c) env env')"
    then obtain env regs mem where s: "s = (a, regs, mem)" and env: "holds P env mem"
      and never: "\<nexists>env'. exec (va_type P) (While b c) env env'" by blast
    have true: "bval env b" using never by (blast intro: exec.WhileFalse)
    obtain regs1 where "runs num C (a, regs, mem) (if bval env b then x else z, regs1, mem)"
      by (rule decidesD [OF assms(1) env])
    then have run1: "runs num C (a, regs, mem) (x, regs1, mem)" using true by simp
    show "endless num C s \<or> (\<exists>t u. runs num C s t \<and> machine_step num C t = Some u \<and>
        (\<exists>env regs mem. u = (a, regs, mem) \<and> holds P env mem \<and> (\<nexists>env'. exec (va_type P) (While b c) env env')))"
    proof (cases "\<exists>env'. exec (va_type P) c env env'")
      case True
      then obtain env1 where c: "exec (va_type P) c env env1" by blast
      obtain regs2 mem2 where run2: "runs num C (x, regs1, mem) (y, regs2, mem2)" and env1: "holds P env1 mem2"
        by (rule does_ends [OF assms(2) env c])
      have "\<nexists>env'. exec (va_type P) (While b c) env1 env'" using never true c by (blast intro: exec.WhileTrue)
      then show ?thesis using runs_trans [OF run1 run2] jump env1 s by blast
    next
      case False
      then show ?thesis using endless_runs [OF run1 does_never_ends [OF assms(2) env]] s by blast
    qed
  qed (use env never in blast)
qed

text \<open>An assignment always ends.\<close>

lemma does_assign:
  assumes "\<And>env regs mem. holds P env mem \<Longrightarrow> \<exists>regs' mem'. runs num C (a, regs, mem) (b, regs', mem') \<and>
      holds P (env(x := assigned (type_bits (va_type P x)) env x op e)) mem'"
  shows "does num C P (Assign x op e) a b"
proof (rule doesI)
  fix env env' regs mem
  assume "holds P env mem" and "exec (va_type P) (Assign x op e) env env'"
  then show "\<exists>regs' mem'. runs num C (a, regs, mem) (b, regs', mem') \<and> holds P env' mem'"
    using assms by (auto elim: exec_AssignE)
qed (blast intro: exec.Assign)

end
