(* ===== verification/Emitted_Code.thy ===== *)
theory Emitted_Code
  imports Code_Meaning
begin

section \<open>Code of structured programs does what they mean\<close>

declare emitting.simps [simp del]

lemma emitting_methods [simp]:
  "e_emit (emitting L k g (Suc n)) = node_emit (emitting L k g n)"
  "e_emit_ptr (emitting L k g (Suc n)) p ps = bnd (expr_at p) (\<lambda>x. expr_emit_ptr (emitting L k g n) x ps)"
  by (simp_all add: emitting.simps)

text \<open>The final code of all blocks begins with the code there is.\<close>

definition covers :: "('m, 'v) listing \<Rightarrow> 'm \<Rightarrow> ('v \<Rightarrow> 'v block_code) \<Rightarrow> bool" where
  "covers V m C \<longleftrightarrow> (\<forall>b. known V m b \<longrightarrow> prefix (code V m b) (C b))"

text \<open>What follows in a block behind the code it has.\<close>

definition behind_code :: "('m, 'v) listing \<Rightarrow> ('v \<Rightarrow> 'v block_code) \<Rightarrow> 'm \<Rightarrow> 'v \<Rightarrow> 'v block_code" where
  "behind_code V C m bb = drop (length (code V m bb)) (C bb)"

text \<open>The code between two points of the emission runs as the program does.\<close>

definition simulates ::
    "('m, 'v) listing \<Rightarrow> 'v variables \<Rightarrow> com \<Rightarrow> 'm \<Rightarrow> 'v \<Rightarrow> 'm \<Rightarrow> 'v \<Rightarrow> bool" where
  "simulates V P c m bb m' bb' \<longleftrightarrow>
     (\<forall>C. covers V m' C \<longrightarrow> does (number V) C P c (behind_code V C m bb) (behind_code V C m' bb'))"

text \<open>From block \<open>bb\<close> the builder has come to \<open>bb'\<close>: the same block, or a new one, and then
  \<open>bb\<close> ends in a jump. The other blocks that existed are as they were.\<close>

definition advances :: "('m, 'v) llvm \<Rightarrow> ('m, 'v) listing \<Rightarrow> 'm \<Rightarrow> 'v \<Rightarrow> 'm \<Rightarrow> 'v \<Rightarrow> bool" where
  "advances L V m bb m' bb' \<longleftrightarrow> extends L V m m' \<and> (\<forall>b. known V m b \<longrightarrow> b \<noteq> bb \<longrightarrow> code V m' b = code V m b) \<and>
     ll_insert_block L m' = Some bb' \<and> known V m' bb' \<and> \<not> ll_terminated L m' bb' \<and>
     ll_is L m' IsBlock bb' \<and> bb' \<noteq> ll_constant L (PoisonC VoidT) \<and>
     (bb' = bb \<or> ll_terminated L m' bb \<and> \<not> known V m bb')"

definition implements ::
    "('m, 'v) llvm \<Rightarrow> ('m, 'v) listing \<Rightarrow> 'v variables \<Rightarrow> 's store_scheme \<Rightarrow> ('m, 'v, 'v option) em \<Rightarrow> com \<Rightarrow> bool" where
  "implements L V P t stm c \<longleftrightarrow> (\<forall>s bb.
     nodes s = nodes t \<longrightarrow> ready L V P bb s \<longrightarrow> \<not> ll_terminated L (em_llvm s) bb \<longrightarrow> em_if_merge_bbs s = [] \<longrightarrow>
     (\<exists>v m' bb'. stm s = Inr (Some v, s\<lparr>em_llvm := m'\<rparr>) \<and> advances L V (em_llvm s) bb m' bb' \<and>
        v \<noteq> ll_constant L (PoisonC VoidT) \<and> (v = bb' \<or> \<not> ll_is L m' IsBlock v \<and> bb' = bb) \<and>
        (straight c \<longrightarrow> bb' = bb) \<and> (ends_in_jump c \<longrightarrow> bb' \<noteq> bb \<and> code V m' bb' = []) \<and>
        simulates V P c (em_llvm s) bb m' bb'))"

text \<open>A statement emitted into a new block.\<close>

definition branch ::
    "('m, 'v) llvm \<Rightarrow> ('m, 'v) listing \<Rightarrow> 'v variables \<Rightarrow> com \<Rightarrow> 'm \<Rightarrow> 'v \<Rightarrow> 'm \<Rightarrow> 'v \<Rightarrow> bool" where
  "branch L V P c m tb m' tb' \<longleftrightarrow> extends L V m m' \<and> (\<forall>b. known V m b \<longrightarrow> code V m' b = code V m b) \<and>
     \<not> known V m tb \<and> known V m' tb \<and> \<not> known V m tb' \<and>
     ll_insert_block L m' = Some tb' \<and> known V m' tb' \<and> \<not> ll_terminated L m' tb' \<and>
     ll_is L m' IsBlock tb' \<and> tb' \<noteq> ll_constant L (PoisonC VoidT) \<and>
     (tb' = tb \<or> ll_terminated L m' tb) \<and> (straight c \<longrightarrow> tb' = tb) \<and>
     (ends_in_jump c \<longrightarrow> tb' \<noteq> tb \<and> code V m' tb' = []) \<and>
     (\<forall>C. covers V m' C \<longrightarrow> does (number V) C P c (C tb) (behind_code V C m' tb'))"

text \<open>The block in which branches meet; \<open>m1\<close> is the state before the branches.\<close>

definition meeting :: "('m, 'v) llvm \<Rightarrow> ('m, 'v) listing \<Rightarrow> 'm \<Rightarrow> 'm \<Rightarrow> 'v \<Rightarrow> 'm \<Rightarrow> bool" where
  "meeting L V m1 m mb m' \<longleftrightarrow> extends L V m m' \<and>
     (\<forall>b. known V m b \<longrightarrow> b \<noteq> mb \<longrightarrow> code V m' b = code V m b) \<and> code V m' mb = [] \<and> known V m' mb \<and>
     ll_is L m' IsBlock mb \<and> mb \<noteq> ll_constant L (PoisonC VoidT) \<and> \<not> known V m1 mb"

text \<open>A branch at the end of a block that has no jump there.\<close>

definition closed_with :: "'v \<Rightarrow> 'v \<Rightarrow> 'v \<Rightarrow> ('v \<Rightarrow> 'v block_code) \<Rightarrow> 'v \<Rightarrow> 'v block_code" where
  "closed_with k next b C =
     (if C b \<noteq> [] \<and> is_jump (snd (last (C b))) then C else C(b := C b @ [(k, CreateBr next)]))"

lemma implementsD:
  assumes "implements L V P t stm c" "nodes s = nodes t" "ready L V P bb s" "\<not> ll_terminated L (em_llvm s) bb"
    and "em_if_merge_bbs s = []"
  obtains v m' bb' where "stm s = Inr (Some v, s\<lparr>em_llvm := m'\<rparr>)" "advances L V (em_llvm s) bb m' bb'"
    "v \<noteq> ll_constant L (PoisonC VoidT)" "v = bb' \<or> \<not> ll_is L m' IsBlock v \<and> bb' = bb"
    "straight c \<longrightarrow> bb' = bb" "ends_in_jump c \<longrightarrow> bb' \<noteq> bb \<and> code V m' bb' = []"
    "simulates V P c (em_llvm s) bb m' bb'"
  using assms unfolding implements_def by blast

lemma covers_extends: "covers V m' C \<Longrightarrow> extends L V m m' \<Longrightarrow> covers V m C"
  unfolding covers_def extends_def by (meson prefix_order.trans unchanged_known)

lemma ready_advances:
  "ready L V P bb s \<Longrightarrow> advances L V (em_llvm s) bb m' bb' \<Longrightarrow> ready L V P bb' (s\<lparr>em_llvm := m'\<rparr>)"
  by (auto simp: ready_def in_place_def advances_def extends_def unchanged_def)

lemma behind_appended:
  assumes "appends L V bb m c m'" and "covers V m' C" and "known V m bb"
  shows "behind_code V C m bb = c @ behind_code V C m' bb"
  using assms by (fastforce simp: behind_code_def covers_def appends_def unchanged_def prefix_def)

lemma behind_same: "code V m' bb = code V m bb \<Longrightarrow> behind_code V C m' bb = behind_code V C m bb"
  by (simp add: behind_code_def)

lemma behind_start: "code V m bb = [] \<Longrightarrow> behind_code V C m bb = C bb"
  by (simp add: behind_code_def)

lemma coerce_integer:
  assumes "integer_type b"
  shows "op_coerce L (Suc k) (Static b) v (Static b) =
    some (build1 L (\<lambda>a. CreateCast a (type_signed b) (IntT (type_bits b)) (type_signed b)) v)"
    (is ?coerce)
  and "can_coerce_into (Suc k) s (Static b) (Static b) = Inr True" (is ?can)
proof -
  obtain i where i: "static_integral b = Some i" "b \<noteq> VOID_POINTER_TYPE" "b \<noteq> STR_TYPE" "type_bits b = bits_of i"
      "type_signed b = it_is_signed i"
    using integer_cases [OF assms] by metis
  have obj: "produce_obj s (Static b) = Inr (Some (Builtin b))" for s :: "'x store_scheme"
    by (simp add: produce_obj_def produce_type_def get_real_type_def the_type_def type_obj_at_def rbind_def alias_target_def)
  have "get_llvm_type L (Suc k) (Static b) = ret (Some (IntT (type_bits b)))"
    by (simp add: type_at_def query_def the_type_def type_obj_at_def rbind_def bnd_def fun_eq_iff
        integer_llvm_type [OF assms])
  then show ?coerce
    using i by (simp add: op_coerce_def is_pointer_obj_def integral_of_def integral_op_cast_def query_def obj rbind_def
        bnd_def fun_eq_iff nonnull_def)
  show ?can
    using i by (simp add: can_coerce_into_def virtual_def the_type_def type_obj_at_def rbind_def integral_can_coerce_def
        obj integral_of_def del: through.simps)
qed

text \<open>The place of a variable.\<close>

lemma variable_cases:
  assumes "variable_of t ty p = Some x"
  obtains e node where "as_expr t p = Some e" "ex_body e = SymbolExpr node x" "ex_type e = Static (ty x)"
    "integer_type (ty x)" "plain_flags e"
  using assms by (auto simp: variable_of_def split: option.splits expr_body.splits if_splits)

lemma emit_ptr_variable:
  assumes "variable_of t ty p = Some x" and "nodes s = nodes t" and "em_named_values s x = Some place"
  shows "emit_ptr_at (emitting L k g (Suc n)) p s = Inr (Some place, s)"
proof -
  obtain e node where e: "as_expr t p = Some e" "ex_body e = SymbolExpr node x" "plain_flags e"
    using variable_cases [OF assms(1)] by metis
  then show ?thesis
    using assms(3) as_expr_cong [OF assms(2), of p]
    by (simp add: emit_ptr_at_def expr_at_def query_def rbind_def bnd_def expr_emit_ptr_def symbol_emit_ptr_def
        plain_flags_def)
qed

lemma emit_stmt:
  assumes "nodes s = nodes t" and "as_stmt t p = Some st"
  shows "e_emit (emitting L k g (Suc n)) p ps s = stmt_emit (emitting L k g n) p st ps s"
proof -
  have "as_stmt s p = Some st" using as_stmt_cong [OF assms(1)] assms(2) by simp
  then have "peek_node s p = Some (NStmt st)" by (auto simp: as_stmt_def split: option.splits node.splits)
  moreover have "\<not> (\<exists>b. p = Static b)" using calculation by (auto simp: peek_node_def)
  ultimately show ?thesis
    by (cases p) (simp_all add: node_emit_def node_at_def query_def rbind_def bnd_def)
qed

lemma those_map: "those (map f xs) = Some ys \<longleftrightarrow> list_all2 (\<lambda>x y. f x = Some y) xs ys"
  by (induction xs arbitrary: ys) (auto simp: list_all2_Cons1 split: option.splits)

lemma placed_always: "always_placed (CreateBr b)" "always_placed (CreateCondBr c t f)" "always_placed (CreateStore v p vol)"
  by simp_all

context builder
begin

lemma terminated_iff: "ll_terminated L m bb \<longleftrightarrow> code V m bb \<noteq> [] \<and> is_jump (snd (last (code V m bb)))"
  using laws unfolding builder_laws_def by blast

lemma advances_trans:
  assumes "advances L V m bb m1 bb1" and "advances L V m1 bb1 m2 bb2" and "known V m bb"
  shows "advances L V m bb m2 bb2"
proof -
  have ext: "extends L V m m2" using assms by (auto simp: advances_def intro: extends_step)
  have known: "\<And>b. known V m b \<Longrightarrow> known V m1 b" using assms(1) by (auto simp: advances_def extends_known)
  have same: "code V m2 b = code V m1 b" if "known V m b" "b \<noteq> bb1" for b
    using that known assms(2) by (simp add: advances_def)
  have "code V m2 b = code V m b" if "known V m b" "b \<noteq> bb" for b
    using same [of b] that assms(1) by (cases "b = bb1") (auto simp: advances_def)
  moreover have "bb2 = bb \<or> ll_terminated L m2 bb \<and> \<not> known V m bb2"
  proof (cases "bb1 = bb")
    case True
    then show ?thesis using assms(2) known by (auto simp: advances_def)
  next
    case False
    then have "ll_terminated L m1 bb" "\<not> known V m bb1" using assms(1) by (auto simp: advances_def)
    moreover have "\<not> known V m bb2" using assms(2) known calculation(2) by (auto simp: advances_def)
    ultimately show ?thesis using same [OF assms(3)] False by (simp add: terminated_iff)
  qed
  ultimately show ?thesis using assms(2) ext by (simp add: advances_def)
qed

lemma simulates_trans:
  assumes "simulates V P c m bb m1 bb1" and "simulates V P (Block cs) m1 bb1 m2 bb2" and "extends L V m1 m2"
  shows "simulates V P (Block (c # cs)) m bb m2 bb2"
  using assms covers_extends [OF _ assms(3)] unfolding simulates_def by (blast intro: does_block)

lemma advances_appends:
  assumes "appends L V bb m c m'" and "known V m bb" and "\<not> ll_terminated L m bb"
    and "ll_is L m IsBlock bb" and "bb \<noteq> ll_constant L (PoisonC VoidT)"
  shows "advances L V m bb m' bb"
proof -
  have "\<not> ll_terminated L m' bb"
    using assms(1,3) by (cases c rule: rev_cases) (auto simp: appends_def terminated_iff)
  then show ?thesis
    using assms appends_extends [OF assms(1)] by (auto simp: advances_def appends_def unchanged_def)
qed

text \<open>Moving the place of insertion adds no code.\<close>

lemma pointed:
  "code V (ll_set_insert_point L (Some bb) m) = code V m"
  "ll_insert_block L (ll_set_insert_point L (Some bb) m) = Some bb"
  "unchanged L V m (ll_set_insert_point L (Some bb) m)"
  using laws unfolding builder_laws_def by blast+

lemma new_blocks:
  assumes "ll_new_block L name fn m = (bb, m')"
  shows "code V m' = (code V m)(bb := [])" "ll_insert_block L m' = ll_insert_block L m" "\<not> known V m bb"
    "known V m' bb" "ll_is L m' IsBlock bb" "bb \<noteq> ll_constant L (PoisonC VoidT)" "unchanged L V m m'"
  using laws assms unfolding builder_laws_def by blast+

subsection \<open>Assignments\<close>

lemma simulates_store:
  assumes "delivers V P m c v f" and "appends L V bb m c m1" and "ll_build L (CreateStore v (va_place P x) vol) m1 = (y, m2)"
    and "known V m bb" and "x \<in> va_names P" and "inj_on (va_place P) (va_names P)"
    and "\<And>env mem. holds P env mem \<Longrightarrow> f env = (type_bits (va_type P x), assigned (type_bits (va_type P x)) env x op a)"
    and "\<And>env mem. holds P env mem \<Longrightarrow> residue (va_type P x) (snd (f env))"
  shows "simulates V P (Assign x op a) m bb m2 bb"
  unfolding simulates_def
proof (intro allI impI does_assign)
  fix C env regs mem
  let ?store = "CreateStore v (va_place P x) vol"
  assume C: "covers V m2 C" and env: "holds P env mem"
  have bb: "ll_insert_block L m1 = Some bb" using assms(2) by (simp add: appends_def)
  have app: "appends L V bb m (c @ [(y, ?store)]) m2"
    using appends_trans [OF assms(2) built_appends [OF assms(3) bb placed_always(3)]] by simp
  have start: "behind_code V C m bb = c @ (y, ?store) # behind_code V C m2 bb"
    using behind_appended [OF app C assms(4)] by simp
  obtain regs' where run: "runs (number V) C (c @ (y, ?store) # behind_code V C m2 bb, regs, mem)
        ((y, ?store) # behind_code V C m2 bb, regs', mem)" and v: "value_of (number V) regs' v = Some (f env)"
    using assms(1) env unfolding delivers_def by blast
  note run
  also have "runs (number V) C ((y, ?store) # behind_code V C m2 bb, regs', mem)
      (behind_code V C m2 bb, regs', mem(va_place P x := Some (f env)))"
    by (rule run_store [OF v])
  finally have "runs (number V) C (behind_code V C m bb, regs, mem)
      (behind_code V C m2 bb, regs', mem(va_place P x := Some (f env)))"
    by (simp add: start)
  moreover have "holds P (env(x := assigned (type_bits (va_type P x)) env x op a)) (mem(va_place P x := Some (f env)))"
    using env assms(5,6) assms(7) [OF env] assms(8) [OF env] by (auto simp: holds_def inj_on_eq_iff)
  ultimately show "\<exists>regs' mem'. runs (number V) C (behind_code V C m bb, regs, mem)
      (behind_code V C m2 bb, regs', mem') \<and> holds P (env(x := assigned (type_bits (va_type P x)) env x op a)) mem'" by blast
qed

lemma evaluates_variable:
  assumes "variable_of t (va_type P) p = Some x" and "x \<in> va_names P"
  shows "evaluates L V P t (emit_at (emitting L (Suc k) g (Suc n)) p) (\<lambda>env. (type_bits (va_type P x), env x))"
proof -
  obtain e node where e: "as_expr t p = Some e" "ex_body e = SymbolExpr node x" "ex_type e = Static (va_type P x)"
      "integer_type (va_type P x)" "plain_flags e"
    using variable_cases [OF assms(1)] by metis
  have "evaluates L V P t (expr_emit (emitting L (Suc k) g n) e no_params) (\<lambda>env. (type_bits (va_type P x), env x))"
    using evaluates_symbol [OF assms(2) e(4,3,5), of "emitting L (Suc k) g n" k t no_params] e(2)
    by (simp add: expr_emit_def)
  then show ?thesis unfolding emit_at_def by (rule evaluates_emit [OF e(1)])
qed

text \<open>The value that is assigned is cast to its own type.\<close>

lemma delivers_cast:
  assumes "delivers V P m c v (\<lambda>env. (n, f env))" and "appends L V bb m c m1"
    and "ll_build L (CreateCast v sg (IntT n) sg) m1 = (w, m2)"
  obtains d where "delivers V P m d w (\<lambda>env. (n, f env mod 2 ^ n))" "appends L V bb m d m2" "lasting V m2 w"
proof -
  have bb: "ll_insert_block L m1 = Some bb" using assms(2) by (simp add: appends_def)
  obtain d where d: "appends L V bb m1 d m2" "lasting V m2 w" "computes V m1 d w (CreateCast v sg (IntT n) sg)"
    by (rule built_value [OF assms(3) bb]) simp_all
  have "delivers V P m (c @ d) w (\<lambda>env. (n, f env mod 2 ^ n))"
    by (rule delivers_then [OF assms(1) d(3) assms(2)]) (simp add: cast_value_def)
  then show thesis using that appends_trans [OF assms(2) d(1)] d(2) by blast
qed

lemma run_assigned:
  assumes x: "variable_of t (va_type P) lhs = Some x" "x \<in> va_names P"
    and a: "arith_of (Suc n) t (va_type P) (va_type P x) rhs = Some a" "avars a \<subseteq> va_names P"
    and s: "nodes s = nodes t" "ready L V P bb s"
  obtains v c m where
    "\<And>F :: 'v option \<Rightarrow> ('m, 'v, 'v option) em. bnd (e_emit (emitting L (Suc k) g (Suc n)) rhs (to_target (Some (va_place P x))))
        (\<lambda>r. case r of None \<Rightarrow> ret None | Some v \<Rightarrow> bnd (coerce_assigned (emitting L (Suc k) g (Suc n)) lhs rhs v) F) s =
      F (Some v) (s\<lparr>em_llvm := m\<rparr>)"
    "appends L V bb (em_llvm s) c m" "lasting V m v"
    "delivers V P (em_llvm s) c v (\<lambda>env. (type_bits (va_type P x), aval (type_bits (va_type P x)) env a mod 2 ^ type_bits (va_type P x)))"
proof -
  let ?e = "emitting L (Suc k) g (Suc n)" and ?b = "va_type P x"
  obtain xl where xl: "as_expr t lhs = Some xl" "ex_type xl = Static ?b" "integer_type ?b"
    using variable_cases [OF x(1)] by metis
  obtain xr where xr: "as_expr t rhs = Some xr" "ex_type xr = Static ?b"
    using a(1) by (auto split: option.splits if_splits)
  obtain v c m1 where v: "e_emit ?e rhs (to_target (Some (va_place P x))) s = Inr (Some v, s\<lparr>em_llvm := m1\<rparr>)"
      "appends L V bb (em_llvm s) c m1" "delivers V P (em_llvm s) c v (\<lambda>env. (type_bits ?b, aval (type_bits ?b) env a))"
    using evaluatesD [OF evaluates_arith [OF a(1) xl(3) a(2)] s] by metis
  let ?i = "CreateCast v (type_signed ?b) (IntT (type_bits ?b)) (type_signed ?b)"
  obtain w m2 where b: "ll_build L ?i m1 = (w, m2)" by fastforce
  note types = run_expr_type [of "s\<lparr>em_llvm := m1\<rparr>" t, OF _ xl(1)] run_expr_type [of "s\<lparr>em_llvm := m1\<rparr>" t, OF _ xr(1)]
  have "coerce_assigned ?e lhs rhs v (s\<lparr>em_llvm := m1\<rparr>) = Inr (Some w, s\<lparr>em_llvm := m2\<rparr>)"
    using types s(1) b xl(2,3) xr(2)
    by (simp add: coerce_assigned_def bnd_def query_def rbind_def coerce_integer run_some run_build
       )
  moreover obtain d where "delivers V P (em_llvm s) d w
      (\<lambda>env. (type_bits ?b, aval (type_bits ?b) env a mod 2 ^ type_bits ?b))"
      "appends L V bb (em_llvm s) d m2" "lasting V m2 w"
    by (rule delivers_cast [OF v(3,2) b])
  ultimately show thesis using that [of w m2 d] v(1) by (simp add: bnd_def)
qed


lemma run_assignment_start:
  assumes x: "variable_of t (va_type P) lhs = Some x" "x \<in> va_names P"
    and s: "nodes s = nodes t" "ready L V P bb s"
    and val: "\<And>F :: 'v option \<Rightarrow> ('m, 'v, 'v option) em. bnd (e_emit (emitting L (Suc k) g (Suc n)) rhs (to_target (Some (va_place P x))))
        (\<lambda>r. case r of None \<Rightarrow> ret None | Some v \<Rightarrow> bnd (coerce_assigned (emitting L (Suc k) g (Suc n)) lhs rhs v) F) s =
      F (Some v) s1"
  shows "assignment_emit (emitting L (Suc k) g (Suc n)) tok lhs rhs op s =
    (if op = TkEqual then some (build L (CreateStore v (va_place P x) False))
     else
       bnd (emit_at (emitting L (Suc k) g (Suc n)) lhs) (\<lambda>curr_value.
       case apply_operator op of
         None \<Rightarrow> throw_compile tok ''operator {} is not allowed for op apply'' [enum_name op]
       | Some op' \<Rightarrow>
           bnd (expr_type lhs) (\<lambda>lt.
           bnd (op_binary L (Suc k) lt op' curr_value (Some v)) (\<lambda>new_value.
           bnd (if new_value = None then
                  bnd (type_name_at lt) (\<lambda>name. bnd (expr_token rhs) (\<lambda>tok.
                  throw_compile tok ''this operation is not defined for type of {}'' [name]))
                else ret ()) (\<lambda>_.
           some (build2 L (\<lambda>v p. CreateStore v p False) new_value (Some (va_place P x)))))))) s1"
proof -
  have place: "em_named_values s x = Some (va_place P x)" "ll_is L (em_llvm s) IsPointer (va_place P x)"
      "\<not> ll_metadata L (em_llvm s) (va_place P x) ''Const''"
    using s(2) x(2) by (auto simp: ready_def in_place_def)
  have at: "emit_ptr_at (emitting L (Suc k) g (Suc n)) lhs s = Inr (Some (va_place P x), s)"
    by (rule emit_ptr_variable [OF x(1) s(1) place(1)])
  have const: "get_metadata L (Some (va_place P x)) ''Const'' s = Inr (False, s)"
    using place(3) by (simp add: get_metadata_def nonnull_def inspect_def)
  have pointer: "value_is L IsPointer (va_place P x) s = Inr (True, s)"
    using place(2) by (simp add: value_is_def inspect_def)
  show ?thesis
    unfolding assignment_emit_def Let_def emitting_simps
    by (subst run_bnd_Inr, rule at, subst run_bnd_Inr, rule const, simp only: option.case, subst run_bnd_Inr,
        rule pointer, simp only: not_True_eq_False simp_thms if_False, subst val) (simp)
qed

lemma implements_assign:
  assumes x: "variable_of t (va_type P) lhs = Some x" "x \<in> va_names P" "sound_assign op"
    and a: "arith_of n t (va_type P) (va_type P x) rhs = Some a" "avars a \<subseteq> va_names P"
  shows "implements L V P t (assignment_emit (emitting L (Suc k) g n) tok lhs rhs op) (Assign x op a)"
  unfolding implements_def
proof (intro allI impI)
  fix s bb
  assume s: "nodes s = nodes t" "ready L V P bb s" and open_bb: "\<not> ll_terminated L (em_llvm s) bb"
  obtain n' where n: "n = Suc n'" using a(1) by (cases n) auto
  let ?e = "emitting L (Suc k) g (Suc n')" and ?b = "va_type P x" and ?n = "type_bits (va_type P x)"
  let ?stm = "assignment_emit ?e tok lhs rhs op"
  have known_bb: "known V (em_llvm s) bb" and block: "ll_is L (em_llvm s) IsBlock bb" "bb \<noteq> ll_constant L (PoisonC VoidT)"
    and inj: "inj_on (va_place P) (va_names P)"
    using s(2) by (auto simp: ready_def in_place_def)
  obtain v c m1 where run: "\<And>F :: 'v option \<Rightarrow> ('m, 'v, 'v option) em. bnd (e_emit ?e rhs (to_target (Some (va_place P x))))
        (\<lambda>r. case r of None \<Rightarrow> ret None | Some v \<Rightarrow> bnd (coerce_assigned ?e lhs rhs v) F) s =
      F (Some v) (s\<lparr>em_llvm := m1\<rparr>)"
    and c: "appends L V bb (em_llvm s) c m1" and v: "lasting V m1 v"
      "delivers V P (em_llvm s) c v (\<lambda>env. (?n, aval ?n env a mod 2 ^ ?n))"
    by (rule run_assigned [OF x(1,2) a(1) [unfolded n] a(2) s]) (rule that)
  note start = run_assignment_start [OF x(1,2) s run, of tok op]
  have types: "\<And>y. y \<in> avars a \<Longrightarrow> va_type P y = ?b" using arith_of_vars [OF a(1)] by auto
  then have val: "aval ?n env a mod 2 ^ ?n = aval ?n env a" if "holds P env mem" for env mem
    using residue_aval [OF that a(2)] by (simp add: residue_def)
  have "\<exists>w d m2 f. ?stm s = some (build L (CreateStore w (va_place P x) False)) (s\<lparr>em_llvm := m2\<rparr>) \<and>
      appends L V bb (em_llvm s) d m2 \<and> delivers V P (em_llvm s) d w f \<and>
      (\<forall>env mem. holds P env mem \<longrightarrow> f env = (?n, assigned ?n env x op a) \<and> residue ?b (snd (f env)))"
  proof (cases "op = TkEqual")
    case True
    then have "assigned ?n env x op a = aval ?n env a" for env
      by (simp add: assigned_def apply_operator_def)
    then have "\<forall>env mem. holds P env mem \<longrightarrow> (?n, aval ?n env a mod 2 ^ ?n) = (?n, assigned ?n env x op a) \<and>
        residue ?b (aval ?n env a mod 2 ^ ?n)"
      using val by (metis residue_mod)
    moreover have "?stm s = some (build L (CreateStore v (va_place P x) False)) (s\<lparr>em_llvm := m1\<rparr>)"
      by (subst start) (simp add: True)
    ultimately show ?thesis using c v(2)
      by (intro exI [of _ v] exI [of _ c] exI [of _ m1] exI [of _ "\<lambda>env. (?n, aval ?n env a mod 2 ^ ?n)"]) simp
  next
    case False
    then obtain op' f where op': "apply_operator op = Some op'" "arith_op op' = Some f"
      using x(3) by (auto simp: sound_assign_def apply_operator_def arith_op_def)
    obtain o' where o': "\<And>sg. integer_binop sg op' = Some o'" "op' \<noteq> TkStarStar"
        "\<And>n x y. binop_value o' n x y = Some (n, f x y mod 2 ^ n)"
      using arith_binop [OF op'(2)] by metis
    let ?s1 = "s\<lparr>em_llvm := m1\<rparr>"
    have s1: "nodes ?s1 = nodes t" "ready L V P bb ?s1" using s ready_appends [OF s(2) c] by simp_all
    obtain u d m2 where u: "emit_at ?e lhs ?s1 = Inr (Some u, s\<lparr>em_llvm := m2\<rparr>)" "appends L V bb m1 d m2"
        "delivers V P m1 d u (\<lambda>env. (?n, env x))"
      using evaluates_variable [OF x(1,2), of k g n', unfolded evaluates_def, rule_format, OF s1] by auto
    let ?i = "CreateBinary o' u v"
    obtain z m3 where b: "ll_build L ?i m2 = (z, m3)" by fastforce
    have bb: "ll_insert_block L m2 = Some bb" using u(2) by (simp add: appends_def)
    obtain xl where xl: "as_expr t lhs = Some xl" "ex_type xl = Static ?b" "integer_type ?b"
      using variable_cases [OF x(1)] by metis
    have "?stm s = some (build L (CreateStore z (va_place P x) False)) (s\<lparr>em_llvm := m3\<rparr>)"
      using False u(1) op'(1) run_expr_type [of "s\<lparr>em_llvm := m2\<rparr>" t, OF _ xl(1)] s(1) xl(2) b
      by (subst start) (simp add: bnd_def integer_op_static [OF xl(3) o'(1,2)] run_some run_build)
    moreover obtain r where r: "appends L V bb m2 r m3" "computes V m2 r z ?i"
      by (rule built_value [OF b bb]) (simp_all add: integer_op_computes [OF o'(3)])
    moreover have "appends L V bb (em_llvm s) (c @ d @ r) m3"
      using appends_trans [OF appends_trans [OF c u(2)] r(1)] by simp
    moreover have "delivers V P (em_llvm s) (c @ d @ r) z (\<lambda>env. (?n, f (env x) (aval ?n env a) mod 2 ^ ?n))"
      by (rule delivers_both [OF v(2) c v(1) u(3,2) r(2)]) (simp add: o'(3) val)
    moreover have "assigned ?n env x op a = f (env x) (aval ?n env a) mod 2 ^ ?n" for env
      by (simp add: assigned_def op')
    ultimately show ?thesis
      by (intro exI [of _ z] exI [of _ "c @ d @ r"] exI [of _ m3]
          exI [of _ "\<lambda>env. (?n, f (env x) (aval ?n env a) mod 2 ^ ?n)"]) simp
  qed
  then obtain w d m2 f where stm: "?stm s = some (build L (CreateStore w (va_place P x) False)) (s\<lparr>em_llvm := m2\<rparr>)"
    and d: "appends L V bb (em_llvm s) d m2" "delivers V P (em_llvm s) d w f"
    and f: "\<forall>env mem. holds P env mem \<longrightarrow> f env = (?n, assigned ?n env x op a) \<and> residue ?b (snd (f env))"
    by (elim exE conjE) (rule that)
  let ?store = "CreateStore w (va_place P x) False"
  obtain y m3 where b: "ll_build L ?store m2 = (y, m3)" by fastforce
  have bb: "ll_insert_block L m2 = Some bb" using d(1) by (simp add: appends_def)
  have "?stm s = Inr (Some y, s\<lparr>em_llvm := m3\<rparr>)" using b by (simp add: stm run_some run_build)
  moreover have "appends L V bb (em_llvm s) (d @ [(y, ?store)]) m3"
    using appends_trans [OF d(1) built_appends [OF b bb placed_always(3)]] by simp
  then have "advances L V (em_llvm s) bb m3 bb" by (rule advances_appends [OF _ known_bb open_bb block])
  moreover have "simulates V P (Assign x op a) (em_llvm s) bb m3 bb"
    by (rule simulates_store [OF d(2,1) b known_bb x(2) inj]) (use f in blast)+
  ultimately show "\<exists>v m' bb'. assignment_emit (emitting L (Suc k) g n) tok lhs rhs op s = Inr (Some v, s\<lparr>em_llvm := m'\<rparr>) \<and>
      advances L V (em_llvm s) bb m' bb' \<and> v \<noteq> ll_constant L (PoisonC VoidT) \<and>
      (v = bb' \<or> \<not> ll_is L m' IsBlock v \<and> bb' = bb) \<and> (straight (Assign x op a) \<longrightarrow> bb' = bb) \<and>
      (ends_in_jump (Assign x op a) \<longrightarrow> bb' \<noteq> bb \<and> code V m' bb' = []) \<and>
      simulates V P (Assign x op a) (em_llvm s) bb m' bb'"
    using built(6,7) [OF b bb placed_always(3)] unfolding n by (intro exI [of _ y] exI [of _ m3] exI [of _ bb]) simp
qed


subsection \<open>Blocks\<close>

lemma extends_point: "extends L V m (ll_set_insert_point L (Some bb) m)"
  by (simp add: extends_def pointed)

lemma point_keeps:
  "known V m u \<Longrightarrow> known V (ll_set_insert_point L (Some bb) m) u"
  "known V m u \<Longrightarrow> ll_is L (ll_set_insert_point L (Some bb) m) c u = ll_is L m c u"
  "ll_terminated L (ll_set_insert_point L (Some bb) m) b = ll_terminated L m b"
  using pointed [where m = m and bb = bb] by (auto simp: unchanged_def terminated_iff)

lemma advances_point:
  assumes "advances L V m bb m1 bb1"
  shows "advances L V m bb (ll_set_insert_point L (Some bb1) m1) bb1"
  using assms extends_step [OF _ extends_point] by (auto simp: advances_def pointed point_keeps)

lemma simulates_same_code:
  assumes "simulates V P c m bb m1 bb1" and "code V m2 bb1 = code V m1 bb1" and "extends L V m1 m2"
  shows "simulates V P c m bb m2 bb1"
  using assms covers_extends [OF _ assms(3)] unfolding simulates_def behind_code_def by metis

lemma implements_nodes:
  assumes "e_llvm e = L"
    and "list_all2 (\<lambda>p c. implements L V P t (emit_at e p) c \<and> \<not> terminates t p) ps cs"
    and "nodes s = nodes t" "ready L V P bb s" "\<not> ll_terminated L (em_llvm s) bb" "em_if_merge_bbs s = []"
  shows "\<exists>m' bb'. (\<forall>qs. emit_nodes e (Some bb) (ps @ qs) s = emit_nodes e (Some bb') qs (s\<lparr>em_llvm := m'\<rparr>)) \<and>
    advances L V (em_llvm s) bb m' bb' \<and> (straight (Block cs) \<longrightarrow> bb' = bb) \<and>
    (ends_in_jump (Block cs) \<longrightarrow> bb' \<noteq> bb \<and> code V m' bb' = []) \<and> simulates V P (Block cs) (em_llvm s) bb m' bb'"
  using assms(2-)
proof (induction ps cs arbitrary: s bb rule: list_all2_induct)
  case Nil
  have "appends L V bb (em_llvm s) [] (em_llvm s)" using Nil(2) by (simp add: ready_def)
  from advances_appends [OF this] have "advances L V (em_llvm s) bb (em_llvm s) bb"
    using Nil(2,3) by (simp add: ready_def)
  moreover have "simulates V P (Block []) (em_llvm s) bb (em_llvm s) bb"
    unfolding simulates_def by (simp add: does_nothing)
  ultimately show ?case by (intro exI [of _ "em_llvm s"] exI [of _ bb]) simp
next
  case (Cons p ps c cs)
  have imp: "implements L V P t (emit_at e p) c" and no_end: "\<not> terminates t p" using Cons(1) by simp_all
  obtain v m1 bb1 where v: "emit_at e p s = Inr (Some v, s\<lparr>em_llvm := m1\<rparr>)" "advances L V (em_llvm s) bb m1 bb1"
      "v \<noteq> ll_constant L (PoisonC VoidT)" "v = bb1 \<or> \<not> ll_is L m1 IsBlock v \<and> bb1 = bb"
      "straight c \<longrightarrow> bb1 = bb" "ends_in_jump c \<longrightarrow> bb1 \<noteq> bb \<and> code V m1 bb1 = []"
      "simulates V P c (em_llvm s) bb m1 bb1"
    by (rule implementsD [OF imp Cons(4-7)])
  let ?m2 = "ll_set_insert_point L (Some bb1) m1"
  let ?s2 = "s\<lparr>em_llvm := ?m2\<rparr>"
  have adv: "advances L V (em_llvm s) bb ?m2 bb1" by (rule advances_point [OF v(2)])
  have s2: "nodes ?s2 = nodes t" "ready L V P bb1 ?s2" "\<not> ll_terminated L (em_llvm ?s2) bb1" "em_if_merge_bbs ?s2 = []"
    using Cons(4-7) ready_advances [OF Cons(5) adv] adv by (auto simp: advances_def)
  obtain m3 bb3 where r: "\<forall>qs. emit_nodes e (Some bb1) (ps @ qs) ?s2 = emit_nodes e (Some bb3) qs (s\<lparr>em_llvm := m3\<rparr>)"
      "advances L V ?m2 bb1 m3 bb3" "straight (Block cs) \<longrightarrow> bb3 = bb1"
      "ends_in_jump (Block cs) \<longrightarrow> bb3 \<noteq> bb1 \<and> code V m3 bb3 = []" "simulates V P (Block cs) ?m2 bb1 m3 bb3"
    using Cons.IH [OF s2] by auto
  have "block_of e (Some bb) (Some v) (s\<lparr>em_llvm := m1\<rparr>) = Inr (Some bb1, s\<lparr>em_llvm := m1\<rparr>)"
    using v(2,4) assms(1) by (auto simp: block_of_def value_is_def inspect_def bnd_def advances_def)
  moreover have "terminates ?s2 p = terminates t p"
    using as_stmt_cong [OF s2(1)] by (simp add: terminates_def)
  ultimately have "\<forall>qs. emit_nodes e (Some bb) ((p # ps) @ qs) s = emit_nodes e (Some bb3) qs (s\<lparr>em_llvm := m3\<rparr>)"
    using v(1,3) r(1) no_end assms(1)
    by (simp add: bnd_def is_block_poison_def get_block_poison_def set_insert_point_def perform_def)
  moreover have bb: "known V (em_llvm s) bb" using Cons(5) by (simp add: ready_def)
  moreover have "advances L V (em_llvm s) bb m3 bb3" by (rule advances_trans [OF adv r(2) bb])
  moreover have "simulates V P (Block (c # cs)) (em_llvm s) bb m3 bb3"
    using simulates_trans [OF simulates_same_code [OF v(7) _ extends_point] r(5)] r(2)
    by (simp add: pointed advances_def)
  moreover have "bb3 \<noteq> bb" if "bb3 \<noteq> bb1"
    using r(2) that adv bb by (auto simp: advances_def extends_known)
  moreover have "ends_in_jump (Block (c # cs)) \<longrightarrow> bb3 \<noteq> bb \<and> code V m3 bb3 = []"
  proof (cases cs)
    case Nil
    then have "ps = []" using Cons(2) by simp
    then have same: "bb3 = bb1" "s\<lparr>em_llvm := m3\<rparr> = ?s2" using r(1) [rule_format, of "[]"] by auto
    have "m3 = ?m2" using arg_cong [OF same(2), of em_llvm] by simp
    then show ?thesis using Nil same(1) v(6) pointed(1) [where m = m1 and bb = bb1] by simp
  next
    case (Cons c' cs')
    then show ?thesis using r(4) \<open>bb3 \<noteq> bb1 \<Longrightarrow> bb3 \<noteq> bb\<close> by simp
  qed
  moreover have "straight (Block (c # cs)) \<longrightarrow> bb3 = bb" using v(5) r(3) by simp
  ultimately show ?case by (intro exI [of _ m3] exI [of _ bb3]) blast
qed


lemma implements_block:
  assumes "e_llvm e = L"
    and "list_all2 (\<lambda>p c. implements L V P t (emit_at e p) c \<and> \<not> terminates t p) ps cs"
  shows "implements L V P t (block_emit e ps) (Block cs)"
  unfolding implements_def
proof (intro allI impI)
  fix s bb
  assume s: "nodes s = nodes t" "ready L V P bb s" "\<not> ll_terminated L (em_llvm s) bb" "em_if_merge_bbs s = []"
  obtain m' bb' where r: "\<forall>qs. emit_nodes e (Some bb) (ps @ qs) s = emit_nodes e (Some bb') qs (s\<lparr>em_llvm := m'\<rparr>)"
      "advances L V (em_llvm s) bb m' bb'" "straight (Block cs) \<longrightarrow> bb' = bb"
      "ends_in_jump (Block cs) \<longrightarrow> bb' \<noteq> bb \<and> code V m' bb' = []" "simulates V P (Block cs) (em_llvm s) bb m' bb'"
    using implements_nodes [OF assms s] by blast
  have "block_emit e ps s = Inr (Some bb', s\<lparr>em_llvm := m'\<rparr>)"
    using r(1) [rule_format, of "[]"] s(2) assms(1) by (simp add: block_emit_def insert_block_def inspect_def bnd_def ready_def)
  moreover have "bb' \<noteq> ll_constant L (PoisonC VoidT)" using r(2) by (simp add: advances_def)
  ultimately show "\<exists>v m' bb'. block_emit e ps s = Inr (Some v, s\<lparr>em_llvm := m'\<rparr>) \<and>
      advances L V (em_llvm s) bb m' bb' \<and> v \<noteq> ll_constant L (PoisonC VoidT) \<and>
      (v = bb' \<or> \<not> ll_is L m' IsBlock v \<and> bb' = bb) \<and> (straight (Block cs) \<longrightarrow> bb' = bb) \<and>
      (ends_in_jump (Block cs) \<longrightarrow> bb' \<noteq> bb \<and> code V m' bb' = []) \<and> simulates V P (Block cs) (em_llvm s) bb m' bb'"
    using r(2-5) by blast
qed

subsection \<open>Branches\<close>

lemma emit_branch:
  assumes imp: "implements L V P t (emit_at e body) c" and e: "e_llvm e = L"
    and s: "nodes s = nodes t" "ready L V P bb s" "em_if_merge_bbs s = []"
    and new: "ll_new_block L name fn (em_llvm s) = (tb, m1)"
  obtains v m2 tb' where
    "emit_at e body (s\<lparr>em_llvm := ll_set_insert_point L (Some tb) m1\<rparr>) = Inr (Some v, s\<lparr>em_llvm := m2\<rparr>)"
    "branch L V P c (em_llvm s) tb m2 tb'"
proof -
  note nb = new_blocks [OF new]
  let ?m = "ll_set_insert_point L (Some tb) m1"
  let ?s = "s\<lparr>em_llvm := ?m\<rparr>"
  have ext: "extends L V (em_llvm s) ?m"
    using nb unchanged_trans [OF nb(7) pointed(3)] by (auto simp: extends_def pointed)
  have code: "code V ?m tb = []" by (simp add: pointed nb)
  have s1: "nodes ?s = nodes t" "\<not> ll_terminated L (em_llvm ?s) tb" "em_if_merge_bbs ?s = []"
    using s(1,3) by (simp_all add: terminated_iff code)
  have r: "ready L V P tb ?s"
    using s(2) ext nb by (auto simp: ready_def in_place_def extends_def unchanged_def pointed point_keeps)
  obtain v m2 tb' where
    v: "emit_at e body ?s = Inr (Some v, s\<lparr>em_llvm := m2\<rparr>)" and adv: "advances L V ?m tb m2 tb'"
    and shape: "straight c \<longrightarrow> tb' = tb" "ends_in_jump c \<longrightarrow> tb' \<noteq> tb \<and> code V m2 tb' = []"
    and sim: "simulates V P c ?m tb m2 tb'"
    by (rule implementsD [OF imp s1(1) r s1(2,3)]) (rule that; simp)
  have "extends L V (em_llvm s) m2" using adv ext by (auto simp: advances_def intro: extends_step)
  moreover have "code V m2 b = code V (em_llvm s) b" if "known V (em_llvm s) b" for b
    using adv that nb ext extends_known [OF ext that] by (auto simp: advances_def pointed)
  moreover have "known V m2 tb" using adv nb(4) by (auto simp: advances_def point_keeps intro: extends_known)
  moreover have "\<not> known V (em_llvm s) tb'"
    using adv nb(3) extends_known [OF ext] by (auto simp: advances_def)
  moreover have "tb' = tb \<or> ll_terminated L m2 tb" using adv by (auto simp: advances_def)
  moreover have "behind_code V C ?m tb = C tb" for C by (simp add: behind_start code)
  then have "\<forall>C. covers V m2 C \<longrightarrow> does (number V) C P c (C tb) (behind_code V C m2 tb')"
    using sim unfolding simulates_def by simp
  ultimately have "branch L V P c (em_llvm s) tb m2 tb'"
    using adv shape nb(3) unfolding branch_def advances_def by blast
  with v show thesis by (rule that)
qed


lemma run_point: "e_llvm e = L \<Longrightarrow> set_insert_point e bb s = Inr ((), s\<lparr>em_llvm := ll_set_insert_point L bb (em_llvm s)\<rparr>)"
  by (simp add: set_insert_point_def perform_def)

lemma run_new_block:
  "e_llvm e = L \<Longrightarrow> ll_new_block L name fn (em_llvm s) = (bb, m) \<Longrightarrow> new_block e name fn s = Inr (bb, s\<lparr>em_llvm := m\<rparr>)"
  by (simp add: new_block_def obtains_value_def)

lemma run_insert_block: "e_llvm e = L \<Longrightarrow> insert_block e s = Inr (ll_insert_block L (em_llvm s), s)"
  by (simp add: insert_block_def inspect_def)

text \<open>A jump at the end of a block.\<close>

lemma run_jump:
  assumes "always_placed i"
  obtains j m where "build L i (s\<lparr>em_llvm := ll_set_insert_point L (Some bb) (em_llvm s)\<rparr>) = Inr (j, s\<lparr>em_llvm := m\<rparr>)"
    "unchanged L V (em_llvm s) m" "ll_insert_block L m = Some bb"
    "code V m = (code V (em_llvm s))(bb := code V (em_llvm s) bb @ [(j, i)])"
proof -
  let ?m = "ll_set_insert_point L (Some bb) (em_llvm s)"
  obtain j m where b: "ll_build L i ?m = (j, m)" by fastforce
  note new = built [OF b pointed(2) assms]
  show thesis
    by (rule that [of j m]) (use b new unchanged_trans [OF pointed(3) new(8)] in \<open>auto simp: run_build pointed\<close>)
qed

lemma run_maybe_br:
  assumes "e_llvm e = L"
  obtains k m where "maybe_br e b nb s = Inr ((), s\<lparr>em_llvm := m\<rparr>)" "unchanged L V (em_llvm s) m"
    "code V m = closed_with k nb b (code V (em_llvm s))"
proof (cases "ll_terminated L (em_llvm s) b")
  case True
  then have "maybe_br e b nb s = Inr ((), s\<lparr>em_llvm := em_llvm s\<rparr>)"
    using assms by (simp add: maybe_br_def terminated_def inspect_def bnd_def)
  then show thesis by (rule that) (use True in \<open>auto simp: terminated_iff closed_with_def\<close>)
next
  case False
  obtain j m where "build L (CreateBr nb) (s\<lparr>em_llvm := ll_set_insert_point L (Some b) (em_llvm s)\<rparr>) =
      Inr (j, s\<lparr>em_llvm := m\<rparr>)" "unchanged L V (em_llvm s) m"
      "code V m = (code V (em_llvm s))(b := code V (em_llvm s) b @ [(j, CreateBr nb)])"
    using run_jump [OF placed_always(1)] by metis
  moreover from this have "maybe_br e b nb s = Inr ((), s\<lparr>em_llvm := m\<rparr>)"
    using False assms by (simp add: maybe_br_def terminated_def inspect_def bnd_def run_point)
  moreover have "closed_with j nb b (code V (em_llvm s)) = (code V (em_llvm s))(b := code V (em_llvm s) b @ [(j, CreateBr nb)])"
    using False by (auto simp: terminated_iff closed_with_def)
  ultimately show thesis using that [of m j] by simp
qed

lemma run_join:
  assumes "e_llvm e = L"
  obtains j k l m where "join_branches e (Some c) bb tb eb mb s = Inr ((), s\<lparr>em_llvm := m\<rparr>)"
    "unchanged L V (em_llvm s) m" "ll_insert_block L m = Some mb"
    "code V m = (case eb of None \<Rightarrow> id | Some b \<Rightarrow> closed_with l mb b)
      (closed_with k mb tb ((code V (em_llvm s))(bb := code V (em_llvm s) bb @
        [(j, CreateCondBr c tb (case eb of None \<Rightarrow> mb | Some b \<Rightarrow> b))])))"
proof -
  let ?i = "CreateCondBr c tb (case eb of None \<Rightarrow> mb | Some b \<Rightarrow> b)"
  obtain j m1 where j: "build L ?i (s\<lparr>em_llvm := ll_set_insert_point L (Some bb) (em_llvm s)\<rparr>) =
      Inr (j, s\<lparr>em_llvm := m1\<rparr>)" "unchanged L V (em_llvm s) m1"
      "code V m1 = (code V (em_llvm s))(bb := code V (em_llvm s) bb @ [(j, ?i)])"
    using run_jump [OF placed_always(2)] by metis
  obtain k m2 where k: "maybe_br e tb mb (s\<lparr>em_llvm := m1\<rparr>) = Inr ((), s\<lparr>em_llvm := m2\<rparr>)" "unchanged L V m1 m2"
      "code V m2 = closed_with k mb tb (code V m1)"
    by (rule run_maybe_br [OF assms, of tb mb "s\<lparr>em_llvm := m1\<rparr>"]) (rule that; simp)
  obtain l m3 where l: "(case eb of None \<Rightarrow> ret () | Some b \<Rightarrow> maybe_br e b mb) (s\<lparr>em_llvm := m2\<rparr>) =
      Inr ((), s\<lparr>em_llvm := m3\<rparr>)" "unchanged L V m2 m3"
      "code V m3 = (case eb of None \<Rightarrow> id | Some b \<Rightarrow> closed_with l mb b) (code V m2)"
  proof (cases eb)
    case None
    then show thesis using that [of m2] by simp
  next
    case (Some b)
    show thesis by (rule run_maybe_br [OF assms, of b mb "s\<lparr>em_llvm := m2\<rparr>"]) (rule that; simp add: Some)
  qed
  let ?m = "ll_set_insert_point L (Some mb) m3"
  have "join_branches e (Some c) bb tb eb mb s = Inr ((), s\<lparr>em_llvm := ?m\<rparr>)"
    using j(1) k(1) l(1) assms by (simp add: join_branches_def bnd_def run_point)
  moreover have "unchanged L V (em_llvm s) ?m"
    using j(2) k(2) l(2) pointed(3) by (blast intro: unchanged_trans)
  ultimately show thesis using that [of ?m l k j] j(3) k(3) l(3) by (simp add: pointed)
qed


lemma advances_new:
  assumes "unchanged L V m m'" and "\<And>b. known V m b \<Longrightarrow> b \<noteq> bb \<Longrightarrow> code V m' b = code V m b"
    and "code V m' bb = code V m bb @ c @ [(j, i)]" and "is_jump i" and "ll_insert_block L m' = Some mb"
    and "code V m' mb = []" and "known V m' mb" and "ll_is L m' IsBlock mb" and "mb \<noteq> ll_constant L (PoisonC VoidT)"
    and "\<not> known V m mb"
  shows "advances L V m bb m' mb"
proof -
  have "prefix (code V m b) (code V m' b)" if "known V m b" for b
    using assms(2) [OF that] assms(3) by (cases "b = bb") auto
  then have "extends L V m m'" using assms(1) by (simp add: extends_def)
  then show ?thesis using assms(2-) by (auto simp: advances_def terminated_iff)
qed

subsection \<open>Conditionals\<close>

text \<open>The block in which the branches meet is new and empty.\<close>

lemma run_push_merge:
  assumes e: "e_llvm e = L" and br: "branch L V P c m1 tb m tb'" and tidy: "straight c \<or> ends_in_jump c"
    and merges: "em_if_merge_bbs s = []" and m: "em_llvm s = m"
  obtains mb pop m' where
    "push_merge e fn tb s = Inr ((mb, pop), s\<lparr>em_llvm := m', em_if_merge_bbs := if pop then [mb] else []\<rparr>)"
    "meeting L V m1 m mb m'" "mb \<noteq> tb" "tb' = tb \<or> tb' = mb \<and> code V m tb' = []"
proof (cases "straight c")
  case True
  then have tb': "tb' = tb" "ll_insert_block L m = Some tb" using br by (auto simp: branch_def)
  obtain mb m' where new: "ll_new_block L ''merge'' fn m = (mb, m')" by fastforce
  note nb = new_blocks [OF new]
  have "push_merge e fn tb s = Inr ((mb, True), s\<lparr>em_llvm := m', em_if_merge_bbs := [mb]\<rparr>)"
    using e m merges new tb'(2) by (simp add: push_merge_def bnd_def run_insert_block run_new_block)
  moreover have "meeting L V m1 m mb m'" "mb \<noteq> tb"
    using br nb by (auto simp: meeting_def branch_def extends_def unchanged_def)
  ultimately show thesis using that [of mb True m'] tb'(1) by simp
next
  case False
  then have tb': "tb' \<noteq> tb" "code V m tb' = []" "ll_insert_block L m = Some tb'" "meeting L V m1 m tb' m"
    using br tidy by (auto simp: branch_def meeting_def)
  have "s = s\<lparr>em_llvm := m, em_if_merge_bbs := []\<rparr>" using merges m by simp
  then have "push_merge e fn tb s = Inr ((tb', False), s\<lparr>em_llvm := m, em_if_merge_bbs := []\<rparr>)"
    using e m tb'(1,3) by (simp add: push_merge_def bnd_def run_insert_block nonnull_def)
  then show thesis using that [of tb' False m] tb' by simp
qed

text \<open>The condition and the first branch.\<close>

lemma run_if_start:
  assumes e: "e_llvm e = L" and b: "evaluates L V P t (emit_at e cond) f" and c: "implements L V P t (emit_at e body) c"
    and s: "nodes s = nodes t" "ready L V P bb s" "em_if_merge_bbs s = []"
  obtains v cc m1 fn tb m3 tb' where
    "\<And>x. if_emit e cond body x s = finish_if e (Some v) bb fn tb x (s\<lparr>em_llvm := m3\<rparr>)"
    "appends L V bb (em_llvm s) cc m1" "delivers V P (em_llvm s) cc v f" "branch L V P c m1 tb m3 tb'"
    "ready L V P bb (s\<lparr>em_llvm := m1\<rparr>)"
proof -
  obtain v cc m1 where v: "emit_at e cond s = Inr (Some v, s\<lparr>em_llvm := m1\<rparr>)" "appends L V bb (em_llvm s) cc m1"
      "delivers V P (em_llvm s) cc v f"
    by (rule evaluatesD [OF b s(1,2)])
  let ?s1 = "s\<lparr>em_llvm := m1\<rparr>" and ?fn = "ll_parent L m1 bb"
  have s1: "nodes ?s1 = nodes t" "ready L V P bb ?s1" "em_if_merge_bbs ?s1 = []"
    using s ready_appends [OF s(2) v(2)] by simp_all
  obtain tb m2 where new: "ll_new_block L ''then'' ?fn (em_llvm ?s1) = (tb, m2)" by fastforce
  obtain w m3 tb' where body: "emit_at e body (?s1\<lparr>em_llvm := ll_set_insert_point L (Some tb) m2\<rparr>) =
        Inr (Some w, ?s1\<lparr>em_llvm := m3\<rparr>)" and br: "branch L V P c (em_llvm ?s1) tb m3 tb'"
    by (rule emit_branch [OF c e s1 new])
  have "new_block e ''then'' ?fn ?s1 = Inr (tb, s\<lparr>em_llvm := m2\<rparr>)"
    using run_new_block [OF e new] by simp
  moreover have "parent_of e bb ?s1 = Inr (?fn, ?s1)" using e by (simp add: parent_of_def inspect_def)
  moreover have "ll_insert_block L m1 = Some bb" using v(2) by (simp add: appends_def)
  ultimately have "if_emit e cond body x s = finish_if e (Some v) bb ?fn tb x (s\<lparr>em_llvm := m3\<rparr>)" for x
    using v(1) body e by (simp add: if_emit_def bnd_def run_insert_block run_point nonnull_def)
  then show thesis using that v(2,3) br s1(2) by simp
qed

text \<open>A conditional jump behind the code of its condition.\<close>

lemma run_condition:
  assumes "delivers V P m cc v (truth f)" and "holds P env mem" and "covers V m' C" and "known V m' bb"
    and "code V m' bb = code V m bb @ cc @ [(j, CreateCondBr v tb eb)]"
  obtains regs' where
    "runs (number V) C (behind_code V C m bb, regs, mem) (C (if f env then tb else eb), regs', mem)"
proof -
  have "prefix (code V m' bb) (C bb)" using assms(3,4) by (simp add: covers_def)
  then obtain rest where "C bb = code V m bb @ cc @ (j, CreateCondBr v tb eb) # rest"
    by (auto simp: prefix_def assms(5))
  then have start: "behind_code V C m bb = cc @ (j, CreateCondBr v tb eb) # rest" by (simp add: behind_code_def)
  obtain regs1 where run: "runs (number V) C (behind_code V C m bb, regs, mem) ((j, CreateCondBr v tb eb) # rest, regs1, mem)"
      and val: "value_of (number V) regs1 v = Some (1, of_bool (f env))"
    using assms(1,2) unfolding delivers_def start by blast
  show thesis by (rule that [OF runs_trans [OF run run_cond_br [OF val]]])
qed

lemma condition_decides:
  assumes "delivers V P m cc v (truth (\<lambda>env. bval env b))" and "covers V m' C" and "known V m' bb"
    and "code V m' bb = code V m bb @ cc @ [(j, CreateCondBr v tb eb)]"
  shows "decides (number V) C P b (behind_code V C m bb) (C tb) (C eb)"
  unfolding decides_def
proof (intro allI impI)
  fix env regs mem
  assume env: "holds P env mem"
  obtain regs' where "runs (number V) C (behind_code V C m bb, regs, mem) (C (if bval env b then tb else eb), regs', mem)"
    by (rule run_condition [OF assms(1) env assms(2-4)])
  then show "\<exists>regs'. runs (number V) C (behind_code V C m bb, regs, mem) (if bval env b then C tb else C eb, regs', mem)"
    by (auto simp: if_distrib [of C])
qed

text \<open>A jump at the end of the code there was.\<close>

lemma run_closed:
  assumes "covers V m' C" and "known V m' bb" and "code V m' bb = code V m bb @ [(k, CreateBr mb)]"
  shows "machine_step (number V) C (behind_code V C m bb, regs, mem) = Some (C mb, regs, mem)"
proof -
  have "prefix (code V m' bb) (C bb)" using assms(1,2) by (simp add: covers_def)
  then obtain r where "C bb = code V m bb @ (k, CreateBr mb) # r" by (auto simp: prefix_def assms(3))
  then have "behind_code V C m bb = (k, CreateBr mb) # r" by (simp add: behind_code_def)
  then show ?thesis by (simp add: instr_step_def)
qed

text \<open>A branch and the jump to the block where the branches meet.\<close>

lemma branch_does:
  assumes br: "branch L V P c m1 tb m3 tb'" and C: "covers V m' C" and ext: "extends L V m3 m'"
    and at_tb: "code V m' tb = code V m3 tb @ (if tb' = tb then [(k, CreateBr mb)] else [])"
    and meet: "tb' = tb \<or> tb' = mb \<and> code V m3 tb' = []"
  shows "does (number V) C P c (C tb) (C mb)"
proof (rule does_then)
  show "does (number V) C P c (C tb) (behind_code V C m3 tb')"
    using br covers_extends [OF C ext] by (simp add: branch_def)
  have tb: "known V m' tb" using br extends_known [OF ext] by (simp add: branch_def)
  show "runs (number V) C (behind_code V C m3 tb', regs, mem) (C mb, regs, mem)" for regs mem
  proof (cases "tb' = tb")
    case True
    then show ?thesis using runs_one [OF run_closed [OF C tb, of m3 k mb]] at_tb by simp
  next
    case False
    then show ?thesis using meet by (metis behind_start runs.stop)
  qed
qed

lemma run_pop_merge:
  "em_if_merge_bbs s = [] \<Longrightarrow>
   pop_merge pop (s\<lparr>em_llvm := m4, em_if_merge_bbs := if pop then [mb] else []\<rparr>\<lparr>em_llvm := m\<rparr>) =
     Inr ((), s\<lparr>em_llvm := m\<rparr>)"
  by (cases s) (simp add: pop_merge_def)

lemma run_has_terminator:
  "e_llvm e = L \<Longrightarrow> has_terminator e bb s = Inr (case bb of None \<Rightarrow> False | Some b \<Rightarrow> ll_terminated L (em_llvm s) b, s)"
  by (auto simp: has_terminator_def terminated_def inspect_def split: option.split)

text \<open>What a conditional leaves: the builder is in the block in which the branches meet.\<close>

lemma advances_join:
  assumes cc: "appends L V bb m cc m1" and ext: "extends L V m1 m3" and br: "\<And>b. known V m1 b \<Longrightarrow> code V m3 b = code V m1 b"
    and meet: "meeting L V m1 m3 mb m4" and m5: "unchanged L V m4 m5" "ll_insert_block L m5 = Some mb"
    and others: "\<And>b. known V m1 b \<Longrightarrow> b \<noteq> bb \<Longrightarrow> code V m5 b = code V m4 b" "code V m5 mb = code V m4 mb"
    and at_bb: "code V m5 bb = code V m4 bb @ [(j, i)]" and "is_jump i" and bb: "known V m bb"
  shows "advances L V m bb m5 mb" and "code V m5 bb = code V m bb @ cc @ [(j, i)]" and "unchanged L V m m5"
proof -
  have m1: "unchanged L V m m1" "code V m1 = (code V m)(bb := code V m bb @ cc)" using cc by (simp_all add: appends_def)
  have known1: "\<And>b. known V m b \<Longrightarrow> known V m1 b" using m1(1) by (rule unchanged_known)
  have same: "code V m4 b = code V m1 b" if "known V m1 b" for b
    using meet br [OF that] extends_known [OF ext that] that by (auto simp: meeting_def)
  show code: "code V m5 bb = code V m bb @ cc @ [(j, i)]"
    using at_bb same [OF known1 [OF bb]] m1(2) by simp
  show unch: "unchanged L V m m5"
    using unchanged_trans [OF m1(1)] unchanged_trans [OF _ m5(1)] unchanged_trans [of L V m1 m3 m4] ext meet
    by (simp add: meeting_def extends_def)
  have "code V m5 b = code V m b" if "known V m b" "b \<noteq> bb" for b
    using others(1) same known1 that m1(2) by simp
  moreover have "known V m5 mb" "ll_is L m5 IsBlock mb" "\<not> known V m mb"
    using meet m5(1) known1 by (auto simp: meeting_def unchanged_def)
  ultimately show "advances L V m bb m5 mb"
    using meet by (intro advances_new [OF unch _ code \<open>is_jump i\<close> m5(2)]) (auto simp: meeting_def others(2))
qed

lemma prefix_closed: "prefix (C b) (C' b) \<Longrightarrow> prefix (C b) (closed_with k mb tb C' b)"
  by (auto simp: closed_with_def prefix_def)

lemma implements_if:
  assumes e: "e_llvm e = L" and b: "evaluates L V P t (emit_at e cond) (truth (\<lambda>env. bval env b))"
    and c: "implements L V P t (emit_at e body) c" and tidy: "straight c \<or> ends_in_jump c"
  shows "implements L V P t (if_emit e cond body Null) (If b c)"
  unfolding implements_def
proof (intro allI impI)
  fix s :: "('m, 'v) emitter" and bb
  let ?m0 = "em_llvm s"
  assume s: "nodes s = nodes t" "ready L V P bb s" "\<not> ll_terminated L ?m0 bb" "em_if_merge_bbs s = []"
  have known_bb: "known V ?m0 bb" using s(2) by (simp add: ready_def)
  obtain v cc m1 fn tb m3 tb' where start: "\<And>x. if_emit e cond body x s = finish_if e (Some v) bb fn tb x (s\<lparr>em_llvm := m3\<rparr>)"
      and cc: "appends L V bb ?m0 cc m1" "delivers V P ?m0 cc v (truth (\<lambda>env. bval env b))"
      and br: "branch L V P c m1 tb m3 tb'"
    by (rule run_if_start [OF e b c s(1,2,4)]) (rule that)
  obtain mb pop m4 where push: "push_merge e fn tb (s\<lparr>em_llvm := m3\<rparr>) =
        Inr ((mb, pop), s\<lparr>em_llvm := m4, em_if_merge_bbs := if pop then [mb] else []\<rparr>)"
      and m4: "meeting L V m1 m3 mb m4" "mb \<noteq> tb" "tb' = tb \<or> tb' = mb \<and> code V m3 tb' = []"
    by (rule run_push_merge [OF e br tidy, of "s\<lparr>em_llvm := m3\<rparr>" fn]) (use s(4) in \<open>simp_all\<close>)
  let ?s4 = "s\<lparr>em_llvm := m4, em_if_merge_bbs := if pop then [mb] else []\<rparr>" and ?jump = "CreateCondBr v tb mb"
  obtain j k l m5 where join: "join_branches e (Some v) bb tb None mb ?s4 = Inr ((), ?s4\<lparr>em_llvm := m5\<rparr>)"
    and m5: "unchanged L V m4 m5" "ll_insert_block L m5 = Some mb"
      "code V m5 = closed_with k mb tb ((code V m4)(bb := code V m4 bb @ [(j, ?jump)]))"
    by (rule run_join [OF e, of v bb tb None mb ?s4]) (rule that; simp)
  have run: "if_emit e cond body Null s = Inr (Some mb, s\<lparr>em_llvm := m5\<rparr>)"
    using push join run_pop_merge [OF s(4)] e
    by (simp add: start finish_if_def emit_else_def bnd_def run_has_terminator)
  have tb: "known V m3 tb" "\<not> known V m1 tb" "ll_terminated L m3 tb \<longleftrightarrow> tb' \<noteq> tb" using br by (auto simp: branch_def)
  have bb1: "known V m1 bb" using cc(1) known_bb by (auto simp: appends_def unchanged_def)
  then have distinct: "bb \<noteq> tb" "bb \<noteq> mb" using tb(2) m4(1) by (auto simp: meeting_def)
  have tb4: "code V m4 tb = code V m3 tb" using m4(1,2) tb(1) by (simp add: meeting_def)
  have at_tb: "code V m5 tb = code V m3 tb @ (if tb' = tb then [(k, CreateBr mb)] else [])"
    using distinct tb(3) by (auto simp: m5(3) closed_with_def tb4 terminated_iff)
  have adv: "advances L V ?m0 bb m5 mb" and at_bb: "code V m5 bb = code V ?m0 bb @ cc @ [(j, ?jump)]"
      and unch: "unchanged L V ?m0 m5"
    by (rule advances_join [OF cc(1) _ _ m4(1) m5(1,2), where i = ?jump];
        use br distinct m4(2) tb(2) known_bb in \<open>auto simp: branch_def m5(3) closed_with_def\<close>)+
  have at_mb: "code V m5 mb = []" using distinct m4(1,2) by (simp add: m5(3) closed_with_def meeting_def)
  have "extends L V m4 m5" using m5(1) by (auto simp: extends_def m5(3) intro!: prefix_closed)
  then have ext: "extends L V m3 m5" using m4(1) by (auto simp: meeting_def intro: extends_step)
  have "simulates V P (If b c) ?m0 bb m5 mb"
    unfolding simulates_def behind_start [OF at_mb]
    using condition_decides [OF cc(2) _ unchanged_known [OF unch known_bb] at_bb] branch_does [OF br _ ext at_tb m4(3)]
    by (blast intro: does_if)
  then show "\<exists>v m' bb'. if_emit e cond body Null s = Inr (Some v, s\<lparr>em_llvm := m'\<rparr>) \<and>
      advances L V ?m0 bb m' bb' \<and> v \<noteq> ll_constant L (PoisonC VoidT) \<and>
      (v = bb' \<or> \<not> ll_is L m' IsBlock v \<and> bb' = bb) \<and> (straight (If b c) \<longrightarrow> bb' = bb) \<and>
      (ends_in_jump (If b c) \<longrightarrow> bb' \<noteq> bb \<and> code V m' bb' = []) \<and> simulates V P (If b c) ?m0 bb m' bb'"
    using run adv m4(1) distinct(2) at_mb by (auto simp: meeting_def)
qed


text \<open>The second branch, when there is one.\<close>

lemma run_else:
  assumes e: "e_llvm e = L" and br: "branch L V P c m1 tb m3 tb" and d: "implements L V P t (emit_at e x) d"
    and ends: "ends_in_jump d" and x: "x \<noteq> Null"
    and s: "nodes s = nodes t" "ready L V P tb s" "em_if_merge_bbs s = []" "em_llvm s = m3"
  obtains eb m4 mb where "branch L V P d m3 eb m4 mb" "mb \<noteq> tb" "mb \<noteq> eb" "eb \<noteq> tb"
    "finish_if e v bb fn tb x s =
      bnd (join_branches e v bb tb (Some eb) mb) (\<lambda>_. bnd (pop_merge False) (\<lambda>_. ret (Some mb))) (s\<lparr>em_llvm := m4\<rparr>)"
proof -
  obtain eb m2 where new: "ll_new_block L ''else'' fn (em_llvm s) = (eb, m2)" by fastforce
  obtain w m4 mb where body: "emit_at e x (s\<lparr>em_llvm := ll_set_insert_point L (Some eb) m2\<rparr>) =
        Inr (Some w, s\<lparr>em_llvm := m4\<rparr>)" and br2: "branch L V P d (em_llvm s) eb m4 mb"
    by (rule emit_branch [OF d e s(1,2,3) new])
  have br2: "branch L V P d m3 eb m4 mb" using br2 s(4) by simp
  have tb: "known V m3 tb" "\<not> ll_terminated L m3 tb" using br by (auto simp: branch_def)
  have "\<not> ll_terminated L m4 tb" using tb br2 by (auto simp: branch_def terminated_iff)
  moreover have mb: "mb \<noteq> eb" "ll_terminated L m4 eb" "ll_insert_block L m4 = Some mb" "mb \<noteq> tb" "eb \<noteq> tb"
    using br2 ends tb(1) by (auto simp: branch_def)
  moreover have "push_merge e fn tb (s\<lparr>em_llvm := m4\<rparr>) = Inr ((mb, False), s\<lparr>em_llvm := m4\<rparr>)"
    using e mb by (simp add: push_merge_def bnd_def run_insert_block nonnull_def)
  moreover have "emit_else e fn x s = Inr (Some eb, s\<lparr>em_llvm := m4\<rparr>)"
    using body x e run_new_block [OF e new] by (simp add: emit_else_def bnd_def run_point)
  ultimately have "finish_if e v bb fn tb x s =
      bnd (join_branches e v bb tb (Some eb) mb) (\<lambda>_. bnd (pop_merge False) (\<lambda>_. ret (Some mb))) (s\<lparr>em_llvm := m4\<rparr>)"
    by (simp add: finish_if_def bnd_def run_has_terminator e)
  then show thesis using br2 mb by (intro that) auto
qed


lemma ready_branch:
  assumes "ready L V P bb (s\<lparr>em_llvm := m1\<rparr>)" and "branch L V P c m1 tb m3 tb'"
  shows "ready L V P tb' (s\<lparr>em_llvm := m3\<rparr>)"
  using assms by (auto simp: ready_def in_place_def branch_def extends_def unchanged_def)

lemma implements_if_else:
  assumes e: "e_llvm e = L" and b: "evaluates L V P t (emit_at e cond) (truth (\<lambda>env. bval env b))"
    and c: "implements L V P t (emit_at e body) c" "straight c"
    and d: "implements L V P t (emit_at e x) d" "ends_in_jump d" and x: "x \<noteq> Null"
  shows "implements L V P t (if_emit e cond body x) (IfElse b c d)"
  unfolding implements_def
proof (intro allI impI)
  fix s :: "('m, 'v) emitter" and bb
  let ?m0 = "em_llvm s"
  assume s: "nodes s = nodes t" "ready L V P bb s" "\<not> ll_terminated L ?m0 bb" "em_if_merge_bbs s = []"
  have known_bb: "known V ?m0 bb" using s(2) by (simp add: ready_def)
  obtain v cc m1 fn tb m3 tb' where start: "\<And>x. if_emit e cond body x s = finish_if e (Some v) bb fn tb x (s\<lparr>em_llvm := m3\<rparr>)"
      and cc: "appends L V bb ?m0 cc m1" "delivers V P ?m0 cc v (truth (\<lambda>env. bval env b))"
      and br: "branch L V P c m1 tb m3 tb'" and r: "ready L V P bb (s\<lparr>em_llvm := m1\<rparr>)"
    by (rule run_if_start [OF e b c(1) s(1,2,4)]) (rule that)
  have br: "branch L V P c m1 tb m3 tb" using br c(2) by (auto simp: branch_def)
  let ?s3 = "s\<lparr>em_llvm := m3\<rparr>"
  obtain eb m4 mb where br2: "branch L V P d m3 eb m4 mb" and mb: "mb \<noteq> tb" "mb \<noteq> eb" "eb \<noteq> tb"
      and finish: "finish_if e (Some v) bb fn tb x ?s3 =
        bnd (join_branches e (Some v) bb tb (Some eb) mb) (\<lambda>_. bnd (pop_merge False) (\<lambda>_. ret (Some mb))) (?s3\<lparr>em_llvm := m4\<rparr>)"
    by (rule run_else [OF e br d x, of ?s3 "Some v" bb fn]) (use s ready_branch [OF r br] in \<open>auto\<close>)
  let ?s4 = "s\<lparr>em_llvm := m4\<rparr>" and ?jump = "CreateCondBr v tb eb"
  obtain j k l m5 where join: "join_branches e (Some v) bb tb (Some eb) mb ?s4 = Inr ((), s\<lparr>em_llvm := m5\<rparr>)"
    and m5: "unchanged L V m4 m5" "ll_insert_block L m5 = Some mb"
      "code V m5 = closed_with l mb eb (closed_with k mb tb ((code V m4)(bb := code V m4 bb @ [(j, ?jump)])))"
    by (rule run_join [OF e, of v bb tb "Some eb" mb ?s4]) (rule that; simp)
  have run: "if_emit e cond body x s = Inr (Some mb, s\<lparr>em_llvm := m5\<rparr>)"
    using join by (simp add: start finish bnd_def pop_merge_def)
  have ext1: "extends L V m1 m3" "extends L V m3 m4" using br br2 by (simp_all add: branch_def)
  have tb: "known V m3 tb" "\<not> known V m1 tb" "\<not> ll_terminated L m3 tb" "code V m4 tb = code V m3 tb"
    using br br2 by (auto simp: branch_def)
  have eb: "known V m4 eb" "\<not> known V m3 eb" "ll_terminated L m4 eb" "code V m4 mb = []"
    using br2 mb d(2) by (auto simp: branch_def)
  have bb1: "known V m1 bb" using cc(1) known_bb by (auto simp: appends_def unchanged_def)
  then have distinct: "bb \<noteq> tb" "bb \<noteq> mb" "bb \<noteq> eb"
    using tb(2) eb(2) br2 extends_known [OF ext1(1)] by (auto simp: branch_def)
  have meet: "meeting L V m1 m4 mb m4"
    using br2 eb(4) extends_known [OF ext1(1)] by (auto simp: meeting_def branch_def)
  have at_eb: "code V m5 eb = code V m4 eb @ (if mb = eb then [(l, CreateBr mb)] else [])"
    using distinct mb eb(3) by (auto simp: m5(3) closed_with_def terminated_iff)
  have at_tb: "code V m5 tb = code V m3 tb @ (if tb = tb then [(k, CreateBr mb)] else [])"
    using distinct mb tb(3,4) by (auto simp: m5(3) closed_with_def terminated_iff)
  have code_m4: "code V m4 b = code V m1 b" if "known V m1 b" for b
    using br br2 that extends_known [OF ext1(1) that] by (simp add: branch_def)
  have adv: "advances L V ?m0 bb m5 mb" and at_bb: "code V m5 bb = code V ?m0 bb @ cc @ [(j, ?jump)]"
      and unch: "unchanged L V ?m0 m5"
    by (rule advances_join [OF cc(1) extends_step [OF ext1] code_m4 meet m5(1,2), where i = ?jump];
        use distinct mb tb(2) eb(2) known_bb extends_known [OF ext1(1)] in \<open>auto simp: m5(3) closed_with_def\<close>)+
  have at_mb: "code V m5 mb = []" using distinct mb eb(4) by (simp add: m5(3) closed_with_def)
  have ext4: "extends L V m4 m5" using m5(1) by (auto simp: extends_def m5(3) intro!: prefix_closed)
  have ext: "extends L V m3 m5" by (rule extends_step [OF ext1(2) ext4])
  have "simulates V P (IfElse b c d) ?m0 bb m5 mb"
    unfolding simulates_def behind_start [OF at_mb]
    using condition_decides [OF cc(2) _ unchanged_known [OF unch known_bb] at_bb] branch_does [OF br _ ext at_tb]
      branch_does [OF br2 _ ext4 at_eb] eb(4)
    by (blast intro: does_if_else)
  then show "\<exists>v m' bb'. if_emit e cond body x s = Inr (Some v, s\<lparr>em_llvm := m'\<rparr>) \<and>
      advances L V ?m0 bb m' bb' \<and> v \<noteq> ll_constant L (PoisonC VoidT) \<and>
      (v = bb' \<or> \<not> ll_is L m' IsBlock v \<and> bb' = bb) \<and> (straight (IfElse b c d) \<longrightarrow> bb' = bb) \<and>
      (ends_in_jump (IfElse b c d) \<longrightarrow> bb' \<noteq> bb \<and> code V m' bb' = []) \<and> simulates V P (IfElse b c d) ?m0 bb m' bb'"
    using run adv meet distinct(2) at_mb by (auto simp: meeting_def)
qed


subsection \<open>Loops\<close>

text \<open>The body of a loop, from its first block back to the condition.\<close>

lemma run_loop_body:
  assumes e: "e_llvm e = L" and c: "implements L V P t (emit_at e body) c"
    and s: "nodes s = nodes t" "ready L V P tb s" "em_if_merge_bbs s = []" "em_llvm s = m8" "code V m8 tb = []"
    and mb: "known V m8 mb" "mb \<noteq> tb"
  obtains m9 tb' k m where
    "in_loop (mb, hb) (bnd (emit_at e body) (\<lambda>_. bnd (insert_block e) (\<lambda>bb.
       bnd (create_safe_br L bb hb) (\<lambda>_. set_insert_point e (Some mb))))) s = Inr ((), s\<lparr>em_llvm := m\<rparr>)"
    "simulates V P c m8 tb m9 tb'" "advances L V m8 tb m9 tb'" "unchanged L V m9 m" "ll_insert_block L m = Some mb"
    "code V m = (code V m9)(tb' := code V m9 tb' @ [(k, CreateBr hb)])" "code V m9 mb = code V m8 mb" "tb' \<noteq> mb"
proof -
  let ?s = "s\<lparr>em_loop_bbs := (mb, hb) # em_loop_bbs s\<rparr>"
  have s': "nodes ?s = nodes t" "ready L V P tb ?s" "\<not> ll_terminated L (em_llvm ?s) tb" "em_if_merge_bbs ?s = []"
    using s by (simp_all add: ready_def in_place_def terminated_iff)
  obtain v m9 tb' where body: "emit_at e body ?s = Inr (Some v, ?s\<lparr>em_llvm := m9\<rparr>)"
    and adv: "advances L V m8 tb m9 tb'" and sim: "simulates V P c m8 tb m9 tb'"
    by (rule implementsD [OF c s']) (rule that; simp add: s(4))
  have ins: "ll_insert_block L m9 = Some tb'" "\<not> ll_terminated L m9 tb'" using adv by (simp_all add: advances_def)
  obtain k m where b: "ll_build L (CreateBr hb) m9 = (k, m)" by fastforce
  note br = built [OF b ins(1) placed_always(1)]
  let ?m = "ll_set_insert_point L (Some mb) m"
  have "s\<lparr>em_loop_bbs := em_loop_bbs s, em_llvm := ?m\<rparr> = s\<lparr>em_llvm := ?m\<rparr>" by (cases s) simp
  then have "in_loop (mb, hb) (bnd (emit_at e body) (\<lambda>_. bnd (insert_block e) (\<lambda>bb.
       bnd (create_safe_br L bb hb) (\<lambda>_. set_insert_point e (Some mb))))) s = Inr ((), s\<lparr>em_llvm := ?m\<rparr>)"
    using body ins b e
    by (simp add: in_loop_def bnd_def run_insert_block create_safe_br_def inspect_def run_some run_build run_point)
  moreover have "tb' \<noteq> mb" "code V m9 mb = code V m8 mb" using adv mb by (auto simp: advances_def)
  moreover have "unchanged L V m9 ?m" using br(8) pointed(3) by (rule unchanged_trans)
  ultimately show thesis using that sim adv br(1) by (simp add: pointed)
qed

text \<open>The blocks of a loop and its condition.\<close>

lemma run_loop_head:
  assumes e: "e_llvm e = L" and b: "evaluates L V P t (emit_at e cond) f"
    and s: "nodes s = nodes t" "ready L V P bb s" and m0: "em_llvm s = m0"
  obtains hb tb mb v cc j k m3 m8 where
    "while_emit e cond body s = bnd (in_loop (mb, hb) (bnd (emit_at e body) (\<lambda>_. bnd (insert_block e) (\<lambda>bb.
       bnd (create_safe_br L bb hb) (\<lambda>_. set_insert_point e (Some mb)))))) (\<lambda>_. ret (Some mb)) (s\<lparr>em_llvm := m8\<rparr>)"
    "code V m8 = (code V m0)(bb := code V m0 bb @ [(j, CreateBr hb)], hb := cc @ [(k, CreateCondBr v tb mb)],
       tb := [], mb := [])"
    "delivers V P m3 cc v f" "code V m3 hb = []" "ready L V P tb (s\<lparr>em_llvm := m8\<rparr>)" "unchanged L V m0 m8"
    "\<not> known V m0 hb" "\<not> known V m0 tb" "\<not> known V m0 mb" "distinct [bb, hb, tb, mb]"
    "known V m8 hb" "known V m8 mb" "ll_is L m8 IsBlock mb" "mb \<noteq> ll_constant L (PoisonC VoidT)"
proof -
  have bb: "known V m0 bb" "ll_insert_block L m0 = Some bb" using s(2) m0 by (auto simp: ready_def)
  let ?fn = "ll_parent L m0 bb"
  obtain hb m1 where new1: "ll_new_block L ''before'' ?fn m0 = (hb, m1)" by fastforce
  note nb1 = new_blocks [OF new1]
  have ins1: "ll_insert_block L m1 = Some bb" using nb1(2) bb(2) by simp
  obtain j m2 where br: "ll_build L (CreateBr hb) m1 = (j, m2)" by fastforce
  note jump1 = built [OF br ins1 placed_always(1)]
  let ?m3 = "ll_set_insert_point L (Some hb) m2"
  let ?s3 = "s\<lparr>em_llvm := ?m3\<rparr>"
  have u3: "unchanged L V m0 ?m3" using nb1(7) jump1(8) pointed(3) by (blast intro: unchanged_trans)
  have hb3: "known V ?m3 hb" "ll_is L ?m3 IsBlock hb"
    using nb1(4,5) jump1(8) by (auto simp: point_keeps unchanged_def)
  have s3: "nodes ?s3 = nodes t" "ready L V P hb ?s3"
    using s(1,2) u3 hb3 nb1(6) m0 by (auto simp: ready_def in_place_def unchanged_def pointed)
  obtain v cc m4 where v: "emit_at e cond ?s3 = Inr (Some v, s\<lparr>em_llvm := m4\<rparr>)" "appends L V hb ?m3 cc m4"
      "delivers V P ?m3 cc v f"
    by (rule evaluatesD [OF b s3]) (rule that; simp)
  obtain tb m5 where new5: "ll_new_block L ''then'' ?fn m4 = (tb, m5)" by fastforce
  obtain mb m6 where new6: "ll_new_block L ''merge'' ?fn m5 = (mb, m6)" by fastforce
  note nb5 = new_blocks [OF new5] and nb6 = new_blocks [OF new6]
  have app: "ll_insert_block L m4 = Some hb" "unchanged L V ?m3 m4" "code V m4 = (code V ?m3)(hb := code V ?m3 hb @ cc)"
    using v(2) by (simp_all add: appends_def)
  have ins6: "ll_insert_block L m6 = Some hb" using nb5(2) nb6(2) app(1) by simp
  obtain k m7 where br7: "ll_build L (CreateCondBr v tb mb) m6 = (k, m7)" by fastforce
  note jump7 = built [OF br7 ins6 placed_always(2)]
  let ?m8 = "ll_set_insert_point L (Some tb) m7"
  have u8: "unchanged L V m5 ?m8" "unchanged L V m6 ?m8" "unchanged L V m4 ?m8"
    using nb5(7) nb6(7) jump7(8) pointed(3) by (blast intro: unchanged_trans)+
  have u08: "unchanged L V m0 ?m8" using unchanged_trans [OF unchanged_trans [OF u3 app(2)] u8(3)] .
  have hb4: "known V m4 hb" using app(2) hb3(1) by (simp add: unchanged_def)
  have fresh: "\<not> known V m0 hb" "\<not> known V m0 tb" "\<not> known V m0 mb"
    using nb1(3) nb5(3) nb6(3) u3 app(2) nb5(7) by (auto simp: unchanged_def)
  have dist: "distinct [bb, hb, tb, mb]"
    using fresh bb(1) hb4 nb5(3,4) nb6(3) nb5(7) by (auto simp: unchanged_def)
  have code8: "code V ?m8 = (code V m0)(bb := code V m0 bb @ [(j, CreateBr hb)], hb := cc @ [(k, CreateCondBr v tb mb)],
       tb := [], mb := [])"
    using dist by (auto simp: pointed jump7(1) nb6(1) nb5(1) app(3) jump1(1) nb1(1) fun_eq_iff)
  have "code V ?m3 hb = []" using dist by (auto simp: pointed jump1(1) nb1(1))
  moreover have "ready L V P tb (s\<lparr>em_llvm := ?m8\<rparr>)"
    using s(2) u08 u8(1) nb5(4,5,6) m0 by (auto simp: ready_def in_place_def unchanged_def pointed)
  moreover have "known V ?m8 hb" "known V ?m8 mb" "ll_is L ?m8 IsBlock mb"
    using hb4 nb6(4,5) u8 by (auto simp: unchanged_def)
  moreover have "while_emit e cond body s = bnd (in_loop (mb, hb) (bnd (emit_at e body) (\<lambda>_. bnd (insert_block e) (\<lambda>bb.
       bnd (create_safe_br L bb hb) (\<lambda>_. set_insert_point e (Some mb)))))) (\<lambda>_. ret (Some mb)) (s\<lparr>em_llvm := ?m8\<rparr>)"
    using bb(2) e m0 br v(1) br7 run_new_block [OF e, of "''before''" ?fn s] new1
      run_new_block [OF e, of "''then''" ?fn "s\<lparr>em_llvm := m4\<rparr>"] new5
      run_new_block [OF e, of "''merge''" ?fn "s\<lparr>em_llvm := m5\<rparr>"] new6
    by (simp add: while_emit_def current_fn_def bnd_def run_insert_block nonnull_def parent_of_def inspect_def
        run_build run_point)
  ultimately show thesis using that code8 v(3) u08 fresh dist nb6(6) by blast
qed

lemma implements_while:
  assumes e: "e_llvm e = L" and b: "evaluates L V P t (emit_at e cond) (truth (\<lambda>env. bval env b))"
    and c: "implements L V P t (emit_at e body) c"
  shows "implements L V P t (while_emit e cond body) (While b c)"
  unfolding implements_def
proof (intro allI impI)
  fix s :: "('m, 'v) emitter" and bb
  let ?m0 = "em_llvm s"
  assume s: "nodes s = nodes t" "ready L V P bb s" "\<not> ll_terminated L ?m0 bb" "em_if_merge_bbs s = []"
  have bb: "known V ?m0 bb" using s(2) by (simp add: ready_def)
  obtain hb tb mb v cc j k m3 m8 where start: "while_emit e cond body s = bnd (in_loop (mb, hb) (bnd (emit_at e body)
       (\<lambda>_. bnd (insert_block e) (\<lambda>bb. bnd (create_safe_br L bb hb) (\<lambda>_. set_insert_point e (Some mb))))))
       (\<lambda>_. ret (Some mb)) (s\<lparr>em_llvm := m8\<rparr>)"
    and code8: "code V m8 = (code V ?m0)(bb := code V ?m0 bb @ [(j, CreateBr hb)], hb := cc @ [(k, CreateCondBr v tb mb)],
       tb := [], mb := [])"
    and head: "delivers V P m3 cc v (truth (\<lambda>env. bval env b))" "code V m3 hb = []"
    and tb: "ready L V P tb (s\<lparr>em_llvm := m8\<rparr>)" and u8: "unchanged L V ?m0 m8"
    and fresh: "\<not> known V ?m0 hb" "\<not> known V ?m0 tb" "\<not> known V ?m0 mb" and dist: "distinct [bb, hb, tb, mb]"
    and mb: "known V m8 hb" "known V m8 mb" "ll_is L m8 IsBlock mb" "mb \<noteq> ll_constant L (PoisonC VoidT)"
    by (rule run_loop_head [OF e b s(1,2) refl])
  have empty: "code V m8 tb = []" "code V m8 mb = []" "mb \<noteq> tb" using code8 dist by auto
  have s8: "nodes (s\<lparr>em_llvm := m8\<rparr>) = nodes t" "em_if_merge_bbs (s\<lparr>em_llvm := m8\<rparr>) = []"
      "em_llvm (s\<lparr>em_llvm := m8\<rparr>) = m8"
    using s(1,4) by simp_all
  obtain m9 tb' l m where body: "in_loop (mb, hb) (bnd (emit_at e body) (\<lambda>_. bnd (insert_block e) (\<lambda>bb.
       bnd (create_safe_br L bb hb) (\<lambda>_. set_insert_point e (Some mb))))) (s\<lparr>em_llvm := m8\<rparr>) =
         Inr ((), s\<lparr>em_llvm := m8, em_llvm := m\<rparr>)"
    and sim: "simulates V P c m8 tb m9 tb'" and adv: "advances L V m8 tb m9 tb'" and m: "unchanged L V m9 m"
      "ll_insert_block L m = Some mb" "code V m = (code V m9)(tb' := code V m9 tb' @ [(l, CreateBr hb)])"
      "code V m9 mb = code V m8 mb" "tb' \<noteq> mb"
    by (rule run_loop_body [OF e c s8(1) tb s8(2,3) empty(1) mb(2) empty(3), where hb = hb])
  have run: "while_emit e cond body s = Inr (Some mb, s\<lparr>em_llvm := m\<rparr>)" using body by (simp add: start bnd_def)
  have ext: "extends L V m9 m" using m(1) by (auto simp: extends_def m(3))
  have u89: "unchanged L V m8 m9" using adv by (simp add: advances_def extends_def)
  have same: "code V m b = code V m8 b" if "known V m8 b" "b \<noteq> tb" for b
    using adv that by (auto simp: m(3) advances_def)
  have codes: "code V m hb = cc @ [(k, CreateCondBr v tb mb)]" "code V m bb = code V ?m0 bb @ [] @ [(j, CreateBr hb)]"
      "code V m mb = []"
    using same [OF mb(1)] same [of bb] u8 bb dist m(3-5) code8 by (auto simp: unchanged_def)
  have unch: "unchanged L V ?m0 m" by (rule unchanged_trans [OF unchanged_trans [OF u8 u89] m(1)])
  have "code V m b = code V ?m0 b" if "known V ?m0 b" "b \<noteq> bb" for b
  proof -
    have "b \<noteq> tb" "b \<noteq> hb" "b \<noteq> mb" using that(1) fresh by auto
    then show ?thesis using same [of b] that u8 by (simp add: code8 unchanged_def)
  qed
  then have adv0: "advances L V ?m0 bb m mb"
    by (rule advances_new [OF unch _ codes(2) _ m(2) codes(3)])
      (use mb(2-4) fresh(3) u89 m(1) in \<open>auto simp: unchanged_def\<close>)
  have known: "known V m hb" "known V m tb'" "known V m bb"
    using mb(1) u89 m(1) adv unchanged_known [OF unch bb] by (auto simp: unchanged_def advances_def)
  have at_tb: "code V m tb' = code V m9 tb' @ [(l, CreateBr hb)]" by (simp add: m(3))
  have "simulates V P (While b c) ?m0 bb m mb"
    unfolding simulates_def behind_start [OF codes(3)]
  proof (intro allI impI)
    fix C
    assume C: "covers V m C"
    have "decides (number V) C P b (C hb) (C tb) (C mb)"
      using condition_decides [OF head(1) C known(1), of k tb mb] codes(1) head(2) by (simp add: behind_start)
    moreover have "does (number V) C P c (C tb) (behind_code V C m9 tb')"
      using sim covers_extends [OF C ext] behind_start [OF empty(1), of C] unfolding simulates_def by metis
    ultimately have loop: "does (number V) C P (While b c) (C hb) (C mb)"
      by (rule does_while) (rule run_closed [OF C known(2) at_tb])
    have "runs (number V) C (behind_code V C ?m0 bb, regs, mem) (C hb, regs, mem)" for regs mem
      using runs_one [OF run_closed [OF C known(3), of ?m0 j hb]] codes(2) by simp
    from does_behind [OF this loop] show "does (number V) C P (While b c) (behind_code V C ?m0 bb) (C mb)" .
  qed
  then show "\<exists>v m' bb'. while_emit e cond body s = Inr (Some v, s\<lparr>em_llvm := m'\<rparr>) \<and>
      advances L V ?m0 bb m' bb' \<and> v \<noteq> ll_constant L (PoisonC VoidT) \<and>
      (v = bb' \<or> \<not> ll_is L m' IsBlock v \<and> bb' = bb) \<and> (straight (While b c) \<longrightarrow> bb' = bb) \<and>
      (ends_in_jump (While b c) \<longrightarrow> bb' \<noteq> bb \<and> code V m' bb' = []) \<and> simulates V P (While b c) ?m0 bb m' bb'"
    using run adv0 mb(4) dist codes(3) by auto
qed

subsection \<open>Statements\<close>

lemma implements_emit:
  assumes "as_stmt t p = Some st" and "implements L V P t (stmt_emit (emitting L k g n) p st no_params) c"
  shows "implements L V P t (emit_at (emitting L k g (Suc n)) p) c"
proof -
  have "emit_at (emitting L k g (Suc n)) p s = stmt_emit (emitting L k g n) p st no_params s"
    if "nodes s = nodes t" for s :: "('m, 'v) emitter"
    using emit_stmt [OF that assms(1)] by (simp add: emit_at_def)
  then show ?thesis using assms(2) unfolding implements_def by simp
qed

lemma implements_com:
  assumes "com_of n t (va_type P) p = Some c" "tidy c" "cvars c \<subseteq> va_names P"
  shows "implements L V P t (emit_at (emitting L (Suc k) g n) p) c \<and> \<not> terminates t p"
  using assms
proof (induction n arbitrary: p c)
  case (Suc n)
  let ?e = "emitting L (Suc k) g n"
  obtain st where st: "as_stmt t p = Some st" using Suc.prems(1) by (auto split: option.splits)
  have bool: "evaluates L V P t (emit_at ?e q) (truth (\<lambda>env. bval env b))"
    if "bool_of n t (va_type P) q = Some b" "bvars b \<subseteq> va_names P" for q b
    using evaluates_bool [OF that] by (simp add: emit_at_def)
  have "implements L V P t (stmt_emit ?e p st no_params) c \<and> \<not> is_terminator (st_body st)"
  proof (cases "st_body st")
    case (AssignmentStmt lhs rhs op)
    then have "assign_of n t (va_type P) lhs rhs op = Some c" using Suc.prems(1) st by simp
    then obtain x a where "variable_of t (va_type P) lhs = Some x" "sound_assign op"
        "arith_of n t (va_type P) (va_type P x) rhs = Some a" and c: "c = Assign x op a"
      by (auto simp: assign_of_def split: option.splits if_splits)
    then have "implements L V P t (assignment_emit ?e (st_token st) lhs rhs op) (Assign x op a)"
      using Suc.prems(3) unfolding c by (intro implements_assign) simp_all
    then show ?thesis using AssignmentStmt c by (simp add: stmt_emit_def is_terminator_def)
  next
    case (BlockStmt ns)
    obtain cs where cs: "those (map (com_of n t (va_type P)) ns) = Some cs" "c = Block cs"
      using Suc.prems(1) st BlockStmt by auto
    then have "list_all2 (\<lambda>q d. com_of n t (va_type P) q = Some d) ns cs" by (simp add: those_map)
    then have "list_all2 (\<lambda>q d. implements L V P t (emit_at ?e q) d \<and> \<not> terminates t q) ns cs"
      by (rule list.rel_mono_strong) (use Suc.IH Suc.prems(2,3) cs(2) in \<open>simp_all add: list_all_iff UN_subset_iff\<close>)
    from implements_block [OF _ this] show ?thesis using cs(2) BlockStmt by (simp add: stmt_emit_def is_terminator_def)
  next
    case (IfStmt q b x)
    then show ?thesis
    proof (cases "x = Null")
      case True
      then obtain v d where c: "bool_of n t (va_type P) q = Some v" "com_of n t (va_type P) b = Some d" "c = If v d"
        using Suc.prems(1) st IfStmt by (auto split: option.splits)
      have "implements L V P t (emit_at ?e b) d" using Suc.IH [OF c(2)] Suc.prems(2,3) c(3) by simp
      then have "implements L V P t (if_emit ?e q b Null) c"
        unfolding c(3) by (intro implements_if bool c(1)) (use Suc.prems(2,3) c(3) in simp_all)
      then show ?thesis using True IfStmt by (simp add: stmt_emit_def is_terminator_def)
    next
      case False
      then obtain v d d' where c: "bool_of n t (va_type P) q = Some v" "com_of n t (va_type P) b = Some d"
          "com_of n t (va_type P) x = Some d'" "c = IfElse v d d'"
        using Suc.prems(1) st IfStmt by (auto split: option.splits)
      have "implements L V P t (emit_at ?e b) d" "implements L V P t (emit_at ?e x) d'"
        using Suc.IH [OF c(2)] Suc.IH [OF c(3)] Suc.prems(2,3) c(4) by simp_all
      then have "implements L V P t (if_emit ?e q b x) c"
        unfolding c(4) by (intro implements_if_else bool c(1) False) (use Suc.prems(2,3) c(4) in simp_all)
      then show ?thesis using IfStmt by (simp add: stmt_emit_def is_terminator_def)
    qed
  next
    case (WhileStmt q b)
    then obtain v d where c: "bool_of n t (va_type P) q = Some v" "com_of n t (va_type P) b = Some d" "c = While v d"
      using Suc.prems(1) st by (auto split: option.splits)
    have "implements L V P t (emit_at ?e b) d" using Suc.IH [OF c(2)] Suc.prems(2,3) c(3) by simp
    then have "implements L V P t (while_emit ?e q b) c"
      unfolding c(3) by (intro implements_while bool c(1)) (use Suc.prems(2,3) c(3) in simp_all)
    then show ?thesis using WhileStmt by (simp add: stmt_emit_def is_terminator_def)
  qed (use Suc.prems(1) st in simp_all)
  then show ?case using implements_emit [OF st] st by (simp add: terminates_def)
qed simp

end

end
