(* ===== verification/Ir_Builder.thy ===== *)
theory Ir_Builder
  imports Emitted_Code
begin

section \<open>A builder of listings\<close>

text \<open>
  A builder in the place of LLVM's, to run the emission on: blocks are lists of instructions, values are
  numbered. It folds sums of constants, and conversions of constants to floats, of which the laws do not
  speak. It shows that the laws can be kept and what the emitted code
  of given programs is.
\<close>

datatype ir_value = IrConst "ir_value llconst" | IrBlock nat | IrInstr nat | IrFunction string | IrArgument nat

record ir =
  ir_next :: nat
  ir_block :: "ir_value option"
  ir_code :: "ir_value \<Rightarrow> ir_value block_code"
  ir_pointers :: "ir_value list"
  ir_metadata :: "(ir_value \<times> string) list"
  ir_functions :: "string list"

definition ir_result :: "ir_value instr \<Rightarrow> ir \<Rightarrow> ir_value \<times> ir" where
  "ir_result i m =
     (case ir_block m of
        None \<Rightarrow> (IrInstr (ir_next m), m\<lparr>ir_next := Suc (ir_next m)\<rparr>)
      | Some bb \<Rightarrow>
          (IrInstr (ir_next m),
           m\<lparr>ir_next := Suc (ir_next m), ir_code := (ir_code m)(bb := ir_code m bb @ [(IrInstr (ir_next m), i)])\<rparr>))"

fun ir_fold :: "ir_value instr \<Rightarrow> ir_value option" where
  "ir_fold (CreateBinary AddOp (IrConst (IntC n x sx)) (IrConst (IntC k y sy))) =
     (if n = k \<and> n \<le> 64 then Some (IrConst (IntC n (x + y) False)) else None)"
| "ir_fold (CreateConversion SIToFP (IrConst (IntC n x sx)) t) = Some (IrConst (FromIntC x))"
| "ir_fold _ = None"

definition ir_build :: "ir_value instr \<Rightarrow> ir \<Rightarrow> ir_value \<times> ir" where
  "ir_build i m = (case ir_fold i of Some v \<Rightarrow> (v, m) | None \<Rightarrow> ir_result i m)"

definition ir_new_block :: "ir \<Rightarrow> ir_value \<times> ir" where
  "ir_new_block m =
     (IrBlock (ir_next m), m\<lparr>ir_next := Suc (ir_next m), ir_code := (ir_code m)(IrBlock (ir_next m) := [])\<rparr>)"

definition ir_pointer :: "ir \<Rightarrow> ir_value \<times> ir" where
  "ir_pointer m =
     (IrInstr (ir_next m), m\<lparr>ir_next := Suc (ir_next m), ir_pointers := IrInstr (ir_next m) # ir_pointers m\<rparr>)"

definition ir_is :: "ir \<Rightarrow> value_class \<Rightarrow> ir_value \<Rightarrow> bool" where
  "ir_is m c v =
     (case c of
        IsPointer \<Rightarrow> v \<in> set (ir_pointers m)
      | IsBlock \<Rightarrow> (case v of IrBlock _ \<Rightarrow> True | _ \<Rightarrow> False)
      | IsConstant \<Rightarrow> (case v of IrConst _ \<Rightarrow> True | _ \<Rightarrow> False)
      | IsConstantInt \<Rightarrow> (case v of IrConst (IntC _ _ _) \<Rightarrow> True | _ \<Rightarrow> False)
      | IsInstruction \<Rightarrow> (case v of IrInstr _ \<Rightarrow> True | _ \<Rightarrow> False)
      | _ \<Rightarrow> False)"

definition ir_builder :: "(ir, ir_value) llvm" where
  "ir_builder = \<lparr>
     ll_make_ctx = (\<lambda>name m. m\<lparr>ir_block := None\<rparr>), ll_constant = IrConst, ll_build = ir_build,
     ll_insert_block = ir_block, ll_set_insert_point = (\<lambda>bb m. m\<lparr>ir_block := bb\<rparr>),
     ll_new_block = (\<lambda>name fn. ir_new_block),
     ll_terminated = (\<lambda>m bb. ir_code m bb \<noteq> [] \<and> is_jump (snd (last (ir_code m bb)))),
     ll_parent = (\<lambda>m bb. IrFunction ''main''), ll_entry_alloca = (\<lambda>fn t name. ir_pointer), ll_is = ir_is,
     ll_is_one = (\<lambda>m v. case v of IrConst (IntC n w sg) \<Rightarrow> w = 1 | _ \<Rightarrow> False),
     ll_element = (\<lambda>m v i. None), ll_element_at = (\<lambda>m v w. None),
     ll_metadata = (\<lambda>m v k. (v, k) \<in> set (ir_metadata m)),
     ll_set_metadata = (\<lambda>v k m. m\<lparr>ir_metadata := (v, k) # ir_metadata m\<rparr>), ll_set_alignment = (\<lambda>v k m. m),
     ll_function = (\<lambda>m f. if f \<in> set (ir_functions m) then Some (IrFunction f) else None),
     ll_new_function = (\<lambda>t ext f m. (IrFunction f, m\<lparr>ir_functions := f # ir_functions m\<rparr>)),
     ll_always_inline = (\<lambda>v m. m), ll_arguments = (\<lambda>m v. []), ll_set_name = (\<lambda>v name m. m),
     ll_verify = (\<lambda>m v. None), ll_erase = (\<lambda>v m. m), ll_global = (\<lambda>name t. ir_pointer),
     ll_internal = (\<lambda>v m. m), ll_set_initializer = (\<lambda>v c m. m), ll_global_string = (\<lambda>text. ir_pointer),
     ll_struct_exists = (\<lambda>m name. False), ll_create_struct = (\<lambda>name m. m), ll_set_body = (\<lambda>t ts m. m),
     ll_is_sized = (\<lambda>m t. False), ll_alloc_size = (\<lambda>m t. 0)\<rparr>"

definition ir_known :: "ir \<Rightarrow> ir_value \<Rightarrow> bool" where
  "ir_known m v = (case v of IrBlock i \<Rightarrow> i < ir_next m | IrInstr i \<Rightarrow> i < ir_next m | _ \<Rightarrow> False)"

definition ir_number :: "ir_value \<Rightarrow> (nat \<times> int) option" where
  "ir_number v = (case v of IrConst (IntC n w sg) \<Rightarrow> Some (n, uint w mod 2 ^ n) | _ \<Rightarrow> None)"

definition ir_listing :: "(ir, ir_value) listing" where
  "ir_listing = \<lparr>code = ir_code, known = ir_known, number = ir_number\<rparr>"

lemmas ir_simps = ir_builder_def ir_listing_def ir_known_def ir_number_def ir_is_def unchanged_def

lemma ir_fold_cases:
  assumes "ir_fold i = Some v" and "integer_instr i"
  obtains n x sx y sy where "i = CreateBinary AddOp (IrConst (IntC n x sx)) (IrConst (IntC n y sy))" "n \<le> 64"
    "v = IrConst (IntC n (x + y) False)"
  using assms by (induction i rule: ir_fold.induct) (auto split: if_splits)

lemma ir_folded:
  assumes "ir_fold i = Some v" and "integer_instr i" and "ir_block m = Some bb"
  shows "folded ir_builder ir_listing m bb i v m"
proof -
  obtain n and x y :: "64 word" and sx sy
    where i: "i = CreateBinary AddOp (IrConst (IntC n x sx)) (IrConst (IntC n y sy))" "n \<le> 64"
      and v: "v = IrConst (IntC n (x + y) False)"
    using ir_fold_cases [OF assms(1,2)] by metis
  have "(2::int) ^ n dvd 2 ^ 64" using i(2) by (rule le_imp_power_dvd)
  then have "uint (x + y) mod 2 ^ n = (uint x + uint y) mod 2 ^ n" by (simp add: uint_word_ariths mod_mod_cancel)
  then show ?thesis
    using i v assms(3)
    by (auto simp: folded_def ir_simps lasting_def value_of_def mod_add_eq split: option.splits)
qed

lemma ir_placed:
  assumes "ir_block m = Some bb" and "ir_result i m = (v, m')"
  shows "placed ir_builder ir_listing m bb i v m'"
  using assms by (auto simp: ir_result_def placed_def ir_simps split: ir_value.splits value_class.splits)

lemma ir_laws: "builder_laws ir_builder ir_listing"
proof -
  have "placed ir_builder ir_listing m bb i v m' \<or> folded ir_builder ir_listing m bb i v m'"
    if "ll_insert_block ir_builder m = Some bb" "ll_build ir_builder i m = (v, m')" "integer_instr i" for m bb i v m'
    using that ir_placed ir_folded by (auto simp: ir_builder_def ir_build_def split: option.splits)
  then show ?thesis
    unfolding builder_laws_def
    by (intro conjI allI impI)
      (auto simp: ir_simps ir_new_block_def split: ir_value.splits value_class.splits)
qed

interpretation ir_emission: builder ir_builder ir_listing
  by unfold_locales (rule ir_laws)

end
