(* ===== verification/Emitted_Programs.thy ===== *)
theory Emitted_Programs
  imports Ir_Builder
begin

section \<open>Emitted programs\<close>

text \<open>
  What the code of structured programs does, with programs as they are in the tree and the builder of
  \<open>Ir_Builder\<close> as an instance.
\<close>

subsection \<open>Two programs\<close>

definition node_expr :: "static_type \<Rightarrow> expr_body \<Rightarrow> node" where
  "node_expr t b = NExpr \<lparr>ex_token = empty_token, ex_flags = 0, ex_mut_set = 0, ex_type = Static t, ex_body = b\<rparr>"

definition node_stmt :: "stmt_body \<Rightarrow> node" where
  "node_stmt b = NStmt \<lparr>st_token = empty_token, st_body = b\<rparr>"

text \<open>\<open>while x < 3 { x += 1 }\<close> and \<open>if x < 3 { x = 1 } else { x = 2 }\<close>, with a variable \<open>x\<close> in memory.\<close>

definition counting :: "node list" where
  "counting = [node_stmt (WhileStmt (At 1) (At 4)), node_expr BOOL_TYPE (BinaryExpr TkLess (At 2) (At 3)),
     node_expr I32_TYPE (SymbolExpr Null ''x''), node_expr I32_TYPE (LiteralExpr (LInt 3)),
     node_stmt (BlockStmt [At 5]), node_stmt (AssignmentStmt (At 6) (At 7) TkPlusEqual),
     node_expr I32_TYPE (SymbolExpr Null ''x''), node_expr I32_TYPE (LiteralExpr (LInt 1))]"

definition choosing :: "node list" where
  "choosing = [node_stmt (IfStmt (At 1) (At 4) (At 7)), node_expr BOOL_TYPE (BinaryExpr TkLess (At 2) (At 3)),
     node_expr I32_TYPE (SymbolExpr Null ''x''), node_expr I32_TYPE (LiteralExpr (LInt 3)),
     node_stmt (AssignmentStmt (At 2) (At 5) TkEqual), node_expr I32_TYPE (LiteralExpr (LInt 1)),
     node_expr I32_TYPE (LiteralExpr (LInt 2)), node_stmt (AssignmentStmt (At 2) (At 6) TkEqual)]"

definition ir_start :: ir where
  "ir_start = \<lparr>ir_next = 2, ir_block = Some (IrBlock 0), ir_code = (\<lambda>b. []), ir_pointers = [IrInstr 1],
     ir_metadata = [], ir_functions = []\<rparr>"

definition ir_emitter :: "node list \<Rightarrow> (ir, ir_value) emitter" where
  "ir_emitter ns = \<lparr>nodes = ns, g_attributes = [], em_llvm = ir_start, em_named_values = [''x'' \<mapsto> IrInstr 1],
     em_loop_bbs = [], em_if_merge_bbs = [], em_static_strings = [], em_type_cache = [], em_warnings = []\<rparr>"

definition ir_variables :: "ir_value variables" where
  "ir_variables = \<lparr>va_type = (\<lambda>x. I32_TYPE), va_names = {''x''}, va_place = (\<lambda>x. IrInstr 1)\<rparr>"

lemma ir_ready: "ready ir_builder ir_listing ir_variables (IrBlock 0) (ir_emitter ns)"
  by (simp add: ready_def in_place_def ir_emitter_def ir_start_def ir_variables_def ir_simps)

lemma ir_open: "\<not> ll_terminated ir_builder (em_llvm (ir_emitter ns)) (IrBlock 0)"
  by (simp add: ir_emitter_def ir_start_def ir_builder_def)

lemma ir_no_merges: "em_if_merge_bbs (ir_emitter ns) = []"
  by (simp add: ir_emitter_def)

lemmas sample_simps = eval_nat_numeral ir_emitter_def node_expr_def node_stmt_def ir_variables_def as_stmt_def
  as_expr_def peek_node_def comparison_of_def static_of_def plain_flags_def arith_op_def sound_compare_def
  integer_type_def type_signed_def compare_op_def assign_of_def variable_of_def sound_assign_def

lemma counting_com:
  "com_of 4 (ir_emitter counting) (va_type ir_variables) (At 0) =
   Some (While (Compare I32_TYPE TkLess (Var ''x'') (Num 3)) (Block [Assign ''x'' TkPlusEqual (Num 1)]))"
  by (simp add: counting_def sample_simps)

subsection \<open>Code does what it means\<close>


lemma counting_exec:
  "exec (va_type ir_variables) (While (Compare I32_TYPE TkLess (Var ''x'') (Num 3)) (Block [Assign ''x'' TkPlusEqual (Num 1)]))
     (\<lambda>x. 0) ((\<lambda>x. 0)(''x'' := 3))"
proof -
  let ?c = "Compare I32_TYPE TkLess (Var ''x'') (Num 3)" and ?b = "Block [Assign ''x'' TkPlusEqual (Num 1)]"
  let ?env = "\<lambda>i::int. (\<lambda>x. 0)(''x'' := i)"
  have test: "bval (?env i) ?c \<longleftrightarrow> i < 3" if "i \<in> {0, 1, 2, 3}" for i
    using that by (auto simp: compare_op_def number_in_def type_signed_def type_bits_def bits_of_def)
  have "exec (va_type ir_variables) (Assign ''x'' TkPlusEqual (Num 1)) (?env i) (?env (i + 1))" if "i \<in> {0, 1, 2}" for i
  proof -
    have "assigned (type_bits (va_type ir_variables ''x'')) (?env i) ''x'' TkPlusEqual (Num 1) = i + 1"
      using that by (auto simp: assigned_def apply_operator_def arith_op_def type_bits_def bits_of_def ir_variables_def)
    then show ?thesis using exec.Assign [of "va_type ir_variables" "''x''" TkPlusEqual "Num 1" "?env i"] by simp
  qed
  then have body: "exec (va_type ir_variables) ?b (?env i) (?env (i + 1))" if "i \<in> {0, 1, 2}" for i
    using exec.Cons [OF _ exec.Nil] that by blast
  have "exec (va_type ir_variables) (While ?c ?b) (?env 3) (?env 3)" using test [of 3] by (intro exec.WhileFalse) simp
  then have "exec (va_type ir_variables) (While ?c ?b) (?env 2) (?env 3)"
    using exec.WhileTrue [OF _ body [of 2]] test [of 2] by simp
  then have "exec (va_type ir_variables) (While ?c ?b) (?env 1) (?env 3)"
    using exec.WhileTrue [OF _ body [of 1]] test [of 1] by simp
  then have "exec (va_type ir_variables) (While ?c ?b) (?env 0) (?env 3)"
    using exec.WhileTrue [OF _ body [of 0]] test [of 0] by simp
  moreover have "?env 0 = (\<lambda>x. 0)" by (simp add: fun_eq_iff)
  ultimately show ?thesis by simp
qed


subsection \<open>The code of \<open>else\<close>\<close>

text \<open>
  \<open>IfStmt::emit\<close> lets the branches meet in the block the builder stands in behind the last branch. When
  an \<open>else\<close> opens no block of its own, that is the block of the \<open>else\<close>, which is then closed with a branch to
  itself.
\<close>

lemma straight_tidy: "straight c \<Longrightarrow> tidy c"
  by (induction c) (auto simp: list_all_iff)

lemma straight_exec: "straight c \<Longrightarrow> \<exists>env'. exec ty c env env'"
proof (induction c arbitrary: env rule: straight.induct)
  case (2 cs)
  then have "\<And>c env. c \<in> set cs \<Longrightarrow> \<exists>env'. exec ty c env env'" by (simp add: list_all_iff)
  then show ?case
    by (induction cs arbitrary: env) (auto intro: exec.Nil exec.Cons, metis exec.Cons)
qed (auto intro: exec.Assign)

context builder
begin

lemma run_straight_else:
  assumes e: "e_llvm e = L" and br: "branch L V P c m1 tb m3 tb" and d: "implements L V P t (emit_at e x) d"
    and straight: "straight d" and x: "x \<noteq> Null"
    and s: "nodes s = nodes t" "ready L V P tb s" "em_if_merge_bbs s = []" "em_llvm s = m3"
  obtains eb m4 where "branch L V P d m3 eb m4 eb" "eb \<noteq> tb"
    "finish_if e v bb fn tb x s =
      bnd (join_branches e v bb tb (Some eb) eb) (\<lambda>_. bnd (pop_merge False) (\<lambda>_. ret (Some eb))) (s\<lparr>em_llvm := m4\<rparr>)"
proof -
  obtain eb m2 where new: "ll_new_block L ''else'' fn (em_llvm s) = (eb, m2)" by fastforce
  obtain w m4 mb where body: "emit_at e x (s\<lparr>em_llvm := ll_set_insert_point L (Some eb) m2\<rparr>) =
        Inr (Some w, s\<lparr>em_llvm := m4\<rparr>)" and br2: "branch L V P d (em_llvm s) eb m4 mb"
    by (rule emit_branch [OF d e s(1,2,3) new])
  have br2: "branch L V P d m3 eb m4 eb" using br2 s(4) straight by (auto simp: branch_def)
  have tb: "known V m3 tb" "\<not> ll_terminated L m3 tb" using br by (auto simp: branch_def)
  have "\<not> ll_terminated L m4 tb" using tb br2 by (auto simp: branch_def terminated_iff)
  moreover have eb: "ll_insert_block L m4 = Some eb" "eb \<noteq> tb"
    using br2 tb(1) by (auto simp: branch_def)
  moreover have "push_merge e fn tb (s\<lparr>em_llvm := m4\<rparr>) = Inr ((eb, False), s\<lparr>em_llvm := m4\<rparr>)"
    using e eb by (simp add: push_merge_def bnd_def run_insert_block nonnull_def)
  moreover have "emit_else e fn x s = Inr (Some eb, s\<lparr>em_llvm := m4\<rparr>)"
    using body x e run_new_block [OF e new] by (simp add: emit_else_def bnd_def run_point)
  ultimately have "finish_if e v bb fn tb x s =
      bnd (join_branches e v bb tb (Some eb) eb) (\<lambda>_. bnd (pop_merge False) (\<lambda>_. ret (Some eb))) (s\<lparr>em_llvm := m4\<rparr>)"
    by (simp add: finish_if_def bnd_def run_has_terminator e)
  then show thesis using br2 eb by (intro that) auto
qed

lemma if_else_stuck:
  assumes e: "e_llvm e = L" and b: "evaluates L V P t (emit_at e cond) (truth (\<lambda>env. bval env b))"
    and c: "implements L V P t (emit_at e body) c" "straight c"
    and d: "implements L V P t (emit_at e x) d" "straight d" and x: "x \<noteq> Null"
    and s: "nodes s = nodes t" "ready L V P bb s" "\<not> ll_terminated L (em_llvm s) bb" "em_if_merge_bbs s = []"
  obtains m' eb c' l where "if_emit e cond body x s = Inr (Some eb, s\<lparr>em_llvm := m'\<rparr>)"
    "ll_insert_block L m' = Some eb" "code V m' eb = c' @ [(l, CreateBr eb)]"
    "\<And>C env regs mem. covers V m' C \<Longrightarrow> holds P env mem \<Longrightarrow> \<not> bval env b \<Longrightarrow>
      \<exists>regs'. runs (number V) C (behind_code V C (em_llvm s) bb, regs, mem) (C eb, regs', mem)"
    "\<And>C env regs mem. covers V m' C \<Longrightarrow> holds P env mem \<Longrightarrow>
      \<exists>r env' regs' mem'. runs (number V) C (C eb, regs, mem) ((l, CreateBr eb) # r, regs', mem') \<and> holds P env' mem'"
proof -
  let ?m0 = "em_llvm s"
  have known_bb: "known V ?m0 bb" using s(2) by (simp add: ready_def)
  obtain v cc m1 fn tb m3 tb' where start: "\<And>x. if_emit e cond body x s = finish_if e (Some v) bb fn tb x (s\<lparr>em_llvm := m3\<rparr>)"
      and cc: "appends L V bb ?m0 cc m1" "delivers V P ?m0 cc v (truth (\<lambda>env. bval env b))"
      and br: "branch L V P c m1 tb m3 tb'" and r: "ready L V P bb (s\<lparr>em_llvm := m1\<rparr>)"
    by (rule run_if_start [OF e b c(1) s(1,2,4)]) (rule that)
  have br: "branch L V P c m1 tb m3 tb" using br c(2) by (auto simp: branch_def)
  let ?s3 = "s\<lparr>em_llvm := m3\<rparr>"
  obtain eb m4 where br2: "branch L V P d m3 eb m4 eb" and eb: "eb \<noteq> tb"
      and finish: "finish_if e (Some v) bb fn tb x ?s3 =
        bnd (join_branches e (Some v) bb tb (Some eb) eb) (\<lambda>_. bnd (pop_merge False) (\<lambda>_. ret (Some eb))) (?s3\<lparr>em_llvm := m4\<rparr>)"
    by (rule run_straight_else [OF e br d x, of ?s3 "Some v" bb fn]) (use s ready_branch [OF r br] in \<open>auto\<close>)
  let ?s4 = "s\<lparr>em_llvm := m4\<rparr>" and ?jump = "CreateCondBr v tb eb"
  obtain j k l m5 where join: "join_branches e (Some v) bb tb (Some eb) eb ?s4 = Inr ((), s\<lparr>em_llvm := m5\<rparr>)"
    and m5: "unchanged L V m4 m5" "ll_insert_block L m5 = Some eb"
      "code V m5 = closed_with l eb eb (closed_with k eb tb ((code V m4)(bb := code V m4 bb @ [(j, ?jump)])))"
    by (rule run_join [OF e, of v bb tb "Some eb" eb ?s4]) (rule that; simp)
  have run: "if_emit e cond body x s = Inr (Some eb, s\<lparr>em_llvm := m5\<rparr>)"
    using join by (simp add: start finish bnd_def pop_merge_def)
  have ext1: "extends L V m1 m3" "extends L V m3 m4" using br br2 by (simp_all add: branch_def)
  have known: "known V m4 eb" "\<not> known V m3 eb" "\<not> ll_terminated L m4 eb" "\<not> known V m1 tb" "known V m1 bb"
    using br br2 cc(1) known_bb by (auto simp: branch_def appends_def unchanged_def)
  then have distinct: "bb \<noteq> tb" "bb \<noteq> eb" using extends_known [OF ext1(1)] by auto
  have at_eb: "code V m5 eb = code V m4 eb @ [(l, CreateBr eb)]"
    using distinct eb known(3) by (auto simp: m5(3) closed_with_def terminated_iff)
  have "code V m4 bb = code V ?m0 bb @ cc"
    using br br2 known(5) extends_known [OF ext1(1) known(5)] cc(1) by (simp add: branch_def appends_def)
  then have at_bb: "code V m5 bb = code V ?m0 bb @ cc @ [(j, ?jump)]"
    using distinct by (simp add: m5(3) closed_with_def)
  have ext4: "extends L V m4 m5" using m5(1) by (auto simp: extends_def m5(3) intro!: prefix_closed)
  have ext: "extends L V m1 m5" by (rule extends_step [OF extends_step [OF ext1] ext4])
  have in5: "known V m5 eb" "known V m5 bb"
    using known(1,5) extends_known [OF ext4] extends_known [OF ext] by simp_all
  show thesis
  proof (rule that [OF run m5(2) at_eb], goal_cases)
    case (1 C env regs mem)
    show ?case by (rule run_condition [OF cc(2) 1(2,1) in5(2) at_bb, of regs]) (use 1(3) in auto)
  next
    case (2 C env regs mem)
    obtain env' where "exec (va_type P) d env env'" using straight_exec [OF d(2)] by blast
    then obtain regs' mem' where "runs (number V) C (C eb, regs, mem) (behind_code V C m4 eb, regs', mem')" "holds P env' mem'"
      using br2 covers_extends [OF 2(1) ext4] 2(2) unfolding branch_def does_def by blast
    moreover obtain r where "C eb = code V m4 eb @ (l, CreateBr eb) # r"
      using 2(1) in5(1) by (auto simp: covers_def prefix_def at_eb)
    then have "behind_code V C m4 eb = (l, CreateBr eb) # r" by (simp add: behind_code_def)
    ultimately show ?case by auto
  qed
qed

end



end
