(* ===== verification/Emission_Facts.thy ===== *)
theory Emission_Facts
  imports Emitted_Programs Modules
begin

section \<open>Properties of the emission\<close>

text \<open>What the emission of a node leaves alone, whatever LLVM answers; what a block does not emit; and the
  comparisons of unsigned numbers, which are emitted as if they were signed.\<close>

subsection \<open>What is left alone\<close>

text \<open>C9: The emission of a node that succeeds leaves the blocks of the loops and conditionals around it as they were,
  every attribute, and every node of the tree, except that a loop may be given its index and new nodes
  are put behind the old ones.\<close>

theorem emission_balanced:
  assumes "e_emit (emitting L k g n) p ps s = Inr (v, s')"
  shows "em_loop_bbs s' = em_loop_bbs s \<and> em_if_merge_bbs s' = em_if_merge_bbs s \<and> g_attributes s' = g_attributes s \<and>
    grown_tree (nodes s) (nodes s')"
  using keepingD [OF emission.emit [simplified emitting_simps] requests_in_any assms] by (simp add: balanced_def)

lemma counting_emitted:
  "\<exists>v m'. e_emit (emitting ir_builder (Suc 1) (\<lambda>x. None) 4) (At 0) no_params (ir_emitter counting) =
     Inr (Some v, (ir_emitter counting)\<lparr>em_llvm := m'\<rparr>)"
proof -
  let ?c = "com.While (Compare I32_TYPE TkLess (Var ''x'') (Num 3)) (com.Block [Assign ''x'' TkPlusEqual (Num 1)])"
  have "tidy ?c" "cvars ?c \<subseteq> va_names ir_variables" by (simp_all add: ir_variables_def)
  then have "implements ir_builder ir_listing ir_variables (ir_emitter counting)
      (emit_at (emitting ir_builder (Suc 1) (\<lambda>x. None) 4) (At 0)) ?c"
    using ir_emission.implements_com [OF counting_com] by blast
  then show ?thesis
    by (rule implementsD [OF _ refl ir_ready ir_open ir_no_merges]) (auto simp: emit_at_def)
qed

lemma emission_balanced_witness:
  "\<exists>v s'. e_emit (emitting ir_builder (Suc 1) (\<lambda>x. None) 4) (At 0) no_params (ir_emitter counting) = Inr (v, s') \<and>
    em_loop_bbs s' = [] \<and> em_if_merge_bbs s' = [] \<and> grown_tree counting (nodes s')"
proof -
  obtain v s' where run: "e_emit (emitting ir_builder (Suc 1) (\<lambda>x. None) 4) (At 0) no_params (ir_emitter counting) = Inr (v, s')"
    using counting_emitted by blast
  from emission_balanced [OF run] run show ?thesis by (auto simp: ir_emitter_def)
qed

subsection \<open>Dead code\<close>

lemma grown_terminator:
  assumes "balanced R s s'" and "terminates s p"
  shows "terminates s' p"
proof -
  obtain i st where p: "p = At i" "i < length (nodes s)" "nodes s ! i = NStmt st" "is_terminator (st_body st)"
    using assms(2) by (auto simp: terminates_def as_stmt_def peek_node_def split: option.splits ptr.splits if_splits node.splits)
  have tree: "i < length (nodes s')" "grown_node (nodes s ! i) (nodes s' ! i)"
    using assms(1) p(2) by (auto simp: balanced_def grown_tree_def)
  have "nodes s' ! i = NStmt st"
    using tree(2)
  proof cases
    case (more_bindings t vs it x us)
    then show ?thesis using p(3,4) by (simp add: is_terminator_def)
  qed (use p(3) in simp)
  then show ?thesis using p tree(1) by (simp add: terminates_def as_stmt_def peek_node_def)
qed

lemma grown_node_there: "balanced R s s' \<Longrightarrow> peek_node s q \<noteq> None \<Longrightarrow> peek_node s' q \<noteq> None"
  by (auto simp: balanced_def grown_tree_def peek_node_def split: ptr.splits if_splits)

lemma run_block_of: "\<exists>bb'. block_of e bb v s = Inr (bb', s)"
  by (auto simp: block_of_def value_is_def inspect_def bnd_def split: option.split)

lemma run_warn_unreachable:
  assumes "peek_node s p \<noteq> None" and "qs = [] \<or> peek_node s (hd qs) \<noteq> None"
  shows "\<exists>w. warn_unreachable p qs s = Inr ((), s\<lparr>em_warnings := em_warnings s @ w\<rparr>)"
proof (cases qs)
  case Nil
  then show ?thesis by (intro exI [of _ "[]"]) (simp add: warn_unreachable_def)
next
  case (Cons q qs')
  then obtain a b where "peek_node s p = Some a" "peek_node s q = Some b" using assms by auto
  then show ?thesis
    by (auto simp: Cons warn_unreachable_def token_at_def node_at_def query_def rbind_def bnd_def em_warn_def)
qed

text \<open>Adding warnings to the result of a computation.\<close>

definition warned :: "(string \<times> token) list \<Rightarrow> exn + ('a \<times> ('m, 'v) emitter) \<Rightarrow> exn + ('a \<times> ('m, 'v) emitter)" where
  "warned w r = map_sum id (\<lambda>(v, s). (v, s\<lparr>em_warnings := em_warnings s @ w\<rparr>)) r"

lemma warned_simps [simp]:
  "warned w (Inl err) = Inl err" "warned w (Inr (v, s)) = Inr (v, s\<lparr>em_warnings := em_warnings s @ w\<rparr>)" "warned [] r = r"
  by (auto simp: warned_def map_sum_def split: sum.split)

lemma emit_nodes_step:
  assumes "keeping (e_llvm e) R (emit_at e p)" and "requests_in (e_llvm e) R"
  obtains err where "\<And>ps. emit_nodes e bb (p # ps) s = Inl err"
    | s1 where "\<And>ps. emit_nodes e bb (p # ps) s = Inr (bb, s1)"
    | bb' s1 where "balanced R s s1" "\<And>ps. emit_nodes e bb (p # ps) s =
        (if terminates s1 p then bnd (warn_unreachable p ps) (\<lambda>_. ret bb') s1 else emit_nodes e bb' ps s1)"
proof (cases "emit_at e p s")
  case (Inl err)
  then show thesis using that(1) by (simp add: bnd_def)
next
  case (Inr r)
  obtain v s1 where v: "emit_at e p s = Inr (v, s1)" using Inr by (cases r) simp
  show thesis
  proof (cases "is_block_poison (e_llvm e) v")
    case True
    then show thesis using that(2) v by (simp add: bnd_def)
  next
    case False
    obtain bb' where bb': "block_of e bb v s1 = Inr (bb', s1)" using run_block_of by metis
    let ?s2 = "s1\<lparr>em_llvm := ll_set_insert_point (e_llvm e) bb' (em_llvm s1)\<rparr>"
    have point: "set_insert_point e bb' s1 = Inr ((), ?s2)" by (simp add: set_insert_point_def perform_def)
    have "balanced R s s1" using assms v by (rule keepingD)
    moreover have "balanced R s1 ?s2" using assms(2) by (auto simp: balanced_def requests_in_def)
    ultimately have "balanced R s ?s2" by (rule balanced_trans [OF assms(2)])
    then show thesis using that(3) [of ?s2 bb'] v bb' point False by (simp add: bnd_def)
  qed
qed

text \<open>C10: What stands in a block behind a statement that ends it is not emitted: the block gives the same value, the
  same state and the same error as if nothing stood there, but for a warning.\<close>

theorem dead_code_not_emitted:
  assumes "terminates s p" and "qs = [] \<or> peek_node s (hd qs) \<noteq> None"
  shows "\<exists>w. emit_nodes (emitting L k g n) bb (ps @ p # qs) s = warned w (emit_nodes (emitting L k g n) bb (ps @ [p]) s)"
  using assms
proof (induction ps arbitrary: bb s)
  case Nil
  let ?e = "emitting L k g n"
  have keep: "keeping (e_llvm ?e) (\<lambda>m m'. True) (emit_at ?e p)" by (rule emission.emit_at)
  have any: "requests_in (e_llvm ?e) (\<lambda>m m'. True)" by (rule requests_in_any)
  show ?case
  proof (rule emit_nodes_step [OF keep any, of bb s])
    fix bb' s1
    assume b: "balanced (\<lambda>m m'. True) s s1" and run: "\<And>ps. emit_nodes ?e bb (p # ps) s =
      (if terminates s1 p then bnd (warn_unreachable p ps) (\<lambda>_. ret bb') s1 else emit_nodes ?e bb' ps s1)"
    have there: "peek_node s p \<noteq> None"
      using Nil(1) by (auto simp: terminates_def as_stmt_def split: option.splits)
    obtain w where "warn_unreachable p qs s1 = Inr ((), s1\<lparr>em_warnings := em_warnings s1 @ w\<rparr>)"
      using run_warn_unreachable [OF grown_node_there [OF b there], of qs] grown_node_there [OF b] Nil(2) by blast
    moreover have "warn_unreachable p [] s1 = Inr ((), s1)" by (simp add: warn_unreachable_def)
    ultimately have "emit_nodes ?e bb (p # qs) s = warned w (emit_nodes ?e bb [p] s)"
      using grown_terminator [OF b Nil(1)] by (simp add: run bnd_def del: emit_nodes.simps)
    then show ?thesis by (intro exI [of _ w]) simp
  qed (intro exI [of _ "[]"], simp)+
next
  case (Cons a ps)
  let ?e = "emitting L k g n"
  have keep: "keeping (e_llvm ?e) (\<lambda>m m'. True) (emit_at ?e a)" by (rule emission.emit_at)
  have any: "requests_in (e_llvm ?e) (\<lambda>m m'. True)" by (rule requests_in_any)
  show ?case
  proof (rule emit_nodes_step [OF keep any, of bb s])
    fix bb' s1
    assume b: "balanced (\<lambda>m m'. True) s s1" and run: "\<And>ps. emit_nodes ?e bb (a # ps) s =
      (if terminates s1 a then bnd (warn_unreachable a ps) (\<lambda>_. ret bb') s1 else emit_nodes ?e bb' ps s1)"
    have "bnd (warn_unreachable a (ps @ p # qs)) (\<lambda>_. ret bb') s1 = bnd (warn_unreachable a (ps @ [p])) (\<lambda>_. ret bb') s1"
      by (cases ps) (simp_all add: warn_unreachable_def)
    moreover obtain w where "emit_nodes ?e bb' (ps @ p # qs) s1 = warned w (emit_nodes ?e bb' (ps @ [p]) s1)"
      using Cons.IH [OF grown_terminator [OF b Cons.prems(1)], of bb'] grown_node_there [OF b] Cons.prems(2) by blast
    ultimately have "emit_nodes ?e bb (a # ps @ p # qs) s = warned (if terminates s1 a then [] else w) (emit_nodes ?e bb (a # ps @ [p]) s)"
      by (simp add: run del: emit_nodes.simps)
    then show ?thesis by (intro exI) simp
  qed (intro exI [of _ "[]"], simp)+
qed

lemma dead_code_not_emitted_witness:
  "\<exists>w. emit_nodes (emitting ir_builder 2 (\<lambda>x. None) 2) (Some (IrBlock 0)) [At 0, At 1]
       (ir_emitter [node_stmt (ReturnStmt Null), node_stmt BreakStmt]) =
     warned w (emit_nodes (emitting ir_builder 2 (\<lambda>x. None) 2) (Some (IrBlock 0)) [At 0]
       (ir_emitter [node_stmt (ReturnStmt Null), node_stmt BreakStmt]))"
proof -
  let ?s = "ir_emitter [node_stmt (ReturnStmt Null), node_stmt BreakStmt]"
  have "terminates ?s (At 0)" "peek_node ?s (hd [At 1]) \<noteq> None"
    by (simp_all add: terminates_def as_stmt_def peek_node_def is_terminator_def ir_emitter_def node_stmt_def)
  from dead_code_not_emitted [of ?s "At 0" "[At 1]" ir_builder 2 "\<lambda>x. None" 2 "Some (IrBlock 0)" "[]"] this
  show ?thesis by simp
qed

subsection \<open>Comparisons of unsigned numbers\<close>

text \<open>C29: The operators \<open>>\<close>, \<open>>=\<close> and \<open><=\<close> on an unsigned integer type are emitted as comparisons with a sign:
  there are numbers of the type for which the comparison holds and the emitted instruction gives 0.\<close>

theorem unsigned_compared_with_sign:
  fixes L :: "('m, 'v) llvm"
  assumes "integer_type t" and "\<not> type_signed t" and "op \<in> {TkGreater, TkGreaterEqual, TkLessEqual}"
  shows "\<exists>o' f x y. op_binary L (Suc k) (Static t) op v w = some (build2 L (CreateBinary o') v w) \<and>
    compare_op op = Some f \<and> residue t x \<and> residue t y \<and> f (number_in t x) (number_in t y) \<and>
    binop_value o' (type_bits t) x y = Some (1, 0)"
proof -
  obtain o' f where o': "integer_binop (type_signed t) op = Some o'" "compare_op op = Some f" "op \<noteq> TkStarStar"
    "\<And>n x y. binop_value o' n x y = Some (1, of_bool (f (signed_value n x) (signed_value n y)))"
    using assms(3) by (auto simp: integer_binop_def compare_op_def)
  obtain j where bits: "type_bits t = Suc j"
    using assms(1) by (cases t) (auto simp: integer_type_def type_bits_def bits_of_def)
  define h :: int where "h = 2 ^ j"
  have h: "0 < h" "residue t h" "residue t 0" "number_in t h = h" "number_in t 0 = 0"
      "signed_value (type_bits t) h = - h" "signed_value (type_bits t) 0 = 0"
    using assms(2) by (simp_all add: h_def bits residue_def number_in_def signed_value_def)
  define x y where "x = (if op = TkLessEqual then 0 else h)" and "y = (if op = TkLessEqual then h else 0)"
  have "x \<in> {0, h}" "y \<in> {0, h}" "f x y" "\<not> f (signed_value (type_bits t) x) (signed_value (type_bits t) y)"
    using o'(2) assms(3) h(1,6,7) by (auto simp: compare_op_def x_def y_def)
  then have "residue t x" "residue t y" "f (number_in t x) (number_in t y)" "binop_value o' (type_bits t) x y = Some (1, 0)"
    using h o'(4) by auto
  then show ?thesis using o'(2) integer_op_static [OF assms(1) o'(1,3)] by blast
qed

lemma unsigned_compared_with_sign_witness:
  "\<exists>o' f x y. op_binary ir_builder 2 (Static U8_TYPE) TkGreater None None = some (build2 ir_builder (CreateBinary o') None None) \<and>
    compare_op TkGreater = Some f \<and> residue U8_TYPE x \<and> residue U8_TYPE y \<and>
    f (number_in U8_TYPE x) (number_in U8_TYPE y) \<and> binop_value o' (type_bits U8_TYPE) x y = Some (1, 0)"
proof -
  have "integer_type U8_TYPE" "\<not> type_signed U8_TYPE" by (simp_all add: integer_type_def type_signed_def)
  from unsigned_compared_with_sign [OF this, of TkGreater ir_builder 1 None None] show ?thesis by (simp add: numeral_2_eq_2)
qed

subsection \<open>Emission as a step of reading a module\<close>

text \<open>
  \<open>Modules\<close> has the emission of a module as a parameter that says which bindings loops are given and which
  nodes are new. Here the parameter is the emission itself, from a state of LLVM \<open>start m\<close> and the strings
  \<open>strings m\<close> emitted before module \<open>m\<close>; whether the module verifies is up to LLVM.
\<close>

definition emitter_of :: "'m \<Rightarrow> (string, 'v) hash_map \<Rightarrow> analyzer \<Rightarrow> ('m, 'v) emitter" where
  "emitter_of m strings a = \<lparr>nodes = nodes a, g_attributes = g_attributes a, em_llvm = m, em_named_values = (\<lambda>_. None),
     em_loop_bbs = [], em_if_merge_bbs = [], em_static_strings = strings, em_type_cache = [], em_warnings = []\<rparr>"

definition new_bindings :: "node \<Rightarrow> node \<Rightarrow> ptr list" where
  "new_bindings n n' =
     (case (n, n') of
        (NStmt a, NStmt b) \<Rightarrow>
          (case (st_body a, st_body b) of (ForStmt vs _ _, ForStmt us _ _) \<Rightarrow> drop (length vs) us | _ \<Rightarrow> [])
      | _ \<Rightarrow> [])"

definition described :: "bool \<Rightarrow> node list \<Rightarrow> node list \<Rightarrow> emitted" where
  "described ok ns ns' = \<lparr>em_verified = ok,
     em_bindings = map (\<lambda>i. (At i, new_bindings (ns ! i) (ns' ! i))) [0..<length ns], em_nodes = drop (length ns) ns'\<rparr>"

definition emit_with ::
    "('m, 'v) emission \<Rightarrow> (nat \<Rightarrow> string) \<Rightarrow> (nat \<Rightarrow> 'm) \<Rightarrow> (nat \<Rightarrow> (string, 'v) hash_map) \<Rightarrow> ('m \<Rightarrow> bool) \<Rightarrow>
     nat \<Rightarrow> ptr list \<Rightarrow> analyzer \<Rightarrow> exn + emitted" where
  "emit_with e name start strings verify m ns a =
     (case emit_all e (name m) ns (emitter_of (start m) (strings m) a) of
        Inl err \<Rightarrow> Inl err
      | Inr (_, s) \<Rightarrow> Inr (described (verify (em_llvm s)) (nodes a) (nodes s)))"

lemma grown_described: "grown_node n n' \<Longrightarrow> add_bindings (new_bindings n n') n = n'"
  by (erule grown_node.cases) (auto simp: add_bindings_def new_bindings_def split: node.splits stmt_body.splits)

lemma poke_described:
  assumes "grown_tree (nodes a) ns'" and "k \<le> length (nodes a)"
  shows "fold (\<lambda>(p, qs). poke_node p (add_bindings qs)) (map (\<lambda>i. (At i, new_bindings (nodes a ! i) (ns' ! i))) [0..<k]) a =
    a\<lparr>nodes := take k ns' @ drop k (nodes a)\<rparr>"
  using assms(2)
proof (induction k)
  case (Suc k)
  have k: "k < length (nodes a)" "k < length ns'" "grown_node (nodes a ! k) (ns' ! k)"
    using Suc.prems assms(1) by (auto simp: grown_tree_def)
  have "drop k (nodes a) = nodes a ! k # drop (Suc k) (nodes a)" using k(1) by (simp add: Cons_nth_drop_Suc)
  then have "(take k ns' @ drop k (nodes a))[k := ns' ! k] = take (Suc k) ns' @ drop (Suc k) (nodes a)"
    using k(2) by (simp add: list_update_append take_Suc_conv_app_nth)
  then show ?case
    using Suc k by (simp add: poke_node_def nth_append grown_described)
qed simp

text \<open>Reading a module with this emission: \<open>emit_module\<close> throws what the emission of the nodes throws, and otherwise
  leaves exactly the tree the emission leaves. So what \<open>Modules\<close> assumes of emission holds, and the theorems
  about imports hold of modules that are parsed, analysed and emitted.\<close>

lemma emission_fits_modules:
  "emit_module (ld\<lparr>ld_emit := emit_with (emitting L k g n) name start strings verify\<rparr>) source ns a =
     (let m = unat (sf_id source)
      in case emit_all (emitting L k g n) (name m) ns (emitter_of (start m) (strings m) a) of
           Inl err \<Rightarrow> Inl err
         | Inr (_, s) \<Rightarrow> Inr (verify (em_llvm s), a\<lparr>nodes := nodes s\<rparr>))"
proof -
  let ?m = "unat (sf_id source)"
  let ?s = "emitter_of (start ?m) (strings ?m) a"
  have "keeping L (\<lambda>m m'. True) (traverse (emit_at (emitting L k g n)) ns)"
    using keeping_traverse [of L "\<lambda>m m'. True" "emit_at (emitting L k g n)"] emission.emit_at [simplified emitting_simps] by blast
  then have "keeping L (\<lambda>m m'. True) (bnd (traverse (emit_at (emitting L k g n)) ns) (\<lambda>_. ret ()))"
    by (rule keeping_bnd) simp
  note kept = keepingD [OF this requests_in_any]
  have "grown_tree (nodes a) (nodes s)" if "emit_all (emitting L k g n) (name ?m) ns ?s = Inr (u, s)" for u s
  proof -
    have "bnd (traverse (emit_at (emitting L k g n)) ns) (\<lambda>_. ret ())
        (?s\<lparr>em_llvm := ll_make_ctx L (name ?m) (start ?m)\<rparr>) = Inr (u, s)"
      using that by (simp add: emit_all_def make_ctx_def bnd_def [of "modify _"] emitter_of_def)
    from kept [OF this] show ?thesis by (simp add: balanced_def emitter_of_def)
  qed
  then have "fold (\<lambda>(p, qs). poke_node p (add_bindings qs)) (em_bindings (described ok (nodes a) (nodes s))) a =
      a\<lparr>nodes := take (length (nodes a)) (nodes s)\<rparr>"
    if "emit_all (emitting L k g n) (name ?m) ns ?s = Inr (u, s)" for u s ok
    using poke_described [of a "nodes s" "length (nodes a)"] that by (simp add: described_def)
  then show ?thesis
    by (auto simp: emit_module_def emit_with_def Let_def described_def split: sum.splits)
qed

end
