(* ===== verification/Emitted_Nested.thy ===== *)
theory Emitted_Nested
  imports Emitted_Programs
begin

section \<open>Statements behind a nested conditional\<close>

text \<open>
  A conditional without \<open>else\<close> lets its branches meet in the block its body has ended in. When the body has
  a conditional or a loop and statements behind it, that block has the code of these statements, so
  they are also run when the condition is false.
\<close>

context builder
begin

lemma emit_split_body:
  assumes e: "e_llvm e = L"
    and cs: "list_all2 (\<lambda>p c. implements L V P t (emit_at e p) c \<and> \<not> terminates t p) ps cs" "ends_in_jump (Block cs)"
    and ds: "list_all2 (\<lambda>p c. implements L V P t (emit_at e p) c \<and> \<not> terminates t p) qs ds" "straight (Block ds)"
    and s: "nodes s = nodes t" "ready L V P tb s" "\<not> ll_terminated L (em_llvm s) tb" "em_if_merge_bbs s = []"
  obtains m1 m2 eb where "block_emit e (ps @ qs) s = Inr (Some eb, s\<lparr>em_llvm := m2\<rparr>)"
    "advances L V (em_llvm s) tb m1 eb" "eb \<noteq> tb" "code V m1 eb = []" "advances L V m1 eb m2 eb"
    "simulates V P (Block ds) m1 eb m2 eb"
proof -
  obtain m1 eb where 1: "\<forall>rs. emit_nodes e (Some tb) (ps @ rs) s = emit_nodes e (Some eb) rs (s\<lparr>em_llvm := m1\<rparr>)"
      "advances L V (em_llvm s) tb m1 eb" "eb \<noteq> tb" "code V m1 eb = []"
    using implements_nodes [OF e cs(1) s] cs(2) by blast
  have s1: "nodes (s\<lparr>em_llvm := m1\<rparr>) = nodes t" "ready L V P eb (s\<lparr>em_llvm := m1\<rparr>)"
      "\<not> ll_terminated L (em_llvm (s\<lparr>em_llvm := m1\<rparr>)) eb" "em_if_merge_bbs (s\<lparr>em_llvm := m1\<rparr>) = []"
    using s ready_advances [OF s(2) 1(2)] 1(2) by (simp_all add: advances_def)
  obtain m2 where 2: "\<forall>rs. emit_nodes e (Some eb) (qs @ rs) (s\<lparr>em_llvm := m1\<rparr>) = emit_nodes e (Some eb) rs (s\<lparr>em_llvm := m2\<rparr>)"
      "advances L V m1 eb m2 eb" "simulates V P (Block ds) m1 eb m2 eb"
    using implements_nodes [OF e ds(1) s1] ds(2) by auto
  have "block_emit e (ps @ qs) s = Inr (Some eb, s\<lparr>em_llvm := m2\<rparr>)"
    using 1(1) 2(1) [rule_format, of "[]"] s(2) e by (simp add: block_emit_def insert_block_def inspect_def bnd_def ready_def)
  then show thesis by (rule that [OF _ 1(2-4) 2(2,3)])
qed

lemma if_runs_outside:
  assumes e: "e_llvm e = L" and e': "e_llvm e' = L" and b: "evaluates L V P t (emit_at e cond) (truth (\<lambda>env. bval env b))"
    and body: "\<And>s. nodes s = nodes t \<Longrightarrow> emit_at e body s = block_emit e' (ps @ qs) s"
    and cs: "list_all2 (\<lambda>p c. implements L V P t (emit_at e' p) c \<and> \<not> terminates t p) ps cs" "ends_in_jump (Block cs)"
    and ds: "list_all2 (\<lambda>p c. implements L V P t (emit_at e' p) c \<and> \<not> terminates t p) qs ds" "straight (Block ds)"
    and s: "nodes s = nodes t" "ready L V P bb s" "em_if_merge_bbs s = []"
  obtains m' eb where "if_emit e cond body Null s = Inr (Some eb, s\<lparr>em_llvm := m'\<rparr>)" "ll_insert_block L m' = Some eb"
    "\<And>C env env' regs mem. covers V m' C \<Longrightarrow> holds P env mem \<Longrightarrow> \<not> bval env b \<Longrightarrow> exec (va_type P) (Block ds) env env' \<Longrightarrow>
      \<exists>regs' mem'. runs (number V) C (behind_code V C (em_llvm s) bb, regs, mem) (behind_code V C m' eb, regs', mem') \<and>
        holds P env' mem'"
proof -
  let ?m0 = "em_llvm s"
  have known_bb: "known V ?m0 bb" using s(2) by (simp add: ready_def)
  obtain v cc m1 where v: "emit_at e cond s = Inr (Some v, s\<lparr>em_llvm := m1\<rparr>)" "appends L V bb ?m0 cc m1"
      "delivers V P ?m0 cc v (truth (\<lambda>env. bval env b))"
    by (rule evaluatesD [OF b s(1,2)])
  let ?s1 = "s\<lparr>em_llvm := m1\<rparr>" and ?fn = "ll_parent L m1 bb"
  have r1: "ready L V P bb ?s1" by (rule ready_appends [OF s(2) v(2)])
  obtain tb m2 where new: "ll_new_block L ''then'' ?fn m1 = (tb, m2)" by fastforce
  note nb = new_blocks [OF new]
  let ?m3 = "ll_set_insert_point L (Some tb) m2"
  let ?s3 = "s\<lparr>em_llvm := ?m3\<rparr>"
  have ext13: "extends L V m1 ?m3" using nb unchanged_trans [OF nb(7) pointed(3)] by (auto simp: extends_def pointed)
  have code3: "code V ?m3 tb = []" by (simp add: pointed nb)
  have s3: "nodes ?s3 = nodes t" "ready L V P tb ?s3" "\<not> ll_terminated L (em_llvm ?s3) tb" "em_if_merge_bbs ?s3 = []"
    using s(1,3) r1 ext13 nb by (auto simp: ready_def in_place_def extends_def unchanged_def pointed point_keeps
        terminated_iff)
  obtain m4 m5 eb where "block_emit e' (ps @ qs) ?s3 = Inr (Some eb, ?s3\<lparr>em_llvm := m5\<rparr>)"
      and adv: "advances L V (em_llvm ?s3) tb m4 eb" "eb \<noteq> tb" "code V m4 eb = []" "advances L V m4 eb m5 eb"
      and sim: "simulates V P (Block ds) m4 eb m5 eb"
    by (rule emit_split_body [OF e' cs ds s3])
  then have at_body: "emit_at e body ?s3 = Inr (Some eb, s\<lparr>em_llvm := m5\<rparr>)" using body [OF s3(1)] by simp
  have ins5: "ll_insert_block L m5 = Some eb" "ll_terminated L m5 tb"
    using adv nb(4) by (auto simp: advances_def extends_def unchanged_def point_keeps terminated_iff)
  let ?s5 = "s\<lparr>em_llvm := m5\<rparr>" and ?jump = "CreateCondBr v tb eb"
  obtain j k l m6 where join: "join_branches e (Some v) bb tb None eb ?s5 = Inr ((), s\<lparr>em_llvm := m6\<rparr>)"
    and m6: "unchanged L V m5 m6" "ll_insert_block L m6 = Some eb"
      "code V m6 = closed_with k eb tb ((code V m5)(bb := code V m5 bb @ [(j, ?jump)]))"
    by (rule run_join [OF e, of v bb tb None eb ?s5]) (rule that; simp)
  have "ll_insert_block L m1 = Some bb" using v(2) by (simp add: appends_def)
  then have run: "if_emit e cond body Null s = Inr (Some eb, s\<lparr>em_llvm := m6\<rparr>)"
    using v(1) at_body join e ins5 adv(2) run_new_block [OF e, of "''then''" ?fn ?s1 tb m2] new
    by (simp add: if_emit_def finish_if_def emit_else_def push_merge_def pop_merge_def bnd_def run_insert_block run_point
        nonnull_def parent_of_def inspect_def run_has_terminator)
  have bb1: "known V m1 bb" using v(2) known_bb by (auto simp: appends_def unchanged_def)
  have eb: "\<not> known V m1 eb" "known V m5 eb" using adv(1,2,4) extends_known [OF ext13] by (auto simp: advances_def)
  have distinct: "bb \<noteq> tb" "bb \<noteq> eb" using bb1 nb(3) eb(1) by auto
  have bb3: "known V ?m3 bb" by (rule extends_known [OF ext13 bb1])
  have bb4: "known V m4 bb" "code V m4 bb = code V m1 bb"
    using adv(1) distinct bb3 nb(1) by (auto simp: advances_def pointed intro: extends_known)
  have "code V m5 bb = code V m1 bb" using adv(4) bb4 distinct(2) by (simp add: advances_def)
  then have at_bb: "code V m6 bb = code V ?m0 bb @ cc @ [(j, ?jump)]"
    using distinct v(2) ins5(2) by (auto simp: m6(3) closed_with_def appends_def)
  have at_eb: "code V m6 eb = code V m5 eb" using distinct(2) adv(2) by (simp add: m6(3) closed_with_def)
  have ext5: "extends L V m5 m6" using m6(1) by (auto simp: extends_def m6(3) intro!: prefix_closed)
  have bb6: "known V m6 bb" using extends_known [OF ext5] adv(4) bb4(1) by (auto simp: advances_def intro: extends_known)
  show thesis
  proof (rule that [OF run m6(2)])
    fix C env env' regs mem
    assume C: "covers V m6 C" and env: "holds P env mem" and false: "\<not> bval env b"
      and ex: "exec (va_type P) (Block ds) env env'"
    obtain regs1 where start: "runs (number V) C (behind_code V C ?m0 bb, regs, mem) (C eb, regs1, mem)"
      by (rule run_condition [OF v(3) env C bb6 at_bb, of regs]) (use false in auto)
    have "behind_code V C m4 eb = C eb" by (rule behind_start [OF adv(3)])
    then obtain regs' mem' where ran: "runs (number V) C (C eb, regs1, mem) (behind_code V C m5 eb, regs', mem')" "holds P env' mem'"
      using sim covers_extends [OF C ext5] ex env unfolding simulates_def does_def by metis
    then show "\<exists>regs' mem'. runs (number V) C (behind_code V C ?m0 bb, regs, mem) (behind_code V C m6 eb, regs', mem') \<and>
        holds P env' mem'"
      using runs_trans [OF start ran(1)] ran(2) behind_same [OF at_eb, of C] by metis
  qed
qed

end

text \<open>A conditional whose body ends in further statements behind a nested conditional or loop: when its
  condition is false the machine runs these statements.\<close>

theorem nested_conditional_runs_outside:
  fixes L :: "('m, 'v) llvm"
  assumes "builder_laws L V" and "as_stmt s p = Some st" and "st_body st = IfStmt q body Null"
    and "as_stmt s body = Some inner" and "st_body inner = BlockStmt (ps @ qs)"
    and "bool_of (Suc n) s (va_type P) q = Some b"
    and "those (map (com_of n s (va_type P)) ps) = Some cs" and "those (map (com_of n s (va_type P)) qs) = Some ds"
    and "tidy (Block cs)" and "ends_in_jump (Block cs)" and "straight (Block ds)"
    and "bvars b \<union> cvars (Block cs) \<union> cvars (Block ds) \<subseteq> va_names P"
    and "ready L V P bb s" and "em_if_merge_bbs s = []"
  shows "\<exists>m' eb. e_emit (emitting L (Suc k) g (Suc (Suc n))) p no_params s = Inr (Some eb, s\<lparr>em_llvm := m'\<rparr>) \<and>
    ll_insert_block L m' = Some eb \<and>
    (\<forall>C env env' regs mem. covers V m' C \<and> holds P env mem \<and> \<not> bval env b \<and> exec (va_type P) (Block ds) env env' \<longrightarrow>
      (\<exists>regs' mem'. runs (number V) C (behind_code V C (em_llvm s) bb, regs, mem) (behind_code V C m' eb, regs', mem') \<and>
        holds P env' mem'))"
proof -
  let ?e = "emitting L (Suc k) g (Suc n)" and ?e' = "emitting L (Suc k) g n"
  have B: "builder L V" using assms(1) by unfold_locales
  have vars: "bvars b \<subseteq> va_names P" "cvars (Block cs) \<subseteq> va_names P" "cvars (Block ds) \<subseteq> va_names P"
    using assms(12) by auto
  have q: "evaluates L V P s (emit_at ?e q) (\<lambda>env. (1, of_bool (bval env b)))"
    unfolding emit_at_def by (rule builder.evaluates_bool [OF B assms(6) vars(1)])
  have at_body: "emit_at ?e body t = block_emit ?e' (ps @ qs) t" if "nodes t = nodes s" for t :: "('m, 'v) emitter"
    using emit_stmt [OF that assms(4), of L "Suc k" g n no_params] assms(5) by (simp add: emit_at_def stmt_emit_def)
  have nodes: "list_all2 (\<lambda>p c. implements L V P s (emit_at ?e' p) c \<and> \<not> terminates s p) xs cs'"
    if "those (map (com_of n s (va_type P)) xs) = Some cs'" "tidy (Block cs')" "cvars (Block cs') \<subseteq> va_names P" for xs cs'
  proof -
    have "list_all2 (\<lambda>x c. com_of n s (va_type P) x = Some c) xs cs'" using that(1) by (simp add: those_map)
    then show ?thesis
    proof (rule list.rel_mono_strong)
      fix x c
      assume "c \<in> set cs'" and c: "com_of n s (va_type P) x = Some c"
      then have "tidy c" "cvars c \<subseteq> va_names P" using that(2,3) by (auto simp: list_all_iff)
      from builder.implements_com [OF B c this] show "implements L V P s (emit_at ?e' x) c \<and> \<not> terminates s x" .
    qed
  qed
  obtain m' eb where "if_emit ?e q body Null s = Inr (Some eb, s\<lparr>em_llvm := m'\<rparr>)" "ll_insert_block L m' = Some eb"
    "\<And>C env env' regs mem. covers V m' C \<Longrightarrow> holds P env mem \<Longrightarrow> \<not> bval env b \<Longrightarrow> exec (va_type P) (Block ds) env env' \<Longrightarrow>
      \<exists>regs' mem'. runs (number V) C (behind_code V C (em_llvm s) bb, regs, mem) (behind_code V C m' eb, regs', mem') \<and>
        holds P env' mem'"
    by (rule builder.if_runs_outside [OF B _ _ q at_body nodes [OF assms(7,9) vars(2)] assms(10)
          nodes [OF assms(8) straight_tidy [OF assms(11)] vars(3)] assms(11) refl assms(13,14)]) auto
  moreover from this have "e_emit (emitting L (Suc k) g (Suc (Suc n))) p no_params s = Inr (Some eb, s\<lparr>em_llvm := m'\<rparr>)"
    using emit_stmt [OF refl assms(2), of L "Suc k" g "Suc n" no_params] assms(3) by (simp add: stmt_emit_def)
  ultimately show ?thesis by blast
qed

end
